(* ===== verification/Py_Prelude.thy ===== *)
theory Py_Prelude
  imports Main "HOL-Library.Char_ord" "HOL-Library.List_Lexorder"
begin

text \<open>
  The part of Python the control plane rests on and every other theory shares: exceptions as
  values, the \<open>res\<close> type of a computation that returns or raises, sequences of guards
  (\<open>if cond: raise E\<close>), and the string operations the sources call (\<open>strip\<close>, \<open>upper\<close>,
  \<open>startswith\<close>, \<open>in\<close>) with the character classes of their regular expressions.

  Strings are lists of \<^typ>\<open>char\<close>; the case operations act on the ASCII letters, the alphabet of
  every state name, status, identifier and digest of the sources.
\<close>

section \<open>Exceptions and results\<close>

text \<open>
  One constructor per exception class the sources raise or catch by name, each with its message.
  \<open>TypeErr\<close>, \<open>AttributeErr\<close>, \<open>KeyErr\<close>, \<open>IndexErr\<close> and \<open>ValueErr\<close> are the ones the interpreter
  raises on an operation its operands do not have. A message with interpolated values keeps its
  fixed text.
\<close>

datatype exn =
    TransitionError string
  | RuntimeErr string
  | AssuranceError string
  | ReviewError string
  | ControlError string
  | FinalAuditError string
  | LawStatusError string
  | LockError string
  | ScopeError string
  | PolicyError string
  | SecurityError string
  | GovernanceViolation string
  | AtomicWriteError string
  | TransactionError string
  | ModuleError string
  | ManifestError string
  | BootstrapError string
  | LawFailure string
  | PrecheckError string
  | DiscoveryError string
  | RuntimeMigrationError string
  | FileNotFoundErr
  | OSErr string
  | ValueErr string
  | TypeErr
  | AttributeErr
  | KeyErr string
  | IndexErr

type_synonym 'a res = "exn + 'a"

named_theorems guards \<open>success of a guard, unfolded to the condition it checks\<close>

definition res_bind :: "'a res \<Rightarrow> ('a \<Rightarrow> 'b res) \<Rightarrow> 'b res" where
  "res_bind m f = (case m of Inl e \<Rightarrow> Inl e | Inr x \<Rightarrow> f x)"

lemma res_bind_simps [simp]:
  "res_bind (Inl e) f = Inl e"
  "res_bind (Inr x) f = f x"
  by (simp_all add: res_bind_def)

lemma res_bind_Inr [guards]:
  "res_bind m f = Inr y \<longleftrightarrow> (\<exists>x. m = Inr x \<and> f x = Inr y)"
  by (cases m) simp_all

lemma res_bind_InrE:
  assumes "res_bind m f = Inr y"
  obtains x where "m = Inr x" and "f x = Inr y"
  using assms by (auto simp: res_bind_Inr)

text \<open>\<open>guard c e\<close> is \<open>if not c: raise e\<close>; \<open>check_all\<close> runs guards in order, the first failure wins.\<close>

definition guard :: "bool \<Rightarrow> exn \<Rightarrow> unit res" where
  "guard c e = (if c then Inr () else Inl e)"

lemma guard_Inr [guards, simp]: "guard c e = Inr () \<longleftrightarrow> c"
  by (simp add: guard_def)

lemma guard_Inl: "guard c e = Inl e' \<longleftrightarrow> \<not> c \<and> e' = e"
  by (auto simp: guard_def)

lemma guard_simps [simp]: "guard True e = Inr ()" "guard False e = Inl e"
  by (simp_all add: guard_def)

fun check_all :: "unit res list \<Rightarrow> unit res" where
  "check_all [] = Inr ()"
| "check_all (Inl e # gs) = Inl e"
| "check_all (Inr u # gs) = check_all gs"

lemma check_all_Inr [guards]: "check_all (g # gs) = Inr () \<longleftrightarrow> g = Inr () \<and> check_all gs = Inr ()"
  by (cases g) simp_all

lemma check_all_append: "check_all (gs @ hs) = (case check_all gs of Inl e \<Rightarrow> Inl e | Inr u \<Rightarrow> check_all hs)"
  by (induction gs rule: check_all.induct) simp_all

lemma check_all_set: "check_all gs = Inr () \<longleftrightarrow> (\<forall>g \<in> set gs. g = Inr ())"
  by (induction gs rule: check_all.induct) auto

lemma unit_res_cases: "(r :: unit res) = Inr () \<or> (\<exists>e. r = Inl e)"
  by (cases r) simp_all

text \<open>\<open>if c: body\<close> for a body that may raise.\<close>

definition whenever :: "bool \<Rightarrow> unit res \<Rightarrow> unit res" where
  "whenever c r = (if c then r else Inr ())"

lemma whenever_Inr [guards, simp]: "whenever c r = Inr () \<longleftrightarrow> (c \<longrightarrow> r = Inr ())"
  by (simp add: whenever_def)

text \<open>\<open>is_ok\<close> reads off whether a computation returned.\<close>

definition is_ok :: "'a res \<Rightarrow> bool" where
  "is_ok r = (case r of Inl e \<Rightarrow> False | Inr x \<Rightarrow> True)"

lemma is_ok_simps [simp]: "is_ok (Inr x)" "\<not> is_ok (Inl e)"
  by (simp_all add: is_ok_def)

lemma is_ok_unit [guards]: "is_ok (r :: unit res) \<longleftrightarrow> r = Inr ()"
  by (cases r) simp_all

text \<open>A loop \<open>for x in xs: body(x)\<close> whose body may raise.\<close>

fun for_each :: "('a \<Rightarrow> unit res) \<Rightarrow> 'a list \<Rightarrow> unit res" where
  "for_each f [] = Inr ()"
| "for_each f (x # xs) = (case f x of Inl e \<Rightarrow> Inl e | Inr u \<Rightarrow> for_each f xs)"

lemma for_each_Inr [guards]: "for_each f xs = Inr () \<longleftrightarrow> (\<forall>x \<in> set xs. f x = Inr ())"
proof (induction xs)
  case (Cons x xs)
  then show ?case by (cases "f x") auto
qed simp

text \<open>A comprehension \<open>[body(x) for x in xs]\<close> whose body may raise.\<close>

fun map_res :: "('a \<Rightarrow> 'b res) \<Rightarrow> 'a list \<Rightarrow> 'b list res" where
  "map_res f [] = Inr []"
| "map_res f (x # xs) = res_bind (f x) (\<lambda>y. res_bind (map_res f xs) (\<lambda>ys. Inr (y # ys)))"

lemma map_res_Inr [guards]: "map_res f xs = Inr ys \<longleftrightarrow> list_all2 (\<lambda>x y. f x = Inr y) xs ys"
proof (induction xs arbitrary: ys)
  case (Cons x xs)
  then show ?case by (cases ys) (auto simp: res_bind_Inr)
qed auto

lemma map_res_member: "map_res f xs = Inr ys \<Longrightarrow> x \<in> set xs \<Longrightarrow> \<exists>y \<in> set ys. f x = Inr y"
  by (induction xs arbitrary: ys) (auto simp: res_bind_Inr)

lemma map_res_from: "map_res f xs = Inr ys \<Longrightarrow> y \<in> set ys \<Longrightarrow> \<exists>x \<in> set xs. f x = Inr y"
  by (induction xs arbitrary: ys) (auto simp: res_bind_Inr)

lemma map_res_ex: "map_res f xs = Inr ys \<Longrightarrow> (\<exists>y \<in> set ys. P y) \<longleftrightarrow> (\<exists>x \<in> set xs. \<exists>y. f x = Inr y \<and> P y)"
  by (induction xs arbitrary: ys) (auto simp: res_bind_Inr)

section \<open>Strings\<close>

text \<open>The white space \<open>str.strip()\<close> removes, among the characters below 256.\<close>

definition is_space :: "char \<Rightarrow> bool" where
  "is_space c \<longleftrightarrow> (let n = of_char c :: nat in
     n = 32 \<or> (9 \<le> n \<and> n \<le> 13) \<or> (28 \<le> n \<and> n \<le> 31) \<or> n = 133 \<or> n = 160)"

definition strip :: "string \<Rightarrow> string" where
  "strip s = rev (dropWhile is_space (rev (dropWhile is_space s)))"

text \<open>\<open>not s.strip()\<close>: the text is empty or white space only.\<close>

definition blank :: "string \<Rightarrow> bool" where
  "blank s \<longleftrightarrow> strip s = []"

definition upper_char :: "char \<Rightarrow> char" where
  "upper_char c = (let n = of_char c :: nat in if 97 \<le> n \<and> n \<le> 122 then char_of (n - 32) else c)"

definition lower_char :: "char \<Rightarrow> char" where
  "lower_char c = (let n = of_char c :: nat in if 65 \<le> n \<and> n \<le> 90 then char_of (n + 32) else c)"

definition upper :: "string \<Rightarrow> string" where
  "upper s = map upper_char s"

definition casefold :: "string \<Rightarrow> string" where
  "casefold s = map lower_char s"

fun startswith :: "string \<Rightarrow> string \<Rightarrow> bool" where
  "startswith s [] = True"
| "startswith [] (p # ps) = False"
| "startswith (c # s) (p # ps) = (c = p \<and> startswith s ps)"

definition endswith :: "string \<Rightarrow> string \<Rightarrow> bool" where
  "endswith s t \<longleftrightarrow> startswith (rev s) (rev t)"

text \<open>\<open>needle in haystack\<close> on strings.\<close>

fun contains :: "string \<Rightarrow> string \<Rightarrow> bool" where
  "contains [] needle = (needle = [])"
| "contains (c # s) needle = (startswith (c # s) needle \<or> contains s needle)"

definition is_digit :: "char \<Rightarrow> bool" where
  "is_digit c \<longleftrightarrow> CHR ''0'' \<le> c \<and> c \<le> CHR ''9''"

definition is_lower :: "char \<Rightarrow> bool" where
  "is_lower c \<longleftrightarrow> CHR ''a'' \<le> c \<and> c \<le> CHR ''z''"

definition is_upper :: "char \<Rightarrow> bool" where
  "is_upper c \<longleftrightarrow> CHR ''A'' \<le> c \<and> c \<le> CHR ''Z''"

definition is_hex :: "char \<Rightarrow> bool" where
  "is_hex c \<longleftrightarrow> is_digit c \<or> (CHR ''a'' \<le> c \<and> c \<le> CHR ''f'')"

definition is_alnum :: "char \<Rightarrow> bool" where
  "is_alnum c \<longleftrightarrow> is_digit c \<or> is_lower c \<or> is_upper c"

text \<open>\<open>^[0-9a-f]{64}$\<close>, matched with \<open>fullmatch\<close>.\<close>

definition is_sha256 :: "string \<Rightarrow> bool" where
  "is_sha256 s \<longleftrightarrow> length s = 64 \<and> list_all is_hex s"

text \<open>\<open>^[A-Za-z0-9][A-Za-z0-9_.-]{0,63}$\<close>.\<close>

definition is_record_id :: "string \<Rightarrow> bool" where
  "is_record_id s \<longleftrightarrow> (case s of [] \<Rightarrow> False
     | c # cs \<Rightarrow> is_alnum c \<and> length cs \<le> 63 \<and> list_all (\<lambda>d. is_alnum d \<or> d \<in> set ''_.-'') cs)"

subsection \<open>Facts about strings\<close>

lemma dropWhile_append_keep: "\<not> p x \<Longrightarrow> dropWhile p (xs @ [x]) = dropWhile p xs @ [x]"
  by (induction xs) auto

lemma strip_Nil [simp]: "strip [] = []"
  by (simp add: strip_def)

lemma blank_iff: "blank s \<longleftrightarrow> (\<forall>c \<in> set s. is_space c)"
proof
  assume "blank s"
  then have d: "\<forall>c \<in> set (dropWhile is_space s). is_space c"
    by (simp add: blank_def strip_def)
  then have "dropWhile is_space s = []"
    by (metis hd_dropWhile hd_in_set)
  then show "\<forall>c \<in> set s. is_space c" by simp
next
  assume "\<forall>c \<in> set s. is_space c"
  then have "dropWhile is_space s = []" by simp
  then have "strip s = []" unfolding strip_def by (simp only: rev.simps dropWhile.simps)
  then show "blank s" by (simp add: blank_def)
qed

text \<open>Stripping twice is stripping once, so a stored stripped text is blank iff its source was.\<close>

lemma dropWhile_no_head: "xs = [] \<or> \<not> p (hd xs) \<Longrightarrow> dropWhile p xs = xs"
  by (cases xs) auto

lemma strip_ends:
  "strip s = [] \<or> (\<not> is_space (hd (strip s)) \<and> \<not> is_space (last (strip s)))"
proof (cases "strip s = []")
  case False
  let ?d = "dropWhile is_space s"
  let ?r = "dropWhile is_space (rev ?d)"
  from False have r: "?r \<noteq> []" by (simp add: strip_def)
  have l: "\<not> is_space (last (strip s))"
    using r hd_dropWhile [of is_space "rev ?d"] by (simp add: strip_def last_rev)
  have "\<exists>ys. ?d = rev ?r @ ys"
    by (metis rev_append rev_rev_ident takeWhile_dropWhile_id)
  then obtain ys where ys: "?d = rev ?r @ ys" by blast
  then have "hd (rev ?r) = hd ?d" using r by (metis hd_append2 rev_is_Nil_conv)
  moreover have "?d \<noteq> []" using ys r by (metis Nil_is_append_conv rev_is_Nil_conv)
  ultimately have "\<not> is_space (hd (strip s))"
    using hd_dropWhile [of is_space s] by (simp add: strip_def)
  with l show ?thesis by simp
qed simp

lemma strip_idem [simp]: "strip (strip s) = strip s"
proof -
  have "dropWhile is_space (strip s) = strip s"
    using strip_ends [of s] by (intro dropWhile_no_head) auto
  moreover have "dropWhile is_space (rev (strip s)) = rev (strip s)"
    using strip_ends [of s] by (intro dropWhile_no_head) (auto simp: hd_rev)
  ultimately show ?thesis by (metis rev_rev_ident strip_def)
qed

lemma blank_strip [simp]: "blank (strip s) = blank s"
  by (simp add: blank_def)

lemma is_sha256_not_blank: "is_sha256 s \<Longrightarrow> s \<noteq> []"
  by (auto simp: is_sha256_def)

lemma startswith_append [simp]: "startswith (p @ s) p"
  by (induction p) simp_all

lemma startswith_iff: "startswith s p \<longleftrightarrow> (\<exists>t. s = p @ t)"
  by (induction s p rule: startswith.induct) auto

lemma endswith_append [simp]: "endswith (s @ t) t"
  by (simp add: endswith_def)

lemma endswith_iff: "endswith s t \<longleftrightarrow> (\<exists>r. s = r @ t)"
  unfolding endswith_def startswith_iff by (metis rev_append rev_rev_ident)

lemma contains_iff: "contains s p \<longleftrightarrow> (\<exists>a b. s = a @ p @ b)"
proof (induction s)
  case (Cons c s)
  have "(\<exists>a b. c # s = a @ p @ b) \<longleftrightarrow> (\<exists>b. c # s = p @ b) \<or> (\<exists>a b. s = a @ p @ b)"
    by (auto simp: Cons_eq_append_conv)
  then show ?case using Cons by (simp add: startswith_iff)
qed simp

end
