(* ===== verification/Py_Value.thy ===== *)
theory Py_Value
  imports Py_Prelude "HOL-Library.AList"
begin

text \<open>
  The dynamically typed values the sources work on: what \<open>json.loads\<close> returns, as the datatype
  \<open>pyval\<close>. A task, a TDD cycle, a receipt or an evidence record is a \<open>PyDict\<close>; every
  \<open>isinstance\<close> check of the sources is a predicate here, \<open>==\<close> is \<open>py_eq\<close> (where \<open>True == 1\<close> and the
  order of dictionary entries does not count), and operations the interpreter rejects raise.
  Floating-point numbers are not among the values: no field the modelled checks read is one.
\<close>

section \<open>Values and type tests\<close>

datatype pyval =
    PyNone
  | PyBool bool
  | PyInt int
  | PyStr string
  | PyList "pyval list"
  | PyDict "(string \<times> pyval) list"

type_synonym dict = "(string \<times> pyval) list"

definition is_dict :: "pyval \<Rightarrow> bool" where
  "is_dict v = (case v of PyDict kvs \<Rightarrow> True | _ \<Rightarrow> False)"

definition is_list :: "pyval \<Rightarrow> bool" where
  "is_list v = (case v of PyList xs \<Rightarrow> True | _ \<Rightarrow> False)"

definition is_str :: "pyval \<Rightarrow> bool" where
  "is_str v = (case v of PyStr s \<Rightarrow> True | _ \<Rightarrow> False)"

definition is_bool :: "pyval \<Rightarrow> bool" where
  "is_bool v = (case v of PyBool b \<Rightarrow> True | _ \<Rightarrow> False)"

text \<open>\<open>isinstance(v, int)\<close> holds of booleans too; most checks exclude them by a second test.\<close>

definition is_int :: "pyval \<Rightarrow> bool" where
  "is_int v = (case v of PyInt n \<Rightarrow> True | PyBool b \<Rightarrow> True | _ \<Rightarrow> False)"

definition is_nonneg_int :: "pyval \<Rightarrow> bool" where
  "is_nonneg_int v = (case v of PyInt n \<Rightarrow> 0 \<le> n | _ \<Rightarrow> False)"

definition is_pos_int :: "pyval \<Rightarrow> bool" where
  "is_pos_int v = (case v of PyInt n \<Rightarrow> 0 < n | _ \<Rightarrow> False)"

text \<open>\<open>isinstance(v, str) and v.strip()\<close>, and \<open>isinstance(v, str) and SHA256_RE.fullmatch(v)\<close>.\<close>

definition is_text :: "pyval \<Rightarrow> bool" where
  "is_text v = (case v of PyStr s \<Rightarrow> \<not> blank s | _ \<Rightarrow> False)"

definition is_digest :: "pyval \<Rightarrow> bool" where
  "is_digest v = (case v of PyStr s \<Rightarrow> is_sha256 s | _ \<Rightarrow> False)"

definition is_id :: "pyval \<Rightarrow> bool" where
  "is_id v = (case v of PyStr s \<Rightarrow> is_record_id s | _ \<Rightarrow> False)"

text \<open>\<open>isinstance(v, str) and v.startswith(p)\<close>.\<close>

definition str_startswith :: "pyval \<Rightarrow> string \<Rightarrow> bool" where
  "str_startswith v p = (case v of PyStr s \<Rightarrow> startswith s p | _ \<Rightarrow> False)"

definition unhashable :: "pyval \<Rightarrow> bool" where
  "unhashable v = (is_list v \<or> is_dict v)"

definition truthy :: "pyval \<Rightarrow> bool" where
  "truthy v = (case v of PyNone \<Rightarrow> False | PyBool b \<Rightarrow> b | PyInt n \<Rightarrow> n \<noteq> 0
     | PyStr s \<Rightarrow> s \<noteq> [] | PyList xs \<Rightarrow> xs \<noteq> [] | PyDict kvs \<Rightarrow> kvs \<noteq> [])"

lemmas is_type_defs = is_dict_def is_list_def is_str_def is_bool_def is_int_def

lemma type_test_simps [simp]:
  "is_dict (PyDict kvs)" "\<not> is_dict PyNone" "\<not> is_dict (PyBool b)" "\<not> is_dict (PyInt n)"
  "\<not> is_dict (PyStr s)" "\<not> is_dict (PyList xs)"
  "is_list (PyList xs)" "\<not> is_list PyNone" "\<not> is_list (PyBool b)" "\<not> is_list (PyInt n)"
  "\<not> is_list (PyStr s)" "\<not> is_list (PyDict kvs)"
  "is_str (PyStr s)" "\<not> is_str PyNone" "\<not> is_str (PyBool b)" "\<not> is_str (PyInt n)"
  "\<not> is_str (PyList xs)" "\<not> is_str (PyDict kvs)"
  "is_bool (PyBool b)" "\<not> is_bool PyNone" "\<not> is_bool (PyInt n)" "\<not> is_bool (PyStr s)"
  "\<not> is_bool (PyList xs)" "\<not> is_bool (PyDict kvs)"
  "is_int (PyInt n)" "is_int (PyBool b)" "\<not> is_int PyNone" "\<not> is_int (PyStr s)"
  "\<not> is_int (PyList xs)" "\<not> is_int (PyDict kvs)"
  by (simp_all add: is_type_defs)

lemma value_test_simps [simp]:
  "is_nonneg_int (PyInt n) = (0 \<le> n)" "\<not> is_nonneg_int PyNone" "\<not> is_nonneg_int (PyStr s)"
  "is_pos_int (PyInt n) = (0 < n)" "\<not> is_pos_int PyNone" "\<not> is_pos_int (PyStr s)"
  "\<not> is_nonneg_int (PyBool b)" "\<not> is_pos_int (PyBool b)"
  "is_text (PyStr s) = (\<not> blank s)" "\<not> is_text PyNone"
  "is_digest (PyStr s) = is_sha256 s" "\<not> is_digest PyNone"
  "is_id (PyStr s) = is_record_id s" "\<not> is_id PyNone"
  "str_startswith (PyStr s) p = startswith s p" "\<not> str_startswith PyNone p"
  by (simp_all add: is_nonneg_int_def is_pos_int_def is_text_def is_digest_def is_id_def
        str_startswith_def)

lemma value_test_other [simp]:
  "\<not> is_nonneg_int (PyList xs)" "\<not> is_nonneg_int (PyDict kvs)" "\<not> is_pos_int (PyList xs)" "\<not> is_pos_int (PyDict kvs)"
  "\<not> is_text (PyBool b)" "\<not> is_text (PyInt n)" "\<not> is_text (PyList xs)" "\<not> is_text (PyDict kvs)"
  "\<not> is_digest (PyBool b)" "\<not> is_digest (PyInt n)" "\<not> is_digest (PyList xs)" "\<not> is_digest (PyDict kvs)"
  "\<not> is_id (PyBool b)" "\<not> is_id (PyInt n)" "\<not> is_id (PyList xs)" "\<not> is_id (PyDict kvs)"
  "\<not> str_startswith (PyBool b) p" "\<not> str_startswith (PyInt n) p" "\<not> str_startswith (PyList xs) p" "\<not> str_startswith (PyDict kvs) p"
  by (simp_all add: is_nonneg_int_def is_pos_int_def is_text_def is_digest_def is_id_def str_startswith_def)

lemma truthy_simps [simp]:
  "\<not> truthy PyNone" "truthy (PyBool b) = b" "truthy (PyInt n) = (n \<noteq> 0)"
  "truthy (PyStr s) = (s \<noteq> [])" "truthy (PyList xs) = (xs \<noteq> [])" "truthy (PyDict kvs) = (kvs \<noteq> [])"
  by (simp_all add: truthy_def)

lemma unhashable_simps [simp]:
  "unhashable (PyList xs)" "unhashable (PyDict kvs)" "\<not> unhashable PyNone" "\<not> unhashable (PyBool b)"
  "\<not> unhashable (PyInt n)" "\<not> unhashable (PyStr s)"
  by (simp_all add: unhashable_def)

lemma is_dictE [elim?]: assumes "is_dict v" obtains kvs where "v = PyDict kvs"
  using assms by (cases v) auto

lemma is_listE [elim?]: assumes "is_list v" obtains xs where "v = PyList xs"
  using assms by (cases v) auto

lemma is_digestE [elim?]: assumes "is_digest v" obtains s where "v = PyStr s" "is_sha256 s"
  using assms by (cases v) (auto simp: is_digest_def)

lemma is_pos_intE [elim?]: assumes "is_pos_int v" obtains n where "v = PyInt n" "0 < n"
  using assms by (cases v) (auto simp: is_pos_int_def)

lemma is_nonneg_intE [elim?]: assumes "is_nonneg_int v" obtains n where "v = PyInt n" "0 \<le> n"
  using assms by (cases v) (auto simp: is_nonneg_int_def)

lemma is_textE [elim?]: assumes "is_text v" obtains s where "v = PyStr s" "\<not> blank s"
  using assms by (cases v) (auto simp: is_text_def)

section \<open>Dictionaries\<close>

text \<open>
  \<open>dget v k\<close> is \<open>v.get(k)\<close>, \<open>dget_or v k d\<close> is \<open>v.get(k, d)\<close>, \<open>dset v k x\<close> is \<open>v[k] = x\<close> (in place for a
  present key, at the end for a new one, as Python orders dictionaries), \<open>dpop v k\<close> is
  \<open>v.pop(k, None)\<close> and \<open>dsetdefault v k x\<close> is \<open>v.setdefault(k, x)\<close>. On a value that is not a dictionary
  the lookups answer as for an empty one: the definitions that meet such a value put the
  \<open>AttributeErr\<close> guard of \<open>attr_dict\<close> before the lookup.
\<close>

definition entries :: "pyval \<Rightarrow> dict" where
  "entries v = (case v of PyDict kvs \<Rightarrow> kvs | _ \<Rightarrow> [])"

definition has_key :: "pyval \<Rightarrow> string \<Rightarrow> bool" where
  "has_key v k \<longleftrightarrow> k \<in> fst ` set (entries v)"

definition dget_or :: "pyval \<Rightarrow> string \<Rightarrow> pyval \<Rightarrow> pyval" where
  "dget_or v k d = (case map_of (entries v) k of None \<Rightarrow> d | Some x \<Rightarrow> x)"

definition dget :: "pyval \<Rightarrow> string \<Rightarrow> pyval" where
  "dget v k = dget_or v k PyNone"

definition dset :: "pyval \<Rightarrow> string \<Rightarrow> pyval \<Rightarrow> pyval" where
  "dset v k x = PyDict (AList.update k x (entries v))"

definition dpop :: "pyval \<Rightarrow> string \<Rightarrow> pyval" where
  "dpop v k = PyDict (AList.delete k (entries v))"

definition dsetdefault :: "pyval \<Rightarrow> string \<Rightarrow> pyval \<Rightarrow> pyval" where
  "dsetdefault v k x = (if has_key v k then v else dset v k x)"

text \<open>\<open>v.update(k1=x1, ...)\<close>.\<close>

definition dupdate :: "pyval \<Rightarrow> dict \<Rightarrow> pyval" where
  "dupdate v kxs = fold (\<lambda>(k, x) w. dset w k x) kxs v"

definition attr_dict :: "pyval \<Rightarrow> unit res" where
  "attr_dict v = guard (is_dict v) AttributeErr"

lemma attr_dict_Inr [guards, simp]: "attr_dict v = Inr () \<longleftrightarrow> is_dict v"
  by (simp add: attr_dict_def)

lemma entries_simps [simp]:
  "entries (PyDict kvs) = kvs" "entries PyNone = []" "entries (PyBool b) = []"
  "entries (PyInt n) = []" "entries (PyStr s) = []" "entries (PyList xs) = []"
  by (simp_all add: entries_def)

lemma entries_dset: "entries (dset v k x) = AList.update k x (entries v)"
  by (simp add: dset_def)

lemma entries_dpop: "entries (dpop v k) = AList.delete k (entries v)"
  by (simp add: dpop_def)

lemma is_dict_dset [simp]: "is_dict (dset v k x)" "is_dict (dpop v k)"
  by (simp_all add: dset_def dpop_def)

lemma dget_dset [simp]: "dget (dset v k x) k' = (if k' = k then x else dget v k')"
  by (simp add: dget_def dget_or_def entries_dset update_conv')

lemma dget_or_dset [simp]: "dget_or (dset v k x) k' d = (if k' = k then x else dget_or v k' d)"
  by (simp add: dget_or_def entries_dset update_conv')

lemma has_key_dset [simp]: "has_key (dset v k x) k' \<longleftrightarrow> k' = k \<or> has_key v k'"
  by (auto simp: has_key_def entries_dset dom_update)

lemma has_key_iff_map_of: "has_key v k \<longleftrightarrow> map_of (entries v) k \<noteq> None"
  by (simp add: has_key_def map_of_eq_None_iff)

lemma dget_dpop [simp]: "dget (dpop v k) k' = (if k' = k then PyNone else dget v k')"
  by (auto simp: dget_def dget_or_def entries_dpop delete_conv')

lemma dget_or_dpop [simp]: "dget_or (dpop v k) k' d = (if k' = k then d else dget_or v k' d)"
  by (auto simp: dget_or_def entries_dpop delete_conv')

lemma has_key_dpop [simp]: "has_key (dpop v k) k' \<longleftrightarrow> k' \<noteq> k \<and> has_key v k'"
  by (auto simp: has_key_iff_map_of entries_dpop delete_conv')

lemma dget_not_key: "\<not> has_key v k \<Longrightarrow> dget v k = PyNone"
  by (simp add: dget_def dget_or_def has_key_iff_map_of)

lemma dget_or_key: "has_key v k \<Longrightarrow> dget_or v k d = dget v k"
  by (auto simp: dget_def dget_or_def has_key_iff_map_of)

lemma dget_or_not_key: "\<not> has_key v k \<Longrightarrow> dget_or v k d = d"
  by (simp add: dget_or_def has_key_iff_map_of)

lemma dget_not_None_key: "dget v k \<noteq> PyNone \<Longrightarrow> has_key v k"
  using dget_not_key by blast

lemma dget_setdefault [simp]:
  "dget (dsetdefault v k x) k' = (if k' = k \<and> \<not> has_key v k then x else dget v k')"
  by (simp add: dsetdefault_def)

lemma has_key_setdefault [simp]: "has_key (dsetdefault v k x) k' \<longleftrightarrow> k' = k \<or> has_key v k'"
  by (auto simp: dsetdefault_def)

lemma is_dict_setdefault [simp]: "is_dict v \<Longrightarrow> is_dict (dsetdefault v k x)"
  by (simp add: dsetdefault_def)

lemma dupdate_simps [simp]:
  "dupdate v [] = v" "dupdate v ((k, x) # kxs) = dupdate (dset v k x) kxs"
  by (simp_all add: dupdate_def)

lemma dget_cons [simp]: "dget (PyDict ((k, x) # kvs)) k' = (if k' = k then x else dget (PyDict kvs) k')"
  "dget (PyDict []) k' = PyNone"
  by (simp_all add: dget_def dget_or_def)

lemma dget_or_cons [simp]:
  "dget_or (PyDict ((k, x) # kvs)) k' d = (if k' = k then x else dget_or (PyDict kvs) k' d)"
  "dget_or (PyDict []) k' d = d"
  by (simp_all add: dget_or_def)

lemma has_key_cons [simp]: "has_key (PyDict ((k, x) # kvs)) k' \<longleftrightarrow> k' = k \<or> has_key (PyDict kvs) k'"
  "\<not> has_key (PyDict []) k'"
  by (auto simp: has_key_def)

section \<open>Equality, membership, iteration\<close>

text \<open>
  Two values are equal in Python when their normal forms are: booleans as integers, dictionary
  entries in key order.
\<close>

primrec eqnorm :: "pyval \<Rightarrow> pyval" where
  "eqnorm PyNone = PyNone"
| "eqnorm (PyBool b) = PyInt (if b then 1 else 0)"
| "eqnorm (PyInt n) = PyInt n"
| "eqnorm (PyStr s) = PyStr s"
| "eqnorm (PyList xs) = PyList (map eqnorm xs)"
| "eqnorm (PyDict kvs) = PyDict (sort_key fst (map (map_prod id eqnorm) kvs))"

definition py_eq :: "pyval \<Rightarrow> pyval \<Rightarrow> bool" where
  "py_eq a b \<longleftrightarrow> eqnorm a = eqnorm b"

lemma py_eq_refl [simp]: "py_eq a a"
  by (simp add: py_eq_def)

lemma py_eq_sym: "py_eq a b \<longleftrightarrow> py_eq b a"
  by (auto simp: py_eq_def)

lemma py_eq_trans: "py_eq a b \<Longrightarrow> py_eq b c \<Longrightarrow> py_eq a c"
  by (simp add: py_eq_def)

lemma py_eq_str [simp]: "py_eq v (PyStr s) \<longleftrightarrow> v = PyStr s" "py_eq (PyStr s) v \<longleftrightarrow> v = PyStr s"
  by (cases v; auto simp: py_eq_def)+

lemma py_eq_none [simp]: "py_eq v PyNone \<longleftrightarrow> v = PyNone" "py_eq PyNone v \<longleftrightarrow> v = PyNone"
  by (cases v; auto simp: py_eq_def)+

lemma py_eq_int: "py_eq v (PyInt n) \<longleftrightarrow> v = PyInt n \<or> (\<exists>b. v = PyBool b \<and> n = (if b then 1 else 0))"
  by (cases v) (auto simp: py_eq_def)

lemma py_eq_int_simps [simp]:
  "py_eq (PyInt m) (PyInt n) \<longleftrightarrow> m = n"
  "py_eq (PyBool b) (PyInt n) \<longleftrightarrow> n = (if b then 1 else 0)"
  "py_eq (PyInt n) (PyBool b) \<longleftrightarrow> n = (if b then 1 else 0)"
  "py_eq (PyBool b) (PyBool c) \<longleftrightarrow> b = c"
  "\<not> py_eq (PyList xs) (PyInt n)" "\<not> py_eq (PyDict kvs) (PyInt n)"
  by (auto simp: py_eq_def split: if_splits)

lemma py_eq_list: "py_eq (PyList xs) (PyList ys) \<longleftrightarrow> list_all2 py_eq xs ys"
  by (auto simp: py_eq_def list_all2_map1 list_all2_map2 list_eq_iff_nth_eq list_all2_conv_all_nth)

lemma py_eq_list_left: "py_eq v (PyList ys) \<longleftrightarrow> (\<exists>xs. v = PyList xs \<and> list_all2 py_eq xs ys)"
  by (cases v) (auto simp: py_eq_list, auto simp: py_eq_def)

lemma py_eq_Nil [simp]: "py_eq v (PyList []) \<longleftrightarrow> v = PyList []" "py_eq (PyList []) v \<longleftrightarrow> v = PyList []"
  using py_eq_sym by (auto simp: py_eq_list_left)

text \<open>\<open>v in {s1, ...}\<close> for a set of strings; a list or a dictionary is unhashable.\<close>

definition str_in :: "pyval \<Rightarrow> string list \<Rightarrow> bool" where
  "str_in v S = (case v of PyStr s \<Rightarrow> s \<in> set S | _ \<Rightarrow> False)"

definition in_set :: "pyval \<Rightarrow> string list \<Rightarrow> bool res" where
  "in_set v S = (if unhashable v then Inl TypeErr else Inr (str_in v S))"

text \<open>\<open>if v not in S: raise e\<close>.\<close>

definition memb :: "pyval \<Rightarrow> string list \<Rightarrow> exn \<Rightarrow> unit res" where
  "memb v S e = (if unhashable v then Inl TypeErr else guard (str_in v S) e)"

lemma str_in_simps [simp]:
  "str_in (PyStr s) S = (s \<in> set S)" "\<not> str_in PyNone S" "\<not> str_in (PyBool b) S" "\<not> str_in (PyInt n) S"
  "\<not> str_in (PyList xs) S" "\<not> str_in (PyDict kvs) S"
  by (simp_all add: str_in_def)

lemma str_in_iff: "str_in v S \<longleftrightarrow> (\<exists>s \<in> set S. v = PyStr s)"
  by (cases v) auto

lemma memb_Inr [guards, simp]: "memb v S e = Inr () \<longleftrightarrow> str_in v S"
  by (cases v) (simp_all add: memb_def)

lemma in_set_Inr: "in_set v S = Inr b \<longleftrightarrow> \<not> unhashable v \<and> b = str_in v S"
  by (auto simp: in_set_def)

text \<open>\<open>x in container\<close>: an equal item of a list, a key of a dictionary, a substring of a string.\<close>

definition py_in :: "pyval \<Rightarrow> pyval \<Rightarrow> bool res" where
  "py_in x c = (case c of PyList xs \<Rightarrow> Inr (\<exists>y \<in> set xs. py_eq x y)
     | PyDict kvs \<Rightarrow> (if unhashable x then Inl TypeErr else Inr (str_in x (map fst kvs)))
     | PyStr s \<Rightarrow> (case x of PyStr t \<Rightarrow> Inr (contains s t) | _ \<Rightarrow> Inl TypeErr)
     | _ \<Rightarrow> Inl TypeErr)"

lemma py_in_list [simp]: "py_in x (PyList xs) = Inr (\<exists>y \<in> set xs. py_eq x y)"
  by (simp add: py_in_def)

text \<open>\<open>for x in v\<close>: lists give their items, dictionaries their keys, strings their characters.\<close>

definition iter :: "pyval \<Rightarrow> pyval list res" where
  "iter v = (case v of PyList xs \<Rightarrow> Inr xs
     | PyDict kvs \<Rightarrow> Inr (map (PyStr \<circ> fst) kvs)
     | PyStr s \<Rightarrow> Inr (map (\<lambda>c. PyStr [c]) s)
     | _ \<Rightarrow> Inl TypeErr)"

lemma iter_list [simp]: "iter (PyList xs) = Inr xs"
  by (simp add: iter_def)

text \<open>The items of a list, and none otherwise.\<close>

definition items :: "pyval \<Rightarrow> pyval list" where
  "items v = (case v of PyList xs \<Rightarrow> xs | _ \<Rightarrow> [])"

lemma items_simps [simp]: "items (PyList xs) = xs" "items PyNone = []"
  by (simp_all add: items_def)

lemma iter_items: "is_list v \<Longrightarrow> iter v = Inr (items v)"
  by (cases v) simp_all

text \<open>
  \<open>any(P(item) for item in xs)\<close> where \<open>P\<close> starts with \<open>item.get(...)\<close>: an item that is no dictionary
  raises, unless an earlier item already answered.
\<close>

fun any_dict :: "(pyval \<Rightarrow> bool) \<Rightarrow> pyval list \<Rightarrow> bool res" where
  "any_dict P [] = Inr False"
| "any_dict P (x # xs) =
     (if \<not> is_dict x then Inl AttributeErr else if P x then Inr True else any_dict P xs)"

lemma any_dict_True: "any_dict P xs = Inr True \<Longrightarrow> \<exists>x \<in> set xs. is_dict x \<and> P x"
  by (induction xs) (auto split: if_splits)

lemma any_dict_all: "\<forall>x \<in> set xs. is_dict x \<Longrightarrow> any_dict P xs = Inr (\<exists>x \<in> set xs. P x)"
  by (induction xs) auto

text \<open>\<open>any(P(item) for item in xs)\<close> with a condition that may itself raise.\<close>

fun any_res :: "('a \<Rightarrow> bool res) \<Rightarrow> 'a list \<Rightarrow> bool res" where
  "any_res P [] = Inr False"
| "any_res P (x # xs) = (case P x of Inl e \<Rightarrow> Inl e | Inr b \<Rightarrow> if b then Inr True else any_res P xs)"

lemma any_res_True: "any_res P xs = Inr True \<Longrightarrow> \<exists>x \<in> set xs. P x = Inr True"
  by (induction xs) (auto split: sum.splits if_splits)

lemma any_res_False: "any_res P xs = Inr False \<longleftrightarrow> (\<forall>x \<in> set xs. P x = Inr False)"
  by (induction xs) (auto split: sum.splits if_splits)

lemma any_res_pure: "\<forall>x \<in> set xs. P x = Inr (Q x) \<Longrightarrow> any_res P xs = Inr (\<exists>x \<in> set xs. Q x)"
  by (induction xs) auto

text \<open>
  \<open>[item["id"] for item in xs if P(item)]\<close>, and the error a non-empty list of identifiers is
  reported with (joining anything but strings raises).
\<close>

fun collect_ids :: "(pyval \<Rightarrow> bool res) \<Rightarrow> pyval list \<Rightarrow> pyval list res" where
  "collect_ids P [] = Inr []"
| "collect_ids P (x # xs) =
     (if \<not> is_dict x then Inl AttributeErr
      else res_bind (P x) (\<lambda>b.
        if \<not> b then collect_ids P xs
        else if \<not> has_key x ''id'' then Inl (KeyErr ''id'')
        else res_bind (collect_ids P xs) (\<lambda>ids. Inr (dget x ''id'' # ids))))"

definition report_ids :: "exn \<Rightarrow> pyval list \<Rightarrow> unit res" where
  "report_ids e ids = (if ids = [] then Inr () else if \<forall>i \<in> set ids. is_str i then Inl e else Inl TypeErr)"

lemma report_ids_Inr [guards, simp]: "report_ids e ids = Inr () \<longleftrightarrow> ids = []"
  by (simp add: report_ids_def)

lemma collect_ids_Nil:
  "collect_ids P xs = Inr [] \<longleftrightarrow> (\<forall>x \<in> set xs. is_dict x \<and> P x = Inr False)"
  by (induction xs) (auto simp: res_bind_Inr split: if_splits)

text \<open>\<open>[f(item) for item in xs]\<close> where \<open>f\<close> starts with \<open>item.get(...)\<close>.\<close>

definition map_dict :: "(pyval \<Rightarrow> 'a) \<Rightarrow> pyval list \<Rightarrow> 'a list res" where
  "map_dict f xs = (if \<forall>x \<in> set xs. is_dict x then Inr (map f xs) else Inl AttributeErr)"

lemma map_dict_Inr: "map_dict f xs = Inr ys \<longleftrightarrow> (\<forall>x \<in> set xs. is_dict x) \<and> ys = map f xs"
  by (auto simp: map_dict_def)

section \<open>Numbers and text\<close>

fun nat_digits :: "nat \<Rightarrow> string" where
  "nat_digits n = (if n < 10 then [char_of (48 + n)] else nat_digits (n div 10) @ [char_of (48 + n mod 10)])"

declare nat_digits.simps [simp del]

definition int_str :: "int \<Rightarrow> string" where
  "int_str n = (if n < 0 then CHR ''-'' # nat_digits (nat (- n)) else nat_digits (nat n))"

text \<open>\<open>int(v)\<close>: of a string, an optional sign and digits, with single underscores between digits.\<close>

definition digit_val :: "char \<Rightarrow> nat" where
  "digit_val c = of_char c - 48"

fun int_digits :: "nat \<Rightarrow> string \<Rightarrow> nat option" where
  "int_digits acc [] = Some acc"
| "int_digits acc (c # s) =
     (if is_digit c then int_digits (10 * acc + digit_val c) s
      else if c = CHR ''_'' \<and> s \<noteq> [] \<and> is_digit (hd s) then int_digits acc s
      else None)"

definition int_literal :: "string \<Rightarrow> int option" where
  "int_literal s = (case strip s of
       [] \<Rightarrow> None
     | c # cs \<Rightarrow>
        (let (sign, ds) = (if c = CHR ''-'' then (- 1, cs) else if c = CHR ''+'' then (1, cs) else (1, c # cs))
         in if ds = [] \<or> \<not> is_digit (hd ds) then None
            else map_option (\<lambda>n. sign * int n) (int_digits 0 ds)))"

definition py_int :: "pyval \<Rightarrow> int res" where
  "py_int v = (case v of PyInt n \<Rightarrow> Inr n | PyBool b \<Rightarrow> Inr (if b then 1 else 0)
     | PyStr s \<Rightarrow> (case int_literal s of None \<Rightarrow> Inl (ValueErr ''invalid literal for int()'') | Some n \<Rightarrow> Inr n)
     | _ \<Rightarrow> Inl TypeErr)"

lemma py_int_simps [simp]: "py_int (PyInt n) = Inr n" "py_int PyNone = Inl TypeErr"
  by (simp_all add: py_int_def)

text \<open>\<open>repr\<close> and \<open>str\<close>.\<close>

definition hex_digit :: "nat \<Rightarrow> char" where
  "hex_digit n = (if n < 10 then char_of (48 + n) else char_of (87 + n))"

definition repr_char :: "char \<Rightarrow> char \<Rightarrow> string" where
  "repr_char quote c = (let n = of_char c :: nat in
     if c = quote \<or> n = 92 then [CHR 0x5C, c]
     else if n = 9 then [CHR 0x5C, CHR ''t'']
     else if n = 10 then [CHR 0x5C, CHR ''n'']
     else if n = 13 then [CHR 0x5C, CHR ''r'']
     else if n < 32 \<or> (127 \<le> n \<and> n \<le> 160) \<or> n = 173
       then [CHR 0x5C, CHR ''x'', hex_digit (n div 16), hex_digit (n mod 16)]
     else [c])"

definition str_repr :: "string \<Rightarrow> string" where
  "str_repr s = (let quote = (if CHR 0x27 \<in> set s \<and> CHR 0x22 \<notin> set s then CHR 0x22 else CHR 0x27)
     in quote # concat (map (repr_char quote) s) @ [quote])"

fun join :: "string \<Rightarrow> string list \<Rightarrow> string" where
  "join sep [] = []"
| "join sep [s] = s"
| "join sep (s # t # ss) = s @ sep @ join sep (t # ss)"

primrec py_repr :: "pyval \<Rightarrow> string" where
  "py_repr PyNone = ''None''"
| "py_repr (PyBool b) = (if b then ''True'' else ''False'')"
| "py_repr (PyInt n) = int_str n"
| "py_repr (PyStr s) = str_repr s"
| "py_repr (PyList xs) = ''['' @ join '', '' (map py_repr xs) @ '']''"
| "py_repr (PyDict kvs) =
     ''{'' @ join '', '' (map (\<lambda>(k, r). str_repr k @ '': '' @ r) (map (map_prod id py_repr) kvs)) @ ''}''"

definition py_str :: "pyval \<Rightarrow> string" where
  "py_str v = (case v of PyStr s \<Rightarrow> s | _ \<Rightarrow> py_repr v)"

lemma py_str_str [simp]: "py_str (PyStr s) = s"
  by (simp add: py_str_def)

section \<open>Well-formed values\<close>

text \<open>Every dictionary of a Python value has each key once, at every depth.\<close>

primrec wf_val :: "pyval \<Rightarrow> bool" where
  "wf_val PyNone = True"
| "wf_val (PyBool b) = True"
| "wf_val (PyInt n) = True"
| "wf_val (PyStr s) = True"
| "wf_val (PyList xs) = list_all id (map wf_val xs)"
| "wf_val (PyDict kvs) = (distinct (map fst kvs) \<and> list_all (\<lambda>(k, b). b) (map (map_prod id wf_val) kvs))"

lemma wf_dict: "wf_val (PyDict kvs) \<longleftrightarrow> distinct (map fst kvs) \<and> (\<forall>(k, v) \<in> set kvs. wf_val v)"
  by (auto simp: list_all_iff)

lemma wf_list: "wf_val (PyList xs) \<longleftrightarrow> (\<forall>x \<in> set xs. wf_val x)"
  by (auto simp: list_all_iff)

lemma set_update_subset: "set (AList.update k x kvs) \<subseteq> insert (k, x) (set kvs)"
  by (induction kvs) auto

lemma wf_entries:
  assumes "wf_val v"
  shows "distinct (map fst (entries v))" and "(k, x) \<in> set (entries v) \<Longrightarrow> wf_val x"
  using assms by (cases v; auto simp: wf_dict simp del: wf_val.simps)+

lemma wf_dset:
  assumes "wf_val v" and "wf_val x"
  shows "wf_val (dset v k x)"
proof -
  have "wf_val y" if "(l, y) \<in> set (AList.update k x (entries v))" for l y
    using that set_update_subset [of k x "entries v"] wf_entries(2) [OF assms(1)] assms(2) by blast
  then show ?thesis
    using wf_entries(1) [OF assms(1)]
    by (auto simp: dset_def wf_dict distinct_update simp del: wf_val.simps)
qed

end
