(* ===== verification/Json.thy ===== *)
theory Json
  imports Py_Value
begin

text \<open>
  The JSON text the control plane hashes and stores: \<open>json.dumps(v, sort_keys=True,
  separators=(",", ":"))\<close> with the default ASCII escapes, which every module calls \<open>_canonical\<close>,
  and \<open>json.loads\<close> on the same fragment (no floating-point numbers). The theory shows that reading
  back a printed value gives the value with its keys sorted, so that two values with the same
  canonical text are the same value up to the order of dictionary entries.
\<close>

section \<open>Printing\<close>

abbreviation (input) quote_char :: char where "quote_char \<equiv> CHR 0x22"
abbreviation (input) backslash :: char where "backslash \<equiv> CHR 0x5C"

definition esc_char :: "char \<Rightarrow> string" where
  "esc_char c = (let n = of_char c :: nat in
     if n = 34 \<or> n = 92 then [backslash, c]
     else if n = 10 then [backslash, CHR ''n'']
     else if n = 13 then [backslash, CHR ''r'']
     else if n = 9 then [backslash, CHR ''t'']
     else if n = 12 then [backslash, CHR ''f'']
     else if n = 8 then [backslash, CHR ''b'']
     else if n < 32 \<or> 126 < n
       then [backslash, CHR ''u'', CHR ''0'', CHR ''0'', hex_digit (n div 16), hex_digit (n mod 16)]
     else [c])"

definition json_string :: "string \<Rightarrow> string" where
  "json_string s = quote_char # concat (map esc_char s) @ [quote_char]"

primrec json_dumps :: "pyval \<Rightarrow> string" where
  "json_dumps PyNone = ''null''"
| "json_dumps (PyBool b) = (if b then ''true'' else ''false'')"
| "json_dumps (PyInt n) = int_str n"
| "json_dumps (PyStr s) = json_string s"
| "json_dumps (PyList xs) = CHR ''['' # join '','' (map json_dumps xs) @ '']''"
| "json_dumps (PyDict kvs) =
     CHR ''{'' # join '','' (map (\<lambda>(k, t). json_string k @ CHR '':'' # t) (map (map_prod id json_dumps) kvs)) @ ''}''"

text \<open>\<open>sort_keys=True\<close>: the entries of every dictionary in key order.\<close>

primrec canon :: "pyval \<Rightarrow> pyval" where
  "canon PyNone = PyNone"
| "canon (PyBool b) = PyBool b"
| "canon (PyInt n) = PyInt n"
| "canon (PyStr s) = PyStr s"
| "canon (PyList xs) = PyList (map canon xs)"
| "canon (PyDict kvs) = PyDict (sort_key fst (map (map_prod id canon) kvs))"

definition canonical :: "pyval \<Rightarrow> string" where
  "canonical v = json_dumps (canon v)"

section \<open>Reading\<close>

definition json_ws :: "char \<Rightarrow> bool" where
  "json_ws c \<longleftrightarrow> c \<in> {CHR '' '', CHR 0x09, CHR 0x0A, CHR 0x0D}"

abbreviation skip_ws :: "string \<Rightarrow> string" where
  "skip_ws \<equiv> dropWhile json_ws"

definition hex_val :: "char \<Rightarrow> nat option" where
  "hex_val c = (let n = of_char c :: nat in
     if 48 \<le> n \<and> n \<le> 57 then Some (n - 48)
     else if 97 \<le> n \<and> n \<le> 102 then Some (n - 87)
     else if 65 \<le> n \<and> n \<le> 70 then Some (n - 55) else None)"

text \<open>The four digits of a \<open>\\u\<close> escape; code points from 256 on are outside the modelled strings.\<close>

definition unicode_escape :: "char \<Rightarrow> char \<Rightarrow> char \<Rightarrow> char \<Rightarrow> char option" where
  "unicode_escape a b c d = (case (hex_val a, hex_val b, hex_val c, hex_val d) of
     (Some p, Some q, Some r, Some s) \<Rightarrow> if p = 0 \<and> q = 0 then Some (char_of (16 * r + s)) else None
   | _ \<Rightarrow> None)"

definition simple_escape :: "char \<Rightarrow> char option" where
  "simple_escape e =
     (if e = quote_char \<or> e = backslash \<or> e = CHR ''/'' then Some e
      else if e = CHR ''n'' then Some (CHR 0x0A) else if e = CHR ''r'' then Some (CHR 0x0D)
      else if e = CHR ''t'' then Some (CHR 0x09) else if e = CHR ''f'' then Some (CHR 0x0C)
      else if e = CHR ''b'' then Some (CHR 0x08) else None)"

text \<open>The rest of a string literal, after its opening quote.\<close>

fun json_str :: "string \<Rightarrow> (string \<times> string) option" where
  "json_str [] = None"
| "json_str (c # s) =
     (if c = quote_char then Some ([], s)
      else if c = backslash then
        (case s of
           [] \<Rightarrow> None
         | e # t \<Rightarrow>
            (if e = CHR ''u'' then
               (case t of h1 # h2 # h3 # h4 # r \<Rightarrow>
                  (case unicode_escape h1 h2 h3 h4 of None \<Rightarrow> None
                   | Some d \<Rightarrow> map_option (map_prod (Cons d) id) (json_str r))
                | _ \<Rightarrow> None)
             else
               (case simple_escape e of None \<Rightarrow> None
                | Some d \<Rightarrow> map_option (map_prod (Cons d) id) (json_str t))))
      else if (of_char c :: nat) < 32 then None
      else map_option (map_prod (Cons c) id) (json_str s))"

definition digits_val :: "string \<Rightarrow> nat" where
  "digits_val ds = foldl (\<lambda>n c. 10 * n + digit_val c) 0 ds"

definition json_nat :: "string \<Rightarrow> (nat \<times> string) option" where
  "json_nat s = (case s of [] \<Rightarrow> None
     | c # t \<Rightarrow> if c = CHR ''0'' then Some (0, t)
         else if is_digit c then Some (digits_val (takeWhile is_digit s), dropWhile is_digit s)
         else None)"

definition json_int :: "string \<Rightarrow> (pyval \<times> string) option" where
  "json_int s = (case s of [] \<Rightarrow> None
     | c # t \<Rightarrow> if c = CHR ''-'' then map_option (map_prod (\<lambda>n. PyInt (- int n)) id) (json_nat t)
         else map_option (map_prod (\<lambda>n. PyInt (int n)) id) (json_nat s))"

text \<open>A later entry of an object replaces an earlier one with the same key.\<close>

definition dict_of :: "(string \<times> pyval) list \<Rightarrow> pyval" where
  "dict_of kvs = PyDict (fold (\<lambda>(k, v) d. AList.update k v d) kvs [])"

text \<open>The number bounds the nesting of calls; \<open>json_loads\<close> gives more than any input can use.\<close>

fun json_val :: "nat \<Rightarrow> string \<Rightarrow> (pyval \<times> string) option"
and json_elems :: "nat \<Rightarrow> string \<Rightarrow> (pyval list \<times> string) option"
and json_members :: "nat \<Rightarrow> string \<Rightarrow> ((string \<times> pyval) list \<times> string) option" where
  "json_val 0 s = None"
| "json_val (Suc n) s = (case skip_ws s of
       [] \<Rightarrow> None
     | c # t \<Rightarrow>
        if c = quote_char then map_option (map_prod PyStr id) (json_str t)
        else if c = CHR ''['' then
          (if startswith (skip_ws t) '']'' then Some (PyList [], tl (skip_ws t))
           else map_option (map_prod PyList id) (json_elems n t))
        else if c = CHR ''{'' then
          (if startswith (skip_ws t) ''}'' then Some (PyDict [], tl (skip_ws t))
           else map_option (map_prod dict_of id) (json_members n t))
        else if startswith (c # t) ''null'' then Some (PyNone, drop 4 (c # t))
        else if startswith (c # t) ''true'' then Some (PyBool True, drop 4 (c # t))
        else if startswith (c # t) ''false'' then Some (PyBool False, drop 5 (c # t))
        else json_int (c # t))"
| "json_elems 0 s = None"
| "json_elems (Suc n) s = (case json_val n s of
       None \<Rightarrow> None
     | Some (v, r) \<Rightarrow> (case skip_ws r of
           [] \<Rightarrow> None
         | d # r' \<Rightarrow> if d = CHR '','' then map_option (map_prod (Cons v) id) (json_elems n r')
             else if d = CHR '']'' then Some ([v], r') else None))"
| "json_members 0 s = None"
| "json_members (Suc n) s = (case skip_ws s of
       [] \<Rightarrow> None
     | q # t \<Rightarrow> if q \<noteq> quote_char then None else
        (case json_str t of None \<Rightarrow> None
         | Some (k, r) \<Rightarrow> (case skip_ws r of [] \<Rightarrow> None
             | d # r' \<Rightarrow> if d \<noteq> CHR '':'' then None else
                (case json_val n r' of None \<Rightarrow> None
                 | Some (v, r2) \<Rightarrow> (case skip_ws r2 of [] \<Rightarrow> None
                     | e # r3 \<Rightarrow> if e = CHR '','' then map_option (map_prod (Cons (k, v)) id) (json_members n r3)
                         else if e = CHR ''}'' then Some ([(k, v)], r3) else None)))))"

definition json_loads :: "string \<Rightarrow> pyval option" where
  "json_loads s = (case json_val (2 * length s + 2) s of
     Some (v, r) \<Rightarrow> if skip_ws r = [] then Some v else None | None \<Rightarrow> None)"

section \<open>Strings and numbers read back\<close>

lemma of_char_lt_256: "(of_char c :: nat) < 256"
  using range_nat_of_char by auto

lemma hex_val_digit: "k < 16 \<Longrightarrow> hex_val (hex_digit k) = Some k"
  by (auto simp: hex_val_def hex_digit_def Let_def)

lemma unicode_escape_digits:
  "unicode_escape (CHR ''0'') (CHR ''0'') (hex_digit ((of_char c :: nat) div 16)) (hex_digit ((of_char c :: nat) mod 16)) = Some c"
proof -
  let ?n = "of_char c :: nat"
  have "?n div 16 < 16" using of_char_lt_256 [of c] by (simp add: less_mult_imp_div_less)
  moreover have "hex_val (CHR ''0'') = Some 0" by (simp add: hex_val_def)
  moreover have "16 * (?n div 16) + ?n mod 16 = ?n" by simp
  ultimately show ?thesis by (simp add: unicode_escape_def hex_val_digit)
qed

lemma char_eqI: "(of_char c :: nat) = of_char d \<Longrightarrow> c = d"
  by simp

lemma json_str_esc: "json_str (esc_char c @ t) = map_option (map_prod (Cons c) id) (json_str t)"
proof -
  let ?n = "of_char c :: nat"
  have code: "c = char_of ?n" by simp
  consider "?n = 34 \<or> ?n = 92" | "?n \<in> {10, 13, 9, 12, 8}"
    | "?n \<notin> {34, 92, 10, 13, 9, 12, 8}" "?n < 32 \<or> 126 < ?n"
    | "?n \<notin> {34, 92}" "32 \<le> ?n" "?n \<le> 126" by force
  then show ?thesis
  proof cases
    case 1
    then have "c = quote_char \<or> c = backslash" by (auto intro!: char_eqI)
    then show ?thesis by (auto simp: esc_char_def simple_escape_def)
  next
    case 2
    then have "c = CHR 0x0A \<or> c = CHR 0x0D \<or> c = CHR 0x09 \<or> c = CHR 0x0C \<or> c = CHR 0x08"
      by (auto intro!: char_eqI)
    then show ?thesis by (auto simp: esc_char_def simple_escape_def)
  next
    case 3
    then show ?thesis using unicode_escape_digits [of c] by (simp add: esc_char_def Let_def)
  next
    case 4
    then have "c \<noteq> quote_char" "c \<noteq> backslash" by auto
    with 4 show ?thesis by (simp add: esc_char_def Let_def)
  qed
qed

lemma json_str_string: "json_str (concat (map esc_char s) @ quote_char # r) = Some (s, r)"
  by (induction s) (simp_all add: json_str_esc)

lemma digit_char [simp]: "d < 10 \<Longrightarrow> is_digit (char_of (48 + d :: nat))"
  and digit_char_val [simp]: "d < 10 \<Longrightarrow> digit_val (char_of (48 + d :: nat)) = d"
  by (simp_all add: is_digit_def digit_val_def less_eq_char_def)

lemma digits_val_snoc: "digits_val (ds @ [c]) = 10 * digits_val ds + digit_val c"
  by (simp add: digits_val_def)

lemma nat_digits_props:
  "digits_val (nat_digits n) = n \<and> list_all is_digit (nat_digits n) \<and> nat_digits n \<noteq> []
   \<and> (0 < n \<longrightarrow> hd (nat_digits n) \<noteq> CHR ''0'')"
proof (induction n rule: nat_digits.induct)
  case (1 n)
  show ?case
  proof (cases "n < 10")
    case True
    have "hd (nat_digits n) \<noteq> CHR ''0''" if "0 < n"
    proof
      assume "hd (nat_digits n) = CHR ''0''"
      then have "char_of (48 + n) = CHR ''0''" using True by (simp add: nat_digits.simps)
      then have "(of_char (char_of (48 + n) :: char) :: nat) = of_char CHR ''0''" by simp
      then show False using True that by simp
    qed
    with True show ?thesis
      by (simp add: nat_digits.simps [of n] digits_val_def)
  next
    case False
    then have "0 < n div 10" by simp
    with False 1 show ?thesis
      by (simp add: nat_digits.simps [of n] digits_val_snoc)
  qed
qed

lemmas nat_digits_val = nat_digits_props [THEN conjunct1]
lemmas nat_digits_all = nat_digits_props [THEN conjunct2, THEN conjunct1]
lemmas nat_digits_ne = nat_digits_props [THEN conjunct2, THEN conjunct2, THEN conjunct1]

text \<open>What may follow a printed number: anything that does not start with a digit.\<close>

definition delim :: "string \<Rightarrow> bool" where
  "delim r \<longleftrightarrow> r = [] \<or> \<not> is_digit (hd r)"

lemma delim_simps [simp]: "delim []" "delim (c # r) = (\<not> is_digit c)"
  by (simp_all add: delim_def)

lemma json_nat_digits:
  assumes "delim r"
  shows "json_nat (nat_digits n @ r) = Some (n, r)"
proof (cases "n = 0")
  case True
  have "char_of (48 :: nat) = CHR ''0''" by (rule char_eqI) simp
  with True show ?thesis by (simp add: nat_digits.simps [of 0] json_nat_def)
next
  case False
  obtain c cs where cs: "nat_digits n = c # cs"
    using nat_digits_ne [of n] by (cases "nat_digits n") auto
  have all: "list_all is_digit (c # cs)" and ne: "c \<noteq> CHR ''0''"
    using nat_digits_props [of n] False cs by auto
  have "takeWhile is_digit ((c # cs) @ r) = c # cs" and "dropWhile is_digit ((c # cs) @ r) = r"
    using all assms by (auto simp: list_all_iff delim_def takeWhile_append dropWhile_append
        takeWhile_eq_Nil_iff dropWhile_eq_self_iff)
  with all ne show ?thesis
    using nat_digits_val [of n] by (simp add: json_nat_def cs)
qed

lemma json_int_str:
  assumes "delim r"
  shows "json_int (int_str n @ r) = Some (PyInt n, r)"
proof (cases "n < 0")
  case True
  then show ?thesis using assms by (simp add: int_str_def json_int_def json_nat_digits)
next
  case False
  obtain c cs where cs: "nat_digits (nat n) = c # cs"
    using nat_digits_ne [of "nat n"] by (cases "nat_digits (nat n)") auto
  then have "c \<noteq> CHR ''-''"
    using nat_digits_all [of "nat n"] by (auto simp: is_digit_def less_eq_char_def)
  with False assms cs show ?thesis
    using json_nat_digits [of r "nat n"] by (simp add: int_str_def json_int_def)
qed

section \<open>Values read back\<close>

text \<open>The nesting of calls a printed value needs, at most the length of its text.\<close>

primrec need :: "pyval \<Rightarrow> nat" where
  "need PyNone = 1"
| "need (PyBool b) = 1"
| "need (PyInt n) = 1"
| "need (PyStr s) = 1"
| "need (PyList xs) = Suc (sum_list (map Suc (map need xs)))"
| "need (PyDict kvs) = Suc (sum_list (map (\<lambda>(k, n). Suc n) (map (map_prod id need) kvs)))"

text \<open>The first character of a printed value: no white space and no closing bracket.\<close>

definition opener :: "char \<Rightarrow> bool" where
  "opener c \<longleftrightarrow> \<not> json_ws c \<and> c \<noteq> CHR '']'' \<and> c \<noteq> CHR ''}''"

lemma digit_opener: "is_digit c \<Longrightarrow> opener c"
  by (auto simp: opener_def json_ws_def is_digit_def less_eq_char_def)

lemma int_str_opener: "\<exists>c t. int_str n = c # t \<and> opener c \<and> (is_digit c \<or> c = CHR ''-'')"
proof (cases "n < 0")
  case True
  then show ?thesis by (simp add: int_str_def opener_def json_ws_def)
next
  case False
  then show ?thesis
    using nat_digits_ne [of "nat n"] nat_digits_all [of "nat n"]
    by (cases "nat_digits (nat n)") (auto simp: int_str_def digit_opener)
qed

lemma json_dumps_opener: "\<exists>c t. json_dumps v = c # t \<and> opener c"
proof (cases v)
  case (PyInt n)
  then show ?thesis using int_str_opener [of n] by auto
qed (auto simp: json_string_def opener_def json_ws_def)

lemma json_val_int:
  assumes "delim r"
  shows "json_val (Suc n) (int_str i @ r) = Some (PyInt i, r)"
proof -
  obtain c t where c: "int_str i = c # t" "opener c" "is_digit c \<or> c = CHR ''-''"
    using int_str_opener by blast
  then have "c \<noteq> quote_char" "c \<noteq> CHR ''[''" "c \<noteq> CHR ''{''" "c \<noteq> CHR ''n''" "c \<noteq> CHR ''t''" "c \<noteq> CHR ''f''"
    by (auto simp: is_digit_def less_eq_char_def)
  then show ?thesis
    using c json_int_str [OF assms, of i] by (simp add: opener_def)
qed

definition reads_back :: "pyval \<Rightarrow> bool" where
  "reads_back v \<longleftrightarrow> (\<forall>n r. need v \<le> n \<longrightarrow> delim r \<longrightarrow> json_val n (json_dumps v @ r) = Some (v, r))"

lemma reads_backD: "reads_back v \<Longrightarrow> need v \<le> n \<Longrightarrow> delim r \<Longrightarrow> json_val n (json_dumps v @ r) = Some (v, r)"
  by (simp add: reads_back_def)

lemma not_digit_punct [simp]: "\<not> is_digit (CHR '','')" "\<not> is_digit (CHR '']'')" "\<not> is_digit (CHR ''}'')"
  by (simp_all add: is_digit_def less_eq_char_def)

lemma not_ws_punct [simp]:
  "\<not> json_ws (CHR '','')" "\<not> json_ws (CHR '']'')" "\<not> json_ws (CHR ''}'')" "\<not> json_ws (CHR '':'')"
  "\<not> json_ws quote_char" "\<not> json_ws (CHR ''['')" "\<not> json_ws (CHR ''{'')"
  "\<not> json_ws (CHR ''n'')" "\<not> json_ws (CHR ''t'')" "\<not> json_ws (CHR ''f'')"
  by (simp_all add: json_ws_def)

lemma json_elems_reads:
  assumes "xs \<noteq> []" and "\<forall>x \<in> set xs. reads_back x" and "sum_list (map Suc (map need xs)) \<le> n"
  shows "json_elems n (join '','' (map json_dumps xs) @ CHR '']'' # r) = Some (xs, r)"
  using assms
proof (induction xs arbitrary: n)
  case (Cons x xs)
  obtain m where n: "n = Suc m" using Cons.prems(3) by (cases n) auto
  show ?case
  proof (cases xs)
    case Nil
    then show ?thesis
      using reads_backD [of x m "CHR '']'' # r"] Cons.prems n by simp
  next
    case (Cons y ys)
    have tl: "json_elems m (join '','' (map json_dumps xs) @ CHR '']'' # r) = Some (xs, r)"
      by (rule Cons.IH) (use Cons.prems n Cons in auto)
    have "json_val m (json_dumps x @ CHR '','' # join '','' (map json_dumps xs) @ CHR '']'' # r)
      = Some (x, CHR '','' # join '','' (map json_dumps xs) @ CHR '']'' # r)"
      by (rule reads_backD) (use Cons.prems n in auto)
    with tl show ?thesis by (simp add: n Cons)
  qed
qed simp

abbreviation member_text :: "string \<times> pyval \<Rightarrow> string" where
  "member_text kv \<equiv> json_string (fst kv) @ CHR '':'' # json_dumps (snd kv)"

lemma json_members_reads:
  assumes "kvs \<noteq> []" and "\<forall>kv \<in> set kvs. reads_back (snd kv)"
    and "sum_list (map (\<lambda>kv. Suc (need (snd kv))) kvs) \<le> n"
  shows "json_members n (join '','' (map member_text kvs) @ CHR ''}'' # r) = Some (kvs, r)"
  using assms
proof (induction kvs arbitrary: n)
  case (Cons kv kvs)
  obtain m where n: "n = Suc m" using Cons.prems(3) by (cases n) auto
  obtain k v where kv: "kv = (k, v)" by (cases kv)
  have key: "json_str (concat (map esc_char k) @ quote_char # t) = Some (k, t)" for t
    by (rule json_str_string)
  show ?case
  proof (cases kvs)
    case Nil
    then show ?thesis
      using reads_backD [of v m "CHR ''}'' # r"] Cons.prems n kv key
      by (simp add: json_string_def)
  next
    case (Cons kv' kvs')
    have tl: "json_members m (join '','' (map member_text kvs) @ CHR ''}'' # r) = Some (kvs, r)"
      by (rule Cons.IH) (use Cons.prems n Cons in auto)
    have "json_val m (json_dumps v @ CHR '','' # join '','' (map member_text kvs) @ CHR ''}'' # r)
      = Some (v, CHR '','' # join '','' (map member_text kvs) @ CHR ''}'' # r)"
      by (rule reads_backD) (use Cons.prems n kv in auto)
    with tl key show ?thesis by (simp add: n Cons kv json_string_def)
  qed
qed simp

lemma update_new: "k \<notin> fst ` set d \<Longrightarrow> AList.update k v d = d @ [(k, v)]"
  by (induction d) auto

lemma fold_update_distinct:
  assumes "distinct (map fst (d @ kvs))"
  shows "fold (\<lambda>(k, v) d. AList.update k v d) kvs d = d @ kvs"
  using assms
proof (induction kvs arbitrary: d)
  case (Cons kv kvs)
  obtain k v where kv: "kv = (k, v)" by (cases kv)
  have "AList.update k v d = d @ [(k, v)]"
    using Cons.prems kv by (intro update_new) auto
  then show ?case using Cons.IH [of "d @ [(k, v)]"] Cons.prems kv by simp
qed simp

lemma dict_of_distinct: "distinct (map fst kvs) \<Longrightarrow> dict_of kvs = PyDict kvs"
  using fold_update_distinct [of "[]" kvs] by (simp add: dict_of_def)

lemma join_startswith:
  assumes "xs \<noteq> []" and "\<forall>x \<in> set xs. \<exists>c t. f x = c # t \<and> opener c"
  shows "\<exists>c t. join '','' (map f xs) @ r = c # t \<and> opener c"
  using assms by (cases xs rule: remdups_adj.cases) force+

lemma reads_back_list:
  assumes "\<forall>x \<in> set xs. reads_back x"
  shows "reads_back (PyList xs)"
proof (cases "xs = []")
  case True
  have "json_val n (json_dumps (PyList []) @ r) = Some (PyList [], r)" if "1 \<le> n" for n r
    using that by (cases n) simp_all
  with True show ?thesis by (simp add: reads_back_def)
next
  case False
  {
    fix n r
    assume n: "need (PyList xs) \<le> n"
    then obtain m where m: "n = Suc m" "sum_list (map Suc (map need xs)) \<le> m" by (cases n) auto
    obtain c t where ct: "join '','' (map json_dumps xs) @ CHR '']'' # r = c # t" "opener c"
      using join_startswith [OF False, of json_dumps] json_dumps_opener by blast
    then have "\<not> startswith (skip_ws (c # t)) '']''" by (simp add: opener_def)
    then have "json_val n (json_dumps (PyList xs) @ r) = Some (PyList xs, r)"
      using json_elems_reads [OF False assms m(2), of r] m(1) ct by simp
  }
  then show ?thesis by (simp add: reads_back_def)
qed

lemma reads_back_dict:
  assumes "\<forall>kv \<in> set kvs. reads_back (snd kv)" and "distinct (map fst kvs)"
  shows "reads_back (PyDict kvs)"
proof (cases "kvs = []")
  case True
  have "json_val n (json_dumps (PyDict []) @ r) = Some (PyDict [], r)" if "1 \<le> n" for n r
    using that by (cases n) simp_all
  with True show ?thesis by (simp add: reads_back_def)
next
  case False
  have txt_eq: "json_dumps (PyDict kvs) = CHR ''{'' # join '','' (map member_text kvs) @ ''}''"
    by (simp add: comp_def split_def)
  have need: "need (PyDict kvs) = Suc (sum_list (map (\<lambda>kv. Suc (need (snd kv))) kvs))"
    by (simp add: comp_def split_def)
  {
    fix n r
    assume n: "need (PyDict kvs) \<le> n"
    then obtain m where m: "n = Suc m" "sum_list (map (\<lambda>kv. Suc (need (snd kv))) kvs) \<le> m"
      using need by (cases n) auto
    have "\<forall>kv \<in> set kvs. \<exists>c t. member_text kv = c # t \<and> opener c"
      by (simp add: json_string_def opener_def)
    from join_startswith [OF False this, of "CHR ''}'' # r"]
    obtain c t where ct: "join '','' (map member_text kvs) @ CHR ''}'' # r = c # t" "opener c" by blast
    then have "\<not> startswith (skip_ws (c # t)) ''}''" by (simp add: opener_def)
    then have "json_val n (json_dumps (PyDict kvs) @ r) = Some (PyDict kvs, r)"
      using json_members_reads [OF False assms(1) m(2), of r] m(1) ct dict_of_distinct [OF assms(2)]
      unfolding txt_eq by simp
  }
  then show ?thesis by (simp add: reads_back_def)
qed

lemma wf_reads_back: "wf_val v \<Longrightarrow> reads_back v"
proof (induction v)
  case (PyInt n)
  show ?case unfolding reads_back_def
    using json_val_int by (metis One_nat_def Suc_le_D json_dumps.simps(3) need.simps(3))
next
  case (PyStr s)
  have "json_val (Suc n) (json_dumps (PyStr s) @ r) = Some (PyStr s, r)" for n r
    using json_str_string [of s r] by (simp add: json_string_def)
  then show ?case unfolding reads_back_def by (metis One_nat_def Suc_le_D need.simps(4))
next
  case (PyList xs)
  then show ?case by (intro reads_back_list) (auto simp: wf_list simp del: wf_val.simps)
next
  case (PyDict kvs)
  then show ?case
    by (intro reads_back_dict) (fastforce simp: wf_dict snds.simps simp del: wf_val.simps)+
next
  case PyNone
  have "json_val (Suc n) (json_dumps PyNone @ r) = Some (PyNone, r)" for n r by simp
  then show ?case unfolding reads_back_def by (metis One_nat_def Suc_le_D need.simps(1))
next
  case (PyBool b)
  have "json_val (Suc n) (json_dumps (PyBool b) @ r) = Some (PyBool b, r)" for n r by simp
  then show ?case unfolding reads_back_def by (metis One_nat_def Suc_le_D need.simps(2))
qed

lemma length_join: "xs \<noteq> [] \<Longrightarrow> Suc (length (join [c] xs)) = sum_list (map (Suc \<circ> length) xs)"
  by (induction "[c]" xs rule: join.induct) auto

lemma need_le_length: "need v \<le> length (json_dumps v)"
proof (induction v)
  case (PyInt n)
  then show ?case using int_str_opener [of n] by auto
next
  case (PyList xs)
  then have "sum_list (map Suc (map need xs)) \<le> sum_list (map (Suc \<circ> length) (map json_dumps xs))"
    by (simp add: comp_def sum_list_mono)
  then show ?case
    using length_join [of "map json_dumps xs" "CHR '',''"] by (cases "xs = []") simp_all
next
  case (PyDict kvs)
  have "need (snd kv) \<le> length (json_dumps (snd kv))" if "kv \<in> set kvs" for kv
    using PyDict that by (cases kv) (auto simp: snds.simps)
  then have "sum_list (map (\<lambda>kv. Suc (need (snd kv))) kvs) \<le> sum_list (map (Suc \<circ> length) (map member_text kvs))"
    unfolding map_map by (intro sum_list_mono) (simp add: comp_def trans_le_add2 le_SucI)
  then show ?case
    using length_join [of "map member_text kvs" "CHR '',''"]
    by (cases "kvs = []") (simp_all add: comp_def split_def)
qed (simp_all add: json_string_def)

lemma json_loads_dumps: "wf_val v \<Longrightarrow> json_loads (json_dumps v) = Some v"
  using reads_backD [OF wf_reads_back, of v "2 * length (json_dumps v) + 2" "[]"] need_le_length [of v]
  by (simp add: json_loads_def)

section \<open>Canonical form\<close>

lemma map_insort_key:
  "(\<And>x. f' (g x) = f x) \<Longrightarrow> map g (insort_key f x xs) = insort_key f' (g x) (map g xs)"
  by (induction xs) auto

lemma map_sort_key: "(\<And>x. f' (g x) = f x) \<Longrightarrow> map g (sort_key f xs) = sort_key f' (map g xs)"
  by (induction xs) (simp_all add: map_insort_key [of f' g f])

lemma sort_key_map_prod: "sort_key fst (map (map_prod id h) kvs) = map (map_prod id h) (sort_key fst kvs)"
  using map_sort_key [of fst "map_prod id h" fst kvs] by simp

lemma sort_key_idem: "sort_key f (sort_key f xs) = sort_key f xs"
  by (rule sort_key_id_if_sorted) simp

lemma sort_key_map_twice:
  "sort_key fst (map (map_prod id h) (sort_key fst (map (map_prod id g) kvs)))
   = sort_key fst (map (map_prod id (h \<circ> g)) kvs)"
proof -
  have "map (map_prod id h) (map (map_prod id g) xs) = map (map_prod id (h \<circ> g)) xs" for xs
    by (simp add: map_prod_def split_def)
  then show ?thesis by (simp only: sort_key_map_prod sort_key_idem)
qed

lemma canon_canon [simp]: "canon (canon v) = canon v"
proof (induction v)
  case (PyDict kvs)
  have "map (map_prod id (canon \<circ> canon)) kvs = map (map_prod id canon) kvs"
    using PyDict by (intro map_cong) (auto simp: snds.simps)
  then show ?case by (simp only: canon.simps sort_key_map_twice)
qed simp_all

lemma eqnorm_canon [simp]: "eqnorm (canon v) = eqnorm v"
proof (induction v)
  case (PyDict kvs)
  have "map (map_prod id (eqnorm \<circ> canon)) kvs = map (map_prod id eqnorm) kvs"
    using PyDict by (intro map_cong) (auto simp: snds.simps)
  then show ?case by (simp only: canon.simps eqnorm.simps sort_key_map_twice)
qed simp_all

lemma distinct_sort_fst: "distinct (map fst (sort_key fst kvs)) = distinct (map fst kvs)"
  by (simp add: distinct_map)

lemma wf_canon [simp]: "wf_val (canon v) = wf_val v"
proof (induction v)
  case (PyList xs)
  then show ?case by (simp add: list_all_iff)
next
  case (PyDict kvs)
  let ?c = "map (map_prod id canon) kvs"
  have "distinct (map fst (sort_key fst ?c)) = distinct (map fst kvs)"
    unfolding distinct_sort_fst by (simp add: comp_def)
  moreover have "(\<forall>(k, v) \<in> set (sort_key fst ?c). wf_val v) = (\<forall>(k, v) \<in> set kvs. wf_val v)"
    using PyDict by (fastforce simp: snds.simps)
  ultimately show ?case by (simp add: wf_dict comp_def del: wf_val.simps)
qed simp_all

lemma canonical_reads: "wf_val v \<Longrightarrow> json_loads (canonical v) = Some (canon v)"
  by (simp add: canonical_def json_loads_dumps)

lemma canonical_inj:
  assumes "wf_val a" and "wf_val b" and "canonical a = canonical b"
  shows "canon a = canon b"
  using canonical_reads [OF assms(1)] canonical_reads [OF assms(2)] assms(3) by simp

lemma canon_py_eq: "canon a = canon b \<Longrightarrow> py_eq a b"
  by (metis eqnorm_canon py_eq_def)

section \<open>Parsed values are well formed\<close>

lemma wf_dict_of: "\<forall>(k, v) \<in> set kvs. wf_val v \<Longrightarrow> wf_val (dict_of kvs)"
proof -
  have "wf_val (PyDict (fold (\<lambda>(k, v) d. AList.update k v d) kvs d))"
    if "\<forall>(k, v) \<in> set kvs. wf_val v" "wf_val (PyDict d)" for d
    using that
  proof (induction kvs arbitrary: d)
    case (Cons kv kvs)
    obtain k v where kv: "kv = (k, v)" by (cases kv)
    have "wf_val (dset (PyDict d) k v)" using Cons.prems kv by (intro wf_dset) auto
    then have "wf_val (PyDict (AList.update k v d))" by (simp add: dset_def)
    then show ?case using Cons.IH Cons.prems kv by simp
  qed simp
  then show "\<forall>(k, v) \<in> set kvs. wf_val v \<Longrightarrow> wf_val (dict_of kvs)" by (simp add: dict_of_def)
qed

lemma json_int_wf: "json_int s = Some (v, r) \<Longrightarrow> wf_val v"
  by (auto simp: json_int_def split: list.splits if_splits)

lemma json_parse_wf:
  "json_val n s = Some (v, r) \<Longrightarrow> wf_val v"
  "json_elems n s = Some (vs, r) \<Longrightarrow> \<forall>x \<in> set vs. wf_val x"
  "json_members n s = Some (kvs, r) \<Longrightarrow> \<forall>(k, x) \<in> set kvs. wf_val x"
proof (induction n s and n s and n s arbitrary: v r and vs r and kvs r rule: json_val_json_elems_json_members.induct)
  case (2 n s)
  show ?case
  proof (cases "skip_ws s")
    case (Cons c t)
    note ih = 2(1) [OF Cons] 2(2) [OF Cons]
    show ?thesis using 2(3) Cons ih json_int_wf wf_dict_of
      by (auto simp: wf_list simp del: wf_val.simps(5) split: if_splits)
  next
    case Nil
    then show ?thesis using 2(3) by (simp del: dropWhile_eq_Nil_conv)
  qed
next
  case (4 n s)
  show ?case using 4 by (auto split: option.splits list.splits if_splits)
next
  case (6 n s)
  show ?case using 6 by (auto split: option.splits list.splits if_splits) fast
qed simp_all

lemma json_loads_wf: "json_loads s = Some v \<Longrightarrow> wf_val v"
  unfolding json_loads_def by (cases "json_val (2 * length s + 2) s") (auto split: if_splits dest: json_parse_wf simp del: json_val.simps)

section \<open>Printed text is printable\<close>

definition printable :: "string \<Rightarrow> bool" where
  "printable s \<longleftrightarrow> (\<forall>c \<in> set s. 32 \<le> (of_char c :: nat))"

lemma printable_simps [simp]: "printable []" "printable (c # s) = (32 \<le> (of_char c :: nat) \<and> printable s)"
  "printable (s @ t) = (printable s \<and> printable t)"
  by (auto simp: printable_def)

lemma printable_hex: "k < 16 \<Longrightarrow> 32 \<le> (of_char (hex_digit k) :: nat)"
  by (auto simp: hex_digit_def)

lemma printable_esc: "printable (esc_char c)"
proof -
  have "(of_char c :: nat) div 16 < 16" using of_char_lt_256 [of c] by linarith
  then show ?thesis
    using printable_hex [of "of_char c div 16"] printable_hex [of "of_char c mod 16"] by (auto simp: esc_char_def Let_def)
qed

lemma printable_string: "printable (json_string s)"
  using printable_esc by (induction s) (auto simp: json_string_def)

lemma printable_digits: "printable (nat_digits n)"
  by (induction n rule: nat_digits.induct) (subst nat_digits.simps, auto)

lemma printable_join: "printable sep \<Longrightarrow> \<forall>p \<in> set ps. printable p \<Longrightarrow> printable (join sep ps)"
  by (induction sep ps rule: join.induct) auto

lemma printable_dumps: "printable (json_dumps v)"
proof (induction v)
  case (PyInt n)
  then show ?case by (simp add: int_str_def printable_digits)
next
  case (PyList xs)
  then show ?case by (auto intro!: printable_join)
next
  case (PyDict kvs)
  then show ?case by (fastforce intro!: printable_join simp: printable_string snds.simps)
qed (simp_all add: printable_string)

lemma printable_canonical: "printable (canonical v)"
  by (simp add: canonical_def printable_dumps)

end
