(* ===== verification/Sha256.thy ===== *)
theory Sha256
  imports Py_Value "HOL-Library.Word"
begin

text \<open>
  \<open>hashlib.sha256(data).hexdigest()\<close>, the digest of every sealed record: the compression function of
  FIPS 180-4 on 32-bit words, computed on the bytes of the text. The theory shows the shape of the
  result, 64 lower-case hexadecimal digits, which is what the sources' regular expressions accept.
\<close>

unbundle bit_operations_syntax

section \<open>The compression function\<close>

type_synonym w32 = "32 word"
type_synonym hash_state = "w32 \<times> w32 \<times> w32 \<times> w32 \<times> w32 \<times> w32 \<times> w32 \<times> w32"

definition big_sigma0 :: "w32 \<Rightarrow> w32" where
  "big_sigma0 x = word_rotr 2 x XOR word_rotr 13 x XOR word_rotr 22 x"

definition big_sigma1 :: "w32 \<Rightarrow> w32" where
  "big_sigma1 x = word_rotr 6 x XOR word_rotr 11 x XOR word_rotr 25 x"

definition small_sigma0 :: "w32 \<Rightarrow> w32" where
  "small_sigma0 x = word_rotr 7 x XOR word_rotr 18 x XOR drop_bit 3 x"

definition small_sigma1 :: "w32 \<Rightarrow> w32" where
  "small_sigma1 x = word_rotr 17 x XOR word_rotr 19 x XOR drop_bit 10 x"

definition ch_fun :: "w32 \<Rightarrow> w32 \<Rightarrow> w32 \<Rightarrow> w32" where
  "ch_fun x y z = (x AND y) XOR (NOT x AND z)"

definition maj_fun :: "w32 \<Rightarrow> w32 \<Rightarrow> w32 \<Rightarrow> w32" where
  "maj_fun x y z = (x AND y) XOR (x AND z) XOR (y AND z)"

text \<open>The constants of the standard, eight hexadecimal digits each.\<close>

definition hex_nat :: "string \<Rightarrow> nat" where
  "hex_nat s = foldl (\<lambda>n c. 16 * n + (if is_digit c then of_char c - 48 else of_char c - 87)) 0 s"

fun hex_words :: "nat \<Rightarrow> string \<Rightarrow> w32 list" where
  "hex_words 0 s = []"
| "hex_words (Suc n) s = of_nat (hex_nat (take 8 s)) # hex_words n (drop 8 s)"

definition round_constants :: "w32 list" where
  "round_constants = concat (map (hex_words 8)
    [''428a2f9871374491b5c0fbcfe9b5dba53956c25b59f111f1923f82a4ab1c5ed5'',
     ''d807aa9812835b01243185be550c7dc372be5d7480deb1fe9bdc06a7c19bf174'',
     ''e49b69c1efbe47860fc19dc6240ca1cc2de92c6f4a7484aa5cb0a9dc76f988da'',
     ''983e5152a831c66db00327c8bf597fc7c6e00bf3d5a7914706ca635114292967'',
     ''27b70a852e1b21384d2c6dfc53380d13650a7354766a0abb81c2c92e92722c85'',
     ''a2bfe8a1a81a664bc24b8b70c76c51a3d192e819d6990624f40e3585106aa070'',
     ''19a4c1161e376c082748774c34b0bcb5391c0cb34ed8aa4a5b9cca4f682e6ff3'',
     ''748f82ee78a5636f84c878148cc7020890befffaa4506cebbef9a3f7c67178f2''])"

definition initial_words :: "w32 list" where
  "initial_words = hex_words 8
     ''6a09e667bb67ae853c6ef372a54ff53a510e527f9b05688c1f83d9ab5be0cd19''"

definition initial_hash :: hash_state where
  "initial_hash = (initial_words ! 0, initial_words ! 1, initial_words ! 2, initial_words ! 3,
     initial_words ! 4, initial_words ! 5, initial_words ! 6, initial_words ! 7)"

text \<open>The message schedule, latest word first: 16 words of the block, then 48 derived ones.\<close>

fun extend_schedule :: "nat \<Rightarrow> w32 list \<Rightarrow> w32 list" where
  "extend_schedule 0 ws = ws"
| "extend_schedule (Suc n) ws =
     extend_schedule n ((small_sigma1 (ws ! 1) + ws ! 6 + small_sigma0 (ws ! 14) + ws ! 15) # ws)"

definition schedule :: "w32 list \<Rightarrow> w32 list" where
  "schedule block = rev (extend_schedule 48 (rev block))"

fun hash_round :: "w32 \<times> w32 \<Rightarrow> hash_state \<Rightarrow> hash_state" where
  "hash_round (k, w) (a, b, c, d, e, f, g, h) =
     (let t1 = h + big_sigma1 e + ch_fun e f g + k + w;
          t2 = big_sigma0 a + maj_fun a b c
      in (t1 + t2, a, b, c, d + t1, e, f, g))"

fun add_state :: "hash_state \<Rightarrow> hash_state \<Rightarrow> hash_state" where
  "add_state (a, b, c, d, e, f, g, h) (a', b', c', d', e', f', g', h') =
     (a + a', b + b', c + c', d + d', e + e', f + f', g + g', h + h')"

definition hash_block :: "w32 list \<Rightarrow> hash_state \<Rightarrow> hash_state" where
  "hash_block block st = add_state (fold hash_round (zip round_constants (schedule block)) st) st"

section \<open>Padding and the digest\<close>

text \<open>A one bit, zero bits up to 56 bytes modulo 64, and the bit length as eight bytes.\<close>

definition pad :: "nat list \<Rightarrow> nat list" where
  "pad bs = bs @ 128 # replicate ((119 - length bs mod 64) mod 64) 0
     @ map (\<lambda>i. (8 * length bs) div 256 ^ (7 - i) mod 256) [0..<8]"

fun to_words :: "nat list \<Rightarrow> w32 list" where
  "to_words (a # b # c # d # bs) = of_nat (((a * 256 + b) * 256 + c) * 256 + d) # to_words bs"
| "to_words bs = []"

fun hash_blocks :: "nat \<Rightarrow> w32 list \<Rightarrow> hash_state \<Rightarrow> hash_state" where
  "hash_blocks 0 ws st = st"
| "hash_blocks (Suc n) ws st = hash_blocks n (drop 16 ws) (hash_block (take 16 ws) st)"

definition word_hex :: "w32 \<Rightarrow> string" where
  "word_hex w = map (\<lambda>i. hex_digit (unat w div 16 ^ (7 - i) mod 16)) [0..<8]"

fun state_hex :: "hash_state \<Rightarrow> string" where
  "state_hex (a, b, c, d, e, f, g, h) = concat (map word_hex [a, b, c, d, e, f, g, h])"

definition sha256_bytes :: "nat list \<Rightarrow> string" where
  "sha256_bytes bs = (let ws = to_words (pad bs) in
     state_hex (hash_blocks (length ws div 16) ws initial_hash))"

definition sha256 :: "string \<Rightarrow> string" where
  "sha256 s = sha256_bytes (map of_char s)"

section \<open>The shape of a digest\<close>

lemma length_pad: "length (pad bs) mod 64 = 0"
proof -
  define r where "r = length bs mod 64"
  have "r < 64" by (simp add: r_def)
  have "(length bs + 1 + (119 - r) mod 64 + 8) mod 64 = (r + 1 + (119 - r) mod 64 + 8) mod 64"
    unfolding r_def by (metis (no_types, lifting) add.assoc mod_add_left_eq)
  also have "\<dots> = 0"
    using \<open>r < 64\<close> by (cases "r \<le> 55") (auto simp: mod_if)
  finally show ?thesis by (simp add: pad_def r_def ac_simps)
qed

lemma hex_digit_hex: "n < 16 \<Longrightarrow> is_hex (hex_digit n)"
  by (simp add: is_hex_def hex_digit_def is_digit_def less_eq_char_def)

lemma word_hex_shape: "length (word_hex w) = 8" "list_all is_hex (word_hex w)"
  by (simp_all add: word_hex_def list_all_iff hex_digit_hex)

lemma state_hex_shape: "is_sha256 (state_hex st)"
  by (cases st rule: state_hex.cases) (simp add: is_sha256_def word_hex_shape)

lemma sha256_shape [simp]: "is_sha256 (sha256 s)"
  by (simp add: sha256_def sha256_bytes_def Let_def state_hex_shape)

lemma is_digest_sha256 [simp]: "is_digest (PyStr (sha256 s))"
  by simp

lemma length_sha256 [simp]: "length (sha256 s) = 64"
  using sha256_shape [of s] by (simp add: is_sha256_def)

lemma sha256_not_Nil [simp]: "sha256 s \<noteq> []"
  using is_sha256_not_blank by force

end
