(* ===== verification/Sealing.thy ===== *)
theory Sealing
  imports Json Sha256
begin

text \<open>
  The pattern every record of the control plane follows: one field of a dictionary holds the
  SHA-256 of the canonical JSON of all the others. TDD cycles (\<open>cycle_sha256\<close>), falsification and
  review receipts (\<open>receipt_sha256\<close>), evidence records (\<open>record_sha256\<close>), anchors (\<open>anchor_sha256\<close>),
  task states (\<open>integrity_sha256\<close>) and audit observations (\<open>observation_sha256\<close>) are sealed this way.
  The locale \<open>sealed_record\<close> states what a sealing digest promises and derives, once, that a
  sealed record passes its check and that two intact records with one digest have the same
  content or exhibit a collision of the hash.
\<close>

definition digest_without :: "string \<Rightarrow> pyval \<Rightarrow> string" where
  "digest_without field v = sha256 (canonical (dpop v field))"

text \<open>Two texts that SHA-256 cannot tell apart.\<close>

definition sha256_collision :: "string \<Rightarrow> string \<Rightarrow> bool" where
  "sha256_collision x y \<longleftrightarrow> x \<noteq> y \<and> sha256 x = sha256 y"

lemma dpop_dset_same [simp]: "dpop (dset v k x) k = dpop v k"
  by (simp add: dpop_def dset_def delete_update_same)

lemma wf_dpop: "wf_val v \<Longrightarrow> wf_val (dpop v k)"
proof -
  assume v: "wf_val v"
  have "distinct (map fst (AList.delete k (entries v)))"
    using wf_entries(1) [OF v] by (rule distinct_delete)
  moreover have "set (AList.delete k (entries v)) \<subseteq> set (entries v)"
    by (auto simp: AList.delete_eq)
  ultimately show ?thesis
    using wf_entries(2) [OF v] by (auto simp: dpop_def wf_dict simp del: wf_val.simps)
qed

text \<open>Canonical form and dictionary operations commute.\<close>

lemma map_of_canon:
  assumes "distinct (map fst kvs)"
  shows "map_of (sort_key fst (map (map_prod id canon) kvs)) k = map_option canon (map_of kvs k)"
proof -
  let ?m = "map (map_prod id canon) kvs"
  have d: "distinct (map fst ?m)" using assms by (simp add: comp_def)
  then have "distinct (map fst (sort_key fst ?m))" unfolding distinct_sort_fst .
  then have "map_of (sort_key fst ?m) = map_of ?m" by (intro map_of_inject_set [THEN iffD2]) (use d in auto)
  moreover have "map_of ?m k = map_option canon (map_of kvs k)" by (induction kvs) auto
  ultimately show ?thesis by simp
qed

lemma is_dict_canon [simp]: "is_dict (canon v) = is_dict v"
  by (cases v) auto

lemma dget_canon: "wf_val v \<Longrightarrow> dget (canon v) k = canon (dget v k)"
proof (cases v)
  case (PyDict kvs)
  assume "wf_val v"
  then have "distinct (map fst kvs)" using PyDict by simp
  then show ?thesis using PyDict by (cases "map_of kvs k") (auto simp: dget_def dget_or_def map_of_canon)
qed (simp_all add: dget_def dget_or_def)

lemma dget_or_canon: "wf_val v \<Longrightarrow> dget_or (canon v) k (canon d) = canon (dget_or v k d)"
proof (cases v)
  case (PyDict kvs)
  assume "wf_val v"
  then have "distinct (map fst kvs)" using PyDict by simp
  then show ?thesis using PyDict by (cases "map_of kvs k") (auto simp: dget_or_def map_of_canon)
qed (simp_all add: dget_or_def)

lemma has_key_canon [simp]: "has_key (canon v) k = has_key v k"
  by (cases v) (auto simp: has_key_def image_iff)

lemma canon_dpop: "canon (dpop v k) = dpop (canon v) k"
proof (cases v)
  case (PyDict kvs)
  have "filter (\<lambda>(k', x). k \<noteq> k') (map (map_prod id canon) kvs) = map (map_prod id canon) (filter (\<lambda>(k', x). k \<noteq> k') kvs)"
    by (induction kvs) auto
  then show ?thesis using PyDict by (simp add: dpop_def AList.delete_eq filter_sort)
qed (simp_all add: dpop_def)

lemma canonical_canon [simp]: "canonical (canon v) = canonical v"
  by (simp add: canonical_def)

lemma digest_without_canon [simp]: "digest_without f (canon v) = digest_without f v"
  by (simp add: digest_without_def canon_dpop [symmetric])

lemma canon_atoms [simp]: "canon v = PyStr s \<longleftrightarrow> v = PyStr s" "canon v = PyNone \<longleftrightarrow> v = PyNone"
  "canon v = PyInt n \<longleftrightarrow> v = PyInt n" "canon v = PyBool b \<longleftrightarrow> v = PyBool b" "is_list (canon v) = is_list v" "is_str (canon v) = is_str v"
  by (cases v; simp)+

lemma py_eq_canon [simp]: "py_eq (canon v) w = py_eq v w" "py_eq w (canon v) = py_eq w v"
  by (simp_all add: py_eq_def)

text \<open>The same content without the sealing field, up to the order of dictionary entries.\<close>

definition same_content :: "string \<Rightarrow> pyval \<Rightarrow> pyval \<Rightarrow> bool" where
  "same_content field a b \<longleftrightarrow> canon (dpop a field) = canon (dpop b field)"

lemma same_content_fields:
  assumes "same_content field a b" and "wf_val a" and "wf_val b" and "k \<noteq> field"
  shows "canon (dget a k) = canon (dget b k)" and "has_key a k = has_key b k"
proof -
  have sorted: "sort_key fst (map (map_prod id canon) (entries (dpop a field)))
      = sort_key fst (map (map_prod id canon) (entries (dpop b field)))"
    using assms(1) by (simp add: same_content_def dpop_def)
  have "distinct (map fst (entries (dpop a field)))" and "distinct (map fst (entries (dpop b field)))"
    using wf_entries(1) [OF wf_dpop] assms(2,3) by blast+
  then have "map_option canon (map_of (entries (dpop a field)) k)
      = map_option canon (map_of (entries (dpop b field)) k)"
    using map_of_canon sorted by metis
  then have eq: "map_option canon (map_of (entries a) k) = map_option canon (map_of (entries b) k)"
    using assms(4) by (simp add: entries_dpop delete_conv')
  then show "has_key a k = has_key b k"
    by (metis has_key_iff_map_of map_option_is_None)
  show "canon (dget a k) = canon (dget b k)"
    using eq by (cases "map_of (entries a) k"; cases "map_of (entries b) k")
      (auto simp: dget_def dget_or_def)
qed

locale sealed_record =
  fixes field :: string and digest :: "pyval \<Rightarrow> string"
  assumes digest_eq: "digest v = digest_without field v"
begin

lemma digest_ignores_field [simp]: "digest (dset v field x) = digest v"
  by (simp add: digest_eq digest_without_def)

lemma seal_intact: "dget (dset v field (PyStr (digest v))) field = PyStr (digest (dset v field (PyStr (digest v))))"
  by simp

lemma digest_shape [simp]: "is_sha256 (digest v)"
  by (simp add: digest_eq digest_without_def)

lemma equal_digest:
  assumes "wf_val a" and "wf_val b" and "digest a = digest b"
  shows "same_content field a b \<or> sha256_collision (canonical (dpop a field)) (canonical (dpop b field))"
  using assms canonical_inj [OF wf_dpop wf_dpop, of a b field field]
  by (auto simp: same_content_def sha256_collision_def digest_eq digest_without_def)

lemma intact_same_seal:
  assumes "wf_val a" and "wf_val b"
    and "dget a field = PyStr (digest a)" and "dget b field = PyStr (digest b)"
    and "dget a field = dget b field"
  shows "same_content field a b \<or> sha256_collision (canonical (dpop a field)) (canonical (dpop b field))"
  using assms by (intro equal_digest) simp_all

text \<open>A content change under an unchanged seal is detected, unless it is a collision.\<close>

lemma tamper_detected:
  assumes "wf_val v" and "wf_val x" and "k \<noteq> field"
    and "dget v field = PyStr (digest v)" and "canon (dget v k) \<noteq> canon x"
    and "dget (dset v k x) field = PyStr (digest (dset v k x))"
  shows "sha256_collision (canonical (dpop v field)) (canonical (dpop (dset v k x) field))"
proof -
  have w: "wf_val (dset v k x)" using assms(1,2) by (rule wf_dset)
  have "\<not> same_content field v (dset v k x)"
    using same_content_fields(1) [OF _ assms(1) w assms(3)] assms(5) by auto
  moreover have "dget v field = dget (dset v k x) field" using assms(3) by simp
  ultimately show ?thesis
    using intact_same_seal [OF assms(1) w assms(4,6)] by blast
qed

end

end
