(* ===== verification/Assurance.thy ===== *)
theory Assurance
  imports Sealing
begin

text \<open>
  \<open>agentinfra/assurance.py\<close>: the life of a TDD cycle (design, baseline, GREEN, completion or
  abort), each state sealed by \<open>cycle_sha256\<close>, the authority an observed baseline gives, the
  falsification receipt, and the moves between epistemic statuses. A cycle is the dictionary the
  code stores; the clock (\<open>_now()\<close>) is an argument of every operation that reads it.
\<close>

section \<open>Constants\<close>

definition EPISTEMIC_STATUSES :: "string list" where
  "EPISTEMIC_STATUSES = [''OBSERVED'', ''PROVEN'', ''INFERRED'', ''ASSUMED'', ''UNTESTED'', ''BLOCKED'']"

text \<open>Each mode with the baseline outcome it requires and the status that outcome gives.\<close>

definition TDD_MODES :: "(string \<times> string \<times> string) list" where
  "TDD_MODES =
    [(''RED_REQUIRED'', ''RED'', ''RED_OBSERVED''),
     (''CHARACTERIZATION_REQUIRED'', ''CHARACTERIZED'', ''CHARACTERIZATION_OBSERVED''),
     (''NON_BEHAVIORAL_TEST_FIRST'', ''TEST_FIRST'', ''TEST_FIRST_OBSERVED'')]"

definition TDD_STATUSES :: "string list" where
  "TDD_STATUSES =
    [''TEST_DESIGNED'', ''BASELINE_EXECUTED'', ''RED_OBSERVED'', ''CHARACTERIZATION_OBSERVED'',
     ''TEST_FIRST_OBSERVED'', ''TEST_CONTRACT_FROZEN'', ''GREEN_PROVEN'', ''TDD_CYCLE_ABORTED'',
     ''TDD_CYCLE_COMPLETE'']"

definition BASELINE_STATUSES :: "string list" where
  "BASELINE_STATUSES = map (snd \<circ> snd) TDD_MODES"

definition FALSIFICATION_OUTCOMES :: "string list" where
  "FALSIFICATION_OUTCOMES = [''NO_COUNTEREXAMPLE'', ''COUNTEREXAMPLE'']"

definition mode_names :: "string list" where
  "mode_names = map fst TDD_MODES"

text \<open>\<open>TDD_MODES[mode]\<close>.\<close>

definition mode_info :: "pyval \<Rightarrow> (string \<times> string) res" where
  "mode_info v = (case v of
      PyStr m \<Rightarrow> (case map_of TDD_MODES m of None \<Rightarrow> Inl (KeyErr m) | Some i \<Rightarrow> Inr i)
    | _ \<Rightarrow> (if unhashable v then Inl TypeErr else Inl (KeyErr [])))"

section \<open>Checks\<close>

definition cycle_digest :: "pyval \<Rightarrow> string" where
  "cycle_digest c = sha256 (canonical (dpop c ''cycle_sha256''))"

definition falsification_digest :: "pyval \<Rightarrow> string" where
  "falsification_digest r = sha256 (canonical (dpop r ''receipt_sha256''))"

interpretation cycle_seal: sealed_record "''cycle_sha256''" cycle_digest
  by unfold_locales (simp add: cycle_digest_def digest_without_def)

interpretation falsification_seal: sealed_record "''receipt_sha256''" falsification_digest
  by unfold_locales (simp add: falsification_digest_def digest_without_def)

definition require_digest :: "pyval \<Rightarrow> unit res" where
  "require_digest v = guard (is_digest v) (AssuranceError ''must be a canonical sha256'')"

definition require_command :: "pyval \<Rightarrow> unit res" where
  "require_command v = guard (is_list v \<and> items v \<noteq> [] \<and>
      (\<forall>p \<in> set (items v). is_str p \<and> p \<noteq> PyStr []))
      (AssuranceError ''TDD evidence command must be a non-empty argv array'')"

text \<open>\<open>_require_string_list\<close>: the stripped texts of an array of non-blank strings.\<close>

definition strip_item :: "pyval \<Rightarrow> pyval" where
  "strip_item v = (case v of PyStr s \<Rightarrow> PyStr (strip s) | _ \<Rightarrow> v)"

definition require_string_list :: "pyval \<Rightarrow> bool \<Rightarrow> pyval res" where
  "require_string_list v nonempty =
     (if \<not> is_list v \<or> (\<exists>x \<in> set (items v). \<not> is_text x)
        then Inl (AssuranceError ''must be an array of non-empty strings'')
      else if nonempty \<and> items v = [] then Inl (AssuranceError ''must not be empty'')
      else Inr (PyList (map strip_item (items v))))"

definition can_transition_epistemic :: "string \<Rightarrow> string \<Rightarrow> pyval list \<Rightarrow> bool" where
  "can_transition_epistemic source target ids =
     (if source \<notin> set EPISTEMIC_STATUSES \<or> target \<notin> set EPISTEMIC_STATUSES then False
      else if source = target then True
      else let valid_evidence = (ids \<noteq> [] \<and> (\<forall>i \<in> set ids. str_startswith i ''E-'')) in
        if target \<in> {''OBSERVED'', ''PROVEN''} then valid_evidence
        else target \<in> {''INFERRED'', ''ASSUMED'', ''UNTESTED'', ''BLOCKED''})"

definition tdd_event :: "string \<Rightarrow> string \<Rightarrow> dict \<Rightarrow> pyval res" where
  "tdd_event now status details =
     (if status \<notin> set TDD_STATUSES then Inl (AssuranceError ''unknown TDD evidence status'')
      else Inr (PyDict ((''status'', PyStr status) # (''at'', PyStr now) # details)))"

definition seal_cycle :: "pyval \<Rightarrow> pyval" where
  "seal_cycle c = dset c ''cycle_sha256'' (PyStr (cycle_digest c))"

definition check_event :: "pyval \<Rightarrow> unit res" where
  "check_event e =
     (if \<not> is_dict e then Inl (AssuranceError ''invalid TDD cycle event'')
      else memb (dget e ''status'') TDD_STATUSES (AssuranceError ''invalid TDD cycle event''))"

definition validate_tdd_cycle :: "pyval \<Rightarrow> unit res" where
  "validate_tdd_cycle cycle = check_all
    [guard (is_dict cycle \<and> py_eq (dget cycle ''schema'') (PyInt 1)) (AssuranceError ''invalid TDD cycle schema''),
     guard (is_id (dget cycle ''task_id'')) (AssuranceError ''invalid TDD cycle task_id''),
     guard (is_id (dget cycle ''cycle_id'')) (AssuranceError ''invalid TDD cycle cycle_id''),
     memb (dget cycle ''mode'') mode_names (AssuranceError ''invalid TDD cycle mode''),
     memb (dget cycle ''status'') TDD_STATUSES (AssuranceError ''invalid TDD cycle status''),
     require_digest (dget cycle ''test_contract_digest''),
     require_digest (dget cycle ''oracle_digest''),
     guard (is_list (dget cycle ''events'') \<and> items (dget cycle ''events'') \<noteq> [])
       (AssuranceError ''TDD cycle requires an append-only event ledger''),
     attr_dict (hd (items (dget cycle ''events''))),
     guard (dget (hd (items (dget cycle ''events''))) ''status'' = PyStr ''TEST_DESIGNED'')
       (AssuranceError ''TDD cycle does not begin with TEST_DESIGNED''),
     for_each check_event (items (dget cycle ''events'')),
     guard (dget cycle ''cycle_sha256'' = PyStr (cycle_digest cycle))
       (AssuranceError ''TDD cycle integrity digest mismatch'')]"

section \<open>The operations on a cycle\<close>

definition new_tdd_cycle ::
  "string \<Rightarrow> pyval \<Rightarrow> pyval \<Rightarrow> pyval \<Rightarrow> pyval \<Rightarrow> pyval \<Rightarrow> pyval \<Rightarrow> pyval \<Rightarrow> pyval \<Rightarrow> pyval res" where
  "new_tdd_cycle now task_id cycle_id mode designed_at_revision test_contract_digest oracle_digest
      remediation discovered_epoch =
    res_bind (check_all
      [guard (is_id task_id) (AssuranceError ''invalid task id''),
       guard (is_id cycle_id) (AssuranceError ''invalid cycle id''),
       memb mode mode_names (AssuranceError ''invalid TDD mode''),
       guard (is_nonneg_int designed_at_revision) (AssuranceError ''designed_at_revision must be non-negative''),
       guard (truthy remediation \<longrightarrow> is_nonneg_int discovered_epoch)
         (AssuranceError ''remediation cycles require the broken candidate epoch''),
       guard (truthy remediation \<or> discovered_epoch = PyNone)
         (AssuranceError ''initial TDD cycle cannot claim a remediation discovery epoch''),
       require_digest test_contract_digest,
       require_digest oracle_digest]) (\<lambda>_.
    res_bind (tdd_event now ''TEST_DESIGNED''
        [(''task_revision'', designed_at_revision),
         (''test_contract_digest'', test_contract_digest),
         (''oracle_digest'', oracle_digest),
         (''remediation'', remediation)]) (\<lambda>ev.
    Inr (seal_cycle (PyDict
      [(''schema'', PyInt 1),
       (''task_id'', task_id),
       (''cycle_id'', cycle_id),
       (''mode'', mode),
       (''status'', PyStr ''TEST_DESIGNED''),
       (''remediation'', remediation),
       (''discovered_epoch'', discovered_epoch),
       (''designed_at_revision'', designed_at_revision),
       (''test_contract_digest'', test_contract_digest),
       (''oracle_digest'', oracle_digest),
       (''frozen_test_contract_digest'', PyNone),
       (''frozen_oracle_digest'', PyNone),
       (''baseline_implementation_digest'', PyNone),
       (''baseline_epoch'', if truthy remediation then discovered_epoch else PyInt 0),
       (''green_epoch'', PyNone),
       (''events'', PyList [ev])]))))"

text \<open>\<open>updated["events"].append(event)\<close>.\<close>

definition append_events :: "pyval \<Rightarrow> pyval list \<Rightarrow> pyval" where
  "append_events c evs = dset c ''events'' (PyList (items (dget c ''events'') @ evs))"

definition record_baseline ::
  "string \<Rightarrow> pyval \<Rightarrow> pyval \<Rightarrow> pyval \<Rightarrow> pyval \<Rightarrow> pyval \<Rightarrow> pyval \<Rightarrow> pyval \<Rightarrow> pyval \<Rightarrow> pyval \<Rightarrow> pyval res" where
  "record_baseline now cycle outcome observed_implementation_digest command environment_digest
      output_digest semantic_reason harness_valid baseline_intact =
    res_bind (validate_tdd_cycle cycle) (\<lambda>_.
    res_bind (guard (dget cycle ''status'' = PyStr ''TEST_DESIGNED'')
        (AssuranceError ''baseline can be recorded exactly once after TEST_DESIGNED'')) (\<lambda>_.
    res_bind (mode_info (dget cycle ''mode'')) (\<lambda>(expected_outcome, observed_status).
    res_bind (check_all
      [guard (outcome = PyStr expected_outcome) (AssuranceError ''mode requires another baseline outcome''),
       guard (harness_valid = PyBool True) (AssuranceError ''invalid or deliberately broken harness cannot establish a baseline''),
       guard (baseline_intact = PyBool True) (AssuranceError ''damaged production cannot establish a legitimate baseline''),
       guard (is_text semantic_reason) (AssuranceError ''baseline requires a semantic explanation''),
       require_digest observed_implementation_digest,
       require_digest environment_digest,
       require_digest output_digest,
       require_command command]) (\<lambda>_.
    let updated = dset (dset (dset (dset cycle ''status'' (PyStr observed_status))
            ''baseline_implementation_digest'' observed_implementation_digest)
            ''frozen_test_contract_digest'' (dget cycle ''test_contract_digest''))
            ''frozen_oracle_digest'' (dget cycle ''oracle_digest'');
        common =
          [(''baseline_implementation_digest'', observed_implementation_digest),
           (''test_contract_digest'', dget cycle ''test_contract_digest''),
           (''oracle_digest'', dget cycle ''oracle_digest''),
           (''command'', command),
           (''environment_digest'', environment_digest),
           (''output_digest'', output_digest),
           (''semantic_reason'', strip_item semantic_reason),
           (''harness_valid'', PyBool True),
           (''baseline_intact'', PyBool True)]
    in res_bind (tdd_event now ''BASELINE_EXECUTED'' ((''outcome'', outcome) # common)) (\<lambda>e1.
       res_bind (tdd_event now observed_status common) (\<lambda>e2.
       res_bind (tdd_event now ''TEST_CONTRACT_FROZEN''
          [(''test_contract_digest'', dget updated ''frozen_test_contract_digest''),
           (''oracle_digest'', dget updated ''frozen_oracle_digest'')]) (\<lambda>e3.
       Inr (seal_cycle (append_events updated [e1, e2, e3])))))))))"

definition implementation_authorized :: "pyval \<Rightarrow> pyval \<Rightarrow> pyval \<Rightarrow> pyval \<Rightarrow> bool res" where
  "implementation_authorized cycle current_test_contract_digest current_oracle_digest
      current_implementation_digest =
    (case validate_tdd_cycle cycle of
       Inl (AssuranceError m) \<Rightarrow> Inr False
     | Inl e \<Rightarrow> Inl e
     | Inr _ \<Rightarrow> Inr (str_in (dget cycle ''status'') BASELINE_STATUSES
         \<and> py_eq (dget cycle ''test_contract_digest'') (dget cycle ''frozen_test_contract_digest'')
         \<and> py_eq (dget cycle ''frozen_test_contract_digest'') current_test_contract_digest
         \<and> py_eq (dget cycle ''oracle_digest'') (dget cycle ''frozen_oracle_digest'')
         \<and> py_eq (dget cycle ''frozen_oracle_digest'') current_oracle_digest
         \<and> py_eq (dget cycle ''baseline_implementation_digest'') current_implementation_digest))"

definition record_green ::
  "string \<Rightarrow> pyval \<Rightarrow> pyval \<Rightarrow> pyval \<Rightarrow> pyval \<Rightarrow> pyval \<Rightarrow> pyval \<Rightarrow> pyval \<Rightarrow> pyval \<Rightarrow> pyval \<Rightarrow> pyval \<Rightarrow> pyval res" where
  "record_green now cycle current_epoch current_test_contract_digest current_oracle_digest
      current_implementation_digest diff_digest command environment_digest output_digest passed =
    res_bind (validate_tdd_cycle cycle) (\<lambda>_.
    res_bind (check_all
      [memb (dget cycle ''status'') BASELINE_STATUSES
         (AssuranceError ''GREEN requires a current RED/characterization/test-first baseline''),
       guard (py_eq current_test_contract_digest (dget cycle ''frozen_test_contract_digest''))
         (AssuranceError ''GREEN test contract differs from the frozen baseline contract''),
       guard (py_eq current_oracle_digest (dget cycle ''frozen_oracle_digest''))
         (AssuranceError ''GREEN oracle differs from the frozen baseline oracle''),
       guard (is_int current_epoch \<and> \<not> is_bool current_epoch)
         (AssuranceError ''GREEN is not bound to a post-baseline implementation epoch''),
       guard (has_key cycle ''baseline_epoch'') (KeyErr ''baseline_epoch'')]) (\<lambda>_.
    res_bind (py_int (dget cycle ''baseline_epoch'')) (\<lambda>baseline_epoch.
    res_bind (check_all
      [guard (case current_epoch of PyInt n \<Rightarrow> baseline_epoch < n | _ \<Rightarrow> False)
         (AssuranceError ''GREEN is not bound to a post-baseline implementation epoch''),
       guard (passed = PyBool True) (AssuranceError ''a failing or unavailable command cannot establish GREEN''),
       require_digest current_implementation_digest,
       require_digest diff_digest,
       require_digest environment_digest,
       require_digest output_digest,
       require_command command]) (\<lambda>_.
    res_bind (tdd_event now ''GREEN_PROVEN''
        [(''epoch'', current_epoch),
         (''implementation_digest'', current_implementation_digest),
         (''diff_digest'', diff_digest),
         (''test_contract_digest'', current_test_contract_digest),
         (''oracle_digest'', current_oracle_digest),
         (''command'', command),
         (''environment_digest'', environment_digest),
         (''output_digest'', output_digest)]) (\<lambda>ev.
    Inr (seal_cycle (append_events
      (dset (dset (dset (dset cycle ''status'' (PyStr ''GREEN_PROVEN''))
         ''green_epoch'' current_epoch)
         ''green_implementation_digest'' current_implementation_digest)
         ''green_diff_digest'' diff_digest) [ev])))))))"

definition abort_tdd_cycle :: "string \<Rightarrow> pyval \<Rightarrow> pyval \<Rightarrow> pyval res" where
  "abort_tdd_cycle now cycle reason =
    res_bind (validate_tdd_cycle cycle) (\<lambda>_.
    res_bind (check_all
      [guard (\<not> str_in (dget cycle ''status'') [''TDD_CYCLE_ABORTED'', ''TDD_CYCLE_COMPLETE''])
         (AssuranceError ''terminal TDD cycle cannot be aborted again''),
       guard (is_text reason) (AssuranceError ''TDD cycle abort requires a reason'')]) (\<lambda>_.
    res_bind (tdd_event now ''TDD_CYCLE_ABORTED'' [(''reason'', strip_item reason)]) (\<lambda>ev.
    Inr (seal_cycle (append_events (dset cycle ''status'' (PyStr ''TDD_CYCLE_ABORTED'')) [ev])))))"

definition complete_tdd_cycle :: "string \<Rightarrow> pyval \<Rightarrow> pyval res" where
  "complete_tdd_cycle now cycle =
    res_bind (validate_tdd_cycle cycle) (\<lambda>_.
    res_bind (check_all
      [guard (dget cycle ''status'' = PyStr ''GREEN_PROVEN'')
         (AssuranceError ''TDD cycle can complete only after GREEN_PROVEN''),
       guard (has_key cycle ''green_epoch'') (KeyErr ''green_epoch'')]) (\<lambda>_.
    res_bind (tdd_event now ''TDD_CYCLE_COMPLETE'' [(''epoch'', dget cycle ''green_epoch'')]) (\<lambda>ev.
    Inr (seal_cycle (append_events (dset cycle ''status'' (PyStr ''TDD_CYCLE_COMPLETE'')) [ev])))))"

definition tdd_cycle_digest :: "pyval \<Rightarrow> pyval res" where
  "tdd_cycle_digest cycle =
    res_bind (validate_tdd_cycle cycle) (\<lambda>_. Inr (dget cycle ''cycle_sha256''))"

section \<open>Falsification receipts\<close>

definition build_falsification_receipt ::
  "string \<Rightarrow> pyval \<Rightarrow> pyval \<Rightarrow> pyval \<Rightarrow> pyval \<Rightarrow> pyval \<Rightarrow> pyval \<Rightarrow> pyval \<Rightarrow> pyval \<Rightarrow> pyval \<Rightarrow> pyval res" where
  "build_falsification_receipt now task_id tdd_digest epoch diff_digest methods attempts
      boundary_cases counterexamples outcome =
    res_bind (check_all
      [guard (is_id task_id) (AssuranceError ''invalid falsification task id''),
       guard (is_pos_int epoch) (AssuranceError ''falsification epoch must be a positive integer''),
       memb outcome FALSIFICATION_OUTCOMES (AssuranceError ''invalid falsification outcome'')]) (\<lambda>_.
    res_bind (require_string_list counterexamples False) (\<lambda>found.
    res_bind (check_all
      [guard (\<not> (outcome = PyStr ''NO_COUNTEREXAMPLE'' \<and> truthy found))
         (AssuranceError ''falsification cannot claim NO_COUNTEREXAMPLE when counterexamples exist''),
       guard (\<not> (outcome = PyStr ''COUNTEREXAMPLE'' \<and> \<not> truthy found))
         (AssuranceError ''COUNTEREXAMPLE outcome requires a recorded counterexample''),
       require_digest tdd_digest,
       require_digest diff_digest]) (\<lambda>_.
    res_bind (require_string_list methods True) (\<lambda>ms.
    res_bind (require_string_list attempts True) (\<lambda>ats.
    res_bind (require_string_list boundary_cases True) (\<lambda>bs.
    let receipt = PyDict
          [(''schema'', PyInt 1),
           (''task_id'', task_id),
           (''recorded_at'', PyStr now),
           (''tdd_cycle_digest'', tdd_digest),
           (''epoch'', epoch),
           (''diff_digest'', diff_digest),
           (''methods'', ms),
           (''attempts'', ats),
           (''boundary_cases'', bs),
           (''counterexamples'', found),
           (''outcome'', outcome)]
    in Inr (dset receipt ''receipt_sha256'' (PyStr (falsification_digest receipt)))))))))"

definition text_list :: "pyval \<Rightarrow> bool" where
  "text_list v \<longleftrightarrow> is_list v \<and> (\<forall>x \<in> set (items v). is_text x)"

text \<open>\<open>value is None or receipt.get(field) == value\<close>.\<close>

definition bound_to :: "pyval \<Rightarrow> string \<Rightarrow> pyval \<Rightarrow> bool" where
  "bound_to receipt field value \<longleftrightarrow> value = PyNone \<or> py_eq (dget receipt field) value"

definition validate_falsification_receipt ::
  "pyval \<Rightarrow> pyval \<Rightarrow> pyval \<Rightarrow> pyval \<Rightarrow> pyval \<Rightarrow> bool \<Rightarrow> bool res" where
  "validate_falsification_receipt receipt task_id current_tdd_cycle_digest current_epoch
      current_diff_digest require_clean =
    (if \<not> is_dict receipt \<or> \<not> py_eq (dget receipt ''schema'') (PyInt 1) then Inr False
     else if dget receipt ''receipt_sha256'' \<noteq> PyStr (falsification_digest receipt) then Inr False
     else if \<not> is_id (dget receipt ''task_id'') then Inr False
     else if \<not> is_pos_int (dget receipt ''epoch'') then Inr False
     else if \<exists>f \<in> set [''tdd_cycle_digest'', ''diff_digest'']. \<not> is_digest (dget receipt f) then Inr False
     else if \<exists>f \<in> set [''methods'', ''attempts'', ''boundary_cases''].
        \<not> text_list (dget receipt f) \<or> items (dget receipt f) = [] then Inr False
     else if \<not> text_list (dget receipt ''counterexamples'') then Inr False
     else if unhashable (dget receipt ''outcome'') then Inl TypeErr
     else if \<not> str_in (dget receipt ''outcome'') FALSIFICATION_OUTCOMES then Inr False
     else if (dget receipt ''outcome'' = PyStr ''NO_COUNTEREXAMPLE'')
        \<noteq> (items (dget receipt ''counterexamples'') = []) then Inr False
     else if require_clean \<and> dget receipt ''outcome'' \<noteq> PyStr ''NO_COUNTEREXAMPLE'' then Inr False
     else Inr (bound_to receipt ''task_id'' task_id
       \<and> bound_to receipt ''tdd_cycle_digest'' current_tdd_cycle_digest
       \<and> bound_to receipt ''epoch'' current_epoch
       \<and> bound_to receipt ''diff_digest'' current_diff_digest))"

section \<open>Every operation returns a valid cycle\<close>

lemmas assurance_consts = TDD_MODES_def TDD_STATUSES_def BASELINE_STATUSES_def mode_names_def
  FALSIFICATION_OUTCOMES_def EPISTEMIC_STATUSES_def

lemma require_digest_Inr [guards, simp]: "require_digest v = Inr () \<longleftrightarrow> is_digest v"
  by (simp add: require_digest_def)

lemma check_event_Inr [guards]: "check_event e = Inr () \<longleftrightarrow> is_dict e \<and> str_in (dget e ''status'') TDD_STATUSES"
  by (simp add: check_event_def)

text \<open>The conditions of \<open>validate_tdd_cycle\<close> other than the seal.\<close>

definition cycle_shape :: "pyval \<Rightarrow> bool" where
  "cycle_shape c \<longleftrightarrow> is_dict c \<and> py_eq (dget c ''schema'') (PyInt 1)
     \<and> is_id (dget c ''task_id'') \<and> is_id (dget c ''cycle_id'')
     \<and> str_in (dget c ''mode'') mode_names \<and> str_in (dget c ''status'') TDD_STATUSES
     \<and> is_digest (dget c ''test_contract_digest'') \<and> is_digest (dget c ''oracle_digest'')
     \<and> is_list (dget c ''events'') \<and> items (dget c ''events'') \<noteq> []
     \<and> dget (hd (items (dget c ''events''))) ''status'' = PyStr ''TEST_DESIGNED''
     \<and> (\<forall>e \<in> set (items (dget c ''events'')). is_dict e \<and> str_in (dget e ''status'') TDD_STATUSES)"

lemma validate_tdd_cycle_Inr:
  "validate_tdd_cycle c = Inr () \<longleftrightarrow> cycle_shape c \<and> dget c ''cycle_sha256'' = PyStr (cycle_digest c)"
  unfolding validate_tdd_cycle_def cycle_shape_def
  by (auto simp: check_all_Inr check_event_Inr for_each_Inr)

lemma cycle_shape_seal [simp]: "cycle_shape c \<Longrightarrow> validate_tdd_cycle (seal_cycle c) = Inr ()"
  unfolding validate_tdd_cycle_Inr seal_cycle_def
  by (simp add: cycle_shape_def)

lemma seal_cycle_get [simp]:
  "k \<noteq> ''cycle_sha256'' \<Longrightarrow> dget (seal_cycle c) k = dget c k"
  "is_dict (seal_cycle c)" "k \<noteq> ''cycle_sha256'' \<Longrightarrow> has_key (seal_cycle c) k = has_key c k"
  by (simp_all add: seal_cycle_def)

lemma seal_cycle_seal [simp]: "dget (seal_cycle c) ''cycle_sha256'' = PyStr (cycle_digest (seal_cycle c))"
  unfolding seal_cycle_def by (rule cycle_seal.seal_intact)

lemma append_events_get [simp]:
  "dget (append_events c evs) k
     = (if k = ''events'' then PyList (items (dget c ''events'') @ evs) else dget c k)"
  "is_dict (append_events c evs)"
  "has_key (append_events c evs) k = (k = ''events'' \<or> has_key c k)"
  by (simp_all add: append_events_def)

lemma tdd_event_Inr [guards]:
  "tdd_event now status details = Inr e \<longleftrightarrow> status \<in> set TDD_STATUSES
     \<and> e = PyDict ((''status'', PyStr status) # (''at'', PyStr now) # details)"
  by (auto simp: tdd_event_def)

lemma mode_info_Inr:
  "mode_info m = Inr (out, st) \<longleftrightarrow>
     m = PyStr ''RED_REQUIRED'' \<and> out = ''RED'' \<and> st = ''RED_OBSERVED''
   \<or> m = PyStr ''CHARACTERIZATION_REQUIRED'' \<and> out = ''CHARACTERIZED'' \<and> st = ''CHARACTERIZATION_OBSERVED''
   \<or> m = PyStr ''NON_BEHAVIORAL_TEST_FIRST'' \<and> out = ''TEST_FIRST'' \<and> st = ''TEST_FIRST_OBSERVED''"
  by (cases m) (auto simp: mode_info_def TDD_MODES_def)

text \<open>
  What an operation on an existing cycle may do, proved of each: the argument and the result are
  valid cycles, the identity and contract fields stay, and events are only appended.
\<close>

definition frozen_fields :: "string list" where
  "frozen_fields = [''schema'', ''task_id'', ''cycle_id'', ''mode'', ''remediation'', ''discovered_epoch'',
     ''designed_at_revision'', ''test_contract_digest'', ''oracle_digest'', ''baseline_epoch'']"

definition extends_cycle :: "pyval \<Rightarrow> pyval \<Rightarrow> bool" where
  "extends_cycle c c' \<longleftrightarrow> validate_tdd_cycle c = Inr () \<and> validate_tdd_cycle c' = Inr ()
     \<and> (\<forall>f \<in> set frozen_fields. dget c' f = dget c f)
     \<and> (\<exists>evs. evs \<noteq> [] \<and> items (dget c' ''events'') = items (dget c ''events'') @ evs)
     \<and> \<not> str_in (dget c ''status'') [''TDD_CYCLE_ABORTED'', ''TDD_CYCLE_COMPLETE'']"

lemma new_cycle_valid:
  assumes "new_tdd_cycle now tid cid mode drev con ora rem disc = Inr c"
  shows "validate_tdd_cycle c = Inr ()" and "dget c ''status'' = PyStr ''TEST_DESIGNED''"
proof -
  show "validate_tdd_cycle c = Inr ()"
    using assms unfolding new_tdd_cycle_def
    by (auto simp: res_bind_Inr check_all_Inr tdd_event_Inr assurance_consts cycle_shape_def
        intro!: cycle_shape_seal)
  show "dget c ''status'' = PyStr ''TEST_DESIGNED''"
    using assms unfolding new_tdd_cycle_def by (auto simp: res_bind_Inr tdd_event_Inr)
qed

lemma extends_sealI:
  assumes "validate_tdd_cycle c = Inr ()"
    and "\<not> str_in (dget c ''status'') [''TDD_CYCLE_ABORTED'', ''TDD_CYCLE_COMPLETE'']"
    and "is_dict u" and "\<forall>f \<in> set frozen_fields. dget u f = dget c f"
    and "dget u ''events'' = dget c ''events''" and "str_in (dget u ''status'') TDD_STATUSES"
    and "evs \<noteq> []" and "\<forall>e \<in> set evs. is_dict e \<and> str_in (dget e ''status'') TDD_STATUSES"
  shows "extends_cycle c (seal_cycle (append_events u evs))"
proof -
  have "cycle_shape (append_events u evs)"
    using assms by (auto simp: validate_tdd_cycle_Inr cycle_shape_def frozen_fields_def)
  then show ?thesis
    using assms by (auto simp: extends_cycle_def frozen_fields_def)
qed

definition tdd_ev :: "string \<Rightarrow> string \<Rightarrow> dict \<Rightarrow> pyval" where
  "tdd_ev now status details = PyDict ((''status'', PyStr status) # (''at'', PyStr now) # details)"

lemma tdd_ev_simps [simp]: "is_dict (tdd_ev now st ds)" "dget (tdd_ev now st ds) ''status'' = PyStr st"
  by (simp_all add: tdd_ev_def)

lemma tdd_event_ok: "tdd_event now status details = Inr e \<Longrightarrow> e = tdd_ev now status details"
  by (simp add: tdd_event_Inr tdd_ev_def)

lemma record_baselineE:
  assumes "record_baseline now c out impl cmd env outp why harness intact = Inr c'"
  obtains st ds1 ds2 ds3 where
    "validate_tdd_cycle c = Inr ()" and "dget c ''status'' = PyStr ''TEST_DESIGNED''"
    and "st \<in> set BASELINE_STATUSES" and "\<exists>exp. mode_info (dget c ''mode'') = Inr (exp, st) \<and> out = PyStr exp"
    and "is_digest impl" and "is_text why" and "harness = PyBool True" and "intact = PyBool True"
    and "c' = seal_cycle (append_events
        (dset (dset (dset (dset c ''status'' (PyStr st)) ''baseline_implementation_digest'' impl)
          ''frozen_test_contract_digest'' (dget c ''test_contract_digest''))
          ''frozen_oracle_digest'' (dget c ''oracle_digest''))
        [tdd_ev now ''BASELINE_EXECUTED'' ((''outcome'', out) # ds1), tdd_ev now st ds2,
         tdd_ev now ''TEST_CONTRACT_FROZEN'' ds3])"
    and "dget (PyDict ds1) ''harness_valid'' = PyBool True" and "dget (PyDict ds1) ''baseline_intact'' = PyBool True"
    and "dget (PyDict ds1) ''semantic_reason'' = strip_item why"
proof -
  obtain exp st where m: "mode_info (dget c ''mode'') = Inr (exp, st)"
    using assms by (auto simp: record_baseline_def res_bind_Inr)
  then have st: "st \<in> set BASELINE_STATUSES" by (auto simp: mode_info_Inr assurance_consts)
  show thesis
    using assms m st unfolding record_baseline_def
    by (auto simp: res_bind_Inr check_all_Inr Let_def dest!: tdd_event_ok intro!: that)
qed

lemma baseline_extends:
  assumes "record_baseline now c out impl cmd env outp why harness intact = Inr c'"
  shows "extends_cycle c c'"
  using assms
  by (rule record_baselineE)
    (auto intro!: extends_sealI simp: frozen_fields_def assurance_consts)

lemma record_greenE:
  assumes "record_green now c epoch con ora impl diff cmd env outp passed = Inr c'"
  obtains n b ds where
    "validate_tdd_cycle c = Inr ()" and "str_in (dget c ''status'') BASELINE_STATUSES"
    and "epoch = PyInt n" and "py_int (dget c ''baseline_epoch'') = Inr b" and "b < n"
    and "py_eq con (dget c ''frozen_test_contract_digest'')" and "py_eq ora (dget c ''frozen_oracle_digest'')"
    and "is_digest impl" and "is_digest diff" and "passed = PyBool True"
    and "c' = seal_cycle (append_events
      (dset (dset (dset (dset c ''status'' (PyStr ''GREEN_PROVEN'')) ''green_epoch'' epoch)
         ''green_implementation_digest'' impl) ''green_diff_digest'' diff) [tdd_ev now ''GREEN_PROVEN'' ds])"
  using assms unfolding record_green_def
  by (cases epoch) (auto simp: res_bind_Inr check_all_Inr dest!: tdd_event_ok intro: that)

lemma green_extends:
  assumes "record_green now c epoch con ora impl diff cmd env outp passed = Inr c'"
  shows "extends_cycle c c'"
  using assms
  by (rule record_greenE)
    (auto intro!: extends_sealI simp: frozen_fields_def assurance_consts str_in_iff)

lemma abortE:
  assumes "abort_tdd_cycle now c reason = Inr c'"
  obtains ds where "validate_tdd_cycle c = Inr ()"
    and "\<not> str_in (dget c ''status'') [''TDD_CYCLE_ABORTED'', ''TDD_CYCLE_COMPLETE'']"
    and "c' = seal_cycle (append_events (dset c ''status'' (PyStr ''TDD_CYCLE_ABORTED'')) [tdd_ev now ''TDD_CYCLE_ABORTED'' ds])"
  using assms unfolding abort_tdd_cycle_def
  by (auto simp: res_bind_Inr check_all_Inr dest!: tdd_event_ok intro: that)

lemma abort_extends: "abort_tdd_cycle now c reason = Inr c' \<Longrightarrow> extends_cycle c c'"
  by (erule abortE) (auto intro!: extends_sealI simp: frozen_fields_def assurance_consts)

lemma completeE:
  assumes "complete_tdd_cycle now c = Inr c'"
  obtains ds where "validate_tdd_cycle c = Inr ()" and "dget c ''status'' = PyStr ''GREEN_PROVEN''"
    and "c' = seal_cycle (append_events (dset c ''status'' (PyStr ''TDD_CYCLE_COMPLETE'')) [tdd_ev now ''TDD_CYCLE_COMPLETE'' ds])"
  using assms unfolding complete_tdd_cycle_def
  by (auto simp: res_bind_Inr check_all_Inr dest!: tdd_event_ok intro: that)

lemma complete_extends: "complete_tdd_cycle now c = Inr c' \<Longrightarrow> extends_cycle c c'"
  by (erule completeE) (auto intro!: extends_sealI simp: frozen_fields_def assurance_consts)

section \<open>The life of a cycle\<close>

inductive cycle_step :: "pyval \<Rightarrow> pyval \<Rightarrow> bool" where
  baseline: "record_baseline now c out impl cmd env outp why harness intact = Inr c' \<Longrightarrow> cycle_step c c'"
| green: "record_green now c epoch con ora impl diff cmd env outp passed = Inr c' \<Longrightarrow> cycle_step c c'"
| abort: "abort_tdd_cycle now c reason = Inr c' \<Longrightarrow> cycle_step c c'"
| complete: "complete_tdd_cycle now c = Inr c' \<Longrightarrow> cycle_step c c'"

inductive cycle_reachable :: "pyval \<Rightarrow> bool" where
  new: "new_tdd_cycle now tid cid mode drev con ora rem disc = Inr c \<Longrightarrow> cycle_reachable c"
| step: "cycle_reachable c \<Longrightarrow> cycle_step c c' \<Longrightarrow> cycle_reachable c'"

lemma step_extends: "cycle_step c c' \<Longrightarrow> extends_cycle c c'"
  by (induction rule: cycle_step.induct)
    (blast intro: baseline_extends green_extends abort_extends complete_extends)+

text \<open>The statuses of a cycle's events, in order.\<close>

definition trace :: "pyval \<Rightarrow> pyval list" where
  "trace c = map (\<lambda>e. dget e ''status'') (items (dget c ''events''))"

definition designed_trace :: "pyval list" where
  "designed_trace = [PyStr ''TEST_DESIGNED'']"

definition observed_trace :: "string \<Rightarrow> pyval list" where
  "observed_trace st = designed_trace @ map PyStr [''BASELINE_EXECUTED'', st, ''TEST_CONTRACT_FROZEN'']"

definition green_trace :: "string \<Rightarrow> pyval list" where
  "green_trace st = observed_trace st @ [PyStr ''GREEN_PROVEN'']"

text \<open>The test contract and the oracle are frozen as designed, against an observed implementation.\<close>

definition contract_frozen :: "pyval \<Rightarrow> bool" where
  "contract_frozen c \<longleftrightarrow> dget c ''frozen_test_contract_digest'' = dget c ''test_contract_digest''
     \<and> dget c ''frozen_oracle_digest'' = dget c ''oracle_digest''
     \<and> is_digest (dget c ''baseline_implementation_digest'')"

definition green_after_baseline :: "pyval \<Rightarrow> bool" where
  "green_after_baseline c \<longleftrightarrow> (\<exists>n b. dget c ''green_epoch'' = PyInt n
     \<and> py_int (dget c ''baseline_epoch'') = Inr b \<and> b < n)
     \<and> is_digest (dget c ''green_implementation_digest'') \<and> is_digest (dget c ''green_diff_digest'')"

definition live_phase :: "pyval \<Rightarrow> string \<Rightarrow> pyval \<Rightarrow> pyval list \<Rightarrow> bool" where
  "live_phase c st status tr \<longleftrightarrow>
     status = PyStr ''TEST_DESIGNED'' \<and> tr = designed_trace
   \<or> status = PyStr st \<and> tr = observed_trace st \<and> contract_frozen c
   \<or> status = PyStr ''GREEN_PROVEN'' \<and> tr = green_trace st \<and> contract_frozen c \<and> green_after_baseline c"

definition lifecycle :: "pyval \<Rightarrow> bool" where
  "lifecycle c \<longleftrightarrow> validate_tdd_cycle c = Inr () \<and>
     (\<exists>out st. mode_info (dget c ''mode'') = Inr (out, st) \<and>
       (live_phase c st (dget c ''status'') (trace c)
      \<or> dget c ''status'' = PyStr ''TDD_CYCLE_COMPLETE''
          \<and> trace c = green_trace st @ [PyStr ''TDD_CYCLE_COMPLETE''] \<and> contract_frozen c \<and> green_after_baseline c
      \<or> dget c ''status'' = PyStr ''TDD_CYCLE_ABORTED''
          \<and> (\<exists>tr status. trace c = tr @ [PyStr ''TDD_CYCLE_ABORTED''] \<and> live_phase c st status tr)))"

lemma trace_append [simp]:
  "trace (seal_cycle (append_events u evs)) = map (\<lambda>e. dget e ''status'') (items (dget u ''events'')) @ map (\<lambda>e. dget e ''status'') evs"
  by (simp add: trace_def)

lemma mode_status: "mode_info m = Inr (out, st) \<Longrightarrow>
   st \<in> set BASELINE_STATUSES \<and> st \<notin> {''TEST_DESIGNED'', ''GREEN_PROVEN'', ''TDD_CYCLE_COMPLETE'', ''TDD_CYCLE_ABORTED''}"
  by (auto simp: mode_info_Inr assurance_consts)

lemma lifecycle_new:
  assumes "new_tdd_cycle now tid cid mode drev con ora rem disc = Inr c"
  shows "lifecycle c"
proof -
  have m: "\<exists>out st. mode_info (dget c ''mode'') = Inr (out, st)"
    using assms unfolding new_tdd_cycle_def
    by (auto simp: res_bind_Inr check_all_Inr assurance_consts mode_info_Inr str_in_iff)
  have "trace c = designed_trace"
    using assms unfolding new_tdd_cycle_def
    by (auto simp: res_bind_Inr tdd_event_Inr trace_def designed_trace_def)
  with m new_cycle_valid [OF assms] show ?thesis
    by (auto simp: lifecycle_def live_phase_def)
qed

lemma lifecycle_baseline:
  assumes "record_baseline now c out impl cmd env outp why harness intact = Inr c'" and "lifecycle c"
  shows "lifecycle c'"
  using assms(1)
proof (rule record_baselineE)
  fix st ds1 ds2 ds3
  assume d: "dget c ''status'' = PyStr ''TEST_DESIGNED''" and i: "is_digest impl"
    and m: "\<exists>exp. mode_info (dget c ''mode'') = Inr (exp, st) \<and> out = PyStr exp"
    and c': "c' = seal_cycle (append_events
        (dset (dset (dset (dset c ''status'' (PyStr st)) ''baseline_implementation_digest'' impl)
          ''frozen_test_contract_digest'' (dget c ''test_contract_digest''))
          ''frozen_oracle_digest'' (dget c ''oracle_digest''))
        [tdd_ev now ''BASELINE_EXECUTED'' ((''outcome'', out) # ds1), tdd_ev now st ds2,
         tdd_ev now ''TEST_CONTRACT_FROZEN'' ds3])"
  have tr: "trace c = designed_trace"
    using assms(2) d mode_status by (fastforce simp: lifecycle_def live_phase_def)
  then have "trace c' = observed_trace st"
    by (simp add: c' observed_trace_def trace_def)
  then have "live_phase c' st (dget c' ''status'') (trace c')"
    using i by (simp add: c' live_phase_def contract_frozen_def)
  moreover have "dget c' ''mode'' = dget c ''mode''" by (simp add: c')
  ultimately show "lifecycle c'"
    using m baseline_extends [OF assms(1)] by (auto simp: lifecycle_def extends_cycle_def)
qed

lemma lifecycle_green:
  assumes "record_green now c epoch con ora impl diff cmd env outp passed = Inr c'" and "lifecycle c"
  shows "lifecycle c'"
  using assms(1)
proof (rule record_greenE)
  fix n b ds
  assume s: "str_in (dget c ''status'') BASELINE_STATUSES" and e: "epoch = PyInt n" "b < n"
    and b: "py_int (dget c ''baseline_epoch'') = Inr b" and i: "is_digest impl" "is_digest diff"
    and c': "c' = seal_cycle (append_events
      (dset (dset (dset (dset c ''status'' (PyStr ''GREEN_PROVEN'')) ''green_epoch'' epoch)
         ''green_implementation_digest'' impl) ''green_diff_digest'' diff) [tdd_ev now ''GREEN_PROVEN'' ds])"
  obtain out st where m: "mode_info (dget c ''mode'') = Inr (out, st)"
    and tr: "trace c = observed_trace st" "contract_frozen c"
    using assms(2) s by (fastforce simp: lifecycle_def live_phase_def assurance_consts)
  have "trace c' = green_trace st"
    using tr by (simp add: c' green_trace_def trace_def)
  then have "live_phase c' st (dget c' ''status'') (trace c')"
    using i e b tr(2) by (simp add: c' live_phase_def contract_frozen_def green_after_baseline_def)
  moreover have "dget c' ''mode'' = dget c ''mode''" by (simp add: c')
  ultimately show "lifecycle c'"
    using m green_extends [OF assms(1)] by (auto simp: lifecycle_def extends_cycle_def)
qed

lemma lifecycle_complete:
  assumes "complete_tdd_cycle now c = Inr c'" and "lifecycle c"
  shows "lifecycle c'"
  using assms(1)
proof (rule completeE)
  fix ds
  assume g: "dget c ''status'' = PyStr ''GREEN_PROVEN''"
    and c': "c' = seal_cycle (append_events (dset c ''status'' (PyStr ''TDD_CYCLE_COMPLETE'')) [tdd_ev now ''TDD_CYCLE_COMPLETE'' ds])"
  obtain out st where m: "mode_info (dget c ''mode'') = Inr (out, st)"
    and tr: "trace c = green_trace st" "contract_frozen c" "green_after_baseline c"
    using assms(2) g mode_status by (fastforce simp: lifecycle_def live_phase_def)
  then show "lifecycle c'"
    using complete_extends [OF assms(1)]
    by (auto simp: lifecycle_def extends_cycle_def c' trace_def contract_frozen_def green_after_baseline_def)
qed

lemma live_phase_frame:
  assumes "live_phase c st status tr"
    and "\<forall>f \<in> {''frozen_test_contract_digest'', ''test_contract_digest'', ''frozen_oracle_digest'', ''oracle_digest'',
      ''baseline_implementation_digest'', ''green_epoch'', ''baseline_epoch'', ''green_implementation_digest'',
      ''green_diff_digest''}. dget c' f = dget c f"
  shows "live_phase c' st status tr"
  using assms by (simp add: live_phase_def contract_frozen_def green_after_baseline_def)

lemma lifecycle_abort:
  assumes "abort_tdd_cycle now c reason = Inr c'" and "lifecycle c"
  shows "lifecycle c'"
  using assms(1)
proof (rule abortE)
  fix ds
  assume n: "\<not> str_in (dget c ''status'') [''TDD_CYCLE_ABORTED'', ''TDD_CYCLE_COMPLETE'']"
    and c': "c' = seal_cycle (append_events (dset c ''status'' (PyStr ''TDD_CYCLE_ABORTED'')) [tdd_ev now ''TDD_CYCLE_ABORTED'' ds])"
  obtain out st where m: "mode_info (dget c ''mode'') = Inr (out, st)"
    and lp: "live_phase c st (dget c ''status'') (trace c)"
    using assms(2) n by (auto simp: lifecycle_def)
  have "live_phase c' st (dget c ''status'') (trace c)"
    by (rule live_phase_frame [OF lp]) (simp add: c')
  moreover have "trace c' = trace c @ [PyStr ''TDD_CYCLE_ABORTED'']" by (simp add: c' trace_def)
  moreover have "dget c' ''mode'' = dget c ''mode''" "dget c' ''status'' = PyStr ''TDD_CYCLE_ABORTED''"
    by (simp_all add: c')
  ultimately show "lifecycle c'"
    using m abort_extends [OF assms(1)] by (auto simp: lifecycle_def extends_cycle_def)
qed

lemma lifecycle_step: "cycle_step c c' \<Longrightarrow> lifecycle c \<Longrightarrow> lifecycle c'"
  by (induction rule: cycle_step.induct)
    (blast intro: lifecycle_baseline lifecycle_green lifecycle_abort lifecycle_complete)+

text \<open>
  C6: every cycle reachable from \<open>new_tdd_cycle\<close> by the four operations is valid and follows the
  TDD life cycle: its event ledger is exactly the design, then (for the mode's own status) the
  executed baseline, the observation and the freeze, then GREEN, then completion, with at most an
  abort cutting it short; from the baseline on, the frozen contract and oracle are the designed
  ones, and a GREEN epoch is later than the baseline epoch.
\<close>

theorem tdd_cycle_lifecycle: "cycle_reachable c \<Longrightarrow> lifecycle c"
  by (induction rule: cycle_reachable.induct) (blast intro: lifecycle_new lifecycle_step)+

text \<open>
  an operation on a cycle keeps the cycle valid, leaves every identity and contract field as it
  was, only appends to the event ledger, and is refused on an aborted or completed cycle.
\<close>

theorem tdd_operations_extend:
  "cycle_step c c' \<Longrightarrow> extends_cycle c c'"
  by (rule step_extends)

section \<open>Progress and authority\<close>

lemma tdd_event_known [simp]: "status \<in> set TDD_STATUSES \<Longrightarrow> tdd_event now status details = Inr (tdd_ev now status details)"
  by (simp add: tdd_event_def tdd_ev_def)

lemma check_all_ok: "g = Inr () \<Longrightarrow> check_all (g # gs) = check_all gs"
  by simp

lemma known_statuses [simp]:
  "''BASELINE_EXECUTED'' \<in> set TDD_STATUSES" "''TEST_CONTRACT_FROZEN'' \<in> set TDD_STATUSES"
  "''GREEN_PROVEN'' \<in> set TDD_STATUSES" "''TDD_CYCLE_COMPLETE'' \<in> set TDD_STATUSES"
  "st \<in> set BASELINE_STATUSES \<Longrightarrow> st \<in> set TDD_STATUSES"
  by (auto simp: assurance_consts)

lemma record_baseline_ok:
  assumes "validate_tdd_cycle c = Inr ()" and "dget c ''status'' = PyStr ''TEST_DESIGNED''"
    and "mode_info (dget c ''mode'') = Inr (exp, st)" and "is_digest impl" and "is_digest env" and "is_digest outp"
    and "require_command cmd = Inr ()" and "is_text why"
  shows "\<exists>c'. record_baseline now c (PyStr exp) impl cmd env outp why (PyBool True) (PyBool True) = Inr c'"
  using assms mode_status [OF assms(3)]
  by (simp add: record_baseline_def Let_def check_all_ok)

lemma record_green_ok:
  assumes "validate_tdd_cycle c = Inr ()" and "str_in (dget c ''status'') BASELINE_STATUSES"
    and "py_int (dget c ''baseline_epoch'') = Inr b" and "has_key c ''baseline_epoch''" and "b < n"
    and "is_digest impl" and "is_digest diff" and "is_digest env" and "is_digest outp" and "require_command cmd = Inr ()"
  shows "\<exists>c'. record_green now c (PyInt n) (dget c ''frozen_test_contract_digest'') (dget c ''frozen_oracle_digest'')
    impl diff cmd env outp (PyBool True) = Inr c'"
  using assms by (simp add: record_green_def check_all_ok)

lemma complete_ok:
  assumes "validate_tdd_cycle c = Inr ()" and "dget c ''status'' = PyStr ''GREEN_PROVEN''" and "has_key c ''green_epoch''"
  shows "\<exists>c'. complete_tdd_cycle now c = Inr c'"
  using assms by (simp add: complete_tdd_cycle_def check_all_ok)

text \<open>
  a designed cycle can be driven to the end. For a valid cycle in \<open>TEST_DESIGNED\<close> whose baseline
  epoch is an integer, recording the outcome its mode requires succeeds, GREEN for any later epoch
  under the frozen contract then succeeds, and so does completion.
\<close>

theorem tdd_cycle_progress:
  assumes "validate_tdd_cycle c = Inr ()" and "dget c ''status'' = PyStr ''TEST_DESIGNED''"
    and "dget c ''baseline_epoch'' = PyInt b" and "b < n" and "is_digest d"
    and "mode_info (dget c ''mode'') = Inr (exp, st)" and "is_text why" and "require_command cmd = Inr ()"
  shows "\<exists>c1 c2 c3.
      record_baseline now c (PyStr exp) d cmd d d why (PyBool True) (PyBool True) = Inr c1
    \<and> record_green now c1 (PyInt n) (dget c ''test_contract_digest'') (dget c ''oracle_digest'') d d cmd d d (PyBool True) = Inr c2
    \<and> complete_tdd_cycle now c2 = Inr c3 \<and> dget c3 ''status'' = PyStr ''TDD_CYCLE_COMPLETE''"
proof -
  obtain c1 where c1: "record_baseline now c (PyStr exp) d cmd d d why (PyBool True) (PyBool True) = Inr c1"
    using record_baseline_ok assms by blast
  have e1: "extends_cycle c c1" using c1 by (rule baseline_extends)
  have f1: "str_in (dget c1 ''status'') BASELINE_STATUSES" "dget c1 ''frozen_test_contract_digest'' = dget c ''test_contract_digest''"
    "dget c1 ''frozen_oracle_digest'' = dget c ''oracle_digest''"
    using c1 by (auto elim: record_baselineE)
  have b1: "dget c1 ''baseline_epoch'' = PyInt b"
    using e1 assms(3) by (simp add: extends_cycle_def frozen_fields_def)
  then have "has_key c1 ''baseline_epoch''" by (intro dget_not_None_key) simp
  then obtain c2 where c2: "record_green now c1 (PyInt n) (dget c ''test_contract_digest'') (dget c ''oracle_digest'') d d cmd d d (PyBool True) = Inr c2"
    using record_green_ok [of c1 b n d d d d cmd now] f1 b1 e1 assms(4,5,8) by (auto simp: extends_cycle_def)
  have f2: "validate_tdd_cycle c2 = Inr ()" "dget c2 ''status'' = PyStr ''GREEN_PROVEN''" "dget c2 ''green_epoch'' = PyInt n"
    using green_extends [OF c2] c2 by (auto simp: extends_cycle_def elim: record_greenE)
  then have "has_key c2 ''green_epoch''" by (intro dget_not_None_key) simp
  then obtain c3 where c3: "complete_tdd_cycle now c2 = Inr c3" using complete_ok f2 by blast
  moreover have "dget c3 ''status'' = PyStr ''TDD_CYCLE_COMPLETE''" using c3 by (auto elim: completeE)
  ultimately show ?thesis using c1 c2 by blast
qed

text \<open>
  implementation authority is exactly an observed baseline bound to the current sources. For a
  reachable cycle the answer is true iff the cycle stands in the observed status of its mode and
  the three supplied digests are its contract, its oracle and its baseline implementation;
  in particular a GREEN, aborted or completed cycle gives none.
\<close>

theorem implementation_authorized_iff:
  assumes "cycle_reachable c"
  shows "implementation_authorized c con ora impl = Inr
    (str_in (dget c ''status'') BASELINE_STATUSES \<and> con = dget c ''test_contract_digest''
      \<and> ora = dget c ''oracle_digest'' \<and> impl = dget c ''baseline_implementation_digest'')"
proof -
  have l: "lifecycle c"
    using assms by (induction rule: cycle_reachable.induct) (blast intro: lifecycle_new lifecycle_step)+
  then have v: "validate_tdd_cycle c = Inr ()" by (simp add: lifecycle_def)
  show ?thesis
  proof (cases "str_in (dget c ''status'') BASELINE_STATUSES")
    case True
    then have f: "contract_frozen c"
      using l by (fastforce simp: lifecycle_def live_phase_def assurance_consts)
    obtain a b i where s: "dget c ''test_contract_digest'' = PyStr a" "dget c ''oracle_digest'' = PyStr b"
      "dget c ''baseline_implementation_digest'' = PyStr i"
      using v f by (auto simp: validate_tdd_cycle_Inr cycle_shape_def contract_frozen_def elim!: is_digestE)
    with True f v show ?thesis
      by (auto simp: implementation_authorized_def contract_frozen_def)
  next
    case False
    with v show ?thesis by (simp add: implementation_authorized_def)
  qed
qed

section \<open>Receipts read back\<close>

lemma require_string_list_Inr:
  "require_string_list v ne = Inr w \<longleftrightarrow> text_list v \<and> (ne \<longrightarrow> items v \<noteq> []) \<and> w = PyList (map strip_item (items v))"
  by (auto simp: require_string_list_def text_list_def)

lemma is_text_strip_item [simp]: "is_text (strip_item v) = is_text v"
  by (cases v) (simp_all add: strip_item_def is_text_def)

lemma text_list_strip: "text_list v \<Longrightarrow> text_list (PyList (map strip_item (items v)))"
  by (auto simp: text_list_def)

lemma build_falsificationE:
  assumes "build_falsification_receipt now tid cyc epoch diff ms ats bs ces out = Inr r"
  obtains "is_id tid" and "is_pos_int epoch" and "is_digest cyc" and "is_digest diff"
    and "str_in out FALSIFICATION_OUTCOMES" and "(out = PyStr ''NO_COUNTEREXAMPLE'') = (items ces = [])"
    and "text_list ms" and "text_list ats" and "text_list bs" and "text_list ces"
    and "items ms \<noteq> []" and "items ats \<noteq> []" and "items bs \<noteq> []"
    and "\<exists>d. r = dset d ''receipt_sha256'' (PyStr (falsification_digest d))
      \<and> d = PyDict [(''schema'', PyInt 1), (''task_id'', tid), (''recorded_at'', PyStr now),
         (''tdd_cycle_digest'', cyc), (''epoch'', epoch), (''diff_digest'', diff),
         (''methods'', PyList (map strip_item (items ms))), (''attempts'', PyList (map strip_item (items ats))),
         (''boundary_cases'', PyList (map strip_item (items bs))),
         (''counterexamples'', PyList (map strip_item (items ces))), (''outcome'', out)]"
  using assms unfolding build_falsification_receipt_def
  by (auto simp: res_bind_Inr check_all_Inr require_string_list_Inr Let_def FALSIFICATION_OUTCOMES_def
      str_in_iff intro!: that)

text \<open>
  C20: a falsification receipt the builder returns is accepted by the validator for exactly the task,
  cycle, epoch and diff it was built for; with \<open>require_clean\<close> it is accepted only when no
  counterexample was found.
\<close>

theorem falsification_receipt_roundtrip:
  assumes "build_falsification_receipt now tid cyc epoch diff ms ats bs ces out = Inr r"
    and "tid' \<noteq> PyNone" and "cyc' \<noteq> PyNone" and "epoch' \<noteq> PyNone" and "diff' \<noteq> PyNone"
  shows "validate_falsification_receipt r tid' cyc' epoch' diff' clean
    = Inr ((clean \<longrightarrow> items ces = []) \<and> tid' = tid \<and> cyc' = cyc \<and> py_eq epoch epoch' \<and> diff' = diff)"
  using assms(1)
proof (rule build_falsificationE)
  assume g: "is_id tid" "is_pos_int epoch" "is_digest cyc" "is_digest diff"
    "str_in out FALSIFICATION_OUTCOMES" "(out = PyStr ''NO_COUNTEREXAMPLE'') = (items ces = [])"
    and t: "text_list ms" "text_list ats" "text_list bs" "text_list ces"
    and n: "items ms \<noteq> []" "items ats \<noteq> []" "items bs \<noteq> []"
    and r: "\<exists>d. r = dset d ''receipt_sha256'' (PyStr (falsification_digest d))
      \<and> d = PyDict [(''schema'', PyInt 1), (''task_id'', tid), (''recorded_at'', PyStr now),
         (''tdd_cycle_digest'', cyc), (''epoch'', epoch), (''diff_digest'', diff),
         (''methods'', PyList (map strip_item (items ms))), (''attempts'', PyList (map strip_item (items ats))),
         (''boundary_cases'', PyList (map strip_item (items bs))),
         (''counterexamples'', PyList (map strip_item (items ces))), (''outcome'', out)]"
  have o: "\<not> unhashable out" using g(5) by (auto simp: str_in_iff)
  obtain a b c where ids: "tid = PyStr a" "cyc = PyStr b" "diff = PyStr c"
    using g(1,3,4) by (cases tid; cases cyc; cases diff) (simp_all add: is_id_def is_digest_def)
  have fields: "dget r ''schema'' = PyInt 1" "dget r ''task_id'' = tid" "dget r ''tdd_cycle_digest'' = cyc"
      "dget r ''epoch'' = epoch" "dget r ''diff_digest'' = diff" "dget r ''methods'' = PyList (map strip_item (items ms))"
      "dget r ''attempts'' = PyList (map strip_item (items ats))" "dget r ''outcome'' = out"
      "dget r ''boundary_cases'' = PyList (map strip_item (items bs))"
      "dget r ''counterexamples'' = PyList (map strip_item (items ces))"
      "dget r ''receipt_sha256'' = PyStr (falsification_digest r)" "is_dict r"
    using r by auto
  have "validate_falsification_receipt r tid' cyc' epoch' diff' clean =
    (if clean \<and> out \<noteq> PyStr ''NO_COUNTEREXAMPLE'' then Inr False
     else Inr (bound_to r ''task_id'' tid' \<and> bound_to r ''tdd_cycle_digest'' cyc'
       \<and> bound_to r ''epoch'' epoch' \<and> bound_to r ''diff_digest'' diff'))"
    unfolding validate_falsification_receipt_def fields using g o n t text_list_strip
    by (simp add: fields)
  then show ?thesis
    using assms(2-5) g(6) by (auto simp: bound_to_def fields ids)
qed

section \<open>A concrete cycle\<close>

definition sample_digest :: pyval where
  "sample_digest = PyStr (replicate 64 (CHR ''a''))"

definition sample_command :: pyval where
  "sample_command = PyList [PyStr ''python'', PyStr ''-m'', PyStr ''unittest'']"

definition sample_new :: "pyval res" where
  "sample_new = new_tdd_cycle ''2025-01-01T00:00:00+00:00'' (PyStr ''task-1'') (PyStr ''cycle-1'')
     (PyStr ''RED_REQUIRED'') (PyInt 3) sample_digest sample_digest (PyBool False) PyNone"

lemma sample_digest_ok [simp]: "is_digest sample_digest" "sample_digest \<noteq> PyNone"
  by (simp_all add: sample_digest_def is_sha256_def list_all_iff is_hex_def is_digit_def less_eq_char_def)

lemma sample_command_ok [simp]: "require_command sample_command = Inr ()"
  by (simp add: require_command_def sample_command_def)

lemma sample_ids [simp]: "is_record_id ''task-1''" "is_record_id ''cycle-1''"
  by (simp_all add: is_record_id_def is_alnum_def is_digit_def is_lower_def is_upper_def less_eq_char_def)

lemma sample_new_ok:
  "\<exists>c. sample_new = Inr c \<and> dget c ''mode'' = PyStr ''RED_REQUIRED'' \<and> dget c ''baseline_epoch'' = PyInt 0
    \<and> dget c ''test_contract_digest'' = sample_digest \<and> dget c ''oracle_digest'' = sample_digest"
  by (simp add: sample_new_def new_tdd_cycle_def check_all_ok mode_names_def TDD_MODES_def TDD_STATUSES_def)

lemma sample_mode [simp]: "mode_info (PyStr ''RED_REQUIRED'') = Inr (''RED'', ''RED_OBSERVED'')"
  by (simp add: mode_info_def TDD_MODES_def)

lemma sample_text_blank [simp]: "\<not> blank ''fails: no parser yet''"
  by (simp add: blank_def strip_def is_space_def)

lemma sample_text: "is_text (PyStr ''fails: no parser yet'')"
  by simp

lemma sample_observed_ok:
  "\<exists>c c'. sample_new = Inr c \<and> cycle_reachable c
    \<and> record_baseline ''t1'' c (PyStr ''RED'') sample_digest sample_command sample_digest sample_digest
        (PyStr ''fails: no parser yet'') (PyBool True) (PyBool True) = Inr c'
    \<and> cycle_step c c' \<and> cycle_reachable c'
    \<and> dget c' ''status'' = PyStr ''RED_OBSERVED'' \<and> dget c' ''test_contract_digest'' = sample_digest
    \<and> dget c' ''oracle_digest'' = sample_digest \<and> dget c' ''baseline_implementation_digest'' = sample_digest"
proof -
  obtain c where c: "sample_new = Inr c" "dget c ''mode'' = PyStr ''RED_REQUIRED''"
    "dget c ''test_contract_digest'' = sample_digest" "dget c ''oracle_digest'' = sample_digest"
    using sample_new_ok by blast
  note v = new_cycle_valid [OF c(1) [unfolded sample_new_def]]
  have r: "cycle_reachable c" using c(1) unfolding sample_new_def by (rule cycle_reachable.new)
  obtain c' where c': "record_baseline ''t1'' c (PyStr ''RED'') sample_digest sample_command sample_digest sample_digest
        (PyStr ''fails: no parser yet'') (PyBool True) (PyBool True) = Inr c'"
    using record_baseline_ok [OF v, of "''RED''" "''RED_OBSERVED''" sample_digest sample_digest sample_digest
        sample_command "PyStr ''fails: no parser yet''" "''t1''"] c(2) by auto
  have s: "cycle_step c c'" using c' by (rule cycle_step.baseline)
  have "dget c' ''status'' = PyStr ''RED_OBSERVED''" "dget c' ''baseline_implementation_digest'' = sample_digest"
    using c' c(2) by (auto elim!: record_baselineE)
  moreover have "dget c' ''test_contract_digest'' = sample_digest" "dget c' ''oracle_digest'' = sample_digest"
    using baseline_extends [OF c'] c(3,4) by (simp_all add: extends_cycle_def frozen_fields_def)
  ultimately show ?thesis using c r c' s cycle_reachable.step [OF r s] by blast
qed

theorem tdd_cycle_lifecycle_witness:
  "\<exists>c. cycle_reachable c \<and> dget c ''status'' = PyStr ''RED_OBSERVED'' \<and> lifecycle c"
  using sample_observed_ok tdd_cycle_lifecycle by blast

theorem tdd_operations_extend_witness:
  "\<exists>c c'. cycle_step c c' \<and> dget c' ''status'' = PyStr ''RED_OBSERVED'' \<and> extends_cycle c c'"
  using sample_observed_ok tdd_operations_extend by blast

theorem tdd_cycle_progress_witness:
  "\<exists>c c3. sample_new = Inr c \<and> (\<exists>c2. complete_tdd_cycle ''t2'' c2 = Inr c3) \<and> dget c3 ''status'' = PyStr ''TDD_CYCLE_COMPLETE''"
proof -
  obtain c where c: "sample_new = Inr c" "dget c ''mode'' = PyStr ''RED_REQUIRED''" "dget c ''baseline_epoch'' = PyInt 0"
    using sample_new_ok by blast
  note v = new_cycle_valid [OF c(1) [unfolded sample_new_def]]
  have "mode_info (dget c ''mode'') = Inr (''RED'', ''RED_OBSERVED'')" using c(2) by simp
  from tdd_cycle_progress [OF v c(3), of 1 sample_digest, OF _ _ this sample_text sample_command_ok, of "''t2''"]
  show ?thesis using c(1) by auto
qed

theorem implementation_authorized_iff_witness:
  "\<exists>c. cycle_reachable c \<and> implementation_authorized c sample_digest sample_digest sample_digest = Inr True
    \<and> implementation_authorized c (PyStr ''other'') sample_digest sample_digest = Inr False"
proof -
  obtain c where c: "cycle_reachable c" "dget c ''status'' = PyStr ''RED_OBSERVED''"
    "dget c ''test_contract_digest'' = sample_digest" "dget c ''oracle_digest'' = sample_digest"
    "dget c ''baseline_implementation_digest'' = sample_digest"
    using sample_observed_ok by blast
  have "PyStr ''other'' \<noteq> sample_digest"
    unfolding sample_digest_def by (auto dest!: arg_cong [where f = length])
  then show ?thesis
    using c implementation_authorized_iff [OF c(1)] by (auto simp: assurance_consts)
qed

definition sample_receipt :: "pyval res" where
  "sample_receipt = build_falsification_receipt ''t3'' (PyStr ''task-1'') sample_digest (PyInt 1) sample_digest
     (PyList [PyStr ''m'']) (PyList [PyStr ''a'']) (PyList [PyStr ''b'']) (PyList []) (PyStr ''NO_COUNTEREXAMPLE'')"

lemma sample_receipt_ok: "\<exists>r. sample_receipt = Inr r"
  by (simp add: sample_receipt_def build_falsification_receipt_def check_all_ok FALSIFICATION_OUTCOMES_def
      require_string_list_def blank_def strip_def is_space_def Let_def)

theorem falsification_receipt_roundtrip_witness:
  "\<exists>r. sample_receipt = Inr r
    \<and> validate_falsification_receipt r (PyStr ''task-1'') sample_digest (PyInt 1) sample_digest True = Inr True
    \<and> validate_falsification_receipt r (PyStr ''task-1'') sample_digest (PyInt 2) sample_digest True = Inr False"
proof -
  obtain r where r: "sample_receipt = Inr r" using sample_receipt_ok by blast
  have "validate_falsification_receipt r (PyStr ''task-1'') sample_digest (PyInt n) sample_digest True = Inr (n = 1)" for n
    using falsification_receipt_roundtrip [OF r [unfolded sample_receipt_def],
        of "PyStr ''task-1''" sample_digest "PyInt n" sample_digest True] by auto
  then show ?thesis by (intro exI [of _ r]) (simp add: r)
qed

end
