(* ===== verification/Review.thy ===== *)
theory Review
  imports Assurance
begin

text \<open>
  \<open>agentinfra/review.py\<close>: the independent review receipt, its construction from the reviewer's
  answers and its validation against the current epoch, diff, requirements, evidence set, TDD
  cycle and test/law baseline.
\<close>

section \<open>Definitions\<close>

definition review_outcomes :: "string list" where
  "review_outcomes = [''ACCEPTED'', ''REJECTED'', ''PARTIAL'']"

definition required_challenge_fields :: "string list" where
  "required_challenge_fields = [''assumptions_tested'', ''counterexamples_attempted'', ''boundary_cases'', ''potential_failures'']"

definition review_digest :: "pyval \<Rightarrow> string" where
  "review_digest r = sha256 (canonical (dpop r ''receipt_sha256''))"

interpretation review_seal: sealed_record "''receipt_sha256''" review_digest
  by unfold_locales (simp add: review_digest_def digest_without_def)

definition require_text :: "pyval \<Rightarrow> string res" where
  "require_text v = (case v of PyStr s \<Rightarrow> if blank s then Inl (ReviewError ''must be non-empty'') else Inr (strip s)
     | _ \<Rightarrow> Inl (ReviewError ''must be non-empty''))"

definition review_require_digest :: "pyval \<Rightarrow> unit res" where
  "review_require_digest v = guard (is_digest v) (ReviewError ''must be a canonical sha256'')"

definition review_string_list :: "pyval \<Rightarrow> bool \<Rightarrow> pyval res" where
  "review_string_list v nonempty =
     (if \<not> text_list v then Inl (ReviewError ''must be an array of non-empty strings'')
      else if nonempty \<and> items v = [] then Inl (ReviewError ''rubber-stamp review: list is empty'')
      else Inr (PyList (map strip_item (items v))))"

text \<open>A finding of blocking severity that is not resolved.\<close>

definition blocking_finding :: "pyval \<Rightarrow> bool res" where
  "blocking_finding item = res_bind (in_set (dget item ''severity'') [''HARD'', ''CRITICAL'', ''HIGH'']) (\<lambda>b.
     Inr (b \<and> \<not> py_eq (dget_or item ''status'' (PyStr ''OPEN'')) (PyStr ''RESOLVED'')))"

text \<open>The list comprehension of the builder looks at every finding, also after a blocking one.\<close>

fun blocking_findings :: "pyval list \<Rightarrow> pyval list res" where
  "blocking_findings [] = Inr []"
| "blocking_findings (x # xs) = res_bind (blocking_finding x) (\<lambda>b.
     res_bind (blocking_findings xs) (\<lambda>r. Inr (if b then x # r else r)))"

definition build_review_receipt ::
  "string \<Rightarrow> pyval \<Rightarrow> pyval \<Rightarrow> pyval \<Rightarrow> pyval \<Rightarrow> pyval \<Rightarrow> pyval \<Rightarrow> pyval \<Rightarrow> pyval \<Rightarrow> pyval \<Rightarrow> pyval \<Rightarrow> pyval \<Rightarrow>
   pyval \<Rightarrow> pyval \<Rightarrow> pyval \<Rightarrow> pyval \<Rightarrow> pyval \<Rightarrow> pyval \<Rightarrow> pyval \<Rightarrow> pyval res" where
  "build_review_receipt now task_id reviewer_lease reviewer_role reviewer_identity implementer_identity
      epoch diff_digest requirements_digest evidence_set_digest tdd_digest test_law_baseline_digest
      assumptions_tested counterexamples_attempted boundary_cases potential_failures unexpected_scope
      findings outcome =
    res_bind (require_text reviewer_identity) (\<lambda>reviewer.
    res_bind (require_text implementer_identity) (\<lambda>implementer.
    res_bind (check_all
      [guard (casefold reviewer \<noteq> casefold implementer) (ReviewError ''implementer cannot independently accept their own change''),
       guard (is_nonneg_int epoch) (ReviewError ''review epoch must be a non-negative integer''),
       memb outcome review_outcomes (ReviewError ''invalid review outcome''),
       guard (is_list findings \<and> (\<forall>x \<in> set (items findings). is_dict x)) (ReviewError ''findings must be an array of objects'')]) (\<lambda>_.
    res_bind (blocking_findings (items findings)) (\<lambda>blocking.
    res_bind (guard (\<not> (outcome = PyStr ''ACCEPTED'' \<and> blocking \<noteq> [])) (ReviewError ''accepted review contains unresolved blocking findings'')) (\<lambda>_.
    res_bind (require_text task_id) (\<lambda>tid.
    res_bind (require_text reviewer_lease) (\<lambda>lease.
    res_bind (require_text reviewer_role) (\<lambda>role.
    res_bind (check_all [review_require_digest diff_digest, review_require_digest requirements_digest,
       review_require_digest evidence_set_digest, review_require_digest tdd_digest,
       review_require_digest test_law_baseline_digest]) (\<lambda>_.
    res_bind (review_string_list assumptions_tested True) (\<lambda>ass.
    res_bind (review_string_list counterexamples_attempted True) (\<lambda>ces.
    res_bind (review_string_list boundary_cases True) (\<lambda>bcs.
    res_bind (review_string_list potential_failures True) (\<lambda>pfs.
    res_bind (review_string_list unexpected_scope False) (\<lambda>usc.
    let receipt = PyDict
      [(''schema'', PyInt 1),
       (''task_id'', PyStr tid),
       (''reviewer_lease'', PyStr lease),
       (''reviewer_role'', PyStr role),
       (''reviewer_identity'', PyStr reviewer),
       (''implementer_identity'', PyStr implementer),
       (''reviewed_at'', PyStr now),
       (''epoch'', epoch),
       (''diff_digest'', diff_digest),
       (''requirements_digest'', requirements_digest),
       (''evidence_set_digest'', evidence_set_digest),
       (''tdd_cycle_digest'', tdd_digest),
       (''test_law_baseline_digest'', test_law_baseline_digest),
       (''assumptions_tested'', ass),
       (''counterexamples_attempted'', ces),
       (''boundary_cases'', bcs),
       (''potential_failures'', pfs),
       (''unexpected_scope'', usc),
       (''findings'', findings),
       (''outcome'', outcome)]
    in Inr (dset receipt ''receipt_sha256'' (PyStr (review_digest receipt)))))))))))))))))"

text \<open>The generator of the validator skips findings that are no dictionaries.\<close>

definition blocks_receipt :: "pyval \<Rightarrow> bool res" where
  "blocks_receipt item = (if is_dict item then blocking_finding item else Inr False)"

definition validate_review_receipt ::
  "pyval \<Rightarrow> pyval \<Rightarrow> pyval \<Rightarrow> pyval \<Rightarrow> pyval \<Rightarrow> pyval \<Rightarrow> pyval \<Rightarrow> bool res" where
  "validate_review_receipt receipt current_epoch current_diff_digest current_requirements_digest
      current_evidence_set_digest current_tdd_cycle_digest current_test_law_baseline_digest =
    (if \<not> is_dict receipt \<or> \<not> py_eq (dget receipt ''schema'') (PyInt 1) then Inr False
     else if dget receipt ''receipt_sha256'' \<noteq> PyStr (review_digest receipt) then Inr False
     else if dget receipt ''outcome'' \<noteq> PyStr ''ACCEPTED'' then Inr False
     else if \<exists>f \<in> set required_challenge_fields. \<not> is_list (dget receipt f) \<or> items (dget receipt f) = [] then Inr False
     else res_bind (iter (dget_or receipt ''findings'' (PyList []))) (\<lambda>findings.
       res_bind (any_res blocks_receipt findings) (\<lambda>blocking.
       if blocking then Inr False
       else Inr (py_eq (dget receipt ''epoch'') current_epoch
         \<and> py_eq (dget receipt ''diff_digest'') current_diff_digest
         \<and> py_eq (dget receipt ''requirements_digest'') current_requirements_digest
         \<and> py_eq (dget receipt ''evidence_set_digest'') current_evidence_set_digest
         \<and> py_eq (dget receipt ''tdd_cycle_digest'') current_tdd_cycle_digest
         \<and> py_eq (dget receipt ''test_law_baseline_digest'') current_test_law_baseline_digest))))"

definition review_receipt_digest :: "pyval \<Rightarrow> pyval res" where
  "review_receipt_digest receipt =
    (if \<not> is_dict receipt \<or> dget receipt ''receipt_sha256'' \<noteq> PyStr (review_digest receipt)
       then Inl (ReviewError ''review receipt integrity failure'')
     else Inr (dget receipt ''receipt_sha256''))"

section \<open>Receipts the builder returns\<close>

lemma require_text_Inr: "require_text v = Inr s \<longleftrightarrow> (\<exists>t. v = PyStr t \<and> \<not> blank t \<and> s = strip t)"
  by (cases v) (auto simp: require_text_def)

lemma review_require_digest_Inr [guards, simp]: "review_require_digest v = Inr () \<longleftrightarrow> is_digest v"
  by (simp add: review_require_digest_def)

lemma review_string_list_Inr:
  "review_string_list v ne = Inr w \<longleftrightarrow> text_list v \<and> (ne \<longrightarrow> items v \<noteq> []) \<and> w = PyList (map strip_item (items v))"
  by (auto simp: review_string_list_def)

lemma blocking_findings_any:
  assumes "blocking_findings xs = Inr bs" and "\<forall>x \<in> set xs. is_dict x"
  shows "any_res blocks_receipt xs = Inr (bs \<noteq> [])"
  using assms
proof (induction xs arbitrary: bs)
  case (Cons x xs)
  then show ?case by (auto simp: res_bind_Inr blocks_receipt_def split: if_splits)
qed simp

text \<open>What the builder stores: each field it was given, checked, with the texts stripped.\<close>

lemma build_reviewE:
  assumes "build_review_receipt now tid lease role rev_id imp_id epoch diff req ev cyc base ass ces bcs pfs usc fnd out = Inr r"
  obtains rv im where "require_text rev_id = Inr rv" and "require_text imp_id = Inr im" and "casefold rv \<noteq> casefold im"
    and "is_nonneg_int epoch" and "str_in out review_outcomes" and "is_list fnd" and "\<forall>x \<in> set (items fnd). is_dict x"
    and "\<exists>bs. blocking_findings (items fnd) = Inr bs \<and> (out = PyStr ''ACCEPTED'' \<longrightarrow> bs = [])"
    and "is_digest diff" and "is_digest req" and "is_digest ev" and "is_digest cyc" and "is_digest base"
    and "text_list ass" and "text_list ces" and "text_list bcs" and "text_list pfs"
    and "items ass \<noteq> []" and "items ces \<noteq> []" and "items bcs \<noteq> []" and "items pfs \<noteq> []"
    and "\<exists>d. r = dset d ''receipt_sha256'' (PyStr (review_digest d)) \<and> is_dict d
      \<and> (\<exists>t. require_text tid = Inr t \<and> dget d ''task_id'' = PyStr t)
      \<and> (\<exists>t. require_text role = Inr t \<and> dget d ''reviewer_role'' = PyStr t)
      \<and> (\<exists>t. require_text lease = Inr t \<and> dget d ''reviewer_lease'' = PyStr t)
      \<and> dget d ''schema'' = PyInt 1 \<and> dget d ''reviewer_identity'' = PyStr rv \<and> dget d ''implementer_identity'' = PyStr im
      \<and> dget d ''epoch'' = epoch \<and> dget d ''diff_digest'' = diff \<and> dget d ''requirements_digest'' = req
      \<and> dget d ''evidence_set_digest'' = ev \<and> dget d ''tdd_cycle_digest'' = cyc \<and> dget d ''test_law_baseline_digest'' = base
      \<and> dget d ''assumptions_tested'' = PyList (map strip_item (items ass))
      \<and> dget d ''counterexamples_attempted'' = PyList (map strip_item (items ces))
      \<and> dget d ''boundary_cases'' = PyList (map strip_item (items bcs))
      \<and> dget d ''potential_failures'' = PyList (map strip_item (items pfs))
      \<and> dget_or d ''findings'' (PyList []) = fnd \<and> dget d ''outcome'' = out"
proof -
  from assms obtain rv im bs t1 t2 t3 where g:
    "require_text rev_id = Inr rv" "require_text imp_id = Inr im" "casefold rv \<noteq> casefold im"
    "is_nonneg_int epoch" "str_in out review_outcomes" "is_list fnd" "\<forall>x \<in> set (items fnd). is_dict x"
    "blocking_findings (items fnd) = Inr bs" "out = PyStr ''ACCEPTED'' \<longrightarrow> bs = []"
    "require_text tid = Inr t1" "require_text lease = Inr t2" "require_text role = Inr t3"
    "is_digest diff" "is_digest req" "is_digest ev" "is_digest cyc" "is_digest base"
    "text_list ass" "text_list ces" "text_list bcs" "text_list pfs"
    "items ass \<noteq> []" "items ces \<noteq> []" "items bcs \<noteq> []" "items pfs \<noteq> []"
    and r: "r = (let receipt = PyDict
      [(''schema'', PyInt 1), (''task_id'', PyStr t1), (''reviewer_lease'', PyStr t2), (''reviewer_role'', PyStr t3),
       (''reviewer_identity'', PyStr rv), (''implementer_identity'', PyStr im), (''reviewed_at'', PyStr now),
       (''epoch'', epoch), (''diff_digest'', diff), (''requirements_digest'', req), (''evidence_set_digest'', ev),
       (''tdd_cycle_digest'', cyc), (''test_law_baseline_digest'', base),
       (''assumptions_tested'', PyList (map strip_item (items ass))),
       (''counterexamples_attempted'', PyList (map strip_item (items ces))),
       (''boundary_cases'', PyList (map strip_item (items bcs))),
       (''potential_failures'', PyList (map strip_item (items pfs))),
       (''unexpected_scope'', PyList (map strip_item (items usc))),
       (''findings'', fnd), (''outcome'', out)]
      in dset receipt ''receipt_sha256'' (PyStr (review_digest receipt)))"
    unfolding build_review_receipt_def
    by (auto simp: res_bind_Inr check_all_Inr review_string_list_Inr Let_def)
  show thesis
    by (rule that [OF g(1-7)]) (use g r in \<open>auto simp: Let_def\<close>)
qed

text \<open>
  An accepted review receipt the builder returns validates for exactly the epoch, diff,
  requirements, evidence set, TDD cycle and test/law baseline it was built for, and a rejected or
  partial one never validates.
\<close>

theorem review_receipt_roundtrip:
  assumes "build_review_receipt now tid lease role rev_id imp_id epoch diff req ev cyc base ass ces bcs pfs usc fnd out = Inr r"
  shows "validate_review_receipt r epoch' diff' req' ev' cyc' base'
    = Inr (out = PyStr ''ACCEPTED'' \<and> py_eq epoch epoch' \<and> diff' = diff \<and> req' = req \<and> ev' = ev \<and> cyc' = cyc \<and> base' = base)"
  using assms
proof (rule build_reviewE)
  fix rv im
  assume dig: "is_digest diff" "is_digest req" "is_digest ev" "is_digest cyc" "is_digest base"
    and lists: "items ass \<noteq> []" "items ces \<noteq> []" "items bcs \<noteq> []" "items pfs \<noteq> []"
    and fnd: "is_list fnd" "\<forall>x \<in> set (items fnd). is_dict x"
    and blk: "\<exists>bs. blocking_findings (items fnd) = Inr bs \<and> (out = PyStr ''ACCEPTED'' \<longrightarrow> bs = [])"
    and stored: "\<exists>d. r = dset d ''receipt_sha256'' (PyStr (review_digest d)) \<and> is_dict d
      \<and> (\<exists>t. require_text tid = Inr t \<and> dget d ''task_id'' = PyStr t)
      \<and> (\<exists>t. require_text role = Inr t \<and> dget d ''reviewer_role'' = PyStr t)
      \<and> (\<exists>t. require_text lease = Inr t \<and> dget d ''reviewer_lease'' = PyStr t)
      \<and> dget d ''schema'' = PyInt 1 \<and> dget d ''reviewer_identity'' = PyStr rv \<and> dget d ''implementer_identity'' = PyStr im
      \<and> dget d ''epoch'' = epoch \<and> dget d ''diff_digest'' = diff \<and> dget d ''requirements_digest'' = req
      \<and> dget d ''evidence_set_digest'' = ev \<and> dget d ''tdd_cycle_digest'' = cyc \<and> dget d ''test_law_baseline_digest'' = base
      \<and> dget d ''assumptions_tested'' = PyList (map strip_item (items ass))
      \<and> dget d ''counterexamples_attempted'' = PyList (map strip_item (items ces))
      \<and> dget d ''boundary_cases'' = PyList (map strip_item (items bcs))
      \<and> dget d ''potential_failures'' = PyList (map strip_item (items pfs))
      \<and> dget_or d ''findings'' (PyList []) = fnd \<and> dget d ''outcome'' = out"
  have digs: "\<exists>a. diff = PyStr a" "\<exists>a. req = PyStr a" "\<exists>a. ev = PyStr a" "\<exists>a. cyc = PyStr a" "\<exists>a. base = PyStr a"
    using dig by (blast elim: is_digestE)+
  have chal: "\<forall>f \<in> set required_challenge_fields. is_list (dget r f) \<and> items (dget r f) \<noteq> []"
    using stored lists by (auto simp: required_challenge_fields_def)
  have any: "out = PyStr ''ACCEPTED'' \<Longrightarrow> any_res blocks_receipt (items fnd) = Inr False"
    using blk blocking_findings_any [OF _ fnd(2)] by fastforce
  show ?thesis
  proof (cases "out = PyStr ''ACCEPTED''")
    case True
    then have "validate_review_receipt r epoch' diff' req' ev' cyc' base' = Inr (py_eq epoch epoch' \<and> py_eq diff diff'
        \<and> py_eq req req' \<and> py_eq ev ev' \<and> py_eq cyc cyc' \<and> py_eq base base')"
      unfolding validate_review_receipt_def using stored chal any fnd(1) by (auto simp: iter_items)
    with True digs show ?thesis by auto
  next
    case False
    then show ?thesis unfolding validate_review_receipt_def using stored by auto
  qed
qed

text \<open>
  The implementer cannot build a receipt for their own change: in every receipt the builder
  returns the stored reviewer and implementer differ even after case folding, no challenge list is
  empty, and an accepted receipt has no unresolved blocking finding.
\<close>

theorem review_builder_independent:
  assumes "build_review_receipt now tid lease role rev_id imp_id epoch diff req ev cyc base ass ces bcs pfs usc fnd out = Inr r"
  shows "(\<exists>rv im. dget r ''reviewer_identity'' = PyStr rv \<and> dget r ''implementer_identity'' = PyStr im \<and> casefold rv \<noteq> casefold im)
    \<and> (\<forall>f \<in> set required_challenge_fields. is_list (dget r f) \<and> items (dget r f) \<noteq> [])
    \<and> (dget r ''outcome'' = PyStr ''ACCEPTED'' \<longrightarrow> any_res blocks_receipt (items (dget_or r ''findings'' (PyList []))) = Inr False)"
  using assms
  by (rule build_reviewE) (auto simp: required_challenge_fields_def dest: blocking_findings_any)

text \<open>
  the validator does not look at who reviewed. Replacing the reviewer identity of an intact
  receipt, even by the implementer's own, and sealing it again does not change the answer:
  independence is enforced by the builder (and by the lease the state machine asks for), not here.
\<close>

theorem review_validator_ignores_identity:
  assumes "is_dict r" and "dget r ''receipt_sha256'' = PyStr (review_digest r)"
  shows "(let r' = dset r ''reviewer_identity'' (dget r ''implementer_identity'')
     in validate_review_receipt (dset r' ''receipt_sha256'' (PyStr (review_digest r'))) e d q s c b)
    = validate_review_receipt r e d q s c b"
  using assms unfolding validate_review_receipt_def required_challenge_fields_def Let_def
  by (simp cong: if_cong)

section \<open>A concrete receipt\<close>

definition sample_review :: "pyval res" where
  "sample_review = build_review_receipt ''t4'' (PyStr ''task-1'') (PyStr ''L-1'') (PyStr ''adversarial-reviewer'') (PyStr ''ann'') (PyStr ''Bob'')
     (PyInt 1) sample_digest sample_digest sample_digest sample_digest sample_digest
     (PyList [PyStr ''a'']) (PyList [PyStr ''c'']) (PyList [PyStr ''b'']) (PyList [PyStr ''p'']) (PyList [])
     (PyList [PyDict [(''severity'', PyStr ''HIGH''), (''status'', PyStr ''RESOLVED'')]]) (PyStr ''ACCEPTED'')"

lemma sample_review_ok: "\<exists>r. sample_review = Inr r \<and> is_dict r \<and> dget r ''receipt_sha256'' = PyStr (review_digest r)"
  by (simp add: sample_review_def build_review_receipt_def check_all_ok review_outcomes_def require_text_def
      blank_def strip_def is_space_def casefold_def lower_char_def blocking_finding_def in_set_def
      review_string_list_def text_list_def Let_def)

theorem review_receipt_roundtrip_witness:
  "\<exists>r. sample_review = Inr r
    \<and> validate_review_receipt r (PyInt 1) sample_digest sample_digest sample_digest sample_digest sample_digest = Inr True
    \<and> validate_review_receipt r (PyInt 2) sample_digest sample_digest sample_digest sample_digest sample_digest = Inr False"
proof -
  obtain r where r: "sample_review = Inr r" using sample_review_ok by blast
  show ?thesis
    by (intro exI [of _ r]) (simp add: r review_receipt_roundtrip [OF r [unfolded sample_review_def]])
qed

theorem review_builder_independent_witness:
  "\<exists>r. sample_review = Inr r \<and> (\<exists>rv im. dget r ''reviewer_identity'' = PyStr rv
     \<and> dget r ''implementer_identity'' = PyStr im \<and> casefold rv \<noteq> casefold im)"
proof -
  obtain r where r: "sample_review = Inr r" using sample_review_ok by blast
  then show ?thesis using review_builder_independent [OF r [unfolded sample_review_def]] by blast
qed

theorem review_validator_ignores_identity_witness:
  "\<exists>r. sample_review = Inr r \<and> (let r' = dset r ''reviewer_identity'' (dget r ''implementer_identity'')
     in validate_review_receipt (dset r' ''receipt_sha256'' (PyStr (review_digest r'))) PyNone PyNone PyNone PyNone PyNone PyNone)
    = validate_review_receipt r PyNone PyNone PyNone PyNone PyNone PyNone"
proof -
  obtain r where r: "sample_review = Inr r" "is_dict r" "dget r ''receipt_sha256'' = PyStr (review_digest r)"
    using sample_review_ok by blast
  show ?thesis using r(1) review_validator_ignores_identity [OF r(2,3)] by blast
qed

end
