(* ===== verification/State_Machine.thy ===== *)
theory State_Machine
  imports Review
begin

text \<open>
  \<open>agentinfra/state_machine.py\<close>: the workflow states of a task, the allowed edges, and
  \<open>validate_transition\<close> with every guard it applies before a task may enter \<open>IMPLEMENT\<close>, \<open>GREEN\<close>,
  \<open>FALSIFY\<close>, \<open>ADVERSARIAL_REVIEW\<close>, \<open>FINAL_AUDIT\<close> or \<open>FINALIZE\<close>. The task is the stored dictionary.
\<close>

section \<open>States and edges\<close>

definition STATES :: "string list" where
  "STATES = [''CREATED'', ''DISCOVER'', ''PRECHECK'', ''TRIAGE'', ''EXPLORE'', ''RESEARCH'', ''ARCHITECT'', ''PLAN'',
     ''TEST_DESIGN'', ''BASELINE'', ''IMPLEMENT'', ''DIAGNOSE'', ''GREEN'', ''VERIFY'', ''FALSIFY'', ''REVIEW'',
     ''ADVERSARIAL_REVIEW'', ''REMEDIATE'', ''FINAL_AUDIT'', ''FINALIZE'', ''BLOCKED'', ''FAILED'', ''CANCELLED'', ''ABANDONED'']"

definition TERMINAL_STATES :: "string list" where
  "TERMINAL_STATES = [''FAILED'', ''FINALIZE'', ''CANCELLED'', ''ABANDONED'']"

definition escapes :: "string list" where
  "escapes = [''BLOCKED'', ''CANCELLED'', ''ABANDONED'', ''FAILED'']"

definition ALLOWED :: "(string \<times> string list) list" where
  "ALLOWED =
    [(''CREATED'', ''DISCOVER'' # escapes),
     (''DISCOVER'', ''PRECHECK'' # escapes),
     (''PRECHECK'', ''TRIAGE'' # escapes),
     (''TRIAGE'', [''EXPLORE'', ''RESEARCH'', ''ARCHITECT'', ''PLAN''] @ escapes),
     (''EXPLORE'', [''TRIAGE'', ''RESEARCH'', ''ARCHITECT'', ''PLAN''] @ escapes),
     (''RESEARCH'', [''TRIAGE'', ''EXPLORE'', ''ARCHITECT'', ''PLAN''] @ escapes),
     (''ARCHITECT'', [''PLAN'', ''TRIAGE''] @ escapes),
     (''PLAN'', [''TEST_DESIGN'', ''IMPLEMENT'', ''VERIFY''] @ escapes),
     (''TEST_DESIGN'', ''BASELINE'' # escapes),
     (''BASELINE'', [''IMPLEMENT'', ''REMEDIATE'', ''TEST_DESIGN''] @ escapes),
     (''IMPLEMENT'', [''GREEN'', ''DIAGNOSE'', ''TEST_DESIGN''] @ escapes),
     (''DIAGNOSE'', [''TEST_DESIGN'', ''REVIEW'', ''ADVERSARIAL_REVIEW''] @ escapes),
     (''GREEN'', [''VERIFY'', ''FALSIFY'', ''ADVERSARIAL_REVIEW'', ''TEST_DESIGN''] @ escapes),
     (''VERIFY'', [''FALSIFY'', ''ADVERSARIAL_REVIEW'', ''TEST_DESIGN'', ''FINAL_AUDIT''] @ escapes),
     (''FALSIFY'', [''VERIFY'', ''ADVERSARIAL_REVIEW'', ''TEST_DESIGN''] @ escapes),
     (''REVIEW'', [''TEST_DESIGN'', ''REMEDIATE'', ''VERIFY'', ''FINAL_AUDIT''] @ escapes),
     (''ADVERSARIAL_REVIEW'', [''TEST_DESIGN'', ''VERIFY'', ''FALSIFY'', ''FINAL_AUDIT''] @ escapes),
     (''REMEDIATE'', [''GREEN'', ''DIAGNOSE'', ''TEST_DESIGN''] @ escapes),
     (''FINAL_AUDIT'', [''TEST_DESIGN'', ''VERIFY'', ''FINALIZE''] @ escapes),
     (''BLOCKED'', filter (\<lambda>s. s \<noteq> ''CREATED'' \<and> s \<noteq> ''FINALIZE'') STATES),
     (''FAILED'', []), (''FINALIZE'', []), (''CANCELLED'', []), (''ABANDONED'', [])]"

definition PRECHECK_KEYS :: "string list" where
  "PRECHECK_KEYS = [''governance_snapshot'', ''constitution'', ''instruction_provenance'', ''repository_discovery'',
     ''workspace_snapshot'', ''test_law_baseline'', ''tdd_plan'', ''compiled_policy'', ''mandatory_gates'', ''write_scope'',
     ''budgets'', ''command_matrix'', ''review_requirements'']"

definition TDD_BASELINE_OUTCOMES :: "(string \<times> string) list" where
  "TDD_BASELINE_OUTCOMES = [(''RED_REQUIRED'', ''RED''), (''CHARACTERIZATION_REQUIRED'', ''CHARACTERIZED''),
     (''NON_BEHAVIORAL_TEST_FIRST'', ''TEST_FIRST'')]"

text \<open>\<open>ALLOWED[state]\<close>.\<close>

definition allowed_from :: "pyval \<Rightarrow> string list res" where
  "allowed_from v = (case v of
      PyStr s \<Rightarrow> (case map_of ALLOWED s of None \<Rightarrow> Inl (KeyErr s) | Some ts \<Rightarrow> Inr ts)
    | _ \<Rightarrow> (if unhashable v then Inl TypeErr else Inl (KeyErr [])))"

section \<open>The guards\<close>

definition artifact_digest :: "pyval \<Rightarrow> pyval" where
  "artifact_digest v = (if \<not> is_dict v then PyNone
     else let digest = dget_or v ''digest'' (dget v ''sha256'') in if is_digest digest then digest else PyNone)"

definition current_tdd_cycle :: "pyval \<Rightarrow> pyval option" where
  "current_tdd_cycle task = (let tdd = dget task ''tdd'' in
     if \<not> is_dict tdd then None
     else let active = dget tdd ''active_cycle_id''; cycles = dget tdd ''cycles'' in
       if \<not> is_str active \<or> \<not> is_list cycles then None
       else List.find (\<lambda>c. is_dict c \<and> py_eq (dget c ''cycle_id'') active) (items cycles))"

definition task_epoch :: "pyval \<Rightarrow> int res" where
  "task_epoch task = py_int (dget_or task ''change_epoch'' (PyInt 0))"

definition validate_current_green :: "pyval \<Rightarrow> pyval res" where
  "validate_current_green task = (case current_tdd_cycle task of
     None \<Rightarrow> Inl (TransitionError ''current TDD cycle has not established GREEN'')
   | Some cycle \<Rightarrow>
      res_bind (memb (dget cycle ''status'') [''GREEN_PROVEN'', ''TDD_CYCLE_COMPLETE'']
        (TransitionError ''current TDD cycle has not established GREEN'')) (\<lambda>_.
      res_bind (task_epoch task) (\<lambda>epoch.
      res_bind (check_all
        [guard (py_eq (dget cycle ''green_epoch'') (PyInt epoch) \<and> py_eq (dget (dget task ''tdd'') ''green_epoch'') (PyInt epoch))
           (TransitionError ''GREEN evidence is stale for the current implementation epoch''),
         guard (py_eq (dget cycle ''test_contract_digest'') (dget cycle ''frozen_test_contract_digest''))
           (TransitionError ''GREEN test contract no longer matches its frozen RED contract''),
         guard (py_eq (dget cycle ''oracle_digest'') (dget cycle ''frozen_oracle_digest''))
           (TransitionError ''GREEN oracle no longer matches its frozen RED oracle''),
         guard (py_eq (dget cycle ''green_implementation_digest'') (dget task ''implementation_digest'')
             \<and> py_eq (dget cycle ''green_diff_digest'') (dget task ''diff_digest''))
           (TransitionError ''GREEN evidence is not bound to the current implementation and diff'')]) (\<lambda>_.
      Inr cycle))))"

definition validate_current_falsification :: "pyval \<Rightarrow> pyval \<Rightarrow> unit res" where
  "validate_current_falsification task cycle =
     res_bind (validate_falsification_receipt (dget task ''falsification'') (dget task ''id'')
       (dget cycle ''cycle_sha256'') (dget task ''change_epoch'') (dget task ''diff_digest'') True) (\<lambda>ok.
     guard ok (TransitionError ''current candidate lacks clean, current falsification evidence''))"

text \<open>A closed child whose lease and role are those of the receipt and whose result was taken.\<close>

definition handoff_matches :: "pyval \<Rightarrow> pyval \<Rightarrow> bool res" where
  "handoff_matches receipt item =
     (if \<not> is_dict item then Inl AttributeErr
      else if \<not> py_eq (dget_or item ''lease_id'' (dget item ''handoff_id'')) (dget receipt ''reviewer_lease'') then Inr False
      else if \<not> py_eq (dget item ''role'') (dget receipt ''reviewer_role'') then Inr False
      else in_set (dget item ''outcome'') [''accepted'', ''partial''])"

definition review_is_current :: "pyval \<Rightarrow> pyval \<Rightarrow> pyval \<Rightarrow> bool res" where
  "review_is_current task cycle receipt =
     res_bind (attr_dict (dget_or task ''precheck'' (PyDict []))) (\<lambda>_.
     validate_review_receipt receipt (dget task ''change_epoch'') (dget task ''diff_digest'')
       (artifact_digest (dget (dget task ''precheck'') ''compiled_policy'')) (dget task ''evidence_set_digest'')
       (dget cycle ''cycle_sha256'') (artifact_digest (dget (dget task ''precheck'') ''test_law_baseline'')))"

definition validate_current_review :: "pyval \<Rightarrow> pyval \<Rightarrow> unit res" where
  "validate_current_review task cycle = (let receipt = dget task ''review_receipt'' in
     res_bind (guard (is_dict receipt \<and> py_eq (dget receipt ''task_id'') (dget task ''id''))
       (TransitionError ''current candidate lacks an independent review receipt'')) (\<lambda>_.
     res_bind (iter (dget_or task ''child_history'' (PyList []))) (\<lambda>history.
     res_bind (any_res (handoff_matches receipt) history) (\<lambda>matching_handoff.
     if \<not> matching_handoff then Inl (TransitionError ''independent review is missing, rejected, or stale'')
     else res_bind (review_is_current task cycle receipt) (\<lambda>ok.
       guard ok (TransitionError ''independent review is missing, rejected, or stale''))))))"

definition validate_precheck :: "pyval \<Rightarrow> unit res" where
  "validate_precheck task = (let artifacts = dget task ''precheck'' in check_all
     [guard (is_dict artifacts) (TransitionError ''precheck must contain content-addressed artifacts''),
      guard (\<forall>key \<in> set PRECHECK_KEYS. artifact_digest (dget artifacts key) \<noteq> PyNone)
        (TransitionError ''precheck artifacts missing or unbound'')])"

definition frozen_at :: "pyval \<Rightarrow> string \<Rightarrow> string \<Rightarrow> bool" where
  "frozen_at tdd current frozen \<longleftrightarrow> is_digest (dget tdd current) \<and> py_eq (dget tdd current) (dget tdd frozen)"

definition validate_tdd_authority :: "pyval \<Rightarrow> unit res" where
  "validate_tdd_authority task = (let tdd = dget task ''tdd''; mode = dget tdd ''mode'' in
     res_bind (guard (is_dict tdd) (TransitionError ''implementation requires a compiled TDD contract'')) (\<lambda>_.
     if unhashable mode then Inl TypeErr
     else (case (case mode of PyStr m \<Rightarrow> map_of TDD_BASELINE_OUTCOMES m | _ \<Rightarrow> None) of
       None \<Rightarrow> Inl (TransitionError ''implementation requires a constitutional TDD mode'')
     | Some expected \<Rightarrow> check_all
        [guard (dget tdd ''required_baseline_outcome'' = PyStr expected) (TransitionError ''compiled TDD baseline outcome conflicts with its mode''),
         guard (dget tdd ''test_design_complete'' = PyBool True) (TransitionError ''implementation requires completed TEST_DESIGN''),
         guard (dget tdd ''baseline_executed'' = PyBool True) (TransitionError ''implementation requires an executed pre-implementation baseline''),
         guard (dget tdd ''baseline_outcome'' = PyStr expected) (TransitionError ''mode requires another baseline outcome''),
         guard (frozen_at tdd ''test_contract_digest'' ''frozen_test_contract_digest'') (TransitionError ''test contract is not frozen at its current digest''),
         guard (frozen_at tdd ''oracle_digest'' ''frozen_oracle_digest'') (TransitionError ''oracle is not frozen at its current digest''),
         guard (frozen_at tdd ''baseline_implementation_digest'' ''observed_implementation_digest'')
           (TransitionError ''baseline evidence is not bound to the observed pre-implementation source''),
         guard (dget tdd ''harness_valid'' = PyBool True) (TransitionError ''invalid or deliberately damaged test harness cannot establish baseline authority''),
         guard (dget tdd ''baseline_intact'' = PyBool True) (TransitionError ''damaged or reconstructed production baseline cannot authorize implementation''),
         guard (is_text (dget tdd ''semantic_reason'')) (TransitionError ''baseline lacks a semantic explanation of the observed behavior'')])))"

subsection \<open>The sections of \<open>validate_transition\<close>\<close>

definition write_mode :: "pyval \<Rightarrow> bool" where
  "write_mode task \<longleftrightarrow> dget task ''mode'' = PyStr ''write''"

definition transition_targets :: "pyval \<Rightarrow> pyval list res" where
  "transition_targets task = res_bind (iter (dget_or task ''transitions'' (PyList []))) (map_dict (\<lambda>t. dget t ''to''))"

text \<open>Lines 245--254: what the implementation states ask for.\<close>

definition implementation_guards :: "pyval \<Rightarrow> string \<Rightarrow> unit res" where
  "implementation_guards task current =
     res_bind (transition_targets task) (\<lambda>history.
     if write_mode task then check_all
       [guard (current \<noteq> ''TRIAGE'') (TransitionError ''mutating task cannot jump directly from TRIAGE to implementation''),
        guard (PyStr ''PLAN'' \<in> set history \<or> current \<in> {''PLAN'', ''BASELINE''}) (TransitionError ''mutating task requires PLAN before implementation''),
        validate_tdd_authority task]
     else res_bind (in_set (dget task ''risk'') [''high'', ''critical'']) (\<lambda>risky.
       guard (\<not> risky \<or> PyStr ''PLAN'' \<in> set history \<or> current = ''PLAN'') (TransitionError ''risk task requires PLAN before implementation'')))"

definition green_and_falsified :: "pyval \<Rightarrow> unit res" where
  "green_and_falsified task = res_bind (validate_current_green task) (validate_current_falsification task)"

definition green_falsified_reviewed :: "pyval \<Rightarrow> unit res" where
  "green_falsified_reviewed task = res_bind (validate_current_green task) (\<lambda>cycle. check_all
     [validate_current_falsification task cycle, validate_current_review task cycle])"

definition gate_proven :: "pyval \<Rightarrow> bool res" where
  "gate_proven gate = (if is_dict gate then Inr (dget gate ''status'' = PyStr ''PROVEN'') else Inl AttributeErr)"

text \<open>\<open>any(gate.get("status") == "PROVEN" ...)\<close>, raised when no gate is proven.\<close>

definition some_gate_proven :: "pyval \<Rightarrow> unit res" where
  "some_gate_proven task = res_bind (iter (dget_or task ''gates'' (PyList []))) (\<lambda>gates.
     res_bind (any_res gate_proven gates) (\<lambda>ok.
     guard ok (TransitionError ''mutating task requires at least one proven, non-waived acceptance gate'')))"

definition gates_resolved :: "pyval \<Rightarrow> exn \<Rightarrow> unit res" where
  "gates_resolved task e = res_bind (iter (dget_or task ''gates'' (PyList []))) (\<lambda>gates.
     res_bind (collect_ids (\<lambda>g. res_bind (in_set (dget g ''status'') [''PROVEN'', ''WAIVED'']) (\<lambda>b. Inr (\<not> b))) gates) (\<lambda>bad.
     report_ids e bad))"

definition blocking_risk :: "pyval \<Rightarrow> bool res" where
  "blocking_risk r = res_bind (in_set (dget r ''severity'') [''high'', ''critical'']) (\<lambda>b.
     Inr (b \<and> dget r ''status'' \<noteq> PyStr ''resolved''))"

definition risks_resolved :: "pyval \<Rightarrow> exn \<Rightarrow> unit res" where
  "risks_resolved task e = res_bind (iter (dget_or task ''risks'' (PyList []))) (\<lambda>risks.
     res_bind (collect_ids blocking_risk risks) (report_ids e))"

definition verification_current :: "pyval \<Rightarrow> unit res" where
  "verification_current task = res_bind (task_epoch task) (\<lambda>epoch.
     guard (py_eq (dget task ''verification_epoch'') (PyInt epoch))
       (TransitionError ''verification evidence is stale for the current implementation epoch''))"

definition review_entry :: "int \<Rightarrow> pyval \<Rightarrow> bool res" where
  "review_entry epoch item = (if \<not> is_dict item then Inl AttributeErr
     else res_bind (in_set (dget item ''to'') [''REVIEW'', ''ADVERSARIAL_REVIEW'']) (\<lambda>b.
       Inr (b \<and> py_eq (dget item ''epoch'') (PyInt epoch))))"

definition specialist_entry :: "pyval \<Rightarrow> bool res" where
  "specialist_entry item = (if \<not> is_dict item then Inl AttributeErr
     else res_bind (in_set (dget item ''outcome'') [''accepted'', ''partial'']) (\<lambda>b.
       let role = casefold (py_str (dget_or item ''role'' (PyStr '''')))
       in Inr (b \<and> (contains role ''adversarial'' \<or> contains role ''security''))))"

text \<open>Lines 260--299.\<close>

definition final_audit_guards :: "pyval \<Rightarrow> unit res" where
  "final_audit_guards task = check_all
    [guard (\<not> truthy (dget task ''active_child'')) (TransitionError ''cannot enter FINAL_AUDIT with an active child''),
     guard (truthy (dget task ''verification_evidence'')) (TransitionError ''task requires direct verification evidence before FINAL_AUDIT''),
     verification_current task,
     whenever (write_mode task) (check_all
       [guard (truthy (dget task ''gates'')) (TransitionError ''mutating task requires at least one acceptance gate before FINAL_AUDIT''),
        some_gate_proven task,
        green_falsified_reviewed task]),
     gates_resolved task (TransitionError ''unresolved acceptance gates before FINAL_AUDIT''),
     risks_resolved task (TransitionError ''unresolved blocking risks before FINAL_AUDIT''),
     res_bind (task_epoch task) (\<lambda>epoch.
       res_bind (iter (dget_or task ''transitions'' (PyList []))) (\<lambda>ts.
       res_bind (any_res (review_entry epoch) ts) (\<lambda>current_review.
       guard (\<not> write_mode task \<or> current_review)
         (TransitionError ''mutating task requires current independent ADVERSARIAL_REVIEW before FINAL_AUDIT'')))),
     whenever (dget task ''risk'' = PyStr ''critical'')
       (res_bind (iter (dget_or task ''child_history'' (PyList []))) (\<lambda>history.
        res_bind (any_res specialist_entry history) (\<lambda>specialist_review.
        guard specialist_review (TransitionError ''critical risk task requires an accepted adversarial or security child review''))))]"

text \<open>Lines 300--326.\<close>

definition finalize_guards :: "pyval \<Rightarrow> unit res" where
  "finalize_guards task = check_all
    [guard (\<not> truthy (dget task ''active_child'')) (TransitionError ''cannot finalize with active child lease''),
     guard (\<not> write_mode task \<or> truthy (dget task ''gates'')) (TransitionError ''mutating task requires at least one acceptance gate''),
     whenever (write_mode task) (some_gate_proven task),
     whenever (write_mode task) (green_falsified_reviewed task),
     gates_resolved task (TransitionError ''unresolved acceptance gates''),
     risks_resolved task (TransitionError ''unresolved blocking risks''),
     guard (truthy (dget task ''verification_evidence'')) (TransitionError ''task requires direct verification evidence''),
     verification_current task,
     guard (truthy (dget task ''final_audit_complete'')) (TransitionError ''final audit not recorded'')]"

text \<open>Lines 236--326 after the edge test: the guards of the target state.\<close>

definition target_guards :: "pyval \<Rightarrow> string \<Rightarrow> string \<Rightarrow> unit res" where
  "target_guards task current target = check_all
     [whenever (current = ''BLOCKED'' \<and> target \<noteq> ''FAILED'')
        (guard (truthy (dget task ''previous_state'') \<and> py_eq (PyStr target) (dget task ''previous_state''))
          (TransitionError ''BLOCKED task may resume only to previous state'')),
      whenever (current = ''PRECHECK'' \<and> target = ''TRIAGE'') (validate_precheck task),
      whenever (target \<in> {''IMPLEMENT'', ''REMEDIATE''}) (implementation_guards task current),
      whenever (target \<in> {''GREEN'', ''FALSIFY''} \<and> write_mode task)
        (res_bind (validate_current_green task) (\<lambda>_. Inr ())),
      whenever (target = ''ADVERSARIAL_REVIEW'' \<and> write_mode task) (green_and_falsified task),
      whenever (target = ''FINAL_AUDIT'') (final_audit_guards task),
      whenever (target = ''FINALIZE'') (finalize_guards task)]"

definition validate_transition :: "pyval \<Rightarrow> string \<Rightarrow> string option \<Rightarrow> unit res" where
  "validate_transition task supplied reason = (let target = upper supplied; current = dget task ''state'' in
     if \<not> has_key task ''state'' then Inl (KeyErr ''state'')
     else if (case reason of None \<Rightarrow> False | Some r \<Rightarrow> blank r) then Inl (TransitionError ''transition reason must not be empty'')
     else if target \<notin> set STATES then Inl (TransitionError ''unknown state'')
     else if current = PyStr target \<and> target = ''FINALIZE'' then Inr ()
     else res_bind (allowed_from current) (\<lambda>targets.
       res_bind (guard (target \<in> set targets) (TransitionError ''invalid transition'')) (\<lambda>_.
       target_guards task (py_str current) target)))"

section \<open>What an accepted transition shows\<close>

lemma py_eq_PyInt_epoch: "py_eq v (PyInt n) \<Longrightarrow> py_eq w (PyInt n) \<Longrightarrow> py_eq v w"
  using py_eq_sym py_eq_trans by blast

lemma allowed_from_Inr: "allowed_from v = Inr ts \<longleftrightarrow> (\<exists>s. v = PyStr s \<and> map_of ALLOWED s = Some ts)"
  by (cases v) (auto simp: allowed_from_def split: option.splits)

text \<open>The edge relation.\<close>

definition edge :: "string \<Rightarrow> string \<Rightarrow> bool" where
  "edge s t \<longleftrightarrow> (case map_of ALLOWED s of None \<Rightarrow> False | Some ts \<Rightarrow> t \<in> set ts)"

lemmas graph_defs = ALLOWED_def STATES_def escapes_def TERMINAL_STATES_def

lemma edge_FINALIZE: "edge s ''FINALIZE'' \<longleftrightarrow> s = ''FINAL_AUDIT''"
  by (simp add: edge_def graph_defs)

lemma edge_terminal: "s \<in> set TERMINAL_STATES \<Longrightarrow> \<not> edge s t"
  by (auto simp: edge_def graph_defs)

lemma validate_transition_Inr:
  "validate_transition task supplied reason = Inr () \<longleftrightarrow>
     has_key task ''state'' \<and> \<not> (case reason of None \<Rightarrow> False | Some r \<Rightarrow> blank r) \<and> upper supplied \<in> set STATES
     \<and> (dget task ''state'' = PyStr (upper supplied) \<and> upper supplied = ''FINALIZE''
       \<or> (\<exists>s. dget task ''state'' = PyStr s \<and> edge s (upper supplied) \<and> target_guards task s (upper supplied) = Inr ()))"
proof -
  have chain: "((if \<not> a then Inl e1 else if b then Inl e2 else if \<not> c then Inl e3 else if d then Inr () else r) = Inr ())
      \<longleftrightarrow> a \<and> \<not> b \<and> c \<and> (d \<or> r = Inr ())" for a b c d e1 e2 e3 and r :: "unit res"
    by simp
  have step: "res_bind (allowed_from v) (\<lambda>ts. res_bind (guard (t \<in> set ts) e) (\<lambda>_. target_guards task (py_str v) t)) = Inr ()
      \<longleftrightarrow> (\<exists>s. v = PyStr s \<and> edge s t \<and> target_guards task s t = Inr ())" for v t e
    by (cases v) (auto simp: allowed_from_Inr res_bind_Inr edge_def split: option.splits)
  show ?thesis
    unfolding validate_transition_def Let_def chain step by (rule refl)
qed

lemma transition_edge:
  assumes "validate_transition task t reason = Inr ()"
  shows "\<exists>s. dget task ''state'' = PyStr s \<and> (edge s (upper t) \<or> s = ''FINALIZE'' \<and> upper t = ''FINALIZE'')"
  using assms unfolding validate_transition_Inr by (elim conjE disjE exE) simp_all

subsection \<open>The contract of each guard\<close>

text \<open>
  \<open>green_current task c\<close>: \<open>c\<close> is the active TDD cycle of the task, GREEN at the current epoch, with
  its contract and oracle still the frozen ones, for the current implementation and diff.
\<close>

definition green_current :: "pyval \<Rightarrow> pyval \<Rightarrow> bool" where
  "green_current task c \<longleftrightarrow> c \<in> set (items (dget (dget task ''tdd'') ''cycles''))
     \<and> dget c ''cycle_id'' = dget (dget task ''tdd'') ''active_cycle_id''
     \<and> str_in (dget c ''status'') [''GREEN_PROVEN'', ''TDD_CYCLE_COMPLETE'']
     \<and> (\<exists>n. task_epoch task = Inr n \<and> py_eq (dget c ''green_epoch'') (PyInt n))
     \<and> py_eq (dget c ''test_contract_digest'') (dget c ''frozen_test_contract_digest'')
     \<and> py_eq (dget c ''oracle_digest'') (dget c ''frozen_oracle_digest'')
     \<and> py_eq (dget c ''green_implementation_digest'') (dget task ''implementation_digest'')
     \<and> py_eq (dget c ''green_diff_digest'') (dget task ''diff_digest'')"

text \<open>A sealed falsification receipt without counterexamples, bound to what the task has.\<close>

definition falsification_current :: "pyval \<Rightarrow> pyval \<Rightarrow> bool" where
  "falsification_current task c \<longleftrightarrow> (let r = dget task ''falsification'' in
     is_dict r \<and> dget r ''receipt_sha256'' = PyStr (falsification_digest r)
     \<and> dget r ''outcome'' = PyStr ''NO_COUNTEREXAMPLE'' \<and> items (dget r ''counterexamples'') = []
     \<and> items (dget r ''methods'') \<noteq> [] \<and> items (dget r ''attempts'') \<noteq> [] \<and> items (dget r ''boundary_cases'') \<noteq> []
     \<and> bound_to r ''task_id'' (dget task ''id'') \<and> bound_to r ''tdd_cycle_digest'' (dget c ''cycle_sha256'')
     \<and> bound_to r ''epoch'' (dget task ''change_epoch'') \<and> bound_to r ''diff_digest'' (dget task ''diff_digest''))"

text \<open>
  A sealed accepted review of the task at its current epoch, diff, policy, evidence and cycle,
  whose reviewer is a closed child of the task with that lease and role.
\<close>

definition review_current :: "pyval \<Rightarrow> pyval \<Rightarrow> bool" where
  "review_current task c \<longleftrightarrow> (let r = dget task ''review_receipt''; pre = dget task ''precheck'' in
     is_dict r \<and> dget r ''receipt_sha256'' = PyStr (review_digest r) \<and> dget r ''outcome'' = PyStr ''ACCEPTED''
     \<and> py_eq (dget r ''task_id'') (dget task ''id'')
     \<and> (\<forall>f \<in> set required_challenge_fields. items (dget r f) \<noteq> [])
     \<and> py_eq (dget r ''epoch'') (dget task ''change_epoch'') \<and> py_eq (dget r ''diff_digest'') (dget task ''diff_digest'')
     \<and> py_eq (dget r ''requirements_digest'') (artifact_digest (dget pre ''compiled_policy''))
     \<and> py_eq (dget r ''test_law_baseline_digest'') (artifact_digest (dget pre ''test_law_baseline''))
     \<and> py_eq (dget r ''evidence_set_digest'') (dget task ''evidence_set_digest'')
     \<and> py_eq (dget r ''tdd_cycle_digest'') (dget c ''cycle_sha256'')
     \<and> (\<exists>h children. iter (dget_or task ''child_history'' (PyList [])) = Inr children \<and> h \<in> set children \<and> is_dict h
         \<and> py_eq (dget h ''role'') (dget r ''reviewer_role'') \<and> str_in (dget h ''outcome'') [''accepted'', ''partial'']
         \<and> py_eq (dget_or h ''lease_id'' (dget h ''handoff_id'')) (dget r ''reviewer_lease'')))"

lemma find_SomeD: "List.find P xs = Some x \<Longrightarrow> x \<in> set xs \<and> P x"
  by (induction xs) (auto split: if_splits)

lemma current_tdd_cycleD:
  "current_tdd_cycle task = Some c \<Longrightarrow> is_dict c \<and> c \<in> set (items (dget (dget task ''tdd'') ''cycles''))
     \<and> dget c ''cycle_id'' = dget (dget task ''tdd'') ''active_cycle_id''"
  by (auto simp: current_tdd_cycle_def Let_def is_str_def split: if_splits pyval.splits dest!: find_SomeD)

lemma green_currentI: "validate_current_green task = Inr c \<Longrightarrow> green_current task c"
  unfolding validate_current_green_def green_current_def
  by (auto simp: res_bind_Inr check_all_Inr split: option.splits dest!: current_tdd_cycleD)

lemma falsification_currentI:
  "validate_current_falsification task c = Inr () \<Longrightarrow> falsification_current task c"
  unfolding validate_current_falsification_def validate_falsification_receipt_def falsification_current_def Let_def
  by (auto simp: res_bind_Inr split: if_splits)

lemma handoff_matchesD:
  "handoff_matches r h = Inr True \<Longrightarrow> is_dict h \<and> py_eq (dget h ''role'') (dget r ''reviewer_role'')
     \<and> str_in (dget h ''outcome'') [''accepted'', ''partial'']
     \<and> py_eq (dget_or h ''lease_id'' (dget h ''handoff_id'')) (dget r ''reviewer_lease'')"
  by (auto simp: handoff_matches_def in_set_Inr split: if_splits)

lemma validate_reviewD:
  assumes "validate_review_receipt r e d q s c b = Inr True"
  shows "is_dict r" "dget r ''receipt_sha256'' = PyStr (review_digest r)" "dget r ''outcome'' = PyStr ''ACCEPTED''"
    "\<forall>f \<in> set required_challenge_fields. items (dget r f) \<noteq> []"
    "py_eq (dget r ''epoch'') e" "py_eq (dget r ''diff_digest'') d" "py_eq (dget r ''requirements_digest'') q"
    "py_eq (dget r ''evidence_set_digest'') s" "py_eq (dget r ''tdd_cycle_digest'') c"
    "py_eq (dget r ''test_law_baseline_digest'') b"
  using assms by (auto simp: validate_review_receipt_def res_bind_Inr split: if_splits)

lemma review_currentI:
  assumes "validate_current_review task c = Inr ()"
  shows "review_current task c"
proof -
  let ?r = "dget task ''review_receipt''"
  obtain hs where h: "is_dict ?r" "py_eq (dget ?r ''task_id'') (dget task ''id'')"
    "iter (dget_or task ''child_history'' (PyList [])) = Inr hs" "any_res (handoff_matches ?r) hs = Inr True"
    and rc: "review_is_current task c ?r = Inr True"
    using assms by (auto simp: validate_current_review_def Let_def res_bind_Inr split: if_splits)
  from rc have v: "validate_review_receipt ?r (dget task ''change_epoch'') (dget task ''diff_digest'')
       (artifact_digest (dget (dget task ''precheck'') ''compiled_policy'')) (dget task ''evidence_set_digest'')
       (dget c ''cycle_sha256'') (artifact_digest (dget (dget task ''precheck'') ''test_law_baseline'')) = Inr True"
    by (auto simp: review_is_current_def res_bind_Inr)
  have "\<exists>h. h \<in> set hs \<and> is_dict h
         \<and> py_eq (dget h ''role'') (dget ?r ''reviewer_role'') \<and> str_in (dget h ''outcome'') [''accepted'', ''partial'']
         \<and> py_eq (dget_or h ''lease_id'' (dget h ''handoff_id'')) (dget ?r ''reviewer_lease'')"
    using any_res_True [OF h(4)] handoff_matchesD by blast
  with h v show ?thesis
    unfolding review_current_def Let_def using validate_reviewD [OF v] by blast
qed

lemma green_falsified_reviewedD:
  "green_falsified_reviewed task = Inr () \<Longrightarrow> \<exists>c. green_current task c \<and> falsification_current task c \<and> review_current task c"
  unfolding green_falsified_reviewed_def
  by (auto simp: res_bind_Inr check_all_Inr intro: green_currentI falsification_currentI review_currentI)

lemma target_guards_Inr:
  "target_guards task s t = Inr () \<longleftrightarrow>
     (s = ''BLOCKED'' \<and> t \<noteq> ''FAILED'' \<longrightarrow> truthy (dget task ''previous_state'') \<and> dget task ''previous_state'' = PyStr t)
     \<and> (s = ''PRECHECK'' \<and> t = ''TRIAGE'' \<longrightarrow> validate_precheck task = Inr ())
     \<and> (t \<in> {''IMPLEMENT'', ''REMEDIATE''} \<longrightarrow> implementation_guards task s = Inr ())
     \<and> (t \<in> {''GREEN'', ''FALSIFY''} \<and> write_mode task \<longrightarrow> (\<exists>c. validate_current_green task = Inr c))
     \<and> (t = ''ADVERSARIAL_REVIEW'' \<and> write_mode task \<longrightarrow> green_and_falsified task = Inr ())
     \<and> (t = ''FINAL_AUDIT'' \<longrightarrow> final_audit_guards task = Inr ())
     \<and> (t = ''FINALIZE'' \<longrightarrow> finalize_guards task = Inr ())"
  unfolding target_guards_def by (simp add: check_all_Inr res_bind_Inr)

lemma transition_guards:
  assumes "validate_transition task t reason = Inr ()" and "upper t \<noteq> ''FINALIZE'' \<or> dget task ''state'' \<noteq> PyStr ''FINALIZE''"
  obtains s where "dget task ''state'' = PyStr s" and "edge s (upper t)" and "target_guards task s (upper t) = Inr ()"
  using assms unfolding validate_transition_Inr by (elim conjE disjE exE) simp_all

text \<open>Every gate is proven or waived; every high or critical risk is resolved; the epoch of the verification is the current one.\<close>

definition gates_settled :: "pyval \<Rightarrow> bool" where
  "gates_settled task \<longleftrightarrow> (\<exists>gates. iter (dget_or task ''gates'' (PyList [])) = Inr gates
     \<and> (\<forall>g \<in> set gates. is_dict g \<and> str_in (dget g ''status'') [''PROVEN'', ''WAIVED'']))"

definition gate_evidence :: "pyval \<Rightarrow> bool" where
  "gate_evidence task \<longleftrightarrow> (\<exists>gates. iter (dget_or task ''gates'' (PyList [])) = Inr gates
     \<and> (\<exists>g \<in> set gates. is_dict g \<and> dget g ''status'' = PyStr ''PROVEN''))"

definition risks_settled :: "pyval \<Rightarrow> bool" where
  "risks_settled task \<longleftrightarrow> (\<exists>risks. iter (dget_or task ''risks'' (PyList [])) = Inr risks
     \<and> (\<forall>r \<in> set risks. is_dict r \<and> (str_in (dget r ''severity'') [''high'', ''critical''] \<longrightarrow> dget r ''status'' = PyStr ''resolved'')))"

definition verified_now :: "pyval \<Rightarrow> bool" where
  "verified_now task \<longleftrightarrow> truthy (dget task ''verification_evidence'')
     \<and> (\<exists>n. task_epoch task = Inr n \<and> py_eq (dget task ''verification_epoch'') (PyInt n))"

lemma gates_resolvedD: "gates_resolved task e = Inr () \<Longrightarrow> gates_settled task"
  unfolding gates_resolved_def gates_settled_def
  by (auto simp: res_bind_Inr collect_ids_Nil in_set_Inr)

lemma risks_resolvedD: "risks_resolved task e = Inr () \<Longrightarrow> risks_settled task"
  unfolding risks_resolved_def risks_settled_def blocking_risk_def
  by (auto simp: res_bind_Inr collect_ids_Nil in_set_Inr)

lemma some_gate_provenD: "some_gate_proven task = Inr () \<Longrightarrow> gate_evidence task"
  unfolding some_gate_proven_def gate_evidence_def
  by (auto simp: res_bind_Inr gate_proven_def intro!: bexI dest!: any_res_True split: if_splits)

lemma verification_currentD:
  "verification_current task = Inr () \<Longrightarrow> truthy (dget task ''verification_evidence'') \<Longrightarrow> verified_now task"
  unfolding verification_current_def verified_now_def by (auto simp: res_bind_Inr)

lemmas settledI = gates_resolvedD risks_resolvedD some_gate_provenD verification_currentD green_falsified_reviewedD

lemma finalize_facts:
  assumes "validate_transition task t reason = Inr ()" and "upper t = ''FINALIZE''" and "dget task ''state'' \<noteq> PyStr ''FINALIZE''"
  shows "dget task ''state'' = PyStr ''FINAL_AUDIT'' \<and> \<not> truthy (dget task ''active_child'') \<and> gates_settled task
    \<and> risks_settled task \<and> verified_now task \<and> truthy (dget task ''final_audit_complete'')
    \<and> (write_mode task \<longrightarrow> gate_evidence task
        \<and> (\<exists>c. green_current task c \<and> falsification_current task c \<and> review_current task c))"
proof -
  obtain s where s: "dget task ''state'' = PyStr s" "edge s ''FINALIZE''" "target_guards task s ''FINALIZE'' = Inr ()"
    using transition_guards [OF assms(1)] assms(2,3) by metis
  from s(3) have g: "finalize_guards task = Inr ()" unfolding target_guards_Inr by simp
  then show ?thesis
    using s(1,2) unfolding finalize_guards_def edge_FINALIZE
    by (auto simp: check_all_Inr intro: settledI)
qed

text \<open>
  C7: no task is finalised without its proof. A transition to \<open>FINALIZE\<close> that is not the idempotent
  repetition of it comes from \<open>FINAL_AUDIT\<close> alone, with no active child, every gate settled, no
  high or critical risk open, verification evidence of the current epoch and a recorded final
  audit; for a write task moreover one gate is really proven and one TDD cycle is GREEN at the
  current epoch, attacked by a clean falsification receipt and accepted by a review receipt, the
  three bound to the same cycle, epoch and diff.
\<close>

theorem finalize_safety:
  assumes "validate_transition task t reason = Inr ()" and "upper t = ''FINALIZE''" and "dget task ''state'' \<noteq> PyStr ''FINALIZE''"
  shows "dget task ''state'' = PyStr ''FINAL_AUDIT'' \<and> \<not> truthy (dget task ''active_child'') \<and> gates_settled task
    \<and> risks_settled task \<and> verified_now task \<and> truthy (dget task ''final_audit_complete'')
    \<and> (write_mode task \<longrightarrow> gate_evidence task
        \<and> (\<exists>c. green_current task c \<and> falsification_current task c \<and> review_current task c))"
  by (rule finalize_facts [OF assms])

definition reviewed_in_epoch :: "pyval \<Rightarrow> bool" where
  "reviewed_in_epoch task \<longleftrightarrow> (\<exists>n ts. task_epoch task = Inr n \<and> iter (dget_or task ''transitions'' (PyList [])) = Inr ts
     \<and> (\<exists>x \<in> set ts. is_dict x \<and> str_in (dget x ''to'') [''REVIEW'', ''ADVERSARIAL_REVIEW''] \<and> py_eq (dget x ''epoch'') (PyInt n)))"

definition specialist_reviewed :: "pyval \<Rightarrow> bool" where
  "specialist_reviewed task \<longleftrightarrow> (\<exists>hs. iter (dget_or task ''child_history'' (PyList [])) = Inr hs
     \<and> (\<exists>h \<in> set hs. is_dict h \<and> str_in (dget h ''outcome'') [''accepted'', ''partial'']
        \<and> (let role = casefold (py_str (dget_or h ''role'' (PyStr ''''))) in contains role ''adversarial'' \<or> contains role ''security'')))"

lemma edge_FINAL_AUDIT:
  "edge s ''FINAL_AUDIT'' \<longleftrightarrow> s \<in> {''VERIFY'', ''REVIEW'', ''ADVERSARIAL_REVIEW'', ''BLOCKED''}"
  by (simp add: edge_def graph_defs)

lemma review_entryD:
  "review_entry n x = Inr True \<Longrightarrow> is_dict x \<and> str_in (dget x ''to'') [''REVIEW'', ''ADVERSARIAL_REVIEW''] \<and> py_eq (dget x ''epoch'') (PyInt n)"
  by (auto simp: review_entry_def res_bind_Inr in_set_Inr split: if_splits)

lemma specialist_entryD:
  "specialist_entry h = Inr True \<Longrightarrow> is_dict h \<and> str_in (dget h ''outcome'') [''accepted'', ''partial'']
     \<and> (let role = casefold (py_str (dget_or h ''role'' (PyStr ''''))) in contains role ''adversarial'' \<or> contains role ''security'')"
  by (auto simp: specialist_entry_def res_bind_Inr in_set_Inr Let_def split: if_splits)

lemma any_review_entry: "any_res (review_entry n) ts = Inr True \<Longrightarrow>
    \<exists>x \<in> set ts. is_dict x \<and> str_in (dget x ''to'') [''REVIEW'', ''ADVERSARIAL_REVIEW''] \<and> py_eq (dget x ''epoch'') (PyInt n)"
  using any_res_True review_entryD by blast

lemma any_specialist_entry: "any_res specialist_entry hs = Inr True \<Longrightarrow>
    \<exists>h \<in> set hs. is_dict h \<and> str_in (dget h ''outcome'') [''accepted'', ''partial'']
     \<and> (let role = casefold (py_str (dget_or h ''role'' (PyStr ''''))) in contains role ''adversarial'' \<or> contains role ''security'')"
  using any_res_True specialist_entryD by blast

text \<open>
  what a task must have to enter \<open>FINAL_AUDIT\<close>. The entry is from \<open>VERIFY\<close>, a review state or a
  resumed \<open>BLOCKED\<close>, with the gates, risks and verification settled; a write task was reviewed in
  its current epoch and holds the same three receipts as for \<open>FINALIZE\<close>; a critical task has an
  accepted adversarial or security child.
\<close>

theorem final_audit_safety:
  assumes "validate_transition task t reason = Inr ()" and "upper t = ''FINAL_AUDIT''"
  shows "str_in (dget task ''state'') [''VERIFY'', ''REVIEW'', ''ADVERSARIAL_REVIEW'', ''BLOCKED'']
    \<and> \<not> truthy (dget task ''active_child'') \<and> gates_settled task \<and> risks_settled task \<and> verified_now task
    \<and> (write_mode task \<longrightarrow> gate_evidence task \<and> reviewed_in_epoch task
        \<and> (\<exists>c. green_current task c \<and> falsification_current task c \<and> review_current task c))
    \<and> (dget task ''risk'' = PyStr ''critical'' \<longrightarrow> specialist_reviewed task)"
proof -
  obtain s where s: "dget task ''state'' = PyStr s" "edge s ''FINAL_AUDIT''" "target_guards task s ''FINAL_AUDIT'' = Inr ()"
    using transition_guards [OF assms(1)] assms(2) by auto
  from s(3) have g: "final_audit_guards task = Inr ()" unfolding target_guards_Inr by simp
  have rv: "write_mode task \<longrightarrow> reviewed_in_epoch task"
    using g unfolding final_audit_guards_def reviewed_in_epoch_def
    by (auto simp: check_all_Inr res_bind_Inr dest!: any_review_entry)
  have sp: "dget task ''risk'' = PyStr ''critical'' \<longrightarrow> specialist_reviewed task"
    using g unfolding final_audit_guards_def specialist_reviewed_def
    by (auto simp: check_all_Inr res_bind_Inr dest!: any_specialist_entry)
  show ?thesis
    using g s(1,2) rv sp unfolding final_audit_guards_def edge_FINAL_AUDIT
    by (auto simp: check_all_Inr intro: settledI)
qed

subsection \<open>Implementation authority\<close>

text \<open>The baseline contract a write task must hold: its mode's outcome was observed on intact sources, with contract, oracle and implementation frozen at the current digests.\<close>

definition tdd_authority :: "pyval \<Rightarrow> bool" where
  "tdd_authority tdd \<longleftrightarrow> is_dict tdd
     \<and> (\<exists>m out st. dget tdd ''mode'' = PyStr m \<and> map_of TDD_MODES m = Some (out, st)
         \<and> dget tdd ''baseline_outcome'' = PyStr out \<and> dget tdd ''required_baseline_outcome'' = PyStr out)
     \<and> dget tdd ''test_design_complete'' = PyBool True \<and> dget tdd ''baseline_executed'' = PyBool True
     \<and> dget tdd ''harness_valid'' = PyBool True \<and> dget tdd ''baseline_intact'' = PyBool True
     \<and> is_text (dget tdd ''semantic_reason'')
     \<and> (\<forall>(a, b) \<in> {(''test_contract_digest'', ''frozen_test_contract_digest''), (''oracle_digest'', ''frozen_oracle_digest''),
          (''baseline_implementation_digest'', ''observed_implementation_digest'')}.
          is_digest (dget tdd a) \<and> dget tdd b = dget tdd a)"

text \<open>The two tables of modes agree: \<open>TDD_BASELINE_OUTCOMES\<close> here and \<open>TDD_MODES\<close> of \<open>assurance.py\<close>.\<close>

lemma baseline_outcomes_agree: "map_of TDD_BASELINE_OUTCOMES m = map_option fst (map_of TDD_MODES m)"
  by (simp add: TDD_BASELINE_OUTCOMES_def TDD_MODES_def)

lemma frozen_at_iff: "frozen_at tdd a b \<longleftrightarrow> is_digest (dget tdd a) \<and> dget tdd b = dget tdd a"
  by (auto simp: frozen_at_def elim!: is_digestE)

lemma validate_tdd_authority_Inr: "validate_tdd_authority task = Inr () \<longleftrightarrow> tdd_authority (dget task ''tdd'')"
proof (cases "is_dict (dget task ''tdd'') \<and> (\<exists>m out st. dget (dget task ''tdd'') ''mode'' = PyStr m \<and> map_of TDD_MODES m = Some (out, st))")
  case True
  then obtain m out st where "is_dict (dget task ''tdd'')" "dget (dget task ''tdd'') ''mode'' = PyStr m" "map_of TDD_MODES m = Some (out, st)"
    by (elim conjE exE) simp
  then show ?thesis
    unfolding validate_tdd_authority_def tdd_authority_def Let_def
    by (simp add: check_all_Inr baseline_outcomes_agree frozen_at_iff) (simp only: conj_ac)
next
  case False
  have "validate_tdd_authority task \<noteq> Inr ()"
  proof (cases "is_dict (dget task ''tdd'')")
    case True
    with False show ?thesis
      unfolding validate_tdd_authority_def Let_def
      by (cases "dget (dget task ''tdd'') ''mode''") (auto simp: baseline_outcomes_agree split: option.splits)
  qed (simp add: validate_tdd_authority_def)
  moreover have "\<not> tdd_authority (dget task ''tdd'')"
    using False unfolding tdd_authority_def by (elim contrapos_nn conjE exE) simp
  ultimately show ?thesis by simp
qed

lemma edge_implementation:
  "edge s ''IMPLEMENT'' \<longleftrightarrow> s \<in> {''PLAN'', ''BASELINE'', ''BLOCKED''}"
  "edge s ''REMEDIATE'' \<longleftrightarrow> s \<in> {''BASELINE'', ''REVIEW'', ''BLOCKED''}"
  by (simp_all add: edge_def graph_defs)

definition planned :: "pyval \<Rightarrow> bool" where
  "planned task \<longleftrightarrow> (\<exists>ts. iter (dget_or task ''transitions'' (PyList [])) = Inr ts \<and> (\<exists>x \<in> set ts. is_dict x \<and> dget x ''to'' = PyStr ''PLAN''))"

lemma transition_targets_PLAN:
  "transition_targets task = Inr h \<Longrightarrow> PyStr ''PLAN'' \<in> set h \<Longrightarrow> planned task"
  by (fastforce simp: transition_targets_def planned_def res_bind_Inr map_dict_Inr)

lemma implementation_guardsD:
  assumes "implementation_guards task s = Inr ()"
  shows "(write_mode task \<longrightarrow> s \<noteq> ''TRIAGE'' \<and> tdd_authority (dget task ''tdd'') \<and> (planned task \<or> s \<in> {''PLAN'', ''BASELINE''}))
    \<and> (str_in (dget task ''risk'') [''high'', ''critical''] \<longrightarrow> planned task \<or> s \<in> {''PLAN'', ''BASELINE''})"
  using assms unfolding implementation_guards_def
  by (auto simp: res_bind_Inr check_all_Inr validate_tdd_authority_Inr in_set_Inr split: if_splits dest: transition_targets_PLAN)


subsection \<open>Edges, terminal states and suspension\<close>

lemma validate_precheck_Inr:
  "validate_precheck task = Inr () \<longleftrightarrow> is_dict (dget task ''precheck'')
     \<and> (\<forall>k \<in> set PRECHECK_KEYS. is_digest (artifact_digest (dget (dget task ''precheck'') k)))"
proof -
  have "artifact_digest v \<noteq> PyNone \<longleftrightarrow> is_digest (artifact_digest v)" for v
    by (auto simp: artifact_digest_def Let_def)
  then show ?thesis by (simp add: validate_precheck_def Let_def check_all_Inr)
qed

lemma blocked_guard:
  assumes "target_guards task ''BLOCKED'' t = Inr ()"
  shows "t = ''FAILED'' \<or> dget task ''previous_state'' = PyStr t"
proof (cases "t = ''FAILED''")
  case False
  then show ?thesis using assms unfolding target_guards_Inr by simp
qed simp

lemma terminal_final: "dget task ''state'' = PyStr s \<Longrightarrow> s \<in> set TERMINAL_STATES
    \<Longrightarrow> validate_transition task t reason = Inr () \<Longrightarrow> s = ''FINALIZE'' \<and> upper t = ''FINALIZE''"
  using transition_edge [of task t reason] edge_terminal by fastforce

text \<open>
  the edges of the workflow. An accepted transition starts in a known state that is not terminal
  and follows an edge of \<open>ALLOWED\<close> (repeating \<open>FINALIZE\<close> is the one exception and changes nothing);
  a blocked task moves only to \<open>FAILED\<close> or back to the state it was suspended in; leaving \<open>PRECHECK\<close>
  for \<open>TRIAGE\<close> needs all thirteen artefacts bound to a digest.
\<close>

theorem transition_workflow:
  assumes "validate_transition task t reason = Inr ()"
  shows "\<exists>s. dget task ''state'' = PyStr s
    \<and> (s = ''FINALIZE'' \<and> upper t = ''FINALIZE'' \<or> edge s (upper t) \<and> s \<notin> set TERMINAL_STATES)
    \<and> (s = ''BLOCKED'' \<longrightarrow> upper t = ''FAILED'' \<or> dget task ''previous_state'' = PyStr (upper t))
    \<and> (s = ''PRECHECK'' \<and> upper t = ''TRIAGE'' \<longrightarrow>
        (\<forall>k \<in> set PRECHECK_KEYS. is_digest (artifact_digest (dget (dget task ''precheck'') k))))"
proof (cases "dget task ''state'' = PyStr ''FINALIZE'' \<and> upper t = ''FINALIZE''")
  case True
  then show ?thesis by (intro exI [of _ "''FINALIZE''"]) simp
next
  case False
  then have n: "upper t \<noteq> ''FINALIZE'' \<or> dget task ''state'' \<noteq> PyStr ''FINALIZE''" by auto
  obtain s where s: "dget task ''state'' = PyStr s" "edge s (upper t)" "target_guards task s (upper t) = Inr ()"
    using transition_guards [OF assms n] by blast
  have "s \<notin> set TERMINAL_STATES" using s(2) edge_terminal by blast
  moreover have "s = ''BLOCKED'' \<longrightarrow> upper t = ''FAILED'' \<or> dget task ''previous_state'' = PyStr (upper t)"
    using s(3) blocked_guard [of task "upper t"] by auto
  moreover have "s = ''PRECHECK'' \<and> upper t = ''TRIAGE'' \<longrightarrow> validate_precheck task = Inr ()"
    using s(3) unfolding target_guards_Inr by simp
  ultimately show ?thesis using s(1,2) by (intro exI [of _ s]) (simp add: validate_precheck_Inr)
qed

lemma upper_FAILED: "upper ''FAILED'' = ''FAILED''"
  by (simp add: upper_def upper_char_def)

text \<open>
  suspension before discovery is a trap. A task blocked in \<open>CREATED\<close> is offered that state alone
  to resume to, and the edges of \<open>BLOCKED\<close> exclude it: the only transition left is to \<open>FAILED\<close>.
\<close>

theorem blocked_in_created_is_stuck:
  assumes "dget task ''state'' = PyStr ''BLOCKED''" and "dget task ''previous_state'' = PyStr ''CREATED''"
  shows "(validate_transition task t None = Inr ()) = (upper t = ''FAILED'')"
proof
  assume v: "validate_transition task t None = Inr ()"
  obtain s where s: "dget task ''state'' = PyStr s" "edge s (upper t)" "target_guards task s (upper t) = Inr ()"
    using transition_guards [OF v] assms(1) by auto
  have no: "\<not> edge ''BLOCKED'' ''CREATED''" by (simp add: edge_def graph_defs)
  have b: "s = ''BLOCKED''" using s(1) assms(1) by simp
  show "upper t = ''FAILED''"
  proof (rule ccontr)
    assume "upper t \<noteq> ''FAILED''"
    then have "dget task ''previous_state'' = PyStr (upper t)" using s(3) b blocked_guard by blast
    then have "upper t = ''CREATED''" using assms(2) by simp
    then show False using s(2) b no by simp
  qed
next
  assume t: "upper t = ''FAILED''"
  have "has_key task ''state''" using assms(1) by (intro dget_not_None_key) simp
  moreover have "edge ''BLOCKED'' ''FAILED''" "''FAILED'' \<in> set STATES" by (simp_all add: edge_def graph_defs)
  moreover have "target_guards task ''BLOCKED'' ''FAILED'' = Inr ()" unfolding target_guards_Inr by simp
  ultimately show "validate_transition task t None = Inr ()"
    using assms(1) t unfolding validate_transition_Inr by simp
qed

section \<open>A concrete task\<close>

definition sample_cycle :: pyval where
  "sample_cycle = PyDict [(''cycle_id'', PyStr ''cycle-1''), (''status'', PyStr ''GREEN_PROVEN''), (''green_epoch'', PyInt 1),
     (''test_contract_digest'', sample_digest), (''frozen_test_contract_digest'', sample_digest), (''oracle_digest'', sample_digest),
     (''frozen_oracle_digest'', sample_digest), (''green_implementation_digest'', sample_digest), (''green_diff_digest'', sample_digest),
     (''cycle_sha256'', sample_digest)]"

text \<open>A write task in a given state, with its receipts, one proven gate and a resolved risk.\<close>

definition sample_task :: "string \<Rightarrow> pyval \<Rightarrow> pyval \<Rightarrow> pyval" where
  "sample_task state receipt review = PyDict [(''state'', PyStr state), (''id'', PyStr ''task-1''), (''mode'', PyStr ''write''), (''risk'', PyStr ''critical''),
     (''change_epoch'', PyInt 1), (''verification_epoch'', PyInt 1), (''verification_evidence'', PyList [PyStr ''E-1'']),
     (''final_audit_complete'', PyBool True), (''gates'', PyList [PyDict [(''id'', PyStr ''G1''), (''status'', PyStr ''PROVEN'')]]),
     (''risks'', PyList [PyDict [(''id'', PyStr ''R1''), (''severity'', PyStr ''high''), (''status'', PyStr ''resolved'')]]),
     (''transitions'', PyList [PyDict [(''to'', PyStr ''PLAN''), (''epoch'', PyInt 0)], PyDict [(''to'', PyStr ''ADVERSARIAL_REVIEW''), (''epoch'', PyInt 1)]]),
     (''tdd'', PyDict [(''active_cycle_id'', PyStr ''cycle-1''), (''green_epoch'', PyInt 1), (''cycles'', PyList [sample_cycle]),
       (''mode'', PyStr ''RED_REQUIRED''), (''required_baseline_outcome'', PyStr ''RED''), (''baseline_outcome'', PyStr ''RED''),
       (''test_design_complete'', PyBool True), (''baseline_executed'', PyBool True), (''harness_valid'', PyBool True), (''baseline_intact'', PyBool True),
       (''semantic_reason'', PyStr ''fails: no parser yet''),
       (''test_contract_digest'', sample_digest), (''frozen_test_contract_digest'', sample_digest), (''oracle_digest'', sample_digest),
       (''frozen_oracle_digest'', sample_digest), (''baseline_implementation_digest'', sample_digest), (''observed_implementation_digest'', sample_digest)]),
     (''implementation_digest'', sample_digest), (''diff_digest'', sample_digest), (''evidence_set_digest'', sample_digest),
     (''falsification'', receipt), (''review_receipt'', review),
     (''precheck'', PyDict (map (\<lambda>k. (k, PyDict [(''sha256'', sample_digest)])) PRECHECK_KEYS)),
     (''child_history'', PyList [PyDict [(''lease_id'', PyStr ''L-1''), (''role'', PyStr ''adversarial-reviewer''), (''outcome'', PyStr ''accepted'')]])]"

lemma sample_falsified:
  "\<exists>r. sample_receipt = Inr r \<and> validate_falsification_receipt r (PyStr ''task-1'') sample_digest (PyInt 1) sample_digest True = Inr True"
  by (simp add: sample_receipt_def build_falsification_receipt_def check_all_ok FALSIFICATION_OUTCOMES_def require_string_list_def
      blank_def strip_def is_space_def Let_def validate_falsification_receipt_def text_list_def strip_item_def bound_to_def)

lemma sample_reviewed:
  "\<exists>r. sample_review = Inr r \<and> is_dict r \<and> dget r ''task_id'' = PyStr ''task-1'' \<and> dget r ''reviewer_lease'' = PyStr ''L-1''
     \<and> dget r ''reviewer_role'' = PyStr ''adversarial-reviewer''
     \<and> validate_review_receipt r (PyInt 1) sample_digest sample_digest sample_digest sample_digest sample_digest = Inr True"
  by (simp add: sample_review_def build_review_receipt_def check_all_ok review_outcomes_def require_text_def
      blank_def strip_def is_space_def casefold_def lower_char_def blocking_finding_def in_set_def
      review_string_list_def text_list_def Let_def validate_review_receipt_def required_challenge_fields_def blocks_receipt_def)

text \<open>The sample task passes the guards of its state for any receipts that validate.\<close>

lemma sample_upper [simp]: "upper ''finalize'' = ''FINALIZE''" "upper ''FINAL_AUDIT'' = ''FINAL_AUDIT''" "upper ''IMPLEMENT'' = ''IMPLEMENT''"
    "upper ''triage'' = ''TRIAGE''"
  by code_simp+

lemma sample_green: "validate_current_green (sample_task s r v) = Inr sample_cycle"
  by (simp add: validate_current_green_def current_tdd_cycle_def sample_task_def sample_cycle_def Let_def task_epoch_def check_all_ok memb_def)

lemma sample_precheck [simp]:
  "artifact_digest (dget (dget (sample_task s r v) ''precheck'') ''compiled_policy'') = sample_digest"
  "artifact_digest (dget (dget (sample_task s r v) ''precheck'') ''test_law_baseline'') = sample_digest"
  by (simp_all add: sample_task_def PRECHECK_KEYS_def artifact_digest_def)

lemma sample_gfr:
  assumes "validate_falsification_receipt r (PyStr ''task-1'') sample_digest (PyInt 1) sample_digest True = Inr True"
    and "is_dict v" and "dget v ''task_id'' = PyStr ''task-1''" and "dget v ''reviewer_lease'' = PyStr ''L-1''"
    and "dget v ''reviewer_role'' = PyStr ''adversarial-reviewer''"
    and "validate_review_receipt v (PyInt 1) sample_digest sample_digest sample_digest sample_digest sample_digest = Inr True"
  shows "green_falsified_reviewed (sample_task s r v) = Inr ()"
proof -
  have "validate_current_falsification (sample_task s r v) sample_cycle = Inr ()"
    using assms(1) by (simp add: validate_current_falsification_def sample_task_def sample_cycle_def)
  moreover have "review_is_current (sample_task s r v) sample_cycle v = Inr True"
    unfolding review_is_current_def sample_precheck using assms(6)
    by (simp add: sample_task_def sample_cycle_def attr_dict_def)
  then have "validate_current_review (sample_task s r v) sample_cycle = Inr ()"
    using assms(2-5)
    by (simp add: validate_current_review_def Let_def handoff_matches_def in_set_def sample_task_def [of s r v])
  ultimately show ?thesis by (simp add: green_falsified_reviewed_def sample_green check_all_ok)
qed

lemmas sample_guard_defs = check_all_ok verification_current_def task_epoch_def some_gate_proven_def gate_proven_def
  gates_resolved_def risks_resolved_def blocking_risk_def in_set_def report_ids_def write_mode_def

lemma sample_transitions:
  assumes "green_falsified_reviewed (sample_task s r v) = Inr ()"
  shows "finalize_guards (sample_task s r v) = Inr ()" "final_audit_guards (sample_task s r v) = Inr ()"
  unfolding finalize_guards_def final_audit_guards_def using assms
  by (simp_all add: sample_task_def sample_guard_defs review_entry_def specialist_entry_def casefold_def lower_char_def Let_def)

theorem finalize_safety_witness:
  "\<exists>r v. validate_transition (sample_task ''FINAL_AUDIT'' r v) ''finalize'' (Some ''all gates proven'') = Inr ()
    \<and> verified_now (sample_task ''FINAL_AUDIT'' r v) \<and> (\<exists>c. green_current (sample_task ''FINAL_AUDIT'' r v) c)"
proof -
  obtain r v where g: "green_falsified_reviewed (sample_task ''FINAL_AUDIT'' r v) = Inr ()"
    using sample_falsified sample_reviewed sample_gfr by blast
  let ?t = "sample_task ''FINAL_AUDIT'' r v"
  have st: "dget ?t ''state'' = PyStr ''FINAL_AUDIT''" "has_key ?t ''state''" "write_mode ?t"
    by (simp_all add: sample_task_def write_mode_def)
  have "target_guards ?t ''FINAL_AUDIT'' ''FINALIZE'' = Inr ()"
    unfolding target_guards_Inr using sample_transitions(1) [OF g] by simp
  then have ok: "validate_transition ?t ''finalize'' (Some ''all gates proven'') = Inr ()"
    unfolding validate_transition_Inr using st
    by (simp add: edge_FINALIZE blank_def strip_def is_space_def) (simp add: STATES_def)
  show ?thesis
    using ok finalize_safety [OF ok] st by (intro exI [of _ r] exI [of _ v]) auto
qed

theorem final_audit_safety_witness:
  "\<exists>r v. validate_transition (sample_task ''ADVERSARIAL_REVIEW'' r v) ''FINAL_AUDIT'' None = Inr ()
    \<and> reviewed_in_epoch (sample_task ''ADVERSARIAL_REVIEW'' r v) \<and> specialist_reviewed (sample_task ''ADVERSARIAL_REVIEW'' r v)"
proof -
  obtain r v where g: "green_falsified_reviewed (sample_task ''ADVERSARIAL_REVIEW'' r v) = Inr ()"
    using sample_falsified sample_reviewed sample_gfr by blast
  let ?t = "sample_task ''ADVERSARIAL_REVIEW'' r v"
  have st: "dget ?t ''state'' = PyStr ''ADVERSARIAL_REVIEW''" "has_key ?t ''state''" "write_mode ?t" "dget ?t ''risk'' = PyStr ''critical''"
    by (simp_all add: sample_task_def write_mode_def)
  have "target_guards ?t ''ADVERSARIAL_REVIEW'' ''FINAL_AUDIT'' = Inr ()"
    unfolding target_guards_Inr using sample_transitions(2) [OF g] by simp
  then have ok: "validate_transition ?t ''FINAL_AUDIT'' None = Inr ()"
    unfolding validate_transition_Inr using st by (simp add: edge_FINAL_AUDIT) (simp add: STATES_def)
  show ?thesis
    using ok final_audit_safety [OF ok] st by (intro exI [of _ r] exI [of _ v]) auto
qed


theorem transition_workflow_witness:
  "validate_transition (sample_task ''PRECHECK'' PyNone PyNone) ''triage'' None = Inr ()
    \<and> is_digest (artifact_digest (dget (dget (sample_task ''PRECHECK'' PyNone PyNone) ''precheck'') ''tdd_plan''))"
proof -
  let ?t = "sample_task ''PRECHECK'' PyNone PyNone"
  have st: "dget ?t ''state'' = PyStr ''PRECHECK''" "has_key ?t ''state''" by (simp_all add: sample_task_def)
  have "validate_precheck ?t = Inr ()"
    unfolding validate_precheck_Inr by (simp add: sample_task_def PRECHECK_KEYS_def artifact_digest_def)
  then have "target_guards ?t ''PRECHECK'' ''TRIAGE'' = Inr ()" unfolding target_guards_Inr by simp
  moreover have "edge ''PRECHECK'' ''TRIAGE''" by (simp add: edge_def graph_defs)
  ultimately have ok: "validate_transition ?t ''triage'' None = Inr ()"
    unfolding validate_transition_Inr using st by simp (simp add: STATES_def)
  have "''tdd_plan'' \<in> set PRECHECK_KEYS" by (simp add: PRECHECK_KEYS_def)
  then show ?thesis using ok transition_workflow [OF ok] st by auto
qed

theorem blocked_in_created_is_stuck_witness:
  "validate_transition (PyDict [(''state'', PyStr ''BLOCKED''), (''previous_state'', PyStr ''CREATED'')]) ''DISCOVER'' None \<noteq> Inr ()
    \<and> validate_transition (PyDict [(''state'', PyStr ''BLOCKED''), (''previous_state'', PyStr ''CREATED'')]) ''FAILED'' None = Inr ()"
proof -
  have "upper ''DISCOVER'' \<noteq> ''FAILED''" by code_simp
  then show ?thesis
    using blocked_in_created_is_stuck [of "PyDict [(''state'', PyStr ''BLOCKED''), (''previous_state'', PyStr ''CREATED'')]"]
    by (simp add: upper_FAILED)
qed

end
