(* ===== verification/Posix_Path.thy ===== *)
theory Posix_Path
  imports Py_Value
begin

text \<open>
  Splitting and joining path texts at \<open>/\<close>, the way \<open>PurePosixPath\<close> does, for the scope checks and for
  the relative paths the transaction journal stores.
\<close>

text \<open>\<open>text.split(sep)\<close> for a single character.\<close>

fun split_on :: "char \<Rightarrow> string \<Rightarrow> string list" where
  "split_on sep [] = [[]]"
| "split_on sep (c # s) = (if c = sep then [] # split_on sep s
     else (case split_on sep s of [] \<Rightarrow> [[c]] | p # ps \<Rightarrow> (c # p) # ps))"

definition slash :: char where "slash = CHR ''/''"

text \<open>\<open>PurePosixPath(text).parts\<close> of a relative path: no empty and no \<open>.\<close> component.\<close>

definition path_parts :: "string \<Rightarrow> string list" where
  "path_parts s = filter (\<lambda>p. p \<noteq> [] \<and> p \<noteq> ''.'') (split_on slash s)"

lemma split_on_ne [simp]: "split_on sep s \<noteq> []"
  by (induction s) (auto split: list.splits)

lemma split_on_parts: "p \<in> set (split_on sep s) \<Longrightarrow> sep \<notin> set p \<and> set p \<subseteq> set s"
proof (induction s arbitrary: p)
  case (Cons c s)
  obtain q qs where q: "split_on sep s = q # qs" by (cases "split_on sep s") auto
  then have "sep \<notin> set q" "set q \<subseteq> set s" using Cons.IH by auto
  moreover have "\<And>r. r \<in> set qs \<Longrightarrow> sep \<notin> set r \<and> set r \<subseteq> set s" using Cons.IH q by auto
  ultimately show ?case using Cons.prems q by (cases "c = sep") auto
qed simp

lemma split_on_cons:
  "sep \<notin> set p \<Longrightarrow> split_on sep (p @ sep # s) = p # split_on sep s"
  "sep \<notin> set p \<Longrightarrow> split_on sep p = [p]"
  by (induction p) auto

lemma split_on_join:
  "ps \<noteq> [] \<Longrightarrow> \<forall>p \<in> set ps. sep \<notin> set p \<Longrightarrow> split_on sep (join [sep] ps) = ps"
  by (induction "[sep]" ps rule: join.induct) (auto simp: split_on_cons)

lemma join_split: "join [sep] (split_on sep s) = s"
proof (induction s)
  case (Cons c s)
  then show ?case by (cases "split_on sep s" rule: remdups_adj.cases) (auto split: list.splits)
qed simp

lemma path_parts_clean: "p \<in> set (path_parts s) \<Longrightarrow> p \<noteq> [] \<and> p \<noteq> ''.'' \<and> slash \<notin> set p \<and> set p \<subseteq> set s"
  using split_on_parts by (auto simp: path_parts_def)

text \<open>\<open>as_posix()\<close> of a relative path, and the path it is read back as.\<close>

definition posix :: "string list \<Rightarrow> string" where
  "posix p = join [slash] p"

definition normal :: "string list \<Rightarrow> bool" where
  "normal p \<longleftrightarrow> (\<forall>c \<in> set p. c \<noteq> [] \<and> c \<noteq> ''.'' \<and> slash \<notin> set c)"

lemma path_parts_posix: "normal p \<Longrightarrow> p \<noteq> [] \<Longrightarrow> path_parts (posix p) = p"
  by (simp add: path_parts_def posix_def split_on_join normal_def)

lemma posix_relative: "normal p \<Longrightarrow> p \<noteq> [] \<Longrightarrow> \<not> startswith (posix p) [slash]"
  by (cases p rule: remdups_adj.cases; cases "hd p") (auto simp: posix_def normal_def)

lemma posix_inj: "normal p \<Longrightarrow> normal q \<Longrightarrow> p \<noteq> [] \<Longrightarrow> q \<noteq> [] \<Longrightarrow> posix p = posix q \<Longrightarrow> p = q"
  by (metis path_parts_posix)

text \<open>\<open>PurePath.suffix\<close>.\<close>

definition suffix_of :: "string \<Rightarrow> string" where
  "suffix_of name = (let ext = rev (takeWhile (\<lambda>c. c \<noteq> CHR ''.'') (rev name)) in
     if ext = [] \<or> length name \<le> Suc (length ext) then [] else CHR ''.'' # ext)"

end
