(* ===== verification/Scope.thy ===== *)
theory Scope
  imports Sealing Posix_Path
begin

text \<open>
  \<open>agentinfra/scope.py\<close>: the sealed write scope of a task. Paths and patterns are normalised, a
  scope is compiled from the policy's path lists, \<open>write_authorized\<close> decides a single write, and the
  change and semantic budgets bound what a change may add. \<open>fnmatch.fnmatchcase\<close> of the standard
  library is translated with its character classes.
\<close>

section \<open>Path normalisation\<close>

definition PHASES :: "string list" where
  "PHASES = [''TEST_DESIGN'', ''IMPLEMENTATION'']"

definition CHANGE_DIMENSIONS :: "string list" where
  "CHANGE_DIMENSIONS = [''files'', ''lines_added'', ''lines_deleted'', ''generated_churn'', ''lockfile_churn'']"

definition SEMANTIC_DIMENSIONS :: "string list" where
  "SEMANTIC_DIMENSIONS = [''public_apis'', ''public_types'', ''dependencies'', ''unsafe_blocks'', ''threads_executors'',
     ''global_mutable_state'', ''feature_flags'', ''environment_variables'', ''network_ports'', ''external_services'',
     ''persistent_formats'', ''database_objects'', ''operational_requirements'']"

fun drop_dot_slash :: "string \<Rightarrow> string" where
  "drop_dot_slash (a # b # s) = (if a = CHR ''.'' \<and> b = CHR ''/'' then drop_dot_slash s else a # b # s)"
| "drop_dot_slash s = s"

definition slashed :: "string \<Rightarrow> string" where
  "slashed s = map (\<lambda>c. if c = CHR 0x5C then slash else c) s"

definition has_glob :: "string \<Rightarrow> bool" where
  "has_glob s \<longleftrightarrow> (\<exists>c \<in> set s. c \<in> set ''*?['')"

text \<open>\<open>_normalize\<close>. An empty path (\<open>./\<close>) has no first part: indexing it raises \<open>IndexError\<close>.\<close>

definition normalize :: "pyval \<Rightarrow> bool \<Rightarrow> string res" where
  "normalize v pattern = (case v of PyStr s \<Rightarrow>
      if blank s then Inl (ScopeError ''scope path must be a non-empty string'')
      else let txt = drop_dot_slash (slashed (strip s)); parts = path_parts txt in
        if startswith txt [slash] then Inl (ScopeError ''scope path is absolute or traversing'')
        else if parts = [] then Inl IndexErr
        else if CHR '':'' \<in> set (hd parts) \<or> ''..'' \<in> set parts then Inl (ScopeError ''scope path is absolute or traversing'')
        else if \<not> pattern \<and> has_glob txt then Inl (ScopeError ''concrete write target must not contain a glob'')
        else Inr (casefold (join [slash] parts))
    | _ \<Rightarrow> Inl (ScopeError ''scope path must be a non-empty string''))"

section \<open>Patterns\<close>

text \<open>\<open>fnmatch\<close>: a pattern is a sequence of stars, single-character tests and literals.\<close>

datatype glob = GStar | GAny | GChar char | GClass bool "string list" | GNever

text \<open>
  A character class \<open>[stuff]\<close>. \<open>class_chunks\<close> cuts it at the hyphens that make ranges, as the loop of
  \<open>fnmatch.translate\<close> does, and \<open>merge_chunks\<close> removes empty ranges.
\<close>

definition class_split :: "string \<Rightarrow> (string \<times> string) option" where
  "class_split s = (let n = (if startswith s ''!'' then 1 else 0); m = (if startswith (drop n s) '']'' then Suc n else n);
       body = take m s @ takeWhile (\<lambda>c. c \<noteq> CHR '']'') (drop m s)
     in case dropWhile (\<lambda>c. c \<noteq> CHR '']'') (drop m s) of [] \<Rightarrow> None | c # rest \<Rightarrow> Some (body, rest))"

definition hyphen_from :: "nat \<Rightarrow> string \<Rightarrow> nat option" where
  "hyphen_from k s = map_option ((+) k) (List.find (\<lambda>i. drop k s ! i = CHR ''-'') [0..<length (drop k s)])"

function class_chunks :: "nat \<Rightarrow> string \<Rightarrow> string list" where
  "class_chunks k s = (case hyphen_from k s of
      None \<Rightarrow> [s]
    | Some i \<Rightarrow> (if Suc i = length s then [take i s @ ''-''] else if Suc i < length s then take i s # class_chunks 2 (drop (Suc i) s) else [s]))"
  by pat_completeness auto
termination by (relation "measure (length \<circ> snd)") auto

declare class_chunks.simps [simp del]

fun merge_chunks :: "string list \<Rightarrow> string list" where
  "merge_chunks (c # d # ds) = (case merge_chunks (d # ds) of
      [] \<Rightarrow> [c]
    | e # es \<Rightarrow> if c \<noteq> [] \<and> e \<noteq> [] \<and> last c > hd e then (butlast c @ tl e) # es else c # e # es)"
| "merge_chunks cs = cs"

definition class_token :: "string \<Rightarrow> glob" where
  "class_token stuff = (let chunks = (if CHR ''-'' \<in> set stuff then merge_chunks (class_chunks (if startswith stuff ''!'' then 2 else 1) stuff) else [stuff])
     in case chunks of [] \<Rightarrow> GNever
      | c # cs \<Rightarrow> if c = [] \<and> cs = [] then GNever
          else if c = ''!'' \<and> cs = [] then GAny
          else if startswith c ''!'' then GClass False (tl c # cs) else GClass True (c # cs))"

function glob_tokens :: "string \<Rightarrow> glob list" where
  "glob_tokens [] = []"
| "glob_tokens (c # s) =
     (if c = CHR ''*'' then GStar # glob_tokens s
      else if c = CHR ''?'' then GAny # glob_tokens s
      else if c = CHR ''['' then (case class_split s of None \<Rightarrow> GChar c # glob_tokens s
        | Some (body, rest) \<Rightarrow> if length rest \<le> length s then class_token body # glob_tokens rest else [])
      else GChar c # glob_tokens s)"
  by pat_completeness auto
termination by (relation "measure length") auto

fun in_class :: "string list \<Rightarrow> char \<Rightarrow> bool" where
  "in_class [] x = False"
| "in_class [c] x = (x \<in> set c)"
| "in_class (c # d # cs) x = (x \<in> set c \<or> (c \<noteq> [] \<and> d \<noteq> [] \<and> last c \<le> x \<and> x \<le> hd d) \<or> in_class (d # cs) x)"

function glob_match :: "glob list \<Rightarrow> string \<Rightarrow> bool" where
  "glob_match [] s = (s = [])"
| "glob_match (GStar # ts) s = (glob_match ts s \<or> (case s of [] \<Rightarrow> False | c # cs \<Rightarrow> glob_match (GStar # ts) cs))"
| "glob_match (GAny # ts) s = (case s of [] \<Rightarrow> False | c # cs \<Rightarrow> glob_match ts cs)"
| "glob_match (GChar d # ts) s = (case s of [] \<Rightarrow> False | c # cs \<Rightarrow> c = d \<and> glob_match ts cs)"
| "glob_match (GClass pos cls # ts) s = (case s of [] \<Rightarrow> False | c # cs \<Rightarrow> in_class cls c = pos \<and> glob_match ts cs)"
| "glob_match (GNever # ts) s = False"
  by pat_completeness auto
termination by (relation "measure (\<lambda>(ts, s). length ts + length s)") auto

definition fnmatchcase :: "string \<Rightarrow> string \<Rightarrow> bool" where
  "fnmatchcase path pattern = glob_match (glob_tokens pattern) path"

definition rstrip_slash :: "string \<Rightarrow> string" where
  "rstrip_slash s = rev (dropWhile (\<lambda>c. c = slash) (rev s))"

definition covered :: "string \<Rightarrow> string \<Rightarrow> bool" where
  "covered path supplied = (let pattern = rstrip_slash supplied in
     if endswith pattern ''/**''
       then let prefix = rstrip_slash (take (length pattern - 3) pattern)
         in path = prefix \<or> startswith path (prefix @ ''/'')
       else fnmatchcase path pattern)"

text \<open>\<open>_matches_any\<close>; a pattern that is no string has no \<open>rstrip\<close>.\<close>

definition covered_val :: "string \<Rightarrow> pyval \<Rightarrow> bool res" where
  "covered_val path pattern = (case pattern of PyStr p \<Rightarrow> Inr (covered path p) | _ \<Rightarrow> Inl AttributeErr)"

definition matches_any :: "string \<Rightarrow> pyval \<Rightarrow> bool res" where
  "matches_any path patterns = res_bind (iter patterns) (any_res (covered_val path))"

definition sorted_strs :: "string list \<Rightarrow> pyval" where
  "sorted_strs ps = PyList (map PyStr (sort (remdups ps)))"

definition patterns :: "pyval list \<Rightarrow> string list res" where
  "patterns vs = map_res (\<lambda>v. normalize v True) vs"

definition boundary_patterns :: "pyval list \<Rightarrow> string list res" where
  "boundary_patterns vs = res_bind (patterns vs) (\<lambda>ps.
     Inr (concat (map (\<lambda>p. let value = rstrip_slash p in if has_glob value then [value] else [value, value @ ''/**'']) ps)))"

section \<open>The write scope\<close>

definition scope_digest :: "pyval \<Rightarrow> string" where
  "scope_digest v = sha256 (canonical (dpop v ''digest''))"

interpretation scope_seal: sealed_record "''digest''" scope_digest
  by unfold_locales (simp add: scope_digest_def digest_without_def)

definition builtin_deny :: "string list" where
  "builtin_deny = [''.agents'', ''.agents/**'', ''agents.md'', ''**/agents.md'']"

definition compile_write_scope ::
  "pyval list \<Rightarrow> pyval list \<Rightarrow> pyval list \<Rightarrow> pyval list \<Rightarrow> pyval list \<Rightarrow> pyval list \<Rightarrow> pyval list \<Rightarrow> pyval list \<Rightarrow> pyval \<Rightarrow> pyval \<Rightarrow> pyval res" where
  "compile_write_scope allow deny test_paths production_paths generated_paths reference_paths user_dirty
      nested_repositories baseline_authorized governance_digest =
    res_bind (check_all
      [guard (is_digest governance_digest) (ScopeError ''write scope requires a canonical governance digest''),
       guard (is_bool baseline_authorized) (ScopeError ''baseline authority must be boolean'')]) (\<lambda>_.
    res_bind (patterns allow) (\<lambda>al.
    res_bind (patterns deny) (\<lambda>de.
    res_bind (patterns test_paths) (\<lambda>te.
    res_bind (patterns production_paths) (\<lambda>pr.
    res_bind (patterns generated_paths) (\<lambda>ge.
    res_bind (boundary_patterns reference_paths) (\<lambda>re.
    res_bind (boundary_patterns user_dirty) (\<lambda>ud.
    res_bind (boundary_patterns nested_repositories) (\<lambda>ne.
    let value = PyDict
      [(''schema'', PyInt 1),
       (''allow'', sorted_strs al),
       (''deny'', sorted_strs (de @ builtin_deny)),
       (''test_paths'', sorted_strs te),
       (''production_paths'', sorted_strs pr),
       (''generated_paths'', sorted_strs ge),
       (''reference_paths'', sorted_strs re),
       (''user_dirty'', sorted_strs ud),
       (''nested_repositories'', sorted_strs ne),
       (''baseline_authorized'', baseline_authorized),
       (''governance_digest'', governance_digest)]
    in Inr (dset value ''digest'' (PyStr (scope_digest value))))))))))))"

definition validate_write_scope :: "pyval \<Rightarrow> unit res" where
  "validate_write_scope scope = check_all
     [guard (is_dict scope \<and> py_eq (dget scope ''schema'') (PyInt 1)) (ScopeError ''invalid write-scope schema''),
      guard (dget scope ''digest'' = PyStr (scope_digest scope)) (ScopeError ''write-scope integrity digest mismatch''),
      guard (is_digest (dget scope ''governance_digest'')) (ScopeError ''write scope has invalid governance binding'')]"

text \<open>\<open>scope[key]\<close> and \<open>_matches_any(target, scope[key])\<close>.\<close>

definition scope_key :: "pyval \<Rightarrow> string \<Rightarrow> pyval res" where
  "scope_key scope k = (if has_key scope k then Inr (dget scope k) else Inl (KeyErr k))"

definition in_list :: "string \<Rightarrow> pyval \<Rightarrow> string \<Rightarrow> bool res" where
  "in_list target scope k = res_bind (scope_key scope k) (matches_any target)"

definition protected_path :: "string \<Rightarrow> bool" where
  "protected_path target \<longleftrightarrow> (let parts = split_on slash target in hd parts = ''.agents'' \<or> last parts = ''agents.md'')"

text \<open>The lists of the tuple \<open>boundaries\<close>, each of which is looked up before any is matched.\<close>

definition boundary_keys :: "string list" where
  "boundary_keys = [''deny'', ''reference_paths'', ''user_dirty'', ''nested_repositories'']"

definition phase_authorized :: "string \<Rightarrow> pyval \<Rightarrow> string \<Rightarrow> bool res" where
  "phase_authorized target scope phase =
     (if phase = ''TEST_DESIGN'' then
        res_bind (in_list target scope ''test_paths'') (\<lambda>t. if \<not> t then Inr False
          else res_bind (in_list target scope ''production_paths'') (\<lambda>p. Inr (\<not> p)))
      else res_bind (scope_key scope ''baseline_authorized'') (\<lambda>b. if \<not> truthy b then Inr False
        else res_bind (in_list target scope ''production_paths'') (\<lambda>p. if \<not> p then Inr False
          else res_bind (in_list target scope ''test_paths'') (\<lambda>t. Inr (\<not> t)))))"

definition decide_write :: "pyval \<Rightarrow> string \<Rightarrow> string \<Rightarrow> pyval \<Rightarrow> bool res" where
  "decide_write scope target phase current_governance_digest =
     (if phase \<notin> set PHASES \<or> \<not> py_eq current_governance_digest (dget scope ''governance_digest'') then Inr False
      else if protected_path target then Inr False
      else res_bind (map_res (scope_key scope) boundary_keys) (\<lambda>lists.
        res_bind (any_res (matches_any target) lists) (\<lambda>bounded.
        if bounded then Inr False
        else res_bind (in_list target scope ''allow'') (\<lambda>allowed.
          if \<not> allowed then Inr False else phase_authorized target scope phase))))"

text \<open>A \<open>ScopeError\<close> of the validation or of the normalisation denies; other exceptions pass.\<close>

definition write_authorized :: "pyval \<Rightarrow> pyval \<Rightarrow> string \<Rightarrow> pyval \<Rightarrow> bool res" where
  "write_authorized scope path phase current_governance_digest =
     (case res_bind (validate_write_scope scope) (\<lambda>_. normalize path False) of
        Inl (ScopeError m) \<Rightarrow> Inr False
      | Inl e \<Rightarrow> Inl e
      | Inr target \<Rightarrow> decide_write scope target phase current_governance_digest)"

section \<open>Budgets\<close>

definition check_dimension :: "pyval \<Rightarrow> pyval \<Rightarrow> string \<Rightarrow> (string \<times> pyval) res" where
  "check_dimension allowed observed field =
     (let limit = dget_or allowed field (PyInt 0); actual = dget_or observed field (PyInt 0) in
      res_bind (check_all
        [guard (limit = PyNone \<or> is_nonneg_int limit) (ScopeError ''budget must be null or non-negative''),
         guard (is_nonneg_int actual) (ScopeError ''observed value must be non-negative''),
         guard (case (limit, actual) of (PyInt l, PyInt a) \<Rightarrow> a \<le> l | _ \<Rightarrow> True) (ScopeError ''budget exceeded'')]) (\<lambda>_.
      Inr (field, PyDict [(''observed'', actual), (''allowed'', limit), (''ok'', PyBool True)])))"

definition enforce_budget :: "pyval \<Rightarrow> pyval \<Rightarrow> string list \<Rightarrow> pyval res" where
  "enforce_budget allowed observed dimensions =
     res_bind (check_all
       [guard (is_dict allowed \<and> is_dict observed) (ScopeError ''budget and observation must be objects''),
        guard (\<forall>k \<in> set (map fst (entries allowed) @ map fst (entries observed)). k \<in> set dimensions)
          (ScopeError ''unknown budget dimensions'')]) (\<lambda>_.
     res_bind (map_res (check_dimension allowed observed) (sort dimensions)) (\<lambda>report. Inr (PyDict report)))"

definition enforce_change_budget :: "pyval \<Rightarrow> pyval \<Rightarrow> pyval res" where
  "enforce_change_budget budget observed = enforce_budget budget observed CHANGE_DIMENSIONS"

definition enforce_semantic_budget :: "pyval \<Rightarrow> pyval \<Rightarrow> pyval res" where
  "enforce_semantic_budget budget observed = enforce_budget budget observed SEMANTIC_DIMENSIONS"

section \<open>Normal forms\<close>

text \<open>A clean path: relative, in lower case, with forward slashes and without empty, \<open>.\<close> or \<open>..\<close> components.\<close>

definition clean_path :: "string \<Rightarrow> bool" where
  "clean_path n \<longleftrightarrow> casefold n = n \<and> CHR 0x5C \<notin> set n
     \<and> (\<forall>p \<in> set (split_on slash n). p \<noteq> [] \<and> p \<noteq> ''.'' \<and> p \<noteq> ''..'')"

lemma casefold_join: "casefold (join [slash] ps) = join [slash] (map casefold ps)"
  by (induction "[slash]" ps rule: join.induct) (auto simp: casefold_def slash_def lower_char_def)

lemma lower_char_cases:
  "lower_char c = c \<or> (65 \<le> (of_char c :: nat) \<and> (of_char c :: nat) \<le> 90 \<and> (of_char (lower_char c) :: nat) = of_char c + 32)"
  by (auto simp: lower_char_def Let_def)

lemma lower_char_nonletter:
  assumes "(of_char d :: nat) < 65 \<or> 90 < (of_char d :: nat) \<and> (of_char d :: nat) < 97"
  shows "lower_char c = d \<longleftrightarrow> c = d"
  using lower_char_cases [of c] assms lower_char_def [of d] by (auto simp: Let_def)

lemma lower_char_idem [simp]: "lower_char (lower_char c) = lower_char c"
  by (cases "lower_char c = c") (use lower_char_cases [of c] in \<open>auto simp: lower_char_def [of "lower_char c"] Let_def\<close>)

lemma lower_char_eq [simp]:
  "lower_char c = CHR ''.'' \<longleftrightarrow> c = CHR ''.''" "lower_char c = CHR ''/'' \<longleftrightarrow> c = CHR ''/''"
  "lower_char c = CHR '':'' \<longleftrightarrow> c = CHR '':''" "lower_char c = CHR 0x5C \<longleftrightarrow> c = CHR 0x5C"
  "lower_char c = CHR ''*'' \<longleftrightarrow> c = CHR ''*''" "lower_char c = CHR ''?'' \<longleftrightarrow> c = CHR ''?''"
  "lower_char c = CHR ''['' \<longleftrightarrow> c = CHR ''[''"
  by (simp_all add: lower_char_nonletter)

lemma in_casefold: "(\<And>c. lower_char c = d \<longleftrightarrow> c = d) \<Longrightarrow> d \<in> set (casefold p) \<longleftrightarrow> d \<in> set p"
  by (auto simp: casefold_def image_iff) (metis (full_types))+

lemma casefold_eqs [simp]:
  "casefold p = [] \<longleftrightarrow> p = []" "casefold p = ''.'' \<longleftrightarrow> p = ''.''" "casefold p = ''..'' \<longleftrightarrow> p = ''..''"
  "casefold (casefold p) = casefold p" "slash \<in> set (casefold p) \<longleftrightarrow> slash \<in> set p"
  "CHR 0x5C \<in> set (casefold p) \<longleftrightarrow> CHR 0x5C \<in> set p" "CHR '':'' \<in> set (casefold p) \<longleftrightarrow> CHR '':'' \<in> set p"
  by (simp_all add: in_casefold slash_def) (auto simp: casefold_def)

lemma has_glob_casefold [simp]: "has_glob (casefold s) = has_glob s"
proof -
  have "has_glob t \<longleftrightarrow> CHR ''*'' \<in> set t \<or> CHR ''?'' \<in> set t \<or> CHR ''['' \<in> set t" for t by (auto simp: has_glob_def)
  then show ?thesis by (simp add: in_casefold)
qed

lemma join_set: "set (join sep ps) \<subseteq> (\<Union>p \<in> set ps. set p) \<union> set sep"
  by (induction sep ps rule: join.induct) auto

lemma drop_dot_slash_set: "set (drop_dot_slash s) \<subseteq> set s"
  by (induction s rule: drop_dot_slash.induct) auto

lemma drop_dot_slash_id: "\<not> startswith s ''./'' \<Longrightarrow> drop_dot_slash s = s"
  by (cases s rule: drop_dot_slash.cases) (auto split: if_splits)

text \<open>What a successful normalisation went through.\<close>

lemma normalizeE:
  assumes "normalize v pattern = Inr n"
  obtains s where "v = PyStr s" and "\<not> blank s"
    and "n = casefold (join [slash] (path_parts (drop_dot_slash (slashed (strip s)))))"
    and "path_parts (drop_dot_slash (slashed (strip s))) \<noteq> []"
    and "CHR '':'' \<notin> set (hd (path_parts (drop_dot_slash (slashed (strip s)))))"
    and "''..'' \<notin> set (path_parts (drop_dot_slash (slashed (strip s))))"
    and "\<not> pattern \<longrightarrow> \<not> has_glob (drop_dot_slash (slashed (strip s)))"
  using assms by (cases v) (auto simp: normalize_def Let_def split: if_splits)

lemma slashed_no_backslash: "CHR 0x5C \<notin> set (slashed s)"
  by (auto simp: slashed_def slash_def)

lemma has_glob_mono: "set a \<subseteq> set b \<union> {slash} \<Longrightarrow> has_glob a \<Longrightarrow> has_glob b"
proof -
  assume ab: "set a \<subseteq> set b \<union> {slash}" and "has_glob a"
  then obtain c where c: "c \<in> set a" "c \<in> set ''*?[''" by (auto simp: has_glob_def)
  then have "c \<noteq> slash" by (auto simp: slash_def)
  then have "c \<in> set b" using ab c(1) by blast
  then show "has_glob b" using c(2) unfolding has_glob_def by blast
qed

lemma normalize_parts:
  assumes "normalize v pattern = Inr n"
  obtains ps where "ps \<noteq> []" and "split_on slash n = ps" and "n = join [slash] ps" and "casefold n = n"
    and "\<forall>p \<in> set ps. p \<noteq> [] \<and> p \<noteq> ''.'' \<and> p \<noteq> ''..''" and "CHR 0x5C \<notin> set n" and "CHR '':'' \<notin> set (hd ps)"
    and "\<not> pattern \<longrightarrow> \<not> has_glob n"
proof -
  obtain s where s: "v = PyStr s" "n = casefold (join [slash] (path_parts (drop_dot_slash (slashed (strip s)))))"
    and g: "path_parts (drop_dot_slash (slashed (strip s))) \<noteq> []"
      "CHR '':'' \<notin> set (hd (path_parts (drop_dot_slash (slashed (strip s)))))"
      "''..'' \<notin> set (path_parts (drop_dot_slash (slashed (strip s))))"
      "\<not> pattern \<longrightarrow> \<not> has_glob (drop_dot_slash (slashed (strip s)))"
    using assms by (rule normalizeE)
  let ?t = "drop_dot_slash (slashed (strip s))"
  let ?ps = "map casefold (path_parts ?t)"
  have n: "n = join [slash] ?ps" using s(2) by (simp add: casefold_join)
  have sl: "\<forall>p \<in> set ?ps. slash \<notin> set p" using path_parts_clean by auto
  have sub: "set (join [slash] (path_parts ?t)) \<subseteq> set ?t \<union> {slash}"
    using join_set [of "[slash]" "path_parts ?t"] path_parts_clean by fastforce
  have "CHR 0x5C \<notin> set ?t" using slashed_no_backslash drop_dot_slash_set by blast
  then have bs: "CHR 0x5C \<notin> set n" using sub s(2) by (auto simp: slash_def)
  have "has_glob n \<Longrightarrow> has_glob ?t" unfolding s(2) has_glob_casefold using has_glob_mono [OF sub] .
  then have "\<not> pattern \<longrightarrow> \<not> has_glob n" using g(4) by blast
  moreover have "\<forall>p \<in> set ?ps. p \<noteq> [] \<and> p \<noteq> ''.'' \<and> p \<noteq> ''..''" using g(3) path_parts_clean by auto
  moreover have "CHR '':'' \<notin> set (hd ?ps)" using g(1,2) by (simp add: hd_map)
  moreover have "casefold n = n" unfolding s(2) by simp
  moreover have "split_on slash n = ?ps" unfolding n using sl g(1) by (intro split_on_join) simp_all
  ultimately show thesis using n bs g(1) by (intro that [of ?ps]) simp_all
qed

lemma clean_no_ends:
  assumes "split_on slash n = ps" and "\<forall>p \<in> set ps. p \<noteq> [] \<and> p \<noteq> ''.'' \<and> p \<noteq> ''..''"
  shows "\<not> startswith n [slash]" and "\<not> startswith n ''./''" and "n \<noteq> []"
proof -
  have ne: "[] \<notin> set (split_on slash n)" using assms by blast
  then show "\<not> startswith n [slash]" and "n \<noteq> []" by (auto simp: startswith_iff)
  show "\<not> startswith n ''./''"
  proof
    assume "startswith n ''./''"
    then obtain t where "n = ''.'' @ slash # t" by (auto simp: startswith_iff slash_def)
    then have "split_on slash n = ''.'' # split_on slash t" by (simp only: split_on_cons) (simp add: slash_def)
    then show False using assms by auto
  qed
qed


section \<open>Decisions\<close>

definition covers :: "pyval \<Rightarrow> string \<Rightarrow> bool" where
  "covers v target \<longleftrightarrow> (\<exists>ps p. iter v = Inr ps \<and> PyStr p \<in> set ps \<and> covered target p)"

lemma matches_any_covers: "matches_any target v = Inr b \<Longrightarrow> b = covers v target"
proof -
  assume m: "matches_any target v = Inr b"
  then obtain ps where ps: "iter v = Inr ps" "any_res (covered_val target) ps = Inr b"
    by (auto simp: matches_any_def res_bind_Inr)
  have one: "covered_val target x = Inr c \<longleftrightarrow> (\<exists>p. x = PyStr p \<and> c = covered target p)" for x c
    by (cases x) (auto simp: covered_val_def)
  show ?thesis
  proof (cases b)
    case True
    then show ?thesis using ps any_res_True [of "covered_val target" ps] one unfolding covers_def by auto
  next
    case False
    then have "\<forall>x \<in> set ps. covered_val target x = Inr False" using ps(2) by (simp add: any_res_False)
    then have "\<not> covers v target" unfolding covers_def using ps(1) one by auto
    then show ?thesis using False by simp
  qed
qed

lemma in_list_covers: "in_list target scope k = Inr b \<Longrightarrow> b = covers (dget scope k) target"
  by (auto simp: in_list_def res_bind_Inr scope_key_def split: if_splits dest: matches_any_covers)

lemma validate_write_scope_Inr:
  "validate_write_scope scope = Inr () \<longleftrightarrow> is_dict scope \<and> py_eq (dget scope ''schema'') (PyInt 1)
     \<and> dget scope ''digest'' = PyStr (scope_digest scope) \<and> is_digest (dget scope ''governance_digest'')"
  by (simp add: validate_write_scope_def check_all_Inr)

lemma write_authorizedE:
  assumes "write_authorized scope path phase gov = Inr True"
  obtains target where "validate_write_scope scope = Inr ()" and "normalize path False = Inr target"
    and "decide_write scope target phase gov = Inr True"
  using assms
  by (cases "validate_write_scope scope"; cases "normalize path False")
    (auto simp: write_authorized_def split: exn.splits)

lemma boundary_lists:
  assumes "map_res (scope_key scope) boundary_keys = Inr bls" and "any_res (matches_any target) bls = Inr False"
    and "k \<in> set boundary_keys"
  shows "\<not> covers (dget scope k) target"
proof -
  have "\<exists>v \<in> set bls. scope_key scope k = Inr v"
    using map_res_member [OF assms(1,3)] .
  then have "dget scope k \<in> set bls" by (auto simp: scope_key_def split: if_splits)
  then have "matches_any target (dget scope k) = Inr False" using assms(2) by (simp add: any_res_False)
  then show ?thesis using matches_any_covers by blast
qed

definition phase_ok :: "pyval \<Rightarrow> string \<Rightarrow> string \<Rightarrow> bool" where
  "phase_ok scope target phase \<longleftrightarrow>
     phase = ''TEST_DESIGN'' \<and> covers (dget scope ''test_paths'') target \<and> \<not> covers (dget scope ''production_paths'') target
   \<or> phase = ''IMPLEMENTATION'' \<and> truthy (dget scope ''baseline_authorized'')
       \<and> covers (dget scope ''production_paths'') target \<and> \<not> covers (dget scope ''test_paths'') target"

lemma phase_authorizedD:
  "phase_authorized target scope phase = Inr True \<Longrightarrow> phase \<in> set PHASES \<Longrightarrow> phase_ok scope target phase"
  unfolding phase_authorized_def phase_ok_def PHASES_def
  by (auto simp: res_bind_Inr scope_key_def split: if_splits dest: in_list_covers)

text \<open>
  C24: what an authorised write is. The scope is intact and bound to the current governance; the path
  is a concrete, clean path inside the repository that is neither under \<open>.agents\<close> nor an \<open>AGENTS.md\<close>;
  no denied, reference, user-modified or nested-repository pattern covers it and an allowed one
  does; and it is a test path and no production path while tests are designed, or, with baseline
  authority, a production path and no test path while implementing.
\<close>

theorem write_authorized_sound:
  assumes "write_authorized scope path phase gov = Inr True"
  shows "\<exists>target. normalize path False = Inr target \<and> clean_path target \<and> \<not> has_glob target \<and> \<not> protected_path target
    \<and> validate_write_scope scope = Inr () \<and> gov = dget scope ''governance_digest''
    \<and> (\<forall>k \<in> set boundary_keys. \<not> covers (dget scope k) target)
    \<and> covers (dget scope ''allow'') target \<and> phase_ok scope target phase"
proof -
  obtain target where t: "validate_write_scope scope = Inr ()" "normalize path False = Inr target"
    "decide_write scope target phase gov = Inr True"
    using assms by (rule write_authorizedE)
  obtain bls where l: "phase \<in> set PHASES" "py_eq gov (dget scope ''governance_digest'')" "\<not> protected_path target"
    "map_res (scope_key scope) boundary_keys = Inr bls" "any_res (matches_any target) bls = Inr False"
    "in_list target scope ''allow'' = Inr True" "phase_authorized target scope phase = Inr True"
    using t(3) by (auto simp: decide_write_def res_bind_Inr split: if_splits)
  obtain ps where "split_on slash target = ps" "\<forall>p \<in> set ps. p \<noteq> [] \<and> p \<noteq> ''.'' \<and> p \<noteq> ''..''" "casefold target = target"
    "CHR 0x5C \<notin> set target" "\<not> has_glob target"
    using normalize_parts [OF t(2)] by metis
  then have c: "clean_path target" "\<not> has_glob target" by (simp_all add: clean_path_def)
  have g: "gov = dget scope ''governance_digest''"
    using l(2) t(1) unfolding validate_write_scope_Inr by (auto elim!: is_digestE)
  have "\<forall>k \<in> set boundary_keys. \<not> covers (dget scope k) target" using boundary_lists [OF l(4,5)] by blast
  then show ?thesis
    using t c g l(3) in_list_covers [OF l(6)] phase_authorizedD [OF l(7,1)] by blast
qed

text \<open>
  The phases exclude each other. No path that may be written while tests are designed may be
  written while implementing, under one scope and whatever the governance digest.
\<close>

theorem phases_exclusive:
  "\<not> (write_authorized scope path ''TEST_DESIGN'' gov = Inr True \<and> write_authorized scope path ''IMPLEMENTATION'' gov' = Inr True)"
proof
  have ph: "phase \<in> set PHASES \<and> phase_authorized target scope phase = Inr True" if "decide_write scope target phase g = Inr True" for target phase g
    using that by (auto simp: decide_write_def res_bind_Inr split: if_splits)
  assume a: "write_authorized scope path ''TEST_DESIGN'' gov = Inr True \<and> write_authorized scope path ''IMPLEMENTATION'' gov' = Inr True"
  obtain t where t: "normalize path False = Inr t" "decide_write scope t ''TEST_DESIGN'' gov = Inr True"
    using a write_authorizedE by blast
  obtain u where u: "normalize path False = Inr u" "decide_write scope u ''IMPLEMENTATION'' gov' = Inr True"
    using a write_authorizedE by blast
  have "phase_ok scope t ''TEST_DESIGN''" "phase_ok scope u ''IMPLEMENTATION''"
    using ph [OF t(2)] ph [OF u(2)] phase_authorizedD by blast+
  then show False using t(1) u(1) by (simp add: phase_ok_def)
qed

section \<open>Compiled scopes\<close>

lemma matches_sorted: "matches_any target (sorted_strs ps) = Inr (\<exists>p \<in> set ps. covered target p)"
proof -
  have "any_res (covered_val target) (map PyStr qs) = Inr (\<exists>q \<in> set qs. covered target q)" for qs
    by (induction qs) (auto simp: covered_val_def)
  then show ?thesis by (simp add: matches_any_def sorted_strs_def)
qed

lemma join_last: "ps \<noteq> [] \<Longrightarrow> \<forall>p \<in> set ps. p \<noteq> [] \<Longrightarrow> last (join [sep] ps) = last (last ps)"
proof (induction "[sep]" ps rule: join.induct)
  case (3 s t ss)
  then have "join [sep] (t # ss) \<noteq> []" by (cases ss) auto
  then show ?case using 3 by simp
qed auto

lemma normalize_no_trailing: "normalize v pattern = Inr n \<Longrightarrow> rstrip_slash n = n"
proof -
  assume "normalize v pattern = Inr n"
  then obtain ps where ps: "ps \<noteq> []" "split_on slash n = ps" "n = join [slash] ps" "\<forall>p \<in> set ps. p \<noteq> [] \<and> p \<noteq> ''.'' \<and> p \<noteq> ''..''"
    using normalize_parts by metis
  have "slash \<notin> set (last ps)" using split_on_parts [of "last ps" slash n] ps(1,2) by simp
  then have "last n \<noteq> slash" using join_last [OF ps(1)] ps(1,3,4) by (metis last_in_set)
  moreover have "n \<noteq> []" using ps(1,3,4) by (cases ps rule: remdups_adj.cases) auto
  ultimately show ?thesis
    unfolding rstrip_slash_def by (subst dropWhile_no_head) (auto simp: hd_rev)
qed

lemma covered_tree:
  assumes "rstrip_slash p = p"
  shows "covered target (p @ ''/**'') \<longleftrightarrow> target = p \<or> startswith target (p @ ''/'')"
proof -
  have r: "rstrip_slash (p @ ''/**'') = p @ ''/**''" by (simp add: rstrip_slash_def slash_def)
  have e: "endswith (p @ ''/**'') ''/**''" by (rule endswith_append)
  have t: "take (length (p @ ''/**'') - 3) (p @ ''/**'') = p" by simp
  show ?thesis unfolding covered_def r Let_def t assms using e by simp
qed

text \<open>Coverage by a supplied list, and by a boundary list, whose concrete entries also cover what lies below them.\<close>

definition listed :: "string \<Rightarrow> pyval list \<Rightarrow> bool" where
  "listed target vs \<longleftrightarrow> (\<exists>v \<in> set vs. \<exists>p. normalize v True = Inr p \<and> covered target p)"

definition bounded_by :: "string \<Rightarrow> pyval list \<Rightarrow> bool" where
  "bounded_by target vs \<longleftrightarrow> (\<exists>v \<in> set vs. \<exists>p. normalize v True = Inr p
     \<and> (covered target p \<or> \<not> has_glob p \<and> (target = p \<or> startswith target (p @ ''/''))))"

lemma patterns_listed: "patterns vs = Inr ps \<Longrightarrow> (\<exists>p \<in> set ps. covered target p) = listed target vs"
  unfolding patterns_def listed_def by (rule map_res_ex)

lemma boundary_bounded:
  assumes "boundary_patterns vs = Inr ps"
  shows "(\<exists>p \<in> set ps. covered target p) = bounded_by target vs"
proof -
  obtain qs where qs: "patterns vs = Inr qs"
    and ps: "ps = concat (map (\<lambda>p. let value = rstrip_slash p in if has_glob value then [value] else [value, value @ ''/**'']) qs)"
    using assms by (auto simp: boundary_patterns_def res_bind_Inr)
  have r: "rstrip_slash q = q" if "q \<in> set qs" for q
    using qs that map_res_from [of "\<lambda>v. normalize v True"] normalize_no_trailing unfolding patterns_def by blast
  have q: "(\<exists>p \<in> set (let value = rstrip_slash q in if has_glob value then [value] else [value, value @ ''/**'']). covered target p)
      = (covered target q \<or> \<not> has_glob q \<and> (target = q \<or> startswith target (q @ ''/'')))" if "q \<in> set qs" for q
    unfolding r [OF that] Let_def using covered_tree [OF r [OF that]] by (cases "has_glob q") simp_all
  have "(\<exists>p \<in> set ps. covered target p)
      \<longleftrightarrow> (\<exists>q \<in> set qs. \<exists>p \<in> set (let value = rstrip_slash q in if has_glob value then [value] else [value, value @ ''/**'']). covered target p)"
    unfolding ps set_concat set_map by blast
  also have "\<dots> \<longleftrightarrow> (\<exists>q \<in> set qs. covered target q \<or> \<not> has_glob q \<and> (target = q \<or> startswith target (q @ ''/'')))"
    by (rule bex_cong [OF refl q])
  also have "\<dots> \<longleftrightarrow> bounded_by target vs"
    unfolding bounded_by_def by (rule map_res_ex [OF qs [unfolded patterns_def]])
  finally show ?thesis .
qed

lemma compile_write_scopeE:
  assumes "compile_write_scope allow deny tests prods gens refs dirty nested auth gov = Inr scope"
  obtains al de te pr ge re ud ne where "is_digest gov" and "is_bool auth"
    and "patterns allow = Inr al" and "patterns deny = Inr de" and "patterns tests = Inr te" and "patterns prods = Inr pr"
    and "patterns gens = Inr ge" and "boundary_patterns refs = Inr re" and "boundary_patterns dirty = Inr ud" and "boundary_patterns nested = Inr ne"
    and "validate_write_scope scope = Inr ()" and "dget scope ''governance_digest'' = gov"
    and "scope_key scope ''allow'' = Inr (sorted_strs al)" and "scope_key scope ''deny'' = Inr (sorted_strs (de @ builtin_deny))"
    and "scope_key scope ''test_paths'' = Inr (sorted_strs te)" and "scope_key scope ''production_paths'' = Inr (sorted_strs pr)"
    and "scope_key scope ''reference_paths'' = Inr (sorted_strs re)" and "scope_key scope ''user_dirty'' = Inr (sorted_strs ud)"
    and "scope_key scope ''nested_repositories'' = Inr (sorted_strs ne)" and "scope_key scope ''baseline_authorized'' = Inr auth"
proof -
  from assms obtain al de te pr ge re ud ne where c: "is_digest gov" "is_bool auth"
    "patterns allow = Inr al" "patterns deny = Inr de" "patterns tests = Inr te" "patterns prods = Inr pr"
    "patterns gens = Inr ge" "boundary_patterns refs = Inr re" "boundary_patterns dirty = Inr ud" "boundary_patterns nested = Inr ne"
    and s: "scope = (let value = PyDict
      [(''schema'', PyInt 1), (''allow'', sorted_strs al), (''deny'', sorted_strs (de @ builtin_deny)), (''test_paths'', sorted_strs te),
       (''production_paths'', sorted_strs pr), (''generated_paths'', sorted_strs ge), (''reference_paths'', sorted_strs re),
       (''user_dirty'', sorted_strs ud), (''nested_repositories'', sorted_strs ne), (''baseline_authorized'', auth), (''governance_digest'', gov)]
      in dset value ''digest'' (PyStr (scope_digest value)))"
    unfolding compile_write_scope_def by (auto simp: res_bind_Inr check_all_Inr Let_def)
  have v: "validate_write_scope scope = Inr ()"
    unfolding validate_write_scope_Inr s Let_def using c(1) by simp
  show thesis
    by (rule that [OF c v]) (simp_all add: s Let_def scope_key_def)
qed

lemma in_list_sorted: "scope_key scope k = Inr (sorted_strs ps) \<Longrightarrow> in_list target scope k = Inr (\<exists>p \<in> set ps. covered target p)"
  by (simp add: in_list_def matches_sorted)

lemma compiled_decides:
  assumes "compile_write_scope allow deny tests prods gens refs dirty nested auth gov = Inr scope"
    and "normalize path False = Inr target"
  shows "write_authorized scope path phase gov' = Inr
    (gov' = gov \<and> \<not> protected_path target \<and> \<not> (\<exists>p \<in> set builtin_deny. covered target p)
     \<and> \<not> listed target deny \<and> \<not> bounded_by target refs \<and> \<not> bounded_by target dirty \<and> \<not> bounded_by target nested
     \<and> listed target allow
     \<and> (phase = ''TEST_DESIGN'' \<and> listed target tests \<and> \<not> listed target prods
       \<or> phase = ''IMPLEMENTATION'' \<and> auth = PyBool True \<and> listed target prods \<and> \<not> listed target tests))"
  using assms(1)
proof (rule compile_write_scopeE)
  fix al de te pr ge re ud ne
  assume gov: "is_digest gov" and auth: "is_bool auth" and ps: "patterns allow = Inr al" "patterns deny = Inr de" "patterns tests = Inr te" "patterns prods = Inr pr"
    and bs: "boundary_patterns refs = Inr re" "boundary_patterns dirty = Inr ud" "boundary_patterns nested = Inr ne"
    and v: "validate_write_scope scope = Inr ()" and g: "dget scope ''governance_digest'' = gov"
    and keys: "scope_key scope ''allow'' = Inr (sorted_strs al)" "scope_key scope ''deny'' = Inr (sorted_strs (de @ builtin_deny))"
      "scope_key scope ''test_paths'' = Inr (sorted_strs te)" "scope_key scope ''production_paths'' = Inr (sorted_strs pr)"
      "scope_key scope ''reference_paths'' = Inr (sorted_strs re)" "scope_key scope ''user_dirty'' = Inr (sorted_strs ud)"
      "scope_key scope ''nested_repositories'' = Inr (sorted_strs ne)" "scope_key scope ''baseline_authorized'' = Inr auth"
  note l = ps [THEN patterns_listed, of target] bs [THEN boundary_bounded, of target]
  have tr: "truthy auth \<longleftrightarrow> auth = PyBool True" using auth by (cases auth) simp_all
  have ge: "py_eq gov' gov \<longleftrightarrow> gov' = gov" using gov by (auto elim!: is_digestE)
  have bl: "map_res (scope_key scope) boundary_keys = Inr [sorted_strs (de @ builtin_deny), sorted_strs re, sorted_strs ud, sorted_strs ne]"
    by (simp add: boundary_keys_def keys)
  have ba: "any_res (matches_any target) [sorted_strs (de @ builtin_deny), sorted_strs re, sorted_strs ud, sorted_strs ne]
      = Inr ((\<exists>p \<in> set builtin_deny. covered target p) \<or> listed target deny \<or> bounded_by target refs \<or> bounded_by target dirty \<or> bounded_by target nested)"
    unfolding any_res.simps matches_sorted sum.case set_append bex_Un l by auto
  have il: "in_list target scope ''allow'' = Inr (listed target allow)" "in_list target scope ''test_paths'' = Inr (listed target tests)"
      "in_list target scope ''production_paths'' = Inr (listed target prods)"
    using in_list_sorted [OF keys(1), of target] in_list_sorted [OF keys(3), of target] in_list_sorted [OF keys(4), of target] l by simp_all
  have "write_authorized scope path phase gov' = decide_write scope target phase gov'"
    by (simp add: write_authorized_def v assms(2))
  also have "\<dots> = (if phase \<notin> set PHASES \<or> gov' \<noteq> gov \<or> protected_path target then Inr False
      else if (\<exists>p \<in> set builtin_deny. covered target p) \<or> listed target deny \<or> bounded_by target refs \<or> bounded_by target dirty \<or> bounded_by target nested then Inr False
      else if \<not> listed target allow then Inr False else phase_authorized target scope phase)"
    unfolding decide_write_def bl res_bind_simps ba il g ge by simp
  also have "phase_authorized target scope phase = Inr (if phase = ''TEST_DESIGN'' then listed target tests \<and> \<not> listed target prods
      else auth = PyBool True \<and> listed target prods \<and> \<not> listed target tests)"
    unfolding phase_authorized_def il keys res_bind_simps tr by simp
  finally show ?thesis by (auto simp: PHASES_def)
qed

text \<open>
  a compiled scope decides exactly what its path lists say. It is intact, and for every path
  with a normal form \<open>write_authorized\<close> answers, without raising, true iff the governance digest is
  the compiled one, the path is not protected, no built-in or supplied denial, no reference, dirty
  or nested boundary (nor anything below one) holds it, an allowed pattern does, and the phase's
  own list does while the other phase's does not.
\<close>

theorem compiled_scope_decides:
  assumes "compile_write_scope allow deny tests prods gens refs dirty nested auth gov = Inr scope"
    and "normalize path False = Inr target"
  shows "write_authorized scope path phase gov' = Inr
    (gov' = gov \<and> \<not> protected_path target \<and> \<not> (\<exists>p \<in> set builtin_deny. covered target p)
     \<and> \<not> listed target deny \<and> \<not> bounded_by target refs \<and> \<not> bounded_by target dirty \<and> \<not> bounded_by target nested
     \<and> listed target allow
     \<and> (phase = ''TEST_DESIGN'' \<and> listed target tests \<and> \<not> listed target prods
       \<or> phase = ''IMPLEMENTATION'' \<and> auth = PyBool True \<and> listed target prods \<and> \<not> listed target tests))"
  using assms by (rule compiled_decides)

text \<open>
  uncommitted user work is out of reach. For a compiled scope, a path equal to a concrete dirty
  (or reference, or nested repository) path or below it is never authorised, in any phase and for
  any spelling of the path that normalises there.
\<close>

theorem boundary_protected:
  assumes "compile_write_scope allow deny tests prods gens refs dirty nested auth gov = Inr scope"
    and "v \<in> set (dirty @ refs @ nested)" and "normalize v True = Inr p" and "\<not> has_glob p"
    and "normalize path False = Inr target" and "target = p \<or> startswith target (p @ ''/'')"
  shows "write_authorized scope path phase gov' \<noteq> Inr True"
proof
  assume "write_authorized scope path phase gov' = Inr True"
  then obtain t where t: "normalize path False = Inr t" "decide_write scope t phase gov' = Inr True" by (rule write_authorizedE)
  then have tt: "t = target" using assms(5) by simp
  obtain bls where b: "map_res (scope_key scope) boundary_keys = Inr bls" "any_res (matches_any target) bls = Inr False"
    using t(2) unfolding tt by (auto simp: decide_write_def res_bind_Inr split: if_splits)
  have nc: "\<not> covers (dget scope k) target" if "k \<in> set boundary_keys" for k using boundary_lists [OF b that] .
  have "bounded_by target dirty \<or> bounded_by target refs \<or> bounded_by target nested"
    using assms(2,3,4,6) unfolding bounded_by_def set_append by blast
  moreover from assms(1) obtain re ud ne where k: "boundary_patterns refs = Inr re" "boundary_patterns dirty = Inr ud" "boundary_patterns nested = Inr ne"
    "scope_key scope ''reference_paths'' = Inr (sorted_strs re)" "scope_key scope ''user_dirty'' = Inr (sorted_strs ud)"
    "scope_key scope ''nested_repositories'' = Inr (sorted_strs ne)"
    by (rule compile_write_scopeE)
  moreover have "in_list target scope k = Inr False" if "k \<in> set boundary_keys" "scope_key scope k = Inr (sorted_strs ps)" for k ps
    using in_list_sorted [OF that(2), of target] in_list_covers [OF in_list_sorted [OF that(2), of target]] nc [OF that(1)] by simp
  ultimately show False
    using in_list_sorted [OF k(4), of target] in_list_sorted [OF k(5), of target] in_list_sorted [OF k(6), of target]
      k(1-3) [THEN boundary_bounded, of target] by (auto simp: boundary_keys_def)
qed

text \<open>
  A path with no component is not denied but raises. For every intact scope, asking for \<open>./\<close>
  ends in the \<open>IndexError\<close> of \<open>path.parts[0]\<close>, which \<open>write_authorized\<close> does not catch.
\<close>

theorem empty_path_raises:
  assumes "validate_write_scope scope = Inr ()"
  shows "write_authorized scope (PyStr ''./'') phase gov = Inl IndexErr"
proof -
  have "normalize (PyStr ''./'') False = Inl IndexErr" by code_simp
  then show ?thesis by (simp add: write_authorized_def assms)
qed

definition within_dimension :: "pyval \<Rightarrow> pyval \<Rightarrow> string \<Rightarrow> bool" where
  "within_dimension allowed observed f \<longleftrightarrow> (\<exists>a \<ge> 0. dget_or observed f (PyInt 0) = PyInt a
     \<and> (dget_or allowed f (PyInt 0) = PyNone \<or> (\<exists>l \<ge> a. dget_or allowed f (PyInt 0) = PyInt l)))"

definition within_budget :: "string list \<Rightarrow> pyval \<Rightarrow> pyval \<Rightarrow> bool" where
  "within_budget dims allowed observed \<longleftrightarrow> is_dict allowed \<and> is_dict observed
     \<and> (\<forall>k. has_key allowed k \<or> has_key observed k \<longrightarrow> k \<in> set dims)
     \<and> (\<forall>f \<in> set dims. within_dimension allowed observed f)"

lemma check_dimension_ok: "is_ok (check_dimension allowed observed f) = within_dimension allowed observed f"
  unfolding check_dimension_def within_dimension_def Let_def
  by (cases "dget_or allowed f (PyInt 0)"; cases "dget_or observed f (PyInt 0)") (auto simp: guard_def is_nonneg_int_def split: if_splits)

lemma map_res_ok: "is_ok (map_res f xs) \<longleftrightarrow> (\<forall>x \<in> set xs. is_ok (f x))"
proof (induction xs)
  case (Cons x xs)
  then show ?case by (cases "f x"; cases "map_res f xs") auto
qed simp

lemma is_ok_bind: "is_ok (res_bind m f) \<longleftrightarrow> (\<exists>x. m = Inr x \<and> is_ok (f x))"
  by (cases m) auto

lemma enforce_budget_ok: "is_ok (enforce_budget allowed observed dims) = within_budget dims allowed observed"
proof -
  have "is_ok (enforce_budget allowed observed dims) \<longleftrightarrow> is_dict allowed \<and> is_dict observed
      \<and> (\<forall>k \<in> set (map fst (entries allowed) @ map fst (entries observed)). k \<in> set dims) \<and> is_ok (map_res (check_dimension allowed observed) (sort dims))"
    unfolding enforce_budget_def is_ok_bind by (cases "map_res (check_dimension allowed observed) (sort dims)") (auto simp: check_all_Inr)
  then show ?thesis
    unfolding map_res_ok check_dimension_ok within_budget_def by (auto simp: has_key_def)
qed

text \<open>
  C25: budgets are closed by default. Enforcing succeeds iff both sides are objects over the known
  dimensions and every observed count is within its allowance, where a dimension the budget does
  not mention allows nothing and only an explicit null is unlimited.
\<close>

theorem budgets_enforced:
  "is_ok (enforce_change_budget budget observed) = within_budget CHANGE_DIMENSIONS budget observed
   \<and> is_ok (enforce_semantic_budget budget observed) = within_budget SEMANTIC_DIMENSIONS budget observed"
  by (simp add: enforce_change_budget_def enforce_semantic_budget_def enforce_budget_ok)

section \<open>A concrete scope\<close>

definition sample_gov :: pyval where
  "sample_gov = PyStr (replicate 64 (CHR ''b''))"

definition sample_scope :: "pyval res" where
  "sample_scope = compile_write_scope [PyStr ''src/**'', PyStr ''tests/**''] [PyStr ''src/vendor/*''] [PyStr ''./Tests/**''] [PyStr ''src/**''] []
     [] [PyStr ''src/Local.txt''] [] (PyBool True) sample_gov"

lemma sample_gov_ok: "is_digest sample_gov"
  by code_simp

lemma sample_patterns:
  "patterns [PyStr ''src/**'', PyStr ''tests/**''] = Inr [''src/**'', ''tests/**'']" "patterns [PyStr ''src/vendor/*''] = Inr [''src/vendor/*'']"
  "patterns [PyStr ''./Tests/**''] = Inr [''tests/**'']" "patterns [PyStr ''src/**''] = Inr [''src/**'']" "patterns [] = Inr []"
  "boundary_patterns [] = Inr []" "boundary_patterns [PyStr ''src/Local.txt''] = Inr [''src/local.txt'', ''src/local.txt/**'']"
  by code_simp+

lemma sample_scope_ok: "\<exists>scope. sample_scope = Inr scope"
  unfolding sample_scope_def compile_write_scope_def sample_patterns using sample_gov_ok
  by (simp add: Let_def check_all_Inr guard_def)

lemma sample_scope_valid: "sample_scope = Inr scope \<Longrightarrow> validate_write_scope scope = Inr ()"
  unfolding sample_scope_def by (erule compile_write_scopeE)

lemma sample_targets:
  "normalize (PyStr ''./src//Main.PY'') False = Inr ''src/main.py''" "normalize (PyStr ''src/LOCAL.txt'') False = Inr ''src/local.txt''"
  "normalize (PyStr ''src/Local.txt'') True = Inr ''src/local.txt''"
  by code_simp+

lemma sample_decision:
  "\<not> protected_path ''src/main.py''" "\<not> (\<exists>p \<in> set builtin_deny. covered ''src/main.py'' p)"
  "covered ''src/main.py'' ''src/**''" "\<not> covered ''src/main.py'' ''tests/**''" "\<not> covered ''src/main.py'' ''src/vendor/*''"
  "\<not> covered ''src/main.py'' ''src/local.txt''" "\<not> covered ''src/main.py'' ''src/local.txt/**''" "\<not> has_glob ''src/local.txt''"
  by code_simp+


lemma sample_authorized:
  "sample_scope = Inr scope \<Longrightarrow> write_authorized scope (PyStr ''./src//Main.PY'') ''IMPLEMENTATION'' sample_gov = Inr True"
proof -
  assume s: "sample_scope = Inr scope"
  have l: "listed ''src/main.py'' [PyStr ''src/**'', PyStr ''tests/**'']" "\<not> listed ''src/main.py'' [PyStr ''src/vendor/*'']"
      "\<not> listed ''src/main.py'' [PyStr ''./Tests/**'']" "listed ''src/main.py'' [PyStr ''src/**'']"
      "\<not> bounded_by ''src/main.py'' []" "\<not> bounded_by ''src/main.py'' [PyStr ''src/Local.txt'']"
    using sample_patterns(1-4) [THEN patterns_listed, of "''src/main.py''"] sample_patterns(6,7) [THEN boundary_bounded, of "''src/main.py''"] sample_decision
    by simp_all
  show ?thesis
    unfolding compiled_decides [OF s [unfolded sample_scope_def] sample_targets(1), of _ sample_gov]
    using l sample_decision by blast
qed

theorem compiled_scope_decides_witness:
  "\<exists>scope. sample_scope = Inr scope \<and> write_authorized scope (PyStr ''./src//Main.PY'') ''REVIEW'' sample_gov = Inr False"
proof -
  obtain scope where s: "sample_scope = Inr scope" using sample_scope_ok by blast
  show ?thesis
    using s compiled_scope_decides [OF s [unfolded sample_scope_def] sample_targets(1), of "''REVIEW''" sample_gov] by (intro exI [of _ scope]) simp
qed

theorem write_authorized_sound_witness:
  "\<exists>scope target. sample_scope = Inr scope \<and> write_authorized scope (PyStr ''./src//Main.PY'') ''IMPLEMENTATION'' sample_gov = Inr True
    \<and> clean_path target \<and> phase_ok scope target ''IMPLEMENTATION''"
proof -
  obtain scope where s: "sample_scope = Inr scope" using sample_scope_ok by blast
  note a = sample_authorized [OF s]
  show ?thesis using s a write_authorized_sound [OF a] by blast
qed

theorem boundary_protected_witness:
  "\<exists>scope. sample_scope = Inr scope \<and> write_authorized scope (PyStr ''src/LOCAL.txt'') ''IMPLEMENTATION'' sample_gov \<noteq> Inr True"
proof -
  obtain scope where s: "sample_scope = Inr scope" using sample_scope_ok by blast
  show ?thesis
    using s boundary_protected [OF s [unfolded sample_scope_def] _ sample_targets(3) sample_decision(8) sample_targets(2)] by (intro exI [of _ scope]) simp
qed

theorem empty_path_raises_witness:
  "\<exists>scope. sample_scope = Inr scope \<and> write_authorized scope (PyStr ''./'') ''IMPLEMENTATION'' sample_gov = Inl IndexErr"
  using sample_scope_ok sample_scope_valid empty_path_raises by blast

end
