(* ===== verification/Controls.thy ===== *)
theory Controls
  imports Scope
begin

text \<open>
  \<open>agentinfra/controls.py\<close>: when a REQUIRED gate may stand waived, which architectural decision
  records a semantic change needs, and what a dependency change must declare.
\<close>

section \<open>Definitions\<close>

definition GATE_SEVERITIES :: "string list" where
  "GATE_SEVERITIES = [''HARD'', ''REQUIRED'', ''ADVISORY'']"

text \<open>\<open>waiver_authority\<close> of the evidence: a trusted user or host with a name.\<close>

definition trusted_authority :: "pyval \<Rightarrow> bool res" where
  "trusted_authority authority = (if \<not> is_dict authority then Inr False
     else res_bind (in_set (dget authority ''kind'') [''user'', ''host'']) (\<lambda>b.
       Inr (b \<and> dget authority ''trusted'' = PyBool True \<and> is_text (dget authority ''identity''))))"

definition validate_gate_waiver :: "pyval \<Rightarrow> pyval \<Rightarrow> pyval \<Rightarrow> pyval \<Rightarrow> bool res" where
  "validate_gate_waiver gate evidence_records task_id current_epoch =
    (if \<not> is_dict gate \<or> dget gate ''status'' \<noteq> PyStr ''WAIVED'' then Inr False
     else if dget gate ''gate_severity'' \<noteq> PyStr ''REQUIRED'' then Inr False
     else if \<not> is_text (dget gate ''waiver_reason'') then Inr False
     else if \<not> str_startswith (dget gate ''waiver_evidence'') ''E-'' then Inr False
     else if \<not> is_dict evidence_records then Inr False
     else let evidence_id = dget gate ''waiver_evidence''; record = dget evidence_records (py_str evidence_id) in
       if \<not> is_dict record \<or> \<not> py_eq (dget record ''schema'') (PyInt 2) \<or> dget record ''id'' \<noteq> evidence_id
          \<or> \<not> py_eq (dget record ''task_id'') task_id \<or> \<not> py_eq (dget record ''change_epoch'') current_epoch
          \<or> dget record ''provenance'' \<noteq> PyStr ''external-source'' then Inr False
       else let details = dget record ''details'' in
         if \<not> is_dict details then Inr False
         else res_bind (py_in (dget gate ''id'') (dget_or details ''gate_ids'' (PyList []))) (\<lambda>relevant.
           if \<not> relevant then Inr False else trusted_authority (dget details ''waiver_authority'')))"

definition adr_fields :: "string list" where
  "adr_fields = [''id'', ''category'', ''decision'', ''alternatives'', ''reason'', ''coupling'', ''evidence'', ''risks'', ''compatibility_impact'']"

definition valid_nonempty_list :: "pyval \<Rightarrow> bool" where
  "valid_nonempty_list v \<longleftrightarrow> is_list v \<and> items v \<noteq> [] \<and> (\<forall>x \<in> set (items v). is_text x)"

definition validate_adr :: "pyval \<Rightarrow> unit res" where
  "validate_adr decision = check_all
     [guard (is_dict decision \<and> (\<forall>f \<in> set adr_fields. has_key decision f)) (ControlError ''architectural decision is incomplete''),
      guard (\<forall>f \<in> set [''id'', ''category'', ''decision'', ''reason'', ''compatibility_impact'']. is_text (dget decision f))
        (ControlError ''architectural decision field must be non-empty''),
      guard (\<forall>f \<in> set [''alternatives'', ''coupling'', ''evidence'', ''risks'']. valid_nonempty_list (dget decision f))
        (ControlError ''architectural decision field must be a non-empty string array'')]"

definition check_count :: "string \<times> pyval \<Rightarrow> unit res" where
  "check_count kv = guard (is_nonneg_int (snd kv)) (ControlError ''semantic delta counts must be non-negative integers'')"

definition require_architectural_decisions :: "pyval \<Rightarrow> pyval \<Rightarrow> pyval res" where
  "require_architectural_decisions semantic_delta decisions =
    res_bind (check_all
      [guard (is_dict semantic_delta \<and> is_list decisions) (ControlError ''semantic delta and decisions must be structured''),
       guard (\<forall>k \<in> set (map fst (entries semantic_delta)). k \<in> set SEMANTIC_DIMENSIONS) (ControlError ''unknown semantic dimensions''),
       for_each validate_adr (items decisions),
       for_each check_count (entries semantic_delta)]) (\<lambda>_.
    let categories = map (\<lambda>d. dget d ''category'') (items decisions);
        missing = filter (\<lambda>(k, n). truthy n \<and> PyStr k \<notin> set categories) (entries semantic_delta)
    in if missing \<noteq> [] then Inl (ControlError ''architectural expansion lacks ADR evidence'')
       else Inr (PyDict [(''ok'', PyBool True),
         (''covered'', PyList (map PyStr (sort (map fst (filter (\<lambda>(k, n). truthy n) (entries semantic_delta))))))]))"

definition validate_dependency_delta :: "pyval \<Rightarrow> pyval list \<Rightarrow> pyval res" where
  "validate_dependency_delta delta task_classes =
    res_bind (check_all
      [guard (''DEPENDENCY_CHANGE'' \<in> set (map (\<lambda>v. upper (py_str v)) task_classes))
         (ControlError ''dependency delta requires DEPENDENCY_CHANGE classification''),
       guard (is_dict delta) (ControlError ''dependency delta must be an object''),
       guard (\<forall>f \<in> set [''name'', ''scope'', ''reason'']. is_text (dget delta f)) (ControlError ''dependency field must be non-empty''),
       guard (str_in (dget delta ''scope'') [''development'', ''production'', ''build''])
         (ControlError ''dependency scope must distinguish development/production/build''),
       guard (is_bool (dget delta ''direct'')) (ControlError ''dependency direct/transitive status must be explicit''),
       guard (dget delta ''lifecycle_scripts_assessed'' = PyBool True) (ControlError ''dependency lifecycle/build scripts must be assessed''),
       guard (is_list (dget delta ''transitive_impact'') \<and> (\<forall>x \<in> set (items (dget delta ''transitive_impact'')). is_str x))
         (ControlError ''dependency transitive impact must be an array''),
       guard (is_list (dget delta ''lockfiles'') \<and> (\<forall>x \<in> set (items (dget delta ''lockfiles'')). is_str x))
         (ControlError ''dependency lockfile delta must be explicit'')]) (\<lambda>_.
    Inr (PyDict [(''ok'', PyBool True), (''name'', dget delta ''name''), (''scope'', dget delta ''scope''), (''direct'', dget delta ''direct''),
      (''lockfile_count'', PyInt (int (length (items (dget delta ''lockfiles'')))))]))"

section \<open>Properties\<close>

text \<open>What stands behind a valid waiver.\<close>

definition waiver_backed :: "pyval \<Rightarrow> pyval \<Rightarrow> pyval \<Rightarrow> pyval \<Rightarrow> bool" where
  "waiver_backed gate records task_id epoch \<longleftrightarrow> dget gate ''gate_severity'' = PyStr ''REQUIRED''
     \<and> is_text (dget gate ''waiver_reason'')
     \<and> (\<exists>i. dget gate ''waiver_evidence'' = PyStr i \<and> startswith i ''E-''
         \<and> dget (dget records i) ''id'' = PyStr i \<and> dget (dget records i) ''provenance'' = PyStr ''external-source''
         \<and> py_eq (dget (dget records i) ''task_id'') task_id \<and> py_eq (dget (dget records i) ''change_epoch'') epoch
         \<and> py_in (dget gate ''id'') (dget_or (dget (dget records i) ''details'') ''gate_ids'' (PyList [])) = Inr True
         \<and> trusted_authority (dget (dget (dget records i) ''details'') ''waiver_authority'') = Inr True)"

lemma validate_gate_waiverD:
  assumes "validate_gate_waiver gate records task_id epoch = Inr True"
  shows "waiver_backed gate records task_id epoch"
proof -
  have c: "dget gate ''gate_severity'' = PyStr ''REQUIRED''" "is_text (dget gate ''waiver_reason'')" "str_startswith (dget gate ''waiver_evidence'') ''E-''"
    using assms by (simp_all add: validate_gate_waiver_def split: if_splits)
  then obtain i where i: "dget gate ''waiver_evidence'' = PyStr i" "startswith i ''E-''"
    by (cases "dget gate ''waiver_evidence''") (simp_all add: str_startswith_def)
  have "dget (dget records i) ''id'' = PyStr i" "dget (dget records i) ''provenance'' = PyStr ''external-source''"
    "py_eq (dget (dget records i) ''task_id'') task_id" "py_eq (dget (dget records i) ''change_epoch'') epoch"
    "py_in (dget gate ''id'') (dget_or (dget (dget records i) ''details'') ''gate_ids'' (PyList [])) = Inr True"
    "trusted_authority (dget (dget (dget records i) ''details'') ''waiver_authority'') = Inr True"
    using assms i by (simp_all add: validate_gate_waiver_def Let_def res_bind_Inr split: if_splits)
  then show ?thesis unfolding waiver_backed_def using c i by blast
qed

text \<open>A decision record covers a category; every dimension that grew is covered.\<close>

definition adr_covered :: "pyval \<Rightarrow> pyval \<Rightarrow> bool" where
  "adr_covered delta ds \<longleftrightarrow> (\<forall>(k, n) \<in> set (entries delta). n \<noteq> PyInt 0 \<longrightarrow> (\<exists>d \<in> set (items ds). dget d ''category'' = PyStr k))"

lemma nonneg_truthy: "is_nonneg_int n \<Longrightarrow> truthy n \<longleftrightarrow> n \<noteq> PyInt 0"
  by (cases n) auto

lemma missing_Nil:
  assumes "\<forall>kv \<in> set (entries delta). is_nonneg_int (snd kv)"
  shows "filter (\<lambda>(k, n). truthy n \<and> PyStr k \<notin> set (map (\<lambda>d. dget d ''category'') (items ds))) (entries delta) = [] \<longleftrightarrow> adr_covered delta ds"
proof -
  have "(\<not> (truthy n \<and> PyStr k \<notin> set (map (\<lambda>d. dget d ''category'') (items ds))))
      \<longleftrightarrow> (n \<noteq> PyInt 0 \<longrightarrow> (\<exists>d \<in> set (items ds). dget d ''category'' = PyStr k))" if "(k, n) \<in> set (entries delta)" for k n
    using nonneg_truthy [of n] assms that by force
  then show ?thesis unfolding filter_empty_conv adr_covered_def by fast
qed

text \<open>
  architectural growth needs decision records. The check succeeds iff the delta is an object of
  non-negative counts over the known dimensions, every supplied record is complete, and each
  dimension with a positive count has a record of its category.
\<close>

theorem architectural_decisions_cover:
  "is_ok (require_architectural_decisions delta ds) =
    (is_dict delta \<and> is_list ds \<and> (\<forall>k. has_key delta k \<longrightarrow> k \<in> set SEMANTIC_DIMENSIONS)
     \<and> (\<forall>d \<in> set (items ds). validate_adr d = Inr ()) \<and> (\<forall>kv \<in> set (entries delta). is_nonneg_int (snd kv)) \<and> adr_covered delta ds)"
proof -
  let ?pre = "is_dict delta \<and> is_list ds \<and> (\<forall>k. has_key delta k \<longrightarrow> k \<in> set SEMANTIC_DIMENSIONS)
     \<and> (\<forall>d \<in> set (items ds). validate_adr d = Inr ()) \<and> (\<forall>kv \<in> set (entries delta). is_nonneg_int (snd kv))"
  let ?checks = "check_all
      [guard (is_dict delta \<and> is_list ds) (ControlError ''semantic delta and decisions must be structured''),
       guard (\<forall>k \<in> set (map fst (entries delta)). k \<in> set SEMANTIC_DIMENSIONS) (ControlError ''unknown semantic dimensions''),
       for_each validate_adr (items ds), for_each check_count (entries delta)]"
  have pre: "?checks = Inr () \<longleftrightarrow> ?pre"
    unfolding check_all_Inr for_each_Inr guard_Inr check_count_def by (simp add: has_key_def) blast
  show ?thesis
  proof (cases ?pre)
    case True
    then have c: "?checks = Inr ()" using pre by blast
    show ?thesis
      unfolding require_architectural_decisions_def c res_bind_simps Let_def
      using missing_Nil [of delta ds] True by (cases "adr_covered delta ds") simp_all
  next
    case False
    then obtain e where "?checks = Inl e" using pre by (cases ?checks) auto
    then show ?thesis unfolding require_architectural_decisions_def using False by simp blast
  qed
qed

definition sample_adr :: pyval where
  "sample_adr = PyDict [(''id'', PyStr ''ADR-1''), (''category'', PyStr ''dependencies''), (''decision'', PyStr ''add''),
     (''alternatives'', PyList [PyStr ''none'']), (''reason'', PyStr ''needed''), (''coupling'', PyList [PyStr ''low'']),
     (''evidence'', PyList [PyStr ''E-1'']), (''risks'', PyList [PyStr ''drift'']), (''compatibility_impact'', PyStr ''none'')]"

lemma sample_adr_ok: "validate_adr sample_adr = Inr ()"
  by code_simp

theorem architectural_decisions_cover_witness:
  "is_ok (require_architectural_decisions (PyDict [(''dependencies'', PyInt 2), (''public_apis'', PyInt 0)]) (PyList [sample_adr]))
   \<and> \<not> is_ok (require_architectural_decisions (PyDict [(''dependencies'', PyInt 2), (''public_apis'', PyInt 1)]) (PyList [sample_adr]))"
  unfolding architectural_decisions_cover adr_covered_def
  by (simp add: sample_adr_ok has_key_def SEMANTIC_DIMENSIONS_def sample_adr_def [THEN arg_cong [of _ _ "\<lambda>d. dget d ''category''"]])

end
