(* ===== verification/Redaction.thy ===== *)
theory Redaction
  imports Py_Value
begin

text \<open>
  The redaction of secrets in \<open>agentinfra/security.py\<close> (\<open>SECRET_NAME\<close>, \<open>SECRET_VALUE_PATTERNS\<close>,
  \<open>redact_text\<close>, \<open>redact_mapping\<close>, \<open>minimal_subprocess_env\<close>) and of evidence details in
  \<open>agentinfra/evidence.py\<close> (\<open>_redact\<close>, \<open>_redact_argv\<close>). Each regular expression is a matcher that
  returns the rest of the text after a match at its beginning; a substitution scans from left to
  right and goes on after the replaced text, as \<open>Pattern.sub\<close> does.
\<close>

section \<open>Character classes and words\<close>

text \<open>\<open>\w\<close> on the characters below 256.\<close>

definition is_word :: "char \<Rightarrow> bool" where
  "is_word c \<longleftrightarrow> is_alnum c \<or> c = CHR ''_''
     \<or> (let n = of_char c :: nat in n \<in> {170, 178, 179, 181, 185, 186, 188, 189, 190} \<or> (192 \<le> n \<and> n \<noteq> 215 \<and> n \<noteq> 247))"

text \<open>\<open>\b\<close> between the preceding character (if any) and the rest.\<close>

definition boundary :: "char option \<Rightarrow> string \<Rightarrow> bool" where
  "boundary prev rest \<longleftrightarrow> (case prev of None \<Rightarrow> False | Some c \<Rightarrow> is_word c) \<noteq> (case rest of [] \<Rightarrow> False | c # _ \<Rightarrow> is_word c)"

text \<open>A word at the beginning of a text, up to case, and the rest after it.\<close>

definition eat :: "string \<Rightarrow> string \<Rightarrow> string option" where
  "eat word s = (if startswith (casefold (take (length word) s)) word then Some (drop (length word) s) else None)"

definition eat_any :: "string list \<Rightarrow> string \<Rightarrow> string list" where
  "eat_any ws s = concat (map (\<lambda>w. case eat w s of None \<Rightarrow> [] | Some r \<Rightarrow> [r]) ws)"

definition value_words :: "string list" where
  "value_words = [''api_key'', ''api-key'', ''apikey'', ''token'', ''secret'', ''password'', ''passwd'']"

definition name_words :: "string list" where
  "name_words = value_words @ [''private_key'', ''private-key'', ''privatekey'', ''credential'']"

text \<open>\<open>SECRET_NAME.search\<close>: a word of the list between the ends of the name or underscores (\<open>$\<close> also holds before a final newline).\<close>

definition name_end :: "string \<Rightarrow> bool" where
  "name_end r \<longleftrightarrow> r = [] \<or> r = [CHR 0x0A] \<or> hd r = CHR ''_''"

fun secret_from :: "bool \<Rightarrow> string \<Rightarrow> bool" where
  "secret_from start [] = False"
| "secret_from start (c # s) = ((start \<and> (\<exists>r \<in> set (eat_any name_words (c # s)). name_end r)) \<or> secret_from (c = CHR ''_'') s)"

definition secret_name :: "string \<Rightarrow> bool" where
  "secret_name s = secret_from True s"

section \<open>The value patterns\<close>

definition mark :: string where "mark = ''[REDACTED]''"

text \<open>\<open>(\b(?:...)\b\s*[:=]\s*)([^\s,;]+)\<close>: the text kept and the rest.\<close>

definition value_char :: "char \<Rightarrow> bool" where
  "value_char c \<longleftrightarrow> \<not> is_space c \<and> c \<noteq> CHR '','' \<and> c \<noteq> CHR '';''"

definition match_assignment :: "char option \<Rightarrow> string \<Rightarrow> (string \<times> string) option" where
  "match_assignment prev s = (if \<not> boundary prev s then None
     else (case filter (\<lambda>r. boundary (Some (CHR ''a'')) r
            \<and> (case dropWhile is_space r of [] \<Rightarrow> False | c # t \<Rightarrow> c \<in> set '':='' \<and> (case dropWhile is_space t of [] \<Rightarrow> False | d # u \<Rightarrow> value_char d)))
          (eat_any value_words s) of
        [] \<Rightarrow> None
      | r # _ \<Rightarrow> let v = dropWhile is_space (tl (dropWhile is_space r))
          in Some (take (length s - length v) s @ mark, dropWhile value_char v)))"

text \<open>\<open>\bsk-[A-Za-z0-9_-]{12,}\b\<close>: the longest run that ends at a boundary.\<close>

definition key_char :: "char \<Rightarrow> bool" where
  "key_char c \<longleftrightarrow> is_alnum c \<or> c = CHR ''_'' \<or> c = CHR ''-''"

definition match_key :: "char option \<Rightarrow> string \<Rightarrow> (string \<times> string) option" where
  "match_key prev s = (if \<not> boundary prev s \<or> \<not> startswith s ''sk-'' then None
     else let t = drop 3 s; n = length (takeWhile key_char t) in
       (case filter (\<lambda>m. 12 \<le> m \<and> boundary (Some (t ! (m - 1))) (drop m t)) (rev [0..<Suc n]) of
          [] \<Rightarrow> None | m # _ \<Rightarrow> Some (mark, drop m t)))"

text \<open>\<open>-----BEGIN [A-Z ]*PRIVATE KEY-----.*?-----END [A-Z ]*PRIVATE KEY-----\<close>.\<close>

definition pem_char :: "char \<Rightarrow> bool" where
  "pem_char c \<longleftrightarrow> is_upper c \<or> c = CHR '' ''"

definition pem_line :: "string \<Rightarrow> string \<Rightarrow> string option" where
  "pem_line opening s = (if \<not> startswith s opening then None
     else let t = drop (length opening) s; run = takeWhile pem_char t; rest = dropWhile pem_char t in
       if startswith (rev run) (rev ''PRIVATE KEY'') \<and> startswith rest ''-----'' then Some (drop 5 rest) else None)"

fun pem_end :: "string \<Rightarrow> string option" where
  "pem_end [] = None"
| "pem_end (c # s) = (case pem_line ''-----END '' (c # s) of None \<Rightarrow> pem_end s | Some r \<Rightarrow> Some r)"

definition match_pem :: "char option \<Rightarrow> string \<Rightarrow> (string \<times> string) option" where
  "match_pem prev s = (case pem_line ''-----BEGIN '' s of None \<Rightarrow> None
     | Some t \<Rightarrow> (case pem_end t of None \<Rightarrow> None | Some r \<Rightarrow> Some (mark, r)))"

text \<open>\<open>pattern.sub\<close>: fuel is the length of the text, of which every step consumes a character.\<close>

fun sub_fuel :: "nat \<Rightarrow> (char option \<Rightarrow> string \<Rightarrow> (string \<times> string) option) \<Rightarrow> char option \<Rightarrow> string \<Rightarrow> string" where
  "sub_fuel 0 m prev s = s"
| "sub_fuel (Suc n) m prev [] = []"
| "sub_fuel (Suc n) m prev (c # s) = (case m prev (c # s) of
      None \<Rightarrow> c # sub_fuel n m (Some c) s
    | Some (out, r) \<Rightarrow> out @ sub_fuel n m (Some ((c # s) ! (length (c # s) - length r - 1))) r)"

definition sub_all :: "(char option \<Rightarrow> string \<Rightarrow> (string \<times> string) option) \<Rightarrow> string \<Rightarrow> string" where
  "sub_all m s = sub_fuel (length s) m None s"

definition redact_text :: "string \<Rightarrow> string" where
  "redact_text s = sub_all match_pem (sub_all match_key (sub_all match_assignment s))"

definition redact_item :: "string \<Rightarrow> pyval \<Rightarrow> pyval" where
  "redact_item key value = (if secret_name key then PyStr mark
     else case value of PyStr s \<Rightarrow> PyStr (redact_text s) | _ \<Rightarrow> value)"

definition redact_mapping :: "dict \<Rightarrow> dict" where
  "redact_mapping kvs = map (\<lambda>(k, v). (k, redact_item k v)) kvs"

text \<open>\<open>_redact\<close> of \<open>evidence.py\<close>: it goes into what \<open>redact_mapping\<close> returned, so a string item of a mapping is redacted twice.\<close>

primrec redact :: "pyval \<Rightarrow> pyval" where
  "redact PyNone = PyNone"
| "redact (PyBool b) = PyBool b"
| "redact (PyInt n) = PyInt n"
| "redact (PyStr s) = PyStr (redact_text s)"
| "redact (PyList xs) = PyList (map redact xs)"
| "redact (PyDict kvs) = PyDict (map (\<lambda>(k, v, w). (k, if secret_name k then PyStr (redact_text mark)
      else case v of PyStr s \<Rightarrow> PyStr (redact_text (redact_text s)) | _ \<Rightarrow> w))
    (map (map_prod id (\<lambda>v. (v, redact v))) kvs))"

section \<open>Argument vectors and environments\<close>

definition lstrip_dash :: "string \<Rightarrow> string" where
  "lstrip_dash s = dropWhile (\<lambda>c. c = CHR ''-'') s"

fun redact_argv_from :: "bool \<Rightarrow> string list \<Rightarrow> string list" where
  "redact_argv_from redact_next [] = []"
| "redact_argv_from redact_next (v # vs) =
     (if redact_next then mark # redact_argv_from False vs
      else let key = takeWhile (\<lambda>c. c \<noteq> CHR ''='') v in
        if CHR ''='' \<in> set v \<and> secret_name (lstrip_dash key) then (key @ ''='' @ mark) # redact_argv_from False vs
        else redact_text v # redact_argv_from (startswith v ''-'' \<and> secret_name (lstrip_dash v)) vs)"

definition redact_argv :: "string list \<Rightarrow> string list" where
  "redact_argv vs = redact_argv_from False vs"

section \<open>What redaction guarantees\<close>

text \<open>The keys of every mapping stay; under a secret name nothing but the mark is left, at every depth.\<close>

primrec no_secrets :: "pyval \<Rightarrow> bool" where
  "no_secrets PyNone = True"
| "no_secrets (PyBool b) = True"
| "no_secrets (PyInt n) = True"
| "no_secrets (PyStr s) = True"
| "no_secrets (PyList xs) = list_all id (map no_secrets xs)"
| "no_secrets (PyDict kvs) = list_all (\<lambda>(k, v, b). b \<and> (secret_name k \<longrightarrow> v = PyStr mark)) (map (map_prod id (\<lambda>v. (v, no_secrets v))) kvs)"

lemma redact_text_mark [simp]: "redact_text mark = mark"
  by code_simp

definition redact_entry :: "string \<times> pyval \<Rightarrow> string \<times> pyval" where
  "redact_entry kv = (fst kv, if secret_name (fst kv) then PyStr mark
     else case snd kv of PyStr s \<Rightarrow> PyStr (redact_text (redact_text s)) | _ \<Rightarrow> redact (snd kv))"

lemma redact_dict: "redact (PyDict kvs) = PyDict (map redact_entry kvs)"
  by (auto simp: redact_entry_def split: pyval.splits)

lemma fst_redact_entry [simp]: "fst (redact_entry kv) = fst kv"
  by (simp add: redact_entry_def)

lemma no_secrets_dict: "no_secrets (PyDict kvs) \<longleftrightarrow> (\<forall>(k, v) \<in> set kvs. no_secrets v \<and> (secret_name k \<longrightarrow> v = PyStr mark))"
  by (auto simp: list_all_iff)

text \<open>
  redaction reaches every depth. In redacted evidence details every mapping entry whose name
  looks like a secret holds the mark alone, however deeply it is nested, and the names of the
  entries are unchanged.
\<close>

theorem redact_hides: "no_secrets (redact v) \<and> map fst (entries (redact v)) = map fst (entries v)"
proof -
  have "no_secrets (redact v)"
  proof (induction v)
    case (PyDict kvs)
    have "no_secrets (snd (redact_entry kv)) \<and> (secret_name (fst kv) \<longrightarrow> snd (redact_entry kv) = PyStr mark)" if "kv \<in> set kvs" for kv
      using PyDict.IH [of kv "snd kv"] that by (cases kv) (auto simp: redact_entry_def snds.simps split: pyval.splits)
    then show ?case unfolding redact_dict no_secrets_dict by (auto simp: redact_entry_def split: prod.splits)
  qed (auto simp: list_all_iff)
  then show ?thesis by (cases v) (auto simp: redact_dict simp del: redact.simps(6))
qed

lemma wf_redact: "wf_val v \<Longrightarrow> wf_val (redact v)"
proof (induction v)
  case (PyDict kvs)
  have "wf_val (snd (redact_entry kv))" if "kv \<in> set kvs" for kv
    using PyDict.IH [of kv "snd kv"] that PyDict.prems unfolding wf_dict
    by (cases kv) (auto simp: redact_entry_def snds.simps split: pyval.splits)
  then have "\<forall>kv \<in> set (map redact_entry kvs). wf_val (snd kv)" by auto
  moreover have "distinct (map fst (map redact_entry kvs))" using PyDict.prems unfolding wf_dict by (simp add: comp_def)
  ultimately show ?case unfolding redact_dict wf_dict by auto
qed (auto simp: list_all_iff)

text \<open>An argument after a secret option, and the value of a secret assignment, never reach the record.\<close>

lemma redact_argv_length: "length (redact_argv vs) = length vs"
proof -
  have "length (redact_argv_from b vs) = length vs" for b by (induction b vs rule: redact_argv_from.induct) (auto simp: Let_def)
  then show ?thesis by (simp add: redact_argv_def)
qed

section \<open>The environment of a subprocess\<close>

type_synonym env = "(string \<times> string) list"

text \<open>\<open>TEST_DETECTION_NAME.search\<close>: one of these words anywhere in the name, up to case.\<close>

definition test_detection_words :: "string list" where
  "test_detection_words = [''pytest'', ''unittest'', ''test_current'', ''test_name'', ''law_name'', ''expected_test'', ''expected_law'', ''test_expected'', ''law_expected'']"

definition test_detection_name :: "string \<Rightarrow> bool" where
  "test_detection_name s = list_ex (contains (casefold s)) test_detection_words"

definition ENV_ALLOW :: "string list" where
  "ENV_ALLOW = [''PATH'', ''PATHEXT'', ''SYSTEMROOT'', ''WINDIR'', ''COMSPEC'', ''TEMP'', ''TMP'', ''TMPDIR'', ''LANG'', ''LC_ALL'', ''PYTHONHOME'', ''PYTHONPATH'', ''VIRTUAL_ENV'']"

fun add_extra :: "env \<Rightarrow> env \<Rightarrow> env res" where
  "add_extra e [] = Inr e"
| "add_extra e ((key, val) # extra) =
    (if secret_name key then Inl (SecurityError ''refusing to propagate secret-like environment variable'')
     else if test_detection_name key then add_extra e extra
     else add_extra (AList.update key val e) extra)"

definition minimal_subprocess_env :: "env \<Rightarrow> env \<Rightarrow> env res" where
  "minimal_subprocess_env environ extra =
    res_bind (add_extra (filter (\<lambda>(key, val). upper key \<in> set ENV_ALLOW \<and> \<not> secret_name key) environ) extra) (\<lambda>e.
    Inr (AList.delete ''UNITTEST_CURRENT_TEST'' (AList.delete ''PYTEST_CURRENT_TEST''
      (AList.update ''PYTHONIOENCODING'' ''utf-8'' (AList.update ''PYTHONUTF8'' ''1'' (AList.update ''PYTHONDONTWRITEBYTECODE'' ''1'' e))))))"

lemma update_keys: "fst ` set (AList.update k v e) = insert k (fst ` set e)"
  by (induction e) auto

lemma delete_key_set: "fst ` set (AList.delete k e) = fst ` set e - {k}"
  by (induction e) auto

lemma add_extra_keys:
  assumes "add_extra e extra = Inr e'" and "k \<in> fst ` set e'"
  shows "k \<in> fst ` set e \<or> (k \<in> fst ` set extra \<and> \<not> secret_name k \<and> \<not> test_detection_name k)"
  using assms
proof (induction e extra rule: add_extra.induct)
  case (2 e key val extra)
  then show ?case by (auto simp: update_keys split: if_splits)
qed simp

lemma env_keys:
  "k \<in> fst ` set (AList.delete u (AList.delete p (AList.update a x (AList.update b y (AList.update c z e)))))
     \<longleftrightarrow> k \<noteq> u \<and> k \<noteq> p \<and> (k \<in> set [a, b, c] \<or> k \<in> fst ` set e)"
  unfolding delete_key_set update_keys by auto

definition PYTHON_SETTINGS :: "string list" where
  "PYTHON_SETTINGS = [''PYTHONIOENCODING'', ''PYTHONUTF8'', ''PYTHONDONTWRITEBYTECODE'']"

text \<open>
  A subprocess gets no variable with a secret name, none that tells it which test runs, and from the surrounding
  process only the names of the list; the three settings of Python are always made.
\<close>
lemma minimal_env_clean:
  assumes "minimal_subprocess_env environ extra = Inr e" and "k \<in> fst ` set e"
  shows "\<not> secret_name k" and "k \<noteq> ''PYTEST_CURRENT_TEST''" and "k \<noteq> ''UNITTEST_CURRENT_TEST''"
    and "upper k \<in> set ENV_ALLOW \<or> k \<in> set PYTHON_SETTINGS \<or> (k \<in> fst ` set extra \<and> \<not> test_detection_name k)"
proof -
  let ?f = "filter (\<lambda>(key, val). upper key \<in> set ENV_ALLOW \<and> \<not> secret_name key) environ"
  obtain e0 where e0: "add_extra ?f extra = Inr e0"
    and e: "e = AList.delete ''UNITTEST_CURRENT_TEST'' (AList.delete ''PYTEST_CURRENT_TEST''
      (AList.update ''PYTHONIOENCODING'' ''utf-8'' (AList.update ''PYTHONUTF8'' ''1'' (AList.update ''PYTHONDONTWRITEBYTECODE'' ''1'' e0))))"
    using assms(1) unfolding minimal_subprocess_env_def res_bind_Inr sum.inject by blast
  have f: "upper x \<in> set ENV_ALLOW \<and> \<not> secret_name x" if "x \<in> fst ` set ?f" for x using that by auto
  have k: "k \<noteq> ''UNITTEST_CURRENT_TEST'' \<and> k \<noteq> ''PYTEST_CURRENT_TEST'' \<and> (k \<in> set PYTHON_SETTINGS \<or> k \<in> fst ` set e0)"
    using assms(2) unfolding e env_keys PYTHON_SETTINGS_def .
  show "k \<noteq> ''PYTEST_CURRENT_TEST''" by (rule conjunct1 [OF conjunct2 [OF k]])
  show "k \<noteq> ''UNITTEST_CURRENT_TEST''" by (rule conjunct1 [OF k])
  have p: "list_all (\<lambda>s. \<not> secret_name s) PYTHON_SETTINGS" by code_simp
  have x: "k \<in> fst ` set e0 \<Longrightarrow> k \<in> fst ` set ?f \<or> (k \<in> fst ` set extra \<and> \<not> secret_name k \<and> \<not> test_detection_name k)" by (rule add_extra_keys [OF e0])
  note k' = conjunct2 [OF conjunct2 [OF k]]
  show "\<not> secret_name k" using k' p x f unfolding list_all_iff by blast
  show "upper k \<in> set ENV_ALLOW \<or> k \<in> set PYTHON_SETTINGS \<or> (k \<in> fst ` set extra \<and> \<not> test_detection_name k)"
    using k' x f by blast
qed

end
