(* ===== verification/Evidence.thy ===== *)
theory Evidence
  imports Sealing Redaction
begin

text \<open>
  \<open>agentinfra/evidence.py\<close>: the append-only evidence ledger of a task (\<open>evidence.jsonl\<close>, one
  canonical JSON record per line, each sealed and chained to the one before) and its durable head
  anchor (\<open>evidence-head.json\<close>). The ledger is modelled as its bytes, so that torn writes, blank
  lines and the backward block scan of \<open>_tail_record\<close> are what they are in the code; the anchor and
  the task state, which the code writes atomically, are decoded JSON documents. The clock and the
  random identifier are arguments; the ledger lock makes each operation one step.
\<close>

section \<open>Files\<close>

text \<open>A JSON file: absent, not parsable, or its value.\<close>

datatype jfile = Missing | Garbled | Doc pyval

text \<open>The directory of a task as \<open>evidence.py\<close> sees it.\<close>

record evidence_dir =
  ev_task :: string
  ev_ledger :: "string option"
  ev_head :: jfile
  ev_state :: jfile
  ev_redirected :: bool

text \<open>What \<open>atomic_write_json\<close> leaves in a file, read back.\<close>

definition stored :: "pyval \<Rightarrow> jfile" where
  "stored v = Doc (canon v)"

definition newline :: char where "newline = CHR 0x0A"

text \<open>\<open>bytes.splitlines()\<close> and \<open>not line.strip()\<close> on bytes.\<close>

fun py_lines :: "string \<Rightarrow> string list" where
  "py_lines [] = []"
| "py_lines (c # s) =
     (if c = newline then [] # py_lines s
      else if c = CHR 0x0D then (case s of d # t \<Rightarrow> if d = newline then [] # py_lines t else [] # py_lines s | [] \<Rightarrow> [[]])
      else (case py_lines s of [] \<Rightarrow> [[c]] | l # ls \<Rightarrow> (c # l) # ls))"

definition bytes_blank :: "string \<Rightarrow> bool" where
  "bytes_blank s \<longleftrightarrow> (\<forall>c \<in> set s. let n = of_char c :: nat in n = 32 \<or> (9 \<le> n \<and> n \<le> 13))"

definition truncated_tail :: "string \<Rightarrow> bool" where
  "truncated_tail raw \<longleftrightarrow> raw \<noteq> [] \<and> last raw \<noteq> newline"

section \<open>Records and anchors\<close>

definition EVIDENCE_KINDS :: "string list" where
  "EVIDENCE_KINDS = [''baseline-test'', ''command'', ''verification-command'', ''observation'', ''external-source'', ''decision'',
     ''recovery'', ''mutation'', ''audit'', ''test'']"

definition PROVENANCE_TYPES :: "string list" where
  "PROVENANCE_TYPES = [''manual'', ''framework-command'', ''verified-observation'', ''external-source'']"

definition terminal_task_states :: "string list" where
  "terminal_task_states = [''FAILED'', ''FINALIZE'', ''CANCELLED'', ''ABANDONED'']"

definition record_digest :: "pyval \<Rightarrow> string" where
  "record_digest r = sha256 (canonical (dpop r ''record_sha256''))"

definition anchor_digest :: "pyval \<Rightarrow> string" where
  "anchor_digest a = sha256 (canonical (dpop a ''anchor_sha256''))"

interpretation record_seal: sealed_record "''record_sha256''" record_digest
  by unfold_locales (simp add: record_digest_def digest_without_def)

interpretation anchor_seal: sealed_record "''anchor_sha256''" anchor_digest
  by unfold_locales (simp add: anchor_digest_def digest_without_def)

definition record_required :: "string list" where
  "record_required = [''id'', ''at'', ''kind'', ''summary'', ''details'', ''previous_sha256'']"

definition validate_record_v2 :: "pyval \<Rightarrow> string \<Rightarrow> nat \<Rightarrow> unit res" where
  "validate_record_v2 r task_id sequence = check_all
     [guard (py_eq (dget r ''schema'') (PyInt 2)) (RuntimeErr ''evidence schema failure: unsupported schema''),
      guard (dget r ''task_id'' = PyStr task_id) (RuntimeErr ''evidence task mismatch''),
      guard (py_eq (dget r ''sequence'') (PyInt (int sequence))) (RuntimeErr ''evidence sequence failure''),
      memb (dget r ''kind'') EVIDENCE_KINDS (RuntimeErr ''evidence schema failure: invalid kind''),
      memb (dget r ''provenance'') PROVENANCE_TYPES (RuntimeErr ''evidence schema failure: invalid provenance''),
      guard (is_nonneg_int (dget r ''change_epoch'')) (RuntimeErr ''evidence schema failure: invalid epoch'')]"

definition validate_record :: "pyval \<Rightarrow> string \<Rightarrow> pyval \<Rightarrow> nat \<Rightarrow> unit res" where
  "validate_record r task_id previous sequence = check_all
     [guard (is_dict r) (RuntimeErr ''evidence schema failure: record is not an object''),
      guard (dget r ''record_sha256'' = PyStr (record_digest r)) (RuntimeErr ''evidence integrity failure''),
      guard (py_eq (dget r ''previous_sha256'') previous) (RuntimeErr ''evidence chain failure''),
      guard (\<forall>k \<in> set record_required. has_key r k) (RuntimeErr ''evidence schema failure: missing fields''),
      guard (str_startswith (dget r ''id'') ''E-'') (RuntimeErr ''evidence schema failure: invalid id''),
      guard (is_text (dget r ''summary'')) (RuntimeErr ''evidence schema failure: empty summary''),
      guard (is_dict (dget r ''details'')) (RuntimeErr ''evidence schema failure: details is not an object''),
      whenever (\<not> py_eq (dget_or r ''schema'' (PyInt 1)) (PyInt 1)) (validate_record_v2 r task_id sequence)]"

definition load_anchor :: "evidence_dir \<Rightarrow> pyval option res" where
  "load_anchor d = (case ev_head d of
      Missing \<Rightarrow> Inr None
    | Garbled \<Rightarrow> Inl (RuntimeErr ''invalid evidence anchor'')
    | Doc a \<Rightarrow> if is_dict a \<and> py_eq (dget a ''schema'') (PyInt 1) \<and> dget a ''task_id'' = PyStr (ev_task d)
          \<and> dget a ''anchor_sha256'' = PyStr (anchor_digest a) then Inr (Some a)
        else Inl (RuntimeErr ''evidence anchor integrity failure''))"

section \<open>Loading\<close>

text \<open>The loop over the lines: its state is the line number, the previous digest and the identifiers seen.\<close>

fun load_records :: "bool \<Rightarrow> string \<Rightarrow> nat \<Rightarrow> pyval \<Rightarrow> pyval list \<Rightarrow> string list \<Rightarrow> (pyval list \<times> pyval) res" where
  "load_records verify task line_no previous ids [] = Inr ([], previous)"
| "load_records verify task line_no previous ids (line # lines) =
     (if bytes_blank line then Inl (RuntimeErr ''evidence schema failure: blank records are forbidden'')
      else (case json_loads line of
         None \<Rightarrow> Inl (RuntimeErr ''evidence JSON failure'')
       | Some record \<Rightarrow>
          res_bind (whenever verify (validate_record record task previous line_no)) (\<lambda>_.
          res_bind (attr_dict record) (\<lambda>_.
          if unhashable (dget record ''id'') then Inl TypeErr
          else if \<exists>i \<in> set ids. py_eq (dget record ''id'') i then Inl (RuntimeErr ''duplicate evidence id'')
          else res_bind (load_records verify task (Suc line_no) (dget record ''record_sha256'') (dget record ''id'' # ids) lines) (\<lambda>(rs, p).
            Inr (record # rs, p))))))"

definition load_evidence :: "evidence_dir \<Rightarrow> bool \<Rightarrow> pyval list res" where
  "load_evidence d verify = (case ev_ledger d of
      None \<Rightarrow> res_bind (load_anchor d) (\<lambda>anchor. (case anchor of
          None \<Rightarrow> Inr []
        | Some a \<Rightarrow> if truthy (dget a ''count'') then Inl (RuntimeErr ''evidence anchor references missing ledger'') else Inr []))
    | Some raw \<Rightarrow>
        if truncated_tail raw then Inl (RuntimeErr ''evidence ledger has a truncated tail'')
        else res_bind (load_records verify (ev_task d) 1 PyNone [] (py_lines raw)) (\<lambda>(rs, previous).
          if \<not> verify then Inr rs
          else res_bind (load_anchor d) (\<lambda>anchor. (case anchor of
              None \<Rightarrow> Inr rs
            | Some a \<Rightarrow> if \<not> py_eq (dget a ''count'') (PyInt (int (length rs))) \<or> \<not> py_eq (dget a ''head_sha256'') previous
                then Inl (RuntimeErr ''evidence ledger does not match task evidence anchor'') else Inr rs))))"

text \<open>
  \<open>_tail_record\<close>: the last line, found by reading blocks of 64 KiB backwards from the end. \<open>tail_scan\<close>
  is the loop; \<open>pieces\<close> are the blocks already read, in reading order.
\<close>

definition rfind_newline :: "string \<Rightarrow> nat option" where
  "rfind_newline block = List.find (\<lambda>i. block ! i = newline) (rev [0..<length block])"

function tail_scan :: "nat \<Rightarrow> string \<Rightarrow> nat \<Rightarrow> string list \<Rightarrow> string list" where
  "tail_scan block_size raw stop pieces =
     (if stop = 0 \<or> block_size = 0 then pieces
      else let start = stop - block_size; block = take (stop - start) (drop start raw) in
        (case rfind_newline block of
           Some i \<Rightarrow> pieces @ [drop (Suc i) block]
         | None \<Rightarrow> tail_scan block_size raw start (pieces @ [block])))"
  by pat_completeness auto
termination by (relation "measure (\<lambda>(b, r, stop, p). stop)") auto

declare tail_scan.simps [simp del]

definition BLOCK :: nat where "BLOCK = 64 * 1024"

definition tail_line :: "string \<Rightarrow> string" where
  "tail_line raw = concat (rev (tail_scan BLOCK raw (length raw - 1) []))"

definition tail_record :: "evidence_dir \<Rightarrow> pyval option res" where
  "tail_record d = (case ev_ledger d of
      None \<Rightarrow> Inr None
    | Some raw \<Rightarrow> if raw = [] then Inr None
        else if last raw \<noteq> newline then Inl (RuntimeErr ''evidence ledger has a truncated tail'')
        else if bytes_blank (tail_line raw) then Inl (RuntimeErr ''evidence ledger has a blank tail record'')
        else (case json_loads (tail_line raw) of None \<Rightarrow> Inl (RuntimeErr ''evidence JSON failure at tail'') | Some v \<Rightarrow> Inr (Some v)))"

section \<open>Recovery of a stale anchor\<close>

fun recover_records :: "string \<Rightarrow> nat \<Rightarrow> pyval \<Rightarrow> string list \<Rightarrow> pyval list res" where
  "recover_records task line_no previous [] = Inr []"
| "recover_records task line_no previous (line # lines) =
     (case json_loads line of
        None \<Rightarrow> Inl (ValueErr ''evidence JSON failure'')
      | Some record \<Rightarrow> res_bind (validate_record record task previous line_no) (\<lambda>_.
          res_bind (recover_records task (Suc line_no) (dget record ''record_sha256'') lines) (\<lambda>rs. Inr (record # rs))))"

text \<open>\<open>records[i]\<close> with a possibly negative index.\<close>

definition py_index :: "pyval list \<Rightarrow> int \<Rightarrow> pyval res" where
  "py_index xs i = (let j = (if i < 0 then i + int (length xs) else i) in
     if 0 \<le> j \<and> j < int (length xs) then Inr (xs ! nat j) else Inl IndexErr)"

definition make_anchor :: "string \<Rightarrow> int \<Rightarrow> pyval \<Rightarrow> pyval \<Rightarrow> dict \<Rightarrow> pyval" where
  "make_anchor task count head revision extra = (let a = PyDict ([(''schema'', PyInt 1), (''task_id'', PyStr task), (''count'', PyInt count),
       (''head_sha256'', head), (''task_revision'', revision)] @ extra)
     in dset a ''anchor_sha256'' (PyStr (anchor_digest a)))"

definition recover_stale_anchor :: "evidence_dir \<Rightarrow> pyval \<Rightarrow> string \<Rightarrow> (pyval \<times> evidence_dir) res" where
  "recover_stale_anchor d anchor raw =
    (if truncated_tail raw then Inl (RuntimeErr ''evidence ledger has a truncated tail'')
     else res_bind (recover_records (ev_task d) 1 PyNone (py_lines raw)) (\<lambda>records.
       res_bind (py_int (dget_or anchor ''count'' (PyInt 0))) (\<lambda>count.
       if int (length records) < count then Inl (RuntimeErr ''evidence ledger was truncated behind its anchor'')
       else res_bind (if count = 0 then Inr PyNone else res_bind (py_index records (count - 1)) (\<lambda>r. Inr (dget r ''record_sha256''))) (\<lambda>anchored_head.
         if \<not> py_eq anchored_head (dget anchor ''head_sha256'')
           then Inl (RuntimeErr ''evidence history before the durable anchor was rewritten'')
         else if count = int (length records) then Inr (anchor, d)
         else let repaired = make_anchor (ev_task d) (int (length records)) (dget (last records) ''record_sha256'')
                (dget (dget (last records) ''details'') ''task_revision'') [(''recovered_append_count'', PyInt (int (length records) - count))]
           in Inr (repaired, d\<lparr>ev_head := stored repaired\<rparr>)))))"

section \<open>Appending\<close>

text \<open>The checks on the arguments, and on the task state under the lock.\<close>

definition append_arguments :: "evidence_dir \<Rightarrow> string \<Rightarrow> pyval \<Rightarrow> string \<Rightarrow> bool \<Rightarrow> string option \<Rightarrow> dict \<Rightarrow> unit res" where
  "append_arguments d kind summary provenance token task_id details = check_all
     [guard (kind \<in> set EVIDENCE_KINDS) (ValueErr ''unknown evidence kind''),
      guard (provenance \<in> set PROVENANCE_TYPES) (ValueErr ''unknown evidence provenance''),
      guard (provenance = ''manual'' \<or> token) (ValueErr ''non-manual evidence provenance can be minted only by a framework observation boundary''),
      guard (is_text summary) (ValueErr ''evidence summary must not be empty''),
      guard (case task_id of None \<Rightarrow> True | Some t \<Rightarrow> t = [] \<or> t = ev_task d) (ValueErr ''evidence task id does not match owning task directory''),
      guard (is_nonneg_int (dget_or (PyDict details) ''change_epoch'' (PyInt 0))) (ValueErr ''evidence change_epoch must be a non-negative integer'')]"

definition append_state_check :: "evidence_dir \<Rightarrow> unit res" where
  "append_state_check d = (if ev_redirected d then Inl (RuntimeErr ''evidence task state path is redirected'')
     else case ev_state d of
       Missing \<Rightarrow> Inr ()
     | Garbled \<Rightarrow> Inl (RuntimeErr ''cannot validate task state before evidence append'')
     | Doc s \<Rightarrow> check_all
         [guard (is_dict s \<and> is_str (dget s ''state'')) (RuntimeErr ''cannot validate task state before evidence append''),
          guard (\<not> str_in (dget s ''state'') terminal_task_states) (RuntimeErr ''terminal task state rejects evidence append'')])"

text \<open>The head to extend: from a full load when there is no anchor, else from the anchor, repaired when the ledger is ahead of it.\<close>

definition append_head :: "evidence_dir \<Rightarrow> (pyval \<times> int \<times> evidence_dir) res" where
  "append_head d = res_bind (load_anchor d) (\<lambda>anchor. (case anchor of
      None \<Rightarrow> res_bind (load_evidence d True) (\<lambda>existing.
        Inr (if existing = [] then PyNone else dget (last existing) ''record_sha256'', int (length existing), d))
    | Some a \<Rightarrow> res_bind (tail_record d) (\<lambda>tail.
        res_bind (if py_eq (dget a ''count'') (PyInt 0) then
            (if tail \<noteq> None then Inl (RuntimeErr ''evidence anchor/ledger count mismatch'') else Inr (a, d))
          else (case tail of
              None \<Rightarrow> Inl (RuntimeErr ''evidence ledger tail does not match anchor'')
            | Some t \<Rightarrow> if \<not> is_dict t then Inl AttributeErr
                else if \<not> py_eq (dget t ''record_sha256'') (dget a ''head_sha256'')
                  then recover_stale_anchor d a (case ev_ledger d of None \<Rightarrow> [] | Some raw \<Rightarrow> raw)
                else Inr (a, d))) (\<lambda>(a', d').
        res_bind (py_int (dget_or a' ''count'' (PyInt 0))) (\<lambda>count. Inr (dget a' ''head_sha256'', count, d'))))))"

definition make_record :: "string \<Rightarrow> string \<Rightarrow> string \<Rightarrow> int \<Rightarrow> string \<Rightarrow> string \<Rightarrow> string \<Rightarrow> pyval \<Rightarrow> dict \<Rightarrow> pyval \<Rightarrow> pyval" where
  "make_record now ident task count kind summary provenance epoch details previous =
    (let r = PyDict [(''schema'', PyInt 2), (''id'', PyStr ident), (''sequence'', PyInt (count + 1)), (''task_id'', PyStr task), (''at'', PyStr now),
       (''kind'', PyStr kind), (''summary'', PyStr (redact_text (strip summary))), (''provenance'', PyStr provenance), (''change_epoch'', epoch),
       (''details'', redact (PyDict details)), (''previous_sha256'', previous)]
     in dset r ''record_sha256'' (PyStr (record_digest r)))"

definition encode_line :: "pyval \<Rightarrow> string" where
  "encode_line r = canonical r @ [newline]"

text \<open>The two durable effects: the line in the ledger, then the anchor.\<close>

definition write_line :: "string \<Rightarrow> evidence_dir \<Rightarrow> evidence_dir" where
  "write_line bytes d = d\<lparr>ev_ledger := Some ((case ev_ledger d of None \<Rightarrow> [] | Some raw \<Rightarrow> raw) @ bytes)\<rparr>"

definition prepare_append ::
  "string \<Rightarrow> string \<Rightarrow> evidence_dir \<Rightarrow> string \<Rightarrow> pyval \<Rightarrow> string \<Rightarrow> string option \<Rightarrow> string option \<Rightarrow> bool \<Rightarrow> dict \<Rightarrow> (pyval \<times> pyval \<times> evidence_dir) res" where
  "prepare_append now fresh d kind summary provenance evidence_id task_id token details =
    res_bind (append_arguments d kind summary provenance token task_id details) (\<lambda>_.
    res_bind (append_state_check d) (\<lambda>_.
    res_bind (append_head d) (\<lambda>(previous, count, d').
    let ident = (case evidence_id of Some i \<Rightarrow> if i = [] then ''E-'' @ fresh else i | None \<Rightarrow> ''E-'' @ fresh);
        record = make_record now ident (ev_task d) count kind (py_str summary) provenance
          (dget_or (PyDict details) ''change_epoch'' (PyInt 0)) details previous;
        anchor = make_anchor (ev_task d) (count + 1) (dget record ''record_sha256'') (dget (PyDict details) ''task_revision'') []
    in Inr (record, anchor, d'))))"

definition append_evidence ::
  "string \<Rightarrow> string \<Rightarrow> evidence_dir \<Rightarrow> string \<Rightarrow> pyval \<Rightarrow> string \<Rightarrow> string option \<Rightarrow> string option \<Rightarrow> bool \<Rightarrow> dict \<Rightarrow> (pyval \<times> evidence_dir) res" where
  "append_evidence now fresh d kind summary provenance evidence_id task_id token details =
    res_bind (prepare_append now fresh d kind summary provenance evidence_id task_id token details) (\<lambda>(record, anchor, d').
    Inr (record, (write_line (encode_line record) d')\<lparr>ev_head := stored anchor\<rparr>))"

definition append_framework_evidence ::
  "string \<Rightarrow> string \<Rightarrow> evidence_dir \<Rightarrow> string \<Rightarrow> pyval \<Rightarrow> string \<Rightarrow> dict \<Rightarrow> (pyval \<times> evidence_dir) res" where
  "append_framework_evidence now fresh d kind summary provenance details =
    (if provenance \<notin> set [''framework-command'', ''verified-observation'', ''external-source'']
       then Inl (ValueErr ''framework evidence mint requires non-manual provenance'')
     else append_evidence now fresh d kind summary provenance None None True details)"

definition append_verified_observation ::
  "string \<Rightarrow> string \<Rightarrow> evidence_dir \<Rightarrow> string \<Rightarrow> pyval \<Rightarrow> dict \<Rightarrow> (pyval \<times> evidence_dir) res" where
  "append_verified_observation now fresh d kind summary details =
     append_framework_evidence now fresh d kind summary ''verified-observation'' details"

section \<open>Rolling back the last record\<close>

definition last_digest :: "pyval list \<Rightarrow> pyval" where
  "last_digest rs = (if rs = [] then PyNone else dget (last rs) ''record_sha256'')"

definition rollback_anchor :: "string \<Rightarrow> pyval list \<Rightarrow> pyval" where
  "rollback_anchor task prior = make_anchor task (int (length prior)) (last_digest prior)
     (if prior = [] then PyNone else dget (dget (last prior) ''details'') ''task_revision'') []"

text \<open>The prior anchor is written first, then the shortened ledger, then the pair is verified.\<close>

definition rollback_last_evidence :: "evidence_dir \<Rightarrow> pyval \<Rightarrow> evidence_dir res" where
  "rollback_last_evidence d record_sha256 =
    res_bind (guard (case record_sha256 of PyStr s \<Rightarrow> length s = 64 | _ \<Rightarrow> False) (ValueErr ''rollback requires a canonical evidence record digest'')) (\<lambda>_.
    res_bind (load_evidence d True) (\<lambda>records.
    if records = [] \<or> \<not> py_eq (dget (last records) ''record_sha256'') record_sha256
      then Inl (RuntimeErr ''evidence rollback target is not the verified ledger tail'')
    else let prior = butlast records in
      res_bind (load_anchor d) (\<lambda>current_anchor.
      if current_anchor = None then Inl (RuntimeErr ''evidence rollback requires a durable current anchor'')
      else let d1 = d\<lparr>ev_head := stored (rollback_anchor (ev_task d) prior)\<rparr>;
               d2 = d1\<lparr>ev_ledger := Some (concat (map encode_line prior))\<rparr>
        in res_bind (load_evidence d2 True) (\<lambda>verified.
           if length verified \<noteq> length prior \<or> \<not> py_eq (last_digest verified) (last_digest prior)
             then Inl (RuntimeErr ''evidence rollback postcondition failed'')
           else Inr d2))))"

section \<open>Command evidence\<close>

text \<open>What \<open>run_process\<close> reports; the values the record stores unchanged are kept as they are.\<close>

record process_result =
  pr_argv :: "string list"
  pr_returncode :: int
  pr_timed_out :: bool
  pr_fields :: dict

definition fingerprints_stable :: "pyval \<Rightarrow> pyval \<Rightarrow> bool" where
  "fingerprints_stable f g \<longleftrightarrow> dget f ''available'' = PyBool True \<and> dget g ''available'' = PyBool True \<and> py_eq (dget f ''sha256'') (dget g ''sha256'')"

definition command_details :: "pyval \<Rightarrow> process_result \<Rightarrow> pyval \<Rightarrow> pyval \<Rightarrow> pyval \<Rightarrow> string list \<Rightarrow> int \<Rightarrow> dict" where
  "command_details f result g change_epoch task_revision gate_ids expected_exit =
    (let stable = fingerprints_stable f g; success = (\<not> pr_timed_out result \<and> pr_returncode result = expected_exit \<and> stable) in
     [(''change_epoch'', change_epoch), (''task_revision'', task_revision),
      (''command'', PyDict ([(''argv'', PyList (map PyStr (redact_argv (pr_argv result)))), (''exit_code'', PyInt (pr_returncode result)),
         (''expected_exit'', PyInt expected_exit), (''timed_out'', PyBool (pr_timed_out result)), (''success'', PyBool success)] @ pr_fields result)),
      (''workspace'', g), (''workspace_before_sha256'', dget f ''sha256''), (''workspace_stable'', PyBool stable),
      (''gate_ids'', PyList (map PyStr (sort (remdups gate_ids))))])"

definition execute_command_evidence ::
  "string \<Rightarrow> string \<Rightarrow> evidence_dir \<Rightarrow> pyval \<Rightarrow> process_result \<Rightarrow> pyval \<Rightarrow> pyval \<Rightarrow> pyval \<Rightarrow> pyval \<Rightarrow> string list \<Rightarrow> int \<Rightarrow> (pyval \<times> evidence_dir) res" where
  "execute_command_evidence now fresh d f result g summary change_epoch task_revision gate_ids expected_exit =
     append_evidence now fresh d ''verification-command'' summary ''framework-command'' None None True
       (command_details f result g change_epoch task_revision gate_ids expected_exit)"

definition verify_evidence :: "evidence_dir \<Rightarrow> bool" where
  "verify_evidence d = is_ok (load_evidence d True)"

section \<open>Lines\<close>

lemma py_lines_append: "py_lines (a @ newline # b) = py_lines (a @ [newline]) @ py_lines b"
proof (induction a rule: py_lines.induct)
  case (2 c s)
  have ne: "py_lines (s @ newline # t) \<noteq> []" for t
    by (cases s) (auto split: list.splits)
  show ?case
  proof (cases "c = newline")
    case False
    show ?thesis
    proof (cases "c = CHR 0x0D")
      case True
      then show ?thesis using 2 False by (cases s) (auto simp: newline_def split: if_splits)
    next
      case F: False
      obtain l ls where "py_lines (s @ [newline]) = l # ls" using ne [of "[]"] by (cases "py_lines (s @ [newline])") auto
      then show ?thesis using 2 False F by (auto split: list.splits)
    qed
  qed (use 2 in simp)
qed simp

lemma printable_not_break: "printable line \<Longrightarrow> c \<in> set line \<Longrightarrow> c \<noteq> newline \<and> c \<noteq> CHR 0x0D"
  by (auto simp: printable_def newline_def)

lemma py_lines_single: "printable line \<Longrightarrow> py_lines (line @ [newline]) = [line]"
  by (induction line) (auto simp: newline_def split: list.splits)

lemma py_lines_snoc:
  assumes "raw = [] \<or> last raw = newline" and "printable line"
  shows "py_lines (raw @ line @ [newline]) = py_lines raw @ [line]"
proof (cases "raw = []")
  case False
  then obtain a where a: "raw = a @ [newline]" using assms(1) by (metis append_butlast_last_id)
  show ?thesis unfolding a using py_lines_append [of a "line @ [newline]"] py_lines_single [OF assms(2)] by simp
qed (simp add: py_lines_single assms(2))

lemma py_lines_encoded: "py_lines (concat (map encode_line rs)) = map canonical rs"
proof (induction rs)
  case (Cons r rs)
  have "py_lines (canonical r @ newline # concat (map encode_line rs)) = py_lines (canonical r @ [newline]) @ py_lines (concat (map encode_line rs))"
    by (rule py_lines_append)
  then show ?case using Cons by (simp add: encode_line_def [of r] py_lines_single printable_canonical)
qed simp

lemma py_lines_Nil: "py_lines raw = [] \<longleftrightarrow> raw = []"
  by (cases raw) (auto split: list.splits if_splits)

lemma truncated_encoded: "\<not> truncated_tail (raw @ encode_line r)"
  by (simp add: truncated_tail_def encode_line_def)

lemma truncated_concat: "\<not> truncated_tail (concat (map encode_line rs))"
proof (cases rs rule: rev_cases)
  case (snoc ys y)
  then show ?thesis using truncated_encoded [of "concat (map encode_line ys)" y] by simp
qed (simp add: truncated_tail_def)

subsection \<open>The block scan reads the last line\<close>

definition after_newline :: "string \<Rightarrow> string" where
  "after_newline s = rev (takeWhile (\<lambda>c. c \<noteq> newline) (rev s))"

lemma rfind_None: "rfind_newline block = None \<longleftrightarrow> newline \<notin> set block"
  by (auto simp: rfind_newline_def find_None_iff in_set_conv_nth)

lemma find_rev_upt:
  "List.find P (rev [0..<n]) = Some i \<Longrightarrow> i < n \<and> P i \<and> (\<forall>j < n. i < j \<longrightarrow> \<not> P j)"
proof (induction n)
  case (Suc n)
  then show ?case by (cases "P n") (auto simp: less_Suc_eq)
qed simp

lemma rfind_Some:
  assumes "rfind_newline block = Some i"
  shows "\<exists>x. block = x @ newline # drop (Suc i) block \<and> newline \<notin> set (drop (Suc i) block)"
proof -
  have i: "i < length block" "block ! i = newline" "\<forall>j < length block. i < j \<longrightarrow> block ! j \<noteq> newline"
    using find_rev_upt [OF assms [unfolded rfind_newline_def]] by auto
  have "block = take i block @ newline # drop (Suc i) block" using i(1,2) by (metis id_take_nth_drop)
  moreover have "newline \<notin> set (drop (Suc i) block)"
    using i(3) by (auto simp: in_set_conv_nth)
  ultimately show ?thesis by blast
qed

lemma after_newline_append:
  "newline \<notin> set b \<Longrightarrow> after_newline (a @ b) = after_newline a @ b"
  "newline \<notin> set b \<Longrightarrow> after_newline (a @ newline # b) = b"
proof -
  assume b: "newline \<notin> set b"
  then have t: "takeWhile (\<lambda>c. c \<noteq> newline) (rev b @ xs) = rev b @ takeWhile (\<lambda>c. c \<noteq> newline) xs" for xs
    by (intro takeWhile_append2) auto
  show "after_newline (a @ b) = after_newline a @ b" by (simp add: after_newline_def t)
  show "after_newline (a @ newline # b) = b" using t [of "newline # rev a"] by (simp add: after_newline_def)
qed

lemma tail_scan_spec:
  assumes "0 < block_size" and "stop \<le> length raw"
  shows "concat (rev (tail_scan block_size raw stop pieces)) = after_newline (take stop raw) @ concat (rev pieces)"
  using assms
proof (induction block_size raw stop pieces rule: tail_scan.induct)
  case (1 b raw stop pieces)
  show ?case
  proof (cases "stop = 0")
    case False
    let ?start = "stop - b" and ?block = "take (stop - (stop - b)) (drop (stop - b) raw)"
    have split: "take stop raw = take ?start raw @ ?block"
      using 1(3) by (metis diff_le_self le_add_diff_inverse take_add)
    show ?thesis
    proof (cases "rfind_newline ?block")
      case None
      have n: "newline \<notin> set ?block" using None by (simp only: rfind_None) simp
      have "concat (rev (tail_scan b raw stop pieces)) = concat (rev (tail_scan b raw ?start (pieces @ [?block])))"
        using False 1(2) None by (subst tail_scan.simps) (simp add: Let_def)
      also have "\<dots> = after_newline (take ?start raw) @ concat (rev (pieces @ [?block]))"
        using 1(1) [OF _ refl refl None] False 1(2,3) by simp
      finally show ?thesis using after_newline_append(1) [OF n, of "take ?start raw"] split by simp
    next
      case (Some i)
      obtain x where x: "?block = x @ newline # drop (Suc i) ?block" "newline \<notin> set (drop (Suc i) ?block)"
        using rfind_Some [OF Some] by blast
      have "after_newline (take stop raw) = drop (Suc i) ?block"
        unfolding split using after_newline_append(2) [OF x(2), of "take ?start raw @ x"] x(1) by simp
      then show ?thesis using False 1(2) Some by (subst tail_scan.simps) (simp add: Let_def)
    qed
  qed (subst tail_scan.simps, simp add: after_newline_def)
qed

lemma tail_line_eq:
  assumes "newline \<notin> set line" and "raw = pre @ line @ [newline]" and "pre = [] \<or> last pre = newline"
  shows "tail_line raw = line"
proof -
  have "tail_line raw = after_newline (take (length raw - 1) raw)"
    unfolding tail_line_def using tail_scan_spec [of BLOCK "length raw - 1" raw "[]"] by (simp add: BLOCK_def)
  also have "take (length raw - 1) raw = pre @ line" using assms(2) by simp
  also have "after_newline (pre @ line) = line"
  proof (cases "pre = []")
    case False
    then obtain a where "pre = a @ [newline]" using assms(3) by (metis append_butlast_last_id)
    then show ?thesis using after_newline_append(2) [OF assms(1), of a] by simp
  qed (use after_newline_append(1) [OF assms(1), of "[]"] in \<open>simp add: after_newline_def\<close>)
  finally show ?thesis .
qed

text \<open>
  C26: the backward block scan of \<open>_tail_record\<close> finds the last line. On a non-empty ledger that ends
  in a newline the bytes it assembles, from however many 64 KiB blocks, are exactly those between
  the last two newlines.
\<close>

theorem tail_line_last:
  assumes "newline \<notin> set line" and "raw = pre @ line @ [newline]" and "pre = [] \<or> last pre = newline"
  shows "tail_line raw = line"
  using assms by (rule tail_line_eq)

theorem tail_line_last_witness: "tail_line (''ab'' @ newline # ''cd'' @ [newline]) = ''cd''"
  using tail_line_last [of "''cd''" _ "''ab'' @ [newline]"] by (simp add: newline_def)

section \<open>Loaded ledgers\<close>

lemma validate_record_Inr:
  "validate_record r task previous n = Inr () \<longleftrightarrow> is_dict r \<and> dget r ''record_sha256'' = PyStr (record_digest r)
     \<and> py_eq (dget r ''previous_sha256'') previous \<and> (\<forall>k \<in> set record_required. has_key r k)
     \<and> str_startswith (dget r ''id'') ''E-'' \<and> is_text (dget r ''summary'') \<and> is_dict (dget r ''details'')
     \<and> (py_eq (dget_or r ''schema'' (PyInt 1)) (PyInt 1) \<or> validate_record_v2 r task n = Inr ())"
  unfolding validate_record_def by (auto simp: check_all_Inr)

lemma validate_record_v2_Inr:
  "validate_record_v2 r task n = Inr () \<longleftrightarrow> py_eq (dget r ''schema'') (PyInt 2) \<and> dget r ''task_id'' = PyStr task
     \<and> py_eq (dget r ''sequence'') (PyInt (int n)) \<and> str_in (dget r ''kind'') EVIDENCE_KINDS
     \<and> str_in (dget r ''provenance'') PROVENANCE_TYPES \<and> is_nonneg_int (dget r ''change_epoch'')"
  unfolding validate_record_v2_def by (simp add: check_all_Inr)

lemma canon_tests [simp]:
  "str_startswith (canon v) p = str_startswith v p" "is_text (canon v) = is_text v" "str_in (canon v) S = str_in v S"
  "is_nonneg_int (canon v) = is_nonneg_int v" "unhashable (canon v) = unhashable v"
  by (cases v; simp)+

lemma record_digest_canon [simp]: "record_digest (canon r) = record_digest r" "anchor_digest (canon r) = anchor_digest r"
  using digest_without_canon by (simp_all add: record_digest_def anchor_digest_def digest_without_def)

lemma validate_record_canon:
  assumes "wf_val r" and "validate_record r task previous n = Inr ()"
  shows "validate_record (canon r) task previous n = Inr ()"
proof -
  have "dget_or (canon r) ''schema'' (PyInt 1) = canon (dget_or r ''schema'' (PyInt 1))"
    using dget_or_canon [OF assms(1), of _ "PyInt 1"] by simp
  then show ?thesis
    using assms unfolding validate_record_Inr validate_record_v2_Inr by (simp add: dget_canon)
qed

lemma load_records_step:
  "load_records True task n p ids (line # ls) = Inr (rs, q) \<longleftrightarrow>
     (\<exists>r rs'. \<not> bytes_blank line \<and> json_loads line = Some r \<and> validate_record r task p n = Inr ()
        \<and> (\<forall>i \<in> set ids. \<not> py_eq (dget r ''id'') i) \<and> rs = r # rs'
        \<and> load_records True task (Suc n) (dget r ''record_sha256'') (dget r ''id'' # ids) ls = Inr (rs', q))"
proof -
  have h: "validate_record r task p n = Inr () \<Longrightarrow> is_dict r \<and> \<not> unhashable (dget r ''id'')" for r
    unfolding validate_record_Inr by (cases "dget r ''id''") (auto simp: str_startswith_def)
  show ?thesis
    by (cases "json_loads line")
      (auto simp: res_bind_Inr attr_dict_def guard_def whenever_def dest: h split: if_splits)
qed

lemma load_records_append:
  "load_records True task n p ids (ls @ ms) = Inr (rs, q) \<longleftrightarrow>
     (\<exists>rs1 rs2 p'. load_records True task n p ids ls = Inr (rs1, p')
        \<and> load_records True task (n + length rs1) p' (rev (map (\<lambda>r. dget r ''id'') rs1) @ ids) ms = Inr (rs2, q) \<and> rs = rs1 @ rs2)"
proof (induction ls arbitrary: n p ids rs)
  case (Cons l ls)
  show ?case
    unfolding append_Cons load_records_step Cons.IH by fastforce
qed auto

text \<open>The facts a verified load gives: every record is valid at its place, and the last digest is the head.\<close>

lemma load_records_facts:
  "load_records True task n p ids ls = Inr (rs, q) \<Longrightarrow> length ls = length rs \<and> (\<forall>r \<in> set rs. wf_val r \<and> is_dict r)
     \<and> q = (if rs = [] then p else dget (last rs) ''record_sha256'')"
proof (induction ls arbitrary: n p ids rs)
  case (Cons l ls)
  then show ?case unfolding load_records_step
    by (fastforce dest: json_loads_wf simp: validate_record_Inr)
qed auto

lemma recover_of_load: "load_records True task n p ids ls = Inr (rs, q) \<Longrightarrow> recover_records task n p ls = Inr rs"
proof (induction ls arbitrary: n p ids rs)
  case (Cons l ls)
  then show ?case unfolding load_records_step by fastforce
qed simp

lemma bytes_blank_canonical: "\<not> bytes_blank (canonical r)"
proof -
  obtain c t where c: "canonical r = c # t" "opener c" using json_dumps_opener [of "canon r"] by (auto simp: canonical_def)
  have p: "32 \<le> (of_char c :: nat)" using printable_canonical [of r] c(1) by simp
  have "c \<noteq> CHR '' ''" using c(2) by (auto simp: opener_def json_ws_def)
  then have "(of_char c :: nat) \<noteq> 32" using char_eqI [of c "CHR '' ''"] by auto
  then show ?thesis using p c(1) by (simp add: bytes_blank_def Let_def)
qed

text \<open>Writing the records of a ledger again in canonical form gives a ledger of the same records.\<close>

lemma reload:
  "load_records True task n p ids ls = Inr (rs, q) \<Longrightarrow> load_records True task n p ids (map canonical rs) = Inr (map canon rs, q)"
proof (induction ls arbitrary: n p ids rs)
  case (Cons l ls)
  from Cons.prems obtain r rs' where r: "json_loads l = Some r" "validate_record r task p n = Inr ()"
    "\<forall>i \<in> set ids. \<not> py_eq (dget r ''id'') i" "rs = r # rs'"
    "load_records True task (Suc n) (dget r ''record_sha256'') (dget r ''id'' # ids) ls = Inr (rs', q)"
    unfolding load_records_step by blast
  have w: "wf_val r" using r(1) by (rule json_loads_wf)
  have atoms: "canon (dget r ''id'') = dget r ''id''" "canon (dget r ''record_sha256'') = dget r ''record_sha256''"
    using r(2) unfolding validate_record_Inr by (cases "dget r ''id''"; simp add: str_startswith_def)+
  show ?case
    unfolding r(4) list.map load_records_step
    using Cons.IH [OF r(5)] r(3) validate_record_canon [OF w r(2)] canonical_reads [OF w] bytes_blank_canonical [of r]
    by (intro exI [of _ "canon r"] exI [of _ "map canon rs'"] conjI) (simp_all add: dget_canon [OF w] atoms)
qed simp

lemma load_evidence_Inr:
  "load_evidence d True = Inr rs \<longleftrightarrow>
     (case ev_ledger d of
        None \<Rightarrow> rs = [] \<and> (load_anchor d = Inr None \<or> (\<exists>a. load_anchor d = Inr (Some a) \<and> \<not> truthy (dget a ''count'')))
      | Some raw \<Rightarrow> \<not> truncated_tail raw \<and> (\<exists>q. load_records True (ev_task d) 1 PyNone [] (py_lines raw) = Inr (rs, q)
          \<and> (load_anchor d = Inr None \<or> (\<exists>a. load_anchor d = Inr (Some a)
              \<and> py_eq (dget a ''count'') (PyInt (int (length rs))) \<and> py_eq (dget a ''head_sha256'') q))))"
  unfolding load_evidence_def by (auto simp: res_bind_Inr split: option.splits if_splits)

section \<open>Appending extends the ledger\<close>

lemma load_records_sealed:
  "load_records True task n p ids ls = Inr (rs, q) \<Longrightarrow> \<forall>r \<in> set rs. dget r ''record_sha256'' = PyStr (record_digest r)"
proof (induction ls arbitrary: n p ids rs)
  case (Cons l ls)
  then show ?case unfolding load_records_step by (fastforce simp: validate_record_Inr)
qed simp

lemma load_anchor_Inr:
  "load_anchor d = Inr (Some a) \<longleftrightarrow> ev_head d = Doc a \<and> is_dict a \<and> py_eq (dget a ''schema'') (PyInt 1)
     \<and> dget a ''task_id'' = PyStr (ev_task d) \<and> dget a ''anchor_sha256'' = PyStr (anchor_digest a)"
  by (auto simp: load_anchor_def split: jfile.splits if_splits)

lemma load_anchor_cong: "ev_head d' = ev_head d \<Longrightarrow> ev_task d' = ev_task d \<Longrightarrow> load_anchor d' = load_anchor d"
  by (simp add: load_anchor_def split: jfile.split)

lemma make_anchor_fields:
  "dget (make_anchor task n h rv extra) ''count'' = PyInt n" "dget (make_anchor task n h rv extra) ''head_sha256'' = h"
  "dget (make_anchor task n h rv extra) ''task_id'' = PyStr task" "dget (make_anchor task n h rv extra) ''schema'' = PyInt 1"
  "dget (make_anchor task n h rv extra) ''anchor_sha256'' = PyStr (anchor_digest (make_anchor task n h rv extra))"
  "is_dict (make_anchor task n h rv extra)"
  by (simp_all add: make_anchor_def Let_def)

lemma wf_make_anchor:
  "wf_val h \<Longrightarrow> wf_val rv \<Longrightarrow> set (map fst extra) \<inter> {''schema'', ''task_id'', ''count'', ''head_sha256'', ''task_revision''} = {}
     \<Longrightarrow> wf_val (PyDict extra) \<Longrightarrow> wf_val (make_anchor task n h rv extra)"
  unfolding make_anchor_def Let_def by (rule wf_dset) auto

lemma load_stored_anchor:
  assumes "wf_val (make_anchor (ev_task d) n h rv extra)" and "ev_head d = stored (make_anchor (ev_task d) n h rv extra)"
  shows "load_anchor d = Inr (Some (canon (make_anchor (ev_task d) n h rv extra)))"
  unfolding load_anchor_Inr using assms by (simp add: stored_def dget_canon make_anchor_fields)

lemma wf_dget: "wf_val v \<Longrightarrow> wf_val (dget v k)"
  using wf_entries(2) [of v] by (cases "map_of (entries v) k") (auto simp: dget_def dget_or_def dest: map_of_SomeD)

lemma wf_dget_or: "wf_val v \<Longrightarrow> wf_val x \<Longrightarrow> wf_val (dget_or v k x)"
  using wf_entries(2) [of v] by (cases "map_of (entries v) k") (auto simp: dget_or_def dest: map_of_SomeD)

text \<open>Redaction never empties a text, so a redacted summary is still one.\<close>

lemma sub_fuel_not_blank:
  assumes "\<And>p s out r. m p s = Some (out, r) \<Longrightarrow> \<not> blank out" and "\<not> blank s"
  shows "\<not> blank (sub_fuel n m prev s)"
  using assms
proof (induction n m prev s rule: sub_fuel.induct)
  case (3 n m prev c s)
  show ?case
  proof (cases "m prev (c # s)")
    case None
    then show ?thesis using 3(1) [OF None 3(3)] 3(4) by (auto simp: blank_iff)
  next
    case (Some x)
    then show ?thesis using 3(3) [of prev "c # s" "fst x" "snd x"] by (cases x) (auto simp: blank_iff)
  qed
qed auto

lemma mark_not_blank: "\<not> blank (s @ mark)" "\<not> blank mark"
  by (auto simp: blank_iff mark_def is_space_def Let_def)

lemma redact_text_not_blank: "\<not> blank s \<Longrightarrow> \<not> blank (redact_text s)"
proof -
  assume s: "\<not> blank s"
  have 1: "\<And>p s out r. match_assignment p s = Some (out, r) \<Longrightarrow> \<not> blank out"
    by (auto simp: match_assignment_def Let_def mark_not_blank split: if_splits list.splits)
  have 2: "\<And>p s out r. match_key p s = Some (out, r) \<Longrightarrow> \<not> blank out"
    by (auto simp: match_key_def Let_def mark_not_blank split: if_splits list.splits)
  have 3: "\<And>p s out r. match_pem p s = Some (out, r) \<Longrightarrow> \<not> blank out"
    by (auto simp: match_pem_def mark_not_blank split: option.splits)
  show ?thesis unfolding redact_text_def sub_all_def
    by (intro sub_fuel_not_blank [of match_pem] sub_fuel_not_blank [of match_key] sub_fuel_not_blank [of match_assignment] s) (fact 1 2 3)+
qed

lemma make_record_fields:
  "dget (make_record now i task c k s pv e det prev) ''record_sha256'' = PyStr (record_digest (make_record now i task c k s pv e det prev))"
  "is_dict (make_record now i task c k s pv e det prev)"
  "dget (make_record now i task c k s pv e det prev) ''id'' = PyStr i"
  "dget (make_record now i task c k s pv e det prev) ''sequence'' = PyInt (c + 1)"
  "dget (make_record now i task c k s pv e det prev) ''previous_sha256'' = prev"
  "dget (make_record now i task c k s pv e det prev) ''provenance'' = PyStr pv"
  "dget (make_record now i task c k s pv e det prev) ''change_epoch'' = e"
  "dget (make_record now i task c k s pv e det prev) ''details'' = redact (PyDict det)"
  by (simp_all add: make_record_def Let_def)

lemma wf_make_record: "wf_val e \<Longrightarrow> wf_val (PyDict det) \<Longrightarrow> wf_val prev \<Longrightarrow> wf_val (make_record now i task c k s pv e det prev)"
  unfolding make_record_def Let_def using wf_redact [of "PyDict det"] by (intro wf_dset) (simp_all del: redact.simps)

lemma is_dict_redact [simp]: "is_dict (redact (PyDict kvs))"
  by simp

lemma make_record_valid:
  assumes "k \<in> set EVIDENCE_KINDS" and "pv \<in> set PROVENANCE_TYPES" and "is_nonneg_int e" and "\<not> blank (redact_text (strip s))"
    and "startswith i ''E-''"
  shows "validate_record (make_record now i task (int n) k s pv e det prev) task prev (Suc n) = Inr ()"
proof -
  let ?r = "make_record now i task (int n) k s pv e det prev"
  have keys: "\<forall>k \<in> set record_required. has_key ?r k" by (simp add: make_record_def Let_def record_required_def)
  have rest: "is_text (dget ?r ''summary'')" "dget ?r ''schema'' = PyInt 2" "dget ?r ''task_id'' = PyStr task" "dget ?r ''kind'' = PyStr k"
    using assms(4) by (simp_all add: make_record_def Let_def)
  have v2: "validate_record_v2 ?r task (Suc n) = Inr ()"
    unfolding validate_record_v2_Inr using assms(1-3) by (simp add: make_record_fields rest)
  show ?thesis
    unfolding validate_record_Inr using keys rest(1) v2 assms(5)
    by (simp add: make_record_fields(1-3,5,8) del: redact.simps)
qed

text \<open>A ledger in order: it loads, and there is no anchor without a ledger file.\<close>

definition ledger_state :: "evidence_dir \<Rightarrow> pyval list \<Rightarrow> bool" where
  "ledger_state d rs \<longleftrightarrow> load_evidence d True = Inr rs \<and> (ev_ledger d = None \<longrightarrow> ev_head d = Missing)"

lemma py_int_of_eq: "py_eq v (PyInt n) \<Longrightarrow> py_int v = Inr n"
  by (auto simp: py_eq_int py_int_def)

lemma dget_or_of_eq: "py_eq (dget a k) (PyInt n) \<Longrightarrow> dget_or a k x = dget a k"
  by (metis dget_not_None_key dget_or_key pyval.distinct(3) py_eq_none(2))

lemma ledger_anchor:
  assumes "ledger_state d rs" and "load_anchor d = Inr (Some a)"
  obtains raw where "ev_ledger d = Some raw" and "\<not> truncated_tail raw" and "load_records True (ev_task d) 1 PyNone [] (py_lines raw) = Inr (rs, last_digest rs)"
    and "py_eq (dget a ''count'') (PyInt (int (length rs)))" and "dget a ''head_sha256'' = last_digest rs"
proof -
  have "ev_head d = Doc a" using assms(2) load_anchor_Inr by blast
  then obtain raw q where r: "ev_ledger d = Some raw" "\<not> truncated_tail raw" "load_records True (ev_task d) 1 PyNone [] (py_lines raw) = Inr (rs, q)"
      "py_eq (dget a ''count'') (PyInt (int (length rs)))" "py_eq (dget a ''head_sha256'') q"
    using assms unfolding ledger_state_def load_evidence_Inr by (auto split: option.splits)
  have q: "q = last_digest rs" using load_records_facts [OF r(3)] by (simp add: last_digest_def)
  have "rs \<noteq> [] \<Longrightarrow> dget (last rs) ''record_sha256'' = PyStr (record_digest (last rs))"
    using load_records_sealed [OF r(3)] by simp
  then show thesis using r q by (intro that) (auto simp: last_digest_def split: if_splits)
qed

lemma recover_loaded:
  assumes "ledger_state d rs" and "load_anchor d = Inr (Some a)" and "ev_ledger d = Some raw" and "recover_stale_anchor d a raw = Inr (a', d')"
  shows "a' = a \<and> d' = d"
proof -
  obtain raw' where r: "ev_ledger d = Some raw'" "\<not> truncated_tail raw'" "load_records True (ev_task d) 1 PyNone [] (py_lines raw') = Inr (rs, last_digest rs)"
    "py_eq (dget a ''count'') (PyInt (int (length rs)))" "dget a ''head_sha256'' = last_digest rs"
    using assms(1,2) by (rule ledger_anchor)
  have c: "py_int (dget_or a ''count'' (PyInt 0)) = Inr (int (length rs))"
    using r(4) by (simp add: dget_or_of_eq [OF r(4)] py_int_of_eq)
  have rec: "recover_records (ev_task d) 1 PyNone (py_lines raw') = Inr rs" using recover_of_load [OF r(3)] .
  have raw: "raw' = raw" using r(1) assms(3) by simp
  show ?thesis
    using assms(4) r(2) c rec unfolding raw recover_stale_anchor_def
    by (cases rs rule: rev_cases) (auto simp: r(5) last_digest_def py_index_def split: if_splits)
qed

lemma append_head_loaded:
  assumes "ledger_state d rs" and "append_head d = Inr (p, c, d')"
  shows "p = last_digest rs \<and> c = int (length rs) \<and> d' = d"
proof (cases "load_anchor d")
  case (Inr anchor)
  have l: "load_evidence d True = Inr rs" using assms(1) by (simp add: ledger_state_def)
  show ?thesis
  proof (cases anchor)
    case None
    then show ?thesis using assms(2) l Inr by (auto simp: append_head_def last_digest_def)
  next
    case (Some a)
    have la: "load_anchor d = Inr (Some a)" using Inr Some by simp
    obtain raw where r: "ev_ledger d = Some raw" "py_eq (dget a ''count'') (PyInt (int (length rs)))" "dget a ''head_sha256'' = last_digest rs"
      using ledger_anchor [OF assms(1) la] by metis
    have "py_int (dget_or a ''count'' (PyInt 0)) = Inr (int (length rs))"
      using r(2) by (simp add: dget_or_of_eq [OF r(2)] py_int_of_eq)
    then show ?thesis
      using assms(2) recover_loaded [OF assms(1) la r(1)] unfolding append_head_def la
      by (auto simp: res_bind_Inr r(1,3) split: if_splits option.splits)
  qed
qed (use assms in \<open>simp add: append_head_def\<close>)

definition ledger_bytes :: "evidence_dir \<Rightarrow> string" where
  "ledger_bytes d = (case ev_ledger d of None \<Rightarrow> [] | Some raw \<Rightarrow> raw)"

lemma ledger_loaded:
  assumes "ledger_state d rs"
  shows "\<not> truncated_tail (ledger_bytes d)" and "load_records True (ev_task d) 1 PyNone [] (py_lines (ledger_bytes d)) = Inr (rs, last_digest rs)"
proof -
  obtain q where q: "\<not> truncated_tail (ledger_bytes d)" "load_records True (ev_task d) 1 PyNone [] (py_lines (ledger_bytes d)) = Inr (rs, q)"
    using assms unfolding ledger_state_def load_evidence_Inr ledger_bytes_def by (auto simp: truncated_tail_def split: option.splits)
  then show "\<not> truncated_tail (ledger_bytes d)" "load_records True (ev_task d) 1 PyNone [] (py_lines (ledger_bytes d)) = Inr (rs, last_digest rs)"
    using load_records_facts [OF q(2)] by (simp_all add: last_digest_def)
qed

lemma wf_last_digest: "\<forall>r \<in> set rs. wf_val r \<Longrightarrow> wf_val (last_digest rs)"
  by (simp add: last_digest_def wf_dget)

text \<open>What a successful preparation computed.\<close>

lemma prepare_appendE:
  assumes "prepare_append now fresh d kind summary pv eid tid token det = Inr (r, a, d')" and "ledger_state d rs" and "wf_val (PyDict det)"
  obtains "d' = d" and "wf_val r" and "wf_val a" and "pv = ''manual'' \<or> token" and "append_state_check d = Inr ()"
    and "a = make_anchor (ev_task d) (int (length rs) + 1) (PyStr (record_digest r)) (dget (PyDict det) ''task_revision'') []"
    and "dget r ''previous_sha256'' = last_digest rs" and "dget r ''sequence'' = PyInt (int (length rs) + 1)"
    and "dget r ''provenance'' = PyStr pv" and "\<exists>i. dget r ''id'' = PyStr i" and "dget r ''record_sha256'' = PyStr (record_digest r)"
    and "str_startswith (dget r ''id'') ''E-'' \<longrightarrow> validate_record r (ev_task d) (last_digest rs) (Suc (length rs)) = Inr ()"
proof -
  obtain p c where h: "append_arguments d kind summary pv token tid det = Inr ()" "append_state_check d = Inr ()" "append_head d = Inr (p, c, d')"
    using assms(1) by (auto simp: prepare_append_def res_bind_Inr Let_def)
  have hd: "p = last_digest rs" "c = int (length rs)" "d' = d" using append_head_loaded [OF assms(2) h(3)] by auto
  define ident where "ident = (case eid of Some i \<Rightarrow> if i = [] then ''E-'' @ fresh else i | None \<Rightarrow> ''E-'' @ fresh)"
  define e where "e = dget_or (PyDict det) ''change_epoch'' (PyInt 0)"
  have r: "r = make_record now ident (ev_task d) (int (length rs)) kind (py_str summary) pv e det (last_digest rs)"
    and a: "a = make_anchor (ev_task d) (int (length rs) + 1) (dget r ''record_sha256'') (dget (PyDict det) ''task_revision'') []"
    using assms(1) h hd unfolding prepare_append_def by (auto simp: ident_def e_def Let_def)
  have args: "kind \<in> set EVIDENCE_KINDS" "pv \<in> set PROVENANCE_TYPES" "pv = ''manual'' \<or> token" "is_text summary" "is_nonneg_int e"
    using h(1) unfolding append_arguments_def e_def by (simp_all add: check_all_Inr)
  have s: "\<not> blank (redact_text (strip (py_str summary)))"
    using args(4) by (cases summary) (simp_all add: redact_text_not_blank)
  have wl: "wf_val (last_digest rs)" using load_records_facts [OF ledger_loaded(2) [OF assms(2)]] wf_last_digest by blast
  have "wf_val e" unfolding e_def by (rule wf_dget_or [OF assms(3)]) simp
  then have wr: "wf_val r" unfolding r using assms(3) wl by (rule wf_make_record)
  have seal: "dget r ''record_sha256'' = PyStr (record_digest r)" unfolding r by (rule make_record_fields(1))
  have wa: "wf_val a" unfolding a by (rule wf_make_anchor) (simp_all add: seal wf_dget [OF assms(3)])
  have val: "str_startswith (dget r ''id'') ''E-'' \<longrightarrow> validate_record r (ev_task d) (last_digest rs) (Suc (length rs)) = Inr ()"
    unfolding r using make_record_valid [OF args(1,2,5) s, of ident] by (simp add: make_record_fields(3))
  show thesis
    by (rule that [OF hd(3) wr wa args(3) h(2)]) (use a seal val in \<open>simp_all add: r make_record_fields\<close>)
qed

lemma load_one_more:
  assumes "load_records True task 1 PyNone [] ls = Inr (rs, p)" and "wf_val r" and "validate_record r task p (Suc (length rs)) = Inr ()"
    and "\<forall>r' \<in> set rs. \<not> py_eq (dget r ''id'') (dget r' ''id'')"
  shows "load_records True task 1 PyNone [] (ls @ [canonical r]) = Inr (rs @ [canon r], dget r ''record_sha256'')"
proof -
  have c: "canon (dget r ''record_sha256'') = dget r ''record_sha256''" using assms(3) unfolding validate_record_Inr by simp
  have "load_records True task (1 + length rs) p (rev (map (\<lambda>r. dget r ''id'') rs) @ []) [canonical r] = Inr ([canon r], dget r ''record_sha256'')"
    unfolding load_records_step
    using validate_record_canon [OF assms(2,3)] canonical_reads [OF assms(2)] bytes_blank_canonical [of r] assms(4)
    by (intro exI [of _ "canon r"] exI [of _ "[]"] conjI) (auto simp: dget_canon [OF assms(2)] c)
  then show ?thesis unfolding load_records_append using assms(1) by blast
qed

lemma append_in_order:
  assumes "ledger_state d rs" and "append_evidence now fresh d kind summary pv eid tid token det = Inr (r, d')"
    and "wf_val (PyDict det)" and "str_startswith (dget r ''id'') ''E-''" and "\<forall>r' \<in> set rs. dget r' ''id'' \<noteq> dget r ''id''"
  shows "ledger_state d' (rs @ [canon r]) \<and> dget r ''previous_sha256'' = last_digest rs
    \<and> dget r ''sequence'' = PyInt (int (length rs) + 1) \<and> ledger_bytes d' = ledger_bytes d @ encode_line r"
proof -
  obtain a d1 where p: "prepare_append now fresh d kind summary pv eid tid token det = Inr (r, a, d1)"
    and d': "d' = (write_line (encode_line r) d1)\<lparr>ev_head := stored a\<rparr>"
    using assms(2) by (auto simp: append_evidence_def res_bind_Inr)
  from p assms(1,3) have f: "d1 = d" "wf_val r" "wf_val a"
    "a = make_anchor (ev_task d) (int (length rs) + 1) (PyStr (record_digest r)) (dget (PyDict det) ''task_revision'') []"
    "dget r ''previous_sha256'' = last_digest rs" "dget r ''sequence'' = PyInt (int (length rs) + 1)" "\<exists>i. dget r ''id'' = PyStr i"
    "dget r ''record_sha256'' = PyStr (record_digest r)" "validate_record r (ev_task d) (last_digest rs) (Suc (length rs)) = Inr ()"
    by - (erule (2) prepare_appendE; use assms(4) in simp)+
  have lb: "ledger_bytes d' = ledger_bytes d @ encode_line r" "ev_task d' = ev_task d" "ev_head d' = stored a" "ev_ledger d' = Some (ledger_bytes d')"
    unfolding d' f(1) by (simp_all add: ledger_bytes_def write_line_def)
  have "\<forall>r' \<in> set rs. \<not> py_eq (dget r ''id'') (dget r' ''id'')" using f(7) assms(5) by auto
  then have lo: "load_records True (ev_task d) 1 PyNone [] (py_lines (ledger_bytes d) @ [canonical r]) = Inr (rs @ [canon r], dget r ''record_sha256'')"
    using load_one_more [OF ledger_loaded(2) [OF assms(1)] f(2,9)] by blast
  have py: "py_lines (ledger_bytes d') = py_lines (ledger_bytes d) @ [canonical r]"
    unfolding lb(1) encode_line_def using ledger_loaded(1) [OF assms(1)] py_lines_snoc [OF _ printable_canonical]
    by (auto simp: truncated_tail_def)
  have an: "load_anchor d' = Inr (Some (canon a))"
    using load_stored_anchor [of d' "int (length rs) + 1" "PyStr (record_digest r)" "dget (PyDict det) ''task_revision''" "[]"] f(3,4) lb(2,3) by simp
  have cnt: "dget (canon a) ''count'' = PyInt (int (length rs) + 1)" "dget (canon a) ''head_sha256'' = PyStr (record_digest r)"
    using f(3) unfolding f(4) by (simp_all add: dget_canon make_anchor_fields)
  have "load_evidence d' True = Inr (rs @ [canon r])"
    unfolding load_evidence_Inr lb(4) option.case lb(2) py lo using an cnt f(8) truncated_encoded [of "ledger_bytes d" r] lb(1) by simp
  then show ?thesis using lb f(5,6) by (simp add: ledger_state_def)
qed


text \<open>
  Provenance cannot be forged through the public operation, and finished tasks take no
  evidence. Without the private token every appended record is \<open>manual\<close>, and no append succeeds
  when the task state is terminal or unreadable.
\<close>

theorem append_provenance:
  assumes "append_evidence now fresh d kind summary pv eid tid token det = Inr (r, d')"
  shows "(token \<or> dget r ''provenance'' = PyStr ''manual'')
    \<and> (ev_state d = Missing \<or> (\<exists>s. ev_state d = Doc s \<and> is_dict s \<and> \<not> str_in (dget s ''state'') terminal_task_states))"
proof -
  obtain a d1 where p: "prepare_append now fresh d kind summary pv eid tid token det = Inr (r, a, d1)"
    using assms by (auto simp: append_evidence_def res_bind_Inr)
  have st: "append_state_check d = Inr ()" "pv = ''manual'' \<or> token" "dget r ''provenance'' = PyStr pv"
    using p by (auto simp: prepare_append_def append_arguments_def res_bind_Inr check_all_Inr Let_def make_record_fields)
  then show ?thesis
    by (auto simp: append_state_check_def check_all_Inr split: if_splits jfile.splits)
qed

section \<open>Crashes\<close>

text \<open>
  A torn write is never taken for a record. If a crash leaves a proper, non-empty prefix of the
  line in the ledger, loading raises, and so does the next append while there is an anchor: neither
  drops nor repairs the torn bytes silently.
\<close>

theorem torn_write_detected:
  assumes "ledger_state d rs" and "0 < k" and "k < length (encode_line r)" and "ev_head d \<noteq> Missing"
  shows "load_evidence (write_line (take k (encode_line r)) d) verify = Inl (RuntimeErr ''evidence ledger has a truncated tail'')
    \<and> \<not> is_ok (append_head (write_line (take k (encode_line r)) d))"
proof -
  let ?d = "write_line (take k (encode_line r)) d" and ?t = "take k (canonical r)"
  have t: "take k (encode_line r) = ?t" "?t \<noteq> []" using assms(2,3) by (auto simp: encode_line_def)
  have "last ?t \<in> set (canonical r)" using t(2) by (metis in_set_takeD last_in_set)
  then have n: "last ?t \<noteq> newline" using printable_not_break [OF printable_canonical] by blast
  have raw: "ev_ledger ?d = Some (ledger_bytes d @ ?t)" "ledger_bytes d @ ?t \<noteq> []" "last (ledger_bytes d @ ?t) \<noteq> newline"
    using t n by (simp_all add: write_line_def ledger_bytes_def)
  then have "truncated_tail (ledger_bytes d @ ?t)" by (simp add: truncated_tail_def)
  then have 1: "load_evidence ?d verify = Inl (RuntimeErr ''evidence ledger has a truncated tail'')" by (simp add: load_evidence_def raw(1))
  have "load_anchor ?d = load_anchor d" by (rule load_anchor_cong) (simp_all add: write_line_def)
  moreover have "load_anchor d \<noteq> Inr None" using assms(4) by (auto simp: load_anchor_def split: jfile.splits if_splits)
  moreover have "tail_record ?d = Inl (RuntimeErr ''evidence ledger has a truncated tail'')" using raw by (simp add: tail_record_def)
  ultimately have "\<not> is_ok (append_head ?d)" by (cases "load_anchor d") (auto simp: append_head_def split: option.splits)
  with 1 show ?thesis by blast
qed


section \<open>The head commits to the history\<close>

fun chained_from :: "pyval \<Rightarrow> pyval list \<Rightarrow> bool" where
  "chained_from p [] = True"
| "chained_from p (r # rs) = (wf_val r \<and> dget r ''record_sha256'' = PyStr (record_digest r) \<and> dget r ''previous_sha256'' = p
     \<and> chained_from (dget r ''record_sha256'') rs)"

lemma chained_snoc:
  "chained_from p (rs @ [r]) \<longleftrightarrow> chained_from p rs \<and> wf_val r \<and> dget r ''record_sha256'' = PyStr (record_digest r)
     \<and> dget r ''previous_sha256'' = (if rs = [] then p else dget (last rs) ''record_sha256'')"
  by (induction rs arbitrary: p) auto

lemma load_chained: "load_records True task n p ids ls = Inr (rs, q) \<Longrightarrow> p = PyNone \<or> is_str p \<Longrightarrow> chained_from p rs"
proof (induction ls arbitrary: n p ids rs)
  case (Cons l ls)
  from Cons.prems(1) obtain r rs' where r: "json_loads l = Some r" "validate_record r task p n = Inr ()" "rs = r # rs'"
    "load_records True task (Suc n) (dget r ''record_sha256'') (dget r ''id'' # ids) ls = Inr (rs', q)"
    unfolding load_records_step by blast
  have s: "dget r ''record_sha256'' = PyStr (record_digest r)" "py_eq (dget r ''previous_sha256'') p"
    using r(2) unfolding validate_record_Inr by auto
  have "dget r ''previous_sha256'' = p" using s(2) Cons.prems(2) by (cases p) auto
  then show ?case using r(3) s(1) json_loads_wf [OF r(1)] Cons.IH [OF r(4)] by simp
qed simp

definition ledger_collision :: "pyval list \<Rightarrow> pyval list \<Rightarrow> bool" where
  "ledger_collision rs rs' \<longleftrightarrow> (\<exists>r \<in> set rs. \<exists>r' \<in> set rs'.
     sha256_collision (canonical (dpop r ''record_sha256'')) (canonical (dpop r' ''record_sha256'')))"

lemma chained_commit:
  "chained_from PyNone rs \<Longrightarrow> chained_from PyNone rs' \<Longrightarrow> last_digest rs = last_digest rs'
    \<Longrightarrow> list_all2 (same_content ''record_sha256'') rs rs' \<or> ledger_collision rs rs'"
proof (induction rs arbitrary: rs' rule: rev_induct)
  case Nil
  then show ?case by (cases rs' rule: rev_cases) (auto simp: last_digest_def chained_snoc)
next
  case (snoc r rs)
  have r: "chained_from PyNone rs" "wf_val r" "dget r ''record_sha256'' = PyStr (record_digest r)" "dget r ''previous_sha256'' = last_digest rs"
    using snoc.prems(1) unfolding chained_snoc by (auto simp: last_digest_def)
  have "rs' \<noteq> []" using snoc.prems(3) r(3) by (auto simp: last_digest_def)
  then obtain ss s where s: "rs' = ss @ [s]" by (metis append_butlast_last_id)
  have s': "chained_from PyNone ss" "wf_val s" "dget s ''record_sha256'' = PyStr (record_digest s)" "dget s ''previous_sha256'' = last_digest ss"
    using snoc.prems(2) unfolding s chained_snoc by (auto simp: last_digest_def)
  have eq: "record_digest r = record_digest s" using snoc.prems(3) r(3) s'(3) by (simp add: last_digest_def s)
  show ?case
  proof (cases "sha256_collision (canonical (dpop r ''record_sha256'')) (canonical (dpop s ''record_sha256''))")
    case True
    then show ?thesis unfolding ledger_collision_def s by auto
  next
    case False
    then have sc: "same_content ''record_sha256'' r s" using record_seal.equal_digest [OF r(2) s'(2) eq] by blast
    have "canon (last_digest rs) = canon (last_digest ss)"
      using same_content_fields(1) [OF sc r(2) s'(2), of "''previous_sha256''"] r(4) s'(4) by simp
    moreover have "canon (last_digest xs) = last_digest xs" if "chained_from PyNone xs" for xs
      using that by (cases xs rule: rev_cases) (auto simp: last_digest_def chained_snoc)
    ultimately have "last_digest rs = last_digest ss" using r(1) s'(1) by metis
    from snoc.IH [OF r(1) s'(1) this] show ?thesis
    proof
      assume "list_all2 (same_content ''record_sha256'') rs ss"
      then show ?thesis using sc s by (simp add: list_all2_appendI)
    next
      assume "ledger_collision rs ss"
      then show ?thesis unfolding ledger_collision_def s by auto
    qed
  qed
qed

lemma load_evidence_chained: "load_evidence d True = Inr rs \<Longrightarrow> chained_from PyNone rs"
  unfolding load_evidence_Inr by (auto split: option.splits dest: load_chained)

text \<open>
  C28: the head digest commits to the whole ledger. Two ledgers that verify and end in the same
  record digest have the same number of records and the same content in each, or they exhibit two
  different texts with one SHA-256.
\<close>

theorem ledger_head_commits:
  assumes "load_evidence d True = Inr rs" and "load_evidence d' True = Inr rs'" and "last_digest rs = last_digest rs'"
  shows "list_all2 (same_content ''record_sha256'') rs rs' \<or> ledger_collision rs rs'"
  using chained_commit [OF load_evidence_chained [OF assms(1)] load_evidence_chained [OF assms(2)] assms(3)] .

section \<open>Rollback\<close>

lemma load_records_prefix:
  "load_records True task 1 PyNone [] ls = Inr (rs, q) \<Longrightarrow> \<exists>ls' q'. load_records True task 1 PyNone [] ls' = Inr (butlast rs, q')"
proof (cases ls rule: rev_cases)
  case (snoc ls' l)
  assume "load_records True task 1 PyNone [] ls = Inr (rs, q)"
  then obtain rs1 rs2 p' where a: "load_records True task 1 PyNone [] ls' = Inr (rs1, p')" "rs = rs1 @ rs2"
    "load_records True task (1 + length rs1) p' (rev (map (\<lambda>r. dget r ''id'') rs1) @ []) [l] = Inr (rs2, q)"
    unfolding snoc load_records_append by blast
  have "length rs2 = 1" using load_records_facts [OF a(3)] by simp
  then have "butlast rs = rs1" unfolding a(2) by (cases rs2) (auto simp: butlast_append)
  then show ?thesis using a(1) by blast
next
  case Nil
  assume "load_records True task 1 PyNone [] ls = Inr (rs, q)"
  then show ?thesis using Nil by (intro exI [of _ "[]"]) simp
qed

lemma rollback_reload:
  assumes "load_records True (ev_task d) 1 PyNone [] ls = Inr (rs, q)"
  shows "ledger_state (d\<lparr>ev_head := stored (rollback_anchor (ev_task d) rs), ev_ledger := Some (concat (map encode_line rs))\<rparr>) (map canon rs)"
proof -
  let ?d = "d\<lparr>ev_head := stored (rollback_anchor (ev_task d) rs), ev_ledger := Some (concat (map encode_line rs))\<rparr>"
  note f = load_records_facts [OF assms]
  have q: "q = last_digest rs" "q = PyNone \<or> (\<exists>s. q = PyStr s)" using f load_records_sealed [OF assms] by (auto simp: last_digest_def)
  have w: "wf_val (rollback_anchor (ev_task d) rs)"
    unfolding rollback_anchor_def using f by (intro wf_make_anchor) (auto simp: wf_dget wf_last_digest)
  have an: "load_anchor ?d = Inr (Some (canon (rollback_anchor (ev_task d) rs)))"
    using load_stored_anchor [of ?d] w by (simp add: rollback_anchor_def)
  have "dget (canon (rollback_anchor (ev_task d) rs)) ''count'' = PyInt (int (length rs))"
    "dget (canon (rollback_anchor (ev_task d) rs)) ''head_sha256'' = q"
    unfolding dget_canon [OF w] using q by (auto simp: rollback_anchor_def make_anchor_fields)
  then show ?thesis
    unfolding ledger_state_def load_evidence_Inr using truncated_concat [of rs] reload [OF assms] an q(2)
    by (auto simp: py_lines_encoded)
qed

text \<open>
  rollback removes exactly the last record. On a ledger in order with an anchor, rolling back the
  digest of the last record succeeds and leaves a directory that loads to the records before it;
  any other digest is refused.
\<close>

theorem rollback_removes_last:
  assumes "ledger_state d rs" and "rs \<noteq> []" and "load_anchor d = Inr (Some a)"
  shows "(\<exists>d'. rollback_last_evidence d (last_digest rs) = Inr d' \<and> ledger_state d' (map canon (butlast rs)))
    \<and> (x \<noteq> last_digest rs \<longrightarrow> \<not> is_ok (rollback_last_evidence d x))"
proof -
  have l: "load_evidence d True = Inr rs" using assms(1) by (simp add: ledger_state_def)
  note lo = ledger_loaded(2) [OF assms(1)]
  have h: "last_digest rs = PyStr (record_digest (last rs))" "dget (last rs) ''record_sha256'' = PyStr (record_digest (last rs))"
    using load_records_sealed [OF lo] assms(2) by (simp_all add: last_digest_def)
  have len: "length (record_digest (last rs)) = 64" using record_seal.digest_shape by (simp add: is_sha256_def)
  obtain ls' q' where b: "load_records True (ev_task d) 1 PyNone [] ls' = Inr (butlast rs, q')" using load_records_prefix [OF lo] by blast
  let ?d = "d\<lparr>ev_head := stored (rollback_anchor (ev_task d) (butlast rs)), ev_ledger := Some (concat (map encode_line (butlast rs)))\<rparr>"
  have st: "ledger_state ?d (map canon (butlast rs))" by (rule rollback_reload [OF b])
  have "last_digest (map canon (butlast rs)) = last_digest (butlast rs)"
    using load_records_facts [OF b] load_records_sealed [OF b] by (auto simp: last_digest_def last_map dget_canon)
  then have "rollback_last_evidence d (last_digest rs) = Inr ?d"
    unfolding rollback_last_evidence_def using l assms(2,3) h len st by (simp add: ledger_state_def Let_def)
  moreover have "x \<noteq> last_digest rs \<longrightarrow> \<not> is_ok (rollback_last_evidence d x)"
    unfolding rollback_last_evidence_def using l h by (auto simp: guard_def split: if_splits)
  ultimately show ?thesis using st by blast
qed

text \<open>
  The window of a rollback of the first record is not recoverable. The prior anchor, with count
  zero, is written before the ledger is shortened; a crash in between leaves a directory that
  neither loads nor accepts an append, because a zero count is compared with the ledger before the
  recovery is tried.
\<close>

theorem rollback_first_record_crash:
  assumes "ledger_state d [r]" and "ledger_bytes d = encode_line r"
  shows "\<not> is_ok (load_evidence (d\<lparr>ev_head := stored (rollback_anchor (ev_task d) [])\<rparr>) True)
    \<and> append_head (d\<lparr>ev_head := stored (rollback_anchor (ev_task d) [])\<rparr>) = Inl (RuntimeErr ''evidence anchor/ledger count mismatch'')"
proof -
  let ?d = "d\<lparr>ev_head := stored (rollback_anchor (ev_task d) [])\<rparr>"
  note lo = ledger_loaded(2) [OF assms(1)]
  have w: "wf_val r" using load_records_facts [OF lo] by simp
  have wa: "wf_val (rollback_anchor (ev_task d) [])" unfolding rollback_anchor_def by (rule wf_make_anchor) (simp_all add: last_digest_def)
  have an: "load_anchor ?d = Inr (Some (canon (rollback_anchor (ev_task d) [])))"
    using load_stored_anchor [of ?d] wa by (simp add: rollback_anchor_def)
  have c: "dget (canon (rollback_anchor (ev_task d) [])) ''count'' = PyInt 0"
    unfolding dget_canon [OF wa] by (simp add: rollback_anchor_def make_anchor_fields)
  have raw: "ev_ledger d = Some (encode_line r)"
    using assms(2) by (cases "ev_ledger d") (auto simp: ledger_bytes_def encode_line_def)
  have nl: "newline \<notin> set (canonical r)" using printable_not_break [OF printable_canonical] by blast
  have "tail_line (encode_line r) = canonical r" using tail_line_eq [OF nl, of _ "[]"] by (simp add: encode_line_def)
  then have tail: "tail_record ?d = Inr (Some (canon r))"
    using raw bytes_blank_canonical [of r] canonical_reads [OF w] by (simp add: tail_record_def encode_line_def)
  have "append_head ?d = Inl (RuntimeErr ''evidence anchor/ledger count mismatch'')"
    unfolding append_head_def an using c tail by simp
  moreover have "\<not> is_ok (load_evidence ?d True)"
    unfolding load_evidence_def using raw lo an c truncated_encoded [of "[]" r] by (simp add: ledger_bytes_def)
  ultimately show ?thesis by blast
qed

section \<open>Progress\<close>

text \<open>Ledgers the framework wrote: each line is the canonical text of a value.\<close>

definition canonical_ledger :: "evidence_dir \<Rightarrow> bool" where
  "canonical_ledger d \<longleftrightarrow> (\<exists>ws. ledger_bytes d = concat (map encode_line ws) \<and> (\<forall>w \<in> set ws. wf_val w))"

lemma append_head_ok:
  assumes "ledger_state d rs" and "canonical_ledger d"
  shows "append_head d = Inr (last_digest rs, int (length rs), d)"
proof -
  obtain ws where ws: "ledger_bytes d = concat (map encode_line ws)" "\<forall>w \<in> set ws. wf_val w" using assms(2) by (auto simp: canonical_ledger_def)
  have l: "load_evidence d True = Inr rs" using assms(1) by (simp add: ledger_state_def)
  note lo = ledger_loaded(2) [OF assms(1), unfolded ws(1) py_lines_encoded]
  have len: "length rs = length ws" using load_records_facts [OF lo] by simp
  have "\<exists>x. append_head d = Inr x"
  proof (cases "load_anchor d")
    case (Inr anchor)
    show ?thesis
    proof (cases anchor)
      case None
      then show ?thesis using Inr l by (simp add: append_head_def)
    next
      case (Some a)
      have la: "load_anchor d = Inr (Some a)" using Inr Some by simp
      obtain raw where r: "ev_ledger d = Some raw" "py_eq (dget a ''count'') (PyInt (int (length rs)))" "dget a ''head_sha256'' = last_digest rs"
        using ledger_anchor [OF assms(1) la] by metis
      have c: "py_int (dget_or a ''count'' (PyInt 0)) = Inr (int (length rs))" using r(2) by (simp add: dget_or_of_eq [OF r(2)] py_int_of_eq)
      have raw: "raw = concat (map encode_line ws)" using r(1) ws(1) by (simp add: ledger_bytes_def)
      show ?thesis
      proof (cases ws rule: rev_cases)
        case Nil
        then have "tail_record d = Inr None" using r(1) raw by (simp add: tail_record_def)
        then show ?thesis using Nil len r(2) c by (simp add: append_head_def la)
      next
        case (snoc us w)
        have nl: "newline \<notin> set (canonical w)" using printable_not_break [OF printable_canonical] by blast
        have p: "concat (map encode_line us) = [] \<or> last (concat (map encode_line us)) = newline"
          using truncated_concat [of us] by (auto simp: truncated_tail_def)
        have "tail_line raw = canonical w" using tail_line_eq [OF nl _ p] raw snoc by (simp add: encode_line_def [of w])
        then have t: "tail_record d = Inr (Some (canon w))"
          unfolding tail_record_def using r(1) raw snoc bytes_blank_canonical [of w] canonical_reads [of w] ws(2) by (simp add: encode_line_def [of w])
        have lw: "last rs = canon w" "is_dict (canon w)"
        proof -
          obtain rs1 rs2 p' where x: "rs = rs1 @ rs2" "load_records True (ev_task d) (1 + length rs1) p' (rev (map (\<lambda>r. dget r ''id'') rs1) @ []) [canonical w] = Inr (rs2, last_digest rs)"
            using lo unfolding snoc map_append list.map load_records_append by blast
          then have "rs2 = [canon w]" "is_dict (canon w)"
            using canonical_reads [of w] ws(2) snoc unfolding load_records_step by (auto simp: validate_record_Inr)
          then show "last rs = canon w" "is_dict (canon w)" using x(1) by simp_all
        qed
        have "rs \<noteq> []" using len snoc by auto
        then show ?thesis using t c r(2,3) lw by (auto simp: append_head_def la last_digest_def py_eq_int)
      qed
    qed
  next
    case (Inl e)
    then show ?thesis using l unfolding load_evidence_def by (auto split: option.splits if_splits simp: res_bind_Inr)
  qed
  then show ?thesis using append_head_loaded [OF assms(1)] by (metis prod_cases3)
qed

lemma append_succeeds:
  assumes "ledger_state d rs" and "canonical_ledger d" and "append_arguments d kind summary pv token tid det = Inr ()"
    and "append_state_check d = Inr ()" and "wf_val (PyDict det)"
  shows "\<exists>r d'. append_evidence now fresh d kind summary pv eid tid token det = Inr (r, d') \<and> canonical_ledger d'
    \<and> (eid = None \<longrightarrow> dget r ''id'' = PyStr (''E-'' @ fresh))"
proof -
  obtain r a where p: "prepare_append now fresh d kind summary pv eid tid token det = Inr (r, a, d)"
    and i: "eid = None \<longrightarrow> dget r ''id'' = PyStr (''E-'' @ fresh)"
    unfolding prepare_append_def using append_head_ok [OF assms(1,2)] assms(3,4) by (auto simp: Let_def make_record_fields)
  have w: "wf_val r" using p assms(1,5) by (rule prepare_appendE)
  obtain ws where ws: "ledger_bytes d = concat (map encode_line ws)" "\<forall>w \<in> set ws. wf_val w" using assms(2) by (auto simp: canonical_ledger_def)
  let ?d = "(write_line (encode_line r) d)\<lparr>ev_head := stored a\<rparr>"
  have "ledger_bytes ?d = concat (map encode_line (ws @ [r]))" using ws(1) by (simp add: ledger_bytes_def write_line_def split: option.splits)
  then have "canonical_ledger ?d" unfolding canonical_ledger_def using ws(2) w by (intro exI [of _ "ws @ [r]"]) auto
  then show ?thesis using p i by (simp add: append_evidence_def)
qed

text \<open>
  An append with valid arguments succeeds. On a ledger in order that the framework wrote, for a
  task that is not finished, \<open>append_evidence\<close> returns a record; the ledger it leaves is again one the
  framework wrote, so appends can go on.
\<close>

theorem append_progress:
  assumes "ledger_state d rs" and "canonical_ledger d" and "append_arguments d kind summary pv token tid det = Inr ()"
    and "append_state_check d = Inr ()" and "wf_val (PyDict det)"
  shows "\<exists>r d'. append_evidence now fresh d kind summary pv eid tid token det = Inr (r, d') \<and> canonical_ledger d'"
  using append_succeeds [OF assms] by blast

section \<open>A concrete ledger\<close>

definition sample_dir :: evidence_dir where
  "sample_dir = \<lparr>ev_task = ''task-1'', ev_ledger = None, ev_head = Missing, ev_state = Missing, ev_redirected = False\<rparr>"

definition sample_details :: dict where
  "sample_details = [(''change_epoch'', PyInt 1), (''task_revision'', PyInt 4)]"

abbreviation sample_append :: "string \<Rightarrow> evidence_dir \<Rightarrow> (pyval \<times> evidence_dir) res" where
  "sample_append fresh d \<equiv> append_evidence ''2025-01-01'' fresh d ''observation'' (PyStr ''seen'') ''manual'' None None False sample_details"

lemma sample_dir_state: "ledger_state sample_dir []" "canonical_ledger sample_dir"
  by (simp_all add: ledger_state_def load_evidence_def load_anchor_def sample_dir_def canonical_ledger_def ledger_bytes_def exI [of _ "[]"])

lemma sample_arguments: "append_arguments d ''observation'' (PyStr ''seen'') ''manual'' False None sample_details = Inr ()"
  by (simp add: append_arguments_def sample_details_def EVIDENCE_KINDS_def PROVENANCE_TYPES_def check_all_Inr blank_def strip_def is_space_def)

lemma sample_details_wf: "wf_val (PyDict sample_details)"
  by (simp add: sample_details_def)

lemma sample_dir_open: "ev_state d = Missing \<Longrightarrow> \<not> ev_redirected d \<Longrightarrow> append_state_check d = Inr ()"
  by (simp add: append_state_check_def)

lemma append_keeps_state: "append_evidence now fresh d kind summary pv eid tid token det = Inr (r, d') \<Longrightarrow> ledger_state d rs \<Longrightarrow> wf_val (PyDict det)
    \<Longrightarrow> ev_state d' = ev_state d \<and> ev_redirected d' = ev_redirected d \<and> ev_task d' = ev_task d \<and> ev_head d' \<noteq> Missing"
  by (auto simp: append_evidence_def res_bind_Inr write_line_def stored_def elim!: prepare_appendE)

lemma sample_first:
  "\<exists>r d. sample_append ''1'' sample_dir = Inr (r, d) \<and> ledger_state d [canon r] \<and> canonical_ledger d \<and> ledger_bytes d = encode_line (canon r)
     \<and> dget r ''id'' = PyStr ''E-1'' \<and> ev_state d = Missing \<and> \<not> ev_redirected d \<and> ev_head d \<noteq> Missing \<and> wf_val r"
proof -
  have "append_state_check sample_dir = Inr ()" by (rule sample_dir_open) (simp_all add: sample_dir_def)
  from append_succeeds [OF sample_dir_state sample_arguments this sample_details_wf, of "''2025-01-01''" "''1''" None]
  obtain r d where a: "sample_append ''1'' sample_dir = Inr (r, d)" "canonical_ledger d" "dget r ''id'' = PyStr ''E-1''" by auto
  have o: "ledger_state d [canon r]" "ledger_bytes d = encode_line r"
    using append_in_order [OF sample_dir_state(1) a(1) sample_details_wf] a(3) by (auto simp: sample_dir_def ledger_bytes_def)
  have "ev_state d = Missing" "\<not> ev_redirected d" "ev_head d \<noteq> Missing"
    using append_keeps_state [OF a(1) sample_dir_state(1) sample_details_wf] by (auto simp: sample_dir_def)
  moreover have "wf_val (canon r)" using load_records_facts [OF ledger_loaded(2) [OF o(1)]] by simp
  moreover have "encode_line (canon r) = encode_line r" by (simp add: encode_line_def)
  ultimately show ?thesis using a o by auto
qed


theorem append_provenance_witness:
  "\<exists>r d. sample_append ''1'' sample_dir = Inr (r, d) \<and> dget r ''provenance'' = PyStr ''manual''"
  using sample_first append_provenance by blast

theorem torn_write_detected_witness:
  "\<exists>d r. ledger_state d [r] \<and> \<not> is_ok (append_head (write_line (take 1 (encode_line r)) d))"
proof -
  obtain r d where a: "ledger_state d [canon r]" "ev_head d \<noteq> Missing" using sample_first by blast
  have "canonical (canon r) \<noteq> []" using json_dumps_opener [of "canon (canon r)"] by (auto simp: canonical_def simp del: canon_canon)
  then have "1 < length (encode_line (canon r))" by (cases "canonical (canon r)") (simp_all add: encode_line_def)
  then show ?thesis using torn_write_detected [OF a(1), of 1 "canon r"] a by auto
qed


theorem ledger_head_commits_witness:
  "\<exists>d r. load_evidence d True = Inr [r] \<and> (list_all2 (same_content ''record_sha256'') [r] [r] \<or> ledger_collision [r] [r])"
proof -
  obtain r d where "load_evidence d True = Inr [r]" using sample_first unfolding ledger_state_def by blast
  then show ?thesis using ledger_head_commits by blast
qed

theorem rollback_removes_last_witness:
  "\<exists>d r d'. ledger_state d [r] \<and> rollback_last_evidence d (last_digest [r]) = Inr d' \<and> ledger_state d' []"
proof -
  obtain r d where a: "ledger_state d [canon r]" "ev_head d \<noteq> Missing" using sample_first by blast
  have "load_anchor d \<noteq> Inr None" using a(2) by (auto simp: load_anchor_def split: jfile.splits if_splits)
  moreover have "\<exists>x. load_anchor d = Inr x" using a(1) unfolding ledger_state_def load_evidence_def by (auto simp: res_bind_Inr split: option.splits if_splits)
  ultimately obtain an where "load_anchor d = Inr (Some an)" by (metis option.exhaust)
  then show ?thesis using rollback_removes_last [OF a(1)] a(1) by fastforce
qed

theorem rollback_first_record_crash_witness:
  "\<exists>d r. ledger_state d [r] \<and> append_head (d\<lparr>ev_head := stored (rollback_anchor (ev_task d) [])\<rparr>) = Inl (RuntimeErr ''evidence anchor/ledger count mismatch'')"
  using sample_first rollback_first_record_crash by blast

theorem append_progress_witness: "\<exists>r d. sample_append ''1'' sample_dir = Inr (r, d) \<and> canonical_ledger d"
proof -
  have "append_state_check sample_dir = Inr ()" by (rule sample_dir_open) (simp_all add: sample_dir_def)
  then show ?thesis using append_progress [OF sample_dir_state sample_arguments _ sample_details_wf] by blast
qed

end
