(* ===== verification/Task_Schema.thy ===== *)
theory Task_Schema
  imports State_Machine Controls
begin

text \<open>
  The first half of \<open>agentinfra/state_store.py\<close>: task identifiers, the digests of a task state and of
  its anchor, and \<open>validate_task\<close>, the schema check every stored task passes on load and on save. Its
  sections are one definition each, in source order.
\<close>

section \<open>Identifiers and digests\<close>

definition MODES :: "string list" where "MODES = [''read'', ''write'']"
definition COMPLEXITIES :: "string list" where "COMPLEXITIES = [''S'', ''M'', ''L'', ''XL'']"
definition RISKS :: "string list" where "RISKS = [''low'', ''medium'', ''high'', ''critical'']"
definition GATE_STATUSES :: "string list" where "GATE_STATUSES = [''OPEN'', ''PROVEN'', ''WAIVED'']"
definition RISK_STATUSES :: "string list" where "RISK_STATUSES = [''open'', ''resolved'']"

definition id_char :: "char \<Rightarrow> bool" where
  "id_char c \<longleftrightarrow> is_lower c \<or> is_digit c"

text \<open>\<open>^[a-z0-9](?:[a-z0-9-]{0,62}[a-z0-9])?$\<close>, matched with \<open>fullmatch\<close>.\<close>

definition task_id_ok :: "string \<Rightarrow> bool" where
  "task_id_ok s \<longleftrightarrow> s \<noteq> [] \<and> length s \<le> 64 \<and> id_char (hd s) \<and> id_char (last s) \<and> list_all (\<lambda>c. id_char c \<or> c = CHR ''-'') s"

text \<open>\<open>^policy:[a-z0-9](?:[a-z0-9_.-]{0,62}[a-z0-9])?$\<close>.\<close>

definition waiver_authority_ok :: "string \<Rightarrow> bool" where
  "waiver_authority_ok s \<longleftrightarrow> startswith s ''policy:'' \<and> (let t = drop 7 s in
     t \<noteq> [] \<and> length t \<le> 64 \<and> id_char (hd t) \<and> id_char (last t) \<and> list_all (\<lambda>c. id_char c \<or> c \<in> set ''_.-'') t)"

definition validate_task_id :: "pyval \<Rightarrow> string res" where
  "validate_task_id v = (case v of PyStr s \<Rightarrow> if task_id_ok s then Inr s else Inl (ValueErr ''task id must be canonical'')
     | _ \<Rightarrow> Inl (ValueErr ''task id must be canonical''))"

text \<open>\<open>slug\<close>: runs of other characters become one hyphen, outer hyphens go, lower case, 48 characters.\<close>

fun hyphenate :: "string \<Rightarrow> string" where
  "hyphenate [] = []"
| "hyphenate (c # s) = (if is_alnum c then c # hyphenate s
     else CHR ''-'' # (case hyphenate s of d # t \<Rightarrow> if d = CHR ''-'' then t else d # t | [] \<Rightarrow> []))"

definition strip_hyphens :: "string \<Rightarrow> string" where
  "strip_hyphens s = rev (dropWhile (\<lambda>c. c = CHR ''-'') (rev (dropWhile (\<lambda>c. c = CHR ''-'') s)))"

definition slug :: "string \<Rightarrow> string" where
  "slug value = (let s = take 48 (casefold (strip_hyphens (hyphenate value))) in if s = [] then ''task'' else s)"

definition state_digest :: "pyval \<Rightarrow> string" where
  "state_digest task = sha256 (canonical (dpop task ''integrity_sha256''))"

interpretation state_seal: sealed_record "''integrity_sha256''" state_digest
  by unfold_locales (simp add: state_digest_def digest_without_def)

definition empty_tdd :: pyval where
  "empty_tdd = PyDict [(''mode'', PyNone), (''test_design_complete'', PyBool False), (''baseline_executed'', PyBool False),
     (''baseline_outcome'', PyNone), (''required_baseline_outcome'', PyNone), (''test_contract_digest'', PyNone),
     (''frozen_test_contract_digest'', PyNone), (''oracle_digest'', PyNone), (''frozen_oracle_digest'', PyNone),
     (''baseline_implementation_digest'', PyNone), (''observed_implementation_digest'', PyNone), (''harness_valid'', PyBool False),
     (''baseline_intact'', PyBool False), (''semantic_reason'', PyStr ''''), (''active_cycle_id'', PyNone), (''green_epoch'', PyNone),
     (''cycles'', PyList [])]"

section \<open>Helpers of the schema check\<close>

definition schema_error :: "string \<Rightarrow> exn" where
  "schema_error m = RuntimeErr (''state schema: '' @ m)"

text \<open>No two values are equal.\<close>

fun all_distinct :: "pyval list \<Rightarrow> bool" where
  "all_distinct [] = True"
| "all_distinct (x # xs) = ((\<forall>y \<in> set xs. \<not> py_eq x y) \<and> all_distinct xs)"

text \<open>\<open>len(xs) != len(set(xs))\<close> raises on an unhashable item.\<close>

definition distinct_values :: "pyval list \<Rightarrow> exn \<Rightarrow> unit res" where
  "distinct_values xs e = (if \<exists>x \<in> set xs. unhashable x then Inl TypeErr else guard (all_distinct xs) e)"

definition unique_ids :: "pyval list \<Rightarrow> unit res" where
  "unique_ids xs = res_bind (map_dict (\<lambda>x. dget x ''id'') xs) (\<lambda>ids. check_all
     [guard (\<forall>i \<in> set ids. is_id i) (schema_error ''id must be canonical and bounded''),
      guard (all_distinct ids) (schema_error ''duplicate id'')])"

definition null_or :: "(pyval \<Rightarrow> bool) \<Rightarrow> pyval \<Rightarrow> bool" where
  "null_or P v \<longleftrightarrow> v = PyNone \<or> P v"

text \<open>A name, or \<open>None\<close>, of a set that contains \<open>None\<close>.\<close>

definition memb_or_none :: "pyval \<Rightarrow> string list \<Rightarrow> exn \<Rightarrow> unit res" where
  "memb_or_none v S e = (if v = PyNone then Inr () else memb v S e)"

definition int_of_val :: "pyval \<Rightarrow> int" where
  "int_of_val v = (case v of PyInt n \<Rightarrow> n | PyBool b \<Rightarrow> (if b then 1 else 0) | _ \<Rightarrow> 0)"

definition evidence_ref :: "pyval \<Rightarrow> bool" where
  "evidence_ref v \<longleftrightarrow> str_startswith v ''E-''"

section \<open>The sections of \<open>validate_task\<close>\<close>

definition task_required :: "string list" where
  "task_required = [''schema'', ''id'', ''title'', ''mode'', ''complexity'', ''risk'', ''state'', ''revision'', ''created'', ''updated'',
     ''precheck'', ''gates'', ''risks'', ''decisions'', ''child_history'', ''verification_evidence'', ''verification_epoch'', ''change_epoch'',
     ''final_audit_complete'', ''active_child'', ''previous_state'', ''transitions'']"

text \<open>Lines 132--189: versions, fields, identity and scalar types.\<close>

definition check_header :: "pyval \<Rightarrow> string option \<Rightarrow> unit res" where
  "check_header task expected_id = check_all
    [guard (is_dict task) (schema_error ''task must be an object''),
     (if unhashable (dget task ''schema'') then Inl TypeErr
      else guard (dget task ''schema'' \<in> {PyInt 2, PyInt 3, PyInt 4}) (schema_error ''unsupported version'')),
     guard (\<forall>k \<in> set task_required. has_key task k) (schema_error ''missing required fields''),
     guard (dget task ''schema'' = PyInt 4 \<longrightarrow> has_key task ''tdd'') (schema_error ''missing required fields: tdd''),
     res_bind (validate_task_id (dget task ''id'')) (\<lambda>task_id.
       guard (case expected_id of None \<Rightarrow> True | Some i \<Rightarrow> task_id = i) (RuntimeErr ''state file task id does not match owning task directory'')),
     memb (dget task ''mode'') MODES (schema_error ''invalid mode''),
     memb (dget task ''complexity'') COMPLEXITIES (schema_error ''invalid complexity''),
     memb (dget task ''risk'') RISKS (schema_error ''invalid risk''),
     memb (dget task ''state'') STATES (schema_error ''invalid workflow state''),
     guard (is_text (dget task ''title'')) (schema_error ''title must be a non-empty string''),
     guard (is_text (dget task ''created'')) (schema_error ''created must be a timestamp string''),
     guard (is_text (dget task ''updated'')) (schema_error ''updated must be a timestamp string''),
     guard (is_nonneg_int (dget task ''revision'')) (schema_error ''revision must be a non-negative integer''),
     guard (is_nonneg_int (dget task ''change_epoch'')) (schema_error ''change_epoch must be a non-negative integer''),
     guard (is_dict (dget task ''precheck'')) (schema_error ''precheck must be an object'')]"

definition tdd_digest_fields :: "string list" where
  "tdd_digest_fields = [''test_contract_digest'', ''frozen_test_contract_digest'', ''oracle_digest'', ''frozen_oracle_digest'',
     ''baseline_implementation_digest'', ''observed_implementation_digest'']"

definition check_cycle :: "string \<Rightarrow> pyval \<Rightarrow> unit res" where
  "check_cycle task_id cycle = (case validate_tdd_cycle cycle of
      Inl (AssuranceError m) \<Rightarrow> Inl (schema_error ''invalid TDD cycle'')
    | Inl e \<Rightarrow> Inl e
    | Inr _ \<Rightarrow> guard (dget cycle ''task_id'' = PyStr task_id) (schema_error ''TDD cycle belongs to another task''))"

text \<open>Lines 190--238: the TDD contract and its cycles.\<close>

definition check_tdd :: "pyval \<Rightarrow> unit res" where
  "check_tdd task = whenever (has_key task ''tdd'') (let tdd = dget task ''tdd'' in check_all
    [guard (is_dict tdd) (schema_error ''tdd must be an object''),
     guard (\<forall>k \<in> set (map fst (entries empty_tdd)). has_key tdd k) (schema_error ''incomplete tdd contract''),
     memb_or_none (dget tdd ''mode'') mode_names (schema_error ''invalid tdd mode''),
     guard (\<forall>f \<in> set [''test_design_complete'', ''baseline_executed'', ''harness_valid'', ''baseline_intact'']. is_bool (dget tdd f))
       (schema_error ''tdd field must be boolean''),
     guard (\<forall>f \<in> set tdd_digest_fields. null_or is_digest (dget tdd f)) (schema_error ''tdd digest must be null or a canonical sha256''),
     memb_or_none (dget tdd ''baseline_outcome'') [''RED'', ''CHARACTERIZED'', ''TEST_FIRST''] (schema_error ''invalid tdd baseline outcome''),
     memb_or_none (dget tdd ''required_baseline_outcome'') [''RED'', ''CHARACTERIZED'', ''TEST_FIRST''] (schema_error ''invalid required tdd baseline outcome''),
     guard (is_str (dget tdd ''semantic_reason'') \<and> is_list (dget tdd ''cycles'')) (schema_error ''invalid tdd semantic reason or cycle ledger''),
     guard (null_or is_pos_int (dget tdd ''green_epoch'')) (schema_error ''tdd green_epoch must be null or a positive integer''),
     for_each (check_cycle (py_str (dget task ''id''))) (items (dget tdd ''cycles'')),
     guard (all_distinct (map (\<lambda>c. dget c ''cycle_id'') (items (dget tdd ''cycles'')))) (schema_error ''duplicate TDD cycle id''),
     guard (dget tdd ''active_cycle_id'' = PyNone
         \<or> (\<exists>c \<in> set (items (dget tdd ''cycles'')). py_eq (dget tdd ''active_cycle_id'') (dget c ''cycle_id'')))
       (schema_error ''active TDD cycle does not exist'')])"

text \<open>Lines 239--254: digests and the two receipts.\<close>

definition check_review_field :: "pyval \<Rightarrow> unit res" where
  "check_review_field task = (let receipt = dget task ''review_receipt'' in whenever (receipt \<noteq> PyNone)
     (case review_receipt_digest receipt of
        Inl (ReviewError m) \<Rightarrow> Inl (schema_error ''invalid review receipt'')
      | Inl e \<Rightarrow> Inl e
      | Inr _ \<Rightarrow> guard (py_eq (dget receipt ''task_id'') (dget task ''id'')) (schema_error ''review receipt belongs to another task'')))"

definition check_receipts :: "pyval \<Rightarrow> unit res" where
  "check_receipts task = check_all
    [guard (\<forall>f \<in> set [''implementation_digest'', ''diff_digest'', ''evidence_set_digest'']. null_or is_digest (dget task f))
       (schema_error ''digest must be null or a canonical sha256''),
     whenever (dget task ''falsification'' \<noteq> PyNone)
       (res_bind (validate_falsification_receipt (dget task ''falsification'') (dget task ''id'') PyNone PyNone PyNone False) (\<lambda>ok.
        guard ok (schema_error ''invalid falsification receipt''))),
     check_review_field task]"

text \<open>Lines 255--273: arrays, identifiers, evidence references.\<close>

definition handoff_id :: "pyval \<Rightarrow> pyval" where
  "handoff_id item = dget_or item ''handoff_id'' (dget item ''lease_id'')"

definition check_arrays :: "pyval \<Rightarrow> unit res" where
  "check_arrays task = check_all
    [guard (\<forall>f \<in> set [''gates'', ''risks'', ''decisions'', ''child_history'', ''verification_evidence'', ''transitions'']. is_list (dget task f))
       (schema_error ''field must be an array''),
     unique_ids (items (dget task ''gates'')),
     unique_ids (items (dget task ''risks'')),
     unique_ids (items (dget task ''decisions'')),
     res_bind (map_dict handoff_id (items (dget task ''child_history''))) (\<lambda>ids. distinct_values ids (schema_error ''duplicate child handoff id'')),
     guard (\<forall>v \<in> set (items (dget task ''verification_evidence'')). evidence_ref v) (schema_error ''invalid verification evidence id''),
     guard (all_distinct (items (dget task ''verification_evidence''))) (schema_error ''duplicate verification evidence id''),
     guard (null_or is_nonneg_int (dget task ''verification_epoch'')) (schema_error ''verification_epoch must be null or non-negative integer''),
     guard (\<forall>f \<in> set [''final_audit_complete'', ''material_claim'']. has_key task f \<longrightarrow> is_bool (dget task f)) (schema_error ''field must be boolean'')]"

text \<open>Lines 274--307: acceptance gates.\<close>

definition legacy_waiver_ok :: "pyval \<Rightarrow> bool" where
  "legacy_waiver_ok gate \<longleftrightarrow> is_text (dget gate ''waiver_reason'')
     \<and> (case dget gate ''waiver_authority'' of PyStr s \<Rightarrow> waiver_authority_ok s | _ \<Rightarrow> False)"

definition check_gate_evidence :: "pyval \<Rightarrow> unit res" where
  "check_gate_evidence gate = (let evidence = dget_or gate ''evidence'' (PyList []) in
     if \<not> is_list evidence then Inl (schema_error ''invalid gate evidence references'')
     else check_all [distinct_values (items evidence) (schema_error ''invalid gate evidence references''),
       guard (\<forall>x \<in> set (items evidence). evidence_ref x) (schema_error ''invalid gate evidence references''),
       guard (dget gate ''status'' = PyStr ''PROVEN'' \<longrightarrow> items evidence \<noteq> []) (schema_error ''a proven acceptance gate requires evidence'')])"

definition check_gate :: "int \<Rightarrow> pyval \<Rightarrow> unit res" where
  "check_gate schema gate = (let waived = (dget gate ''status'' = PyStr ''WAIVED''); constitutional = dget gate ''gate_severity'' in check_all
    [memb (dget gate ''status'') GATE_STATUSES (schema_error ''invalid acceptance gate''),
     guard (is_text (dget gate ''description'')) (schema_error ''invalid acceptance gate''),
     memb (dget_or gate ''severity'' (PyStr ''high'')) RISKS (schema_error ''invalid acceptance gate severity''),
     memb_or_none constitutional GATE_SEVERITIES (schema_error ''invalid HARD/REQUIRED/ADVISORY gate severity''),
     check_gate_evidence gate,
     guard (is_nonneg_int (dget_or gate ''created_revision'' (PyInt 0))) (schema_error ''invalid gate creation revision''),
     guard (waived \<and> constitutional = PyNone \<and> \<not> legacy_waiver_ok gate \<longrightarrow> \<not> (3 \<le> schema \<and> dget gate ''created_revision'' \<noteq> PyNone))
       (schema_error ''waived gate lacks reason/authority''),
     guard (waived \<and> constitutional \<noteq> PyNone \<longrightarrow> constitutional = PyStr ''REQUIRED'' \<and> evidence_ref (dget gate ''waiver_evidence''))
       (schema_error ''REQUIRED gate waiver requires external waiver evidence''),
     guard (\<not> (waived \<and> dget_or gate ''severity'' (PyStr ''high'') = PyStr ''critical'' \<and> constitutional = PyNone))
       (schema_error ''critical acceptance gates cannot be waived by local policy'')])"

text \<open>Lines 308--328: risks, decisions, child handoffs.\<close>

definition check_risk :: "pyval \<Rightarrow> unit res" where
  "check_risk risk = check_all
    [memb (dget risk ''severity'') RISKS (schema_error ''invalid risk record''),
     memb (dget risk ''status'') RISK_STATUSES (schema_error ''invalid risk record''),
     guard (is_text (dget risk ''description'')) (schema_error ''invalid risk record''),
     guard (dget risk ''status'' = PyStr ''resolved'' \<longrightarrow> is_text (dget risk ''resolution'')) (schema_error ''resolved risk lacks resolution'')]"

fun check_decisions :: "pyval list \<Rightarrow> pyval list \<Rightarrow> unit res" where
  "check_decisions seen [] = Inr ()"
| "check_decisions seen (d # ds) = (case check_all
     [guard (is_text (dget d ''statement'') \<and> is_text (dget d ''rationale'')) (schema_error ''invalid decision record''),
      guard (is_list (dget_or d ''evidence'' (PyList []))) (schema_error ''decision evidence must be an array''),
      (let s = dget d ''supersedes'' in if s = PyNone then Inr () else if unhashable s then Inl TypeErr
        else guard (\<exists>i \<in> set seen. py_eq s i) (schema_error ''decision supersedes unknown or future decision''))]
     of Inl e \<Rightarrow> Inl e | Inr _ \<Rightarrow> check_decisions (dget d ''id'' # seen) ds)"

definition check_handoff :: "pyval \<Rightarrow> unit res" where
  "check_handoff h = check_all
    [guard (is_text (handoff_id h)) (schema_error ''invalid child handoff''),
     memb (dget h ''outcome'') [''accepted'', ''rejected'', ''partial'', ''recovered''] (schema_error ''invalid child handoff''),
     guard (is_text (dget h ''summary'') \<and> is_list (dget_or h ''evidence'' (PyList []))) (schema_error ''child handoff requires summary/evidence'')]"

text \<open>Lines 329--348: the active child and its context brief.\<close>

definition brief_fact_ok :: "pyval \<Rightarrow> bool" where
  "brief_fact_ok item \<longleftrightarrow> is_dict item \<and> evidence_ref (dget item ''id'') \<and> is_str (dget item ''record_sha256'')"

definition check_brief :: "pyval \<Rightarrow> pyval \<Rightarrow> pyval \<Rightarrow> unit res" where
  "check_brief task active brief = check_all
    [guard (is_dict brief \<and> py_eq (dget brief ''schema'') (PyInt 1) \<and> py_eq (dget brief ''task_id'') (dget task ''id'')
         \<and> py_eq (dget brief ''change_epoch'') (dget task ''change_epoch'') \<and> is_list (dget brief ''evidence''))
       (schema_error ''invalid active child context brief''),
     guard (\<forall>item \<in> set (items (dget brief ''evidence'')). brief_fact_ok item) (schema_error ''invalid child context item''),
     guard (length (canonical brief) \<le> 16384 \<and> dget active ''context_brief_sha256'' = PyStr (sha256 (canonical brief)))
       (schema_error ''child context brief bound/digest limit failure'')]"

definition check_active_child :: "pyval \<Rightarrow> unit res" where
  "check_active_child task = (let active = dget task ''active_child'' in whenever (active \<noteq> PyNone) (check_all
    [guard (is_dict active \<and> (\<forall>k \<in> set [''role'', ''opened'', ''lease_id'']. is_text (dget active k))) (schema_error ''invalid active child''),
     whenever (dget active ''context_brief'' \<noteq> PyNone) (check_brief task active (dget active ''context_brief''))]))"

text \<open>Lines 349--367: the transition history is a path of the workflow that ends in the current state.\<close>

definition check_entry :: "int \<Rightarrow> string \<Rightarrow> int \<Rightarrow> pyval \<Rightarrow> unit res" where
  "check_entry schema previous last_revision t =
    (if \<not> is_dict t then Inl AttributeErr
     else if dget t ''from'' \<noteq> PyStr previous then Inl (schema_error ''corrupted transition history'')
     else check_all
       [memb (dget t ''to'') (case map_of ALLOWED previous of None \<Rightarrow> [] | Some ts \<Rightarrow> ts) (schema_error ''corrupted transition history''),
        whenever (3 \<le> schema) (check_all
          [guard (is_int (dget t ''revision'') \<and> last_revision < int_of_val (dget t ''revision'')) (schema_error ''transition revisions are not strictly monotonic''),
           guard (is_int (dget t ''epoch'')) (schema_error ''transition epoch missing'')]),
        guard (is_text (dget t ''reason'') \<and> is_str (dget t ''at'')) (schema_error ''transition reason/timestamp is invalid'')])"

fun check_history :: "int \<Rightarrow> string \<Rightarrow> int \<Rightarrow> pyval list \<Rightarrow> string res" where
  "check_history schema previous last_revision [] = Inr previous"
| "check_history schema previous last_revision (t # ts) = (case check_entry schema previous last_revision t of
      Inl e \<Rightarrow> Inl e
    | Inr _ \<Rightarrow> check_history schema (py_str (dget t ''to'')) (if 3 \<le> schema then int_of_val (dget t ''revision'') else last_revision) ts)"

definition check_transitions :: "pyval \<Rightarrow> unit res" where
  "check_transitions task = res_bind (check_history (int_of_val (dget task ''schema'')) ''CREATED'' (- 1) (items (dget task ''transitions''))) (\<lambda>final.
     check_all
       [guard (items (dget task ''transitions'') \<noteq> [] \<longrightarrow> dget task ''state'' = PyStr final) (schema_error ''workflow state does not match transition history''),
        guard (items (dget task ''transitions'') = [] \<longrightarrow> dget task ''state'' = PyStr ''CREATED'') (schema_error ''non-created state has no transition history'')])"

definition validate_task :: "pyval \<Rightarrow> string option \<Rightarrow> unit res" where
  "validate_task task expected_id = check_all
    [check_header task expected_id,
     check_tdd task,
     check_receipts task,
     check_arrays task,
     for_each (check_gate (int_of_val (dget task ''schema''))) (items (dget task ''gates'')),
     for_each check_risk (items (dget task ''risks'')),
     check_decisions [] (items (dget task ''decisions'')),
     for_each check_handoff (items (dget task ''child_history'')),
     check_active_child task,
     check_transitions task,
     guard (3 \<le> int_of_val (dget task ''schema'') \<longrightarrow> dget task ''integrity_sha256'' = PyStr (state_digest task))
       (RuntimeErr ''state integrity digest mismatch'')]"

end
