(* ===== verification/Json_Text.thy ===== *)
theory Json_Text
  imports Json
begin

text \<open>
  The texts of the control files: the indented one of \<open>agentinfra/atomic.py\<close>, in which anchors, journals
  and task states are stored, and the one of a single line in which \<open>agentinfra/locks.py\<close> stores locks
  and leases; and that \<open>json.loads\<close> reads both back.
\<close>

section \<open>The printers\<close>

text \<open>
  White space goes after an opening bracket, after a comma and before a closing bracket, by depth.
\<close>

primrec print_json :: "(nat \<Rightarrow> string) \<Rightarrow> (nat \<Rightarrow> string) \<Rightarrow> (nat \<Rightarrow> string) \<Rightarrow> pyval \<Rightarrow> nat \<Rightarrow> string" where
  "print_json op sp cl PyNone = (\<lambda>l. ''null'')"
| "print_json op sp cl (PyBool b) = (\<lambda>l. if b then ''true'' else ''false'')"
| "print_json op sp cl (PyInt n) = (\<lambda>l. int_str n)"
| "print_json op sp cl (PyStr s) = (\<lambda>l. json_string s)"
| "print_json op sp cl (PyList xs) = (\<lambda>l. if xs = [] then ''[]'' else CHR ''['' # op l
     @ join (CHR '','' # sp l) (map (\<lambda>t. t (Suc l)) (map (print_json op sp cl) xs)) @ cl l @ '']'')"
| "print_json op sp cl (PyDict kvs) = (\<lambda>l. if kvs = [] then ''{}'' else CHR ''{'' # op l
     @ join (CHR '','' # sp l)
         (map (\<lambda>(k, t). json_string k @ '': '' @ t (Suc l)) (map (map_prod id (print_json op sp cl)) kvs)) @ cl l @ ''}'')"

text \<open>\<open>json.dumps(v, indent=2, sort_keys=True) + "\\n"\<close>.\<close>

definition newline_indent :: "nat \<Rightarrow> string" where
  "newline_indent l = CHR 0x0A # replicate (2 * l) (CHR '' '')"

definition json_text :: "pyval \<Rightarrow> string" where
  "json_text v = print_json (\<lambda>l. newline_indent (Suc l)) (\<lambda>l. newline_indent (Suc l)) newline_indent (canon v) 0 @ [CHR 0x0A]"

text \<open>\<open>json.dumps(v, sort_keys=True) + "\\n"\<close>, on one line.\<close>

definition json_line :: "pyval \<Rightarrow> string" where
  "json_line v = print_json (\<lambda>l. []) (\<lambda>l. [CHR '' '']) (\<lambda>l. []) (canon v) 0 @ [CHR 0x0A]"

section \<open>Reading it back\<close>

definition all_ws :: "string \<Rightarrow> bool" where
  "all_ws w \<longleftrightarrow> (\<forall>c \<in> set w. json_ws c)"

lemma all_ws_indent [simp]: "all_ws (newline_indent l)" "all_ws []"
  by (auto simp: all_ws_def newline_indent_def json_ws_def)

lemma skip_ws_append [simp]: "all_ws w \<Longrightarrow> skip_ws (w @ s) = skip_ws s"
  by (induction w) (auto simp: all_ws_def)

lemma skip_ws_all [simp]: "all_ws w \<Longrightarrow> skip_ws w = []"
  by (simp add: all_ws_def)

lemma ws_no_digit: "json_ws c \<Longrightarrow> \<not> is_digit c"
  unfolding json_ws_def by (elim insertE emptyE) (simp_all add: is_digit_def less_eq_char_def)

lemma delim_ws: "all_ws w \<Longrightarrow> delim r \<Longrightarrow> delim (w @ r)"
  by (cases w) (simp_all add: all_ws_def ws_no_digit)

lemma json_val_ws: "all_ws w \<Longrightarrow> json_val n (w @ s) = json_val n s"
  by (cases n) simp_all

lemma json_elems_ws: "all_ws w \<Longrightarrow> json_elems n (w @ s) = json_elems n s"
  by (cases n) (simp_all add: json_val_ws del: json_val.simps)

lemma json_members_ws: "all_ws w \<Longrightarrow> json_members n (w @ s) = json_members n s"
  by (cases n) simp_all

text \<open>A text of a value: whatever may follow it is left unread.\<close>

definition reads_as :: "pyval \<Rightarrow> string \<Rightarrow> bool" where
  "reads_as v t \<longleftrightarrow> (\<forall>n r. need v \<le> n \<longrightarrow> delim r \<longrightarrow> json_val n (t @ r) = Some (v, r)) \<and> (\<exists>c u. t = c # u \<and> opener c)"

lemma reads_asD: "reads_as v t \<Longrightarrow> need v \<le> n \<Longrightarrow> delim r \<Longrightarrow> json_val n (t @ r) = Some (v, r)"
  by (simp add: reads_as_def)

lemma reads_as_dumps: "reads_back v \<Longrightarrow> reads_as v (json_dumps v)"
  using json_dumps_opener [of v] by (simp add: reads_as_def reads_back_def)

lemma reads_as_flat: "wf_val v \<Longrightarrow> t = json_dumps v \<Longrightarrow> reads_as v t"
  by (simp add: reads_as_dumps wf_reads_back)

lemma elems_read:
  assumes "list_all2 reads_as xs ts" and "xs \<noteq> []" and "sum_list (map Suc (map need xs)) \<le> n" and "all_ws w" and "all_ws w'"
  shows "json_elems n (join (CHR '','' # w) ts @ w' @ CHR '']'' # r) = Some (xs, r)"
  using assms(1-3)
proof (induction xs ts arbitrary: n rule: list_all2_induct)
  case (Cons x xs t ts)
  obtain m where n: "n = Suc m" using Cons.prems(2) by (cases n) auto
  show ?case
  proof (cases ts)
    case Nil
    then have "xs = []" using Cons.hyps(2) by simp
    then show ?thesis
      using reads_asD [OF Cons.hyps(1), of m "w' @ CHR '']'' # r"] Cons.prems(2) n Nil by (simp add: delim_ws assms(5))
  next
    case (Cons t' ts')
    then have ne: "xs \<noteq> []" using \<open>list_all2 reads_as xs ts\<close> by auto
    have tl: "json_elems m (join (CHR '','' # w) ts @ w' @ CHR '']'' # r) = Some (xs, r)"
      by (rule Cons.IH) (use ne \<open>sum_list (map Suc (map need (x # xs))) \<le> n\<close> n in auto)
    let ?r = "CHR '','' # w @ join (CHR '','' # w) ts @ w' @ CHR '']'' # r"
    have hd: "json_val m (t @ ?r) = Some (x, ?r)"
      using reads_asD [OF \<open>reads_as x t\<close>, of m ?r] \<open>sum_list (map Suc (map need (x # xs))) \<le> n\<close> n by simp
    have "join (CHR '','' # w) (t # ts) @ w' @ CHR '']'' # r = t @ ?r" using Cons by simp
    moreover have "json_elems n (t @ ?r) = Some (x # xs, r)"
      unfolding n by (simp add: hd json_elems_ws [OF assms(4)] tl del: json_val.simps)
    ultimately show ?thesis by simp
  qed
qed simp

abbreviation member_as :: "(string \<times> pyval) \<Rightarrow> (string \<times> string) \<Rightarrow> bool" where
  "member_as kv kt \<equiv> fst kt = fst kv \<and> reads_as (snd kv) (snd kt)"

abbreviation member_line :: "string \<times> string \<Rightarrow> string" where
  "member_line kt \<equiv> json_string (fst kt) @ '': '' @ snd kt"

lemma member_head:
  assumes "reads_as v t" and "need v \<le> m" and "delim r"
  shows "json_members (Suc m) (json_string k @ '': '' @ t @ r) = (case skip_ws r of [] \<Rightarrow> None
     | e # r' \<Rightarrow> if e = CHR '','' then map_option (map_prod (Cons (k, v)) id) (json_members m r')
                 else if e = CHR ''}'' then Some ([(k, v)], r') else None)"
proof -
  have "json_val m (CHR '' '' # t @ r) = json_val m (t @ r)"
    using json_val_ws [of "'' ''" m "t @ r"] by (simp add: all_ws_def json_ws_def)
  then have "json_val m (CHR '' '' # t @ r) = Some (v, r)" using reads_asD [OF assms] by simp
  then show ?thesis using json_str_string [of k "CHR '':'' # CHR '' '' # t @ r"]
    by (simp add: json_string_def del: json_val.simps)
qed

lemma members_read:
  assumes "list_all2 member_as kvs kts" and "kvs \<noteq> []" and "sum_list (map (\<lambda>kv. Suc (need (snd kv))) kvs) \<le> n" and "all_ws w" and "all_ws w'"
  shows "json_members n (join (CHR '','' # w) (map member_line kts) @ w' @ CHR ''}'' # r) = Some (kvs, r)"
  using assms(1-3)
proof (induction kvs kts arbitrary: n rule: list_all2_induct)
  case (Cons kv kvs kt kts)
  obtain m where n: "n = Suc m" using Cons.prems(2) by (cases n) auto
  obtain k v t where kv: "kv = (k, v)" "kt = (k, t)" "reads_as v t" using Cons.hyps(1) by (cases kv, cases kt) auto
  have m: "need v \<le> m" using Cons.prems(2) n kv by simp
  show ?case
  proof (cases kts)
    case Nil
    then have "kvs = []" using Cons.hyps(2) by simp
    then show ?thesis
      using member_head [OF kv(3) m delim_ws [OF assms(5)], of "CHR ''}'' # r" k] Nil n kv assms(5) by simp
  next
    case (Cons kt' kts')
    then have ne: "kvs \<noteq> []" using \<open>list_all2 member_as kvs kts\<close> by auto
    let ?tl = "join (CHR '','' # w) (map member_line kts) @ w' @ CHR ''}'' # r"
    have tl: "json_members m ?tl = Some (kvs, r)"
      by (rule Cons.IH) (use ne \<open>sum_list (map (\<lambda>kv. Suc (need (snd kv))) (kv # kvs)) \<le> n\<close> n in auto)
    let ?r = "CHR '','' # w @ ?tl"
    have "join (CHR '','' # w) (map member_line (kt # kts)) @ w' @ CHR ''}'' # r = json_string k @ '': '' @ t @ ?r"
      using Cons kv by simp
    moreover have "json_members n (json_string k @ '': '' @ t @ ?r) = Some (kv # kvs, r)"
      unfolding n using member_head [OF kv(3) m, of ?r k] tl kv by (simp add: json_members_ws [OF assms(4)] del: json_members.simps)
    ultimately show ?thesis by simp
  qed
qed simp

lemma length_join_le:
  "list_all2 (\<lambda>s t. length s \<le> length t) ss ts \<Longrightarrow> length (join [c] ss) \<le> length (join (c # w) ts)"
proof (induction ss ts rule: list_all2_induct)
  case (Cons s ss t ts)
  then show ?case by (cases ss; cases ts) auto
qed simp

lemma length_print: "length (json_dumps v) \<le> length (print_json op sp cl v l)"
proof (induction v arbitrary: l)
  case (PyList xs)
  have "list_all2 (\<lambda>s t. length s \<le> length t) (map json_dumps xs) (map (\<lambda>t. t (Suc l)) (map (print_json op sp cl) xs))"
    using PyList by (simp add: list_all2_conv_all_nth)
  from length_join_le [OF this] show ?case by (simp add: trans_le_add1 trans_le_add2)
next
  case (PyDict kvs)
  have "list_all2 (\<lambda>s t. length s \<le> length t) (map member_text kvs) (map (\<lambda>kv. member_line (fst kv, print_json op sp cl (snd kv) (Suc l))) kvs)"
    using PyDict by (auto simp: list.rel_map snds.simps intro!: list.rel_refl_strong le_SucI)
  from length_join_le [OF this, of "CHR '',''" "sp l"] show ?case
    by (simp add: comp_def split_def trans_le_add1 trans_le_add2)
qed simp_all

text \<open>Any layout of white space reads back.\<close>

locale json_layout =
  fixes op :: "nat \<Rightarrow> string" and sp :: "nat \<Rightarrow> string" and cl :: "nat \<Rightarrow> string"
  assumes op_ws [simp]: "all_ws (op l)" and sp_ws [simp]: "all_ws (sp l)" and cl_ws [simp]: "all_ws (cl l)"
begin

lemma reads_print: "wf_val v \<Longrightarrow> reads_as v (print_json op sp cl v l)"
proof (induction v arbitrary: l)
  case (PyList xs)
  show ?case
  proof (cases "xs = []")
    case True
    then show ?thesis using reads_as_dumps [OF wf_reads_back [of "PyList []"]] by simp
  next
    case False
    let ?ts = "map (\<lambda>t. t (Suc l)) (map (print_json op sp cl) xs)"
    have "list_all2 reads_as xs ?ts"
      using PyList by (auto simp: list_all2_conv_all_nth wf_list simp del: wf_val.simps)
    then have e: "json_elems m (op l @ join (CHR '','' # sp l) ?ts @ cl l @ CHR '']'' # r) = Some (xs, r)"
      if "sum_list (map Suc (map need xs)) \<le> m" for m r
      using elems_read [OF _ False that sp_ws cl_ws] json_elems_ws [OF op_ws] by simp
    obtain x xs' where x: "xs = x # xs'" using False by (cases xs) auto
    obtain c u where c: "print_json op sp cl x (Suc l) = c # u" "opener c" using PyList.IH [of x "Suc l"] PyList.prems x by (auto simp: reads_as_def)
    have ns: "\<not> startswith (skip_ws (op l @ join (CHR '','' # sp l) ?ts @ cl l @ CHR '']'' # r)) '']''" for r
      using c by (cases xs') (auto simp: x opener_def)
    have "json_val n (print_json op sp cl (PyList xs) l @ r) = Some (PyList xs, r)" if "need (PyList xs) \<le> n" for n r
    proof -
      obtain m where m: "n = Suc m" "sum_list (map Suc (map need xs)) \<le> m" using \<open>need (PyList xs) \<le> n\<close> by (cases n) auto
      show ?thesis using ns [of r] e [OF m(2), of r] False m(1) by (simp del: json_elems.simps)
    qed
    then show ?thesis using False by (simp add: reads_as_def opener_def json_ws_def)
  qed
next
  case (PyDict kvs)
  show ?case
  proof (cases "kvs = []")
    case True
    then show ?thesis using reads_as_dumps [OF wf_reads_back [of "PyDict []"]] by simp
  next
    case False
    let ?kts = "map (\<lambda>(k, v). (k, print_json op sp cl v (Suc l))) kvs"
    have shape: "print_json op sp cl (PyDict kvs) l = CHR ''{'' # op l @ join (CHR '','' # sp l) (map member_line ?kts) @ cl l @ ''}''"
      using False by (simp add: comp_def split_def)
    have "list_all2 member_as kvs ?kts"
    proof (rule list_all2_all_nthI)
      fix i assume i: "i < length kvs"
      have "reads_as (snd (kvs ! i)) (print_json op sp cl (snd (kvs ! i)) (Suc l))"
        using PyDict.IH [of "kvs ! i" "snd (kvs ! i)" "Suc l"] PyDict.prems nth_mem [OF i]
        by (fastforce simp: wf_dict snds.simps simp del: wf_val.simps)
      then show "member_as (kvs ! i) (?kts ! i)" using i by (simp add: split_def)
    qed simp
    then have e: "json_members m (op l @ join (CHR '','' # sp l) (map member_line ?kts) @ cl l @ CHR ''}'' # r) = Some (kvs, r)"
      if "sum_list (map (\<lambda>kv. Suc (need (snd kv))) kvs) \<le> m" for m r
      using members_read [OF _ False that sp_ws cl_ws] by (simp only: json_members_ws [OF op_ws])
    obtain kv kvs' where x: "kvs = kv # kvs'" using False by (cases kvs) auto
    have ns: "\<not> startswith (skip_ws (op l @ join (CHR '','' # sp l) (map member_line ?kts) @ cl l @ CHR ''}'' # r)) ''}''" for r
      by (cases kvs') (auto simp: x json_string_def)
    have need: "need (PyDict kvs) = Suc (sum_list (map (\<lambda>kv. Suc (need (snd kv))) kvs))" by (simp add: comp_def split_def)
    have "json_val n (print_json op sp cl (PyDict kvs) l @ r) = Some (PyDict kvs, r)" if "need (PyDict kvs) \<le> n" for n r
    proof -
      obtain m where m: "n = Suc m" "sum_list (map (\<lambda>kv. Suc (need (snd kv))) kvs) \<le> m" using \<open>need (PyDict kvs) \<le> n\<close> need by (cases n) auto
      show ?thesis unfolding shape using ns [of r] e [OF m(2), of r] m(1) dict_of_distinct [of kvs] PyDict.prems
        by (simp add: wf_dict del: json_members.simps wf_val.simps print_json.simps)
    qed
    then show ?thesis using False by (simp add: reads_as_def opener_def json_ws_def)
  qed
qed (rule reads_as_flat; simp)+


lemma loads_print:
  assumes "wf_val v"
  shows "json_loads (print_json op sp cl (canon v) 0 @ [CHR 0x0A]) = Some (canon v)"
proof -
  let ?t = "print_json op sp cl (canon v) 0"
  have "reads_as (canon v) ?t" using assms by (simp add: reads_print)
  moreover have "need (canon v) \<le> length ?t"
    using need_le_length [of "canon v"] length_print [of "canon v" op sp cl 0] by linarith
  ultimately have "json_val (2 * length (?t @ [CHR 0x0A]) + 2) (?t @ [CHR 0x0A]) = Some (canon v, [CHR 0x0A])"
    by (intro reads_asD) (simp_all add: is_digit_def less_eq_char_def)
  then show ?thesis by (simp add: json_loads_def json_ws_def)
qed

end

interpretation indented: json_layout "\<lambda>l. newline_indent (Suc l)" "\<lambda>l. newline_indent (Suc l)" newline_indent
  by unfold_locales simp_all

interpretation one_line: json_layout "\<lambda>l. []" "\<lambda>l. [CHR '' '']" "\<lambda>l. []"
  by unfold_locales (simp_all add: all_ws_def json_ws_def)

lemma json_text_reads: "wf_val v \<Longrightarrow> json_loads (json_text v) = Some (canon v)"
  by (simp add: json_text_def indented.loads_print)

lemma json_line_reads: "wf_val v \<Longrightarrow> json_loads (json_line v) = Some (canon v)"
  by (simp add: json_line_def one_line.loads_print)

end
