(* ===== verification/Base64.thy ===== *)
theory Base64
  imports Py_Prelude
begin

text \<open>
  \<open>base64.b64encode\<close> and \<open>base64.b64decode(..., validate=True)\<close>, with which the transaction journal
  keeps the bytes a destination had before. Bytes are characters; the decoder takes groups of four
  letters with the padding at the end and gives \<open>None\<close> where the library raises.
\<close>

text \<open>The letters \<open>A-Z\<close>, \<open>a-z\<close>, \<open>0-9\<close>, \<open>+\<close>, \<open>/\<close> in this order.\<close>

definition b64_char :: "nat \<Rightarrow> char" where
  "b64_char k = (if k < 26 then char_of (65 + k) else if k < 52 then char_of (71 + k)
     else if k < 62 then char_of (k - 4) else if k = 62 then CHR ''+'' else CHR ''/'')"

definition b64_val :: "char \<Rightarrow> nat option" where
  "b64_val c = (let n = of_char c :: nat in
     if 65 \<le> n \<and> n \<le> 90 then Some (n - 65)
     else if 97 \<le> n \<and> n \<le> 122 then Some (n - 71)
     else if 48 \<le> n \<and> n \<le> 57 then Some (n + 4)
     else if n = 43 then Some 62 else if n = 47 then Some 63 else None)"

fun b64encode :: "string \<Rightarrow> string" where
  "b64encode [] = []"
| "b64encode [a] = (let x = of_char a :: nat in [b64_char (x div 4), b64_char (x mod 4 * 16), CHR ''='', CHR ''=''])"
| "b64encode [a, b] = (let x = of_char a :: nat; y = of_char b :: nat in
     [b64_char (x div 4), b64_char (x mod 4 * 16 + y div 16), b64_char (y mod 16 * 4), CHR ''=''])"
| "b64encode (a # b # c # r) = (let x = of_char a :: nat; y = of_char b :: nat; z = of_char c :: nat in
     b64_char (x div 4) # b64_char (x mod 4 * 16 + y div 16) # b64_char (y mod 16 * 4 + z div 64) # b64_char (z mod 64) # b64encode r)"

fun b64decode :: "string \<Rightarrow> string option" where
  "b64decode [] = Some []"
| "b64decode (p # q # r # s # t) = (case (b64_val p, b64_val q) of
     (Some i, Some j) \<Rightarrow>
       (if r = CHR ''='' \<and> s = CHR ''='' then (if t = [] then Some [char_of (i * 4 + j div 16)] else None)
        else case b64_val r of None \<Rightarrow> None
         | Some k \<Rightarrow>
           (if s = CHR ''='' then (if t = [] then Some [char_of (i * 4 + j div 16), char_of (j mod 16 * 16 + k div 4)] else None)
            else case b64_val s of None \<Rightarrow> None
             | Some l \<Rightarrow> map_option (\<lambda>u. char_of (i * 4 + j div 16) # char_of (j mod 16 * 16 + k div 4) # char_of (k mod 4 * 64 + l) # u) (b64decode t)))
   | _ \<Rightarrow> None)"
| "b64decode s = None"

lemma b64_val_char [simp]: "k < 64 \<Longrightarrow> b64_val (b64_char k) = Some k"
  by (auto simp: b64_val_def b64_char_def Let_def)

lemma b64_char_pad [simp]: "k < 64 \<Longrightarrow> b64_char k \<noteq> CHR ''=''"
  using b64_val_char [of k] by (auto simp: b64_val_def simp del: b64_val_char)

lemma byte_lt: "(of_char c :: nat) < 256"
  using range_nat_of_char by auto

lemma div_pack: "c < b \<Longrightarrow> (a * b + c) div b = a" "c < b \<Longrightarrow> (a * b + c) mod b = c" for a b c :: nat
  by simp_all

theorem b64_roundtrip: "b64decode (b64encode s) = Some s"
proof (induction s rule: b64encode.induct)
  case (2 a)
  let ?x = "of_char a :: nat"
  have "?x div 4 < 64" "?x mod 4 * 16 < 64" "?x div 4 * 4 + ?x mod 4 * 16 div 16 = ?x"
    using byte_lt [of a] by (simp_all add: less_mult_imp_div_less)
  then show ?case by (simp add: Let_def)
next
  case (3 a b)
  let ?x = "of_char a :: nat" and ?y = "of_char b :: nat"
  have lt: "?x div 4 < 64" "?y div 16 < 16" "?x mod 4 < 4" "?y mod 16 < 16" using byte_lt [of a] byte_lt [of b] by (simp_all add: less_mult_imp_div_less)
  then have "?x mod 4 * 16 + ?y div 16 < 64" "?y mod 16 * 4 < 64" by linarith+
  then show ?case using lt by (simp add: Let_def div_pack)
next
  case (4 a b c r)
  let ?x = "of_char a :: nat" and ?y = "of_char b :: nat" and ?z = "of_char c :: nat"
  have lt: "?x div 4 < 64" "?y div 16 < 16" "?x mod 4 < 4" "?y mod 16 < 16" "?z div 64 < 4" "?z mod 64 < 64"
    using byte_lt [of a] byte_lt [of b] byte_lt [of c] by (simp_all add: less_mult_imp_div_less)
  then have "?x mod 4 * 16 + ?y div 16 < 64" "?y mod 16 * 4 + ?z div 64 < 64" by linarith+
  then show ?case using 4 lt by (simp add: Let_def div_pack)
qed simp

end
