(* ===== verification/File_System.thy ===== *)
theory File_System
  imports Json_Text Posix_Path "HOL-Library.Sublist"
begin

text \<open>
  The file system the control plane works on: a project root with files, directories and symbolic
  links below it (POSIX; the Windows branches of the sources are not modelled), the directories of
  \<open>agentinfra/paths.py\<close>, and \<open>is_path_redirect\<close> and \<open>confined_path\<close> of \<open>agentinfra/security.py\<close>.

  A path is the list of its components below the root, in the normal form \<open>pathlib\<close> gives it. A file
  has an inode number, shared by its hard links, permission bits and bytes.
\<close>

section \<open>Disks\<close>

type_synonym path = "string list"

datatype node =
    File (inode: nat) (mode: int) (bytes: string)
  | Directory
  | Symlink (target: string) (to_dir: bool)

type_synonym disk = "(path \<times> node) list"

text \<open>The root itself is a directory.\<close>

definition node_at :: "disk \<Rightarrow> path \<Rightarrow> node option" where
  "node_at d p = (if p = [] then Some Directory else map_of d p)"

definition exists :: "disk \<Rightarrow> path \<Rightarrow> bool" where
  "exists d p \<longleftrightarrow> node_at d p \<noteq> None"

definition is_dir :: "disk \<Rightarrow> path \<Rightarrow> bool" where
  "is_dir d p \<longleftrightarrow> node_at d p = Some Directory"

definition is_file :: "disk \<Rightarrow> path \<Rightarrow> bool" where
  "is_file d p \<longleftrightarrow> (case node_at d p of Some (File i m b) \<Rightarrow> True | _ \<Rightarrow> False)"

text \<open>The bytes of a regular file.\<close>

definition read :: "disk \<Rightarrow> path \<Rightarrow> string option" where
  "read d p = (case node_at d p of Some (File i m b) \<Rightarrow> Some b | _ \<Rightarrow> None)"

definition put :: "disk \<Rightarrow> path \<Rightarrow> node \<Rightarrow> disk" where
  "put d p n = AList.update p n d"

definition remove :: "disk \<Rightarrow> path \<Rightarrow> disk" where
  "remove d p = AList.delete p d"

text \<open>The names in a directory, in order.\<close>

definition names :: "disk \<Rightarrow> path \<Rightarrow> string list" where
  "names d p = sort (remdups (map last (filter (\<lambda>q. q \<noteq> [] \<and> butlast q = p) (map fst d))))"

definition fresh_inode :: "disk \<Rightarrow> nat" where
  "fresh_inode d = Suc (fold max (map (\<lambda>e. case snd e of File i m b \<Rightarrow> i | _ \<Rightarrow> 0) d) 0)"

text \<open>A name no file has: longer than all of them.\<close>

definition fresh_name :: "disk \<Rightarrow> string" where
  "fresh_name d = replicate (Suc (fold max (map (\<lambda>e. length (concat (fst e))) d) 0)) (CHR ''x'')"

text \<open>Every proper ancestor and the path itself, from the root down.\<close>

definition steps :: "path \<Rightarrow> path list" where
  "steps p = map (\<lambda>k. take k p) [1..<Suc (length p)]"

lemma fold_max_ge: "x \<in> set xs \<Longrightarrow> x \<le> fold max xs a" "a \<le> fold max xs a" for x a :: nat
proof (induction xs arbitrary: a)
  case (Cons y xs)
  { case 1 then show ?case using Cons(1) [of "max y a"] Cons(2) [of "max y a"] by auto }
  { case 2 then show ?case using Cons(2) [of "max y a"] by simp }
qed simp_all

lemma node_at_put [simp]: "p \<noteq> [] \<Longrightarrow> node_at (put d p n) q = (if q = p then Some n else node_at d q)"
  by (auto simp: node_at_def put_def update_conv')

lemma node_at_remove [simp]: "p \<noteq> [] \<Longrightarrow> node_at (remove d p) q = (if q = p then None else node_at d q)"
  by (auto simp: node_at_def remove_def delete_conv')

lemma node_at_root [simp]: "node_at d [] = Some Directory"
  by (simp add: node_at_def)

lemma read_put [simp]: "p \<noteq> [] \<Longrightarrow> read (put d p n) q = (if q = p then (case n of File i m b \<Rightarrow> Some b | _ \<Rightarrow> None) else read d q)"
  by (simp add: read_def split: node.split)

lemma read_remove [simp]: "p \<noteq> [] \<Longrightarrow> read (remove d p) q = (if q = p then None else read d q)"
  by (simp add: read_def)

lemma set_names: "n \<in> set (names d p) \<longleftrightarrow> exists d (p @ [n])"
proof
  assume "n \<in> set (names d p)"
  then obtain q x where "(q, x) \<in> set d" "q \<noteq> []" "butlast q = p" "n = last q" by (auto simp: names_def)
  then have "q = p @ [n]" by (metis append_butlast_last_id)
  moreover have "q \<in> fst ` set d" using \<open>(q, x) \<in> set d\<close> by force
  ultimately show "exists d (p @ [n])" by (simp add: exists_def node_at_def map_of_eq_None_iff)
next
  assume "exists d (p @ [n])"
  then have "p @ [n] \<in> fst ` set d" by (simp add: exists_def node_at_def map_of_eq_None_iff split: if_splits)
  then show "n \<in> set (names d p)" unfolding names_def by (auto intro!: image_eqI [of _ last "p @ [n]"])
qed

lemma names_sorted [simp]: "sorted (names d p)" "distinct (names d p)"
  by (simp_all add: names_def)

text \<open>What a directory lists depends on the nodes alone.\<close>

lemma names_cong: "(\<And>n. exists d (p @ [n]) = exists d' (p @ [n])) \<Longrightarrow> names d p = names d' p"
  by (intro sorted_distinct_set_unique) (auto simp: set_names)

lemma node_in: "node_at d p = Some n \<Longrightarrow> p \<noteq> [] \<Longrightarrow> (p, n) \<in> set d"
  by (simp add: node_at_def map_of_SomeD)

lemma fresh_inode_new: "node_at d p = Some (File i m b) \<Longrightarrow> i < fresh_inode d"
proof -
  assume n: "node_at d p = Some (File i m b)"
  then have "p \<noteq> []" by (auto simp: node_at_def)
  from node_in [OF n this] have "i \<in> set (map (\<lambda>e. case snd e of File i m b \<Rightarrow> i | _ \<Rightarrow> 0) d)" by (force intro: rev_image_eqI)
  from fold_max_ge(1) [OF this, of 0] show ?thesis by (simp add: fresh_inode_def)
qed

lemma fresh_name_new:
  assumes "length (fresh_name d) \<le> length (concat p)"
  shows "p = [] \<or> node_at d p = None"
proof (rule disjCI)
  assume "node_at d p \<noteq> None"
  then obtain n where n: "node_at d p = Some n" by blast
  show "p = []"
  proof (rule ccontr)
    assume "p \<noteq> []"
    from node_in [OF n this] have "length (concat p) \<in> set (map (\<lambda>e. length (concat (fst e))) d)" by force
    from fold_max_ge(1) [OF this, of 0] show False using assms by (simp add: fresh_name_def)
  qed
qed

section \<open>Operations on the disk\<close>

text \<open>A computation that changes the disk and returns or raises; what it did before raising stays.\<close>

type_synonym 'a io = "disk \<Rightarrow> disk \<times> 'a res"

definition io_return :: "'a \<Rightarrow> 'a io" where
  "io_return x d = (d, Inr x)"

definition io_raise :: "exn \<Rightarrow> 'a io" where
  "io_raise e d = (d, Inl e)"

definition io_bind :: "'a io \<Rightarrow> ('a \<Rightarrow> 'b io) \<Rightarrow> 'b io" where
  "io_bind m f d = (case m d of (d', Inl e) \<Rightarrow> (d', Inl e) | (d', Inr x) \<Rightarrow> f x d')"

text \<open>A computation that only reads the disk.\<close>

definition io_get :: "(disk \<Rightarrow> 'a res) \<Rightarrow> 'a io" where
  "io_get f d = (d, f d)"

fun io_each :: "('a \<Rightarrow> unit io) \<Rightarrow> 'a list \<Rightarrow> unit io" where
  "io_each f [] = io_return ()"
| "io_each f (x # xs) = io_bind (f x) (\<lambda>_. io_each f xs)"

fun io_map :: "('a \<Rightarrow> 'b io) \<Rightarrow> 'a list \<Rightarrow> 'b list io" where
  "io_map f [] = io_return []"
| "io_map f (x # xs) = io_bind (f x) (\<lambda>y. io_bind (io_map f xs) (\<lambda>ys. io_return (y # ys)))"

lemma io_simps [simp]:
  "io_return x d = (d, Inr x)" "io_raise e d = (d, Inl e)" "io_get f d = (d, f d)"
  by (simp_all add: io_return_def io_raise_def io_get_def)

lemma io_bind_ok [simp]: "m d = (d', Inr x) \<Longrightarrow> io_bind m f d = f x d'"
  and io_bind_raise [simp]: "m d = (d', Inl e) \<Longrightarrow> io_bind m f d = (d', Inl e)"
  by (simp_all add: io_bind_def)

lemma io_bind_Inr: "io_bind m f d = (d'', Inr y) \<longleftrightarrow> (\<exists>x d'. m d = (d', Inr x) \<and> f x d' = (d'', Inr y))"
  by (auto simp: io_bind_def split: prod.splits sum.splits)

section \<open>Confinement\<close>

text \<open>A path as a caller passes it: relative, or absolute for a project root \<open>r\<close>.\<close>

datatype supplied = Rel path | Abs path

fun parts :: "supplied \<Rightarrow> path" where
  "parts (Rel p) = p"
| "parts (Abs p) = p"

text \<open>The components below the root; no path outside the root leads back into it.\<close>

fun below :: "path \<Rightarrow> supplied \<Rightarrow> path option" where
  "below r (Rel p) = Some p"
| "below r (Abs p) = (if take (length r) p = r then Some (drop (length r) p) else None)"

definition is_path_redirect :: "disk \<Rightarrow> path \<Rightarrow> bool" where
  "is_path_redirect d p \<longleftrightarrow> (case node_at d p of Some (Symlink t b) \<Rightarrow> True | _ \<Rightarrow> False)"

definition redirected :: "disk \<Rightarrow> path \<Rightarrow> bool" where
  "redirected d p \<longleftrightarrow> (\<exists>q \<in> set (steps p). is_path_redirect d q)"

definition confined_path :: "path \<Rightarrow> disk \<Rightarrow> supplied \<Rightarrow> bool \<Rightarrow> bool \<Rightarrow> path res" where
  "confined_path r d value must_exist allow_root =
    (if ''..'' \<in> set (parts value) then Inl (SecurityError ''parent traversal is not allowed'')
     else case below r value of
       None \<Rightarrow> Inl (SecurityError ''path escapes root'')
     | Some p \<Rightarrow>
        if redirected d p then Inl (SecurityError ''redirected control path is not allowed'')
        else if \<not> allow_root \<and> p = [] then Inl (SecurityError ''root itself is not a valid confined child path'')
        else if must_exist \<and> \<not> exists d p then Inl (SecurityError ''required path does not exist'')
        else Inr p)"

section \<open>Control directories\<close>

definition agents_dir :: path where "agents_dir = [''.agents'']"
definition aegis_dir :: path where "aegis_dir = [''.aegis'']"
definition runtime_dir :: path where "runtime_dir = aegis_dir @ [''runtime'']"
definition tasks_dir :: path where "tasks_dir = aegis_dir @ [''tasks'']"
definition persistent_dir :: path where "persistent_dir = aegis_dir @ [''state'']"
definition leases_dir :: path where "leases_dir = aegis_dir @ [''leases'']"

text \<open>Control files hold JSON; a reader sees no file, text that is not JSON, or a value.\<close>

definition json_at :: "disk \<Rightarrow> path \<Rightarrow> pyval option" where
  "json_at d p = Option.bind (read d p) json_loads"

end
