(* ===== verification/Governance.thy ===== *)
theory Governance
  imports File_System Sha256
begin

text \<open>
  \<open>agentinfra/governance.py\<close>: what counts as governing input (the deployed \<open>.agents\<close> tree and every
  \<open>AGENTS.md\<close>), the digest that detects a change of it, and the guard every managed write passes.
\<close>

section \<open>Governing files\<close>

definition walk_excluded :: "string list" where
  "walk_excluded = [''.git'', ''.aegis'', ''dist'', ''build'', ''vendor'', ''node_modules'', ''__pycache__'']"

text \<open>\<open>os.walk\<close> lists as files what is not a directory and not a link to one; it enters no excluded name.\<close>

definition is_instruction :: "disk \<Rightarrow> path \<Rightarrow> bool" where
  "is_instruction d p \<longleftrightarrow> p \<noteq> [] \<and> last p = ''AGENTS.md'' \<and> list_all (\<lambda>c. c \<notin> set walk_excluded) (butlast p)
     \<and> (case node_at d p of Some (File i m b) \<Rightarrow> True | Some (Symlink t b) \<Rightarrow> \<not> b | _ \<Rightarrow> False)"

definition instruction_files :: "disk \<Rightarrow> path list" where
  "instruction_files d = sort_key posix (remdups (filter (is_instruction d) (map fst d)))"

definition under_agents :: "path \<Rightarrow> bool" where
  "under_agents p \<longleftrightarrow> p \<noteq> [] \<and> hd p = ''.agents''"

definition agents_present :: "disk \<Rightarrow> bool" where
  "agents_present d \<longleftrightarrow> is_dir d agents_dir"

text \<open>\<open>_identity\<close>: device and inode, here of a regular file; directories have no second name.\<close>

definition identity :: "disk \<Rightarrow> path \<Rightarrow> nat option" where
  "identity d p = (case node_at d p of Some (File i m b) \<Rightarrow> Some i | _ \<Rightarrow> None)"

definition governing_file_identities :: "disk \<Rightarrow> nat list" where
  "governing_file_identities d = List.map_filter (identity d)
     ((if agents_present d then filter (\<lambda>p. under_agents p \<and> p \<noteq> agents_dir) (map fst d) else []) @ instruction_files d)"

definition entry :: "disk \<Rightarrow> path \<Rightarrow> pyval" where
  "entry d p = (case node_at d p of
      Some (Symlink t b) \<Rightarrow> PyDict [(''path'', PyStr (posix p)), (''kind'', PyStr ''redirect''), (''target'', PyStr t)]
    | Some Directory \<Rightarrow> PyDict [(''path'', PyStr (posix p)), (''kind'', PyStr ''directory''), (''size'', PyInt 0)]
    | Some (File i m b) \<Rightarrow> PyDict [(''path'', PyStr (posix p)), (''kind'', PyStr ''file''), (''size'', PyInt (int (length b))),
         (''sha256'', PyStr (sha256 b))]
    | None \<Rightarrow> PyDict [(''path'', PyStr (posix p)), (''kind'', PyStr ''other'')])"

definition governed :: "disk \<Rightarrow> path list" where
  "governed d = sort_key posix (remdups (filter (\<lambda>p. under_agents p \<or> is_instruction d p) (map fst d)))"

definition capture_governance :: "path \<Rightarrow> disk \<Rightarrow> pyval res" where
  "capture_governance r d =
    (if \<not> agents_present d then Inl (GovernanceViolation ''AEGIS-I001: deployed .agents root is missing or redirected'')
     else let body = PyDict [(''schema'', PyInt 1), (''project_root'', PyStr (CHR ''/'' # posix r)),
            (''integrity_mode'', PyStr ''INTEGRITY_DETECTION''), (''preventive_scope'', PyStr ''AEGIS_MANAGED_MUTATION_PATHS''),
            (''entries'', PyList (map (entry d) (governed d)))]
          in Inr (dset body ''digest'' (PyStr (sha256 (canonical body)))))"

definition verify_governance :: "path \<Rightarrow> disk \<Rightarrow> pyval \<Rightarrow> pyval res" where
  "verify_governance r d snapshot =
    res_bind (check_all
      [guard (is_dict snapshot \<and> py_eq (dget snapshot ''schema'') (PyInt 1)) (GovernanceViolation ''AEGIS-I001: governance snapshot schema is invalid''),
       guard (dget snapshot ''project_root'' = PyStr (CHR ''/'' # posix r)) (GovernanceViolation ''AEGIS-I001: governance snapshot belongs to another project root'')]) (\<lambda>_.
    res_bind (capture_governance r d) (\<lambda>current.
    if \<not> py_eq (dget current ''digest'') (dget snapshot ''digest'') \<or> \<not> py_eq (dget current ''entries'') (dget snapshot ''entries'')
    then Inl (GovernanceViolation ''AEGIS-I001: governance integrity changed'')
    else Inr (PyDict [(''ok'', PyBool True), (''digest'', dget current ''digest''), (''entry_count'', PyInt (int (length (items (dget current ''entries'')))))])))"

section \<open>The mutation guard\<close>

text \<open>\<open>resolve\<close> where no component is a link: \<open>..\<close> removes the component before it.\<close>

fun collapse :: "path \<Rightarrow> path \<Rightarrow> path" where
  "collapse acc [] = rev acc"
| "collapse acc (c # p) = (if c = ''..'' then collapse (tl acc) p else collapse (c # acc) p)"

definition resolve :: "path \<Rightarrow> path" where
  "resolve p = collapse [] p"

definition redirected_target :: "path \<Rightarrow> disk \<Rightarrow> path \<Rightarrow> bool" where
  "redirected_target r d p \<longleftrightarrow> (\<exists>q \<in> set (steps p).
     case below r (Abs (resolve (r @ q))) of Some x \<Rightarrow> is_path_redirect d x | None \<Rightarrow> False)"

definition hardlinked :: "path \<Rightarrow> disk \<Rightarrow> path \<Rightarrow> bool" where
  "hardlinked r d candidate \<longleftrightarrow> (case below r (Abs (resolve candidate)) of
      None \<Rightarrow> False
    | Some p \<Rightarrow> (case identity d p of None \<Rightarrow> False | Some i \<Rightarrow> i \<in> set (governing_file_identities d)))"

definition candidate_path :: "path \<Rightarrow> supplied \<Rightarrow> path" where
  "candidate_path r t = (case t of Rel p \<Rightarrow> r @ p | Abs p \<Rightarrow> p)"

definition assert_mutation_allowed :: "path \<Rightarrow> disk \<Rightarrow> supplied \<Rightarrow> unit res" where
  "assert_mutation_allowed r d t =
    (if (case t of Rel p \<Rightarrow> ''..'' \<in> set p | Abs p \<Rightarrow> False) then Inl (GovernanceViolation ''AEGIS-I001: path uses parent traversal'')
     else let candidate = candidate_path r t in
       case below r (Abs candidate) of
         None \<Rightarrow> Inl (GovernanceViolation ''AEGIS-I010: target escapes project root'')
       | Some p \<Rightarrow> check_all
          [guard (\<not> under_agents p) (GovernanceViolation ''AEGIS-I001: deployed .agents governance is immutable''),
           guard (\<not> (p \<noteq> [] \<and> last p = ''AGENTS.md'')) (GovernanceViolation ''AEGIS-I001: governing instruction file is immutable''),
           guard (\<not> redirected_target r d p) (GovernanceViolation ''AEGIS-I001: redirected mutation path is forbidden''),
           (case below r (Abs (resolve (butlast candidate) @ (if candidate = [] then [] else [last candidate]))) of
              None \<Rightarrow> Inl (GovernanceViolation ''AEGIS-I001: resolved mutation path escapes project root'')
            | Some q \<Rightarrow> guard (\<not> under_agents q) (GovernanceViolation ''AEGIS-I001: resolved target enters deployed governance'')),
           guard (\<not> hardlinked r d candidate) (GovernanceViolation ''AEGIS-I001: hardlinked governing content is immutable'')])"

section \<open>Writes outside the governed set keep the snapshot\<close>

lemma below_root [simp]: "below r (Abs (r @ p)) = Some p"
  by simp

lemma collapse_plain: "''..'' \<notin> set p \<Longrightarrow> collapse acc p = rev acc @ p"
  by (induction p arbitrary: acc) auto

lemma resolve_plain [simp]: "''..'' \<notin> set p \<Longrightarrow> resolve p = p"
  by (simp add: resolve_def collapse_plain)

lemma redirected_plain: "''..'' \<notin> set (r @ p) \<Longrightarrow> redirected_target r d p = redirected d p"
proof -
  assume a: "''..'' \<notin> set (r @ p)"
  have "resolve (r @ q) = r @ q" if "q \<in> set (steps p)" for q
    using a that by (auto simp: steps_def intro!: resolve_plain dest: in_set_takeD)
  then show ?thesis by (simp add: redirected_target_def redirected_def)
qed

text \<open>For a relative target without \<open>..\<close> below a resolved root the guard is these four tests.\<close>

definition plain :: "path \<Rightarrow> bool" where
  "plain p \<longleftrightarrow> ''..'' \<notin> set p"

lemma mutation_allowed_rel:
  assumes "plain r" and "p \<noteq> []"
  shows "assert_mutation_allowed r d (Rel p) = Inr () \<longleftrightarrow> plain p \<and> \<not> under_agents p \<and> last p \<noteq> ''AGENTS.md'' \<and> \<not> redirected d p
     \<and> (\<forall>i. identity d p = Some i \<longrightarrow> i \<notin> set (governing_file_identities d))"
proof (cases "plain p")
  case True
  then have n: "''..'' \<notin> set (r @ p)" "''..'' \<notin> set (butlast (r @ p))" using assms by (auto simp: plain_def dest: in_set_butlastD)
  have c: "butlast (r @ p) @ [last (r @ p)] = r @ p" using assms(2) by (intro append_butlast_last_id) simp
  show ?thesis
    using True assms(2) n c redirected_plain [OF n(1)]
    by (simp add: assert_mutation_allowed_def Let_def candidate_path_def check_all_Inr plain_def hardlinked_def del: butlast_append last_append split: option.splits) blast
next
  case False
  then show ?thesis by (simp add: assert_mutation_allowed_def plain_def)
qed

text \<open>Not under \<open>.agents\<close> and not an instruction file, before or after: the capture does not see it.\<close>

definition ungoverned :: "disk \<Rightarrow> path \<Rightarrow> bool" where
  "ungoverned d p \<longleftrightarrow> \<not> under_agents p \<and> \<not> is_instruction d p"

lemma keys_update: "map fst (AList.update k v d) = (if k \<in> fst ` set d then map fst d else map fst d @ [k])"
  by (induction d) auto

lemma keys_delete: "map fst (AList.delete k d) = filter (\<lambda>x. x \<noteq> k) (map fst d)"
  by (induction d) (auto simp: AList.delete_eq)

lemma capture_cong:
  assumes "\<And>q. q \<noteq> p \<Longrightarrow> node_at d' q = node_at d q" and "ungoverned d p" and "ungoverned d' p" 
    and "filter (\<lambda>q. q \<noteq> p) (map fst d') = filter (\<lambda>q. q \<noteq> p) (map fst d)"
  shows "capture_governance r d' = capture_governance r d"
proof -
  let ?g = "\<lambda>d q. under_agents q \<or> is_instruction d q"
  have g: "?g d' q = ?g d q" for q
    using assms(1) [of q] assms(2,3) by (cases "q = p") (auto simp: ungoverned_def is_instruction_def)
  have np: "\<not> ?g d p" using assms(2) by (simp add: ungoverned_def)
  have f: "filter (?g d) xs = filter (?g d) (filter (\<lambda>q. q \<noteq> p) xs)" for xs
    using np by (induction xs) auto
  have "filter (?g d') (map fst d') = filter (?g d) (map fst d)"
    unfolding g using f [of "map fst d'"] f [of "map fst d"] assms(4) by simp
  then have eq: "governed d' = governed d" by (simp only: governed_def)
  have "p \<notin> set (governed d)" using np by (auto simp: governed_def)
  then have "node_at d' q = node_at d q" if "q \<in> set (governed d)" for q
    using assms(1) [of q] that by (cases "q = p") simp_all
  then have es: "map (entry d') (governed d') = map (entry d) (governed d)"
    unfolding eq by (simp add: entry_def)
  have "p \<noteq> agents_dir" using assms(2) by (auto simp: ungoverned_def under_agents_def agents_dir_def)
  then have ag: "agents_present d' = agents_present d" using assms(1) [of agents_dir] by (simp add: agents_present_def is_dir_def)
  show ?thesis unfolding capture_governance_def es ag ..
qed

lemma capture_put:
  assumes "p \<noteq> []" and "ungoverned d p" and "ungoverned (put d p n) p"
  shows "capture_governance r (put d p n) = capture_governance r d"
proof -
  have "filter (\<lambda>q. q \<noteq> p) (map fst (put d p n)) = filter (\<lambda>q. q \<noteq> p) (map fst d)"
    by (simp add: put_def keys_update)
  from capture_cong [OF _ assms(2,3) this] show ?thesis using assms(1) by simp
qed

lemma capture_remove:
  assumes "p \<noteq> []" and "ungoverned d p"
  shows "capture_governance r (remove d p) = capture_governance r d"
proof -
  have u: "ungoverned (remove d p) p" using assms by (simp add: ungoverned_def is_instruction_def)
  have "filter (\<lambda>q. q \<noteq> p) (map fst (remove d p)) = filter (\<lambda>q. q \<noteq> p) (map fst d)"
    by (simp add: remove_def keys_delete)
  from capture_cong [OF _ assms(2) u this] show ?thesis using assms(1) by simp
qed

lemma ungoverned_dir: "\<not> under_agents p \<Longrightarrow> node_at d p = None \<or> node_at d p = Some Directory \<Longrightarrow> ungoverned d p"
  by (auto simp: ungoverned_def is_instruction_def)

lemma ungoverned_name: "\<not> under_agents p \<Longrightarrow> last p \<noteq> ''AGENTS.md'' \<Longrightarrow> ungoverned d p"
  by (simp add: ungoverned_def is_instruction_def)

text \<open>The governing inodes are those of the governed files.\<close>

lemma governing_ids_iff:
  "i \<in> set (governing_file_identities d) \<longleftrightarrow>
     (\<exists>q. identity d q = Some i \<and> (agents_present d \<and> under_agents q \<and> q \<noteq> agents_dir \<or> is_instruction d q))"
proof -
  have k: "q \<in> set (map fst d)" if "identity d q = Some i" for q
    using that node_in [of d q] by (cases "node_at d q") (force simp: identity_def split: node.splits)+
  have "i \<in> set (List.map_filter (identity d) qs) \<longleftrightarrow> (\<exists>q \<in> set qs. identity d q = Some i)" for qs
    by (induction qs) (auto simp: List.map_filter_simps split: option.splits)
  then show ?thesis
    using k by (simp add: governing_file_identities_def instruction_files_def del: set_map) blast
qed

lemma governing_ids_cong:
  assumes "\<And>q. q \<noteq> p \<Longrightarrow> node_at d' q = node_at d q" and "ungoverned d p" and "ungoverned d' p"
  shows "set (governing_file_identities d') = set (governing_file_identities d)"
proof -
  have "(under_agents q \<and> q \<noteq> agents_dir \<or> is_instruction x q) \<Longrightarrow> x = d \<or> x = d' \<Longrightarrow> q \<noteq> p" for q x
    using assms(2,3) by (auto simp: ungoverned_def)
  moreover have "p \<noteq> agents_dir" using assms(2) by (auto simp: ungoverned_def under_agents_def agents_dir_def)
  then have "agents_present d' = agents_present d" using assms(1) [of agents_dir] by (simp add: agents_present_def is_dir_def)
  moreover have "q \<noteq> p \<Longrightarrow> identity d' q = identity d q \<and> is_instruction d' q = is_instruction d q" for q
    using assms(1) [of q] by (simp add: identity_def is_instruction_def)
  ultimately show ?thesis by (auto simp: governing_ids_iff) metis+
qed

end
