(* ===== verification/Atomic.thy ===== *)
theory Atomic
  imports Governance
begin

text \<open>
  \<open>agentinfra/atomic.py\<close>: replacement of a file through a temporary file in its directory, and durable
  removal, both inside a project root. The fault hooks of the tests, the fsync calls and the Windows
  retry loop leave no trace in the model; a crash can stop a write after any of its stages.
\<close>

section \<open>Definitions\<close>

definition assert_confined :: "path \<Rightarrow> disk \<Rightarrow> supplied \<Rightarrow> path res" where
  "assert_confined r d t =
    (if ''..'' \<in> set (parts t) then Inl (AtomicWriteError ''parent traversal is not allowed'')
     else case assert_mutation_allowed r d t of
       Inl (GovernanceViolation m) \<Rightarrow> Inl (AtomicWriteError m)
     | Inl e \<Rightarrow> Inl e
     | Inr _ \<Rightarrow> (case below r t of
         None \<Rightarrow> Inl (AtomicWriteError ''target escapes required root'')
       | Some p \<Rightarrow> if redirected d p then Inl (AtomicWriteError ''refusing redirected target'') else Inr p))"

text \<open>\<open>mkdir(parents=True, exist_ok=True)\<close>.\<close>

fun make_dirs :: "disk \<Rightarrow> path list \<Rightarrow> disk res" where
  "make_dirs d [] = Inr d"
| "make_dirs d (p # ps) = (case node_at d p of
      None \<Rightarrow> make_dirs (put d p Directory) ps
    | Some Directory \<Rightarrow> make_dirs d ps
    | Some _ \<Rightarrow> Inl (OSErr ''not a directory''))"

definition mkdir_parents :: "disk \<Rightarrow> path \<Rightarrow> disk res" where
  "mkdir_parents d p = make_dirs d (steps p)"

definition mkdir_io :: "path \<Rightarrow> unit io" where
  "mkdir_io p d = (case mkdir_parents d p of Inl e \<Rightarrow> (d, Inl e) | Inr d' \<Rightarrow> (d', Inr ()))"

definition desired_mode :: "disk \<Rightarrow> path \<Rightarrow> int option \<Rightarrow> int" where
  "desired_mode d p md = (case md of Some m \<Rightarrow> m
     | None \<Rightarrow> (case node_at d p of Some (File i m b) \<Rightarrow> m | _ \<Rightarrow> 420))"

text \<open>\<open>mkstemp(prefix=f".{name}.", suffix=".tmp")\<close>: an unused name beside the target.\<close>

definition temp_path :: "disk \<Rightarrow> path \<Rightarrow> path" where
  "temp_path d p = butlast p @ [''.'' @ last p @ ''.'' @ fresh_name d @ ''.tmp'']"

definition write_temp :: "disk \<Rightarrow> path \<Rightarrow> int \<Rightarrow> string \<Rightarrow> disk" where
  "write_temp d p m b = put d (temp_path d p) (File (fresh_inode d) m b)"

text \<open>\<open>os.replace\<close>: the name moves, and a directory is not replaced by a file.\<close>

definition replace_file :: "disk \<Rightarrow> path \<Rightarrow> path \<Rightarrow> disk res" where
  "replace_file d tmp p = (if is_dir d p then Inl (OSErr ''target is a directory'')
     else case node_at d tmp of
       Some n \<Rightarrow> Inr (put (remove d tmp) p n)
     | None \<Rightarrow> Inl FileNotFoundErr)"

text \<open>
  The disk after the call and its result. The parent directories stay when a later stage fails; the
  temporary file does not.
\<close>

definition atomic_write_bytes :: "path \<Rightarrow> disk \<Rightarrow> supplied \<Rightarrow> string \<Rightarrow> int option \<Rightarrow> disk \<times> unit res" where
  "atomic_write_bytes r d t data md = (case assert_confined r d t of
      Inl e \<Rightarrow> (d, Inl e)
    | Inr p \<Rightarrow> (case mkdir_parents d (butlast p) of
        Inl e \<Rightarrow> (d, Inl e)
      | Inr d1 \<Rightarrow> (case assert_confined r d1 t of
          Inl e \<Rightarrow> (d1, Inl e)
        | Inr p \<Rightarrow> (case replace_file (write_temp d1 p (desired_mode d1 p md) data) (temp_path d1 p) p of
            Inl e \<Rightarrow> (d1, Inl e)
          | Inr d2 \<Rightarrow> (d2, Inr ())))))"

definition atomic_write_json :: "path \<Rightarrow> disk \<Rightarrow> supplied \<Rightarrow> pyval \<Rightarrow> int option \<Rightarrow> disk \<times> unit res" where
  "atomic_write_json r d t obj md = atomic_write_bytes r d t (json_text obj) md"

definition durable_unlink :: "path \<Rightarrow> disk \<Rightarrow> supplied \<Rightarrow> bool \<Rightarrow> disk \<times> unit res" where
  "durable_unlink r d t missing_ok = (case assert_confined r d t of
      Inl e \<Rightarrow> (d, Inl e)
    | Inr p \<Rightarrow> (case node_at d p of
        None \<Rightarrow> (d, if missing_ok then Inr () else Inl FileNotFoundErr)
      | Some Directory \<Rightarrow> (d, Inl (OSErr ''is a directory''))
      | Some _ \<Rightarrow> (remove d p, Inr ())))"

text \<open>What a crash inside the write can leave: parents made, a temporary file with part of the bytes, the target replaced.\<close>

inductive write_stage :: "disk \<Rightarrow> path \<Rightarrow> string \<Rightarrow> disk \<Rightarrow> bool" for d p data where
  nothing: "write_stage d p data d"
| parents: "mkdir_parents d (butlast p) = Inr d1 \<Longrightarrow> write_stage d p data d1"
| temporary: "mkdir_parents d (butlast p) = Inr d1 \<Longrightarrow> write_stage d p data (write_temp d1 p m (take k data))"
| replaced: "mkdir_parents d (butlast p) = Inr d1 \<Longrightarrow> replace_file (write_temp d1 p m data) (temp_path d1 p) p = Inr d2 \<Longrightarrow> write_stage d p data d2"

section \<open>What a confined target is\<close>

lemma assert_confinedE:
  assumes "assert_confined r d t = Inr p" and "plain r"
  shows "below r t = Some p" and "\<not> under_agents p" and "p \<noteq> [] \<Longrightarrow> last p \<noteq> ''AGENTS.md''" and "\<not> redirected d p" and "plain p"
proof -
  have np: "''..'' \<notin> set (parts t)" and al: "assert_mutation_allowed r d t = Inr ()" and b: "below r t = Some p" and rd: "\<not> redirected d p"
    using assms(1) by (auto simp: assert_confined_def split: if_splits sum.splits exn.splits option.splits)
  have pl: "plain p" using np b assms(2) by (cases t) (auto simp: plain_def split: if_splits dest: in_set_dropD)
  have c: "below r (Abs (candidate_path r t)) = Some p" using b by (cases t) (simp_all add: candidate_path_def)
  show "below r t = Some p" "\<not> redirected d p" "plain p" by (fact b rd pl)+
  show "\<not> under_agents p" "p \<noteq> [] \<Longrightarrow> last p \<noteq> ''AGENTS.md''"
    using al c unfolding assert_mutation_allowed_def Let_def by (simp_all add: check_all_Inr split: if_splits)
qed

lemma steps_prefix: "q \<in> set (steps p) \<Longrightarrow> q \<noteq> [] \<and> (p \<noteq> [] \<longrightarrow> hd q = hd p)"
  by (cases p) (auto simp: steps_def take_Cons' split: if_splits)

lemma make_dirs_nodes:
  assumes "make_dirs d ps = Inr d'" and "\<forall>q \<in> set ps. q \<noteq> []"
  shows "node_at d' q = (if q \<in> set ps then Some Directory else node_at d q)"
  using assms
proof (induction d ps arbitrary: d' rule: make_dirs.induct)
  case (2 d p ps)
  show ?case
  proof (cases "node_at d p")
    case None
    then show ?thesis using 2(1) [OF None, of d'] 2(3,4) by auto
  next
    case (Some n)
    then show ?thesis using 2(2) [OF Some, of d'] 2(3,4) by (cases n) auto
  qed
qed simp

lemma make_dirs_read: "make_dirs d ps = Inr d' \<Longrightarrow> \<forall>q \<in> set ps. q \<noteq> [] \<Longrightarrow> read d' q = read d q"
proof (induction d ps arbitrary: d' rule: make_dirs.induct)
  case (2 d p ps)
  show ?case
  proof (cases "node_at d p")
    case None
    then have "read d' q = read (put d p Directory) q" using 2 by simp
    then show ?thesis using 2(4) None by (simp add: read_def)
  next
    case (Some n)
    then show ?thesis using 2 by (cases n) simp_all
  qed
qed simp

lemma mkdir_parents_read: "mkdir_parents d p = Inr d' \<Longrightarrow> read d' q = read d q"
  unfolding mkdir_parents_def by (rule make_dirs_read) (auto dest: steps_prefix)

lemma make_dirs_capture:
  assumes "make_dirs d ps = Inr d'" and "\<forall>q \<in> set ps. q \<noteq> [] \<and> \<not> under_agents q"
  shows "capture_governance r d' = capture_governance r d"
  using assms
proof (induction d ps arbitrary: d' rule: make_dirs.induct)
  case (2 d p ps)
  show ?case
  proof (cases "node_at d p")
    case None
    then have "ungoverned d p" "ungoverned (put d p Directory) p" using 2(4) by (auto intro!: ungoverned_dir)
    then have "capture_governance r (put d p Directory) = capture_governance r d" using 2(4) by (intro capture_put) auto
    then show ?thesis using 2(1) [OF None] 2(3,4) None by simp
  next
    case (Some n)
    then show ?thesis using 2(2) [OF Some] 2(3,4) by (cases n) auto
  qed
qed simp

section \<open>Governance is out of reach\<close>

lemma temp_path_props: "temp_path d p \<noteq> []" "last (temp_path d p) \<noteq> ''AGENTS.md''"
  by (simp_all add: temp_path_def)

lemma temp_not_agents: "\<not> under_agents p \<Longrightarrow> p \<noteq> [] \<Longrightarrow> \<not> under_agents (temp_path d p)"
proof -
  assume u: "\<not> under_agents p" "p \<noteq> []"
  show "\<not> under_agents (temp_path d p)"
  proof (cases "butlast p")
    case Nil
    have "last (''.'' @ last p @ ''.'' @ fresh_name d @ ''.tmp'') \<noteq> last ''.agents''" by simp
    then have "''.'' @ last p @ ''.'' @ fresh_name d @ ''.tmp'' \<noteq> ''.agents''" by metis
    then show ?thesis using Nil by (simp add: temp_path_def under_agents_def)
  next
    case (Cons c cs)
    then have "hd p = c" using u(2) by (metis append_butlast_last_id hd_append2 list.sel(1) list.simps(3))
    then show ?thesis using u Cons by (simp add: temp_path_def under_agents_def)
  qed
qed

lemma temp_path_new [simp]: "node_at d (temp_path d p) = None"
  using fresh_name_new [of d "temp_path d p"] by (simp add: temp_path_def)

lemma temp_path_ne [simp]: "p \<noteq> [] \<Longrightarrow> temp_path d p \<noteq> p" "p \<noteq> [] \<Longrightarrow> p \<noteq> temp_path d p"
proof -
  have "length (last (temp_path d p)) \<noteq> length (last p)" by (simp add: temp_path_def)
  then show "p \<noteq> [] \<Longrightarrow> temp_path d p \<noteq> p" "p \<noteq> [] \<Longrightarrow> p \<noteq> temp_path d p" by auto
qed

lemma replaced_disk:
  assumes "replace_file (write_temp d p m b) (temp_path d p) p = Inr d2" and "p \<noteq> []"
  shows "d2 = put (remove (put d (temp_path d p) (File (fresh_inode d) m b)) (temp_path d p)) p (File (fresh_inode d) m b)"
    and "\<not> is_dir d p" and "node_at d2 q = (if q = p then Some (File (fresh_inode d) m b) else node_at d q)"
proof -
  show d2: "d2 = put (remove (put d (temp_path d p) (File (fresh_inode d) m b)) (temp_path d p)) p (File (fresh_inode d) m b)"
    using assms by (simp add: replace_file_def write_temp_def temp_path_props split: if_splits)
  show "\<not> is_dir d p" using assms by (simp add: replace_file_def is_dir_def write_temp_def temp_path_props split: if_splits)
  show "node_at d2 q = (if q = p then Some (File (fresh_inode d) m b) else node_at d q)"
    unfolding d2 using assms(2) temp_path_props(1) by simp
qed

lemma replace_capture:
  assumes "replace_file (write_temp d p m b) (temp_path d p) p = Inr d2" and "p \<noteq> []" and "\<not> under_agents p" and "last p \<noteq> ''AGENTS.md''"
  shows "capture_governance r d2 = capture_governance r d"
proof -
  have u: "ungoverned x (temp_path d p)" "ungoverned x p" for x
    using assms temp_path_props temp_not_agents by (auto intro: ungoverned_name)
  show ?thesis unfolding replaced_disk(1) [OF assms(1,2)] using u assms(2) temp_path_props(1) by (simp add: capture_put capture_remove)
qed

lemma parent_steps:
  assumes "p \<noteq> []" and "\<not> under_agents p"
  shows "\<forall>q \<in> set (steps (butlast p)). q \<noteq> [] \<and> \<not> under_agents q"
  using assms steps_prefix by (cases p rule: remdups_adj.cases) (fastforce simp: under_agents_def steps_def)+

lemma write_capture:
  assumes "plain r" and "below r t \<noteq> Some []"
  shows "capture_governance r (fst (atomic_write_bytes r d t data md)) = capture_governance r d"
proof (cases "assert_confined r d t")
  case (Inr p)
  note p = assert_confinedE [OF Inr assms(1)]
  have ne: "p \<noteq> []" using p(1) assms(2) by auto
  show ?thesis
  proof (cases "mkdir_parents d (butlast p)")
    case d1: (Inr d1)
    then have c1: "capture_governance r d1 = capture_governance r d"
      using make_dirs_capture [OF _ parent_steps [OF ne p(2)]] by (simp add: mkdir_parents_def)
    show ?thesis
    proof (cases "assert_confined r d1 t")
      case p': (Inr p')
      then have "p' = p" using assert_confinedE(1) [OF p' assms(1)] p(1) by simp
      then show ?thesis
        using replace_capture [of d1 p "desired_mode d1 p md" data _ r] c1 p ne
        by (simp add: atomic_write_bytes_def Inr d1 p' split: sum.split)
    qed (simp add: atomic_write_bytes_def Inr d1 c1)
  qed (simp add: atomic_write_bytes_def Inr)
qed (simp add: atomic_write_bytes_def)

lemma unlink_capture:
  assumes "plain r" and "below r t \<noteq> Some []"
  shows "capture_governance r (fst (durable_unlink r d t missing_ok)) = capture_governance r d"
proof (cases "assert_confined r d t")
  case (Inr p)
  note p = assert_confinedE [OF Inr assms(1)]
  have "p \<noteq> []" using p(1) assms(2) by auto
  then have "capture_governance r (remove d p) = capture_governance r d"
    using p by (intro capture_remove) (auto intro: ungoverned_name)
  then show ?thesis by (simp add: durable_unlink_def Inr split: option.split node.split)
qed (simp add: durable_unlink_def)


text \<open>
  no reader sees part of a write. At every stage a crash can stop the write at, the target has
  its old bytes or all of the new ones, and no other file that existed has changed.
\<close>

theorem atomic_write_no_partial:
  assumes "write_stage d p data d'" and "p \<noteq> []"
  shows "(read d' p = read d p \<or> read d' p = Some data) \<and> (\<forall>q. q \<noteq> p \<and> exists d q \<longrightarrow> read d' q = read d q)"
  using assms(1)
proof cases
  case (temporary d1 m k)
  have "exists d q \<Longrightarrow> q \<noteq> temp_path d1 p" for q
    using temp_path_new [of d1 p] make_dirs_nodes [of d "steps (butlast p)" d1 q] temporary(2) steps_prefix
    by (auto simp: exists_def mkdir_parents_def split: if_splits)
  then show ?thesis using temporary assms(2) mkdir_parents_read [OF temporary(2)] by (auto simp: write_temp_def temp_path_props)
next
  case (replaced d1 m)
  then show ?thesis using replaced_disk(3) [OF replaced(2) assms(2)] mkdir_parents_read [OF replaced(1)] by (simp add: read_def)
qed (simp_all add: mkdir_parents_read)

section \<open>When a write succeeds\<close>

text \<open>
  A target the framework may write: a plain path outside governance whose ancestors are directories
  or missing and which is missing or a file with no governing hard link.
\<close>

definition writable :: "disk \<Rightarrow> path \<Rightarrow> bool" where
  "writable d p \<longleftrightarrow> p \<noteq> [] \<and> plain p \<and> \<not> under_agents p \<and> last p \<noteq> ''AGENTS.md''
     \<and> (\<forall>q \<in> set (steps (butlast p)). node_at d q = None \<or> node_at d q = Some Directory)
     \<and> (node_at d p = None \<or> (\<exists>i m b. node_at d p = Some (File i m b) \<and> i \<notin> set (governing_file_identities d)))"

lemma steps_append: "steps (q @ [x]) = steps q @ [q @ [x]]"
  unfolding steps_def by (auto intro!: map_cong)

lemma steps_snoc: "p \<noteq> [] \<Longrightarrow> set (steps p) = insert p (set (steps (butlast p)))"
  by (cases p rule: rev_cases) (simp_all add: steps_append)

lemma writable_confined: "writable d p \<Longrightarrow> plain r \<Longrightarrow> assert_confined r d (Rel p) = Inr p"
proof -
  assume w: "writable d p" and r: "plain r"
  then have nr: "\<not> redirected d p"
    by (auto simp: writable_def redirected_def steps_snoc is_path_redirect_def)
  have "assert_mutation_allowed r d (Rel p) = Inr ()"
    using w nr mutation_allowed_rel [OF r, of p d] by (auto simp: writable_def identity_def)
  then show ?thesis using w nr by (simp add: assert_confined_def writable_def plain_def)
qed

lemma make_dirs_ok:
  assumes "\<forall>q \<in> set ps. q \<noteq> [] \<and> (node_at d q = None \<or> node_at d q = Some Directory)"
  shows "\<exists>d'. make_dirs d ps = Inr d'"
  using assms
proof (induction d ps rule: make_dirs.induct)
  case (2 d p ps)
  show ?case
  proof (cases "node_at d p")
    case None
    then show ?thesis using 2(1) [OF None] 2(3) by auto
  next
    case (Some n)
    then have "n = Directory" using 2(3) by auto
    then show ?thesis using 2(2) [OF Some] 2(3) Some by auto
  qed
qed simp

lemma make_dirs_governing:
  assumes "make_dirs d ps = Inr d'" and "\<forall>q \<in> set ps. q \<noteq> [] \<and> \<not> under_agents q"
  shows "set (governing_file_identities d') = set (governing_file_identities d)"
  using assms
proof (induction d ps arbitrary: d' rule: make_dirs.induct)
  case (2 d p ps)
  show ?case
  proof (cases "node_at d p")
    case None
    then have u: "ungoverned d p" "ungoverned (put d p Directory) p" using 2(4) by (auto intro!: ungoverned_dir)
    have "set (governing_file_identities (put d p Directory)) = set (governing_file_identities d)"
      by (rule governing_ids_cong [OF _ u]) (use 2(4) in simp)
    then show ?thesis using 2(1) [OF None] 2(3,4) None by simp
  next
    case (Some n)
    then show ?thesis using 2(2) [OF Some] 2(3,4) by (cases n) auto
  qed
qed simp

text \<open>What the disk is after a successful write of \<open>p\<close>: the file, its parents, and all else as before.\<close>

definition written :: "disk \<Rightarrow> path \<Rightarrow> string \<Rightarrow> disk \<Rightarrow> bool" where
  "written d p data d' \<longleftrightarrow> (\<exists>i m. i \<notin> set (governing_file_identities d) \<and> (\<forall>q. node_at d' q =
       (if q = p then Some (File i m data) else if q \<in> set (steps (butlast p)) then Some Directory else node_at d q)))
     \<and> set (governing_file_identities d') = set (governing_file_identities d)"

lemma fresh_inode_ne: "identity d q \<noteq> Some (fresh_inode d)"
proof
  assume "identity d q = Some (fresh_inode d)"
  then obtain m b where "node_at d q = Some (File (fresh_inode d) m b)" by (auto simp: identity_def split: option.splits node.splits)
  from fresh_inode_new [OF this] show False by simp
qed

lemma steps_not_self: "p \<noteq> [] \<Longrightarrow> p \<notin> set (steps (butlast p))"
proof
  assume "p \<noteq> []" and "p \<in> set (steps (butlast p))"
  then obtain k where "p = take k (butlast p)" by (auto simp: steps_def)
  then have "length p \<le> length (butlast p)" by (metis length_take min.cobounded1)
  then have "length p \<le> length p - 1" unfolding length_butlast .
  moreover have "0 < length p" using \<open>p \<noteq> []\<close> unfolding length_greater_0_conv .
  ultimately show False by linarith
qed

lemma atomic_write_ok:
  assumes "writable d p" and "plain r"
  shows "\<exists>d'. atomic_write_bytes r d (Rel p) data md = (d', Inr ()) \<and> written d p data d'"
proof -
  have p: "p \<noteq> []" "\<not> under_agents p" "last p \<noteq> ''AGENTS.md''" using assms(1) by (auto simp: writable_def)
  let ?ps = "steps (butlast p)"
  have ps: "\<forall>q \<in> set ?ps. q \<noteq> [] \<and> \<not> under_agents q" by (rule parent_steps [OF p(1,2)])
  obtain d1 where d1: "mkdir_parents d (butlast p) = Inr d1"
    using make_dirs_ok [of ?ps d] assms(1) ps by (auto simp: writable_def mkdir_parents_def)
  have n1: "node_at d1 q = (if q \<in> set ?ps then Some Directory else node_at d q)" for q
    using make_dirs_nodes [of d ?ps d1 q] d1 ps by (simp add: mkdir_parents_def)
  have g1: "set (governing_file_identities d1) = set (governing_file_identities d)"
    using make_dirs_governing [of d ?ps d1] d1 ps by (simp add: mkdir_parents_def)
  have ns: "p \<notin> set ?ps" by (rule steps_not_self [OF p(1)])
  have w1: "writable d1 p" using assms(1) ns unfolding writable_def n1 g1 by auto
  have nd: "\<not> is_dir d1 p" using w1 by (auto simp: is_dir_def writable_def)
  let ?m = "desired_mode d1 p md"
  obtain d2 where d2: "replace_file (write_temp d1 p ?m data) (temp_path d1 p) p = Inr d2"
    using nd p(1) by (simp add: replace_file_def is_dir_def write_temp_def temp_path_props)
  have n2: "node_at d2 q = (if q = p then Some (File (fresh_inode d1) ?m data) else node_at d1 q)" for q
    by (rule replaced_disk(3) [OF d2 p(1)])
  have u: "ungoverned x p" for x using p by (intro ungoverned_name)
  have g2: "set (governing_file_identities d2) = set (governing_file_identities d1)"
    by (rule governing_ids_cong [OF _ u u]) (simp add: n2)
  have "fresh_inode d1 \<notin> set (governing_file_identities d1)"
    using fresh_inode_ne [of d1] by (simp add: governing_ids_iff)
  then have "written d p data d2" unfolding written_def n2 n1 g2 g1 by auto
  moreover have "atomic_write_bytes r d (Rel p) data md = (d2, Inr ())"
    using writable_confined [OF assms] writable_confined [OF w1 assms(2)] d1 d2 by (simp add: atomic_write_bytes_def)
  ultimately show ?thesis by blast
qed

lemma durable_unlink_ok:
  assumes "writable d p" and "plain r"
  shows "\<exists>d'. durable_unlink r d (Rel p) True = (d', Inr ()) \<and> (\<forall>q. node_at d' q = (if q = p then None else node_at d q))
    \<and> set (governing_file_identities d') = set (governing_file_identities d)"
proof -
  have p: "p \<noteq> []" "\<not> under_agents p" "last p \<noteq> ''AGENTS.md''" using assms(1) by (auto simp: writable_def)
  have u: "ungoverned x p" for x using p by (intro ungoverned_name)
  have "set (governing_file_identities (remove d p)) = set (governing_file_identities d)"
    by (rule governing_ids_cong [OF _ u u]) (simp add: p(1))
  then show ?thesis using writable_confined [OF assms] assms(1) p(1)
    by (auto simp: durable_unlink_def writable_def)
qed

lemma atomic_write_done:
  assumes "atomic_write_bytes r d (Rel p) data md = (d', Inr u)" and "plain r" and "p \<noteq> []"
  shows "\<not> under_agents p" and "read d' q = (if q = p then Some data else read d q)"
proof -
  obtain q1 where q1: "assert_confined r d (Rel p) = Inr q1" using assms(1) by (auto simp: atomic_write_bytes_def split: sum.splits)
  have e1: "q1 = p" using assert_confinedE(1) [OF q1 assms(2)] by simp
  obtain d1 where d1: "mkdir_parents d (butlast p) = Inr d1" using assms(1) q1 e1 by (auto simp: atomic_write_bytes_def split: sum.splits)
  obtain q2 where q2: "assert_confined r d1 (Rel p) = Inr q2" using assms(1) q1 e1 d1 by (auto simp: atomic_write_bytes_def split: sum.splits)
  have e2: "q2 = p" using assert_confinedE(1) [OF q2 assms(2)] by simp
  have "replace_file (write_temp d1 p (desired_mode d1 p md) data) (temp_path d1 p) p = Inr d'"
    using assms(1) q1 d1 q2 by (auto simp: atomic_write_bytes_def e1 e2 split: sum.splits)
  from replaced_disk(3) [OF this assms(3)] show "read d' q = (if q = p then Some data else read d q)"
    using mkdir_parents_read [OF d1] by (simp add: read_def)
  show "\<not> under_agents p" using assert_confinedE(2) [OF q1 assms(2)] e1 by simp
qed

lemma atomic_write_raised: "atomic_write_bytes r d t data md = (d', Inl e) \<Longrightarrow> read d' q = read d q"
  by (auto simp: atomic_write_bytes_def mkdir_parents_read split: sum.splits)

section \<open>A concrete disk\<close>

definition gov_disk :: disk where
  "gov_disk = [([''.agents''], Directory), ([''.agents'', ''VERSION''], File 1 420 ''2''), ([''AGENTS.md''], File 2 420 ''rules''), ([''a.txt''], File 3 420 ''old'')]"


theorem atomic_write_no_partial_witness:
  "read (write_temp gov_disk [''a.txt''] 420 (take 1 ''new'')) [''a.txt''] = Some ''old''
   \<or> read (write_temp gov_disk [''a.txt''] 420 (take 1 ''new'')) [''a.txt''] = Some ''new''"
proof -
  have "write_stage gov_disk [''a.txt''] ''new'' (write_temp gov_disk [''a.txt''] 420 (take 1 ''new''))"
    by (rule write_stage.temporary) (simp add: mkdir_parents_def steps_def)
  moreover have "read gov_disk [''a.txt''] = Some ''old''" by code_simp
  ultimately show ?thesis using atomic_write_no_partial by fastforce
qed

end
