(* ===== verification/Transaction.thy ===== *)
theory Transaction
  imports Atomic Base64 Sealing
begin

text \<open>
  \<open>agentinfra/transaction.py\<close>: a journalled multi-file transaction. \<open>commit\<close> is a machine that makes
  one durable change per step (the journal, a destination, the journal again, ...), so that a crash
  is a run cut off after some number of steps; recovery reads the journals that are left. The
  per-name process lock is held throughout and is not part of the disk; fault hooks are not modelled.
\<close>

section \<open>Mutations and journals\<close>

record mutation =
  mu_path :: path
  mu_data :: "string option"
  mu_expected_sha256 :: "string option"
  mu_expected_exists :: "bool option"
  mu_mode :: "int option"

text \<open>A transaction: project root, directory of the journals, name, and the values of \<open>uuid4\<close> and \<open>now\<close>.\<close>

record tx =
  tx_root :: path
  tx_state_dir :: path
  tx_name :: string
  tx_uuid :: string
  tx_now :: string
  tx_mutations :: "mutation list"

definition sha_opt :: "string option \<Rightarrow> pyval" where
  "sha_opt b = (case b of None \<Rightarrow> PyNone | Some s \<Rightarrow> PyStr (sha256 s))"

definition str_opt :: "string option \<Rightarrow> pyval" where
  "str_opt b = (case b of None \<Rightarrow> PyNone | Some s \<Rightarrow> PyStr s)"

definition int_opt :: "int option \<Rightarrow> pyval" where
  "int_opt b = (case b of None \<Rightarrow> PyNone | Some n \<Rightarrow> PyInt n)"

text \<open>\<open>_read\<close>: the bytes, \<open>None\<close> for no file, and an error on a directory.\<close>

definition read_bytes :: "disk \<Rightarrow> path \<Rightarrow> string option res" where
  "read_bytes d p = (case node_at d p of
      None \<Rightarrow> Inr None
    | Some (File i m b) \<Rightarrow> Inr (Some b)
    | Some _ \<Rightarrow> Inl (OSErr ''is a directory''))"

definition root_text :: "path \<Rightarrow> string" where
  "root_text r = slash # posix r"

definition governed_error :: "unit res \<Rightarrow> unit res" where
  "governed_error x = (case x of Inl (GovernanceViolation m) \<Rightarrow> Inl (TransactionError m) | y \<Rightarrow> y)"

definition file_transaction :: "tx \<Rightarrow> disk \<Rightarrow> unit res" where
  "file_transaction t d = check_all
     [governed_error (assert_mutation_allowed (tx_root t) d (Rel (tx_state_dir t))),
      res_bind (confined_path (tx_root t) d (Rel (tx_state_dir t)) False False) (\<lambda>_. Inr ()),
      guard (tx_mutations t \<noteq> []) (ValueErr ''transaction requires at least one mutation'')]"

section \<open>Preflight\<close>

definition preflight_record :: "path \<Rightarrow> disk \<Rightarrow> nat \<Rightarrow> mutation \<Rightarrow> string list \<Rightarrow> pyval res" where
  "preflight_record r d index m seen =
    res_bind (governed_error (assert_mutation_allowed r d (Rel (mu_path m)))) (\<lambda>_.
    res_bind (confined_path r d (Rel (mu_path m)) False False) (\<lambda>p.
    let rel = posix p in
    if rel \<in> set seen then Inl (TransactionError ''duplicate transaction destination'')
    else res_bind (read_bytes d p) (\<lambda>before.
      if (case mu_expected_exists m of None \<Rightarrow> False | Some x \<Rightarrow> (before \<noteq> None) \<noteq> x)
      then Inl (TransactionError ''destination existence changed before transaction'')
      else if (case mu_expected_sha256 m of None \<Rightarrow> False | Some x \<Rightarrow> sha_opt before \<noteq> PyStr x)
      then Inl (TransactionError ''destination changed before transaction'')
      else Inr (PyDict [(''index'', PyInt (int index)), (''path'', PyStr rel), (''before_sha256'', sha_opt before),
        (''after_sha256'', sha_opt (mu_data m)), (''before_base64'', str_opt (map_option b64encode before)),
        (''mode'', (case node_at d p of Some (File i md b) \<Rightarrow> PyInt md | _ \<Rightarrow> int_opt (mu_mode m))),
        (''operation'', PyStr (if mu_data m = None then ''delete'' else ''replace''))]))))"

fun preflight_records :: "path \<Rightarrow> disk \<Rightarrow> nat \<Rightarrow> string list \<Rightarrow> mutation list \<Rightarrow> pyval list res" where
  "preflight_records r d index seen [] = Inr []"
| "preflight_records r d index seen (m # ms) = res_bind (preflight_record r d index m seen) (\<lambda>x.
     res_bind (preflight_records r d (Suc index) (posix (mu_path m) # seen) ms) (\<lambda>xs. Inr (x # xs)))"

definition tx_id :: "tx \<Rightarrow> string" where
  "tx_id t = tx_name t @ ''-'' @ tx_uuid t"

definition tx_dir :: "tx \<Rightarrow> path" where
  "tx_dir t = tx_state_dir t @ [tx_id t]"

definition journal_path :: "tx \<Rightarrow> path" where
  "journal_path t = tx_dir t @ [''journal.json'']"

definition preflight :: "tx \<Rightarrow> disk \<Rightarrow> pyval res" where
  "preflight t d = res_bind (preflight_records (tx_root t) d 0 [] (tx_mutations t)) (\<lambda>records.
     Inr (PyDict [(''schema'', PyInt 1), (''id'', PyStr (tx_id t)), (''name'', PyStr (tx_name t)), (''root'', PyStr (root_text (tx_root t))),
       (''created'', PyStr (tx_now t)), (''phase'', PyStr ''PREPARED''), (''applied'', PyInt 0), (''records'', PyList records)]))"

section \<open>The commit machine\<close>

datatype pc = Prepare | Announce | Destination nat | Mark nat | Commit | Drop | Clean | Done

record run =
  ru_disk :: disk
  ru_journal :: pyval
  ru_pc :: pc

definition write_journal :: "tx \<Rightarrow> pyval \<Rightarrow> unit io" where
  "write_journal t j d = atomic_write_json (tx_root t) d (Rel (journal_path t)) j (Some 384)"

definition apply_mutation :: "tx \<Rightarrow> mutation \<Rightarrow> pyval \<Rightarrow> unit io" where
  "apply_mutation t m record d = (case mu_data m of
      None \<Rightarrow> durable_unlink (tx_root t) d (Rel (mu_path m)) True
    | Some data \<Rightarrow> atomic_write_bytes (tx_root t) d (Rel (mu_path m)) data
        (case dget record ''mode'' of PyInt n \<Rightarrow> Some n | _ \<Rightarrow> None))"

text \<open>Drift check, the write, and its verification.\<close>

definition write_destination :: "tx \<Rightarrow> nat \<Rightarrow> pyval \<Rightarrow> unit io" where
  "write_destination t i journal =
    (let m = tx_mutations t ! i; record = items (dget journal ''records'') ! i; p = mu_path m in
     io_bind (io_get (\<lambda>d. res_bind (read_bytes d p) (\<lambda>now. guard (sha_opt now = dget record ''before_sha256'')
         (TransactionError ''destination drift before write'')))) (\<lambda>_.
     io_bind (apply_mutation t m record) (\<lambda>_.
     io_get (\<lambda>d. res_bind (read_bytes d p) (\<lambda>now. guard (sha_opt now = dget record ''after_sha256'')
         (TransactionError ''post-write verification failed''))))))"

definition rmdir :: "path \<Rightarrow> unit io" where
  "rmdir p d = (if is_dir d p \<and> names d p = [] then (remove d p, Inr ()) else (d, Inl (OSErr ''directory not empty'')))"

definition unlink_missing_ok :: "path \<Rightarrow> unit io" where
  "unlink_missing_ok p d = (case node_at d p of None \<Rightarrow> (d, Inr ()) | Some Directory \<Rightarrow> (d, Inl (OSErr ''is a directory''))
     | Some _ \<Rightarrow> (remove d p, Inr ()))"

text \<open>After step \<open>i\<close> of the loop: the next destination, or the commit record.\<close>

definition after_mark :: "tx \<Rightarrow> nat \<Rightarrow> pc" where
  "after_mark t i = (if i < length (tx_mutations t) then Destination i else Commit)"

definition tx_step :: "tx \<Rightarrow> bool \<Rightarrow> run \<Rightarrow> run \<times> exn option" where
  "tx_step t retain s = (let j = ru_journal s in
     let go = (\<lambda>(d, x) j' pc'. (case x of Inr _ \<Rightarrow> (\<lparr>ru_disk = d, ru_journal = j', ru_pc = pc'\<rparr>, None)
                                       | Inl e \<Rightarrow> (\<lparr>ru_disk = d, ru_journal = j', ru_pc = ru_pc s\<rparr>, Some e))) in
     case ru_pc s of
       Prepare \<Rightarrow> go (write_journal t j (ru_disk s)) j Announce
     | Announce \<Rightarrow> (let j' = dset j ''phase'' (PyStr ''APPLYING'') in go (write_journal t j' (ru_disk s)) j' (after_mark t 0))
     | Destination i \<Rightarrow> go (write_destination t i j (ru_disk s)) j (Mark i)
     | Mark i \<Rightarrow> (let j' = dset j ''applied'' (PyInt (int (Suc i))) in go (write_journal t j' (ru_disk s)) j' (after_mark t (Suc i)))
     | Commit \<Rightarrow> (let j' = dset (dset j ''phase'' (PyStr ''COMMITTED'')) ''committed'' (PyStr (tx_now t)) in
         go (write_journal t j' (ru_disk s)) j' (if retain then Done else Drop))
     | Drop \<Rightarrow> go (unlink_missing_ok (journal_path t) (ru_disk s)) j Clean
     | Clean \<Rightarrow> go (rmdir (tx_dir t) (ru_disk s)) j Done
     | Done \<Rightarrow> (s, None))"

fun tx_steps :: "nat \<Rightarrow> tx \<Rightarrow> bool \<Rightarrow> run \<Rightarrow> run \<times> exn option" where
  "tx_steps 0 t retain s = (s, None)"
| "tx_steps (Suc n) t retain s = (case tx_step t retain s of (s', None) \<Rightarrow> tx_steps n t retain s' | (s', Some e) \<Rightarrow> (s', Some e))"

text \<open>The number of steps of a whole run.\<close>

definition tx_length :: "tx \<Rightarrow> nat" where
  "tx_length t = 5 + 2 * length (tx_mutations t)"

section \<open>Recovery\<close>

record plan =
  pl_journal_path :: path
  pl_journal :: pyval
  pl_rollback :: bool
  pl_items :: "(string \<times> path \<times> string option \<times> pyval list) list"

definition read_recovery_journal :: "disk \<Rightarrow> path \<Rightarrow> pyval res" where
  "read_recovery_journal d p = (case json_at d p of
      None \<Rightarrow> Inl (TransactionError ''invalid pending transaction journal'')
    | Some j \<Rightarrow> if is_dict j then Inr j else Inl (TransactionError ''invalid transaction journal schema''))"

text \<open>\<open>int(value, 16)\<close> accepts a sign, a \<open>0x\<close> prefix, outer white space and single underscores between digits.\<close>

fun hex_digits :: "bool \<Rightarrow> string \<Rightarrow> bool" where
  "hex_digits prev [] = prev"
| "hex_digits prev (c # s) = (if is_hex c \<or> (CHR ''A'' \<le> c \<and> c \<le> CHR ''F'') then hex_digits True s else c = CHR ''_'' \<and> prev \<and> s \<noteq> [] \<and> hd s \<noteq> CHR ''_'' \<and> hex_digits False s)"

definition hex_literal :: "string \<Rightarrow> bool" where
  "hex_literal v = (let s = strip v; s1 = (if s \<noteq> [] \<and> (hd s = CHR ''+'' \<or> hd s = CHR ''-'') then tl s else s) in
     if startswith s1 ''0x'' \<or> startswith s1 ''0X'' then (case drop 2 s1 of [] \<Rightarrow> False | c # u \<Rightarrow> if c = CHR ''_'' then hex_digits False u else hex_digits False (c # u))
     else hex_digits False s1)"

definition valid_sha256 :: "pyval \<Rightarrow> bool" where
  "valid_sha256 v = (case v of PyNone \<Rightarrow> True
     | PyStr s \<Rightarrow> length s = 64 \<and> hex_literal s \<and> casefold s = s
     | _ \<Rightarrow> False)"

definition supplied_path :: "string \<Rightarrow> supplied" where
  "supplied_path s = (if startswith s [slash] then Abs (path_parts s) else Rel (path_parts s))"

definition decode_before :: "pyval \<Rightarrow> string option res" where
  "decode_before v = (case v of
      PyNone \<Rightarrow> Inr None
    | PyStr s \<Rightarrow> (case b64decode s of None \<Rightarrow> Inl (TransactionError ''invalid rollback bytes'') | Some b \<Rightarrow> Inr (Some b))
    | _ \<Rightarrow> Inl (TransactionError ''invalid rollback bytes''))"

definition recovery_item :: "path \<Rightarrow> disk \<Rightarrow> string \<Rightarrow> bool \<Rightarrow> string list \<Rightarrow> pyval \<Rightarrow> (string \<times> path \<times> string option \<times> pyval list) res" where
  "recovery_item r d phase force seen record = (case dget record ''path'' of
      PyStr relative \<Rightarrow>
       (if relative \<in> set seen then Inl (TransactionError ''duplicate transaction recovery destination'')
        else res_bind (confined_path r d (supplied_path relative) False False) (\<lambda>p.
        res_bind (decode_before (dget record ''before_base64'')) (\<lambda>before.
        if sha_opt before \<noteq> dget record ''before_sha256'' then Inl (TransactionError ''rollback bytes do not match before hash'')
        else if \<not> valid_sha256 (dget record ''after_sha256'') then Inl (TransactionError ''invalid after hash'')
        else if phase = ''COMMITTED'' \<and> \<not> force then Inr (relative, p, before, [dget record ''after_sha256''])
        else if \<not> has_key record ''before_sha256'' then Inl (KeyErr ''before_sha256'')
        else if phase = ''ROLLED_BACK'' then Inr (relative, p, before, [dget record ''before_sha256''])
        else Inr (relative, p, before, [dget record ''before_sha256'', dget record ''after_sha256'']))))
    | _ \<Rightarrow> Inl (TransactionError ''invalid transaction record schema''))"

fun recovery_items :: "path \<Rightarrow> disk \<Rightarrow> string \<Rightarrow> bool \<Rightarrow> string list \<Rightarrow> pyval list \<Rightarrow> (string \<times> path \<times> string option \<times> pyval list) list res" where
  "recovery_items r d phase force seen [] = Inr []"
| "recovery_items r d phase force seen (x # xs) =
    (if \<not> is_dict x then Inl (TransactionError ''invalid transaction record schema'')
     else res_bind (recovery_item r d phase force seen x) (\<lambda>i.
       res_bind (recovery_items r d phase force (fst i # seen) xs) (\<lambda>is. Inr (i # is))))"

text \<open>\<open>Path(journal_root).resolve() != root\<close>, for the absolute paths the journals hold.\<close>

definition root_matches :: "path \<Rightarrow> pyval \<Rightarrow> bool" where
  "root_matches r v = (case v of PyStr s \<Rightarrow> startswith s [slash] \<and> resolve (path_parts s) = r | _ \<Rightarrow> False)"

definition prepare_recovery :: "path \<Rightarrow> disk \<Rightarrow> path \<Rightarrow> pyval \<Rightarrow> bool \<Rightarrow> plan res" where
  "prepare_recovery r d jpath journal force =
    res_bind (check_all
      [guard (py_eq (dget journal ''schema'') (PyInt 1) \<and> is_list (dget journal ''records'')) (TransactionError ''invalid transaction journal schema''),
       guard (root_matches r (dget journal ''root'')) (TransactionError ''transaction journal root mismatch''),
       memb (dget journal ''phase'') [''PREPARED'', ''APPLYING'', ''COMMITTED'', ''ROLLED_BACK''] (TransactionError ''unsupported transaction recovery phase'')]) (\<lambda>_.
    let phase = py_str (dget journal ''phase'') in
    res_bind (recovery_items r d phase force [] (items (dget journal ''records''))) (\<lambda>is.
    Inr \<lparr>pl_journal_path = jpath, pl_journal = journal,
      pl_rollback = (phase = ''PREPARED'' \<or> phase = ''APPLYING'' \<or> phase = ''COMMITTED'' \<and> force), pl_items = is\<rparr>))"

text \<open>The first loop of \<open>_preflight_recovery_batch\<close>: no destination of two journals when one of them rolls back.\<close>

fun check_destinations :: "(path \<times> bool) list \<Rightarrow> (path \<times> bool) list \<Rightarrow> unit res" where
  "check_destinations seen [] = Inr ()"
| "check_destinations seen ((p, rb) # xs) = (case map_of seen p of
      Some prior \<Rightarrow> if prior \<or> rb then Inl (TransactionError ''ambiguous destination appears in multiple pending transactions'')
        else check_destinations ((p, rb) # seen) xs
    | None \<Rightarrow> check_destinations ((p, rb) # seen) xs)"

definition check_drift :: "disk \<Rightarrow> (string \<times> path \<times> string option \<times> pyval list) \<Rightarrow> unit res" where
  "check_drift d i = (case i of (relative, p, before, expected) \<Rightarrow> res_bind (read_bytes d p) (\<lambda>now.
     guard (\<exists>x \<in> set expected. py_eq (sha_opt now) x) (TransactionError ''ambiguous destination drift during recovery'')))"

definition preflight_recovery_batch :: "plan list \<Rightarrow> disk \<Rightarrow> unit res" where
  "preflight_recovery_batch plans d = check_all
     [check_destinations [] (concat (map (\<lambda>pl. map (\<lambda>i. (fst (snd i), pl_rollback pl)) (pl_items pl)) plans)),
      for_each (check_drift d) (concat (map pl_items plans))]"

definition restore_item :: "path \<Rightarrow> (string \<times> path \<times> string option \<times> pyval list) \<times> pyval \<Rightarrow> unit io" where
  "restore_item r x d = (case x of ((relative, p, before, expected), record) \<Rightarrow> (case before of
      None \<Rightarrow> durable_unlink r d (Rel p) True
    | Some b \<Rightarrow> atomic_write_bytes r d (Rel p) b (case dget record ''mode'' of PyInt n \<Rightarrow> Some n | _ \<Rightarrow> None)))"

definition apply_recovery :: "path \<Rightarrow> string \<Rightarrow> plan \<Rightarrow> pyval io" where
  "apply_recovery r now pl =
    (if \<not> pl_rollback pl then io_return (pl_journal pl)
     else io_bind (io_each (restore_item r) (rev (zip (pl_items pl) (items (dget (pl_journal pl) ''records''))))) (\<lambda>_.
       let j = dset (dset (dset (pl_journal pl) ''phase'' (PyStr ''ROLLED_BACK'')) ''rolled_back'' (PyStr now)) ''applied'' (PyInt 0) in
       io_bind (\<lambda>d. atomic_write_json r d (Rel (pl_journal_path pl)) j (Some 384)) (\<lambda>_. io_return j)))"

definition recover_transaction :: "path \<Rightarrow> string \<Rightarrow> path \<Rightarrow> bool \<Rightarrow> pyval io" where
  "recover_transaction r now jpath force =
    io_bind (io_get (\<lambda>d. res_bind (read_recovery_journal d jpath) (\<lambda>j.
      res_bind (prepare_recovery r d jpath j force) (\<lambda>pl.
      res_bind (preflight_recovery_batch [pl] d) (\<lambda>_. Inr pl))))) (apply_recovery r now)"

text \<open>The journals to recover: every directory must hold one, and nothing else when it is to be removed.\<close>

definition journal_selected :: "string list option \<Rightarrow> pyval \<Rightarrow> bool res" where
  "journal_selected ns preview = (case ns of None \<Rightarrow> Inr True | Some xs \<Rightarrow> in_set (dget preview ''name'') xs)"

fun candidates :: "disk \<Rightarrow> path \<Rightarrow> string list option \<Rightarrow> bool \<Rightarrow> string list \<Rightarrow> (path \<times> pyval) list res" where
  "candidates d sd ns remove_recovered [] = Inr []"
| "candidates d sd ns remove_recovered (n # rest) =
    (if \<not> is_dir d (sd @ [n]) then candidates d sd ns remove_recovered rest
     else let jp = sd @ [n, ''journal.json''] in
       if \<not> is_file d jp then Inl (TransactionError ''transaction directory has no real journal'')
       else res_bind (read_recovery_journal d jp) (\<lambda>preview.
         res_bind (journal_selected ns preview) (\<lambda>b.
         if \<not> b then candidates d sd ns remove_recovered rest
         else if remove_recovered \<and> (\<exists>x \<in> set (names d (sd @ [n])). x \<noteq> ''journal.json'')
         then Inl (TransactionError ''recovered transaction directory is not empty'')
         else res_bind (candidates d sd ns remove_recovered rest) (\<lambda>cs. Inr ((sd @ [n], preview) # cs)))))"

definition plan_candidates :: "path \<Rightarrow> disk \<Rightarrow> (path \<times> pyval) list \<Rightarrow> plan list res" where
  "plan_candidates r d cs = map_res (\<lambda>(dir, preview). res_bind (in_set (dget preview ''phase'') [''COMMITTED'', ''ROLLED_BACK'']) (\<lambda>settled.
     prepare_recovery r d (dir @ [''journal.json'']) preview (\<not> settled))) cs"

definition remove_journal :: "path \<Rightarrow> path \<Rightarrow> unit io" where
  "remove_journal r dir = io_bind (\<lambda>d. durable_unlink r d (Rel (dir @ [''journal.json''])) False) (\<lambda>_ d.
     (case rmdir dir d of (d', Inl e) \<Rightarrow> (d', Inl (TransactionError ''recovered transaction directory is not empty'')) | x \<Rightarrow> x))"

definition recover_candidates :: "path \<Rightarrow> string \<Rightarrow> path \<Rightarrow> string list option \<Rightarrow> bool \<Rightarrow> pyval list io" where
  "recover_candidates r now sd ns remove_recovered =
    io_bind (io_get (\<lambda>d. res_bind (candidates d sd ns remove_recovered (names d sd)) (\<lambda>cs.
      res_bind (plan_candidates r d cs) (\<lambda>plans.
      res_bind (preflight_recovery_batch plans d) (\<lambda>_. Inr (cs, plans)))))) (\<lambda>(cs, plans).
    io_bind (io_map (apply_recovery r now) plans) (\<lambda>recovered.
    io_bind (if remove_recovered then io_each (\<lambda>c. remove_journal r (fst c)) cs else io_return ()) (\<lambda>_.
    io_return recovered)))"

definition recover_pending_transactions :: "path \<Rightarrow> string \<Rightarrow> path \<Rightarrow> string option \<Rightarrow> bool \<Rightarrow> pyval list io" where
  "recover_pending_transactions r now sd name remove_recovered =
    io_bind (io_get (\<lambda>d. confined_path r d (Rel sd) False False)) (\<lambda>sd d.
      if \<not> exists d sd then (d, Inr [])
      else recover_candidates r now sd (map_option (\<lambda>n. [n]) name) remove_recovered d)"

definition recover_named_transactions :: "path \<Rightarrow> string \<Rightarrow> path \<Rightarrow> string list \<Rightarrow> pyval list io" where
  "recover_named_transactions r now sd ns =
    io_bind (io_get (\<lambda>d. confined_path r d (Rel sd) False False)) (\<lambda>sd d.
      if \<not> exists d sd then (d, Inr [])
      else if \<exists>n \<in> set ns. blank n then (d, Inl (ValueErr ''transaction recovery name must be non-empty''))
      else recover_candidates r now sd (Some (remdups ns)) True d)"

section \<open>Commit\<close>

definition mkdir_new :: "path \<Rightarrow> unit io" where
  "mkdir_new p d = (if exists d p \<or> \<not> is_dir d (butlast p) then (d, Inl (OSErr ''mkdir'')) else (put d p Directory, Inr ()))"

text \<open>The exception handler of \<open>commit\<close>.\<close>

definition abort_commit :: "tx \<Rightarrow> exn \<Rightarrow> pyval io" where
  "abort_commit t e d =
    (if exists d (journal_path t) then
       (case recover_transaction (tx_root t) (tx_now t) (journal_path t) True d of
          (d', Inl _) \<Rightarrow> (d', Inl (TransactionError ''transaction failed; rollback failed''))
        | (d', Inr _) \<Rightarrow> (d', Inl e))
     else if is_dir d (tx_dir t) \<and> names d (tx_dir t) = [] then (remove d (tx_dir t), Inl e)
     else (d, Inl e))"

definition begin_commit :: "tx \<Rightarrow> pyval io" where
  "begin_commit t =
    io_bind (\<lambda>d. (case mkdir_parents d (tx_state_dir t) of Inl e \<Rightarrow> (d, Inl e) | Inr d' \<Rightarrow> (d', Inr ()))) (\<lambda>_.
    io_bind (recover_pending_transactions (tx_root t) (tx_now t) (tx_state_dir t) (Some (tx_name t)) True) (\<lambda>_.
    io_get (preflight t)))"

definition commit :: "tx \<Rightarrow> bool \<Rightarrow> pyval io" where
  "commit t retain d = (case begin_commit t d of
      (d1, Inl e) \<Rightarrow> (d1, Inl e)
    | (d1, Inr j) \<Rightarrow> (case mkdir_new (tx_dir t) d1 of
        (d2, Inl e) \<Rightarrow> abort_commit t e d2
      | (d2, Inr _) \<Rightarrow> (case tx_steps (tx_length t) t retain \<lparr>ru_disk = d2, ru_journal = j, ru_pc = Prepare\<rparr> of
          (s, None) \<Rightarrow> (ru_disk s, Inr (ru_journal s))
        | (s, Some e) \<Rightarrow> abort_commit t e (ru_disk s))))"

definition run_transaction :: "tx \<Rightarrow> bool \<Rightarrow> pyval io" where
  "run_transaction t retain = io_bind (io_get (file_transaction t)) (\<lambda>_. commit t retain)"

section \<open>One durable change\<close>

text \<open>The file at \<open>p\<close> now has the bytes \<open>b\<close> (or is gone), parents may have been made, all else is as before.\<close>

definition updated :: "disk \<Rightarrow> path \<Rightarrow> string option \<Rightarrow> disk \<Rightarrow> bool" where
  "updated d p b d' \<longleftrightarrow> (\<exists>i m. i \<notin> set (governing_file_identities d) \<and> (\<forall>q. node_at d' q =
       (if q = p then map_option (File i m) b else if b \<noteq> None \<and> q \<in> set (steps (butlast p)) then Some Directory else node_at d q)))
     \<and> set (governing_file_identities d') = set (governing_file_identities d)"

lemma steps_iff: "q \<in> set (steps p) \<longleftrightarrow> q \<noteq> [] \<and> prefix q p"
proof
  assume "q \<in> set (steps p)"
  then show "q \<noteq> [] \<and> prefix q p" using steps_prefix [of q p] by (auto simp: steps_def take_is_prefix)
next
  assume q: "q \<noteq> [] \<and> prefix q p"
  then have "q = take (length q) p" "1 \<le> length q" "length q \<le> length p" by (auto simp: prefix_def Suc_le_eq)
  then have "length q \<in> set [1..<Suc (length p)]" by (simp only: set_upt atLeastLessThan_iff less_Suc_eq_le)
  then show "q \<in> set (steps p)" unfolding steps_def set_map using \<open>q = take (length q) p\<close> by (rule rev_image_eqI)
qed

lemma parent_steps_iff: "p \<noteq> [] \<Longrightarrow> q \<in> set (steps (butlast p)) \<longleftrightarrow> q \<noteq> [] \<and> strict_prefix q p"
  unfolding steps_iff by (cases p rule: rev_cases) (auto simp: strict_prefix_def)

lemma write_updated: "writable d p \<Longrightarrow> plain r \<Longrightarrow> \<exists>d'. atomic_write_bytes r d (Rel p) b md = (d', Inr ()) \<and> updated d p (Some b) d'"
  using atomic_write_ok [of d p r b md] by (auto simp: written_def updated_def)

lemma unlink_updated: "writable d p \<Longrightarrow> plain r \<Longrightarrow> \<exists>d'. durable_unlink r d (Rel p) True = (d', Inr ()) \<and> updated d p None d'"
proof -
  assume a: "writable d p" "plain r"
  obtain i where "i \<notin> set (governing_file_identities d)" using ex_new_if_finite [OF infinite_UNIV_nat] by blast
  then show ?thesis using durable_unlink_ok [OF a] by (auto simp: updated_def)
qed

lemma updated_read:
  assumes "updated d p b d'" and "writable d p"
  shows "read d' q = (if q = p then b else read d q)"
proof -
  obtain i m where n: "node_at d' q = (if q = p then map_option (File i m) b else if b \<noteq> None \<and> q \<in> set (steps (butlast p)) then Some Directory else node_at d q)"
    using assms(1) by (auto simp: updated_def)
  have "q \<in> set (steps (butlast p)) \<Longrightarrow> read d q = None" using assms(2) by (auto simp: writable_def read_def)
  then show ?thesis unfolding read_def n by (cases b) (auto simp: read_def)
qed

lemma updated_node:
  assumes "updated d p b d'" and "q \<noteq> p" and "\<not> strict_prefix q p" and "p \<noteq> []"
  shows "node_at d' q = node_at d q"
  using assms parent_steps_iff [OF assms(4), of q] by (cases "q = []") (auto simp: updated_def)

lemma updated_parents:
  assumes "updated d p b d'" and "x \<noteq> p" and "node_at d x = None \<or> node_at d x = Some Directory"
  shows "node_at d' x = None \<or> node_at d' x = Some Directory"
proof -
  obtain i m where "node_at d' x = (if x = p then map_option (File i m) b else if b \<noteq> None \<and> x \<in> set (steps (butlast p)) then Some Directory else node_at d x)"
    using assms(1) unfolding updated_def by blast
  then show ?thesis using assms(2,3) by simp
qed

lemma updated_writable_self:
  assumes "updated d p b d'" and "writable d p"
  shows "writable d' p"
proof -
  have p: "p \<noteq> []" using assms(2) by (simp add: writable_def)
  obtain i m where i: "i \<notin> set (governing_file_identities d)" "node_at d' p = map_option (File i m) b"
    and g: "set (governing_file_identities d') = set (governing_file_identities d)" using assms(1) by (auto simp: updated_def)
  have "x \<noteq> p" if "x \<in> set (steps (butlast p))" for x using that steps_not_self [OF p] by auto
  then show ?thesis using assms(2) i g updated_parents [OF assms(1)] unfolding writable_def by (cases b) simp_all
qed

lemma updated_writable:
  assumes "updated d p b d'" and "writable d p" and "writable d q" and "\<not> strict_prefix p q" and "\<not> strict_prefix q p"
  shows "writable d' q"
proof (cases "q = p")
  case False
  have p: "p \<noteq> []" "q \<noteq> []" using assms by (auto simp: writable_def)
  have "node_at d' q = node_at d q" using updated_node [OF assms(1) False assms(5) p(1)] .
  moreover have "node_at d' x = None \<or> node_at d' x = Some Directory" if x: "x \<in> set (steps (butlast q))" for x
  proof -
    have "x \<noteq> p" using x assms(4) p parent_steps_iff [of q x] by auto
    then show ?thesis using updated_parents [OF assms(1)] assms(3) x by (simp add: writable_def)
  qed
  moreover have "set (governing_file_identities d') = set (governing_file_identities d)" using assms(1) by (simp add: updated_def)
  ultimately show ?thesis using assms(3) unfolding writable_def by simp
qed (use assms updated_writable_self in blast)

section \<open>The state of a running transaction\<close>

abbreviation tx_paths :: "tx \<Rightarrow> path list" where
  "tx_paths t \<equiv> map mu_path (tx_mutations t)"

text \<open>Destinations are distinct, none lies above or below another, above or below the journals.\<close>

definition tx_wf :: "tx \<Rightarrow> bool" where
  "tx_wf t \<longleftrightarrow> plain (tx_root t) \<and> normal (tx_root t) \<and> tx_state_dir t \<noteq> [] \<and> plain (tx_state_dir t) \<and> \<not> under_agents (tx_state_dir t) \<and> tx_id t \<noteq> ''..''
     \<and> distinct (tx_paths t)
     \<and> (\<forall>p \<in> set (tx_paths t). p \<noteq> [] \<and> normal p \<and> \<not> prefix (tx_state_dir t) p \<and> \<not> prefix p (tx_state_dir t)
          \<and> (\<forall>q \<in> set (tx_paths t). \<not> strict_prefix p q))"

text \<open>Where a transaction may change the disk: at and above its destinations and its journal.\<close>

definition touched :: "tx \<Rightarrow> path \<Rightarrow> bool" where
  "touched t q \<longleftrightarrow> (\<exists>p \<in> set (tx_paths t). prefix q p) \<or> prefix q (journal_path t) \<or> prefix (tx_dir t) q"

text \<open>A file that is there has its directories above it.\<close>

definition rooted :: "disk \<Rightarrow> path \<Rightarrow> bool" where
  "rooted d p \<longleftrightarrow> (exists d p \<longrightarrow> (\<forall>q \<in> set (steps (butlast p)). is_dir d q))"

definition beside :: "tx \<Rightarrow> disk \<Rightarrow> disk \<Rightarrow> bool" where
  "beside t d0 d \<longleftrightarrow> (\<forall>q. \<not> touched t q \<longrightarrow> node_at d q = node_at d0 q) \<and> set (governing_file_identities d) = set (governing_file_identities d0)
     \<and> (\<forall>q. is_dir d0 q \<longrightarrow> q \<notin> set (tx_paths t) \<longrightarrow> q \<noteq> journal_path t \<longrightarrow> q \<noteq> tx_dir t \<longrightarrow> is_dir d q)
     \<and> (\<forall>p \<in> set (tx_paths t). rooted d0 p \<longrightarrow> rooted d p)"

text \<open>
  What every change of the run keeps: all targets can be written, the journal is alone in its
  directory, and the rest of the disk is as it was.
\<close>

definition tx_frame :: "tx \<Rightarrow> disk \<Rightarrow> disk \<Rightarrow> bool" where
  "tx_frame t d0 d \<longleftrightarrow> (\<forall>p \<in> set (tx_paths t). writable d p) \<and> writable d (journal_path t)
     \<and> is_dir d (tx_dir t) \<and> (\<forall>q \<in> set (steps (tx_state_dir t)). is_dir d q) \<and> is_dir d (tx_state_dir t)
     \<and> (\<forall>n. is_dir d (tx_state_dir t @ [n]) \<longleftrightarrow> n = tx_id t)
     \<and> (\<forall>n. n \<noteq> ''journal.json'' \<longrightarrow> \<not> exists d (tx_dir t @ [n])) \<and> beside t d0 d"

lemma updated_dirs:
  assumes "updated d p b d'" and "is_dir d q" and "q \<noteq> p"
  shows "is_dir d' q"
  using assms by (auto simp: updated_def is_dir_def)

lemma journal_prefix:
  assumes "tx_wf t" and "p \<in> set (tx_paths t)"
  shows "\<not> prefix p (journal_path t)" and "\<not> prefix (tx_state_dir t @ xs) p"
proof -
  have "\<not> prefix p (tx_state_dir t)" "\<not> prefix (tx_state_dir t) p" using assms by (auto simp: tx_wf_def)
  then show "\<not> prefix p (journal_path t)" "\<not> prefix (tx_state_dir t @ xs) p"
    by (auto simp: journal_path_def tx_dir_def prefix_append prefix_Cons dest: append_prefixD)
qed

lemma tx_dir_apart:
  assumes "tx_wf t" and p: "p \<in> set (tx_paths t)"
  shows "tx_dir t \<noteq> p" "tx_dir t \<notin> set (steps (butlast p))"
  using journal_prefix(2) [OF assms(1) p, of "[tx_id t]"] parent_steps_iff [of p "tx_dir t"] assms(1) p
  by (auto simp: tx_dir_def strict_prefix_def tx_wf_def)

lemma rooted_updated:
  assumes "updated d p b d'" and "rooted d q" and "p \<noteq> []" and "\<not> strict_prefix p q" and "\<not> strict_prefix q p"
  shows "rooted d' q"
proof (cases "q = p")
  case True
  then show ?thesis using assms(1) steps_not_self [OF assms(3)] by (auto simp: updated_def rooted_def exists_def is_dir_def)
next
  case False
  have "exists d' q = exists d q" using updated_node [OF assms(1) False assms(5,3)] by (simp add: exists_def)
  moreover have "x \<noteq> p" if "q \<noteq> []" "x \<in> set (steps (butlast q))" for x using that assms(4) parent_steps_iff [of q x] by auto
  ultimately show ?thesis using assms(2) updated_dirs [OF assms(1)] by (cases "q = []") (auto simp: rooted_def steps_def)
qed

lemma beside_updated:
  assumes wf: "tx_wf t" and "beside t d0 d" and "updated d p b d'" and "p \<in> set (tx_paths t) \<or> p = journal_path t" and "p \<noteq> []"
  shows "beside t d0 d'"
proof -
  have "node_at d' q = node_at d q" if "\<not> touched t q" for q
    using updated_node [OF assms(3) _ _ assms(5), of q] that assms(4) by (auto simp: touched_def strict_prefix_def)
  moreover have "set (governing_file_identities d') = set (governing_file_identities d)" using assms(3) by (simp add: updated_def)
  moreover have "is_dir d' q" if "is_dir d q" "q \<notin> set (tx_paths t)" "q \<noteq> journal_path t" for q
    by (rule updated_dirs [OF assms(3) that(1)]) (use that assms(4) in auto)
  moreover have "rooted d' q" if "rooted d q" and q: "q \<in> set (tx_paths t)" for q
  proof (rule rooted_updated [OF assms(3) that(1) assms(5)])
    show "\<not> strict_prefix p q" "\<not> strict_prefix q p"
      using assms(4) q wf journal_prefix(1) [OF wf q] journal_prefix(2) [OF wf q, of "[tx_id t, ''journal.json'']"]
      by (auto simp: tx_wf_def journal_path_def tx_dir_def strict_prefix_def)
  qed
  ultimately show ?thesis using assms(2) by (simp add: beside_def)
qed

lemma frame_destination:
  assumes "tx_wf t" and "tx_frame t d0 d" and "p \<in> set (tx_paths t)" and "updated d p b d'"
  shows "tx_frame t d0 d'"
proof -
  have w: "writable d p" and ne: "p \<noteq> []" using assms by (auto simp: tx_frame_def writable_def)
  have np: "\<not> prefix (tx_state_dir t @ xs) p" for xs by (rule journal_prefix(2) [OF assms(1,3)])
  have "node_at d' (tx_state_dir t @ xs) = node_at d (tx_state_dir t @ xs)" for xs
    using updated_node [OF assms(4) _ _ ne, of "tx_state_dir t @ xs"] np [of xs] by (auto simp: strict_prefix_def)
  note n = this [of "[_]"] this [of "[]"] this [of "[_, _]"]
  have jp: "writable d' (journal_path t)"
    using updated_writable [OF assms(4) w, of "journal_path t"] journal_prefix(1) [OF assms(1,3)] np [of "[tx_id t, ''journal.json'']"] assms(2)
    by (auto simp: tx_frame_def strict_prefix_def journal_path_def tx_dir_def)
  have "writable d' q" if q: "q \<in> set (tx_paths t)" for q
    using updated_writable [OF assms(4) w, of q] assms(1,2,3) q by (auto simp: tx_frame_def tx_wf_def)
  moreover have "is_dir d' q" if "q \<in> set (steps (tx_state_dir t))" for q
    using that updated_dirs [OF assms(4), of q] assms(1,2,3) by (auto simp: tx_frame_def tx_wf_def steps_iff)
  moreover have "beside t d0 d'" using beside_updated [OF assms(1) _ assms(4)] assms(2,3) ne by (simp add: tx_frame_def)
  ultimately show ?thesis using assms(2) jp n unfolding tx_frame_def tx_dir_def is_dir_def exists_def by simp
qed

lemma frame_journal:
  assumes "tx_wf t" and "tx_frame t d0 d" and "updated d (journal_path t) b d'"
  shows "tx_frame t d0 d'"
proof -
  let ?j = "journal_path t"
  have w: "writable d ?j" and ne: "?j \<noteq> []" using assms by (auto simp: tx_frame_def writable_def)
  have n: "node_at d' q = node_at d q" if "q \<noteq> ?j" "\<not> strict_prefix q ?j" for q
    using updated_node [OF assms(3) that ne] .
  have dirs: "is_dir d' q" if "is_dir d q" "q \<noteq> ?j" for q
    using assms(3) that by (auto simp: updated_def is_dir_def)
  have "is_dir d' (tx_state_dir t @ [x]) \<longleftrightarrow> x = tx_id t" for x
  proof (cases "x = tx_id t")
    case True
    then show ?thesis using dirs [of "tx_dir t"] assms(2) by (simp add: tx_frame_def tx_dir_def journal_path_def)
  next
    case False
    then have "\<not> prefix (tx_state_dir t @ [x]) ?j" by (simp add: journal_path_def tx_dir_def)
    then show ?thesis using n [of "tx_state_dir t @ [x]"] False assms(2) by (auto simp: tx_frame_def is_dir_def strict_prefix_def)
  qed
  moreover have "\<not> exists d' (tx_dir t @ [x])" if "x \<noteq> ''journal.json''" for x
    using n [of "tx_dir t @ [x]"] that assms(2) by (auto simp: tx_frame_def exists_def journal_path_def strict_prefix_def)
  moreover have "writable d' p" if p: "p \<in> set (tx_paths t)" for p
    using updated_writable [OF assms(3) w, of p] journal_prefix(1) [OF assms(1) p] journal_prefix(2) [OF assms(1) p, of "[tx_id t, ''journal.json'']"] assms(2) p
    by (auto simp: tx_frame_def strict_prefix_def journal_path_def tx_dir_def)
  moreover have "is_dir d' q" if "q \<in> set (steps (tx_state_dir t))" for q
  proof (rule dirs)
    show "is_dir d q" using that assms(2) by (simp add: tx_frame_def)
    show "q \<noteq> ?j" using that by (auto simp: steps_iff journal_path_def tx_dir_def dest: prefix_length_le)
  qed
  moreover have "beside t d0 d'" using beside_updated [OF assms(1) _ assms(3)] assms(2) ne by (simp add: tx_frame_def)
  ultimately show ?thesis
    using assms(2) updated_writable_self [OF assms(3) w] dirs [of "tx_state_dir t"] dirs [of "tx_dir t"]
    by (simp add: tx_frame_def journal_path_def tx_dir_def)
qed

section \<open>The journal describes the transaction\<close>

definition record_of :: "disk \<Rightarrow> mutation \<Rightarrow> pyval \<Rightarrow> bool" where
  "record_of d0 m x \<longleftrightarrow> is_dict x \<and> wf_val x \<and> dget x ''path'' = PyStr (posix (mu_path m)) \<and> has_key x ''before_sha256''
     \<and> dget x ''before_sha256'' = sha_opt (read d0 (mu_path m)) \<and> dget x ''after_sha256'' = sha_opt (mu_data m)
     \<and> dget x ''before_base64'' = str_opt (map_option b64encode (read d0 (mu_path m)))"

definition journal_of :: "tx \<Rightarrow> disk \<Rightarrow> string \<Rightarrow> pyval \<Rightarrow> bool" where
  "journal_of t d0 phase j \<longleftrightarrow> is_dict j \<and> wf_val j \<and> dget j ''schema'' = PyInt 1 \<and> dget j ''root'' = PyStr (root_text (tx_root t))
     \<and> dget j ''name'' = PyStr (tx_name t) \<and> dget j ''phase'' = PyStr phase
     \<and> (\<exists>rs. dget j ''records'' = PyList rs \<and> list_all2 (record_of d0) (tx_mutations t) rs)"

lemma journal_of_dset:
  assumes "journal_of t d0 phase j" and "k \<notin> {''schema'', ''root'', ''name'', ''phase'', ''records''}" and "wf_val v"
  shows "journal_of t d0 phase (dset j k v)"
  using assms by (auto simp: journal_of_def wf_dset)

lemma journal_of_phase: "journal_of t d0 phase j \<Longrightarrow> journal_of t d0 phase' (dset j ''phase'' (PyStr phase'))"
  by (simp add: journal_of_def wf_dset)

lemma read_bytes_Inr: "read_bytes d p = Inr b \<Longrightarrow> b = read d p"
  by (auto simp: read_bytes_def read_def split: option.splits node.splits)

lemma read_bytes_writable: "writable d p \<Longrightarrow> read_bytes d p = Inr (read d p)"
  by (auto simp: writable_def read_bytes_def read_def)

lemma preflight_record_Inr:
  assumes "preflight_record r d n m seen = Inr x"
  shows "record_of d m x"
proof -
  obtain p b where p: "confined_path r d (Rel (mu_path m)) False False = Inr p" "read_bytes d p = Inr b"
    and x: "x = PyDict [(''index'', PyInt (int n)), (''path'', PyStr (posix p)), (''before_sha256'', sha_opt b),
        (''after_sha256'', sha_opt (mu_data m)), (''before_base64'', str_opt (map_option b64encode b)),
        (''mode'', (case node_at d p of Some (File i md b) \<Rightarrow> PyInt md | _ \<Rightarrow> int_opt (mu_mode m))),
        (''operation'', PyStr (if mu_data m = None then ''delete'' else ''replace''))]"
    using assms unfolding preflight_record_def Let_def by (auto simp: res_bind_Inr split: if_splits)
  have "p = mu_path m" using p(1) by (simp add: confined_path_def split: if_splits)
  moreover have "wf_val (sha_opt b')" "wf_val (str_opt b')" "wf_val (int_opt i)" for b' i
    by (simp_all add: sha_opt_def str_opt_def int_opt_def split: option.split)
  ultimately show ?thesis using read_bytes_Inr [OF p(2)] unfolding x record_of_def by (simp split: option.split node.split)
qed

lemma preflight_records_Inr:
  "preflight_records r d n seen ms = Inr xs \<Longrightarrow> list_all2 (record_of d) ms xs"
  by (induction ms arbitrary: n seen xs) (auto simp: res_bind_Inr dest: preflight_record_Inr)

lemma preflight_Inr:
  assumes "preflight t d = Inr j"
  shows "journal_of t d ''PREPARED'' j"
proof -
  obtain rs where rs: "preflight_records (tx_root t) d 0 [] (tx_mutations t) = Inr rs"
    and j: "j = PyDict [(''schema'', PyInt 1), (''id'', PyStr (tx_id t)), (''name'', PyStr (tx_name t)), (''root'', PyStr (root_text (tx_root t))),
       (''created'', PyStr (tx_now t)), (''phase'', PyStr ''PREPARED''), (''applied'', PyInt 0), (''records'', PyList rs)]"
    using assms by (auto simp: preflight_def res_bind_Inr)
  note l = preflight_records_Inr [OF rs]
  then have "\<forall>x \<in> set rs. wf_val x" by (auto simp: list_all2_conv_all_nth in_set_conv_nth record_of_def)
  then show ?thesis using l unfolding j journal_of_def by (simp add: list_all_iff)
qed

section \<open>Progress of a run\<close>

text \<open>The bytes at every path when the first \<open>n\<close> destinations are written and the journal reads \<open>jt\<close>.\<close>

definition applied_reads :: "tx \<Rightarrow> disk \<Rightarrow> nat \<Rightarrow> string option \<Rightarrow> path \<Rightarrow> string option" where
  "applied_reads t d0 n jt q = (if q = journal_path t then jt
     else case map_of (map (\<lambda>m. (mu_path m, mu_data m)) (take n (tx_mutations t))) q of Some b \<Rightarrow> b | None \<Rightarrow> read d0 q)"

definition tx_at :: "tx \<Rightarrow> disk \<Rightarrow> nat \<Rightarrow> string option \<Rightarrow> disk \<Rightarrow> bool" where
  "tx_at t d0 n jt d \<longleftrightarrow> tx_frame t d0 d \<and> (\<forall>q. read d q = applied_reads t d0 n jt q)"

lemma tx_at_journal:
  assumes "tx_wf t" and "tx_at t d0 n jt d"
  shows "\<exists>d'. write_journal t j d = (d', Inr ()) \<and> tx_at t d0 n (Some (json_text j)) d'"
proof -
  have w: "writable d (journal_path t)" using assms(2) by (simp add: tx_at_def tx_frame_def)
  obtain d' where d': "atomic_write_bytes (tx_root t) d (Rel (journal_path t)) (json_text j) (Some 384) = (d', Inr ())" "updated d (journal_path t) (Some (json_text j)) d'"
    using write_updated [OF w, of "tx_root t" "json_text j" "Some 384"] assms(1) unfolding tx_wf_def by blast
  then have "tx_at t d0 n (Some (json_text j)) d'"
    using frame_journal [OF assms(1) _ d'(2)] updated_read [OF d'(2) w] assms(2) by (simp add: tx_at_def applied_reads_def)
  then show ?thesis using d'(1) by (auto simp: write_journal_def atomic_write_json_def)
qed

lemma take_paths:
  assumes "tx_wf t" and "i < length (tx_mutations t)"
  shows "map_of (map (\<lambda>m. (mu_path m, mu_data m)) (take i (tx_mutations t))) (mu_path (tx_mutations t ! i)) = None"
    and "mu_path (tx_mutations t ! i) \<in> set (tx_paths t)"
proof -
  have d: "distinct (tx_paths t)" using assms(1) by (simp add: tx_wf_def)
  have "mu_path (tx_mutations t ! i) \<notin> set (take i (tx_paths t))"
  proof
    assume "mu_path (tx_mutations t ! i) \<in> set (take i (tx_paths t))"
    then obtain k where "k < i" "tx_paths t ! k = tx_paths t ! i" using assms(2) by (auto simp: in_set_conv_nth)
    then show False using nth_eq_iff_index_eq [OF d, of k i] assms(2) by simp
  qed
  then show "map_of (map (\<lambda>m. (mu_path m, mu_data m)) (take i (tx_mutations t))) (mu_path (tx_mutations t ! i)) = None"
    by (force simp: map_of_eq_None_iff take_map)
  show "mu_path (tx_mutations t ! i) \<in> set (tx_paths t)" using assms(2) by simp
qed

lemma journal_not_dest: "tx_wf t \<Longrightarrow> p \<in> set (tx_paths t) \<Longrightarrow> p \<noteq> journal_path t"
  using journal_prefix(1) [of t p] by fastforce

lemma tx_at_destination:
  assumes "tx_wf t" and "tx_at t d0 i jt d" and "i < length (tx_mutations t)" and "journal_of t d0 phase j"
  shows "\<exists>d'. write_destination t i j d = (d', Inr ()) \<and> tx_at t d0 (Suc i) jt d'"
proof -
  let ?m = "tx_mutations t ! i" let ?p = "mu_path ?m" let ?x = "items (dget j ''records'') ! i"
  have x: "record_of d0 ?m ?x" using assms(3,4) by (auto simp: journal_of_def list_all2_conv_all_nth)
  have p: "?p \<in> set (tx_paths t)" and w: "writable d ?p" and r: "plain (tx_root t)"
    using take_paths [OF assms(1,3)] assms(1,2) by (auto simp: tx_at_def tx_frame_def tx_wf_def)
  have rd: "read d ?p = read d0 ?p"
    using assms(2) take_paths(1) [OF assms(1,3)] journal_not_dest [OF assms(1) p] by (simp add: tx_at_def applied_reads_def)
  obtain d' where d': "apply_mutation t ?m ?x d = (d', Inr ())" "updated d ?p (mu_data ?m) d'"
  proof (cases "mu_data ?m")
    case None
    then show thesis using that unlink_updated [OF w r] by (auto simp: apply_mutation_def)
  next
    case (Some b)
    then show thesis using that write_updated [OF w r] by (auto simp: apply_mutation_def)
  qed
  have w': "writable d' ?p" by (rule updated_writable_self [OF d'(2) w])
  have rs: "read d' q = (if q = ?p then mu_data ?m else read d q)" for q by (rule updated_read [OF d'(2) w])
  have tk: "take (Suc i) (tx_mutations t) = take i (tx_mutations t) @ [?m]" using assms(3) by (rule take_Suc_conv_app_nth)
  have "read d' q = applied_reads t d0 (Suc i) jt q" for q
    using assms(2) take_paths(1) [OF assms(1,3)] journal_not_dest [OF assms(1) p]
    by (auto simp: rs tx_at_def applied_reads_def tk map_add_def split: option.splits)
  then have "tx_at t d0 (Suc i) jt d'"
    using frame_destination [OF assms(1) _ p d'(2)] assms(2) by (simp add: tx_at_def)
  moreover have "write_destination t i j d = (d', Inr ())"
    unfolding write_destination_def Let_def
    using read_bytes_writable [OF w] read_bytes_writable [OF w'] rd rs d'(1) x by (simp add: record_of_def io_bind_def)
  ultimately show ?thesis by blast
qed
definition no_pending :: "disk \<Rightarrow> path \<Rightarrow> bool" where
  "no_pending d sd \<longleftrightarrow> (\<forall>n. \<not> is_dir d (sd @ [n]))"

text \<open>The disk a transaction leaves: its targets can be written again and nothing is pending.\<close>

definition settled :: "tx \<Rightarrow> disk \<Rightarrow> disk \<Rightarrow> bool" where
  "settled t d0 d \<longleftrightarrow> (\<forall>p \<in> set (tx_paths t). writable d p) \<and> (\<forall>q \<in> set (steps (tx_state_dir t)). is_dir d q)
     \<and> no_pending d (tx_state_dir t) \<and> beside t d0 d"

text \<open>Where a run is, and what that says of the disk and of the journal in memory.\<close>

definition good_run :: "tx \<Rightarrow> disk \<Rightarrow> bool \<Rightarrow> run \<Rightarrow> bool" where
  "good_run t d0 retain s \<longleftrightarrow> (let n = length (tx_mutations t); j = ru_journal s; d = ru_disk s; jt = Some (json_text j) in
     case ru_pc s of
       Prepare \<Rightarrow> tx_at t d0 0 None d \<and> journal_of t d0 ''PREPARED'' j
     | Announce \<Rightarrow> tx_at t d0 0 jt d \<and> journal_of t d0 ''PREPARED'' j
     | Destination i \<Rightarrow> i < n \<and> tx_at t d0 i jt d \<and> journal_of t d0 ''APPLYING'' j
     | Mark i \<Rightarrow> i < n \<and> tx_at t d0 (Suc i) jt d \<and> journal_of t d0 ''APPLYING'' j
     | Commit \<Rightarrow> tx_at t d0 n jt d \<and> journal_of t d0 ''APPLYING'' j
     | Drop \<Rightarrow> tx_at t d0 n jt d \<and> journal_of t d0 ''COMMITTED'' j \<and> \<not> retain
     | Clean \<Rightarrow> tx_at t d0 n None d \<and> \<not> retain
     | Done \<Rightarrow> (if retain then tx_at t d0 n jt d \<and> journal_of t d0 ''COMMITTED'' j
                else (\<forall>q. read d q = applied_reads t d0 n None q) \<and> settled t d0 d))"

text \<open>The steps left.\<close>

definition steps_left :: "tx \<Rightarrow> bool \<Rightarrow> pc \<Rightarrow> nat" where
  "steps_left t retain c = (let n = length (tx_mutations t) in case c of
       Prepare \<Rightarrow> 5 + 2 * n | Announce \<Rightarrow> 4 + 2 * n | Destination i \<Rightarrow> 3 + 2 * (n - i) | Mark i \<Rightarrow> 2 + 2 * (n - i)
     | Commit \<Rightarrow> 3 | Drop \<Rightarrow> 2 | Clean \<Rightarrow> 1 | Done \<Rightarrow> 0)"

lemma unlink_frame:
  assumes "tx_wf t" and "tx_at t d0 n jt d" and "jt \<noteq> None"
  shows "\<exists>d'. unlink_missing_ok (journal_path t) d = (d', Inr ()) \<and> tx_at t d0 n None d'
    \<and> durable_unlink (tx_root t) d (Rel (journal_path t)) False = (d', Inr ())"
proof -
  have w: "writable d (journal_path t)" and rt: "plain (tx_root t)" using assms by (auto simp: tx_at_def tx_frame_def tx_wf_def)
  have "read d (journal_path t) = jt" using assms(2) by (simp add: tx_at_def applied_reads_def)
  then obtain i m b where f: "node_at d (journal_path t) = Some (File i m b)" using assms(3) by (auto simp: read_def split: option.splits node.splits)
  obtain d' where d': "durable_unlink (tx_root t) d (Rel (journal_path t)) True = (d', Inr ())" "updated d (journal_path t) None d'"
    using unlink_updated [OF w rt] by blast
  have e: "d' = remove d (journal_path t)" using d'(1) f writable_confined [OF w rt] by (simp add: durable_unlink_def)
  have "tx_at t d0 n None d'"
    using frame_journal [OF assms(1) _ d'(2)] updated_read [OF d'(2) w] assms(2) by (simp add: tx_at_def applied_reads_def)
  then show ?thesis using f e writable_confined [OF w rt] by (simp add: unlink_missing_ok_def durable_unlink_def)
qed

lemma rmdir_frame:
  assumes "tx_wf t" and "tx_at t d0 n None d"
  shows "\<exists>d'. rmdir (tx_dir t) d = (d', Inr ()) \<and> (\<forall>q. read d' q = read d q) \<and> settled t d0 d'"
proof -
  let ?d = "remove d (tx_dir t)"
  have fr: "tx_frame t d0 d" using assms(2) by (simp add: tx_at_def)
  have "read d (journal_path t) = None" using assms(2) by (simp add: tx_at_def applied_reads_def)
  moreover have "node_at d (journal_path t) = None \<or> (\<exists>i m b. node_at d (journal_path t) = Some (File i m b))"
    using fr by (auto simp: tx_frame_def writable_def)
  ultimately have "node_at d (journal_path t) = None" by (auto simp: read_def)
  then have "\<not> exists d (tx_dir t @ [x])" for x
    using fr by (cases "x = ''journal.json''") (auto simp: tx_frame_def exists_def journal_path_def)
  then have "names d (tx_dir t) = []" using set_names [of _ d "tx_dir t"] by (metis ex_in_conv set_empty2)
  moreover have dirs: "is_dir d (tx_dir t)" "is_dir d (tx_state_dir t)" "is_dir d (tx_state_dir t @ [n]) \<longleftrightarrow> n = tx_id t" for n
    using fr by (simp_all add: tx_frame_def)
  ultimately have rm: "rmdir (tx_dir t) d = (?d, Inr ())" by (simp add: rmdir_def)
  have ne: "tx_dir t \<noteq> []" "tx_state_dir t \<noteq> tx_dir t" by (simp_all add: tx_dir_def)
  have nd: "node_at ?d q = (if q = tx_dir t then None else node_at d q)" for q using ne(1) by simp
  have "read d (tx_dir t) = None" using dirs(1) by (simp add: is_dir_def read_def)
  then have rd: "read ?d q = read d q" for q using ne(1) by simp
  have u: "\<not> under_agents (tx_dir t)" using assms(1) by (cases "tx_state_dir t") (auto simp: tx_wf_def tx_dir_def under_agents_def)
  have g: "set (governing_file_identities ?d) = set (governing_file_identities d)"
    by (rule governing_ids_cong [of "tx_dir t"]) (use u dirs(1) nd in \<open>auto intro!: ungoverned_dir simp: is_dir_def\<close>)
  note apart = tx_dir_apart [OF assms(1)]
  have w: "writable ?d p" if p: "p \<in> set (tx_paths t)" for p
    using apart [OF p] fr p unfolding tx_frame_def writable_def nd g by auto
  have "rooted ?d p = rooted d p" if p: "p \<in> set (tx_paths t)" for p using apart [OF p] by (auto simp: rooted_def exists_def is_dir_def nd)
  then have "beside t d0 ?d" using fr unfolding tx_frame_def beside_def is_dir_def nd g by (auto simp: touched_def)
  moreover have "is_dir ?d q" if "q \<in> set (steps (tx_state_dir t))" for q
    using that fr nd [of q] by (auto simp: tx_frame_def is_dir_def steps_iff tx_dir_def dest: prefix_length_le)
  moreover have "no_pending ?d (tx_state_dir t)"
    using dirs(3) nd by (auto simp: no_pending_def is_dir_def tx_dir_def)
  ultimately show ?thesis using w rd unfolding rm settled_def by blast
qed

lemma tx_step_good:
  assumes "tx_wf t" and "good_run t d0 retain s"
  shows "\<exists>s'. tx_step t retain s = (s', None) \<and> good_run t d0 retain s' \<and> (steps_left t retain (ru_pc s') < steps_left t retain (ru_pc s) \<or> ru_pc s = Done \<and> s' = s)"
proof -
  obtain d j c where s: "s = \<lparr>ru_disk = d, ru_journal = j, ru_pc = c\<rparr>" by (cases s)
  note J = tx_at_journal [OF assms(1)]
  show ?thesis
  proof (cases c)
    case Prepare
    then show ?thesis using assms(2) J [of d0 0 None d j] unfolding s good_run_def tx_step_def Let_def by (auto simp: steps_left_def)
  next
    case Announce
    then show ?thesis using assms(2) J [of d0 0 "Some (json_text j)" d "dset j ''phase'' (PyStr ''APPLYING'')"] journal_of_phase [of t d0 "''PREPARED''" j "''APPLYING''"]
      unfolding s good_run_def tx_step_def Let_def by (auto simp: steps_left_def after_mark_def)
  next
    case (Destination i)
    then show ?thesis using assms(2) tx_at_destination [OF assms(1), of d0 i "Some (json_text j)" d "''APPLYING''" j]
      unfolding s good_run_def tx_step_def Let_def by (auto simp: steps_left_def)
  next
    case (Mark i)
    have "journal_of t d0 ''APPLYING'' (dset j ''applied'' (PyInt (int (Suc i))))"
      using assms(2) Mark by (intro journal_of_dset) (simp_all add: s good_run_def Let_def)
    moreover have "Suc i < length (tx_mutations t) \<or> Suc i = length (tx_mutations t)"
      using assms(2) Mark by (auto simp: s good_run_def Let_def)
    ultimately show ?thesis using assms(2) Mark J [of d0 "Suc i" "Some (json_text j)" d "dset j ''applied'' (PyInt (int (Suc i)))"]
      unfolding s good_run_def tx_step_def Let_def by (elim disjE) (auto simp: steps_left_def after_mark_def)
  next
    case Commit
    have "journal_of t d0 ''COMMITTED'' (dset (dset j ''phase'' (PyStr ''COMMITTED'')) ''committed'' (PyStr (tx_now t)))"
      using assms(2) Commit by (intro journal_of_dset [OF journal_of_phase [of t d0 "''APPLYING''"]]) (simp_all add: s good_run_def Let_def)
    then show ?thesis using assms(2) Commit J [of d0 "length (tx_mutations t)" "Some (json_text j)" d "dset (dset j ''phase'' (PyStr ''COMMITTED'')) ''committed'' (PyStr (tx_now t))"]
      unfolding s good_run_def tx_step_def Let_def by (auto simp: steps_left_def)
  next
    case Drop
    then show ?thesis using assms(2) unlink_frame [OF assms(1), of d0 "length (tx_mutations t)" "Some (json_text j)" d]
      unfolding s good_run_def tx_step_def Let_def by (auto simp: steps_left_def)
  next
    case Clean
    then show ?thesis using assms(2) rmdir_frame [OF assms(1), of d0 "length (tx_mutations t)" d]
      unfolding s good_run_def tx_step_def Let_def by (auto simp: steps_left_def tx_at_def)
  next
    case Done
    then show ?thesis using assms(2) by (simp add: s tx_step_def)
  qed
qed

section \<open>Recovery of an interrupted run\<close>

lemma json_at_text: "read d p = Some (json_text j) \<Longrightarrow> wf_val j \<Longrightarrow> json_at d p = Some (canon j)"
  by (simp add: json_at_def json_text_reads)

definition plan_item :: "disk \<Rightarrow> string \<Rightarrow> mutation \<Rightarrow> string \<times> path \<times> string option \<times> pyval list" where
  "plan_item d0 phase m = (posix (mu_path m), mu_path m, read d0 (mu_path m),
     if phase = ''COMMITTED'' then [sha_opt (mu_data m)] else [sha_opt (read d0 (mu_path m)), sha_opt (mu_data m)])"

lemma lower_hex: "is_sha256 s \<Longrightarrow> casefold s = s"
  unfolding is_sha256_def casefold_def list_all_iff
  by (auto intro!: map_idI simp: is_hex_def is_digit_def lower_char_def less_eq_char_def Let_def)

lemma hex_digits_all: "list_all is_hex s \<Longrightarrow> s \<noteq> [] \<or> b \<Longrightarrow> hex_digits b s"
  by (induction s arbitrary: b) (auto simp: neq_Nil_conv)

lemma hex_not_other: "is_hex c \<Longrightarrow> \<not> is_space c \<and> c \<noteq> CHR ''+'' \<and> c \<noteq> CHR ''-'' \<and> c \<noteq> CHR ''x'' \<and> c \<noteq> CHR ''X''"
  by (auto simp: is_hex_def is_digit_def is_space_def less_eq_char_def Let_def)

lemma sha256_hex_literal:
  assumes "is_sha256 s"
  shows "hex_literal s"
proof -
  have h: "list_all is_hex s" "s \<noteq> []" using assms by (auto simp: is_sha256_def)
  have "dropWhile is_space t = t" if "set t \<subseteq> set s" for t
    using that h(1) hex_not_other by (cases t) (auto simp: list_all_iff)
  then have st: "strip s = s" by (simp add: strip_def)
  have c: "hd s \<noteq> CHR ''+''" "hd s \<noteq> CHR ''-''" using h hex_not_other by (cases s; auto)+
  have "\<not> startswith s ''0x''" "\<not> startswith s ''0X''" using h(1) hex_not_other [of "CHR ''x''"] hex_not_other [of "CHR ''X''"] by (auto simp: startswith_iff)
  then show ?thesis unfolding hex_literal_def Let_def st using c hex_digits_all [OF h(1), of False] h(2) by simp
qed

lemma valid_sha_opt: "valid_sha256 (sha_opt b)"
  using sha256_shape by (auto simp: valid_sha256_def sha_opt_def sha256_hex_literal lower_hex is_sha256_def split: option.split)

lemma confined_writable: "writable d p \<Longrightarrow> confined_path r d (Rel p) False False = Inr p"
proof -
  assume w: "writable d p"
  then have "\<not> redirected d p" by (auto simp: writable_def redirected_def steps_snoc is_path_redirect_def)
  then show ?thesis using w by (simp add: confined_path_def writable_def plain_def)
qed

lemma canon_sha [simp]: "canon (sha_opt b) = sha_opt b" "canon (str_opt b) = str_opt b"
  by (simp_all add: sha_opt_def str_opt_def split: option.split)

lemma decode_before_opt: "decode_before (str_opt (map_option b64encode b)) = Inr b"
  by (cases b) (simp_all add: str_opt_def decode_before_def b64_roundtrip)

lemma recovery_item_record:
  assumes "record_of d0 m x" and "writable d (mu_path m)" and "normal (mu_path m)" and "posix (mu_path m) \<notin> set seen" and "phase \<noteq> ''ROLLED_BACK''"
    and "force = (phase \<noteq> ''COMMITTED'')"
  shows "recovery_item r d phase force seen (canon x) = Inr (plan_item d0 phase m)"
proof -
  have ne: "mu_path m \<noteq> []" using assms(2) by (simp add: writable_def)
  have sp: "supplied_path (posix (mu_path m)) = Rel (mu_path m)"
    using posix_relative [OF assms(3) ne] path_parts_posix [OF assms(3) ne] by (simp add: supplied_path_def)
  have g: "dget (canon x) k = canon (dget x k)" for k using assms(1) by (simp add: record_of_def dget_canon)
  show ?thesis
    using assms(1,4-6) confined_writable [OF assms(2)] valid_sha_opt
    by (simp add: recovery_item_def g record_of_def sp decode_before_opt plan_item_def)
qed

lemma recovery_items_records:
  assumes "list_all2 (record_of d0) ms xs" and "\<forall>m \<in> set ms. writable d (mu_path m) \<and> normal (mu_path m)"
    and "distinct (map (\<lambda>m. posix (mu_path m)) ms)" and "\<forall>m \<in> set ms. posix (mu_path m) \<notin> set seen" and "phase \<noteq> ''ROLLED_BACK''" and "force = (phase \<noteq> ''COMMITTED'')"
  shows "recovery_items r d phase force seen (map canon xs) = Inr (map (plan_item d0 phase) ms)"
  using assms(1-4)
proof (induction ms xs arbitrary: seen rule: list_all2_induct)
  case (Cons m ms x xs)
  have "recovery_item r d phase force seen (canon x) = Inr (plan_item d0 phase m)"
    using recovery_item_record [OF Cons.hyps(1) _ _ _ assms(5,6)] Cons.prems by simp
  moreover have "recovery_items r d phase force (posix (mu_path m) # seen) (map canon xs) = Inr (map (plan_item d0 phase) ms)"
    using Cons.prems by (intro Cons.IH) (auto simp: image_iff)
  moreover have "is_dict x" using Cons.hyps(1) by (simp add: record_of_def)
  ultimately show ?case by (simp add: plan_item_def)
qed simp

lemma posix_distinct:
  assumes "tx_wf t"
  shows "distinct (map (\<lambda>m. posix (mu_path m)) (tx_mutations t))"
proof -
  have "inj_on posix (set (tx_paths t))" using assms by (auto intro!: inj_onI posix_inj simp: tx_wf_def)
  moreover have "distinct (tx_paths t)" using assms by (simp add: tx_wf_def)
  ultimately have "distinct (map posix (tx_paths t))" unfolding distinct_map [of posix] by blast
  then show ?thesis by (simp add: comp_def)
qed

lemma root_matches_text: "plain r \<Longrightarrow> normal r \<Longrightarrow> root_matches r (PyStr (root_text r))"
proof -
  assume r: "plain r" "normal r"
  have "path_parts (root_text r) = r"
  proof (cases "r = []")
    case True
    then show ?thesis by (simp add: root_text_def posix_def path_parts_def)
  next
    case False
    then show ?thesis using path_parts_posix [OF r(2) False] by (simp add: root_text_def path_parts_def)
  qed
  then show ?thesis using r(1) by (simp add: root_matches_def root_text_def plain_def)
qed

text \<open>The plan recovery makes from the journal of the run.\<close>

definition run_plan :: "tx \<Rightarrow> disk \<Rightarrow> string \<Rightarrow> pyval \<Rightarrow> plan" where
  "run_plan t d0 phase j = \<lparr>pl_journal_path = journal_path t, pl_journal = canon j, pl_rollback = (phase \<noteq> ''COMMITTED''),
     pl_items = map (plan_item d0 phase) (tx_mutations t)\<rparr>"

lemma prepare_recovery_run:
  assumes "tx_wf t" and "tx_frame t d0 d" and "journal_of t d0 phase j" and "phase \<in> {''PREPARED'', ''APPLYING'', ''COMMITTED''}"
  shows "prepare_recovery (tx_root t) d (journal_path t) (canon j) (phase \<noteq> ''COMMITTED'') = Inr (run_plan t d0 phase j)"
proof -
  obtain rs where rs: "dget j ''records'' = PyList rs" "list_all2 (record_of d0) (tx_mutations t) rs" using assms(3) by (auto simp: journal_of_def)
  have g: "dget (canon j) k = canon (dget j k)" for k using assms(3) by (simp add: journal_of_def dget_canon)
  have "recovery_items (tx_root t) d phase (phase \<noteq> ''COMMITTED'') [] (map canon rs) = Inr (map (plan_item d0 phase) (tx_mutations t))"
    using assms(1,2,4) rs(2) by (intro recovery_items_records posix_distinct) (auto simp: tx_frame_def tx_wf_def)
  moreover have "root_matches (tx_root t) (dget (canon j) ''root'')"
    using assms(1,3) root_matches_text by (simp add: g journal_of_def tx_wf_def)
  moreover have "str_in (PyStr phase) [''PREPARED'', ''APPLYING'', ''COMMITTED'', ''ROLLED_BACK'']" using assms(4) by auto
  moreover have "(phase = ''PREPARED'' \<or> phase = ''APPLYING'' \<or> phase = ''COMMITTED'' \<and> phase \<noteq> ''COMMITTED'') = (phase \<noteq> ''COMMITTED'')"
    using assms(4) by auto
  ultimately show ?thesis using assms(3) rs(1)
    by (simp add: prepare_recovery_def g journal_of_def check_all_Inr run_plan_def Let_def check_all.simps memb_def in_set_def)
qed
lemma candidates_none: "\<forall>n \<in> set ns. \<not> is_dir d (sd @ [n]) \<Longrightarrow> candidates d sd sel rm ns = Inr []"
  by (induction ns) simp_all

lemma candidates_run:
  assumes "tx_frame t d0 d" and "read d (journal_path t) = Some (json_text j)" and "journal_of t d0 phase j"
    and "distinct ns" and "tx_id t \<in> set ns"
  shows "candidates d (tx_state_dir t) (Some [tx_name t]) True ns = Inr [(tx_dir t, canon j)]"
  using assms(4,5)
proof (induction ns)
  case (Cons n ns)
  show ?case
  proof (cases "n = tx_id t")
    case False
    then have "\<not> is_dir d (tx_state_dir t @ [n])" using assms(1) by (simp add: tx_frame_def)
    then show ?thesis using Cons False by simp
  next
    case True
    have wf: "wf_val j" "is_dict j" using assms(3) by (simp_all add: journal_of_def)
    have jp: "tx_state_dir t @ [n, ''journal.json''] = journal_path t" using True by (simp add: journal_path_def tx_dir_def)
    have rest: "candidates d (tx_state_dir t) (Some [tx_name t]) True ns = Inr []"
      using Cons.prems True assms(1) by (intro candidates_none) (auto simp: tx_frame_def)
    have "is_file d (journal_path t)" using assms(2) by (auto simp: is_file_def read_def split: option.splits node.splits)
    moreover have "read_recovery_journal d (journal_path t) = Inr (canon j)"
      using json_at_text [OF assms(2) wf(1)] wf(2) by (simp add: read_recovery_journal_def)
    moreover have "journal_selected (Some [tx_name t]) (canon j) = Inr True"
      using assms(3) wf(1) by (simp add: journal_selected_def dget_canon journal_of_def in_set_def)
    moreover have "\<not> (\<exists>x \<in> set (names d (tx_dir t)). x \<noteq> ''journal.json'')"
      using assms(1) by (auto simp: set_names tx_frame_def)
    moreover have "is_dir d (tx_state_dir t @ [n])" using True assms(1) by (simp add: tx_frame_def)
    moreover have "tx_state_dir t @ [n] = tx_dir t" using True by (simp add: tx_dir_def)
    ultimately show ?thesis using jp rest by (simp add: Let_def)
  qed
qed simp

lemma check_destinations_distinct:
  "distinct (map fst xs) \<Longrightarrow> \<forall>x \<in> set xs. map_of seen (fst x) = None \<Longrightarrow> check_destinations seen xs = Inr ()"
proof (induction seen xs rule: check_destinations.induct)
  case (2 seen p rb xs)
  have "\<forall>x \<in> set xs. map_of ((p, rb) # seen) (fst x) = None" using 2(3,4) by (auto simp: image_iff)
  then show ?case using 2 by simp
qed simp

text \<open>At every point of the run each destination has its old or its new bytes, after the commit record the new ones.\<close>

lemma drift_ok:
  assumes "tx_wf t" and "tx_at t d0 n jt d" and "m \<in> set (tx_mutations t)" and "phase = ''COMMITTED'' \<longrightarrow> n = length (tx_mutations t)"
  shows "check_drift d (plan_item d0 phase m) = Inr ()"
proof -
  let ?p = "mu_path m"
  have p: "?p \<in> set (tx_paths t)" using assms(3) by simp
  have w: "writable d ?p" using assms(2,3) by (simp add: tx_at_def tx_frame_def)
  let ?al = "map (\<lambda>m. (mu_path m, mu_data m))"
  have full: "map_of (?al (tx_mutations t)) ?p = Some (mu_data m)"
    using assms(1,3) by (intro map_of_is_SomeI) (auto simp: tx_wf_def comp_def)
  have "read d ?p = (case map_of (?al (take n (tx_mutations t))) ?p of Some b \<Rightarrow> b | None \<Rightarrow> read d0 ?p)"
    using assms(2) journal_not_dest [OF assms(1) p] by (simp add: tx_at_def applied_reads_def)
  moreover have "map_of (?al (take n (tx_mutations t))) ?p = None \<or> map_of (?al (take n (tx_mutations t))) ?p = Some (mu_data m)"
  proof (cases "map_of (?al (take n (tx_mutations t))) ?p")
    case (Some b)
    then have "(?p, b) \<in> set (?al (tx_mutations t))" by (auto dest!: map_of_SomeD in_set_takeD)
    then have "b = mu_data m" using full assms(1) by (metis (no_types, lifting) comp_apply fst_conv map_eq_conv map_map map_of_is_SomeI option.inject tx_wf_def)
    then show ?thesis using Some by simp
  qed simp
  ultimately have "read d ?p = read d0 ?p \<or> read d ?p = mu_data m" and "phase = ''COMMITTED'' \<longrightarrow> read d ?p = mu_data m"
    using assms(4) full by auto
  then show ?thesis using read_bytes_writable [OF w] by (auto simp: check_drift_def plan_item_def)
qed

lemma restore_items:
  assumes "tx_wf t" and "\<forall>x \<in> set xs. fst (snd (fst x)) \<in> set (tx_paths t) \<and> fst (snd (snd (fst x))) = read d0 (fst (snd (fst x)))" and "tx_frame t d0 d"
  shows "\<exists>d'. io_each (restore_item (tx_root t)) xs d = (d', Inr ()) \<and> tx_frame t d0 d'
    \<and> (\<forall>q. read d' q = (if q \<in> set (map (\<lambda>x. fst (snd (fst x))) xs) then read d0 q else read d q))"
  using assms(2,3)
proof (induction xs arbitrary: d)
  case (Cons x xs)
  obtain rel p b ex rc where x: "x = ((rel, p, b, ex), rc)" by (metis prod.exhaust)
  have p: "p \<in> set (tx_paths t)" and b: "b = read d0 p" using Cons.prems(1) x by auto
  have w: "writable d p" and r: "plain (tx_root t)" using Cons.prems(2) p assms(1) by (auto simp: tx_frame_def tx_wf_def)
  obtain d1 where d1: "restore_item (tx_root t) x d = (d1, Inr ())" "updated d p b d1"
  proof (cases b)
    case None
    then show thesis using that unlink_updated [OF w r] by (auto simp: restore_item_def x)
  next
    case (Some c)
    then show thesis using that write_updated [OF w r] by (auto simp: restore_item_def x)
  qed
  have f1: "tx_frame t d0 d1" by (rule frame_destination [OF assms(1) Cons.prems(2) p d1(2)])
  obtain d' where d': "io_each (restore_item (tx_root t)) xs d1 = (d', Inr ())" "tx_frame t d0 d'"
    "\<forall>q. read d' q = (if q \<in> set (map (\<lambda>x. fst (snd (fst x))) xs) then read d0 q else read d1 q)"
    using Cons.IH [OF _ f1] Cons.prems(1) by auto
  then show ?case using d1(1) updated_read [OF d1(2) w] b by (auto simp: x)
qed simp

lemma apply_recovery_rollback:
  assumes "tx_wf t" and "tx_at t d0 n jt d" and "journal_of t d0 phase j" and "phase \<noteq> ''COMMITTED''"
  shows "\<exists>d' j'. apply_recovery (tx_root t) now (run_plan t d0 phase j) d = (d', Inr j') \<and> tx_at t d0 0 (Some (json_text j')) d'"
proof -
  obtain rs where rs: "dget j ''records'' = PyList rs" "list_all2 (record_of d0) (tx_mutations t) rs" using assms(3) by (auto simp: journal_of_def)
  let ?zs = "rev (zip (map (plan_item d0 phase) (tx_mutations t)) (items (dget (canon j) ''records'')))"
  have len: "length (items (dget (canon j) ''records'')) = length (tx_mutations t)"
    using rs assms(3) by (simp add: dget_canon journal_of_def list_all2_lengthD)
  then have ps: "map (\<lambda>x. fst (snd (fst x))) ?zs = rev (tx_paths t)"
    using map_map [of mu_path fst "zip (tx_mutations t) (items (dget (canon j) ''records''))"]
    by (simp add: rev_map [symmetric] zip_map1 comp_def split_def plan_item_def)
  have "\<forall>x \<in> set ?zs. fst (snd (fst x)) \<in> set (tx_paths t) \<and> fst (snd (snd (fst x))) = read d0 (fst (snd (fst x)))"
  proof
    fix x assume "x \<in> set ?zs"
    then have "(fst x, snd x) \<in> set (zip (map (plan_item d0 phase) (tx_mutations t)) (items (dget (canon j) ''records'')))" by simp
    from set_zip_leftD [OF this] have "fst x \<in> set (map (plan_item d0 phase) (tx_mutations t))" .
    then show "fst (snd (fst x)) \<in> set (tx_paths t) \<and> fst (snd (snd (fst x))) = read d0 (fst (snd (fst x)))" by (auto simp: plan_item_def)
  qed
  moreover have "tx_frame t d0 d" using assms(2) by (simp add: tx_at_def)
  ultimately obtain d1 where d1: "io_each (restore_item (tx_root t)) ?zs d = (d1, Inr ())" "tx_frame t d0 d1"
    "\<forall>q. read d1 q = (if q \<in> set (tx_paths t) then read d0 q else read d q)"
    using restore_items [OF assms(1), of ?zs d0 d] unfolding ps set_rev by blast
  have "read d1 q = applied_reads t d0 0 jt q" for q
    using d1(3) assms(2) journal_not_dest [OF assms(1), of q]
    by (auto simp: tx_at_def applied_reads_def image_iff split: option.splits dest!: map_of_SomeD in_set_takeD)
  then have a1: "tx_at t d0 0 jt d1" using d1(2) by (simp add: tx_at_def)
  let ?j = "dset (dset (dset (canon j) ''phase'' (PyStr ''ROLLED_BACK'')) ''rolled_back'' (PyStr now)) ''applied'' (PyInt 0)"
  obtain d' where "write_journal t ?j d1 = (d', Inr ())" "tx_at t d0 0 (Some (json_text ?j)) d'" using tx_at_journal [OF assms(1) a1] by blast
  then show ?thesis using d1(1) assms(4) by (auto simp: apply_recovery_def run_plan_def write_journal_def Let_def)
qed
text \<open>The bytes at every path when the whole transaction has happened.\<close>

definition tx_final :: "tx \<Rightarrow> disk \<Rightarrow> path \<Rightarrow> string option" where
  "tx_final t d q = (case map_of (map (\<lambda>m. (mu_path m, mu_data m)) (tx_mutations t)) q of Some b \<Rightarrow> b | None \<Rightarrow> read d q)"

lemma remove_journal_ok:
  assumes "tx_wf t" and "tx_at t d0 n (Some jt) d"
  shows "\<exists>d'. remove_journal (tx_root t) (tx_dir t) d = (d', Inr ()) \<and> (\<forall>q. read d' q = applied_reads t d0 n None q)
    \<and> settled t d0 d'"
proof -
  obtain d1 where d1: "durable_unlink (tx_root t) d (Rel (journal_path t)) False = (d1, Inr ())" "tx_at t d0 n None d1"
    using unlink_frame [OF assms(1,2)] by blast
  obtain d2 where "rmdir (tx_dir t) d1 = (d2, Inr ())" "\<forall>q. read d2 q = read d1 q" "settled t d0 d2"
    using rmdir_frame [OF assms(1) d1(2)] by blast
  then show ?thesis using d1 by (simp add: remove_journal_def journal_path_def [symmetric] no_pending_def tx_at_def)
qed

lemma applied_reads_ends:
  "applied_reads t d0 0 None q = (if q = journal_path t then None else read d0 q)"
  "tx_wf t \<Longrightarrow> applied_reads t d0 (length (tx_mutations t)) None q = (if q = journal_path t then None else tx_final t d0 q)"
  by (simp_all add: applied_reads_def tx_final_def)

lemma frame_state_dir: "tx_wf t \<Longrightarrow> tx_frame t d0 d \<Longrightarrow> confined_path (tx_root t) d (Rel (tx_state_dir t)) False False = Inr (tx_state_dir t) \<and> exists d (tx_state_dir t)"
proof -
  assume a: "tx_wf t" "tx_frame t d0 d"
  have "\<forall>q \<in> set (steps (tx_state_dir t)). q \<in> set (steps (butlast (journal_path t)))"
    by (auto simp: steps_iff journal_path_def tx_dir_def butlast_append)
  then have "\<not> redirected d (tx_state_dir t)"
    using a(2) by (force simp: redirected_def is_path_redirect_def tx_frame_def writable_def)
  then show ?thesis using a by (auto simp: confined_path_def tx_wf_def plain_def exists_def is_dir_def tx_frame_def)
qed

text \<open>Recovery rolls an uncommitted run back and keeps a committed one.\<close>

lemma recover_run:
  assumes "tx_wf t" and "tx_at t d0 n (Some (json_text j)) d" and "journal_of t d0 phase j" and "phase \<in> {''PREPARED'', ''APPLYING'', ''COMMITTED''}"
    and "phase = ''COMMITTED'' \<longrightarrow> n = length (tx_mutations t)"
  shows "\<exists>d' js. recover_pending_transactions (tx_root t) now (tx_state_dir t) (Some (tx_name t)) True d = (d', Inr js)
    \<and> (\<forall>q. read d' q = applied_reads t d0 (if phase = ''COMMITTED'' then n else 0) None q) \<and> settled t d0 d'"
proof -
  let ?pl = "run_plan t d0 phase j"
  have fr: "tx_frame t d0 d" using assms(2) by (simp add: tx_at_def)
  have jr: "read d (journal_path t) = Some (json_text j)" using assms(2) by (simp add: tx_at_def applied_reads_def)
  have id: "tx_id t \<in> set (names d (tx_state_dir t))" using fr by (auto simp: set_names tx_frame_def exists_def is_dir_def tx_dir_def)
  have c: "candidates d (tx_state_dir t) (Some [tx_name t]) True (names d (tx_state_dir t)) = Inr [(tx_dir t, canon j)]"
    by (rule candidates_run [OF fr jr assms(3) _ id]) simp
  have ph: "dget (canon j) ''phase'' = PyStr phase" using assms(3) by (simp add: journal_of_def dget_canon)
  have "in_set (PyStr phase) [''COMMITTED'', ''ROLLED_BACK''] = Inr (phase = ''COMMITTED'')" using assms(4) by (auto simp: in_set_def)
  then have pl: "plan_candidates (tx_root t) d [(tx_dir t, canon j)] = Inr [?pl]"
    using prepare_recovery_run [OF assms(1) fr assms(3,4)] by (simp add: plan_candidates_def ph journal_path_def)
  have "distinct (map fst (map (\<lambda>i. (fst (snd i), pl_rollback ?pl)) (pl_items ?pl)))"
    using assms(1) by (simp add: run_plan_def plan_item_def comp_def tx_wf_def)
  then have "check_destinations [] (map (\<lambda>i. (fst (snd i), pl_rollback ?pl)) (pl_items ?pl)) = Inr ()"
    by (rule check_destinations_distinct) simp
  moreover have "for_each (check_drift d) (pl_items ?pl) = Inr ()"
    using drift_ok [OF assms(1,2) _ assms(5)] by (simp add: run_plan_def for_each_Inr)
  ultimately have pre: "preflight_recovery_batch [?pl] d = Inr ()" by (simp add: preflight_recovery_batch_def)
  let ?n = "if phase = ''COMMITTED'' then n else 0"
  obtain d1 j' jt where d1: "apply_recovery (tx_root t) now ?pl d = (d1, Inr j')" "tx_at t d0 ?n (Some jt) d1"
  proof (cases "phase = ''COMMITTED''")
    case True
    then show thesis using that assms(2) by (simp add: apply_recovery_def run_plan_def)
  next
    case False
    then show thesis using that apply_recovery_rollback [OF assms(1,2,3) False, of now] by auto
  qed
  obtain d2 where d2: "remove_journal (tx_root t) (tx_dir t) d1 = (d2, Inr ())" "\<forall>q. read d2 q = applied_reads t d0 ?n None q"
    "settled t d0 d2"
    using remove_journal_ok [OF assms(1) d1(2)] by blast
  have "recover_candidates (tx_root t) now (tx_state_dir t) (Some [tx_name t]) True d = (d2, Inr [j'])"
    using c pl pre d1(1) d2(1) by (simp add: recover_candidates_def)
  then have "recover_pending_transactions (tx_root t) now (tx_state_dir t) (Some (tx_name t)) True d = (d2, Inr [j'])"
    using frame_state_dir [OF assms(1) fr] by (simp add: recover_pending_transactions_def)
  then show ?thesis using d2 by blast
qed

end
