(* ===== verification/Recovery.thy ===== *)
theory Recovery
  imports Transaction
begin

text \<open>
  What the transaction of \<open>agentinfra/transaction.py\<close> guarantees when the process may die between any two
  durable changes: a run always completes, every interrupted run is recovered to all-old or
  all-new, and where recovery itself refuses.
\<close>

section \<open>Commit, crash and recovery\<close>

text \<open>
  A disk a transaction can start from: no journal directory is left, the journals' directory is
  there, every destination can be written, and the new journal directory does not exist.
\<close>

definition tx_ready :: "tx \<Rightarrow> disk \<Rightarrow> bool" where
  "tx_ready t d \<longleftrightarrow> tx_wf t \<and> no_pending d (tx_state_dir t) \<and> (\<forall>q \<in> set (steps (tx_state_dir t)). is_dir d q)
     \<and> (\<forall>p \<in> set (tx_paths t). writable d p) \<and> \<not> exists d (tx_dir t) \<and> (\<forall>n. \<not> exists d (tx_dir t @ [n]))"

definition start_run :: "tx \<Rightarrow> disk \<Rightarrow> pyval \<Rightarrow> run" where
  "start_run t d j = \<lparr>ru_disk = put d (tx_dir t) Directory, ru_journal = j, ru_pc = Prepare\<rparr>"

lemma steps_self: "p \<noteq> [] \<Longrightarrow> p \<in> set (steps p)"
  by (simp add: steps_iff)

lemma start_good:
  assumes "tx_ready t d" and "preflight t d = Inr j"
  shows "good_run t d retain (start_run t d j)"
proof -
  let ?d = "put d (tx_dir t) Directory"
  have wf: "tx_wf t" and ne: "tx_dir t \<noteq> []" and sd: "tx_state_dir t \<noteq> []" using assms(1) by (auto simp: tx_ready_def tx_wf_def tx_dir_def)
  have n: "node_at ?d q = (if q = tx_dir t then Some Directory else node_at d q)" for q using ne by simp
  have none: "node_at d (tx_dir t) = None" "node_at d (tx_dir t @ [x]) = None" for x using assms(1) by (auto simp: tx_ready_def exists_def)
  have r: "read ?d q = applied_reads t d 0 None q" for q
    using none(2) [of "''journal.json''"] none(1) ne by (auto simp: applied_reads_def journal_path_def read_def)
  have u: "\<not> under_agents (tx_dir t)" using wf by (cases "tx_state_dir t") (auto simp: tx_wf_def tx_dir_def under_agents_def)
  have g: "set (governing_file_identities ?d) = set (governing_file_identities d)"
    by (rule governing_ids_cong [of "tx_dir t"]) (use u ne none in \<open>auto intro!: ungoverned_dir\<close>)
  note dn = tx_dir_apart [OF wf]
  have wp: "writable ?d p" if p: "p \<in> set (tx_paths t)" for p
    using assms(1) p dn [OF p] unfolding tx_ready_def writable_def n g by auto
  have jp: "writable ?d (journal_path t)"
  proof -
    have "butlast (journal_path t) = tx_dir t" by (simp add: journal_path_def)
    moreover have "set (steps (tx_dir t)) = insert (tx_dir t) (set (steps (tx_state_dir t)))" by (simp add: tx_dir_def steps_append)
    moreover have "plain (journal_path t)" using wf by (auto simp: tx_wf_def plain_def journal_path_def tx_dir_def)
    moreover have "\<not> under_agents (journal_path t)" using wf sd by (auto simp: tx_wf_def under_agents_def journal_path_def tx_dir_def)
    moreover have "last (journal_path t) \<noteq> ''AGENTS.md''" "journal_path t \<noteq> []" by (simp_all add: journal_path_def)
    moreover have "node_at ?d (journal_path t) = None" using none(2) ne by (simp add: journal_path_def)
    ultimately show ?thesis using assms(1) unfolding writable_def n by (auto simp: tx_ready_def is_dir_def)
  qed
  have "is_dir ?d (tx_state_dir t)" using assms(1) steps_self [OF sd] ne by (auto simp: is_dir_def tx_ready_def)
  moreover have "is_dir ?d (tx_state_dir t @ [x]) \<longleftrightarrow> x = tx_id t" for x
    using assms(1) by (auto simp: n is_dir_def tx_ready_def no_pending_def tx_dir_def)
  moreover have "\<not> exists ?d (tx_dir t @ [x])" for x using none(2) by (simp add: exists_def n)
  moreover have "\<forall>q \<in> set (steps (tx_state_dir t)). is_dir ?d q" using assms(1) n by (auto simp: tx_ready_def is_dir_def)
  moreover have "rooted ?d p" if "rooted d p" and p: "p \<in> set (tx_paths t)" for p using that(1) dn [OF p] by (auto simp: rooted_def exists_def is_dir_def n)
  then have "beside t d ?d" using g n by (auto simp: beside_def touched_def is_dir_def)
  ultimately have "tx_frame t d ?d" using wp jp by (simp add: tx_frame_def is_dir_def n)
  then show ?thesis using r preflight_Inr [OF assms(2)] by (simp add: good_run_def start_run_def tx_at_def)
qed

lemma tx_steps_good:
  assumes "tx_wf t" and "good_run t d0 retain s"
  shows "\<exists>s'. tx_steps k t retain s = (s', None) \<and> good_run t d0 retain s' \<and> (steps_left t retain (ru_pc s) \<le> k \<longrightarrow> ru_pc s' = Done)"
  using assms(2)
proof (induction k arbitrary: s)
  case 0
  then show ?case by (cases "ru_pc s") (auto simp: steps_left_def Let_def)
next
  case (Suc k)
  obtain s1 where s1: "tx_step t retain s = (s1, None)" "good_run t d0 retain s1"
    and l: "steps_left t retain (ru_pc s1) < steps_left t retain (ru_pc s) \<or> ru_pc s = Done \<and> s1 = s"
    using tx_step_good [OF assms(1) Suc.prems] by blast
  have "steps_left t retain (ru_pc s) \<le> Suc k \<longrightarrow> steps_left t retain (ru_pc s1) \<le> k" using l by (auto simp: steps_left_def)
  then show ?case using Suc.IH [OF s1(2)] s1(1) by auto
qed

lemma journal_fresh: "tx_ready t d \<Longrightarrow> read d (journal_path t) = None"
  by (simp add: tx_ready_def exists_def journal_path_def read_def)

text \<open>A run between its first journal and the removal of it holds a journal recovery can act on.\<close>

lemma good_run_journal:
  assumes "good_run t d0 False s" and "ru_pc s \<notin> {Prepare, Clean, Done}"
  obtains n phase where "tx_at t d0 n (Some (json_text (ru_journal s))) (ru_disk s)" and "journal_of t d0 phase (ru_journal s)"
    and "phase \<in> {''PREPARED'', ''APPLYING'', ''COMMITTED''}" and "phase = ''COMMITTED'' \<longleftrightarrow> ru_pc s = Drop"
    and "ru_pc s = Drop \<longrightarrow> n = length (tx_mutations t)"
proof (cases "ru_pc s")
  case Announce
  then show thesis using assms(1) that [of 0 "''PREPARED''"] by (simp add: good_run_def Let_def)
next
  case (Destination i)
  then show thesis using assms(1) that [of i "''APPLYING''"] by (simp add: good_run_def Let_def)
next
  case (Mark i)
  then show thesis using assms(1) that [of "Suc i" "''APPLYING''"] by (simp add: good_run_def Let_def)
next
  case Commit
  then show thesis using assms(1) that [of "length (tx_mutations t)" "''APPLYING''"] by (simp add: good_run_def Let_def)
next
  case Drop
  then show thesis using assms(1) that [of "length (tx_mutations t)" "''COMMITTED''"] by (simp add: good_run_def Let_def)
qed (use assms(2) in simp_all)

lemma reads_ends:
  assumes "tx_ready t d"
  shows "applied_reads t d 0 None = read d" and "applied_reads t d (length (tx_mutations t)) None = tx_final t d"
proof -
  have wf: "tx_wf t" using assms by (simp add: tx_ready_def)
  have "journal_path t \<notin> fst ` set (map (\<lambda>m. (mu_path m, mu_data m)) (tx_mutations t))"
    using journal_not_dest [OF wf, of "journal_path t"] by (auto simp: image_iff)
  then have fin: "tx_final t d (journal_path t) = None"
    using journal_fresh [OF assms] unfolding tx_final_def map_of_eq_None_iff [symmetric] by simp
  show "applied_reads t d 0 None = read d" using journal_fresh [OF assms] by (auto simp: applied_reads_ends)
  show "applied_reads t d (length (tx_mutations t)) None = tx_final t d" using fin by (auto simp: applied_reads_ends(2) [OF wf])
qed

lemma good_run_recovers:
  assumes "tx_ready t d" and "good_run t d False s" and "ru_pc s \<notin> {Prepare, Clean, Done}"
  shows "\<exists>d' js. recover_pending_transactions (tx_root t) now (tx_state_dir t) (Some (tx_name t)) True (ru_disk s) = (d', Inr js)
    \<and> no_pending d' (tx_state_dir t) \<and> read d' = (if ru_pc s = Drop then tx_final t d else read d)"
proof -
  have wf: "tx_wf t" using assms(1) by (simp add: tx_ready_def)
  obtain n phase where r: "tx_at t d n (Some (json_text (ru_journal s))) (ru_disk s)" "journal_of t d phase (ru_journal s)"
    "phase \<in> {''PREPARED'', ''APPLYING'', ''COMMITTED''}" "phase = ''COMMITTED'' \<longleftrightarrow> ru_pc s = Drop" "ru_pc s = Drop \<longrightarrow> n = length (tx_mutations t)"
    by (rule good_run_journal [OF assms(2,3)])
  have "phase = ''COMMITTED'' \<longrightarrow> n = length (tx_mutations t)" using r(4,5) by simp
  from recover_run [OF wf r(1-3) this, of now] show ?thesis
    using r(4,5) reads_ends [OF assms(1)] by (auto simp: fun_eq_iff settled_def)
qed


lemma make_dirs_id: "\<forall>q \<in> set ps. is_dir d q \<Longrightarrow> make_dirs d ps = Inr d"
  by (induction ps) (simp_all add: is_dir_def)

lemma ready_not_redirected: "\<forall>q \<in> set (steps p). is_dir d q \<Longrightarrow> \<not> redirected d p"
  by (auto simp: redirected_def is_path_redirect_def is_dir_def)

lemma recover_nothing:
  assumes "no_pending d sd" and "confined_path r d (Rel sd) False False = Inr sd"
  shows "recover_pending_transactions r now sd name rm d = (d, Inr [])"
proof -
  have "candidates d sd x rm (names d sd) = Inr []" for x using assms(1) by (intro candidates_none) (simp add: no_pending_def)
  then show ?thesis using assms(2)
    by (simp add: recover_pending_transactions_def recover_candidates_def plan_candidates_def preflight_recovery_batch_def)
qed

lemma begin_commit_ready:
  assumes "tx_ready t d"
  shows "begin_commit t d = (d, preflight t d)"
proof -
  have sd: "\<forall>q \<in> set (steps (tx_state_dir t)). is_dir d q" "no_pending d (tx_state_dir t)" using assms by (auto simp: tx_ready_def)
  have "confined_path (tx_root t) d (Rel (tx_state_dir t)) False False = Inr (tx_state_dir t)"
    using assms ready_not_redirected [OF sd(1)] by (simp add: confined_path_def tx_ready_def tx_wf_def plain_def)
  then show ?thesis using make_dirs_id [OF sd(1)] recover_nothing [OF sd(2)] by (simp add: begin_commit_def mkdir_parents_def)
qed

lemma commit_done:
  assumes "tx_ready t d" and "preflight t d = Inr j"
  shows "\<exists>d' j'. commit t False d = (d', Inr j') \<and> read d' = tx_final t d \<and> settled t d d'"
proof -
  have wf: "tx_wf t" using assms(1) by (simp add: tx_ready_def)
  have len: "steps_left t False (ru_pc (start_run t d j)) \<le> tx_length t" by (simp add: steps_left_def start_run_def tx_length_def)
  obtain s where s: "tx_steps (tx_length t) t False (start_run t d j) = (s, None)" "good_run t d False s" "ru_pc s = Done"
    using tx_steps_good [OF wf start_good [OF assms], of "tx_length t"] len by blast
  have "read (ru_disk s) = tx_final t d" "settled t d (ru_disk s)"
    using s(2,3) reads_ends [OF assms(1)] by (auto simp: good_run_def fun_eq_iff Let_def)
  moreover have "is_dir d (tx_state_dir t)" using assms(1) steps_self by (auto simp: tx_ready_def tx_wf_def)
  then have "mkdir_new (tx_dir t) d = (put d (tx_dir t) Directory, Inr ())"
    using assms(1) by (simp add: mkdir_new_def tx_ready_def tx_dir_def)
  ultimately show ?thesis using begin_commit_ready [OF assms(1)] assms(2) s(1) by (simp add: commit_def start_run_def)
qed


section \<open>A transaction whose expectations hold\<close>

text \<open>Every destination exists and has the digest the mutation expects.\<close>

definition as_expected :: "disk \<Rightarrow> mutation \<Rightarrow> bool" where
  "as_expected d m \<longleftrightarrow> (mu_expected_exists m = None \<or> mu_expected_exists m = Some (read d (mu_path m) \<noteq> None))
     \<and> (mu_expected_sha256 m = None \<or> mu_expected_sha256 m = map_option sha256 (read d (mu_path m)))"

lemma preflight_record_ok:
  assumes "writable d (mu_path m)" and "plain r" and "as_expected d m" and "posix (mu_path m) \<notin> set seen"
  shows "\<exists>x. preflight_record r d k m seen = Inr x"
proof -
  let ?p = "mu_path m"
  have "assert_mutation_allowed r d (Rel ?p) = Inr ()"
    using writable_confined [OF assms(1,2)] by (auto simp: assert_confined_def split: if_splits sum.splits exn.splits)
  moreover have "sha_opt (read d ?p) = PyStr x" if "mu_expected_sha256 m = Some x" for x
    using that assms(3) by (cases "read d ?p") (auto simp: as_expected_def sha_opt_def)
  ultimately show ?thesis
    using assms(3,4) confined_writable [OF assms(1)] read_bytes_writable [OF assms(1)]
    by (auto simp: preflight_record_def governed_error_def as_expected_def Let_def split: option.splits)
qed

lemma preflight_records_ok:
  assumes "plain r" and "\<forall>m \<in> set ms. writable d (mu_path m) \<and> as_expected d m" and "distinct (map posix ps @ map (\<lambda>m. posix (mu_path m)) ms)"
  shows "\<exists>rs. preflight_records r d k (map posix ps) ms = Inr rs"
  using assms(2,3)
proof (induction ms arbitrary: k ps)
  case (Cons m ms)
  obtain x where x: "preflight_record r d k m (map posix ps) = Inr x"
    using preflight_record_ok [OF _ assms(1), of d m "map posix ps" k] Cons.prems by auto
  have "\<exists>rs. preflight_records r d (Suc k) (map posix (mu_path m # ps)) ms = Inr rs" using Cons.prems by (intro Cons.IH) auto
  then show ?case using x by auto
qed simp

lemma preflight_ok:
  assumes "tx_ready t d" and "\<forall>m \<in> set (tx_mutations t). as_expected d m"
  shows "\<exists>j. preflight t d = Inr j"
proof -
  have wf: "tx_wf t" and w: "\<forall>m \<in> set (tx_mutations t). writable d (mu_path m)" using assms(1) by (auto simp: tx_ready_def)
  have "inj_on posix (set (tx_paths t))" using wf posix_inj unfolding tx_wf_def inj_on_def by blast
  moreover have "distinct (tx_paths t)" using wf by (simp add: tx_wf_def)
  ultimately have "distinct (map posix (tx_paths t))" by (simp only: distinct_map)
  then have "\<exists>rs. preflight_records (tx_root t) d 0 (map posix []) (tx_mutations t) = Inr rs"
    using wf w assms(2) by (intro preflight_records_ok) (auto simp: tx_wf_def comp_def)
  then show ?thesis by (auto simp: preflight_def)
qed

lemma run_transaction_ok:
  assumes r: "tx_ready t d" and "\<forall>m \<in> set (tx_mutations t). as_expected d m" and "tx_mutations t \<noteq> []" and "last (tx_state_dir t) \<noteq> ''AGENTS.md''"
  shows "\<exists>d' j'. run_transaction t False d = (d', Inr j') \<and> read d' = tx_final t d \<and> settled t d d'"
proof -
  let ?s = "tx_state_dir t"
  have wf: "tx_wf t" and dirs: "\<forall>q \<in> set (steps ?s). is_dir d q" using r by (simp_all add: tx_ready_def)
  have nr: "\<not> redirected d ?s" by (rule ready_not_redirected [OF dirs])
  have "is_dir d ?s" using dirs wf steps_self by (auto simp: tx_wf_def)
  then have "identity d ?s = None" by (simp add: identity_def is_dir_def)
  then have "assert_mutation_allowed (tx_root t) d (Rel ?s) = Inr ()"
    using mutation_allowed_rel [of "tx_root t" ?s d] wf nr assms(4) by (simp add: tx_wf_def)
  moreover have "confined_path (tx_root t) d (Rel ?s) False False = Inr ?s" using nr wf by (simp add: confined_path_def tx_wf_def plain_def)
  ultimately have "file_transaction t d = Inr ()" using assms(3) by (simp add: file_transaction_def governed_error_def)
  moreover obtain j where "preflight t d = Inr j" using preflight_ok [OF r assms(2)] by blast
  ultimately show ?thesis using commit_done [OF r] by (auto simp: run_transaction_def)
qed

section \<open>Where recovery refuses\<close>

lemma candidates_files:
  "candidates d sd sel rm ns = Inr cs \<Longrightarrow> n \<in> set ns \<Longrightarrow> is_dir d (sd @ [n]) \<Longrightarrow> is_file d (sd @ [n, ''journal.json''])"
  by (induction ns arbitrary: cs) (auto simp: Let_def res_bind_Inr split: if_splits)

lemma candidates_blocked:
  assumes "n \<in> set ns" and "is_dir d (sd @ [n])" and "\<not> is_file d (sd @ [n, ''journal.json''])"
  shows "\<exists>e. candidates d sd sel rm ns = Inl e"
  using candidates_files [of d sd sel rm ns _ n] assms by (cases "candidates d sd sel rm ns") auto

text \<open>
  C30: an empty journal directory blocks every transaction. A crash after the directory is made and
  before the journal is in it (or after the journal is removed and before the directory is) leaves
  a state in which recovery raises for every transaction name, so that every later \<open>commit\<close> under
  that directory raises before it writes anything: nothing in the program removes the directory.
\<close>

theorem empty_journal_directory_blocks:
  assumes "is_dir d (tx_state_dir t @ [n])" and "\<not> exists d (tx_state_dir t @ [n, ''journal.json''])"
    and "\<forall>q \<in> set (steps (tx_state_dir t)). is_dir d q"
  shows "\<exists>e. commit t retain d = (d, Inl e)"
proof -
  have "n \<in> set (names d (tx_state_dir t))" using assms(1) by (simp add: set_names exists_def is_dir_def)
  moreover have "\<not> is_file d (tx_state_dir t @ [n, ''journal.json''])" using assms(2) by (auto simp: is_file_def exists_def)
  ultimately obtain e where e: "candidates d (tx_state_dir t) (Some [tx_name t]) True (names d (tx_state_dir t)) = Inl e"
    using candidates_blocked assms(1) by blast
  have "\<exists>e. recover_pending_transactions (tx_root t) (tx_now t) (tx_state_dir t) (Some (tx_name t)) True d = (d, Inl e)"
  proof (cases "confined_path (tx_root t) d (Rel (tx_state_dir t)) False False")
    case (Inr p)
    then have "p = tx_state_dir t" by (simp add: confined_path_def split: if_splits)
    moreover have "exists d (tx_state_dir t)" if "tx_state_dir t \<noteq> []" using assms(3) steps_self [OF that] by (auto simp: exists_def is_dir_def)
    then have "exists d (tx_state_dir t)" by (cases "tx_state_dir t = []") (auto simp: exists_def)
    ultimately show ?thesis using Inr e by (simp add: recover_pending_transactions_def recover_candidates_def)
  qed (simp add: recover_pending_transactions_def)
  then show ?thesis using make_dirs_id [OF assms(3)] by (auto simp: commit_def begin_commit_def mkdir_parents_def)
qed

section \<open>A concrete transaction\<close>

definition sample_disk :: disk where
  "sample_disk = [([''.agents''], Directory), ([''.agents'', ''VERSION''], File 1 420 ''2''), ([''AGENTS.md''], File 2 420 ''rules''),
     ([''.aegis''], Directory), ([''.aegis'', ''state''], Directory), ([''.aegis'', ''state'', ''transactions''], Directory),
     ([''.aegis'', ''old''], File 3 384 ''before'')]"

definition sample_tx :: tx where
  "sample_tx = \<lparr>tx_root = [''srv''], tx_state_dir = [''.aegis'', ''state'', ''transactions''], tx_name = ''demo'', tx_uuid = ''0'', tx_now = ''now'',
     tx_mutations = [\<lparr>mu_path = [''.aegis'', ''old''], mu_data = Some ''after'', mu_expected_sha256 = None, mu_expected_exists = Some True, mu_mode = None\<rparr>,
       \<lparr>mu_path = [''.aegis'', ''new'', ''file''], mu_data = Some ''fresh'', mu_expected_sha256 = None, mu_expected_exists = Some False, mu_mode = None\<rparr>]\<rparr>"

lemma sample_nodes:
  "node_at sample_disk p = (if p = [] \<or> p \<in> {[''.agents''], [''.aegis''], [''.aegis'', ''state''], [''.aegis'', ''state'', ''transactions'']} then Some Directory
     else if p = [''.agents'', ''VERSION''] then Some (File 1 420 ''2'') else if p = [''AGENTS.md''] then Some (File 2 420 ''rules'')
     else if p = [''.aegis'', ''old''] then Some (File 3 384 ''before'') else None)"
  by (simp add: node_at_def sample_disk_def)

lemma sample_governing: "set (governing_file_identities sample_disk) = {1, 2}"
  by code_simp

lemma sample_wf: "tx_wf sample_tx"
  by code_simp

lemma sample_writable: "writable sample_disk [''.aegis'', ''old'']" "writable sample_disk [''.aegis'', ''new'', ''file'']"
  by (simp_all add: writable_def sample_nodes sample_governing plain_def under_agents_def steps_def)

lemma sample_ready: "tx_ready sample_tx sample_disk"
proof -
  have sd: "tx_state_dir sample_tx = [''.aegis'', ''state'', ''transactions'']" "tx_dir sample_tx = [''.aegis'', ''state'', ''transactions'', ''demo-0'']"
    "tx_paths sample_tx = [[''.aegis'', ''old''], [''.aegis'', ''new'', ''file'']]"
    by (simp_all add: sample_tx_def tx_dir_def tx_id_def)
  show ?thesis unfolding tx_ready_def sd no_pending_def using sample_wf sample_writable
    by (simp add: is_dir_def exists_def sample_nodes steps_def)
qed

lemma sample_preflight: "\<exists>j. preflight sample_tx sample_disk = Inr j"
proof -
  have "assert_mutation_allowed (tx_root sample_tx) sample_disk (Rel p) = Inr ()" "confined_path (tx_root sample_tx) sample_disk (Rel p) False False = Inr p"
    "read_bytes sample_disk p = Inr (read sample_disk p)" if "writable sample_disk p" for p
  proof -
    have "plain (tx_root sample_tx)" using sample_wf by (simp add: tx_wf_def)
    from writable_confined [OF that this] show "assert_mutation_allowed (tx_root sample_tx) sample_disk (Rel p) = Inr ()"
      by (auto simp: assert_confined_def split: if_splits sum.splits exn.splits)
  qed (use that in \<open>simp_all add: confined_writable read_bytes_writable\<close>)
  note p = this [OF sample_writable(1)] this [OF sample_writable(2)]
  have r: "read sample_disk [''.aegis'', ''old''] = Some ''before''" "read sample_disk [''.aegis'', ''new'', ''file''] = None"
    by (simp_all add: read_def sample_nodes)
  have po: "posix [''.aegis'', ''old''] \<noteq> posix [''.aegis'', ''new'', ''file'']" by code_simp
  show ?thesis unfolding preflight_def using p r po
    by (simp add: sample_tx_def preflight_record_def governed_error_def Let_def)
qed



theorem empty_journal_directory_blocks_witness:
  "\<exists>e. commit sample_tx False (put sample_disk [''.aegis'', ''state'', ''transactions'', ''demo-9''] Directory)
     = (put sample_disk [''.aegis'', ''state'', ''transactions'', ''demo-9''] Directory, Inl e)"
  by (rule empty_journal_directory_blocks [of _ _ "''demo-9''"]) (simp_all add: sample_tx_def is_dir_def exists_def sample_nodes steps_def)

end
