(* ===== verification/Task_Rules.thy ===== *)
theory Task_Rules
  imports Task_Schema Evidence
begin

text \<open>
  The rules of \<open>StateStore\<close> in \<open>agentinfra/state_store.py\<close> that look at task values alone: migration, what
  a save may change, when a stored receipt is still bound to the candidate, which evidence counts
  as proof, and the bodies the public operations run on a task (\<open>apply\<close> in the source).
\<close>

section \<open>Digests over the ledger\<close>

definition EMPTY_EVIDENCE_SET_DIGEST :: string where
  "EMPTY_EVIDENCE_SET_DIGEST = sha256 []"

definition evidence_set_digest :: "pyval list \<Rightarrow> string" where
  "evidence_set_digest records = sha256 (concat (map (\<lambda>r. py_str (dget r ''record_sha256'')) records))"

definition ledger_head :: "pyval list \<Rightarrow> pyval" where
  "ledger_head records = (if records = [] then PyNone else dget (last records) ''record_sha256'')"

definition records_by_id :: "pyval list \<Rightarrow> pyval" where
  "records_by_id records = dict_of (map (\<lambda>r. (py_str (dget r ''id''), r)) records)"

section \<open>Migration\<close>

definition set_defaults :: "pyval \<Rightarrow> dict \<Rightarrow> pyval" where
  "set_defaults v kvs = foldl (\<lambda>d (k, x). dsetdefault d k x) v kvs"

fun migrate_transitions :: "int \<Rightarrow> int \<Rightarrow> pyval list \<Rightarrow> pyval list res" where
  "migrate_transitions index epoch [] = Inr []"
| "migrate_transitions index epoch (t # ts) =
    (if \<not> is_dict t then Inl AttributeErr
     else res_bind (in_set (dget t ''to'') [''IMPLEMENT'', ''REMEDIATE'']) (\<lambda>b.
       let epoch' = (if b then epoch + 1 else epoch);
           t' = dsetdefault (dsetdefault t ''revision'' (PyInt index)) ''epoch'' (PyInt epoch') in
       res_bind (migrate_transitions (index + 1) epoch' ts) (\<lambda>ts'. Inr (t' # ts'))))"

definition schema4_defaults :: dict where
  "schema4_defaults = [(''material_claim'', PyBool True), (''evidence_head'', PyNone), (''evidence_set_digest'', PyStr EMPTY_EVIDENCE_SET_DIGEST),
     (''implementation_digest'', PyNone), (''diff_digest'', PyNone), (''falsification'', PyNone), (''review_receipt'', PyNone), (''tdd'', empty_tdd)]"

definition seal_task :: "pyval \<Rightarrow> pyval" where
  "seal_task task = dset task ''integrity_sha256'' (PyStr (state_digest task))"

definition migrate :: "pyval \<Rightarrow> pyval res" where
  "migrate task =
    (if \<not> is_dict task then Inl AttributeErr else
     let m1 = (if py_eq (dget task ''schema'') (PyInt 4) then task else dset task ''schema'' (PyInt 4));
         m2 = set_defaults m1 schema4_defaults;
         tdd = dget m2 ''tdd'' in
     if \<not> is_dict tdd then Inl AttributeErr else
     let m3 = dset m2 ''tdd'' (set_defaults tdd (entries empty_tdd)) in
     case dget_or m3 ''transitions'' (PyList []) of
       PyList ts \<Rightarrow> res_bind (migrate_transitions 1 0 ts) (\<lambda>ts'.
         Inr (seal_task (if has_key m3 ''transitions'' then dset m3 ''transitions'' (PyList ts') else m3)))
     | v \<Rightarrow> res_bind (iter v) (\<lambda>xs. if xs = [] then Inr (seal_task m3) else Inl AttributeErr))"

section \<open>What a save may change\<close>

definition check_same :: "pyval \<Rightarrow> pyval \<Rightarrow> string \<Rightarrow> unit res" where
  "check_same current updated field = guard (py_eq (dget updated field) (dget current field)) (RuntimeErr ''immutable task field changed'')"

text \<open>\<open>after[: len(before)] != before\<close>.\<close>

definition check_prefix :: "pyval \<Rightarrow> pyval \<Rightarrow> exn \<Rightarrow> unit res" where
  "check_prefix before_v after_v e = (case after_v of
      PyList ys \<Rightarrow> guard (list_all2 py_eq (take (length (items before_v)) ys) (items before_v)) e
    | PyStr s \<Rightarrow> Inl e
    | _ \<Rightarrow> Inl TypeErr)"

definition immutable_cycle_fields :: "string list" where
  "immutable_cycle_fields = [''schema'', ''task_id'', ''cycle_id'', ''mode'', ''remediation'', ''discovered_epoch'', ''designed_at_revision'',
     ''test_contract_digest'', ''oracle_digest'', ''baseline_epoch'']"

definition check_cycle_pair :: "pyval \<times> pyval \<Rightarrow> unit res" where
  "check_cycle_pair p = (case p of (old, new) \<Rightarrow> if \<not> is_dict new then Inl AttributeErr else check_all
     [guard (\<forall>f \<in> set immutable_cycle_fields. py_eq (dget new f) (dget old f)) (RuntimeErr ''TDD cycle identity or frozen contract was rewritten''),
      check_prefix (dget_or old ''events'' (PyList [])) (dget_or new ''events'' (PyList [])) (RuntimeErr ''append-only TDD cycle evidence was rewritten''),
      guard (\<not> (str_in (dget old ''status'') [''TDD_CYCLE_ABORTED'', ''TDD_CYCLE_COMPLETE''] \<and> \<not> py_eq new old)) (RuntimeErr ''terminal TDD cycle is immutable'')])"

definition check_cycles :: "pyval \<Rightarrow> pyval \<Rightarrow> unit res" where
  "check_cycles current updated =
    (let before_cycles = items (dget (dget current ''tdd'') ''cycles'') in
     res_bind (iter (dget_or (dget_or updated ''tdd'' (PyDict [])) ''cycles'' (PyList []))) (\<lambda>after_cycles. check_all
       [guard (length before_cycles \<le> length after_cycles) (RuntimeErr ''TDD cycle history cannot be deleted''),
        for_each check_cycle_pair (zip before_cycles after_cycles)]))"

definition number :: "pyval \<Rightarrow> int res" where
  "number v = (case v of PyInt n \<Rightarrow> Inr n | PyBool b \<Rightarrow> Inr (if b then 1 else 0) | _ \<Rightarrow> Inl TypeErr)"

definition check_epoch :: "pyval \<Rightarrow> pyval \<Rightarrow> unit res" where
  "check_epoch current updated =
     res_bind (number (dget_or updated ''change_epoch'' (PyInt 0))) (\<lambda>new.
     res_bind (number (dget_or current ''change_epoch'' (PyInt 0))) (\<lambda>old.
     guard (old \<le> new \<and> new \<le> old + 1) (RuntimeErr ''implementation epoch changed non-monotonically'')))"

text \<open>\<open>item["id"]\<close> as a dictionary key.\<close>

definition item_id :: "pyval \<Rightarrow> pyval res" where
  "item_id x = (if \<not> is_dict x then Inl TypeErr else if \<not> has_key x ''id'' then Inl (KeyErr ''id'')
     else if unhashable (dget x ''id'') then Inl TypeErr else Inr (dget x ''id''))"

definition lookup_id :: "pyval list \<Rightarrow> pyval \<Rightarrow> pyval option" where
  "lookup_id xs i = List.find (\<lambda>x. py_eq (dget x ''id'') i) xs"

definition check_items :: "pyval list \<Rightarrow> pyval \<Rightarrow> (pyval \<Rightarrow> pyval \<Rightarrow> bool) \<Rightarrow> exn \<Rightarrow> exn \<Rightarrow> unit res" where
  "check_items befores after_v same deleted rewritten =
     res_bind (iter after_v) (\<lambda>afters.
     res_bind (map_res item_id afters) (\<lambda>ids. check_all
       [guard (\<forall>b \<in> set befores. \<exists>i \<in> set ids. py_eq (dget b ''id'') i) deleted,
        for_each (\<lambda>x. guard (case lookup_id befores (dget x ''id'') of None \<Rightarrow> True | Some old \<Rightarrow> same old x) rewritten) afters]))"

definition same_gate :: "pyval \<Rightarrow> pyval \<Rightarrow> bool" where
  "same_gate old gate \<longleftrightarrow> py_eq (dget gate ''description'') (dget old ''description'')
     \<and> py_eq (dget_or gate ''severity'' (PyStr ''high'')) (dget_or old ''severity'' (PyStr ''high''))
     \<and> py_eq (dget gate ''gate_severity'') (dget old ''gate_severity'') \<and> py_eq (dget gate ''created_revision'') (dget old ''created_revision'')"

definition same_risk :: "pyval \<Rightarrow> pyval \<Rightarrow> bool" where
  "same_risk old risk \<longleftrightarrow> py_eq (dget risk ''description'') (dget old ''description'') \<and> py_eq (dget risk ''severity'') (dget old ''severity'')"

definition validate_append_only :: "pyval \<Rightarrow> pyval \<Rightarrow> unit res" where
  "validate_append_only current updated = check_all
    [for_each (check_same current updated) [''id'', ''title'', ''mode'', ''complexity'', ''risk'', ''created''],
     for_each (\<lambda>f. check_prefix (dget_or current f (PyList [])) (dget_or updated f (PyList [])) (RuntimeErr ''append-only task history was rewritten''))
       [''decisions'', ''child_history'', ''transitions''],
     check_cycles current updated,
     check_epoch current updated,
     check_items (items (dget current ''gates'')) (dget_or updated ''gates'' (PyList [])) same_gate
       (RuntimeErr ''acceptance gate history cannot be deleted'') (RuntimeErr ''acceptance gate identity/history was rewritten''),
     check_items (items (dget current ''risks'')) (dget_or updated ''risks'' (PyList [])) same_risk
       (RuntimeErr ''risk history cannot be deleted'') (RuntimeErr ''risk history was rewritten'')]"

section \<open>Receipts bound to the candidate\<close>

definition cycle_sha :: "pyval \<Rightarrow> pyval" where
  "cycle_sha task = (case current_tdd_cycle task of None \<Rightarrow> PyNone | Some c \<Rightarrow> dget c ''cycle_sha256'')"

definition falsification_bindings :: "pyval \<Rightarrow> pyval list" where
  "falsification_bindings task = [dget task ''id'', cycle_sha task, dget task ''change_epoch'', dget task ''implementation_digest'', dget task ''diff_digest'']"

definition review_bindings :: "pyval \<Rightarrow> pyval list res" where
  "review_bindings task = (if \<not> is_dict (dget_or task ''precheck'' (PyDict [])) then Inl AttributeErr
     else let precheck = dget_or task ''precheck'' (PyDict []) in Inr
       [dget task ''id'', cycle_sha task, dget task ''change_epoch'', dget task ''implementation_digest'', dget task ''diff_digest'',
        artifact_digest (dget precheck ''compiled_policy''), dget task ''evidence_set_digest'', artifact_digest (dget precheck ''test_law_baseline'')])"

definition validate_bound_falsification :: "pyval \<Rightarrow> bool \<Rightarrow> unit res" where
  "validate_bound_falsification task require_clean =
    (let receipt = dget task ''falsification''; e = RuntimeErr ''falsification receipt is missing, stale, contains a counterexample, or is invalid'' in
     case current_tdd_cycle task of
       None \<Rightarrow> Inl e
     | Some cycle \<Rightarrow> if receipt = PyNone then Inl e
         else res_bind (validate_falsification_receipt receipt (dget task ''id'') (dget cycle ''cycle_sha256'') (dget task ''change_epoch'')
           (dget task ''diff_digest'') require_clean) (\<lambda>ok. guard ok e))"

definition reviewer_marked :: "pyval \<Rightarrow> bool" where
  "reviewer_marked receipt = (let role = casefold (py_str (dget_or receipt ''reviewer_role'' (PyStr ''''))) in
     contains role ''adversarial'' \<or> contains role ''security'')"

definition validate_bound_review :: "pyval \<Rightarrow> unit res" where
  "validate_bound_review task =
    (let receipt = dget task ''review_receipt''; missing = RuntimeErr ''independent review receipt is missing or belongs to another task'' in
     case current_tdd_cycle task of
       None \<Rightarrow> Inl missing
     | Some cycle \<Rightarrow> if receipt = PyNone then Inl missing
         else if \<not> is_dict receipt then Inl AttributeErr
         else if \<not> py_eq (dget receipt ''task_id'') (dget task ''id'') then Inl missing
         else if \<not> reviewer_marked receipt then Inl (RuntimeErr ''independent review receipt lacks an adversarial/security role'')
         else res_bind (iter (dget_or task ''child_history'' (PyList []))) (\<lambda>history.
           res_bind (any_res (handoff_matches receipt) history) (\<lambda>matching.
           if \<not> matching then Inl (RuntimeErr ''review receipt is not bound to a closed accepted child lease'')
           else res_bind (review_is_current task cycle receipt) (\<lambda>ok.
             guard ok (RuntimeErr ''independent review receipt is stale, rejected, or invalid'')))))"

section \<open>Preparing a save\<close>

text \<open>Lines 832--837: the revision, the migration of both sides and the identity.\<close>

definition save_begin :: "pyval \<Rightarrow> pyval \<Rightarrow> pyval \<Rightarrow> (pyval \<times> pyval) res" where
  "save_begin current updated expected_revision =
     res_bind (guard (py_eq (dget current ''revision'') expected_revision) (RuntimeErr ''stale task revision'')) (\<lambda>_.
     res_bind (migrate current) (\<lambda>migrated_current.
     res_bind (migrate updated) (\<lambda>updated.
     res_bind (guard (py_eq (dget updated ''id'') (dget current ''id'')) (RuntimeErr ''task id mutation cannot redirect state storage'')) (\<lambda>_.
     Inr (migrated_current, updated)))))"

definition check_waiver :: "pyval \<Rightarrow> pyval \<Rightarrow> pyval \<Rightarrow> pyval \<Rightarrow> unit res" where
  "check_waiver by_id current updated gate =
    (if \<not> is_dict gate then Inl AttributeErr
     else if dget gate ''status'' = PyStr ''WAIVED'' \<and> dget gate ''gate_severity'' \<noteq> PyNone
     then res_bind (py_int (dget_or updated ''change_epoch'' (PyInt 0))) (\<lambda>epoch.
       res_bind (validate_gate_waiver gate by_id (dget current ''id'') (PyInt epoch)) (\<lambda>ok.
       guard ok (RuntimeErr ''REQUIRED gate waiver lacks current external trusted waiver evidence'')))
     else Inr ())"

definition check_evidence_head :: "pyval list \<Rightarrow> pyval \<Rightarrow> pyval \<Rightarrow> unit res" where
  "check_evidence_head records current updated = (let old = dget current ''evidence_head''; new = dget updated ''evidence_head'' in check_all
     [guard (py_eq (ledger_head records) new) (RuntimeErr ''task evidence head is not the verified ledger head''),
      whenever (\<not> py_eq new old) (check_all
        [guard (\<not> (old \<noteq> PyNone \<and> new = PyNone)) (RuntimeErr ''task evidence head cannot move backwards to null''),
         guard (old = PyNone \<or> (\<exists>r \<in> set (butlast records). py_eq (dget r ''record_sha256'') old))
           (RuntimeErr ''evidence ledger rewrite does not extend the prior task-bound head'')])])"

text \<open>Lines 859--870: a receipt that was not replaced is dropped when what it is bound to has changed.\<close>

definition drop_stale_falsification :: "pyval \<Rightarrow> pyval \<Rightarrow> pyval \<Rightarrow> pyval" where
  "drop_stale_falsification current migrated updated =
    (if dget current ''falsification'' \<noteq> PyNone \<and> py_eq (dget updated ''falsification'') (dget current ''falsification'')
        \<and> \<not> list_all2 py_eq (falsification_bindings migrated) (falsification_bindings updated)
     then dset updated ''falsification'' PyNone else updated)"

definition drop_stale_review :: "pyval \<Rightarrow> pyval \<Rightarrow> pyval \<Rightarrow> pyval res" where
  "drop_stale_review current migrated updated =
    (if dget current ''review_receipt'' \<noteq> PyNone \<and> py_eq (dget updated ''review_receipt'') (dget current ''review_receipt'')
     then res_bind (review_bindings migrated) (\<lambda>a. res_bind (review_bindings updated) (\<lambda>b.
       Inr (if list_all2 py_eq a b then updated else dset updated ''review_receipt'' PyNone)))
     else Inr updated)"

definition claim_fields :: "string list" where
  "claim_fields = [''gates'', ''risks'', ''verification_evidence'', ''verification_epoch'', ''evidence_head'', ''decisions'']"

definition reopen_audit :: "pyval \<Rightarrow> pyval \<Rightarrow> pyval" where
  "reopen_audit current updated =
    (if truthy (dget current ''final_audit_complete'') \<and> (\<exists>f \<in> set claim_fields. \<not> py_eq (dget updated f) (dget current f))
     then dpop (dset updated ''final_audit_complete'' (PyBool False)) ''final_audit_workspace'' else updated)"

definition stamp :: "string \<Rightarrow> pyval \<Rightarrow> pyval \<Rightarrow> pyval res" where
  "stamp now updated expected_revision = res_bind (number expected_revision) (\<lambda>n.
     Inr (seal_task (dset (dset updated ''revision'' (PyInt (n + 1))) ''updated'' (PyStr now))))"

definition prepare_save :: "string \<Rightarrow> pyval list \<Rightarrow> pyval \<Rightarrow> pyval \<Rightarrow> pyval \<Rightarrow> pyval \<Rightarrow> pyval res" where
  "prepare_save now records current migrated updated expected_revision =
     res_bind (iter (dget_or updated ''gates'' (PyList []))) (\<lambda>gates.
     res_bind (for_each (check_waiver (records_by_id records) current updated) gates) (\<lambda>_.
     res_bind (check_evidence_head records current updated) (\<lambda>_.
     let u1 = dset updated ''evidence_set_digest'' (PyStr (evidence_set_digest records));
         u2 = drop_stale_falsification current migrated u1 in
     res_bind (drop_stale_review current migrated u2) (\<lambda>u3.
     res_bind (check_all
       [validate_append_only migrated u3,
        whenever (dget u3 ''falsification'' \<noteq> PyNone) (validate_bound_falsification u3 False),
        whenever (dget u3 ''review_receipt'' \<noteq> PyNone) (validate_bound_review u3)]) (\<lambda>_.
     res_bind (stamp now (reopen_audit current u3) expected_revision) (\<lambda>u4.
     res_bind (validate_task u4 (Some (py_str (dget current ''id'')))) (\<lambda>_. Inr u4)))))))"

section \<open>Evidence that counts as proof\<close>

definition details :: "pyval \<Rightarrow> pyval" where
  "details record = dget_or record ''details'' (PyDict [])"

text \<open>
  A proof from an external source. The reading \<open>age\<close> of the clock gives for a timestamp the
  microseconds since then, and \<open>None\<close> for a text that is no timestamp with a time zone.
\<close>

definition check_external :: "(string \<Rightarrow> int option) \<Rightarrow> pyval \<Rightarrow> unit res" where
  "check_external age record =
    (let observed_at = dget (details record) ''observed_at''; ttl = dget (details record) ''ttl_seconds'' in
     if \<not> (is_text (dget (details record) ''source_identity'') \<and> is_text (dget (details record) ''source_fingerprint'')
         \<and> is_str observed_at \<and> is_pos_int ttl)
     then Inl (RuntimeErr ''external-source proof lacks bound source identity/fingerprint/freshness'')
     else case age (py_str observed_at) of
         None \<Rightarrow> Inl (RuntimeErr ''external-source proof has invalid observation timestamp'')
       | Some a \<Rightarrow> guard (- 300000000 \<le> a \<and> a \<le> 1000000 * int_of_val ttl) (RuntimeErr ''external-source proof is stale or future-dated''))"

text \<open>Lines 1081--1120: one proof.\<close>

definition check_proof :: "(string \<Rightarrow> int option) \<Rightarrow> pyval \<Rightarrow> int \<Rightarrow> bool \<Rightarrow> pyval \<Rightarrow> unit res" where
  "check_proof age task epoch finalizing record =
    (let provenance = dget record ''provenance''; command = dget (details record) ''command'';
         audited = dget task ''final_audit_workspace''; observed = dget (details record) ''workspace'' in check_all
    [guard (py_eq (dget_or record ''schema'' (PyInt 1)) (PyInt 2) \<and> py_eq (dget record ''task_id'') (dget task ''id''))
       (RuntimeErr ''proof is not task-bound framework evidence''),
     guard (py_eq (dget record ''change_epoch'') (PyInt epoch)) (RuntimeErr ''proof is stale for current implementation epoch''),
     memb provenance [''framework-command'', ''verified-observation'', ''external-source''] (RuntimeErr ''manual/fabricated evidence cannot satisfy verification''),
     guard (is_dict (details record)) AttributeErr,
     guard (\<not> (provenance = PyStr ''framework-command'' \<and> \<not> (is_dict command \<and> dget command ''success'' = PyBool True)))
       (RuntimeErr ''failed/unexecuted command cannot satisfy verification''),
     whenever (provenance = PyStr ''external-source'') (check_external age record),
     whenever finalizing (check_all
       [guard (is_dict audited \<and> truthy (dget audited ''available'')) (RuntimeErr ''final audit has no available workspace fingerprint''),
        guard (is_dict observed \<and> py_eq (dget observed ''sha256'') (dget audited ''sha256'')) (RuntimeErr ''proof workspace does not match final audit'')])])"

text \<open>Lines 1121--1130: a proof of a gate names the gate and is not older than it.\<close>

definition check_gate_proof :: "pyval \<Rightarrow> pyval \<Rightarrow> pyval \<Rightarrow> unit res" where
  "check_gate_proof by_id gate proof_id =
    (let record = dget by_id (py_str proof_id) in
     res_bind (py_in (dget gate ''id'') (dget_or (details record) ''gate_ids'' (PyList []))) (\<lambda>relevant.
     res_bind (guard relevant (RuntimeErr ''gate proof lacks explicit relevance binding'')) (\<lambda>_.
     res_bind (py_int (dget_or gate ''created_revision'' (PyInt 0))) (\<lambda>created_revision.
     res_bind (py_int (dget_or (details record) ''task_revision'' (PyInt (- 1)))) (\<lambda>task_revision.
     guard (created_revision \<le> task_revision) (RuntimeErr ''gate proof predates gate definition''))))))"

definition proven_gates :: "pyval \<Rightarrow> pyval list" where
  "proven_gates task = filter (\<lambda>g. dget g ''status'' = PyStr ''PROVEN'') (items (dget task ''gates''))"

definition proof_ids :: "pyval \<Rightarrow> pyval list" where
  "proof_ids task = items (dget task ''verification_evidence'') @ concat (map (\<lambda>g. items (dget g ''evidence'')) (proven_gates task))"

text \<open>
  \<open>_validate_proofs\<close> on the records of the verified ledger. The task has passed \<open>validate_task\<close>, so the
  arrays are arrays and the gates are objects.
\<close>

definition validate_proofs :: "(string \<Rightarrow> int option) \<Rightarrow> pyval list \<Rightarrow> pyval \<Rightarrow> bool \<Rightarrow> unit res" where
  "validate_proofs age records task finalizing =
    (let by_id = records_by_id records in check_all
    [guard (py_eq (ledger_head records) (dget task ''evidence_head'')) (RuntimeErr ''task evidence anchor does not match evidence ledger''),
     guard (\<forall>p \<in> set (proof_ids task). is_str p) TypeErr,
     guard (\<forall>p \<in> set (proof_ids task). has_key by_id (py_str p)) (RuntimeErr ''task references missing evidence''),
     res_bind (py_int (dget_or task ''change_epoch'' (PyInt 0))) (\<lambda>epoch.
       for_each (\<lambda>p. check_proof age task epoch finalizing (dget by_id (py_str p))) (proof_ids task)),
     for_each (\<lambda>gate. for_each (check_gate_proof by_id gate) (items (dget gate ''evidence''))) (proven_gates task)])"

section \<open>The bodies of the public operations\<close>

text \<open>Lines 1149--1156: two readings of the workspace agree with each other and with the audited one.\<close>

definition check_workspace :: "pyval \<Rightarrow> pyval \<Rightarrow> pyval \<Rightarrow> unit res" where
  "check_workspace first second task = (let audited = dget task ''final_audit_workspace'' in check_all
    [guard (truthy (dget first ''available'') \<and> py_eq (dget first ''sha256'') (dget second ''sha256''))
       (RuntimeErr ''workspace fingerprint was unavailable or changed during finalization''),
     guard (is_dict audited \<and> py_eq (dget first ''sha256'') (dget audited ''sha256'')) (RuntimeErr ''workspace changed after final audit'')])"

definition map_items :: "(pyval \<Rightarrow> pyval) \<Rightarrow> pyval \<Rightarrow> string \<Rightarrow> pyval" where
  "map_items f task field = (if has_key task field then dset task field (PyList (map f (items (dget task field)))) else task)"

definition reset_gate :: "pyval \<Rightarrow> pyval" where
  "reset_gate gate = (if dget gate ''status'' = PyStr ''PROVEN''
     then dset (dset gate ''status'' (PyStr ''OPEN'')) ''evidence'' (PyList []) else gate)"

definition reopen_risk :: "pyval \<Rightarrow> pyval" where
  "reopen_risk risk = (if dget risk ''status'' = PyStr ''resolved'' \<and> truthy (dget_or risk ''reopen_on_change'' (PyBool True))
     then dpop (dset risk ''status'' (PyStr ''open'')) ''resolution'' else risk)"

definition block_fields :: "string \<Rightarrow> string \<Rightarrow> pyval \<Rightarrow> pyval" where
  "block_fields target reason task =
    (let old = dget task ''state'' in
     if target = ''BLOCKED'' then dset (dset task ''previous_state'' old) ''block_reason'' (PyStr (strip reason))
     else if old = PyStr ''BLOCKED'' then dpop (dset task ''previous_state'' PyNone) ''block_reason'' else task)"

definition drop_audit :: "pyval \<Rightarrow> pyval" where
  "drop_audit task = dpop (dset task ''final_audit_complete'' (PyBool False)) ''final_audit_workspace''"

definition drop_receipts :: "pyval \<Rightarrow> pyval" where
  "drop_receipts task = drop_audit (dset (dset task ''falsification'' PyNone) ''review_receipt'' PyNone)"

definition new_candidate :: "int \<Rightarrow> pyval \<Rightarrow> pyval" where
  "new_candidate epoch task =
     map_items reopen_risk (map_items reset_gate (drop_receipts
       (dset (dset (dset task ''change_epoch'' (PyInt (epoch + 1))) ''verification_evidence'' (PyList [])) ''verification_epoch'' PyNone)) ''gates'') ''risks''"

text \<open>Lines 1157--1195: the effect of an accepted transition.\<close>

definition enter_state :: "string \<Rightarrow> string \<Rightarrow> string \<Rightarrow> pyval \<Rightarrow> pyval res" where
  "enter_state now target reason task =
    (let t1 = dset (block_fields target reason task) ''state'' (PyStr target) in
     res_bind (if target \<in> set [''IMPLEMENT'', ''REMEDIATE'']
         then res_bind (py_int (dget_or t1 ''change_epoch'' (PyInt 0))) (\<lambda>epoch. Inr (new_candidate epoch t1))
         else Inr (if target = ''TEST_DESIGN'' then drop_receipts t1 else t1)) (\<lambda>t2.
     res_bind (py_int (dget_or t2 ''revision'' (PyInt 0))) (\<lambda>revision.
     res_bind (py_int (dget_or t2 ''change_epoch'' (PyInt 0))) (\<lambda>epoch.
     Inr (dset t2 ''transitions'' (PyList (items (dget t2 ''transitions'') @
       [PyDict [(''at'', PyStr now), (''from'', dget task ''state''), (''to'', PyStr target), (''reason'', PyStr (strip reason)),
          (''revision'', PyInt (revision + 1)), (''epoch'', PyInt epoch)]])))))))"

fun place_cycle :: "pyval \<Rightarrow> pyval list \<Rightarrow> pyval list" where
  "place_cycle c [] = [c]"
| "place_cycle c (x # xs) = (if py_eq (dget x ''cycle_id'') (dget c ''cycle_id'') then c # xs else x # place_cycle c xs)"

definition baseline_event :: "pyval \<Rightarrow> pyval option" where
  "baseline_event cycle = List.find (\<lambda>e. dget e ''status'' = PyStr ''BASELINE_EXECUTED'') (items (dget cycle ''events''))"

definition tdd_fields :: "string \<Rightarrow> pyval \<Rightarrow> dict" where
  "tdd_fields expected_outcome cycle = (let e = baseline_event cycle in
     [(''mode'', dget cycle ''mode''), (''test_design_complete'', PyBool True),
      (''baseline_executed'', PyBool (e \<noteq> None \<and> dget cycle ''status'' \<noteq> PyStr ''TDD_CYCLE_ABORTED'')),
      (''baseline_outcome'', (case e of None \<Rightarrow> PyNone | Some ev \<Rightarrow> dget ev ''outcome'')),
      (''required_baseline_outcome'', PyStr expected_outcome),
      (''test_contract_digest'', dget cycle ''test_contract_digest''), (''frozen_test_contract_digest'', dget cycle ''frozen_test_contract_digest''),
      (''oracle_digest'', dget cycle ''oracle_digest''), (''frozen_oracle_digest'', dget cycle ''frozen_oracle_digest''),
      (''baseline_implementation_digest'', dget cycle ''baseline_implementation_digest''),
      (''observed_implementation_digest'', dget cycle ''baseline_implementation_digest''),
      (''harness_valid'', PyBool (case e of None \<Rightarrow> False | Some ev \<Rightarrow> dget ev ''harness_valid'' = PyBool True)),
      (''baseline_intact'', PyBool (case e of None \<Rightarrow> False | Some ev \<Rightarrow> dget ev ''baseline_intact'' = PyBool True)),
      (''semantic_reason'', PyStr (case e of None \<Rightarrow> [] | Some ev \<Rightarrow> py_str (dget_or ev ''semantic_reason'' (PyStr '''')))),
      (''active_cycle_id'', dget cycle ''cycle_id''), (''green_epoch'', dget cycle ''green_epoch'')])"

definition apply_tdd_cycle :: "pyval \<Rightarrow> pyval \<Rightarrow> pyval res" where
  "apply_tdd_cycle cycle task =
    res_bind (mode_info (dget cycle ''mode'')) (\<lambda>(expected_outcome, observed_status).
    if \<not> has_key task ''tdd'' then Inl (KeyErr ''tdd'') else
    let tdd = dset (dget task ''tdd'') ''cycles'' (PyList (place_cycle cycle (items (dget (dget task ''tdd'') ''cycles''))));
        t1 = dset task ''tdd'' (dupdate tdd (tdd_fields expected_outcome cycle)) in
    if baseline_event cycle \<noteq> None \<and> \<not> str_in (dget cycle ''status'') [observed_status, ''GREEN_PROVEN'', ''TDD_CYCLE_COMPLETE'']
    then Inl (AssuranceError ''TDD cycle status contradicts its recorded baseline'')
    else Inr (if str_in (dget cycle ''status'') [''GREEN_PROVEN'', ''TDD_CYCLE_COMPLETE'']
      then dset (dset t1 ''implementation_digest'' (dget cycle ''green_implementation_digest'')) ''diff_digest'' (dget cycle ''green_diff_digest'')
      else t1))"

definition apply_falsification :: "pyval \<Rightarrow> string \<Rightarrow> pyval \<Rightarrow> pyval res" where
  "apply_falsification receipt task_id task =
    (let e = AssuranceError ''falsification receipt is invalid or stale'' in
     if dget task ''state'' \<noteq> PyStr ''FALSIFY'' then Inl (RuntimeErr ''falsification evidence may be recorded only in FALSIFY'')
     else case current_tdd_cycle task of
       None \<Rightarrow> Inl e
     | Some cycle \<Rightarrow> res_bind (validate_falsification_receipt receipt (PyStr task_id) (dget cycle ''cycle_sha256'') (dget task ''change_epoch'')
         (dget task ''diff_digest'') False) (\<lambda>ok. if ok then Inr (dset task ''falsification'' receipt) else Inl e))"

definition apply_review :: "pyval \<Rightarrow> pyval \<Rightarrow> pyval res" where
  "apply_review receipt task =
    (if dget task ''state'' \<noteq> PyStr ''ADVERSARIAL_REVIEW'' then Inl (RuntimeErr ''review evidence may be recorded only in ADVERSARIAL_REVIEW'')
     else let t1 = dset task ''review_receipt'' receipt in res_bind (validate_bound_review t1) (\<lambda>_. Inr t1))"

definition complete_audit :: "pyval \<Rightarrow> pyval \<Rightarrow> pyval res" where
  "complete_audit fingerprint task =
    (if \<not> truthy (dget fingerprint ''available'') then Inl (RuntimeErr ''cannot complete final audit without an available workspace fingerprint'')
     else Inr (dset (dset task ''final_audit_workspace'' fingerprint) ''final_audit_complete'' (PyBool True)))"

end
