(* ===== verification/Locks.thy ===== *)
theory Locks
  imports Atomic Sealing
begin

text \<open>
  \<open>agentinfra/locks.py\<close> on POSIX: the process lock \<open>FileLock\<close>, as a machine in which several processes
  take turns on one lock file, and the lease \<open>LeaseLock\<close> of the single active subagent, as operations
  on the disk. The text of an \<open>error\<close> entry and \<open>age_seconds\<close> (a float) are not modelled; sleeping and
  the deadline are a choice of the machine.
\<close>

section \<open>Processes\<close>

text \<open>What the operating system says: host name, own process, which processes exist, \<open>/proc/<pid>/stat\<close>.\<close>

record host =
  host_name :: string
  host_pid :: int
  host_exists :: "int \<Rightarrow> bool"
  host_stat :: "int \<Rightarrow> string option"

text \<open>\<open>s.split()\<close>.\<close>

fun split_words :: "string \<Rightarrow> string \<Rightarrow> string list" where
  "split_words w [] = (if w = [] then [] else [w])"
| "split_words w (c # s) = (if is_space c then (if w = [] then split_words [] s else w # split_words [] s) else split_words (w @ [c]) s)"

definition process_identity :: "'a host_scheme \<Rightarrow> int \<Rightarrow> pyval" where
  "process_identity h pid = (if pid \<le> 0 then PyNone else case host_stat h pid of
      None \<Rightarrow> PyNone
    | Some t \<Rightarrow> if CHR '')'' \<notin> set t then PyNone
        else let fields = split_words [] (rev (takeWhile (\<lambda>c. c \<noteq> CHR '')'') (rev t))) in
          if 19 < length fields then PyStr (''proc-start:'' @ fields ! 19) else PyNone)"

definition pid_alive :: "host \<Rightarrow> int \<Rightarrow> pyval \<Rightarrow> bool" where
  "pid_alive h pid ident \<longleftrightarrow> 0 < pid \<and> host_exists h pid
     \<and> (ident = PyNone \<or> (let current = process_identity h pid in current = PyNone \<or> py_eq current ident))"

section \<open>The lock file\<close>

definition lock_payload :: "host \<Rightarrow> string \<Rightarrow> string \<Rightarrow> string \<Rightarrow> pyval" where
  "lock_payload h nonce now purpose = PyDict [(''schema'', PyInt 2), (''nonce'', PyStr nonce), (''pid'', PyInt (host_pid h)),
     (''process_identity'', process_identity h (host_pid h)), (''host'', PyStr (host_name h)), (''created'', PyStr now), (''purpose'', PyStr purpose)]"

definition absent_info :: pyval where
  "absent_info = PyDict [(''exists'', PyBool False)]"

definition corrupt_info :: pyval where
  "corrupt_info = PyDict [(''exists'', PyBool True), (''corrupt'', PyBool True)]"

text \<open>\<open>FileLock.inspect\<close> of a file with the given text, \<open>None\<close> for no file.\<close>

definition file_inspect :: "host \<Rightarrow> string option \<Rightarrow> pyval res" where
  "file_inspect h text = (case text of
      None \<Rightarrow> Inr absent_info
    | Some t \<Rightarrow> (case json_loads t of
        None \<Rightarrow> Inr corrupt_info
      | Some data \<Rightarrow> if \<not> is_dict data \<or> \<not> is_str (dget data ''nonce'') then Inr corrupt_info
          else let same = py_eq (dget data ''host'') (PyStr (host_name h));
                   info = dset (dset data ''exists'' (PyBool True)) ''same_host'' (PyBool same) in
            if same then res_bind (py_int (dget_or info ''pid'' (PyInt (- 1)))) (\<lambda>pid.
              Inr (dset info ''pid_alive_here'' (PyBool (pid_alive h pid (dget info ''process_identity'')))))
            else Inr (dset info ''pid_alive_here'' PyNone)))"

text \<open>The condition under which \<open>acquire\<close> unlinks the file of another process.\<close>

definition stale_lock :: "pyval \<Rightarrow> bool" where
  "stale_lock info \<longleftrightarrow> truthy (dget info ''exists'') \<and> truthy (dget info ''same_host'') \<and> dget info ''pid_alive_here'' = PyBool False"

text \<open>The checks of \<open>release\<close> for an owner that passes no nonce.\<close>

definition release_check :: "host \<Rightarrow> pyval \<Rightarrow> pyval \<Rightarrow> unit res" where
  "release_check h owner info = (if \<not> truthy (dget info ''exists'') then Inl (LockError ''owned process lock disappeared'')
     else if \<not> (py_eq (dget info ''nonce'') (dget owner ''nonce'') \<and> py_eq (dget info ''host'') (dget owner ''host''))
     then Inl (LockError ''refusing to release process lock with mismatched owner binding'')
     else res_bind (py_int (dget_or info ''pid'' (PyInt (- 1)))) (\<lambda>pid.
       guard (pid = host_pid h \<and> py_eq (dget info ''process_identity'') (dget owner ''process_identity''))
         (LockError ''refusing to release process lock with mismatched owner binding'')))"

section \<open>Processes taking turns\<close>

text \<open>
  Where a process is in \<open>acquire\<close> and \<open>release\<close>. One turn is one access to the file: the exclusive
  create, the write through the open descriptor (which reaches the file only while the inode it
  opened is the one at the path), the read of \<open>inspect\<close>, the unlink.
\<close>

datatype phase = Trying | Created nat | Contended | Stale | Waiting | Owning | Unlinking | Released | Failed

record lock_state =
  lk_file :: "(nat \<times> string) option"
  lk_inode :: nat
  lk_phase :: "int \<Rightarrow> phase"
  lk_dead :: "int list"

record lockers = host +
  lo_nonce :: "int \<Rightarrow> string"
  lo_now :: string
  lo_purpose :: string

definition view :: "lockers \<Rightarrow> lock_state \<Rightarrow> int \<Rightarrow> host" where
  "view c s p = \<lparr>host_name = host_name c, host_pid = p, host_exists = (\<lambda>q. host_exists c q \<and> q \<notin> set (lk_dead s)), host_stat = host_stat c\<rparr>"

definition owner_payload :: "lockers \<Rightarrow> lock_state \<Rightarrow> int \<Rightarrow> pyval" where
  "owner_payload c s p = lock_payload (view c s p) (lo_nonce c p) (lo_now c) (lo_purpose c)"

definition enter :: "int \<Rightarrow> phase \<Rightarrow> lock_state \<Rightarrow> lock_state" where
  "enter p ph s = s\<lparr>lk_phase := (lk_phase s)(p := ph)\<rparr>"

definition lock_inspect :: "lockers \<Rightarrow> lock_state \<Rightarrow> int \<Rightarrow> pyval res" where
  "lock_inspect c s p = file_inspect (view c s p) (map_option snd (lk_file s))"

text \<open>The next access of process \<open>p\<close>.\<close>

definition act :: "lockers \<Rightarrow> int \<Rightarrow> lock_state \<Rightarrow> lock_state" where
  "act c p s = (case lk_phase s p of
      Trying \<Rightarrow> (case lk_file s of
          None \<Rightarrow> enter p (Created (lk_inode s)) (s\<lparr>lk_file := Some (lk_inode s, []), lk_inode := Suc (lk_inode s)\<rparr>)
        | Some f \<Rightarrow> enter p Contended s)
    | Created i \<Rightarrow> enter p Owning (s\<lparr>lk_file := (case lk_file s of None \<Rightarrow> None
        | Some (j, t) \<Rightarrow> Some (j, if j = i then json_line (owner_payload c s p) else t))\<rparr>)
    | Contended \<Rightarrow> (case lock_inspect c s p of
          Inl e \<Rightarrow> enter p Failed s
        | Inr info \<Rightarrow> enter p (if stale_lock info then Stale else Waiting) s)
    | Stale \<Rightarrow> enter p Trying (s\<lparr>lk_file := None\<rparr>)
    | Waiting \<Rightarrow> enter p Trying s
    | Owning \<Rightarrow> (case res_bind (lock_inspect c s p) (release_check (view c s p) (owner_payload c s p)) of
          Inl e \<Rightarrow> enter p Failed s
        | Inr _ \<Rightarrow> enter p Unlinking s)
    | Unlinking \<Rightarrow> if lk_file s = None then enter p Failed s else enter p Released (s\<lparr>lk_file := None\<rparr>)
    | Released \<Rightarrow> s
    | Failed \<Rightarrow> s)"

definition runner :: "lockers \<Rightarrow> int \<Rightarrow> bool" where
  "runner c p \<longleftrightarrow> 0 < p \<and> host_exists c p"

inductive lock_step :: "lockers \<Rightarrow> lock_state \<Rightarrow> lock_state \<Rightarrow> bool" for c where
  turn: "runner c p \<Longrightarrow> p \<notin> set (lk_dead s) \<Longrightarrow> lock_step c s (act c p s)"
| timeout: "lk_phase s p = Waiting \<Longrightarrow> lock_step c s (enter p Failed s)"
| crash: "lock_step c s (s\<lparr>lk_dead := p # lk_dead s\<rparr>)"

definition unlocked :: lock_state where
  "unlocked = \<lparr>lk_file = None, lk_inode = 0, lk_phase = (\<lambda>_. Trying), lk_dead = []\<rparr>"

abbreviation lock_runs :: "lockers \<Rightarrow> lock_state \<Rightarrow> lock_state \<Rightarrow> bool" where
  "lock_runs c \<equiv> (lock_step c)\<^sup>*\<^sup>*"

definition holds :: "lock_state \<Rightarrow> int \<Rightarrow> bool" where
  "holds s p \<longleftrightarrow> lk_phase s p = Owning \<or> lk_phase s p = Unlinking"

section \<open>Leases\<close>

text \<open>Reading a path that is no regular file fails, as does reading text that is no JSON.\<close>

definition lease_required :: "string list" where
  "lease_required = [''lease_id'', ''owner_nonce'', ''task_id'', ''role'', ''host'']"

definition lease_payload :: "host \<Rightarrow> string \<Rightarrow> string \<Rightarrow> string \<Rightarrow> string \<Rightarrow> string \<Rightarrow> string \<Rightarrow> pyval \<Rightarrow> pyval" where
  "lease_payload h uuid nonce now purpose task_id role parent_id = PyDict [(''schema'', PyInt 2), (''lease_id'', PyStr (''L-'' @ uuid)),
     (''owner_nonce'', PyStr nonce), (''task_id'', PyStr task_id), (''role'', PyStr role), (''parent_id'', parent_id),
     (''opened_by_pid'', PyInt (host_pid h)), (''process_identity'', process_identity h (host_pid h)), (''host'', PyStr (host_name h)),
     (''created'', PyStr now), (''purpose'', PyStr purpose)]"

definition lease_inspect :: "disk \<Rightarrow> path \<Rightarrow> pyval" where
  "lease_inspect d p = (if \<not> exists d p then absent_info else case json_at d p of
      None \<Rightarrow> corrupt_info
    | Some data \<Rightarrow> if is_dict data \<and> (\<forall>k \<in> set lease_required. is_str (dget data k) \<and> dget data k \<noteq> PyStr [])
        then dset data ''exists'' (PyBool True) else corrupt_info)"

text \<open>\<open>mkdir(parents=True)\<close>, then the exclusive create and the write.\<close>

definition create_exclusive :: "path \<Rightarrow> string \<Rightarrow> string \<Rightarrow> unit io" where
  "create_exclusive p data taken d = (case mkdir_parents d (butlast p) of
      Inl e \<Rightarrow> (d, Inl e)
    | Inr d1 \<Rightarrow> if exists d1 p then (d1, Inl (LockError taken)) else (put d1 p (File (fresh_inode d1) 384 data), Inr ()))"

definition lease_acquire :: "host \<Rightarrow> path \<Rightarrow> string \<Rightarrow> string \<Rightarrow> string \<Rightarrow> string \<Rightarrow> string \<Rightarrow> string \<Rightarrow> pyval \<Rightarrow> pyval io" where
  "lease_acquire h p uuid nonce now purpose task_id role parent_id =
    (let payload = lease_payload h uuid nonce now purpose task_id role parent_id in
     io_bind (create_exclusive p (json_line payload) ''subagent lease already exists'') (\<lambda>_. io_return payload))"

text \<open>An identity the caller gives must be the one of the lease.\<close>

definition lease_mismatch :: "pyval \<Rightarrow> string \<times> string option \<Rightarrow> bool" where
  "lease_mismatch info ke = (case snd ke of None \<Rightarrow> False | Some x \<Rightarrow> dget info (fst ke) \<noteq> PyStr x)"

definition unlink_lease :: "path \<Rightarrow> unit io" where
  "unlink_lease p d = (if is_dir d p then (d, Inl (OSErr ''is a directory'')) else (remove d p, Inr ()))"

definition lease_release :: "path \<Rightarrow> string \<Rightarrow> string option \<Rightarrow> string option \<Rightarrow> string option \<Rightarrow> unit io" where
  "lease_release p lease_id owner_nonce task_id role d =
    (let info = lease_inspect d p in
     if \<not> truthy (dget info ''exists'') then (d, Inl (LockError ''subagent lease does not exist''))
     else if truthy (dget info ''corrupt'') then (d, Inl (LockError ''subagent lease is corrupt''))
     else if \<exists>ke \<in> set [(''lease_id'', Some lease_id), (''owner_nonce'', owner_nonce), (''task_id'', task_id), (''role'', role)]. lease_mismatch info ke
     then (d, Inl (LockError ''subagent lease mismatch''))
     else unlink_lease p d)"

definition lease_force_clear :: "path \<Rightarrow> string \<Rightarrow> string option \<Rightarrow> pyval io" where
  "lease_force_clear p reason expected_task_id d =
    (let info = lease_inspect d p in
     if blank reason then (d, Inl (LockError ''force-clear requires a non-empty reason''))
     else if \<not> truthy (dget info ''exists'') then (d, Inr info)
     else if truthy (dget info ''corrupt'') then (d, Inl (LockError ''corrupt lease requires forensic recovery; automatic force-clear refused''))
     else if lease_mismatch info (''task_id'', expected_task_id) then (d, Inl (LockError ''refusing to clear another task's lease''))
     else io_bind (unlink_lease p) (\<lambda>_. io_return info) d)"

definition restore_required :: "string list" where
  "restore_required = [''schema'', ''lease_id'', ''owner_nonce'', ''task_id'', ''role'', ''host'', ''purpose'']"

definition lease_restore :: "path \<Rightarrow> string \<Rightarrow> pyval \<Rightarrow> unit io" where
  "lease_restore p purpose payload =
    (if \<not> (is_dict payload \<and> py_eq (dget payload ''schema'') (PyInt 2) \<and> (\<forall>k \<in> set restore_required. has_key payload k))
     then io_raise (LockError ''refusing to restore an invalid lease payload'')
     else if dget payload ''purpose'' \<noteq> PyStr purpose then io_raise (LockError ''refusing to restore lease for a different purpose'')
     else create_exclusive p (json_line (dpop (dpop payload ''exists'') ''age_seconds'')) ''cannot restore lease because another lease now exists'')"

section \<open>Inspecting a lock\<close>

lemma identity_atom: "process_identity h p = PyNone \<or> (\<exists>t. process_identity h p = PyStr t)"
  by (simp add: process_identity_def Let_def split: option.split)

lemma identity_canon [simp]: "canon (process_identity h p) = process_identity h p"
  using identity_atom [of h p] by auto

lemma identity_wf [simp]: "wf_val (process_identity h p)"
  using identity_atom [of h p] by auto

lemma lock_payload_wf [simp]: "wf_val (lock_payload h nonce now purpose)" "is_dict (lock_payload h nonce now purpose)"
  by (simp_all add: lock_payload_def)

lemma lock_payload_fields [simp]:
  "dget (lock_payload h nonce now purpose) ''nonce'' = PyStr nonce"
  "dget (lock_payload h nonce now purpose) ''host'' = PyStr (host_name h)"
  "dget (lock_payload h nonce now purpose) ''pid'' = PyInt (host_pid h)"
  "dget (lock_payload h nonce now purpose) ''process_identity'' = process_identity h (host_pid h)"
  by (simp_all add: lock_payload_def)

text \<open>The owner's text, read by a process of the same host.\<close>

lemma inspect_payload:
  assumes "host_name g = host_name h"
  obtains info where "file_inspect g (Some (json_line (lock_payload h nonce now purpose))) = Inr info"
    and "dget info ''exists'' = PyBool True" and "dget info ''same_host'' = PyBool True" and "dget info ''nonce'' = PyStr nonce"
    and "dget info ''host'' = PyStr (host_name h)" and "dget_or info ''pid'' (PyInt (- 1)) = PyInt (host_pid h)"
    and "dget info ''process_identity'' = process_identity h (host_pid h)"
    and "dget info ''pid_alive_here'' = PyBool (pid_alive g (host_pid h) (process_identity h (host_pid h)))"
proof -
  let ?P = "lock_payload h nonce now purpose"
  let ?d = "canon ?P"
  have w: "wf_val ?P" by simp
  have f: "is_dict ?d" "dget ?d ''nonce'' = PyStr nonce" "dget ?d ''host'' = PyStr (host_name h)"
    "dget ?d ''process_identity'' = process_identity h (host_pid h)" "dget ?d ''pid'' = PyInt (host_pid h)"
    by (simp_all add: dget_canon [OF w])
  have k: "dget_or ?d ''pid'' (PyInt (- 1)) = PyInt (host_pid h)"
    using f(5) dget_not_None_key [of ?d "''pid''"] by (simp add: dget_or_key)
  have "file_inspect g (Some (json_line ?P)) = Inr (dset (dset (dset ?d ''exists'' (PyBool True)) ''same_host'' (PyBool True))
      ''pid_alive_here'' (PyBool (pid_alive g (host_pid h) (process_identity h (host_pid h)))))"
    using assms f k by (simp add: file_inspect_def json_line_reads py_int_def Let_def)
  then show ?thesis by (rule that) (simp_all add: f k)
qed

lemma file_inspect_empty [simp]: "file_inspect h (Some []) = Inr corrupt_info"
  by (simp add: file_inspect_def json_loads_def)

lemma corrupt_not_stale [simp]: "\<not> stale_lock corrupt_info"
  by (simp add: stale_lock_def corrupt_info_def)

lemma absent_not_stale [simp]: "\<not> stale_lock absent_info"
  by (simp add: stale_lock_def absent_info_def)

section \<open>Exclusion\<close>

definition active :: "phase \<Rightarrow> bool" where
  "active ph \<longleftrightarrow> (\<exists>i. ph = Created i) \<or> ph = Owning \<or> ph = Unlinking"

text \<open>The file belongs to the one process between its create and its unlink.\<close>

definition owned_by :: "lockers \<Rightarrow> lock_state \<Rightarrow> int \<Rightarrow> nat \<Rightarrow> string \<Rightarrow> bool" where
  "owned_by c s p i t \<longleftrightarrow> runner c p
     \<and> (lk_phase s p = Created i \<and> t = [] \<or> holds s p \<and> t = json_line (owner_payload c s p))
     \<and> (\<forall>q. q \<noteq> p \<longrightarrow> \<not> active (lk_phase s q))"

definition exclusive :: "lockers \<Rightarrow> lock_state \<Rightarrow> bool" where
  "exclusive c s \<longleftrightarrow> (\<forall>q. lk_phase s q \<noteq> Stale) \<and> (case lk_file s of
      None \<Rightarrow> \<forall>q. \<not> active (lk_phase s q)
    | Some (i, t) \<Rightarrow> \<exists>p. owned_by c s p i t)"

lemma enter_sel [simp]:
  "lk_file (enter p ph s) = lk_file s" "lk_dead (enter p ph s) = lk_dead s" "lk_inode (enter p ph s) = lk_inode s"
  "lk_phase (enter p ph s) q = (if q = p then ph else lk_phase s q)"
  by (simp_all add: enter_def)

lemma active_simps [simp]:
  "active (Created i)" "active Owning" "active Unlinking" "\<not> active Trying" "\<not> active Contended" "\<not> active Stale"
  "\<not> active Waiting" "\<not> active Released" "\<not> active Failed"
  by (simp_all add: active_def)

lemma view_sel [simp]:
  "host_name (view c s p) = host_name c" "host_pid (view c s p) = p" "process_identity (view c s p) q = process_identity c q"
  "host_exists (view c s p) q \<longleftrightarrow> host_exists c q \<and> q \<notin> set (lk_dead s)"
  by (simp_all add: view_def process_identity_def)

lemma payload_state: "owner_payload c s p = owner_payload c unlocked p"
  by (simp add: owner_payload_def lock_payload_def)

lemma act_dead: "lk_dead (act c p s) = lk_dead s"
  by (cases "lk_phase s p") (simp_all add: act_def split: option.split sum.split)

text \<open>What a process of the host reads in the file of an owner: alive exactly when it is not dead.\<close>

lemma inspect_owner:
  assumes "runner c q"
  obtains info where "file_inspect (view c s p) (Some (json_line (owner_payload c s0 q))) = Inr info"
    and "stale_lock info \<longleftrightarrow> q \<in> set (lk_dead s)" and "p = q \<Longrightarrow> release_check (view c s p) (owner_payload c s q) info = Inr ()"
proof -
  have a: "pid_alive (view c s p) q (process_identity c q) \<longleftrightarrow> q \<notin> set (lk_dead s)"
    using assms by (auto simp: pid_alive_def runner_def Let_def)
  have n: "host_name (view c s p) = host_name (view c s0 q)" by simp
  show ?thesis
  proof (rule inspect_payload [OF n, of "lo_nonce c q" "lo_now c" "lo_purpose c"], goal_cases)
    case (1 info)
    then show ?case
      by (intro that [of info]) (simp_all add: stale_lock_def a release_check_def owner_payload_def py_int_def)
  qed
qed

lemma owned_enter_other:
  assumes "owned_by c s p i t" and "q \<noteq> p" and "\<not> active ph"
  shows "owned_by c (enter q ph s) p i t"
  using assms unfolding owned_by_def holds_def payload_state [of c s] payload_state [of c "enter q ph s"] by auto

lemma owned_active: "owned_by c s p i t \<Longrightarrow> active (lk_phase s q) \<longleftrightarrow> q = p"
  by (auto simp: owned_by_def holds_def)

lemma exclusive_enter:
  assumes "exclusive c s" and "\<not> active (lk_phase s p)" and "\<not> active ph" and "ph \<noteq> Stale"
  shows "exclusive c (enter p ph s)"
proof (cases "lk_file s")
  case None
  then show ?thesis using assms by (simp add: exclusive_def)
next
  case (Some f)
  then obtain i t q where f: "lk_file s = Some (i, t)" and o: "owned_by c s q i t" using assms(1) by (cases f) (auto simp: exclusive_def)
  have "p \<noteq> q" using owned_active [OF o] assms(2) by auto
  with o assms(3) have "owned_by c (enter p ph s) q i t" by (simp add: owned_enter_other)
  then show ?thesis using assms f by (auto simp: exclusive_def)
qed

lemma owner_file:
  assumes "exclusive c s" and "active (lk_phase s p)"
  obtains i t where "lk_file s = Some (i, t)" and "owned_by c s p i t"
proof (cases "lk_file s")
  case None
  then show ?thesis using assms by (simp add: exclusive_def)
next
  case (Some f)
  then obtain i t q where "lk_file s = Some (i, t)" and o: "owned_by c s q i t" using assms(1) by (cases f) (auto simp: exclusive_def)
  then show ?thesis using owned_active [OF o] assms(2) by (intro that [of i t]) auto
qed

lemma not_stale:
  assumes "exclusive c s" and "lk_dead s = []"
  obtains info where "lock_inspect c s p = Inr info" and "\<not> stale_lock info"
proof (cases "lk_file s")
  case None
  then show ?thesis by (intro that [of absent_info]) (simp_all add: lock_inspect_def file_inspect_def)
next
  case (Some f)
  then obtain i t q where f: "lk_file s = Some (i, t)" and o: "owned_by c s q i t" using assms(1) by (cases f) (auto simp: exclusive_def)
  show ?thesis
  proof (cases "t = []")
    case True
    then show ?thesis using f by (intro that [of corrupt_info]) (simp_all add: lock_inspect_def)
  next
    case False
    then have t: "t = json_line (owner_payload c s q)" "runner c q" using o by (auto simp: owned_by_def)
    show ?thesis by (rule inspect_owner [OF t(2), of s p s]) (use f t that assms(2) in \<open>simp add: lock_inspect_def\<close>)
  qed
qed

lemma owner_release:
  assumes "exclusive c s" and "lk_phase s p = Owning"
  shows "act c p s = enter p Unlinking s"
proof -
  from assms obtain i t where f: "lk_file s = Some (i, t)" and o: "owned_by c s p i t" by (auto elim: owner_file [of c s p])
  then have t: "t = json_line (owner_payload c s p)" "runner c p" using assms(2) by (auto simp: owned_by_def holds_def)
  obtain info where "file_inspect (view c s p) (Some (json_line (owner_payload c s p))) = Inr info"
    and "release_check (view c s p) (owner_payload c s p) info = Inr ()" using inspect_owner [OF t(2), of s p s] by blast
  then show ?thesis using f t(1) assms(2) by (simp add: act_def lock_inspect_def)
qed

lemma exclusive_act:
  assumes e: "exclusive c s" and d: "lk_dead s = []" and r: "runner c p"
  shows "exclusive c (act c p s)"
proof (cases "lk_phase s p")
  case Trying
  show ?thesis
  proof (cases "lk_file s")
    case None
    then show ?thesis using e r Trying by (auto simp: act_def exclusive_def owned_by_def)
  next
    case (Some f)
    then show ?thesis using exclusive_enter [OF e, of p Contended] Trying by (simp add: act_def)
  qed
next
  case (Created i)
  then obtain j t where f: "lk_file s = Some (j, t)" and o: "owned_by c s p j t" using e by (auto elim: owner_file [of c s p])
  let ?s = "act c p s"
  have "j = i" using o Created by (auto simp: owned_by_def holds_def)
  then have s: "lk_file ?s = Some (i, json_line (owner_payload c s p))" "lk_phase ?s = (lk_phase s)(p := Owning)"
    using f Created by (simp_all add: act_def enter_def)
  have "owned_by c ?s p i (json_line (owner_payload c s p))"
    using o r unfolding owned_by_def holds_def s(2) payload_state [of c s] payload_state [of c ?s] by simp
  then show ?thesis using e s by (auto simp: exclusive_def)
next
  case Contended
  obtain info where "lock_inspect c s p = Inr info" "\<not> stale_lock info" using e d by (rule not_stale)
  then show ?thesis using exclusive_enter [OF e, of p Waiting] Contended by (simp add: act_def)
next
  case Stale
  then show ?thesis using e by (simp add: exclusive_def)
next
  case Waiting
  then show ?thesis using exclusive_enter [OF e, of p Trying] by (simp add: act_def)
next
  case Owning
  then obtain i t where f: "lk_file s = Some (i, t)" and o: "owned_by c s p i t" using e by (auto elim: owner_file [of c s p])
  have "owned_by c (enter p Unlinking s) p i t"
    using o Owning unfolding owned_by_def holds_def payload_state [of c s] payload_state [of c "enter p Unlinking s"] by simp
  then show ?thesis unfolding owner_release [OF e Owning] using e f by (auto simp: exclusive_def)
next
  case Unlinking
  then obtain i t where f: "lk_file s = Some (i, t)" and o: "owned_by c s p i t" using e by (auto elim: owner_file [of c s p])
  have "\<not> active (lk_phase s q)" if "q \<noteq> p" for q using owned_active [OF o] that by simp
  then show ?thesis using e f Unlinking by (simp add: act_def exclusive_def)
qed (use e in \<open>simp_all add: act_def\<close>)

lemma exclusive_unlocked: "exclusive c unlocked"
  by (simp add: exclusive_def unlocked_def)

lemma exclusive_reachable: "lock_runs c unlocked s \<Longrightarrow> lk_dead s = [] \<Longrightarrow> exclusive c s"
proof (induction rule: rtranclp_induct)
  case base
  show ?case by (rule exclusive_unlocked)
next
  case (step s s')
  from \<open>lock_step c s s'\<close> show ?case
  proof cases
    case (turn p)
    then show ?thesis using step exclusive_act by (simp add: act_dead)
  next
    case (timeout p)
    then show ?thesis using step exclusive_enter [of c s p Failed] by simp
  next
    case (crash p)
    then show ?thesis using step by simp
  qed
qed

text \<open>
  C31: \<open>FileLock\<close> excludes as long as no process dies. In every state a group of processes can reach by
  taking turns in \<open>acquire\<close> and \<open>release\<close> on one lock file, with none of them dead, at most one process
  holds the lock, the file then holds its payload, and its release is never refused.
\<close>

theorem file_lock_exclusive:
  assumes "lock_runs c unlocked s" and "lk_dead s = []" and "holds s p"
  shows "(\<forall>q. holds s q \<longrightarrow> q = p) \<and> (\<exists>i. lk_file s = Some (i, json_line (owner_payload c s p)))
    \<and> (lk_phase s p = Owning \<longrightarrow> lk_phase (act c p s) p = Unlinking)"
proof (intro conjI)
  have e: "exclusive c s" using assms(1,2) by (rule exclusive_reachable)
  have h: "active (lk_phase s q)" if "holds s q" for q using that by (auto simp: holds_def)
  obtain i t where f: "lk_file s = Some (i, t)" and o: "owned_by c s p i t" using owner_file [OF e h [OF assms(3)]] by blast
  show "\<forall>q. holds s q \<longrightarrow> q = p" using owned_active [OF o] h by simp
  show "\<exists>i. lk_file s = Some (i, json_line (owner_payload c s p))"
  proof -
    have "t = json_line (owner_payload c s p)" using o assms(3) unfolding owned_by_def holds_def by fastforce
    then show ?thesis using f by simp
  qed
  show "lk_phase s p = Owning \<longrightarrow> lk_phase (act c p s) p = Unlinking" using owner_release [OF e] by simp
qed

section \<open>The race on a stale lock\<close>

lemma run_turn: "lock_runs c s s' \<Longrightarrow> runner c p \<Longrightarrow> p \<notin> set (lk_dead s') \<Longrightarrow> lock_runs c s (act c p s')"
  by (rule rtranclp.rtrancl_into_rtrancl) (auto intro: lock_step.turn)

text \<open>A free lock is taken in two turns.\<close>

lemma take_free:
  assumes "lock_runs c s0 s" and "runner c p" and "p \<notin> set (lk_dead s)" and "lk_phase s p = Trying" and "lk_file s = None"
  obtains s' where "lock_runs c s0 s'" and "lk_phase s' = (lk_phase s)(p := Owning)" and "lk_dead s' = lk_dead s"
    and "\<exists>i. lk_file s' = Some (i, json_line (owner_payload c unlocked p))"
proof -
  let ?s1 = "act c p s" and ?s2 = "act c p (act c p s)"
  have p1: "lk_phase ?s1 = (lk_phase s)(p := Created (lk_inode s))" "lk_file ?s1 = Some (lk_inode s, [])"
    using assms(4,5) by (simp_all add: act_def enter_def)
  then have p2: "lk_phase ?s2 = (lk_phase s)(p := Owning)" "lk_file ?s2 = Some (lk_inode s, json_line (owner_payload c ?s1 p))"
    using act_def [of c p ?s1] by (simp_all add: enter_def)
  have "lock_runs c s0 ?s2" using assms(1-3) by (intro run_turn) (simp_all add: act_dead)
  then show ?thesis using p2 payload_state [of c ?s1 p] by (intro that [of ?s2]) (simp_all add: act_dead)
qed

text \<open>A process that finds the lock of a dead one decides to unlink it, in two turns.\<close>

lemma judge_stale:
  assumes "lock_runs c s0 s" and "runner c p" and "p \<notin> set (lk_dead s)" and "lk_phase s p = Trying"
    and f: "lk_file s = Some (i, json_line (owner_payload c unlocked o'))" and "runner c o'" and "o' \<in> set (lk_dead s)"
  obtains s' where "lock_runs c s0 s'" and "lk_phase s' = (lk_phase s)(p := Stale)" and "lk_dead s' = lk_dead s" and "lk_file s' = lk_file s"
proof -
  let ?s1 = "act c p s"
  have s1: "?s1 = enter p Contended s" using assms(4) f by (simp add: act_def)
  let ?c = "enter p Contended s"
  obtain info where "file_inspect (view c ?c p) (Some (json_line (owner_payload c unlocked o'))) = Inr info" "stale_lock info"
    by (rule inspect_owner [OF assms(6), of ?c p unlocked]) (use assms(7) in simp)
  then have "act c p ?c = enter p Stale ?c" using f by (simp add: act_def lock_inspect_def)
  then have s2: "act c p ?s1 = enter p Stale ?c" by (simp only: s1)
  have "lock_runs c s0 (act c p ?s1)" using assms(1-3) by (intro run_turn) (simp_all add: act_dead)
  then show ?thesis unfolding s2 by (rule that) (simp_all add: fun_eq_iff)
qed

lemma unlink_stale:
  assumes "lock_runs c s0 s" and "runner c p" and "p \<notin> set (lk_dead s)" and "lk_phase s p = Stale"
  obtains s' where "lock_runs c s0 s'" and "lk_phase s' = (lk_phase s)(p := Trying)" and "lk_dead s' = lk_dead s" and "lk_file s' = None"
proof -
  have s: "act c p s = enter p Trying (s\<lparr>lk_file := None\<rparr>)" using assms(4) by (simp add: act_def)
  show ?thesis by (rule that [OF run_turn [OF assms(1-3)]]) (simp_all add: s enter_def)
qed

text \<open>
  C32: the removal of stale locks breaks exclusion. Once an owner has died, two live processes that both
  judge its lock stale before either unlinks it end up owning the lock together: the second unlink
  removes the lock the first process has just taken, because \<open>acquire\<close> unlinks the path without
  checking again whose lock is there.
\<close>

theorem stale_lock_race:
  assumes "runner c p" and "runner c q" and "runner c r" and "distinct [p, q, r]"
  shows "\<exists>s. lock_runs c unlocked s \<and> q \<notin> set (lk_dead s) \<and> r \<notin> set (lk_dead s) \<and> holds s q \<and> holds s r"
proof -
  have u: "lk_dead unlocked = []" "lk_phase unlocked x = Trying" "lk_file unlocked = None" for x by (simp_all add: unlocked_def)
  obtain s1 where s1: "lock_runs c unlocked s1" "lk_phase s1 = (lk_phase unlocked)(p := Owning)" "lk_dead s1 = []"
      "\<exists>i. lk_file s1 = Some (i, json_line (owner_payload c unlocked p))"
    by (rule take_free [of c unlocked unlocked p]) (use assms(1) u in simp_all)
  let ?s2 = "s1\<lparr>lk_dead := [p]\<rparr>"
  have s2: "lock_runs c unlocked ?s2" using s1(1,3) lock_step.crash [of c s1 p] by (metis rtranclp.rtrancl_into_rtrancl)
  obtain i where i: "lk_file ?s2 = Some (i, json_line (owner_payload c unlocked p))" using s1(4) by auto
  obtain s3 where s3: "lock_runs c unlocked s3" "lk_phase s3 = (lk_phase s1)(q := Stale)" "lk_dead s3 = [p]"
      "lk_file s3 = Some (i, json_line (owner_payload c unlocked p))"
    by (rule judge_stale [OF s2 assms(2) _ _ i assms(1)]) (use assms(4) s1 u i in simp_all)
  obtain s4 where s4: "lock_runs c unlocked s4" "lk_phase s4 = (lk_phase s3)(r := Stale)" "lk_dead s4 = [p]"
    by (rule judge_stale [OF s3(1) assms(3) _ _ s3(4) assms(1)]) (use assms(4) s1 s3 u in simp_all)
  obtain s5 where s5: "lock_runs c unlocked s5" "lk_phase s5 = (lk_phase s4)(q := Trying)" "lk_dead s5 = [p]" "lk_file s5 = None"
    by (rule unlink_stale [OF s4(1) assms(2)]) (use assms(4) s3 s4 in simp_all)
  obtain s6 where s6: "lock_runs c unlocked s6" "lk_phase s6 = (lk_phase s5)(q := Owning)" "lk_dead s6 = [p]"
    by (rule take_free [OF s5(1) assms(2) _ _ s5(4)]) (use assms(4) s5 in simp_all)
  obtain s7 where s7: "lock_runs c unlocked s7" "lk_phase s7 = (lk_phase s6)(r := Trying)" "lk_dead s7 = [p]" "lk_file s7 = None"
    by (rule unlink_stale [OF s6(1) assms(3)]) (use assms(4) s4 s5 s6 in simp_all)
  obtain s8 where s8: "lock_runs c unlocked s8" "lk_phase s8 = (lk_phase s7)(r := Owning)" "lk_dead s8 = [p]"
    by (rule take_free [OF s7(1) assms(3) _ _ s7(4)]) (use assms(4) s7 in simp_all)
  show ?thesis using assms(4) s8 s7(2) s6(2) by (intro exI [of _ s8]) (simp add: holds_def)
qed

definition sample_lockers :: lockers where
  "sample_lockers = \<lparr>host_name = ''host'', host_pid = 1, host_exists = (\<lambda>p. p < 100), host_stat = (\<lambda>_. None),
     lo_nonce = (\<lambda>_. ''n''), lo_now = ''2025-01-01'', lo_purpose = ''transaction:task-state''\<rparr>"

lemma sample_runner: "0 < p \<Longrightarrow> p < 100 \<Longrightarrow> runner sample_lockers p"
  by (simp add: runner_def sample_lockers_def)

theorem file_lock_exclusive_witness:
  "\<exists>s. lock_runs sample_lockers unlocked s \<and> lk_dead s = [] \<and> holds s 7 \<and> (\<forall>q. holds s q \<longrightarrow> q = 7)"
proof -
  have u: "lk_dead unlocked = []" "lk_phase unlocked x = Trying" "lk_file unlocked = None" for x by (simp_all add: unlocked_def)
  obtain s where s: "lock_runs sample_lockers unlocked s" "lk_phase s = (lk_phase unlocked)(7 := Owning)" "lk_dead s = []"
    by (rule take_free [of sample_lockers unlocked unlocked 7]) (use sample_runner [of 7] u in simp_all)
  have "holds s 7" by (simp add: holds_def s(2))
  then show ?thesis using s file_lock_exclusive [OF s(1,3)] by blast
qed

theorem stale_lock_race_witness:
  "\<exists>s. lock_runs sample_lockers unlocked s \<and> 8 \<notin> set (lk_dead s) \<and> 9 \<notin> set (lk_dead s) \<and> holds s 8 \<and> holds s 9"
  using stale_lock_race [of sample_lockers 7 8 9] by (simp add: sample_runner)

section \<open>The life of a lease\<close>

lemma make_dirs_present: "\<forall>q \<in> set ps. node_at d q = Some Directory \<Longrightarrow> make_dirs d ps = Inr d"
  by (induction ps) auto

lemma create_ok:
  assumes "p \<noteq> []" and "mkdir_parents d (butlast p) = Inr d1" and "\<not> exists d p"
  obtains d' where "create_exclusive p data taken d = (d', Inr ())" and "read d' p = Some data" and "exists d' p"
    and "mkdir_parents d' (butlast p) = Inr d'" and "\<not> is_dir d' p" and "mkdir_parents (remove d' p) (butlast p) = Inr (remove d' p)"
proof -
  have n: "node_at d1 q = (if q \<in> set (steps (butlast p)) then Some Directory else node_at d q)" for q
    using assms(2) unfolding mkdir_parents_def by (rule make_dirs_nodes) (auto dest: steps_prefix)
  let ?d = "put d1 p (File (fresh_inode d1) 384 data)"
  have e: "\<not> exists d1 p" using assms(3) n [of p] steps_not_self [OF assms(1)] by (simp add: exists_def)
  have k: "node_at ?d q = Some Directory \<and> node_at (remove ?d p) q = Some Directory" if "q \<in> set (steps (butlast p))" for q
    using that n [of q] assms(1) steps_not_self [OF assms(1)] by (cases "q = p") auto
  show ?thesis
    by (rule that [of ?d]) (use assms e k in \<open>simp_all add: create_exclusive_def exists_def is_dir_def mkdir_parents_def make_dirs_present\<close>)
qed

lemma create_taken:
  "mkdir_parents d (butlast p) = Inr d \<Longrightarrow> exists d p \<Longrightarrow> create_exclusive p data taken d = (d, Inl (LockError taken))"
  by (simp add: create_exclusive_def)

lemma lease_payload_dict: "wf_val parent \<Longrightarrow> wf_val (lease_payload h uuid nonce now purpose task role parent)"
  by (simp add: lease_payload_def)

lemma lease_payload_fields [simp]:
  "dget (lease_payload h uuid nonce now purpose task role parent) ''lease_id'' = PyStr (''L-'' @ uuid)"
  "dget (lease_payload h uuid nonce now purpose task role parent) ''owner_nonce'' = PyStr nonce"
  "dget (lease_payload h uuid nonce now purpose task role parent) ''task_id'' = PyStr task"
  "dget (lease_payload h uuid nonce now purpose task role parent) ''role'' = PyStr role"
  "dget (lease_payload h uuid nonce now purpose task role parent) ''host'' = PyStr (host_name h)"
  "dget (lease_payload h uuid nonce now purpose task role parent) ''purpose'' = PyStr purpose"
  "dget (lease_payload h uuid nonce now purpose task role parent) ''corrupt'' = PyNone"
  "is_dict (lease_payload h uuid nonce now purpose task role parent)"
  by (simp_all add: lease_payload_def)

lemma lease_payload_clean:
  "dpop (dpop (lease_payload h uuid nonce now purpose task role parent) ''exists'') ''age_seconds'' = lease_payload h uuid nonce now purpose task role parent"
  by (simp add: lease_payload_def dpop_def entries_def)

definition lease_info :: "pyval \<Rightarrow> pyval" where
  "lease_info payload = dset (canon payload) ''exists'' (PyBool True)"

lemma inspect_lease:
  assumes "wf_val parent" and "nonce \<noteq> []" and "task \<noteq> []" and "role \<noteq> []" and "host_name h \<noteq> []"
    and "read d p = Some (json_line (lease_payload h uuid nonce now purpose task role parent))" and "exists d p"
  shows "lease_inspect d p = lease_info (lease_payload h uuid nonce now purpose task role parent)"
  using assms by (simp add: lease_inspect_def lease_info_def json_at_def json_line_reads lease_payload_dict lease_required_def dget_canon)

lemma restore_lease:
  "lease_restore p purpose (lease_payload h uuid nonce now purpose task role parent)
     = create_exclusive p (json_line (lease_payload h uuid nonce now purpose task role parent)) ''cannot restore lease because another lease now exists''"
  unfolding lease_restore_def lease_payload_clean by (simp add: restore_required_def) (simp add: lease_payload_def)

text \<open>
  one subagent at a time. Acquiring a free lease succeeds, and from then on every other acquire is
  refused and changes nothing. Only a release that names the lease, and no wrong nonce, task or role,
  removes it; every other release leaves it in place. A lease that was removed can be restored from
  the payload, and then reads exactly as before.
\<close>

theorem lease_lifecycle:
  assumes "p \<noteq> []" and "mkdir_parents d (butlast p) = Inr d1" and "\<not> exists d p"
    and "wf_val parent" and "nonce \<noteq> []" and "task \<noteq> []" and "role \<noteq> []" and "host_name h \<noteq> []"
    and payload_def: "payload = lease_payload h uuid nonce now purpose task role parent"
  shows "\<exists>d' d''. lease_acquire h p uuid nonce now purpose task role parent d = (d', Inr payload)
    \<and> lease_inspect d' p = lease_info payload
    \<and> (\<forall>g u n w q t r x. lease_acquire g p u n w q t r x d' = (d', Inl (LockError ''subagent lease already exists'')))
    \<and> (\<forall>l n t r. lease_release p l n t r d' =
         (if l = ''L-'' @ uuid \<and> n \<in> {None, Some nonce} \<and> t \<in> {None, Some task} \<and> r \<in> {None, Some role}
          then (remove d' p, Inr ()) else (d', Inl (LockError ''subagent lease mismatch''))))
    \<and> lease_inspect (remove d' p) p = absent_info
    \<and> lease_restore p purpose payload (remove d' p) = (d'', Inr ()) \<and> lease_inspect d'' p = lease_info payload"
proof -
  obtain d' where d': "create_exclusive p (json_line payload) ''subagent lease already exists'' d = (d', Inr ())" "read d' p = Some (json_line payload)"
      "exists d' p" "mkdir_parents d' (butlast p) = Inr d'" "\<not> is_dir d' p" "mkdir_parents (remove d' p) (butlast p) = Inr (remove d' p)"
    by (rule create_ok [OF assms(1-3), of "json_line payload"])
  have free: "\<not> exists (remove d' p) p" using assms(1) by (simp add: exists_def)
  obtain d'' where d'': "create_exclusive p (json_line payload) ''cannot restore lease because another lease now exists'' (remove d' p) = (d'', Inr ())"
      "read d'' p = Some (json_line payload)" "exists d'' p"
    by (rule create_ok [OF assms(1) d'(6) free, of "json_line payload"])
  have i: "lease_inspect d' p = lease_info payload" "lease_inspect d'' p = lease_info payload"
    unfolding payload_def using assms(4-8) d'(2,3) d''(2,3) by (intro inspect_lease; simp add: payload_def)+
  have w: "wf_val payload" using assms(4) by (simp add: payload_def lease_payload_dict)
  have info: "dget (lease_info payload) k = (if k = ''exists'' then PyBool True else canon (dget payload k))" for k
    by (simp add: lease_info_def dget_canon [OF w])
  have "lease_release p l n t r d' = (if l = ''L-'' @ uuid \<and> n \<in> {None, Some nonce} \<and> t \<in> {None, Some task} \<and> r \<in> {None, Some role}
          then (remove d' p, Inr ()) else (d', Inl (LockError ''subagent lease mismatch'')))" for l n t r
    unfolding lease_release_def i(1) info Let_def lease_mismatch_def using d'(5)
    by (cases n; cases t; cases r) (auto simp: payload_def unlink_lease_def)
  then show ?thesis using i d' d'' free restore_lease [of p purpose h uuid nonce now task role parent]
    by (intro exI [of _ d'] exI [of _ d'']) (simp add: lease_acquire_def create_taken lease_inspect_def [of "remove d' p"] payload_def Let_def)
qed

definition sample_host :: host where
  "sample_host = \<lparr>host_name = ''host'', host_pid = 1, host_exists = (\<lambda>p. True), host_stat = (\<lambda>_. None)\<rparr>"

abbreviation sample_lease :: pyval where
  "sample_lease \<equiv> lease_payload sample_host ''1'' ''2'' ''2025-01-01'' ''single-active-subagent'' ''task-1'' ''reviewer'' PyNone"

theorem lease_lifecycle_witness:
  "\<exists>d. lease_acquire sample_host [''.aegis'', ''subagent-lease.json''] ''1'' ''2'' ''2025-01-01'' ''single-active-subagent'' ''task-1'' ''reviewer'' PyNone []
       = (d, Inr sample_lease) \<and> lease_inspect d [''.aegis'', ''subagent-lease.json''] = lease_info sample_lease"
proof -
  let ?p = "[''.aegis'', ''subagent-lease.json'']"
  have "mkdir_parents [] (butlast ?p) = Inr [([''.aegis''], Directory)]"
    by (simp add: mkdir_parents_def steps_def node_at_def put_def)
  then show ?thesis
    using lease_lifecycle [of ?p "[]" _ PyNone "''2''" "''task-1''" "''reviewer''" sample_host sample_lease "''1''" "''2025-01-01''" "''single-active-subagent''"]
    by (auto simp: exists_def node_at_def sample_host_def)
qed

end
