(* ===== verification/State_Store.thy ===== *)
theory State_Store
  imports Task_Rules Recovery Locks
begin

text \<open>
  The class \<open>StateStore\<close> of \<open>agentinfra/state_store.py\<close> on the disk: where a task, its anchor and the
  history of its anchors are kept, and the operations that create, load, save and advance a task.
  Every operation runs in the disk computations of \<open>File_System\<close>, so that what it did before raising
  stays on the disk.

  The process locks around the operations are modelled in \<open>Locks\<close>; here only the directory an
  \<open>acquire\<close> makes is on the disk. One operation takes one reading of the clock.
\<close>

section \<open>Environment and directories\<close>

text \<open>The readings an operation takes from outside: clock, random names, age of a timestamp.\<close>

record env =
  en_root :: path
  en_now :: string
  en_uuid :: string
  en_tx :: string
  en_age :: "string \<Rightarrow> int option"

definition io_res :: "'a res \<Rightarrow> 'a io" where
  "io_res x = io_get (\<lambda>_. x)"

definition confine :: "env \<Rightarrow> path \<Rightarrow> bool \<Rightarrow> path io" where
  "confine v p must_exist = io_get (\<lambda>d. confined_path (en_root v) d (Rel p) must_exist False)"

definition control_dir :: "env \<Rightarrow> path \<Rightarrow> path io" where
  "control_dir v rel = io_bind (confine v rel False) (\<lambda>p. io_bind (mkdir_io p) (\<lambda>_. confine v p True))"

definition task_dir :: "env \<Rightarrow> string \<Rightarrow> path io" where
  "task_dir v task_id = io_bind (io_res (validate_task_id (PyStr task_id))) (\<lambda>i.
     io_bind (control_dir v tasks_dir) (\<lambda>base. confine v (base @ [i]) False))"

definition state_path :: "env \<Rightarrow> string \<Rightarrow> path io" where
  "state_path v task_id = io_bind (task_dir v task_id) (\<lambda>p. confine v (p @ [''state.json'']) False)"

definition anchor_path :: "env \<Rightarrow> string \<Rightarrow> path io" where
  "anchor_path v task_id = io_bind (io_res (validate_task_id (PyStr task_id))) (\<lambda>i.
     io_bind (control_dir v (persistent_dir @ [''task-anchors''])) (\<lambda>base. confine v (base @ [i @ ''.json'']) False))"

text \<open>\<open>mkdir(parents=False, exist_ok=True)\<close>.\<close>

definition mkdir_one :: "path \<Rightarrow> unit io" where
  "mkdir_one p d = (if is_dir d p then (d, Inr ()) else if exists d p \<or> \<not> is_dir d (butlast p) then (d, Inl (OSErr ''mkdir'')) else (put d p Directory, Inr ()))"

definition anchor_history_dir :: "env \<Rightarrow> string \<Rightarrow> bool \<Rightarrow> path io" where
  "anchor_history_dir v task_id create = io_bind (io_res (validate_task_id (PyStr task_id))) (\<lambda>i.
     io_bind (control_dir v (persistent_dir @ [''task-anchor-history''])) (\<lambda>base.
     io_bind (confine v (base @ [i]) False) (\<lambda>p.
     if create then io_bind (mkdir_one p) (\<lambda>_. confine v p True) else io_return p)))"

text \<open>\<open>f"{revision:020d}-{digest}.json"\<close>.\<close>

definition history_name :: "int \<Rightarrow> string \<Rightarrow> string" where
  "history_name revision digest = (let n = int_str revision in replicate (20 - length n) (CHR ''0'') @ n @ ''-'' @ digest @ ''.json'')"

definition nonneg :: "pyval \<Rightarrow> bool" where
  "nonneg v \<longleftrightarrow> is_int v \<and> 0 \<le> int_of_val v"

definition digest_text :: "pyval \<Rightarrow> bool" where
  "digest_text v \<longleftrightarrow> (case v of PyStr s \<Rightarrow> length s = 64 | _ \<Rightarrow> False)"

definition anchor_history_path :: "env \<Rightarrow> pyval \<Rightarrow> path io" where
  "anchor_history_path v anchor = (let revision = dget anchor ''revision''; digest = dget anchor ''anchor_sha256'' in
     if \<not> (nonneg revision \<and> digest_text digest) then io_raise (RuntimeErr ''invalid task anchor history identity'')
     else io_bind (anchor_history_dir v (py_str (dget anchor ''task_id'')) True) (\<lambda>p.
       confine v (p @ [history_name (int_of_val revision) (py_str digest)]) False))"

definition current_path :: "env \<Rightarrow> path io" where
  "current_path v = io_bind (control_dir v runtime_dir) (\<lambda>p. confine v (p @ [''current-task'']) False)"

definition transaction_dir :: "env \<Rightarrow> path io" where
  "transaction_dir v = control_dir v (persistent_dir @ [''transactions''])"

section \<open>Anchors\<close>

text \<open>\<open>_new_anchor\<close>; its digest is the one of \<open>evidence.py\<close>, over the same field.\<close>

definition new_anchor :: "pyval \<Rightarrow> pyval option \<Rightarrow> pyval" where
  "new_anchor task previous = (let a = PyDict [(''schema'', PyInt 2), (''task_id'', dget task ''id''), (''revision'', dget task ''revision''),
       (''state_sha256'', dget task ''integrity_sha256''),
       (''previous_anchor_sha256'', (case previous of None \<Rightarrow> PyNone | Some p \<Rightarrow> dget p ''anchor_sha256'')),
       (''history_origin_revision'', (case previous of None \<Rightarrow> PyInt 0
          | Some p \<Rightarrow> dget_or p ''history_origin_revision'' (dget_or p ''revision'' (PyInt 0))))]
     in dset a ''anchor_sha256'' (PyStr (anchor_digest a)))"

definition json_suffix :: "string \<Rightarrow> bool" where
  "json_suffix n \<longleftrightarrow> 5 < length n \<and> drop (length n - 5) n = ''.json''"

definition anchor_version :: "pyval \<Rightarrow> bool res" where
  "anchor_version a = (let s = dget a ''schema'' in if unhashable s then Inl TypeErr else Inr (py_eq s (PyInt 1) \<or> py_eq s (PyInt 2)))"

text \<open>Lines 458--480: one file of the history.\<close>

definition history_entry :: "env \<Rightarrow> path \<Rightarrow> string \<Rightarrow> disk \<Rightarrow> string \<Rightarrow> pyval res" where
  "history_entry v dir task_id d n =
    res_bind (confined_path (en_root v) d (Rel (dir @ [n])) True False) (\<lambda>p.
    if \<not> is_file d p \<or> \<not> json_suffix n then Inl (RuntimeErr ''invalid task anchor history entry'')
    else case json_at d p of
      None \<Rightarrow> Inl (RuntimeErr ''invalid task anchor history entry'')
    | Some anchor \<Rightarrow> (let revision = dget anchor ''revision''; digest = dget anchor ''anchor_sha256''; e = RuntimeErr ''task anchor history integrity failure'' in
        if \<not> is_dict anchor then Inl e
        else res_bind (anchor_version anchor) (\<lambda>known.
          if known \<and> dget anchor ''task_id'' = PyStr task_id \<and> nonneg revision \<and> digest_text digest \<and> digest = PyStr (anchor_digest anchor)
             \<and> n = history_name (int_of_val revision) (py_str digest)
          then Inr anchor else Inl e)))"

definition chain_ok :: "pyval list \<Rightarrow> bool" where
  "chain_ok anchors \<longleftrightarrow> list_all2 (\<lambda>f p. py_eq (dget f ''previous_anchor_sha256'') (dget p ''anchor_sha256'')) (tl anchors) (butlast anchors)"

text \<open>Lines 481--493: the history runs from its origin to the current anchor without a gap, each entry naming the one before.\<close>

definition history_ok :: "pyval list \<Rightarrow> pyval \<Rightarrow> unit res" where
  "history_ok found current =
    (let anchors = sort_key (\<lambda>a. int_of_val (dget a ''revision'')) found; revisions = map (\<lambda>a. int_of_val (dget a ''revision'')) anchors in
     res_bind (guard (distinct revisions) (RuntimeErr ''task anchor history has invalid or duplicate revisions'')) (\<lambda>_.
     res_bind (py_int (dget_or current ''revision'' (PyInt (- 1)))) (\<lambda>newest.
     res_bind (number (dget_or current ''history_origin_revision'' (PyInt (hd revisions)))) (\<lambda>origin. check_all
       [guard (revisions = [origin..newest]) (RuntimeErr ''task anchor history was truncated, extended past state, or made non-contiguous''),
        guard (chain_ok anchors) (RuntimeErr ''task anchor history chain failure''),
        guard (py_eq (dget (last anchors) ''anchor_sha256'') (dget current ''anchor_sha256'')) (RuntimeErr ''task anchor history head does not match current anchor'')]))))"

definition validate_anchor_history :: "env \<Rightarrow> string \<Rightarrow> pyval \<Rightarrow> unit io" where
  "validate_anchor_history v task_id current = io_bind (anchor_history_dir v task_id False) (\<lambda>dir. io_get (\<lambda>d.
     let legacy = \<not> py_eq (dget current ''schema'') (PyInt 2) in
     if \<not> exists d dir then guard legacy (RuntimeErr ''task anchor history is missing'')
     else if \<not> is_dir d dir then Inl (OSErr ''not a directory'')
     else if names d dir = [] then guard legacy (RuntimeErr ''task anchor history is empty'')
     else res_bind (map_res (history_entry v dir task_id d) (names d dir)) (\<lambda>found. history_ok found current)))"

definition anchor_ok :: "string \<Rightarrow> pyval \<Rightarrow> unit res" where
  "anchor_ok task_id anchor = (let e = RuntimeErr ''task state anchor integrity failure'' in
     if \<not> is_dict anchor then Inl e
     else res_bind (anchor_version anchor) (\<lambda>known.
       res_bind (guard (known \<and> dget anchor ''task_id'' = PyStr task_id \<and> dget anchor ''anchor_sha256'' = PyStr (anchor_digest anchor)) e) (\<lambda>_.
       whenever (py_eq (dget anchor ''schema'') (PyInt 2))
         (if \<not> nonneg (dget anchor ''history_origin_revision'') then Inl (RuntimeErr ''task state anchor has invalid history origin'')
          else res_bind (py_int (dget_or anchor ''revision'' (PyInt (- 1)))) (\<lambda>newest.
            guard (int_of_val (dget anchor ''history_origin_revision'') \<le> newest) (RuntimeErr ''task state anchor has invalid history origin''))))))"

definition load_task_anchor :: "env \<Rightarrow> string \<Rightarrow> bool \<Rightarrow> pyval option io" where
  "load_task_anchor v task_id required = io_bind (anchor_path v task_id) (\<lambda>p.
     io_bind (io_get (\<lambda>d. if \<not> exists d p then (if required then Inl (RuntimeErr ''task state anchor is missing'') else Inr None)
       else case json_at d p of
         None \<Rightarrow> Inl (RuntimeErr ''invalid task state anchor'')
       | Some anchor \<Rightarrow> res_bind (anchor_ok task_id anchor) (\<lambda>_. Inr (Some anchor)))) (\<lambda>found.
     (case found of None \<Rightarrow> io_return None
      | Some anchor \<Rightarrow> io_bind (validate_anchor_history v task_id anchor) (\<lambda>_. io_return (Some anchor)))))"

section \<open>Loading\<close>

definition file_at :: "disk \<Rightarrow> path \<Rightarrow> jfile" where
  "file_at d p = (if \<not> exists d p then Missing else case json_at d p of None \<Rightarrow> Garbled | Some x \<Rightarrow> Doc x)"

text \<open>The ledger in the directory of a task, as \<open>Evidence\<close> sees it.\<close>

definition evidence_at :: "disk \<Rightarrow> path \<Rightarrow> string \<Rightarrow> evidence_dir" where
  "evidence_at d dir task_id = \<lparr>ev_task = task_id, ev_ledger = read d (dir @ [''evidence.jsonl'']), ev_head = file_at d (dir @ [''evidence-head.json'']),
     ev_state = file_at d (dir @ [''state.json'']), ev_redirected = is_path_redirect d (dir @ [''state.json''])\<rparr>"

definition load_ledger :: "env \<Rightarrow> string \<Rightarrow> pyval list io" where
  "load_ledger v task_id = io_bind (task_dir v task_id) (\<lambda>dir. io_get (\<lambda>d.
     if is_dir d (dir @ [''evidence.jsonl'']) then Inl (OSErr ''is a directory'') else load_evidence (evidence_at d dir task_id) True))"

text \<open>Lines 619--639: a finalized task still has its ledger and its workspace.\<close>

definition check_finalized :: "pyval \<Rightarrow> pyval \<Rightarrow> pyval list \<Rightarrow> unit res" where
  "check_finalized workspace task records = (let audited = dget task ''final_audit_workspace'' in check_all
    [guard (py_eq (ledger_head records) (dget task ''evidence_head'')) (RuntimeErr ''finalized task evidence head no longer matches its ledger''),
     guard (is_dict audited \<and> dget audited ''available'' = PyBool True \<and> dget workspace ''available'' = PyBool True
         \<and> py_eq (dget workspace ''sha256'') (dget audited ''sha256''))
       (RuntimeErr ''finalized task workspace no longer matches its audited fingerprint'')])"

definition acquire_lock :: "env \<Rightarrow> string \<Rightarrow> unit io" where
  "acquire_lock v task_id = io_bind (task_dir v task_id) mkdir_io"

definition read_state :: "path \<Rightarrow> disk \<Rightarrow> pyval res" where
  "read_state p d = (case node_at d p of
      None \<Rightarrow> Inl FileNotFoundErr
    | Some _ \<Rightarrow> (case json_at d p of None \<Rightarrow> Inl (RuntimeErr ''invalid task state JSON'') | Some task \<Rightarrow> Inr task))"

definition anchored :: "pyval \<Rightarrow> pyval \<Rightarrow> bool" where
  "anchored task anchor \<longleftrightarrow> py_eq (dget anchor ''revision'') (dget task ''revision'') \<and> py_eq (dget anchor ''state_sha256'') (dget task ''integrity_sha256'')"

definition load_unlocked :: "env \<Rightarrow> pyval \<Rightarrow> string \<Rightarrow> bool \<Rightarrow> pyval io" where
  "load_unlocked v workspace task_id evidence_locked =
    io_bind (state_path v task_id) (\<lambda>p.
    io_bind (io_get (read_state p)) (\<lambda>task.
    io_bind (io_res (validate_task task (Some task_id))) (\<lambda>_.
    io_bind (if 3 \<le> int_of_val (dget task ''schema'')
      then io_bind (load_task_anchor v task_id True) (\<lambda>a. io_res (guard (case a of None \<Rightarrow> False | Some anchor \<Rightarrow> anchored task anchor)
        (RuntimeErr ''task state does not match its durable task anchor'')))
      else io_return ()) (\<lambda>_.
    io_bind (if dget task ''state'' = PyStr ''FINALIZE''
      then io_bind (if evidence_locked then io_return () else acquire_lock v task_id) (\<lambda>_.
        io_bind (load_ledger v task_id) (\<lambda>records. io_res (check_finalized workspace task records)))
      else io_return ()) (\<lambda>_.
    io_return task)))))"

text \<open>\<open>strip\<close> of the pointer file and the checks of \<open>current_id\<close>.\<close>

definition current_id :: "env \<Rightarrow> string io" where
  "current_id v = io_bind (current_path v) (\<lambda>p.
     io_bind (io_get (\<lambda>d. case node_at d p of
         None \<Rightarrow> Inl (RuntimeErr ''no current task'')
       | Some (File i m b) \<Rightarrow> Inr (strip b)
       | Some _ \<Rightarrow> Inl (OSErr ''is a directory''))) (\<lambda>task_id.
     io_bind (state_path v task_id) (\<lambda>q.
     io_bind (io_get (\<lambda>d. guard (is_file d q) (RuntimeErr ''current task pointer does not reference an existing real task state''))) (\<lambda>_.
     io_return task_id))))"

text \<open>\<open>validate_task_id(task_id or self.current_id())\<close>.\<close>

definition chosen_id :: "env \<Rightarrow> string option \<Rightarrow> string io" where
  "chosen_id v task_id = io_bind (case task_id of None \<Rightarrow> current_id v | Some i \<Rightarrow> if i = [] then current_id v else io_return i) (\<lambda>i.
     io_res (validate_task_id (PyStr i)))"

definition load :: "env \<Rightarrow> pyval \<Rightarrow> string option \<Rightarrow> pyval io" where
  "load v workspace task_id = io_bind (chosen_id v task_id) (\<lambda>i. load_unlocked v workspace i False)"

definition summary_fields :: "string list" where
  "summary_fields = [''id'', ''title'', ''mode'', ''complexity'', ''risk'', ''state'', ''revision'', ''created'', ''updated'']"

definition corrupt_entry :: "string \<Rightarrow> pyval" where
  "corrupt_entry n = PyDict [(''id'', PyStr n), (''state'', PyStr ''CORRUPT'')]"

definition list_entry :: "env \<Rightarrow> pyval \<Rightarrow> string \<Rightarrow> pyval io" where
  "list_entry v workspace n d = (case io_bind (io_res (validate_task_id (PyStr n))) (\<lambda>i. load_unlocked v workspace i False) d of
      (d', Inr task) \<Rightarrow> (d', Inr (PyDict (map (\<lambda>k. (k, dget task k)) summary_fields)))
    | (d', Inl e) \<Rightarrow> (d', Inr (corrupt_entry n)))"

text \<open>Sorted by \<open>updated\<close>, then by identifier, newest first; the message of a corrupt entry is left out.\<close>

definition list_tasks :: "env \<Rightarrow> pyval \<Rightarrow> pyval list io" where
  "list_tasks v workspace = io_bind (control_dir v tasks_dir) (\<lambda>base.
     io_bind (io_get (\<lambda>d. Inr (filter (\<lambda>n. is_dir d (base @ [n])) (names d base)))) (\<lambda>dirs.
     io_bind (io_map (list_entry v workspace) dirs) (\<lambda>out.
     io_return (rev (sort_key (\<lambda>t. py_str (dget_or t ''updated'' (PyStr []))) (sort_key (\<lambda>t. py_str (dget t ''id'')) out))))))"

section \<open>Creating\<close>

definition new_task :: "env \<Rightarrow> string \<Rightarrow> string \<Rightarrow> string \<Rightarrow> string \<Rightarrow> string \<Rightarrow> pyval" where
  "new_task v task_id title md complexity risk = seal_task (PyDict [(''schema'', PyInt 4), (''id'', PyStr task_id), (''title'', PyStr (strip title)),
     (''mode'', PyStr md), (''complexity'', PyStr complexity), (''risk'', PyStr risk), (''state'', PyStr ''CREATED''), (''revision'', PyInt 0),
     (''created'', PyStr (en_now v)), (''updated'', PyStr (en_now v)), (''precheck'', PyDict []), (''tdd'', empty_tdd), (''gates'', PyList []),
     (''risks'', PyList []), (''decisions'', PyList []), (''child_history'', PyList []), (''verification_evidence'', PyList []),
     (''verification_epoch'', PyNone), (''change_epoch'', PyInt 0), (''final_audit_complete'', PyBool False), (''active_child'', PyNone),
     (''previous_state'', PyNone), (''transitions'', PyList []), (''material_claim'', PyBool True), (''evidence_head'', PyNone),
     (''evidence_set_digest'', PyStr EMPTY_EVIDENCE_SET_DIGEST), (''implementation_digest'', PyNone), (''diff_digest'', PyNone),
     (''falsification'', PyNone), (''review_receipt'', PyNone)])"

text \<open>A mutation that writes JSON, and one that must find the destination as it is now.\<close>

definition new_file :: "path \<Rightarrow> string \<Rightarrow> mutation" where
  "new_file p b = \<lparr>mu_path = p, mu_data = Some b, mu_expected_sha256 = None, mu_expected_exists = Some False, mu_mode = Some 384\<rparr>"

definition over_file :: "path \<Rightarrow> string option \<Rightarrow> string \<Rightarrow> mutation" where
  "over_file p old b = \<lparr>mu_path = p, mu_data = Some b, mu_expected_sha256 = map_option sha256 old, mu_expected_exists = Some (old \<noteq> None), mu_mode = Some 384\<rparr>"

definition transact :: "env \<Rightarrow> string \<Rightarrow> mutation list \<Rightarrow> unit io" where
  "transact v name ms = io_bind (transaction_dir v) (\<lambda>sd.
     io_bind (run_transaction \<lparr>tx_root = en_root v, tx_state_dir = sd, tx_name = name, tx_uuid = en_tx v, tx_now = en_now v, tx_mutations = ms\<rparr> False) (\<lambda>_.
     io_return ()))"

definition create_body :: "env \<Rightarrow> string \<Rightarrow> string \<Rightarrow> string \<Rightarrow> string \<Rightarrow> string \<Rightarrow> pyval io" where
  "create_body v task_id title md complexity risk =
    io_bind (state_path v task_id) (\<lambda>p.
    io_bind (io_get (\<lambda>d. guard (\<not> exists d p) (RuntimeErr ''task id collision''))) (\<lambda>_.
    let task = new_task v task_id title md complexity risk; anchor = new_anchor task None in
    io_bind (current_path v) (\<lambda>cp.
    io_bind (io_get (\<lambda>d. read_bytes d cp)) (\<lambda>old.
    io_bind (anchor_path v task_id) (\<lambda>ap.
    io_bind (anchor_history_path v anchor) (\<lambda>hp.
    io_bind (transact v ''task-create'' [new_file p (json_text task), over_file cp old (task_id @ [newline]), new_file ap (json_text anchor),
      new_file hp (json_text anchor)]) (\<lambda>_.
    io_return task)))))))"

text \<open>The exception handler removes a directory of the task that is left empty.\<close>

definition create :: "env \<Rightarrow> string \<Rightarrow> string \<Rightarrow> string \<Rightarrow> string \<Rightarrow> pyval io" where
  "create v title md complexity risk =
    io_bind (io_res (check_all
      [guard (\<not> blank title) (ValueErr ''task title must not be empty''),
       guard (md \<in> set MODES \<and> complexity \<in> set COMPLEXITIES \<and> risk \<in> set RISKS) (ValueErr ''invalid task mode, complexity, or risk'')])) (\<lambda>_.
    io_bind (control_dir v runtime_dir) (\<lambda>_.
    io_bind (io_res (validate_task_id (PyStr (slug title @ ''-'' @ take 8 (en_uuid v))))) (\<lambda>task_id.
    io_bind (task_dir v task_id) (\<lambda>dir d. (case create_body v task_id title md complexity risk d of
        (d', Inl e) \<Rightarrow> (if is_dir d' dir \<and> names d' dir = [] then remove d' dir else d', Inl e)
      | x \<Rightarrow> x)))))"

section \<open>Saving\<close>

definition save_mutations :: "env \<Rightarrow> string \<Rightarrow> pyval \<Rightarrow> pyval \<Rightarrow> pyval \<Rightarrow> mutation list io" where
  "save_mutations v task_id upd prior anchor =
    io_bind (state_path v task_id) (\<lambda>sp.
    io_bind (anchor_path v task_id) (\<lambda>ap.
    io_bind (io_get (\<lambda>d. case node_at d sp of None \<Rightarrow> Inl FileNotFoundErr | Some _ \<Rightarrow> read_bytes d sp)) (\<lambda>old_state.
    io_bind (io_get (\<lambda>d. read_bytes d ap)) (\<lambda>old_anchor.
    io_bind (anchor_history_path v prior) (\<lambda>pp.
    io_bind (io_get (\<lambda>d. Inr (exists d pp))) (\<lambda>kept.
    io_bind (anchor_history_path v anchor) (\<lambda>hp.
    io_return ([over_file sp old_state (json_text upd), over_file ap old_anchor (json_text anchor)]
      @ (if kept then [] else [new_file pp (json_text prior)]) @ [new_file hp (json_text anchor)]))))))))"

definition save_locked :: "env \<Rightarrow> pyval \<Rightarrow> pyval \<Rightarrow> pyval \<Rightarrow> bool \<Rightarrow> pyval io" where
  "save_locked v current upd expected_revision evidence_locked =
    (let task_id = py_str (dget current ''id'') in
    io_bind (if evidence_locked then io_return () else acquire_lock v task_id) (\<lambda>_.
    io_bind (io_res (save_begin current upd expected_revision)) (\<lambda>(migrated, upd).
    io_bind (load_ledger v task_id) (\<lambda>records.
    io_bind (io_res (prepare_save (en_now v) records current migrated upd expected_revision)) (\<lambda>upd.
    io_bind (load_task_anchor v task_id (3 \<le> int_of_val (dget current ''schema''))) (\<lambda>found.
    let prior = (case found of None \<Rightarrow> new_anchor migrated None | Some a \<Rightarrow> a); anchor = new_anchor upd (Some prior) in
    io_bind (save_mutations v task_id upd prior anchor) (\<lambda>ms.
    io_bind (transact v ''task-state'' ms) (\<lambda>_.
    io_return upd))))))))"

text \<open>\<open>save\<close>, with the identity the store remembers for the object it is given.\<close>

definition save :: "env \<Rightarrow> pyval \<Rightarrow> string option \<Rightarrow> pyval \<Rightarrow> pyval \<Rightarrow> pyval io" where
  "save v workspace remembered task expected_revision = (case remembered of
      None \<Rightarrow> io_raise (RuntimeErr ''state object was not loaded by this store; storage identity is unknown'')
    | Some storage_id \<Rightarrow> if \<not> is_dict task then io_raise AttributeErr
        else if dget task ''id'' \<noteq> PyStr storage_id then io_raise (RuntimeErr ''task id mutation cannot redirect state storage'')
        else io_bind (acquire_lock v storage_id) (\<lambda>_.
          io_bind (load_unlocked v workspace storage_id False) (\<lambda>current.
          save_locked v current task expected_revision False)))"

text \<open>The guards of \<open>mutate\<close> on the loaded task.\<close>

definition mutable :: "int option \<Rightarrow> bool \<Rightarrow> pyval \<Rightarrow> unit res" where
  "mutable expected_revision allow_active_child current = check_all
    [guard (\<not> str_in (dget current ''state'') TERMINAL_STATES) (RuntimeErr ''terminal task state rejects further mutation''),
     guard (case expected_revision of None \<Rightarrow> True | Some n \<Rightarrow> py_eq (dget current ''revision'') (PyInt n)) (RuntimeErr ''stale task revision''),
     guard (allow_active_child \<or> \<not> truthy (dget current ''active_child'')) (RuntimeErr ''active child blocks canonical task mutation outside handoff control'')]"

text \<open>\<open>on_failure\<close> undoes an effect of the caller when the change or the save fails.\<close>

definition with_undo :: "unit io option \<Rightarrow> 'a io \<Rightarrow> 'a io" where
  "with_undo on_failure m d = (case m d of
      (d', Inr x) \<Rightarrow> (d', Inr x)
    | (d', Inl e) \<Rightarrow> (case on_failure of
        None \<Rightarrow> (d', Inl e)
      | Some undo \<Rightarrow> (case undo d' of
          (d'', Inl _) \<Rightarrow> (d'', Inl (RuntimeErr ''task mutation failed and its evidence side effect could not be rolled back''))
        | (d'', Inr _) \<Rightarrow> (d'', Inl e))))"

definition mutate :: "env \<Rightarrow> pyval \<Rightarrow> (pyval \<Rightarrow> pyval io) \<Rightarrow> string option \<Rightarrow> int option \<Rightarrow> bool \<Rightarrow> bool \<Rightarrow> unit io option \<Rightarrow> pyval io" where
  "mutate v workspace fn task_id expected_revision allow_active_child hold_evidence_lock on_failure =
    io_bind (chosen_id v task_id) (\<lambda>i.
    io_bind (acquire_lock v i) (\<lambda>_.
    io_bind (load_unlocked v workspace i hold_evidence_lock) (\<lambda>current.
    io_bind (io_res (mutable expected_revision allow_active_child current)) (\<lambda>_.
    with_undo on_failure (io_bind (fn current) (\<lambda>upd.
      save_locked v current upd (dget current ''revision'') hold_evidence_lock))))))"

definition change :: "env \<Rightarrow> pyval \<Rightarrow> (pyval \<Rightarrow> pyval io) \<Rightarrow> string \<Rightarrow> pyval io" where
  "change v workspace fn task_id = mutate v workspace fn (Some task_id) None False False None"

section \<open>The public operations\<close>

definition record_tdd_cycle :: "env \<Rightarrow> pyval \<Rightarrow> pyval \<Rightarrow> string option \<Rightarrow> pyval io" where
  "record_tdd_cycle v workspace cycle task_id =
    io_bind (io_res (validate_tdd_cycle cycle)) (\<lambda>_.
    io_bind (chosen_id v task_id) (\<lambda>i.
    if dget cycle ''task_id'' \<noteq> PyStr i then io_raise (AssuranceError ''TDD cycle belongs to another task'')
    else change v workspace (\<lambda>task. io_res (apply_tdd_cycle cycle task)) i))"

definition record_falsification :: "env \<Rightarrow> pyval \<Rightarrow> pyval \<Rightarrow> string option \<Rightarrow> pyval io" where
  "record_falsification v workspace receipt task_id = io_bind (chosen_id v task_id) (\<lambda>i.
     change v workspace (\<lambda>task. io_res (apply_falsification receipt i task)) i)"

definition record_review :: "env \<Rightarrow> pyval \<Rightarrow> pyval \<Rightarrow> string option \<Rightarrow> pyval io" where
  "record_review v workspace receipt task_id = io_bind (chosen_id v task_id) (\<lambda>i.
     change v workspace (\<lambda>task. io_res (apply_review receipt task)) i)"

definition check_lease :: "env \<Rightarrow> string \<Rightarrow> unit io" where
  "check_lease v message = io_bind (control_dir v leases_dir) (\<lambda>p. io_get (\<lambda>d.
     guard (\<not> truthy (dget (lease_inspect d (p @ [''subagent-lease.json''])) ''exists'')) (RuntimeErr message)))"

definition check_proofs :: "env \<Rightarrow> pyval \<Rightarrow> bool \<Rightarrow> unit io" where
  "check_proofs v task finalizing = io_bind (load_ledger v (py_str (dget task ''id''))) (\<lambda>records.
     io_res (validate_proofs (en_age v) records task finalizing))"

text \<open>Lines 1141--1195, with the two readings of the workspace.\<close>

definition apply_transition :: "env \<Rightarrow> pyval \<Rightarrow> pyval \<Rightarrow> string \<Rightarrow> string \<Rightarrow> pyval \<Rightarrow> pyval io" where
  "apply_transition v first second tgt reason task =
    io_bind (io_res (validate_transition task tgt (Some reason))) (\<lambda>_.
    io_bind (if tgt \<in> set [''FINAL_AUDIT'', ''FINALIZE'']
      then io_bind (check_lease v ''global subagent lease blocks final audit/finalization'') (\<lambda>_. check_proofs v task (tgt = ''FINALIZE''))
      else io_return ()) (\<lambda>_.
    io_bind (io_res (whenever (tgt = ''FINALIZE'') (check_workspace first second task))) (\<lambda>_.
    io_res (enter_state (en_now v) tgt reason task))))"

text \<open>The workspace is read when a finalized task is loaded, twice on the way to FINALIZE and once after.\<close>

definition transition :: "env \<Rightarrow> (nat \<Rightarrow> pyval) \<Rightarrow> string \<Rightarrow> string \<Rightarrow> string option \<Rightarrow> pyval io" where
  "transition v workspace tgt reason task_id =
    (let tgt = upper tgt in
     if blank reason then io_raise (ValueErr ''transition reason must not be empty'')
     else io_bind (chosen_id v task_id) (\<lambda>i.
       io_bind (load v (workspace 0) (Some i)) (\<lambda>existing.
       if dget existing ''state'' = PyStr tgt \<and> tgt = ''FINALIZE'' then io_return existing
       else io_bind (change v (workspace 0) (apply_transition v (workspace 1) (workspace 2) tgt reason) i) (\<lambda>upd.
         if tgt = ''FINALIZE'' then load v (workspace 3) (Some i) else io_return upd))))"

definition apply_audit :: "env \<Rightarrow> pyval \<Rightarrow> pyval \<Rightarrow> pyval io" where
  "apply_audit v fingerprint task =
    (if dget task ''state'' \<noteq> PyStr ''FINAL_AUDIT'' then io_raise (RuntimeErr ''audit-complete requires task state FINAL_AUDIT'')
     else io_bind (check_proofs v task False) (\<lambda>_.
       io_bind (check_lease v ''global subagent lease blocks final-audit completion'') (\<lambda>_.
       io_res (complete_audit fingerprint task))))"

definition audit_complete :: "env \<Rightarrow> (nat \<Rightarrow> pyval) \<Rightarrow> string option \<Rightarrow> pyval io" where
  "audit_complete v workspace task_id = io_bind (chosen_id v task_id) (\<lambda>i.
     change v (workspace 0) (apply_audit v (workspace 1)) i)"

end
