(* ===== verification/Stored_Tasks.thy ===== *)
theory Stored_Tasks
  imports Task_Rules
begin

text \<open>
  A task is written with sorted keys and read back as another dictionary with the same content. The
  schema check of \<open>agentinfra/state_store.py\<close> cannot tell them apart: \<open>validate_task\<close> answers the same
  for a task and for what a reader of the file gets.
\<close>

section \<open>Values up to the order of entries\<close>

lemma canon_kinds [simp]:
  "is_bool (canon v) = is_bool v" "is_pos_int (canon v) = is_pos_int v" "is_int (canon v) = is_int v"
  by (cases v; simp add: is_int_def)+

lemma canon_texts [simp]: "is_digest (canon v) = is_digest v" "is_id (canon v) = is_id v" "int_of_val (canon v) = int_of_val v"
  by (cases v; simp add: is_digest_def is_id_def int_of_val_def)+

lemma evidence_ref_canon [simp]: "evidence_ref (canon v) = evidence_ref v"
  by (simp add: evidence_ref_def)

lemma items_canon [simp]: "items (canon v) = map canon (items v)"
  by (cases v) (simp_all add: items_def)

lemma canon_membership [simp]: "memb (canon v) S e = memb v S e" "in_set (canon v) S = in_set v S"
  "memb_or_none (canon v) S e = memb_or_none v S e"
  by (simp_all add: memb_def in_set_def memb_or_none_def)

lemma canon_checks [simp]: "attr_dict (canon v) = attr_dict v" "require_digest (canon v) = require_digest v"
  by (simp_all add: attr_dict_def require_digest_def)

lemma validate_task_id_canon [simp]: "validate_task_id (canon v) = validate_task_id v"
  by (cases v) (simp_all add: validate_task_id_def)

lemma py_str_canon: "is_str v \<Longrightarrow> py_str (canon v) = py_str v"
  by (cases v) (simp_all add: is_str_def)

lemma null_or_canon [simp]: "(\<And>v. P (canon v) = P v) \<Longrightarrow> null_or P (canon v) = null_or P v"
  by (simp add: null_or_def)

lemma wf_item: "wf_val v \<Longrightarrow> x \<in> set (items v) \<Longrightarrow> wf_val x"
  by (cases v) (auto simp: wf_list items_def simp del: wf_val.simps)

lemma all_distinct_canon [simp]: "all_distinct (map canon xs) = all_distinct xs"
  by (induction xs) simp_all

lemma distinct_values_canon [simp]: "distinct_values (map canon xs) e = distinct_values xs e"
  by (simp add: distinct_values_def)

lemma for_each_canon:
  "(\<And>x. x \<in> set xs \<Longrightarrow> f (canon x) = g x) \<Longrightarrow> for_each f (map canon xs) = for_each g xs"
  by (induction xs) (auto split: sum.split)

lemma for_each_items_canon:
  assumes "wf_val v" and "\<And>x. wf_val x \<Longrightarrow> f (canon x) = f x"
  shows "for_each f (map canon (items v)) = for_each f (items v)"
  using assms wf_item by (intro for_each_canon) auto

lemma map_dict_canon:
  "(\<And>x. x \<in> set xs \<Longrightarrow> f (canon x) = canon (g x)) \<Longrightarrow> map_dict f (map canon xs) = (if \<forall>x \<in> set xs. is_dict x then Inr (map canon (map g xs)) else Inl AttributeErr)"
  by (auto simp: map_dict_def)

lemmas canon_rules = dget_canon wf_dget

section \<open>Cycles and receipts\<close>

lemma digest_canon [simp]: "cycle_digest (canon c) = cycle_digest c" "falsification_digest (canon c) = falsification_digest c"
  "review_digest (canon c) = review_digest c" "state_digest (canon c) = state_digest c"
  using digest_without_canon by (simp_all add: cycle_digest_def falsification_digest_def review_digest_def state_digest_def digest_without_def)

lemma check_event_canon: "wf_val e \<Longrightarrow> check_event (canon e) = check_event e"
  by (simp add: check_event_def canon_rules)

lemma valid_cycle_canon:
  assumes "wf_val c"
  shows "validate_tdd_cycle (canon c) = Inr () \<longleftrightarrow> validate_tdd_cycle c = Inr ()"
proof -
  let ?es = "items (dget c ''events'')"
  have ev: "for_each check_event (map canon ?es) = for_each check_event ?es"
    by (rule for_each_items_canon) (simp_all add: assms wf_dget check_event_canon)
  have hd: "dget (hd (map canon ?es)) ''status'' = canon (dget (hd ?es) ''status'')" "attr_dict (hd (map canon ?es)) = attr_dict (hd ?es)" if "?es \<noteq> []"
    using that wf_item [OF wf_dget [OF assms], of "hd ?es" "''events''"] by (simp_all add: hd_map dget_canon)
  show ?thesis
  proof (cases "?es = []")
    case True
    then show ?thesis by (simp add: validate_tdd_cycle_def check_all_Inr canon_rules assms)
  next
    case False
    then show ?thesis using hd by (simp add: validate_tdd_cycle_def check_all_Inr canon_rules assms ev)
  qed
qed

lemma text_list_canon: "text_list (canon v) = text_list v"
  by (simp add: text_list_def)

lemma falsification_canon:
  assumes "wf_val r"
  shows "validate_falsification_receipt (canon r) (canon i) c e d clean = validate_falsification_receipt r i c e d clean"
  using assms by (simp add: validate_falsification_receipt_def canon_rules text_list_canon bound_to_def)

lemma review_digest_of_canon:
  assumes "wf_val r"
  shows "(\<exists>x. review_receipt_digest (canon r) = Inr x) \<longleftrightarrow> (\<exists>x. review_receipt_digest r = Inr x)"
  using assms by (simp add: review_receipt_digest_def canon_rules)

section \<open>The sections of the schema check\<close>

lemma memb_unit: "memb v S e = Inr () \<longleftrightarrow> str_in v S"
  by (cases v) (simp_all add: memb_def unhashable_def)

lemma is_none_canon [simp]: "(canon v = PyNone) = (v = PyNone)"
  by (rule canon_atoms)

lemma has_key_canon_fun: "has_key (canon v) = has_key v"
  by (rule ext) simp

lemma header_canon:
  assumes "wf_val task"
  shows "check_header (canon task) i = Inr () \<longleftrightarrow> check_header task i = Inr ()"
  using assms by (simp add: check_header_def check_all_Inr canon_rules)

lemma cycle_canon:
  assumes "wf_val c"
  shows "check_cycle i (canon c) = Inr () \<longleftrightarrow> check_cycle i c = Inr ()"
proof -
  have "check_cycle i c = Inr () \<longleftrightarrow> validate_tdd_cycle c = Inr () \<and> dget c ''task_id'' = PyStr i" for c
    by (cases "validate_tdd_cycle c") (auto simp: check_cycle_def split: exn.splits)
  then show ?thesis using assms by (simp add: valid_cycle_canon dget_canon)
qed

lemma for_each_iff: "for_each f xs = Inr () \<longleftrightarrow> (\<forall>x \<in> set xs. f x = Inr ())"
  by (induction xs) (auto split: sum.split)

lemma dget_items_canon:
  assumes "wf_val v"
  shows "map (\<lambda>x. dget x k) (map canon (items v)) = map canon (map (\<lambda>x. dget x k) (items v))"
  using wf_item [OF assms] by (simp add: dget_canon)

lemma tdd_canon:
  assumes w: "wf_val task" and "is_str (dget task ''id'')"
  shows "check_tdd (canon task) = Inr () \<longleftrightarrow> check_tdd task = Inr ()"
proof -
  let ?t = "dget task ''tdd''" let ?cs = "items (dget ?t ''cycles'')"
  have wt: "wf_val ?t" "wf_val (dget ?t ''cycles'')" using w by (simp_all add: wf_dget)
  have ids: "map (\<lambda>c. dget c ''cycle_id'') (map canon ?cs) = map canon (map (\<lambda>c. dget c ''cycle_id'') ?cs)"
    by (rule dget_items_canon) (simp add: wt)
  have act: "(\<exists>c \<in> set (map canon ?cs). py_eq a (dget c ''cycle_id'')) \<longleftrightarrow> (\<exists>c \<in> set ?cs. py_eq a (dget c ''cycle_id''))" for a
    using wf_item [OF wt(2)] by (simp add: dget_canon)
  have cs: "for_each (check_cycle (py_str (dget task ''id''))) (map canon ?cs) = Inr () \<longleftrightarrow> for_each (check_cycle (py_str (dget task ''id''))) ?cs = Inr ()"
    using wf_item [OF wt(2)] cycle_canon by (auto simp: for_each_iff)
  have tdd: "dget (canon task) ''tdd'' = canon ?t" "dget (canon task) ''id'' = canon (dget task ''id'')" using w by (simp_all add: dget_canon)
  show ?thesis unfolding check_tdd_def tdd Let_def py_str_canon [OF assms(2)]
    by (simp only: whenever_Inr has_key_canon_fun check_all_Inr guard_Inr dget_canon [OF wt(1)] items_canon ids act cs
        is_dict_canon canon_membership all_distinct_canon canon_atoms null_or_canon canon_kinds canon_texts py_eq_canon)
qed

lemma receipts_canon:
  assumes w: "wf_val task"
  shows "check_receipts (canon task) = Inr () \<longleftrightarrow> check_receipts task = Inr ()"
proof -
  let ?f = "dget task ''falsification''" let ?r = "dget task ''review_receipt''"
  have wf: "wf_val ?f" "wf_val ?r" using w by (simp_all add: wf_dget)
  have r: "check_review_field x = Inr () \<longleftrightarrow> dget x ''review_receipt'' = PyNone \<or> (\<exists>d. review_receipt_digest (dget x ''review_receipt'') = Inr d)
      \<and> py_eq (dget (dget x ''review_receipt'') ''task_id'') (dget x ''id'')" for x
    unfolding check_review_field_def Let_def by (cases "review_receipt_digest (dget x ''review_receipt'')") (auto split: exn.splits)
  show ?thesis unfolding check_receipts_def check_all_Inr r
    by (simp only: whenever_Inr guard_Inr dget_canon [OF w] falsification_canon [OF wf(1)] canon_atoms null_or_canon canon_texts py_eq_canon
        review_digest_of_canon [OF wf(2)] dget_canon [OF wf(2)])
qed

lemma unique_ids_canon:
  assumes "wf_val v"
  shows "unique_ids (map canon (items v)) = unique_ids (items v)"
proof -
  let ?ids = "map (\<lambda>x. dget x ''id'') (items v)"
  have "map_dict (\<lambda>x. dget x ''id'') (map canon (items v)) = (if \<forall>x \<in> set (items v). is_dict x then Inr (map canon ?ids) else Inl AttributeErr)"
    by (rule map_dict_canon) (simp add: dget_canon wf_item [OF assms])
  then have "unique_ids (map canon (items v)) = res_bind (if \<forall>x \<in> set (items v). is_dict x then Inr (map canon ?ids) else Inl AttributeErr) (\<lambda>ids. check_all
     [guard (\<forall>i \<in> set ids. is_id i) (schema_error ''id must be canonical and bounded''), guard (all_distinct ids) (schema_error ''duplicate id'')])"
    by (simp only: unique_ids_def)
  moreover have "all_distinct (map canon ?ids) = all_distinct ?ids" by (rule all_distinct_canon)
  ultimately show ?thesis by (simp add: unique_ids_def map_dict_def)
qed

lemma handoff_id_canon: "wf_val h \<Longrightarrow> handoff_id (canon h) = canon (handoff_id h)"
  using dget_or_canon [of h "''handoff_id''" "dget h ''lease_id''"] by (simp add: handoff_id_def dget_canon)

lemma arrays_canon:
  assumes w: "wf_val task"
  shows "check_arrays (canon task) = Inr () \<longleftrightarrow> check_arrays task = Inr ()"
proof -
  have wd: "wf_val (dget task k)" for k using w by (rule wf_dget)
  let ?h = "items (dget task ''child_history'')"
  have "map_dict handoff_id (map canon ?h) = (if \<forall>x \<in> set ?h. is_dict x then Inr (map canon (map handoff_id ?h)) else Inl AttributeErr)"
    by (rule map_dict_canon) (simp add: handoff_id_canon wf_item [OF wd])
  then have h: "res_bind (map_dict handoff_id (map canon ?h)) (\<lambda>ids. distinct_values ids e) = res_bind (map_dict handoff_id ?h) (\<lambda>ids. distinct_values ids e)" for e
    by (simp only: map_dict_def [of handoff_id ?h]) (simp only: if_distrib [of "\<lambda>x. res_bind x f" for f] res_bind_simps distinct_values_canon)
  have r: "(\<forall>x \<in> set (map canon xs). evidence_ref x) = (\<forall>x \<in> set xs. evidence_ref x)" for xs by simp
  show ?thesis unfolding check_arrays_def check_all_Inr
    by (simp only: guard_Inr dget_canon [OF w] items_canon unique_ids_canon [OF wd] h r all_distinct_canon has_key_canon_fun canon_atoms canon_kinds null_or_canon canon_tests)
qed

lemma gate_evidence_canon:
  assumes "wf_val gate"
  shows "check_gate_evidence (canon gate) = Inr () \<longleftrightarrow> check_gate_evidence gate = Inr ()"
proof -
  have e: "dget_or (canon gate) ''evidence'' (PyList []) = canon (dget_or gate ''evidence'' (PyList []))"
    using dget_or_canon [OF assms, of "''evidence''" "PyList []"] by simp
  show ?thesis unfolding check_gate_evidence_def Let_def e
    by (simp add: check_all_Inr dget_canon [OF assms])
qed

lemma legacy_waiver_canon: "wf_val gate \<Longrightarrow> legacy_waiver_ok (canon gate) = legacy_waiver_ok gate"
  unfolding legacy_waiver_ok_def by (cases "dget gate ''waiver_authority''") (simp_all add: dget_canon)

lemma gate_canon:
  assumes w: "wf_val gate"
  shows "check_gate schema (canon gate) = Inr () \<longleftrightarrow> check_gate schema gate = Inr ()"
proof -
  have e: "dget_or (canon gate) ''severity'' (PyStr ''high'') = canon (dget_or gate ''severity'' (PyStr ''high''))"
    "dget_or (canon gate) ''created_revision'' (PyInt 0) = canon (dget_or gate ''created_revision'' (PyInt 0))"
    using dget_or_canon [OF w, of _ "PyStr ''high''"] dget_or_canon [OF w, of _ "PyInt 0"] by simp_all
  show ?thesis unfolding check_gate_def Let_def check_all_Inr e
    by (simp only: guard_Inr dget_canon [OF w] canon_membership canon_tests canon_atoms gate_evidence_canon [OF w] legacy_waiver_canon [OF w] evidence_ref_canon)
qed

lemma risk_canon: "wf_val risk \<Longrightarrow> check_risk (canon risk) = Inr () \<longleftrightarrow> check_risk risk = Inr ()"
  by (simp add: check_risk_def check_all_Inr dget_canon)

lemma handoff_canon:
  assumes w: "wf_val h"
  shows "check_handoff (canon h) = Inr () \<longleftrightarrow> check_handoff h = Inr ()"
proof -
  have e: "dget_or (canon h) ''evidence'' (PyList []) = canon (dget_or h ''evidence'' (PyList []))"
    using dget_or_canon [OF w, of "''evidence''" "PyList []"] by simp
  show ?thesis unfolding check_handoff_def check_all_Inr e by (simp add: dget_canon [OF w] handoff_id_canon [OF w])
qed

lemma decisions_canon:
  "(\<And>d. d \<in> set ds \<Longrightarrow> wf_val d) \<Longrightarrow> check_decisions (map canon seen) (map canon ds) = Inr () \<longleftrightarrow> check_decisions seen ds = Inr ()"
proof (induction ds arbitrary: seen)
  case (Cons d ds)
  have w: "wf_val d" using Cons.prems by simp
  have e: "dget_or (canon d) ''evidence'' (PyList []) = canon (dget_or d ''evidence'' (PyList []))"
    using dget_or_canon [OF w, of "''evidence''" "PyList []"] by simp
  have step: "check_decisions s (x # xs) = Inr () \<longleftrightarrow> is_text (dget x ''statement'') \<and> is_text (dget x ''rationale'') \<and> is_list (dget_or x ''evidence'' (PyList []))
      \<and> (dget x ''supersedes'' = PyNone \<or> \<not> unhashable (dget x ''supersedes'') \<and> (\<exists>i \<in> set s. py_eq (dget x ''supersedes'') i)) \<and> check_decisions (dget x ''id'' # s) xs = Inr ()" for s x xs
    by (auto simp: Let_def guard_def split: sum.splits if_splits)
  have "check_decisions (canon (dget d ''id'') # map canon seen) (map canon ds) = Inr () \<longleftrightarrow> check_decisions (dget d ''id'' # seen) ds = Inr ()"
    using Cons.IH [of "dget d ''id'' # seen"] Cons.prems by simp
  then show ?case by (simp add: step e dget_canon [OF w] del: check_decisions.simps)
qed simp

lemma brief_canon:
  assumes t: "wf_val task" and a: "wf_val active" and b: "wf_val brief"
  shows "check_brief (canon task) (canon active) (canon brief) = Inr () \<longleftrightarrow> check_brief task active brief = Inr ()"
proof -
  have "brief_fact_ok (canon x) = brief_fact_ok x" if "x \<in> set (items (dget brief ''evidence''))" for x
    using wf_item [OF wf_dget [OF b] that] by (simp add: brief_fact_ok_def dget_canon)
  then show ?thesis by (simp add: check_brief_def check_all_Inr dget_canon t a b)
qed

lemma active_child_canon:
  assumes w: "wf_val task"
  shows "check_active_child (canon task) = Inr () \<longleftrightarrow> check_active_child task = Inr ()"
proof -
  let ?a = "dget task ''active_child''"
  have a: "wf_val ?a" "wf_val (dget ?a ''context_brief'')" using w by (simp_all add: wf_dget)
  show ?thesis unfolding check_active_child_def Let_def dget_canon [OF w]
    by (simp only: whenever_Inr check_all_Inr guard_Inr dget_canon [OF a(1)] canon_atoms is_dict_canon canon_tests brief_canon [OF w a])
qed

lemma entry_canon:
  assumes w: "wf_val t"
  shows "check_entry schema p r (canon t) = Inr () \<longleftrightarrow> check_entry schema p r t = Inr ()"
  unfolding check_entry_def by (simp add: check_all_Inr dget_canon [OF w])

lemma history_canon:
  "(\<And>t. t \<in> set ts \<Longrightarrow> wf_val t) \<Longrightarrow> check_history schema p r (map canon ts) = Inr q \<longleftrightarrow> check_history schema p r ts = Inr q"
proof (induction ts arbitrary: p r)
  case (Cons t ts)
  have w: "wf_val t" using Cons.prems by simp
  have step: "check_history schema p r (x # xs) = Inr q \<longleftrightarrow> check_entry schema p r x = Inr ()
      \<and> check_history schema (py_str (dget x ''to'')) (if 3 \<le> schema then int_of_val (dget x ''revision'') else r) xs = Inr q" for x xs
    by (auto split: sum.splits)
  have str: "py_str (canon (dget t ''to'')) = py_str (dget t ''to'')" if "check_entry schema p r t = Inr ()"
  proof -
    have "is_str (dget t ''to'')" using that by (auto simp: check_entry_def check_all_Inr memb_unit str_in_def split: if_splits pyval.splits)
    then show ?thesis by (rule py_str_canon)
  qed
  show ?case using Cons.IH Cons.prems str by (auto simp: step entry_canon [OF w] dget_canon [OF w] simp del: check_history.simps)
qed simp

lemma transitions_canon:
  assumes w: "wf_val task"
  shows "check_transitions (canon task) = Inr () \<longleftrightarrow> check_transitions task = Inr ()"
proof -
  let ?ts = "items (dget task ''transitions'')"
  have h: "check_history s p r (map canon ?ts) = Inr q \<longleftrightarrow> check_history s p r ?ts = Inr q" for s p r q
    by (rule history_canon) (use wf_item [OF wf_dget [OF w]] in auto)
  have "check_transitions x = Inr () \<longleftrightarrow> (\<exists>q. check_history (int_of_val (dget x ''schema'')) ''CREATED'' (- 1) (items (dget x ''transitions'')) = Inr q
      \<and> (items (dget x ''transitions'') \<noteq> [] \<longrightarrow> dget x ''state'' = PyStr q)) \<and> (items (dget x ''transitions'') = [] \<longrightarrow> dget x ''state'' = PyStr ''CREATED'')" for x
    unfolding check_transitions_def by (cases "check_history (int_of_val (dget x ''schema'')) ''CREATED'' (- 1) (items (dget x ''transitions''))") (auto simp: check_all_Inr)
  then show ?thesis by (simp add: dget_canon [OF w] h)
qed

lemma each_canon:
  assumes "wf_val v" and "\<And>x. wf_val x \<Longrightarrow> f (canon x) = Inr () \<longleftrightarrow> f x = Inr ()"
  shows "for_each f (map canon (items v)) = Inr () \<longleftrightarrow> for_each f (items v) = Inr ()"
  using assms(2) wf_item [OF assms(1)] by (simp add: for_each_iff)

lemma validate_task_canon:
  assumes w: "wf_val task"
  shows "validate_task (canon task) i = Inr () \<longleftrightarrow> validate_task task i = Inr ()"
proof -
  have wd: "wf_val (dget task k)" for k using w by (rule wf_dget)
  have id: "is_str (dget task ''id'')" if "check_header task i = Inr ()"
    using that by (cases "dget task ''id''") (auto simp: check_header_def check_all_Inr validate_task_id_def res_bind_Inr)
  have d: "check_decisions [] (map canon (items (dget task ''decisions''))) = Inr () \<longleftrightarrow> check_decisions [] (items (dget task ''decisions'')) = Inr ()"
    using decisions_canon [of "items (dget task ''decisions'')" "[]"] wf_item [OF wd] by simp
  have e: "check_header task i = Inr () \<and> check_tdd (canon task) = Inr () \<longleftrightarrow> check_header task i = Inr () \<and> check_tdd task = Inr ()"
    using tdd_canon [OF w id] by blast
  have gates: "for_each (check_gate n) (map canon (items (dget task k))) = Inr () \<longleftrightarrow> for_each (check_gate n) (items (dget task k)) = Inr ()" for n k
    by (rule each_canon [OF wd]) (rule gate_canon)
  have risks: "for_each check_risk (map canon (items (dget task k))) = Inr () \<longleftrightarrow> for_each check_risk (items (dget task k)) = Inr ()" for k
    by (rule each_canon [OF wd]) (rule risk_canon)
  have handoffs: "for_each check_handoff (map canon (items (dget task k))) = Inr () \<longleftrightarrow> for_each check_handoff (items (dget task k)) = Inr ()" for k
    by (rule each_canon [OF wd]) (rule handoff_canon)
  show ?thesis unfolding validate_task_def check_all_Inr conj_assoc [symmetric] header_canon [OF w] e
    unfolding receipts_canon [OF w] arrays_canon [OF w] active_child_canon [OF w] transitions_canon [OF w] dget_canon [OF w] items_canon canon_texts
      gates risks handoffs d digest_canon guard_Inr canon_atoms ..
qed

end
