(* ===== verification/Task_Store.thy ===== *)
theory Task_Store
  imports State_Store Stored_Tasks "HOL-Library.Multiset"
begin

text \<open>
  What \<open>StateStore\<close> promises, as a map from task identifiers to a task and the list of its anchors:
  loading reads that map, saving replaces one entry and appends one anchor, and nothing else on the
  disk changes. The map is related to the disk by \<open>stored\<close>; \<open>healthy\<close> says that the control
  directories are in place and no transaction is pending.
\<close>

section \<open>The files of a task\<close>

abbreviation state_file :: "string \<Rightarrow> path" where
  "state_file i \<equiv> tasks_dir @ [i, ''state.json'']"

abbreviation anchor_file :: "string \<Rightarrow> path" where
  "anchor_file i \<equiv> persistent_dir @ [''task-anchors'', i @ ''.json'']"

abbreviation history_dir :: "string \<Rightarrow> path" where
  "history_dir i \<equiv> persistent_dir @ [''task-anchor-history'', i]"

abbreviation transactions :: path where
  "transactions \<equiv> persistent_dir @ [''transactions'']"

definition control_dirs :: "path list" where
  "control_dirs = [runtime_dir, tasks_dir, leases_dir, persistent_dir @ [''task-anchors''], persistent_dir @ [''task-anchor-history''], transactions]"

definition dirs_to :: "disk \<Rightarrow> path \<Rightarrow> bool" where
  "dirs_to d p \<longleftrightarrow> (\<forall>q \<in> set (steps p). is_dir d q)"

definition healthy :: "env \<Rightarrow> disk \<Rightarrow> bool" where
  "healthy v d \<longleftrightarrow> plain (en_root v) \<and> normal (en_root v) \<and> (\<forall>p \<in> set control_dirs. dirs_to d p) \<and> no_pending d transactions"

definition anchor_name :: "pyval \<Rightarrow> string" where
  "anchor_name a = history_name (int_of_val (dget a ''revision'')) (py_str (dget a ''anchor_sha256''))"

definition own_file :: "disk \<Rightarrow> path \<Rightarrow> string \<Rightarrow> bool" where
  "own_file d p b \<longleftrightarrow> (\<exists>i m. node_at d p = Some (File i m b) \<and> i \<notin> set (governing_file_identities d))"

text \<open>The anchors of a task: sealed, numbered from 0, each naming the one before.\<close>

definition good_anchor :: "string \<Rightarrow> int \<Rightarrow> pyval \<Rightarrow> bool" where
  "good_anchor i k a \<longleftrightarrow> wf_val a \<and> is_dict a \<and> dget a ''schema'' = PyInt 2 \<and> dget a ''task_id'' = PyStr i \<and> dget a ''revision'' = PyInt k
     \<and> dget a ''history_origin_revision'' = PyInt 0 \<and> dget a ''anchor_sha256'' = PyStr (anchor_digest a)"

definition anchor_chain :: "string \<Rightarrow> pyval list \<Rightarrow> bool" where
  "anchor_chain i as \<longleftrightarrow> as \<noteq> [] \<and> (\<forall>k < length as. good_anchor i (int k) (as ! k))
     \<and> (\<forall>k. Suc k < length as \<longrightarrow> dget (as ! Suc k) ''previous_anchor_sha256'' = dget (as ! k) ''anchor_sha256'')"

definition stored :: "disk \<Rightarrow> string \<Rightarrow> pyval \<Rightarrow> pyval list \<Rightarrow> bool" where
  "stored d i task as \<longleftrightarrow> task_id_ok i \<and> wf_val task \<and> validate_task task (Some i) = Inr () \<and> 3 \<le> int_of_val (dget task ''schema'')
     \<and> anchor_chain i as \<and> dget task ''revision'' = PyInt (int (length as) - 1)
     \<and> dget (last as) ''state_sha256'' = dget task ''integrity_sha256''
     \<and> is_dir d (tasks_dir @ [i]) \<and> own_file d (state_file i) (json_text task)
     \<and> own_file d (anchor_file i) (json_text (last as))
     \<and> is_dir d (history_dir i) \<and> (\<forall>a \<in> set as. own_file d (history_dir i @ [anchor_name a]) (json_text a))
     \<and> (\<forall>n. exists d (history_dir i @ [n]) \<longrightarrow> n \<in> anchor_name ` set as)"

section \<open>Paths\<close>

lemma id_chars:
  assumes "task_id_ok i"
  shows "i \<noteq> []" and "slash \<notin> set i" and "CHR ''.'' \<notin> set i"
proof -
  have "c \<noteq> slash \<and> c \<noteq> CHR ''.''" if "c \<in> set i" for c
    using assms that by (auto simp: task_id_ok_def list_all_iff slash_def id_char_def is_lower_def is_digit_def less_eq_char_def)
  then show "slash \<notin> set i" "CHR ''.'' \<notin> set i" by blast+
  show "i \<noteq> []" using assms by (simp add: task_id_ok_def)
qed

lemma task_id_valid: "task_id_ok i \<Longrightarrow> validate_task_id (PyStr i) = Inr i"
  by (simp add: validate_task_id_def)

lemma dirs_redirect: "dirs_to d p \<Longrightarrow> \<not> redirected d p"
  by (auto simp: dirs_to_def redirected_def is_path_redirect_def is_dir_def)

lemma plain_snoc: "plain (p @ [n]) \<longleftrightarrow> plain p \<and> n \<noteq> ''..''"
  by (auto simp: plain_def)

lemma confine_child:
  assumes "dirs_to d p" and "plain p" and "n \<noteq> ''..''" and "\<not> is_path_redirect d (p @ [n])" and "b \<longrightarrow> exists d (p @ [n])"
  shows "confine v (p @ [n]) b d = (d, Inr (p @ [n]))"
proof -
  have "\<not> redirected d (p @ [n])" using dirs_redirect [OF assms(1)] assms(4) by (auto simp: redirected_def steps_append)
  then show ?thesis using assms(2,3,5) by (simp add: confine_def confined_path_def plain_def)
qed

lemma confine_dir:
  assumes "dirs_to d p" and "plain p" and "p \<noteq> []"
  shows "confine v p b d = (d, Inr p)"
proof -
  have "exists d p" using assms(1,3) steps_self by (auto simp: dirs_to_def exists_def is_dir_def)
  then show ?thesis using dirs_redirect [OF assms(1)] assms(2,3) by (simp add: confine_def confined_path_def plain_def)
qed

lemma mkdir_present: "dirs_to d p \<Longrightarrow> mkdir_io p d = (d, Inr ())"
  by (simp add: mkdir_io_def mkdir_parents_def make_dirs_id dirs_to_def)

lemma control_plain: "p \<in> set control_dirs \<Longrightarrow> plain p \<and> p \<noteq> []"
  by (auto simp: control_dirs_def plain_def runtime_dir_def tasks_dir_def leases_dir_def persistent_dir_def aegis_dir_def)

lemma control_dir_ok: "healthy v d \<Longrightarrow> p \<in> set control_dirs \<Longrightarrow> control_dir v p d = (d, Inr p)"
  using control_plain [of p] by (simp add: control_dir_def confine_dir mkdir_present healthy_def)

lemma dirs_child: "dirs_to d p \<Longrightarrow> is_dir d (p @ [n]) \<Longrightarrow> dirs_to d (p @ [n])"
  by (auto simp: dirs_to_def steps_append)

lemma dirs_control: "healthy v d \<Longrightarrow> p \<in> set control_dirs \<Longrightarrow> dirs_to d p"
  by (simp add: healthy_def)

lemma bases [simp]:
  "runtime_dir \<in> set control_dirs" "tasks_dir \<in> set control_dirs" "leases_dir \<in> set control_dirs" "transactions \<in> set control_dirs"
  "persistent_dir @ [''task-anchors''] \<in> set control_dirs" "persistent_dir @ [''task-anchor-history''] \<in> set control_dirs"
  by (simp_all add: control_dirs_def)

lemma plain_bases [simp]:
  "plain runtime_dir" "plain tasks_dir" "plain (persistent_dir @ [''task-anchors''])" "plain (persistent_dir @ [''task-anchor-history''])"
  using control_plain by simp_all

lemma not_up: "task_id_ok i \<Longrightarrow> i \<noteq> ''..''" "i @ ''.json'' \<noteq> ''..''"
  using id_chars(3) [of i] by auto

lemma file_no_redirect: "own_file d p b \<Longrightarrow> \<not> is_path_redirect d p"
  by (auto simp: own_file_def is_path_redirect_def)

lemma own_file_read: "own_file d p b \<Longrightarrow> read d p = Some b" "own_file d p b \<Longrightarrow> exists d p" "own_file d p b \<Longrightarrow> is_file d p"
  by (auto simp: own_file_def read_def exists_def is_file_def)

lemma task_dir_ok:
  assumes "healthy v d" and "task_id_ok i" and "\<not> is_path_redirect d (tasks_dir @ [i])"
  shows "task_dir v i d = (d, Inr (tasks_dir @ [i]))"
  using assms control_dir_ok [OF assms(1), of tasks_dir] confine_child [OF dirs_control [OF assms(1), of tasks_dir], of i False v]
  by (simp add: task_dir_def io_res_def task_id_valid not_up)

lemma state_path_ok:
  assumes "healthy v d" and "stored d i task as"
  shows "state_path v i d = (d, Inr (state_file i))"
proof -
  have i: "task_id_ok i" and td: "is_dir d (tasks_dir @ [i])" and f: "own_file d (state_file i) (json_text task)" using assms(2) by (auto simp: stored_def)
  have "task_dir v i d = (d, Inr (tasks_dir @ [i]))" using assms(1) i td by (intro task_dir_ok) (auto simp: is_path_redirect_def is_dir_def)
  moreover have "confine v ((tasks_dir @ [i]) @ [''state.json'']) False d = (d, Inr ((tasks_dir @ [i]) @ [''state.json'']))"
  proof (rule confine_child)
    show "dirs_to d (tasks_dir @ [i])" using dirs_control [OF assms(1) bases(2)] td by (rule dirs_child)
    show "\<not> is_path_redirect d ((tasks_dir @ [i]) @ [''state.json''])" using file_no_redirect [OF f] by simp
  qed (use i not_up in \<open>simp_all add: plain_snoc\<close>)
  ultimately show ?thesis by (simp add: state_path_def)
qed

section \<open>Names of anchors\<close>

lemma pad_value: "digits_val (replicate k (CHR ''0'') @ s) = digits_val s"
  by (induction k) (simp_all add: digits_val_def digit_val_def)

lemma history_name_inj:
  assumes "history_name k x = history_name l y" and "0 \<le> k" and "0 \<le> l" and "length x = 64" and "length y = 64"
  shows "k = l \<and> x = y"
proof -
  let ?p = "\<lambda>k. replicate (20 - length (int_str k)) (CHR ''0'') @ int_str k"
  have n: "history_name j z = ?p j @ (''-'' @ z @ ''.json'')" for j z by (simp add: history_name_def Let_def)
  have "?p k = ?p l \<and> ''-'' @ x @ ''.json'' = ''-'' @ y @ ''.json''"
    using assms(1) unfolding n by (rule append_eq_append_conv [THEN iffD1, rotated]) (simp add: assms(4,5))
  then have e: "?p k = ?p l" "x = y" by simp_all
  have "digits_val (?p j) = nat j" if "0 \<le> j" for j
    using that nat_digits_val [of "nat j"] by (simp only: pad_value) (simp add: int_str_def)
  from this [OF assms(2)] this [OF assms(3)] show ?thesis using e assms(2,3) by simp
qed

lemma history_name_suffix: "json_suffix (history_name k x)"
proof -
  have "history_name k x = (replicate (20 - length (int_str k)) (CHR ''0'') @ int_str k @ ''-'' @ x) @ ''.json''" by (simp add: history_name_def Let_def)
  then show ?thesis by (simp add: json_suffix_def)
qed

lemma history_name_clean:
  assumes "slash \<notin> set x" and "0 \<le> k"
  shows "slash \<notin> set (history_name k x)" and "history_name k x \<noteq> ''..''" and "history_name k x \<noteq> []" and "history_name k x \<noteq> ''.''"
proof -
  have "set (int_str k) \<subseteq> {c. is_digit c}" using assms(2) nat_digits_all [of "nat k"] by (auto simp: int_str_def list_all_iff)
  then show "slash \<notin> set (history_name k x)" using assms(1) by (auto simp: history_name_def Let_def slash_def is_digit_def less_eq_char_def)
  have "length (history_name k x) \<noteq> 2" "length (history_name k x) \<noteq> 0" "length (history_name k x) \<noteq> 1" by (simp_all add: history_name_def Let_def)
  then show "history_name k x \<noteq> ''..''" "history_name k x \<noteq> []" "history_name k x \<noteq> ''.''" by auto
qed

section \<open>Loading the anchor\<close>

lemma anchor_digest_text: "length (anchor_digest a) = 64" "slash \<notin> set (anchor_digest a)"
proof -
  have "is_sha256 (anchor_digest a)" by (simp add: anchor_digest_def)
  then show "length (anchor_digest a) = 64" "slash \<notin> set (anchor_digest a)"
    by (auto simp: is_sha256_def list_all_iff slash_def is_hex_def is_digit_def less_eq_char_def)
qed

lemma good_anchor_name: "good_anchor i k a \<Longrightarrow> anchor_name a = history_name k (anchor_digest a)"
  by (simp add: good_anchor_def anchor_name_def int_of_val_def)

lemma good_anchor_canon: "good_anchor i k a \<Longrightarrow> dget (canon a) ''revision'' = PyInt k \<and> dget (canon a) ''anchor_sha256'' = PyStr (anchor_digest a)
    \<and> dget (canon a) ''task_id'' = PyStr i \<and> dget (canon a) ''schema'' = PyInt 2 \<and> dget (canon a) ''history_origin_revision'' = PyInt 0"
  by (simp add: good_anchor_def dget_canon)

lemma anchor_version_ok: "good_anchor i k a \<Longrightarrow> anchor_version (canon a) = Inr True"
  using good_anchor_canon [of i k a] by (simp add: anchor_version_def unhashable_def)

lemma history_entry_ok:
  assumes "good_anchor i k a" and "0 \<le> k" and "own_file d (dir @ [anchor_name a]) (json_text a)" and "dirs_to d dir" and "plain dir"
  shows "history_entry v dir i d (anchor_name a) = Inr (canon a)"
proof -
  have n: "anchor_name a = history_name k (anchor_digest a)" by (rule good_anchor_name [OF assms(1)])
  have c: "confined_path (en_root v) d (Rel (dir @ [anchor_name a])) True False = Inr (dir @ [anchor_name a])"
    using confine_child [OF assms(4,5), of "anchor_name a" True v] history_name_clean(2) [OF anchor_digest_text(2) assms(2)]
      file_no_redirect [OF assms(3)] own_file_read(2) [OF assms(3)] by (simp add: confine_def n)
  have "json_at d (dir @ [anchor_name a]) = Some (canon a)"
    using own_file_read(1) [OF assms(3)] assms(1) by (intro json_at_text) (simp_all add: good_anchor_def)
  then show ?thesis
    unfolding history_entry_def using c own_file_read(3) [OF assms(3)] history_name_suffix [of k "anchor_digest a"] anchor_version_ok [OF assms(1)]
      good_anchor_canon [OF assms(1)] assms(1,2) anchor_digest_text(1) [of a]
    by (simp add: n Let_def nonneg_def digest_text_def is_int_def int_of_val_def good_anchor_def)
qed

lemma chain_names_inj:
  assumes "anchor_chain i as"
  shows "inj_on anchor_name (set as)" and "distinct as"
proof -
  have g: "good_anchor i (int k) (as ! k)" if "k < length as" for k using assms that by (simp add: anchor_chain_def)
  have e: "k = l" if "k < length as" "l < length as" "anchor_name (as ! k) = anchor_name (as ! l)" for k l
  proof -
    have "history_name (int k) (anchor_digest (as ! k)) = history_name (int l) (anchor_digest (as ! l))"
      using that good_anchor_name [OF g [OF that(1)]] good_anchor_name [OF g [OF that(2)]] by simp
    then have "int k = int l" using history_name_inj [of "int k" _ "int l"] anchor_digest_text(1) by simp
    then show ?thesis by simp
  qed
  show "inj_on anchor_name (set as)" by (rule inj_onI) (metis e in_set_conv_nth)
  show "distinct as" unfolding distinct_conv_nth using e by metis
qed

lemma history_names:
  assumes "stored d i task as"
  shows "mset (names d (history_dir i)) = mset (map anchor_name as)"
proof -
  have c: "anchor_chain i as" using assms by (simp add: stored_def)
  have "set (names d (history_dir i)) = anchor_name ` set as"
    using assms own_file_read(2) unfolding stored_def by (auto simp: set_names)
  then show ?thesis using chain_names_inj [OF c] by (intro set_eq_iff_mset_eq_distinct [THEN iffD1]) (simp_all add: distinct_map)
qed

lemma map_res_all: "(\<And>x. x \<in> set xs \<Longrightarrow> f x = Inr (g x)) \<Longrightarrow> map_res f xs = Inr (map g xs)"
  by (induction xs) simp_all

text \<open>The files, in the order of their names, are the anchors in some order.\<close>

lemma history_found:
  assumes "healthy v d" and s: "stored d i task as"
  obtains found where "map_res (history_entry v (history_dir i) i d) (names d (history_dir i)) = Inr found" and "mset found = mset (map canon as)"
proof -
  have c: "anchor_chain i as" and h: "is_dir d (history_dir i)" and i: "task_id_ok i" using s by (auto simp: stored_def)
  have dt: "dirs_to d (history_dir i)" "plain (history_dir i)"
    using dirs_child [OF dirs_control [OF assms(1) bases(6)], of i] h not_up(1) [OF i] plain_snoc [of "persistent_dir @ [''task-anchor-history'']" i] by simp_all
  let ?g = "\<lambda>n. canon (the_inv_into (set as) anchor_name n)"
  have g: "?g (anchor_name a) = canon a" if "a \<in> set as" for a using the_inv_into_f_f [OF chain_names_inj(1) [OF c] that] by simp
  have "history_entry v (history_dir i) i d n = Inr (?g n)" if "n \<in> set (names d (history_dir i))" for n
  proof -
    have "n \<in> set (map anchor_name as)" using that mset_eq_setD [OF history_names [OF s]] by simp
    then obtain a where a: "a \<in> set as" "n = anchor_name a" by auto
    obtain k where k: "k < length as" "a = as ! k" using a(1) by (auto simp: in_set_conv_nth)
    have "good_anchor i (int k) a" using c k by (simp add: anchor_chain_def)
    then have "history_entry v (history_dir i) i d (anchor_name a) = Inr (canon a)"
      using s a(1) dt by (intro history_entry_ok) (auto simp: stored_def)
    then show ?thesis using g a by simp
  qed
  then have m: "map_res (history_entry v (history_dir i) i d) (names d (history_dir i)) = Inr (map ?g (names d (history_dir i)))" by (rule map_res_all)
  have "mset (map ?g (names d (history_dir i))) = mset (map ?g (map anchor_name as))" using history_names [OF s] by (simp only: mset_map)
  also have "map ?g (map anchor_name as) = map canon as" using g by simp
  finally show ?thesis using m by (intro that) auto
qed

lemma sort_key_distinct:
  assumes "mset xs = mset ys" and "sorted (map f ys)" and "distinct (map f ys)"
  shows "sort_key f xs = ys"
proof (rule properties_for_sort_key)
  show "mset ys = mset xs" using assms(1) by simp
  show "sorted (map f ys)" by (rule assms(2))
  fix y assume y: "y \<in> set ys"
  have inj: "inj_on f (set ys)" and d: "distinct ys" using assms(3) by (simp_all add: distinct_map)
  have s: "set xs = set ys" and dx: "distinct xs" using assms(1) d mset_eq_setD [OF assms(1)] mset_eq_imp_distinct_iff [OF assms(1)] by simp_all
  have one: "filter (\<lambda>x. f y = f x) zs = [y]" if z: "set zs = set ys" "distinct zs" for zs
  proof -
    have "set (filter (\<lambda>x. f y = f x) zs) = {y}" using y z(1) inj by (auto simp: inj_on_def)
    then show ?thesis using distinct_filter [OF z(2), of "\<lambda>x. f y = f x"] by (metis distinct_singleton set_eq_iff_mset_eq_distinct mset_single_iff_right mset.simps(1) mset.simps(2) empty_set list.simps(15))
  qed
  show "filter (\<lambda>x. f y = f x) ys = filter (\<lambda>x. f y = f x) xs" using one [OF refl d] one [OF s dx] by simp
qed

lemma chain_revisions:
  assumes "anchor_chain i as"
  shows "map (\<lambda>a. int_of_val (dget a ''revision'')) (map canon as) = [0..int (length as) - 1]"
proof (rule nth_equalityI)
  show "length (map (\<lambda>a. int_of_val (dget a ''revision'')) (map canon as)) = length [0..int (length as) - 1]" by simp
  fix k assume "k < length (map (\<lambda>a. int_of_val (dget a ''revision'')) (map canon as))"
  then have k: "k < length as" by simp
  then have "good_anchor i (int k) (as ! k)" using assms by (simp add: anchor_chain_def)
  then show "map (\<lambda>a. int_of_val (dget a ''revision'')) (map canon as) ! k = [0..int (length as) - 1] ! k"
    using k good_anchor_canon by (simp add: int_of_val_def)
qed

lemma chain_linked:
  assumes "anchor_chain i as"
  shows "chain_ok (map canon as)"
proof -
  have w: "wf_val (as ! k)" if "k < length as" for k using assms that by (simp add: anchor_chain_def good_anchor_def)
  have "dget (as ! Suc k) ''previous_anchor_sha256'' = dget (as ! k) ''anchor_sha256''" if "Suc k < length as" for k using assms that by (simp add: anchor_chain_def)
  then show ?thesis unfolding chain_ok_def list_all2_conv_all_nth using w by (auto simp: nth_tl nth_butlast dget_canon)
qed

lemma last_good: "anchor_chain i as \<Longrightarrow> good_anchor i (int (length as) - 1) (last as)"
  by (cases as rule: rev_cases) (auto simp: anchor_chain_def nth_append split: if_splits)

lemma history_ok_chain:
  assumes c: "anchor_chain i as" and "mset found = mset (map canon as)"
  shows "history_ok found (canon (last as)) = Inr ()"
proof -
  let ?f = "\<lambda>a. int_of_val (dget a ''revision'')"
  have s: "sort_key ?f found = map canon as"
    by (rule sort_key_distinct [OF assms(2)]) (simp_all only: chain_revisions [OF c] distinct_upto sorted_upto)
  have l: "last (map canon as) = canon (last as)" using c by (simp add: last_map anchor_chain_def)
  have k: "dget_or (canon (last as)) ''revision'' x = PyInt (int (length as) - 1)" "dget_or (canon (last as)) ''history_origin_revision'' x = PyInt 0" for x
    using good_anchor_canon [OF last_good [OF c]] dget_not_None_key [of "canon (last as)"] by (simp_all add: dget_or_key)
  show ?thesis unfolding history_ok_def Let_def s chain_revisions [OF c] l k
    using chain_linked [OF c] by (simp add: py_int_def number_def)
qed

lemma dirs_history:
  assumes "healthy v d" and "stored d i task as"
  shows "anchor_history_dir v i b d = (d, Inr (history_dir i))"
proof -
  have i: "task_id_ok i" and h: "is_dir d (history_dir i)" using assms(2) by (auto simp: stored_def)
  let ?b = "persistent_dir @ [''task-anchor-history'']"
  have e: "history_dir i = ?b @ [i]" by simp
  have "confine v (?b @ [i]) c d = (d, Inr (?b @ [i]))" for c
    by (rule confine_child) (use dirs_control [OF assms(1) bases(6)] not_up(1) [OF i] h in \<open>auto simp: is_path_redirect_def is_dir_def exists_def\<close>)
  moreover have "mkdir_one (?b @ [i]) d = (d, Inr ())" using h unfolding e by (simp add: mkdir_one_def)
  ultimately show ?thesis using control_dir_ok [OF assms(1) bases(6)] i by (simp add: anchor_history_dir_def io_res_def task_id_valid)
qed

lemma anchor_path_ok:
  assumes "healthy v d" and "task_id_ok i" and "\<not> is_path_redirect d (anchor_file i)"
  shows "anchor_path v i d = (d, Inr (anchor_file i))"
proof -
  let ?b = "persistent_dir @ [''task-anchors'']"
  have "confine v (?b @ [i @ ''.json'']) False d = (d, Inr (?b @ [i @ ''.json'']))"
    by (rule confine_child) (use dirs_control [OF assms(1) bases(5)] not_up assms(3) in auto)
  then show ?thesis using control_dir_ok [OF assms(1) bases(5)] assms(2) by (simp add: anchor_path_def io_res_def task_id_valid)
qed

lemma anchor_ok_good: "good_anchor i k a \<Longrightarrow> 0 \<le> k \<Longrightarrow> anchor_ok i (canon a) = Inr ()"
  using good_anchor_canon [of i k a] anchor_version_ok [of i k a] dget_not_None_key [of "canon a" "''revision''"]
  by (simp add: anchor_ok_def good_anchor_def nonneg_def is_int_def int_of_val_def py_int_def dget_or_key)

lemma load_task_anchor_ok:
  assumes "healthy v d" and s: "stored d i task as"
  shows "load_task_anchor v i b d = (d, Inr (Some (canon (last as))))"
proof -
  have i: "task_id_ok i" and f: "own_file d (anchor_file i) (json_text (last as))" and c: "anchor_chain i as" and h: "is_dir d (history_dir i)"
    using s by (auto simp: stored_def)
  have g: "good_anchor i (int (length as) - 1) (last as)" by (rule last_good [OF c])
  have ne: "as \<noteq> []" using c by (simp add: anchor_chain_def)
  have p: "anchor_path v i d = (d, Inr (anchor_file i))" using assms(1) i file_no_redirect [OF f] by (rule anchor_path_ok)
  have j: "json_at d (anchor_file i) = Some (canon (last as))" using own_file_read(1) [OF f] g by (intro json_at_text) (auto simp: good_anchor_def)
  obtain found where fd: "map_res (history_entry v (history_dir i) i d) (names d (history_dir i)) = Inr found" "mset found = mset (map canon as)"
    by (rule history_found [OF assms])
  have nn: "names d (history_dir i) \<noteq> []" using history_names [OF s] ne by auto
  have "validate_anchor_history v i (canon (last as)) d = (d, Inr ())"
    unfolding validate_anchor_history_def
    using dirs_history [OF assms] fd(1) history_ok_chain [OF c fd(2)] nn h by (simp add: exists_def is_dir_def Let_def)
  then show ?thesis unfolding load_task_anchor_def
    using p j own_file_read(2) [OF f] anchor_ok_good [OF g] ne by (cases as) (simp_all add: io_bind_def)
qed

lemma load_ok:
  assumes "healthy v d" and s: "stored d i task as" and "dget task ''state'' \<noteq> PyStr ''FINALIZE''"
  shows "load_unlocked v ws i b d = (d, Inr (canon task))"
proof -
  have w: "wf_val task" and val: "validate_task (canon task) (Some i) = Inr ()" and f: "own_file d (state_file i) (json_text task)" and c: "anchor_chain i as"
    using s validate_task_canon [of task "Some i"] by (auto simp: stored_def)
  have "json_at d (state_file i) = Some (canon task)" using own_file_read(1) [OF f] w by (rule json_at_text)
  then have r: "read_state (state_file i) d = Inr (canon task)" using f by (auto simp: read_state_def own_file_def)
  have g: "wf_val (last as)" "dget (last as) ''revision'' = PyInt (int (length as) - 1)" using last_good [OF c] by (auto simp: good_anchor_def)
  have "anchored (canon task) (canon (last as))" using s w g by (simp add: anchored_def dget_canon stored_def)
  then show ?thesis unfolding load_unlocked_def
    using state_path_ok [OF assms(1) s] r val load_task_anchor_ok [OF assms(1) s] assms(3) by (simp add: io_res_def dget_canon [OF w])
qed

section \<open>Preparing a save\<close>

lemma wf_set_defaults: "wf_val t \<Longrightarrow> \<forall>kv \<in> set kvs. wf_val (snd kv) \<Longrightarrow> wf_val (set_defaults t kvs)"
proof (induction kvs arbitrary: t)
  case (Cons kv kvs)
  have "wf_val (dsetdefault t (fst kv) (snd kv))" using Cons.prems by (simp add: dsetdefault_def wf_dset)
  then have "wf_val (set_defaults (dsetdefault t (fst kv) (snd kv)) kvs)" using Cons by simp
  then show ?case by (simp add: set_defaults_def split_def)
qed (simp add: set_defaults_def)

lemma prepare_save_props:
  assumes "prepare_save now records current migrated upd (PyInt n) = Inr u" and "wf_val upd" and "dget current ''id'' = PyStr i"
  shows "wf_val u" and "validate_task u (Some i) = Inr ()" and "dget u ''revision'' = PyInt (n + 1)"
proof -
  obtain u3 where r: "drop_stale_review current migrated (drop_stale_falsification current migrated (dset upd ''evidence_set_digest'' (PyStr (evidence_set_digest records)))) = Inr u3"
    and u: "stamp now (reopen_audit current u3) (PyInt n) = Inr u" and val: "validate_task u (Some (py_str (dget current ''id''))) = Inr ()"
    using assms(1) by (auto simp: prepare_save_def res_bind_Inr Let_def)
  show "validate_task u (Some i) = Inr ()" using val assms(3) by simp
  have "wf_val u3" using r assms(2)
    by (auto simp: drop_stale_review_def drop_stale_falsification_def res_bind_Inr intro!: wf_dset split: if_splits)
  then show "wf_val u" using u by (auto simp: stamp_def number_def seal_task_def reopen_audit_def intro!: wf_dset wf_dpop)
  show "dget u ''revision'' = PyInt (n + 1)" using u by (auto simp: stamp_def number_def seal_task_def)
qed

lemma validated_fields:
  assumes "validate_task u (Some i) = Inr ()"
  shows "dget u ''id'' = PyStr i" and "is_dict u" and "task_id_ok i"
proof -
  have h: "check_header u (Some i) = Inr ()" using assms by (simp add: validate_task_def check_all_Inr)
  then show "is_dict u" by (simp add: check_header_def check_all_Inr)
  show "dget u ''id'' = PyStr i" "task_id_ok i"
    using h by (cases "dget u ''id''"; auto simp: check_header_def check_all_Inr validate_task_id_def res_bind_Inr split: if_splits)+
qed

section \<open>The new anchor\<close>

lemma new_anchor_good:
  assumes "good_anchor i k p" and "dget u ''id'' = PyStr i" and "dget u ''revision'' = PyInt l" and "is_str (dget u ''integrity_sha256'')"
  shows "good_anchor i l (new_anchor u (Some (canon p)))"
    and "dget (new_anchor u (Some (canon p))) ''previous_anchor_sha256'' = dget p ''anchor_sha256''"
    and "dget (new_anchor u (Some (canon p))) ''state_sha256'' = dget u ''integrity_sha256''"
proof -
  have c: "dget_or (canon p) ''history_origin_revision'' x = PyInt 0" for x
    using good_anchor_canon [OF assms(1)] dget_not_None_key [of "canon p" "''history_origin_revision''"] by (simp add: dget_or_key)
  have w: "wf_val (dget u ''integrity_sha256'')" using assms(4) by (cases "dget u ''integrity_sha256''") (simp_all add: is_str_def)
  have s: "dget (canon p) ''anchor_sha256'' = PyStr (anchor_digest p)" "dget p ''anchor_sha256'' = PyStr (anchor_digest p)"
    using good_anchor_canon [OF assms(1)] assms(1) by (simp_all add: good_anchor_def)
  let ?a = "PyDict [(''schema'', PyInt 2), (''task_id'', PyStr i), (''revision'', PyInt l), (''state_sha256'', dget u ''integrity_sha256''),
       (''previous_anchor_sha256'', PyStr (anchor_digest p)), (''history_origin_revision'', PyInt 0)]"
  have a: "new_anchor u (Some (canon p)) = dset ?a ''anchor_sha256'' (PyStr (anchor_digest ?a))"
    by (simp add: new_anchor_def Let_def assms(2,3) s c)
  have "wf_val ?a" using w by simp
  then have "wf_val (new_anchor u (Some (canon p)))" unfolding a by (intro wf_dset) simp_all
  moreover have "anchor_digest (dset ?a ''anchor_sha256'' (PyStr (anchor_digest ?a))) = anchor_digest ?a" by (rule anchor_seal.digest_ignores_field)
  ultimately show "good_anchor i l (new_anchor u (Some (canon p)))" by (simp add: good_anchor_def a)
  show "dget (new_anchor u (Some (canon p))) ''previous_anchor_sha256'' = dget p ''anchor_sha256''"
    "dget (new_anchor u (Some (canon p))) ''state_sha256'' = dget u ''integrity_sha256''" by (simp_all add: a s)
qed

lemma chain_snoc:
  assumes "anchor_chain i as" and "good_anchor i (int (length as)) a" and "dget a ''previous_anchor_sha256'' = dget (last as) ''anchor_sha256''"
  shows "anchor_chain i (as @ [a])"
proof -
  have "dget ((as @ [a]) ! Suc k) ''previous_anchor_sha256'' = dget ((as @ [a]) ! k) ''anchor_sha256''" if "Suc k < length (as @ [a])" for k
  proof (cases "Suc k = length as")
    case True
    then have "as ! k = last as" using assms(1) by (cases as rule: rev_cases) (auto simp: nth_append anchor_chain_def)
    then show ?thesis using True assms(3) by (simp add: nth_append)
  next
    case False
    then show ?thesis using that assms(1) by (simp add: nth_append anchor_chain_def)
  qed
  then show ?thesis using assms(1,2) by (auto simp: anchor_chain_def nth_append less_Suc_eq)
qed

lemma new_name_fresh:
  assumes s: "stored d i task as" and "good_anchor i (int (length as)) a"
  shows "\<not> exists d (history_dir i @ [anchor_name a])"
proof
  assume "exists d (history_dir i @ [anchor_name a])"
  then obtain b where b: "b \<in> set as" "anchor_name a = anchor_name b" using s by (auto simp: stored_def)
  then obtain k where k: "k < length as" "b = as ! k" by (auto simp: in_set_conv_nth)
  have g: "good_anchor i (int k) b" using s k by (simp add: stored_def anchor_chain_def)
  have "int (length as) = int k"
    using history_name_inj [of "int (length as)" "anchor_digest a" "int k" "anchor_digest b"] good_anchor_name [OF assms(2)] good_anchor_name [OF g] b(2)
      anchor_digest_text(1) by simp
  then show False using k by simp
qed

section \<open>Targets\<close>

definition aegis_file :: "path \<Rightarrow> bool" where
  "aegis_file p \<longleftrightarrow> (\<exists>q n. p = ''.aegis'' # q @ [n] \<and> normal p \<and> plain p \<and> n \<noteq> ''AGENTS.md'')"

lemma aegis_file_props:
  assumes "aegis_file p"
  shows "p \<noteq> []" "plain p" "normal p" "\<not> under_agents p" "last p \<noteq> ''AGENTS.md''"
  using assms by (auto simp: aegis_file_def under_agents_def casefold_def lower_char_def Let_def)

lemma target_writable:
  assumes "aegis_file p" and "dirs_to d (butlast p)" and "node_at d p = None \<or> (\<exists>b. own_file d p b)"
  shows "writable d p"
  using aegis_file_props [OF assms(1)] assms(2,3) unfolding writable_def dirs_to_def is_dir_def own_file_def by auto

lemma last_not_agents: "x @ ''.json'' \<noteq> ''AGENTS.md''" for x :: string
proof
  assume "x @ ''.json'' = ''AGENTS.md''"
  then have "last (x @ ''.json'') = last ''AGENTS.md''" by simp
  then show False by simp
qed

lemma task_files:
  assumes "task_id_ok i"
  shows "aegis_file (state_file i)" and "aegis_file (anchor_file i)" and "butlast (state_file i) = tasks_dir @ [i]"
    and "butlast (anchor_file i) = persistent_dir @ [''task-anchors'']"
proof -
  have i: "i \<noteq> []" "slash \<notin> set i" "i \<noteq> ''..''" "i \<noteq> ''.''" "i @ ''.json'' \<noteq> ''..''" using id_chars [OF assms] not_up [of i] assms by auto
  show "aegis_file (state_file i)" "aegis_file (anchor_file i)" unfolding aegis_file_def
    by (rule exI [of _ "[''tasks'', i]"], rule exI [of _ "''state.json''"], use i in \<open>simp add: tasks_dir_def aegis_dir_def normal_def plain_def slash_def\<close>)
       (rule exI [of _ "[''state'', ''task-anchors'']"], rule exI [of _ "i @ ''.json''"], use i last_not_agents [of i] in \<open>simp add: persistent_dir_def aegis_dir_def normal_def plain_def slash_def\<close>)
qed (simp_all add: butlast_append)

lemma history_file:
  assumes "task_id_ok i" and "good_anchor i k a" and "0 \<le> k"
  shows "aegis_file (history_dir i @ [anchor_name a])"
proof -
  have i: "i \<noteq> []" "slash \<notin> set i" "i \<noteq> ''..''" "i \<noteq> ''.''" using id_chars [OF assms(1)] not_up [of i] assms(1) by auto
  have n: "anchor_name a = history_name k (anchor_digest a)" by (rule good_anchor_name [OF assms(2)])
  have c: "slash \<notin> set (anchor_name a)" "anchor_name a \<noteq> ''..''" "anchor_name a \<noteq> []" "anchor_name a \<noteq> ''.''" "anchor_name a \<noteq> ''AGENTS.md''"
    using history_name_clean [OF anchor_digest_text(2) assms(3), of a] last_not_agents by (simp_all add: n) (simp add: history_name_def Let_def)
  show ?thesis unfolding aegis_file_def
    by (rule exI [of _ "[''state'', ''task-anchor-history'', i]"], rule exI [of _ "anchor_name a"]) (use i c in \<open>simp add: persistent_dir_def aegis_dir_def normal_def plain_def slash_def\<close>)
qed

section \<open>A transaction of the store\<close>

definition store_tx :: "env \<Rightarrow> string \<Rightarrow> mutation list \<Rightarrow> tx" where
  "store_tx v name ms = \<lparr>tx_root = en_root v, tx_state_dir = transactions, tx_name = name, tx_uuid = en_tx v, tx_now = en_now v, tx_mutations = ms\<rparr>"

definition fresh_tx :: "env \<Rightarrow> string \<Rightarrow> disk \<Rightarrow> bool" where
  "fresh_tx v name d \<longleftrightarrow> \<not> exists d (transactions @ [name @ ''-'' @ en_tx v]) \<and> (\<forall>n. \<not> exists d (transactions @ [name @ ''-'' @ en_tx v, n]))"

definition independent :: "path list \<Rightarrow> bool" where
  "independent ps \<longleftrightarrow> distinct ps \<and> (\<forall>p \<in> set ps. \<not> prefix transactions p \<and> \<not> prefix p transactions \<and> (\<forall>q \<in> set ps. \<not> strict_prefix p q))"

lemma store_tx_sel [simp]:
  "tx_root (store_tx v name ms) = en_root v" "tx_state_dir (store_tx v name ms) = transactions" "tx_mutations (store_tx v name ms) = ms"
  "tx_id (store_tx v name ms) = name @ ''-'' @ en_tx v" "tx_dir (store_tx v name ms) = transactions @ [name @ ''-'' @ en_tx v]"
  by (simp_all add: store_tx_def tx_id_def tx_dir_def)

lemma dash_not_up: "x @ CHR ''-'' # y \<noteq> ''..''"
proof
  assume "x @ CHR ''-'' # y = ''..''"
  then have "CHR ''-'' \<in> set ''..''" by (metis in_set_conv_decomp)
  then show False by simp
qed

lemma transact_ok:
  assumes h: "healthy v d" and fr: "fresh_tx v name d" and "ms \<noteq> []" and ms: "\<forall>m \<in> set ms. aegis_file (mu_path m) \<and> writable d (mu_path m) \<and> as_expected d m"
    and ind: "independent (map mu_path ms)"
  shows "\<exists>d'. transact v name ms d = (d', Inr ()) \<and> read d' = tx_final (store_tx v name ms) d \<and> settled (store_tx v name ms) d d'"
proof -
  let ?t = "store_tx v name ms"
  have tp: "plain transactions" "transactions \<noteq> []" "\<not> under_agents transactions" "last transactions \<noteq> ''AGENTS.md''"
    by (simp_all add: plain_def persistent_dir_def aegis_dir_def under_agents_def)
  have "tx_wf ?t" unfolding tx_wf_def
    using h ind ms aegis_file_props tp dash_not_up by (auto simp: healthy_def independent_def)
  then have "tx_ready ?t d" using h fr ms dirs_control [OF h bases(4)] by (auto simp: tx_ready_def healthy_def fresh_tx_def dirs_to_def)
  then obtain d' j' where "run_transaction ?t False d = (d', Inr j')" "read d' = tx_final ?t d" "settled ?t d d'"
    using run_transaction_ok [of ?t d] ms assms(3) tp(4) by auto
  then show ?thesis using control_dir_ok [OF h bases(4)] by (simp add: transact_def transaction_dir_def store_tx_def)
qed

lemma settled_own:
  assumes "settled t d d'" and "p \<in> set (tx_paths t)" and "read d' p = Some b"
  shows "own_file d' p b"
proof -
  have "writable d' p" using assms(1,2) by (auto simp: settled_def)
  then have "node_at d' p = None \<or> (\<exists>i m b. node_at d' p = Some (File i m b) \<and> i \<notin> set (governing_file_identities d'))" by (simp add: writable_def)
  then show ?thesis using assms(3) by (auto simp: own_file_def read_def)
qed

lemma settled_other:
  assumes "settled t d d'" and "\<not> touched t p"
  shows "node_at d' p = node_at d p" and "own_file d' p b = own_file d p b" and "is_dir d' p = is_dir d p" and "exists d' p = exists d p"
  using assms by (auto simp: settled_def beside_def own_file_def is_dir_def exists_def)

lemma settled_dir:
  assumes "settled t d d'" and "is_dir d q" and "q \<notin> set (tx_paths t)" and "q \<noteq> journal_path t" and "q \<noteq> tx_dir t"
  shows "is_dir d' q"
  using assms by (auto simp: settled_def beside_def)

lemma settled_healthy:
  assumes "healthy v d" and "settled (store_tx v name ms) d d'" and "\<forall>m \<in> set ms. aegis_file (mu_path m) \<and> (\<exists>b. mu_data m = Some b)"
    and "\<forall>m \<in> set ms. \<forall>p \<in> set control_dirs. \<not> prefix (mu_path m) p"
  shows "healthy v d'"
proof -
  have "is_dir d' q" if p: "p \<in> set control_dirs" and q: "q \<in> set (steps p)" for p q
  proof (rule settled_dir [OF assms(2)])
    show "is_dir d q" using assms(1) p q by (auto simp: healthy_def dirs_to_def)
    have pq: "prefix q p" using q by (simp add: steps_iff)
    then show "q \<notin> set (tx_paths (store_tx v name ms))" using assms(4) p by auto
    have "length p \<le> 3" using p by (auto simp: control_dirs_def runtime_dir_def tasks_dir_def leases_dir_def persistent_dir_def aegis_dir_def)
    then have "length q \<le> 3" using prefix_length_le [OF pq] by simp
    then show "q \<noteq> journal_path (store_tx v name ms)" "q \<noteq> tx_dir (store_tx v name ms)"
      by (auto simp: journal_path_def persistent_dir_def aegis_dir_def)
  qed
  then show ?thesis using assms(1,2) by (simp add: healthy_def dirs_to_def settled_def)
qed

section \<open>Saving\<close>

lemma anchor_history_path_ok:
  assumes h: "healthy v d" and s: "stored d i task as" and "dget x ''revision'' = PyInt k" and "0 \<le> k" and "dget x ''anchor_sha256'' = PyStr (anchor_digest y)"
    and "dget x ''task_id'' = PyStr i" and "\<not> is_path_redirect d (history_dir i @ [history_name k (anchor_digest y)])"
  shows "anchor_history_path v x d = (d, Inr (history_dir i @ [history_name k (anchor_digest y)]))"
proof -
  have i: "task_id_ok i" and hd: "is_dir d (history_dir i)" using s by (auto simp: stored_def)
  have "dirs_to d (history_dir i)" "plain (history_dir i)"
    using dirs_child [OF dirs_control [OF h bases(6)], of i] hd not_up(1) [OF i] plain_snoc [of "persistent_dir @ [''task-anchor-history'']" i] by simp_all
  then have "confine v (history_dir i @ [history_name k (anchor_digest y)]) False d = (d, Inr (history_dir i @ [history_name k (anchor_digest y)]))"
    using history_name_clean(2) [OF anchor_digest_text(2) assms(4), of y] assms(7) by (intro confine_child) simp_all
  then show ?thesis unfolding anchor_history_path_def
    using assms(3-6) anchor_digest_text(1) [of y] dirs_history [OF h s] by (simp add: Let_def nonneg_def digest_text_def is_int_def int_of_val_def)
qed

definition saved_files :: "string \<Rightarrow> pyval \<Rightarrow> pyval list \<Rightarrow> pyval \<Rightarrow> pyval \<Rightarrow> mutation list" where
  "saved_files i task as u a = [over_file (state_file i) (Some (json_text task)) (json_text u), over_file (anchor_file i) (Some (json_text (last as))) (json_text a),
     new_file (history_dir i @ [anchor_name a]) (json_text a)]"

lemma save_mutations_ok:
  assumes h: "healthy v d" and s: "stored d i task as" and g: "good_anchor i (int (length as)) a"
  shows "save_mutations v i u (canon (last as)) a d = (d, Inr (saved_files i task as u a))"
proof -
  have i: "task_id_ok i" and c: "anchor_chain i as" and sf: "own_file d (state_file i) (json_text task)" and af: "own_file d (anchor_file i) (json_text (last as))"
    using s by (auto simp: stored_def)
  have lg: "good_anchor i (int (length as) - 1) (last as)" and ne: "as \<noteq> []" using last_good [OF c] c by (auto simp: anchor_chain_def)
  have lf: "own_file d (history_dir i @ [anchor_name (last as)]) (json_text (last as))" using s ne by (auto simp: stored_def)
  have n: "anchor_name (last as) = history_name (int (length as) - 1) (anchor_digest (last as))" "anchor_name a = history_name (int (length as)) (anchor_digest a)"
    using good_anchor_name [OF lg] good_anchor_name [OF g] by simp_all
  have new: "\<not> exists d (history_dir i @ [anchor_name a])" by (rule new_name_fresh [OF s g])
  have pp: "anchor_history_path v (canon (last as)) d = (d, Inr (history_dir i @ [anchor_name (last as)]))"
    unfolding n by (rule anchor_history_path_ok [OF h s]) (use good_anchor_canon [OF lg] ne file_no_redirect [OF lf] in \<open>auto simp: n Suc_le_eq\<close>)
  have hp: "anchor_history_path v a d = (d, Inr (history_dir i @ [anchor_name a]))"
    unfolding n by (rule anchor_history_path_ok [OF h s]) (use g new in \<open>auto simp: n good_anchor_def is_path_redirect_def exists_def split: option.splits node.splits\<close>)
  have "read_bytes d (state_file i) = Inr (Some (json_text task))" "read_bytes d (anchor_file i) = Inr (Some (json_text (last as)))" "node_at d (state_file i) \<noteq> None"
    using sf af by (auto simp: read_bytes_def own_file_def)
  then show ?thesis unfolding save_mutations_def
    using state_path_ok [OF h s] anchor_path_ok [OF h i file_no_redirect [OF af]] pp hp own_file_read(2) [OF lf] by (auto simp: saved_files_def)
qed

lemma saved_paths: "map mu_path (saved_files i task as u a) = [state_file i, anchor_file i, history_dir i @ [anchor_name a]]"
  by (simp add: saved_files_def over_file_def new_file_def)

lemma saved_independent: "independent (map mu_path (saved_files i task as u a))"
  by (simp add: saved_paths independent_def tasks_dir_def persistent_dir_def aegis_dir_def strict_prefix_def)

lemma saved_touched:
  assumes "t = store_tx v name (saved_files i task as u a)"
  shows "touched t q \<longleftrightarrow> prefix q (state_file i) \<or> prefix q (anchor_file i) \<or> prefix q (history_dir i @ [anchor_name a])
    \<or> prefix q (journal_path t) \<or> prefix (tx_dir t) q"
  by (simp add: touched_def assms saved_paths [unfolded list.map_comp] saved_files_def over_file_def new_file_def)

lemma save_transaction:
  assumes h: "healthy v d" and s: "stored d i task as" and g: "good_anchor i (int (length as)) a" and fr: "fresh_tx v ''task-state'' d"
  shows "\<exists>d'. transact v ''task-state'' (saved_files i task as u a) d = (d', Inr ()) \<and> settled (store_tx v ''task-state'' (saved_files i task as u a)) d d'
    \<and> read d' (state_file i) = Some (json_text u) \<and> read d' (anchor_file i) = Some (json_text a) \<and> read d' (history_dir i @ [anchor_name a]) = Some (json_text a)"
proof -
  let ?ms = "saved_files i task as u a"
  have i: "task_id_ok i" and hd: "is_dir d (history_dir i)" and td: "is_dir d (tasks_dir @ [i])" and sf: "own_file d (state_file i) (json_text task)"
    and af: "own_file d (anchor_file i) (json_text (last as))" using s by (auto simp: stored_def)
  have new: "node_at d (history_dir i @ [anchor_name a]) = None" using new_name_fresh [OF s g] by (simp add: exists_def)
  have w: "writable d (state_file i)" "writable d (anchor_file i)" "writable d (history_dir i @ [anchor_name a])"
    using task_files [OF i] history_file [OF i g] sf af new dirs_child [OF dirs_control [OF h bases(2)] td] dirs_control [OF h bases(5)]
      dirs_child [OF dirs_control [OF h bases(6)], of i] hd by (auto intro!: target_writable simp: butlast_append)
  have e: "\<forall>m \<in> set ?ms. as_expected d m"
    using own_file_read(1) [OF sf] own_file_read(1) [OF af] new by (auto simp: saved_files_def over_file_def new_file_def as_expected_def read_def)
  have "\<forall>m \<in> set ?ms. aegis_file (mu_path m) \<and> writable d (mu_path m) \<and> as_expected d m"
    using e w task_files(1,2) [OF i] history_file [OF i g] by (auto simp: saved_files_def over_file_def new_file_def)
  then obtain d' where d': "transact v ''task-state'' ?ms d = (d', Inr ())" "read d' = tx_final (store_tx v ''task-state'' ?ms) d" "settled (store_tx v ''task-state'' ?ms) d d'"
    using transact_ok [OF h fr, of ?ms] saved_independent by (auto simp: saved_files_def)
  have "read d' (state_file i) = Some (json_text u)" "read d' (anchor_file i) = Some (json_text a)" "read d' (history_dir i @ [anchor_name a]) = Some (json_text a)"
    by (simp_all add: d'(2) tx_final_def saved_files_def over_file_def new_file_def tasks_dir_def persistent_dir_def aegis_dir_def)
  then show ?thesis using d'(1,3) by blast
qed

text \<open>Paths of tasks and the places a save of task \<open>i\<close> touches.\<close>

lemmas path_defs = tasks_dir_def persistent_dir_def aegis_dir_def runtime_dir_def journal_path_def

lemma untouched_history:
  assumes "t = store_tx v name (saved_files i task as u a)" and "j \<noteq> i \<or> n \<noteq> anchor_name a"
  shows "\<not> touched t (history_dir j @ [n])"
  unfolding saved_touched [OF assms(1)] using assms(2) by (auto simp: assms(1) path_defs)

lemma untouched_other:
  assumes "t = store_tx v name (saved_files i task as u a)" and "j \<noteq> i"
  shows "\<not> touched t (state_file j)" and "\<not> touched t (anchor_file j)" and "\<not> touched t (history_dir j)" and "\<not> touched t (tasks_dir @ [j])"
  unfolding saved_touched [OF assms(1)] using assms(2) by (auto simp: assms(1) path_defs)

lemma saved_dirs:
  assumes "settled t d d'" and "t = store_tx v name (saved_files i task as u a)" and "is_dir d q" and "q = tasks_dir @ [i] \<or> q = history_dir i"
  shows "is_dir d' q"
  by (rule settled_dir [OF assms(1,3)]) (use assms(2,4) in \<open>auto simp: saved_files_def over_file_def new_file_def path_defs\<close>)

lemma saved_stored:
  assumes s: "stored d i task as" and g: "good_anchor i (int (length as)) a" and l: "dget a ''previous_anchor_sha256'' = dget (last as) ''anchor_sha256''"
    and sd: "settled t d d'" and t: "t = store_tx v name (saved_files i task as u a)"
    and r: "read d' (state_file i) = Some (json_text u)" "read d' (anchor_file i) = Some (json_text a)" "read d' (history_dir i @ [anchor_name a]) = Some (json_text a)"
    and u: "wf_val u" "validate_task u (Some i) = Inr ()" "3 \<le> int_of_val (dget u ''schema'')" "dget u ''revision'' = PyInt (int (length as))"
      "dget a ''state_sha256'' = dget u ''integrity_sha256''"
  shows "stored d' i u (as @ [a])"
proof -
  have p: "set (tx_paths t) = {state_file i, anchor_file i, history_dir i @ [anchor_name a]}" by (simp add: t saved_files_def over_file_def new_file_def)
  have f: "own_file d' (state_file i) (json_text u)" "own_file d' (anchor_file i) (json_text a)" "own_file d' (history_dir i @ [anchor_name a]) (json_text a)"
    using settled_own [OF sd] r p by simp_all
  have c: "anchor_chain i (as @ [a])" using chain_snoc [OF _ g l] s by (simp add: stored_def)
  have o: "own_file d' (history_dir i @ [anchor_name b]) (json_text b)" if b: "b \<in> set as" for b
  proof -
    have "b \<noteq> a" using chain_names_inj(2) [OF c] b by auto
    then have "anchor_name b \<noteq> anchor_name a" using inj_on_eq_iff [OF chain_names_inj(1) [OF c], of b a] b by simp
    then have "\<not> touched t (history_dir i @ [anchor_name b])" by (intro untouched_history [OF t]) simp
    then show ?thesis using settled_other(2) [OF sd] s b by (auto simp: stored_def)
  qed
  have e: "n \<in> anchor_name ` set (as @ [a])" if x: "exists d' (history_dir i @ [n])" for n
  proof (cases "n = anchor_name a")
    case False
    then have "exists d (history_dir i @ [n])" using settled_other(4) [OF sd untouched_history [OF t, of i n]] x by simp
    then show ?thesis using s by (auto simp: stored_def)
  qed simp
  have "is_dir d' (tasks_dir @ [i])" "is_dir d' (history_dir i)" using saved_dirs [OF sd t] s by (auto simp: stored_def)
  then show ?thesis using f c o e u validated_fields(3) [OF u(2)] by (auto simp: stored_def)
qed

lemma stored_frame:
  assumes s: "stored d j task' bs" and sd: "settled t d d'" and t: "t = store_tx v name (saved_files i task as u a)" and "j \<noteq> i"
  shows "stored d' j task' bs"
proof -
  note n = settled_other [OF sd untouched_other(1) [OF t assms(4)]] settled_other [OF sd untouched_other(2) [OF t assms(4)]]
    settled_other [OF sd untouched_other(3) [OF t assms(4)]] settled_other [OF sd untouched_other(4) [OF t assms(4)]]
  have h: "own_file d' (history_dir j @ [x]) b = own_file d (history_dir j @ [x]) b" "exists d' (history_dir j @ [x]) = exists d (history_dir j @ [x])" for x b
    using settled_other [OF sd untouched_history [OF t, of j x]] assms(4) by simp_all
  show ?thesis using s unfolding stored_def n h .
qed

section \<open>What saving does\<close>

lemma acquire_ok:
  assumes "healthy v d" and "stored d i task as"
  shows "acquire_lock v i d = (d, Inr ())"
proof -
  have "task_id_ok i" "is_dir d (tasks_dir @ [i])" using assms(2) by (auto simp: stored_def)
  then show ?thesis using task_dir_ok [OF assms(1), of i] mkdir_present [OF dirs_child [OF dirs_control [OF assms(1) bases(2)], of i]]
    by (simp add: acquire_lock_def is_path_redirect_def is_dir_def)
qed

lemma saved_control: "m \<in> set (saved_files i task as u a) \<Longrightarrow> p \<in> set control_dirs \<Longrightarrow> \<not> prefix (mu_path m) p"
  by (auto simp: saved_files_def over_file_def new_file_def control_dirs_def leases_dir_def path_defs)

lemma save_locked_ok:
  assumes h: "healthy v d" and s: "stored d i task as" and fr: "fresh_tx v ''task-state'' d" and led: "load_ledger v i d = (d, Inr records)"
    and sb: "save_begin (canon task) upd (dget task ''revision'') = Inr (migrated, upd')" and wu: "wf_val upd'"
    and ps: "prepare_save (en_now v) records (canon task) migrated upd' (dget task ''revision'') = Inr u" and "3 \<le> int_of_val (dget u ''schema'')"
  shows "\<exists>d'. save_locked v (canon task) upd (dget task ''revision'') b d = (d', Inr u) \<and> healthy v d'
    \<and> stored d' i u (as @ [new_anchor u (Some (canon (last as)))]) \<and> (\<forall>j bs t. j \<noteq> i \<longrightarrow> stored d j t bs \<longrightarrow> stored d' j t bs)"
proof -
  let ?a = "new_anchor u (Some (canon (last as)))" and ?n = "int (length as) - 1"
  have c: "anchor_chain i as" and w: "wf_val task" and v: "validate_task task (Some i) = Inr ()" and rv: "dget task ''revision'' = PyInt ?n" and sc: "3 \<le> int_of_val (dget task ''schema'')"
    using s by (auto simp: stored_def)
  have id: "dget (canon task) ''id'' = PyStr i" using validated_fields(1) [OF v] by (simp add: dget_canon [OF w])
  note pp = prepare_save_props [OF ps [unfolded rv] wu id]
  have ui: "dget u ''id'' = PyStr i" by (rule validated_fields(1) [OF pp(2)])
  have us: "dget u ''integrity_sha256'' = PyStr (state_digest u)" using pp(2) assms(8) by (simp add: validate_task_def check_all_Inr)
  have ur: "dget u ''revision'' = PyInt (int (length as))" using pp(3) by simp
  note na = new_anchor_good [OF last_good [OF c] ui ur, unfolded us is_str_def, simplified]
  have sm: "save_mutations v i u (canon (last as)) ?a d = (d, Inr (saved_files i task as u ?a))" by (rule save_mutations_ok [OF h s na(1)])
  obtain d' where d': "transact v ''task-state'' (saved_files i task as u ?a) d = (d', Inr ())" "settled (store_tx v ''task-state'' (saved_files i task as u ?a)) d d'"
    "read d' (state_file i) = Some (json_text u)" "read d' (anchor_file i) = Some (json_text ?a)" "read d' (history_dir i @ [anchor_name ?a]) = Some (json_text ?a)"
    using save_transaction [OF h s na(1) fr, of u] by blast
  have "save_locked v (canon task) upd (dget task ''revision'') b d = (d', Inr u)"
    unfolding save_locked_def Let_def id
    using acquire_ok [OF h s] sb led ps load_task_anchor_ok [OF h s] sm d'(1) by (cases b) (simp_all add: io_res_def)
  moreover have "healthy v d'"
    by (rule settled_healthy [OF h d'(2)])
       (use saved_control task_files [OF validated_fields(3) [OF v]] history_file [OF validated_fields(3) [OF v] na(1)] in \<open>auto simp: saved_files_def over_file_def new_file_def\<close>)
  moreover have "stored d' i u (as @ [?a])"
    by (rule saved_stored [OF s na(1) na(2) d'(2) refl d'(3-5) pp(1,2) assms(8) ur]) (simp add: na(3) us)
  ultimately show ?thesis using stored_frame [OF _ d'(2) refl] by blast
qed

end
