(* ===== verification/Store_Laws.thy ===== *)
theory Store_Laws
  imports Task_Store
begin

text \<open>
  The operations of \<open>StateStore\<close> as functions of the stored task. On a healthy disk \<open>mutate\<close> either
  changes nothing and raises what \<open>mutated\<close> raises, or replaces the task by the value of \<open>mutated\<close> and
  extends its chain of anchors by one; the public operations are instances of it.
\<close>

section \<open>The ledger of a stored task\<close>

definition ledger_of :: "disk \<Rightarrow> string \<Rightarrow> pyval list res" where
  "ledger_of d i = (if is_dir d (tasks_dir @ [i, ''evidence.jsonl'']) then Inl (OSErr ''is a directory'')
     else load_evidence (evidence_at d (tasks_dir @ [i]) i) True)"

lemma stored_task_dir:
  assumes "healthy v d" and "stored d i task as"
  shows "task_dir v i d = (d, Inr (tasks_dir @ [i]))"
  using assms by (intro task_dir_ok) (auto simp: stored_def is_path_redirect_def is_dir_def)

lemma load_ledger_eq: "healthy v d \<Longrightarrow> stored d i task as \<Longrightarrow> load_ledger v i d = (d, ledger_of d i)"
  by (simp add: load_ledger_def stored_task_dir ledger_of_def io_get_def)

lemma io_res_apply: "io_res x d = (d, x)"
  by (simp add: io_res_def io_get_def)

lemma io_bind_res [simp]: "io_bind (io_res x) f d = (case x of Inl e \<Rightarrow> (d, Inl e) | Inr y \<Rightarrow> f y d)"
  by (simp add: io_bind_def io_res_apply split: sum.splits)

section \<open>The task after a change\<close>

text \<open>What \<open>_save_locked\<close> makes of a changed task, with the ledger it reads.\<close>

definition revised :: "string \<Rightarrow> pyval list res \<Rightarrow> pyval \<Rightarrow> pyval \<Rightarrow> pyval res" where
  "revised now ledger current upd = res_bind (save_begin current upd (dget current ''revision'')) (\<lambda>(migrated, upd').
     res_bind ledger (\<lambda>records. prepare_save now records current migrated upd' (dget current ''revision'')))"

text \<open>What \<open>load\<close> answers for a stored task: a finalized one is compared with its ledger and the workspace.\<close>

definition loaded :: "pyval \<Rightarrow> pyval list res \<Rightarrow> pyval \<Rightarrow> pyval res" where
  "loaded workspace ledger task = (if dget task ''state'' = PyStr ''FINALIZE''
     then res_bind ledger (\<lambda>records. res_bind (check_finalized workspace task records) (\<lambda>_. Inr task)) else Inr task)"

definition mutated :: "string \<Rightarrow> pyval \<Rightarrow> pyval list res \<Rightarrow> int option \<Rightarrow> bool \<Rightarrow> pyval res \<Rightarrow> pyval \<Rightarrow> pyval res" where
  "mutated now workspace ledger expected_revision allow_active_child changed current =
     res_bind (loaded workspace ledger current) (\<lambda>_. res_bind (mutable expected_revision allow_active_child current) (\<lambda>_.
     res_bind changed (revised now ledger current)))"

lemma wf_migrate_transitions: "migrate_transitions k e ts = Inr ts' \<Longrightarrow> \<forall>t \<in> set ts. wf_val t \<Longrightarrow> \<forall>t \<in> set ts'. wf_val t"
proof (induction ts arbitrary: k e ts')
  case (Cons t ts)
  then show ?case by (auto simp: res_bind_Inr Let_def dsetdefault_def split: if_splits intro!: wf_dset)
qed simp

lemma wf_seal_task: "wf_val t \<Longrightarrow> wf_val (seal_task t)"
  by (simp add: seal_task_def wf_dset)

lemma migrate_cases:
  assumes "migrate t = Inr u"
  obtains m2 m3 where "m2 = set_defaults (if py_eq (dget t ''schema'') (PyInt 4) then t else dset t ''schema'' (PyInt 4)) schema4_defaults"
    and "m3 = dset m2 ''tdd'' (set_defaults (dget m2 ''tdd'') (entries empty_tdd))"
    and "u = seal_task m3 \<or> (\<exists>ts ts'. dget_or m3 ''transitions'' (PyList []) = PyList ts \<and> migrate_transitions 1 0 ts = Inr ts' \<and> u = seal_task (dset m3 ''transitions'' (PyList ts')))"
proof -
  define m2 where "m2 = set_defaults (if py_eq (dget t ''schema'') (PyInt 4) then t else dset t ''schema'' (PyInt 4)) schema4_defaults"
  define m3 where "m3 = dset m2 ''tdd'' (set_defaults (dget m2 ''tdd'') (entries empty_tdd))"
  have "(case dget_or m3 ''transitions'' (PyList []) of
       PyList ts \<Rightarrow> res_bind (migrate_transitions 1 0 ts) (\<lambda>ts'.
         Inr (seal_task (if has_key m3 ''transitions'' then dset m3 ''transitions'' (PyList ts') else m3)))
     | v \<Rightarrow> res_bind (iter v) (\<lambda>xs. if xs = [] then Inr (seal_task m3) else Inl AttributeErr)) = Inr u"
    using assms unfolding migrate_def Let_def m2_def [symmetric] m3_def [symmetric] by (simp split: if_splits)
  then show ?thesis by (intro that [OF m2_def m3_def]) (auto simp: res_bind_Inr split: if_splits pyval.splits)
qed

lemma wf_migrate:
  assumes "migrate t = Inr u" and "wf_val t"
  shows "wf_val u"
proof -
  obtain m2 m3 where m: "m2 = set_defaults (if py_eq (dget t ''schema'') (PyInt 4) then t else dset t ''schema'' (PyInt 4)) schema4_defaults"
    "m3 = dset m2 ''tdd'' (set_defaults (dget m2 ''tdd'') (entries empty_tdd))"
    and u: "u = seal_task m3 \<or> (\<exists>ts ts'. dget_or m3 ''transitions'' (PyList []) = PyList ts \<and> migrate_transitions 1 0 ts = Inr ts' \<and> u = seal_task (dset m3 ''transitions'' (PyList ts')))"
    by (rule migrate_cases [OF assms(1)])
  have e: "\<forall>kv \<in> set (entries empty_tdd). wf_val (snd kv)" "\<forall>kv \<in> set schema4_defaults. wf_val (snd kv)" by (simp_all add: empty_tdd_def schema4_defaults_def)
  have "wf_val m2" unfolding m(1) using assms(2) e(2) by (intro wf_set_defaults) (simp_all add: wf_dset)
  then have m3: "wf_val m3" unfolding m(2) by (intro wf_dset wf_set_defaults wf_dget e(1))
  from u show ?thesis
  proof
    assume "\<exists>ts ts'. dget_or m3 ''transitions'' (PyList []) = PyList ts \<and> migrate_transitions 1 0 ts = Inr ts' \<and> u = seal_task (dset m3 ''transitions'' (PyList ts'))"
    then obtain ts ts' where t: "dget_or m3 ''transitions'' (PyList []) = PyList ts" "migrate_transitions 1 0 ts = Inr ts'" "u = seal_task (dset m3 ''transitions'' (PyList ts'))" by blast
    have "\<forall>x \<in> set ts. wf_val x" using wf_dget_or [OF m3, of "PyList []" "''transitions''"] t(1) by (simp add: list_all_iff)
    then have "wf_val (PyList ts')" using wf_migrate_transitions [OF t(2)] by (simp add: list_all_iff)
    then show ?thesis unfolding t(3) using m3 by (intro wf_seal_task wf_dset)
  qed (simp add: m3 wf_seal_task)
qed

lemma set_defaults_other: "k \<notin> fst ` set kvs \<Longrightarrow> dget (set_defaults t kvs) k = dget t k"
proof (induction kvs arbitrary: t)
  case (Cons kv kvs)
  then have "dget (set_defaults (dsetdefault t (fst kv) (snd kv)) kvs) k = dget t k" by (auto simp: dsetdefault_def)
  then show ?case by (simp add: set_defaults_def split_def)
qed (simp add: set_defaults_def)

lemma migrate_schema:
  assumes "migrate t = Inr u"
  shows "int_of_val (dget u ''schema'') = 4"
proof -
  obtain m2 m3 where m: "m2 = set_defaults (if py_eq (dget t ''schema'') (PyInt 4) then t else dset t ''schema'' (PyInt 4)) schema4_defaults"
    "m3 = dset m2 ''tdd'' (set_defaults (dget m2 ''tdd'') (entries empty_tdd))"
    and u: "u = seal_task m3 \<or> (\<exists>ts ts'. dget_or m3 ''transitions'' (PyList []) = PyList ts \<and> migrate_transitions 1 0 ts = Inr ts' \<and> u = seal_task (dset m3 ''transitions'' (PyList ts')))"
    by (rule migrate_cases [OF assms])
  have "is_dict t" using assms by (simp add: migrate_def split: if_splits)
  then have "int_of_val (dget (if py_eq (dget t ''schema'') (PyInt 4) then t else dset t ''schema'' (PyInt 4)) ''schema'') = 4"
    by (cases "dget t ''schema''") (auto simp: int_of_val_def)
  then have "int_of_val (dget m2 ''schema'') = 4" unfolding m(1) by (subst set_defaults_other) (simp_all add: schema4_defaults_def)
  then have "int_of_val (dget m3 ''schema'') = 4" by (simp add: m(2))
  then show ?thesis using u by (auto simp: seal_task_def)
qed

lemma prepare_save_cases:
  assumes "prepare_save now records current migrated upd n = Inr u"
  obtains u3 u4 where "drop_stale_review current migrated (drop_stale_falsification current migrated (dset upd ''evidence_set_digest'' (PyStr (evidence_set_digest records)))) = Inr u3"
    and "validate_append_only migrated u3 = Inr ()" and "check_evidence_head records current upd = Inr ()"
    and "dget u3 ''falsification'' \<noteq> PyNone \<longrightarrow> validate_bound_falsification u3 False = Inr ()"
    and "dget u3 ''review_receipt'' \<noteq> PyNone \<longrightarrow> validate_bound_review u3 = Inr ()"
    and "stamp now (reopen_audit current u3) n = Inr u" and "validate_task u (Some (py_str (dget current ''id''))) = Inr ()"
  using assms by (auto simp: prepare_save_def res_bind_Inr Let_def check_all_Inr)

lemma drop_stale_other:
  assumes "drop_stale_review current migrated (drop_stale_falsification current migrated t) = Inr u" and "k \<noteq> ''falsification''" and "k \<noteq> ''review_receipt''"
  shows "dget u k = dget t k"
  using assms by (auto simp: drop_stale_review_def drop_stale_falsification_def res_bind_Inr split: if_splits)

lemma stamp_other:
  assumes "stamp now (reopen_audit current t) n = Inr u"
    and "k \<notin> {''revision'', ''updated'', ''integrity_sha256'', ''final_audit_complete'', ''final_audit_workspace''}"
  shows "dget u k = dget t k"
  using assms by (auto simp: stamp_def reopen_audit_def res_bind_Inr seal_task_def split: if_splits)

lemma prepare_save_schema:
  assumes "prepare_save now records current migrated upd n = Inr u"
  shows "dget u ''schema'' = dget upd ''schema''"
proof -
  obtain u3 where "drop_stale_review current migrated (drop_stale_falsification current migrated (dset upd ''evidence_set_digest'' (PyStr (evidence_set_digest records)))) = Inr u3"
    "stamp now (reopen_audit current u3) n = Inr u" by (rule prepare_save_cases [OF assms])
  then show ?thesis using stamp_other [of now current u3 n u "''schema''"] drop_stale_other [of current migrated _ u3 "''schema''"] by simp
qed

lemma revised_cases:
  assumes "revised now ledger current upd = Inr u"
  obtains migrated upd' records where "save_begin current upd (dget current ''revision'') = Inr (migrated, upd')" and "ledger = Inr records"
    and "prepare_save now records current migrated upd' (dget current ''revision'') = Inr u"
  using assms by (auto simp: revised_def res_bind_Inr split: prod.splits)

lemma save_begin_cases:
  assumes "save_begin current upd n = Inr (migrated, upd')"
  shows "migrate current = Inr migrated" and "migrate upd = Inr upd'" and "py_eq (dget upd' ''id'') (dget current ''id'')"
  using assms by (auto simp: save_begin_def res_bind_Inr)

section \<open>Saving on a healthy disk\<close>

definition other_tasks_kept :: "string \<Rightarrow> disk \<Rightarrow> disk \<Rightarrow> bool" where
  "other_tasks_kept i d d' \<longleftrightarrow> (\<forall>j t bs. j \<noteq> i \<longrightarrow> stored d j t bs \<longrightarrow> stored d' j t bs)"

lemma save_locked_refines:
  assumes h: "healthy v d" and s: "stored d i task as" and fr: "fresh_tx v ''task-state'' d" and w: "wf_val upd"
  shows "case revised (en_now v) (ledger_of d i) (canon task) upd of
      Inl e \<Rightarrow> save_locked v (canon task) upd (dget task ''revision'') b d = (d, Inl e)
    | Inr u \<Rightarrow> \<exists>d'. save_locked v (canon task) upd (dget task ''revision'') b d = (d', Inr u) \<and> healthy v d'
        \<and> stored d' i u (as @ [new_anchor u (Some (canon (last as)))]) \<and> other_tasks_kept i d d'"
proof -
  have wt: "wf_val task" and val: "validate_task task (Some i) = Inr ()" and rv: "dget task ''revision'' = PyInt (int (length as) - 1)" using s by (auto simp: stored_def)
  have rc: "dget (canon task) ''revision'' = dget task ''revision''" using rv by (simp add: dget_canon [OF wt])
  have id: "dget (canon task) ''id'' = PyStr i" using validated_fields(1) [OF val] by (simp add: dget_canon [OF wt])
  have led: "load_ledger v i d = (d, ledger_of d i)" by (rule load_ledger_eq [OF h s])
  have acq: "(if b then io_return () else acquire_lock v i) d = (d, Inr ())" using acquire_ok [OF h s] by (simp add: io_return_def)
  show ?thesis
  proof (cases "revised (en_now v) (ledger_of d i) (canon task) upd")
    case (Inl e)
    then have "save_locked v (canon task) upd (dget task ''revision'') b d = (d, Inl e)"
      unfolding save_locked_def Let_def id revised_def rc using acq led
      by (auto simp: io_bind_def [of "load_ledger v i"] res_bind_def split: sum.splits prod.splits)
    then show ?thesis using Inl by simp
  next
    case (Inr u)
    then obtain migrated upd' records where r: "save_begin (canon task) upd (dget task ''revision'') = Inr (migrated, upd')" "ledger_of d i = Inr records"
      "prepare_save (en_now v) records (canon task) migrated upd' (dget task ''revision'') = Inr u" unfolding rc [symmetric] by (rule revised_cases)
    have "wf_val upd'" using wf_migrate [OF save_begin_cases(2) [OF r(1)] w] .
    moreover have "3 \<le> int_of_val (dget u ''schema'')" using migrate_schema [OF save_begin_cases(2) [OF r(1)]] prepare_save_schema [OF r(3)] by simp
    ultimately show ?thesis using save_locked_ok [OF h s fr _ r(1) _ r(3), of b] led r(2) Inr by (auto simp: other_tasks_kept_def)
  qed
qed

section \<open>Mutation on a healthy disk\<close>

lemma chosen_ok: "task_id_ok i \<Longrightarrow> chosen_id v (Some i) d = (d, Inr i)"
  by (auto simp: chosen_id_def task_id_valid io_return_def task_id_ok_def io_bind_def io_res_apply)

lemma with_undo_None [simp]: "with_undo None m = m"
  by (rule ext) (auto simp: with_undo_def split: prod.splits sum.splits)

lemma io_bind_pure: "m d = (d, r) \<Longrightarrow> io_bind m f d = (case r of Inl e \<Rightarrow> (d, Inl e) | Inr x \<Rightarrow> f x d)"
  by (simp add: io_bind_def split: sum.splits)

lemma load_unlocked_refines:
  assumes h: "healthy v d" and s: "stored d i task as"
  shows "load_unlocked v ws i b d = (d, loaded ws (ledger_of d i) (canon task))"
proof (cases "dget task ''state'' = PyStr ''FINALIZE''")
  case False
  then have "dget (canon task) ''state'' \<noteq> PyStr ''FINALIZE''" using s by (simp add: stored_def dget_canon)
  then show ?thesis using load_ok [OF h s False] by (simp add: loaded_def)
next
  case True
  have w: "wf_val task" and val: "validate_task (canon task) (Some i) = Inr ()" and f: "own_file d (state_file i) (json_text task)" and c: "anchor_chain i as"
    using s validate_task_canon [of task "Some i"] by (auto simp: stored_def)
  have "json_at d (state_file i) = Some (canon task)" using own_file_read(1) [OF f] w by (rule json_at_text)
  then have r: "read_state (state_file i) d = Inr (canon task)" using f by (auto simp: read_state_def own_file_def)
  have g: "wf_val (last as)" "dget (last as) ''revision'' = PyInt (int (length as) - 1)" using last_good [OF c] by (auto simp: good_anchor_def)
  have "anchored (canon task) (canon (last as))" using s w g by (simp add: anchored_def dget_canon stored_def)
  moreover have "dget (canon task) ''state'' = PyStr ''FINALIZE''" using True w by (simp add: dget_canon)
  moreover have "(if b then io_return () else acquire_lock v i) d = (d, Inr ())" using acquire_ok [OF h s] by (simp add: io_return_def)
  ultimately show ?thesis unfolding load_unlocked_def
    using state_path_ok [OF h s] r val load_task_anchor_ok [OF h s] load_ledger_eq [OF h s]
    by (simp add: loaded_def io_bind_pure [of "load_ledger v i"] io_res_apply dget_canon [OF w] io_bind_def [of "if b then _ else _"] io_return_def
        split: sum.splits) (auto simp: io_bind_def io_res_apply io_return_def res_bind_def split: sum.splits)
qed

lemma load_refines:
  assumes "healthy v d" and "stored d i task as"
  shows "load v ws (Some i) d = (d, loaded ws (ledger_of d i) (canon task))"
  using assms chosen_ok [of i] load_unlocked_refines [OF assms] by (simp add: load_def stored_def)

lemma mutate_cases:
  assumes h: "healthy v d" and s: "stored d i task as" and fr: "fresh_tx v ''task-state'' d"
    and f: "fn (canon task) d = (d, changed)" and w: "\<forall>x. changed = Inr x \<longrightarrow> wf_val x"
  shows "case mutated (en_now v) ws (ledger_of d i) er ac changed (canon task) of
      Inl e \<Rightarrow> mutate v ws fn (Some i) er ac held None d = (d, Inl e)
    | Inr u \<Rightarrow> \<exists>d'. mutate v ws fn (Some i) er ac held None d = (d', Inr u) \<and> healthy v d'
        \<and> stored d' i u (as @ [new_anchor u (Some (canon (last as)))]) \<and> other_tasks_kept i d d'"
proof -
  have i: "task_id_ok i" and wt: "wf_val task" and rv: "dget task ''revision'' = PyInt (int (length as) - 1)" using s by (auto simp: stored_def)
  have rc: "dget (canon task) ''revision'' = dget task ''revision''" using rv by (simp add: dget_canon [OF wt])
  have l: "load_unlocked v ws i held d = (d, loaded ws (ledger_of d i) (canon task))" by (rule load_unlocked_refines [OF h s])
  have lc: "loaded ws (ledger_of d i) (canon task) = Inr x \<Longrightarrow> x = canon task" for x by (auto simp: loaded_def res_bind_Inr split: if_splits)
  have m: "mutate v ws fn (Some i) er ac held None d = (case loaded ws (ledger_of d i) (canon task) of Inl e \<Rightarrow> (d, Inl e)
      | Inr _ \<Rightarrow> (case mutable er ac (canon task) of Inl e \<Rightarrow> (d, Inl e)
      | Inr _ \<Rightarrow> (case changed of Inl e \<Rightarrow> (d, Inl e) | Inr x \<Rightarrow> save_locked v (canon task) x (dget task ''revision'') held d)))"
  proof (cases "loaded ws (ledger_of d i) (canon task)")
    case (Inr x)
    then have "load_unlocked v ws i held d = (d, Inr (canon task))" using l lc by simp
    then show ?thesis using chosen_ok [OF i] acquire_ok [OF h s] f Inr
      by (simp add: mutate_def rc io_bind_pure [of "fn (canon task)"] split: sum.splits)
  qed (use chosen_ok [OF i] acquire_ok [OF h s] l in \<open>simp add: mutate_def\<close>)
  show ?thesis
  proof (cases "loaded ws (ledger_of d i) (canon task)"; cases "mutable er ac (canon task)"; cases changed)
    fix x y upd assume c: "loaded ws (ledger_of d i) (canon task) = Inr x" "mutable er ac (canon task) = Inr y" "changed = Inr upd"
    then have "wf_val upd" using w by simp
    moreover have "mutated (en_now v) ws (ledger_of d i) er ac changed (canon task) = revised (en_now v) (ledger_of d i) (canon task) upd"
      "mutate v ws fn (Some i) er ac held None d = save_locked v (canon task) upd (dget task ''revision'') held d" using m c by (simp_all add: mutated_def)
    ultimately show ?thesis using save_locked_refines [OF h s fr, of upd held] by (simp only:)
  qed (simp_all add: mutated_def m)
qed

section \<open>Identifiers of new tasks\<close>

lemma hyphenate_chars: "c \<in> set (hyphenate s) \<Longrightarrow> is_alnum c \<or> c = CHR ''-''"
proof (induction s arbitrary: c rule: hyphenate.induct)
  case (2 a s)
  then show ?case by (cases "hyphenate s") (auto split: if_splits)
qed simp

lemma strip_hyphens_head:
  assumes "strip_hyphens s \<noteq> []"
  shows "hd (strip_hyphens s) \<noteq> CHR ''-'' \<and> set (strip_hyphens s) \<subseteq> set s"
proof -
  let ?h = "\<lambda>c. c = CHR ''-''" and ?t = "dropWhile (\<lambda>c. c = CHR ''-'') s"
  have s: "strip_hyphens s = rev (dropWhile ?h (rev ?t))" by (simp add: strip_hyphens_def)
  have t: "?t \<noteq> []"
  proof
    assume "?t = []"
    then have "strip_hyphens s = []" unfolding s by (simp only: rev.simps dropWhile.simps)
    then show False using assms by contradiction
  qed
  have "prefix (strip_hyphens s) ?t" unfolding s
    using suffix_dropWhile [of ?h "rev ?t"] by (simp add: suffix_to_prefix)
  then obtain z where "?t = strip_hyphens s @ z" by (rule prefixE)
  then have "hd (strip_hyphens s) = hd ?t" using assms by simp
  moreover have "hd ?t \<noteq> CHR ''-''" using t hd_dropWhile [of ?h s] by simp
  moreover have "set (strip_hyphens s) \<subseteq> set s" unfolding s by (rule subsetI) (metis set_dropWhileD set_rev)
  ultimately show ?thesis by simp
qed

lemma lower_alnum: "is_alnum c \<Longrightarrow> id_char (lower_char c)"
proof -
  assume a: "is_alnum c"
  show ?thesis
  proof (cases "is_upper c")
    case True
    then have n: "65 \<le> (of_char c :: nat)" "(of_char c :: nat) \<le> 90" by (auto simp: is_upper_def less_eq_char_def)
    then have "lower_char c = char_of (of_char c + 32 :: nat)" by (simp add: lower_char_def Let_def)
    then have "(of_char (lower_char c) :: nat) = of_char c + 32" using n by simp
    then show ?thesis using n by (simp add: id_char_def is_lower_def less_eq_char_def)
  next
    case False
    then have "lower_char c = c" by (auto simp: lower_char_def Let_def is_upper_def less_eq_char_def)
    then show ?thesis using a False by (auto simp: is_alnum_def id_char_def)
  qed
qed

lemma lower_hyphen [simp]: "lower_char (CHR ''-'') = CHR ''-''"
  by (simp add: lower_char_def)

lemma task_chars: "id_char CHR ''t''" "id_char CHR ''a''" "id_char CHR ''s''" "id_char CHR ''k''"
  by (simp_all add: id_char_def is_lower_def less_eq_char_def)

lemma slug_ok:
  "slug title \<noteq> []" "length (slug title) \<le> 48" "id_char (hd (slug title))" "list_all (\<lambda>c. id_char c \<or> c = CHR ''-'') (slug title)"
proof -
  let ?s = "strip_hyphens (hyphenate title)"
  have c: "is_alnum x \<or> x = CHR ''-''" if "x \<in> set ?s" for x
    using that strip_hyphens_head [of "hyphenate title"] hyphenate_chars by (cases "?s = []") auto
  show "slug title \<noteq> []" "length (slug title) \<le> 48" by (simp_all add: slug_def Let_def)
  show "id_char (hd (slug title))"
  proof (cases "?s = []")
    case False
    then have "is_alnum (hd ?s)" using c [of "hd ?s"] strip_hyphens_head [OF False] by auto
    then show ?thesis using lower_alnum False by (simp add: slug_def Let_def casefold_def hd_map)
  qed (simp add: slug_def casefold_def id_char_def is_lower_def less_eq_char_def)
  have "\<forall>x \<in> set ?s. id_char (lower_char x) \<or> lower_char x = CHR ''-''" using c lower_alnum lower_hyphen by metis
  then show "list_all (\<lambda>c. id_char c \<or> c = CHR ''-'') (slug title)"
    by (auto simp: slug_def Let_def casefold_def list_all_iff task_chars take_map dest: in_set_takeD)
qed

definition new_id :: "env \<Rightarrow> string \<Rightarrow> string" where
  "new_id v title = slug title @ ''-'' @ take 8 (en_uuid v)"

lemma new_id_ok:
  assumes "8 \<le> length (en_uuid v)" and "list_all is_hex (en_uuid v)"
  shows "task_id_ok (new_id v title)"
proof -
  let ?u = "take 8 (en_uuid v)"
  have u: "?u \<noteq> []" "length ?u = 8" using assms(1) by auto
  have h: "id_char c" if "c \<in> set ?u" for c
    using assms(2) in_set_takeD [OF that] by (auto simp: list_all_iff is_hex_def id_char_def is_lower_def is_digit_def less_eq_char_def)
  have l: "last (new_id v title) = last ?u" using u by (simp add: new_id_def)
  have "id_char (last ?u)" using h [OF last_in_set [OF u(1)]] .
  moreover have "hd (new_id v title) = hd (slug title)" using slug_ok(1) by (simp add: new_id_def)
  moreover have "length (new_id v title) \<le> 64" using slug_ok(2) [of title] by (simp add: new_id_def)
  moreover have "list_all (\<lambda>c. id_char c \<or> c = CHR ''-'') (new_id v title)" using slug_ok(4) [of title] h by (auto simp: new_id_def list_all_iff)
  ultimately show ?thesis using slug_ok(3) l by (simp add: task_id_ok_def) (simp add: new_id_def)
qed

section \<open>A new task\<close>

lemma new_task_wf: "wf_val (new_task v i title md c r)"
  unfolding new_task_def by (rule wf_seal_task) (simp add: empty_tdd_def)

lemma new_task_fields:
  "dget (new_task v i title md c r) ''id'' = PyStr i" "dget (new_task v i title md c r) ''schema'' = PyInt 4"
  "dget (new_task v i title md c r) ''revision'' = PyInt 0" "dget (new_task v i title md c r) ''state'' = PyStr ''CREATED''"
  "dget (new_task v i title md c r) ''title'' = PyStr (strip title)" "dget (new_task v i title md c r) ''mode'' = PyStr md"
  "dget (new_task v i title md c r) ''complexity'' = PyStr c" "dget (new_task v i title md c r) ''risk'' = PyStr r"
  "dget (new_task v i title md c r) ''created'' = PyStr (en_now v)" "dget (new_task v i title md c r) ''updated'' = PyStr (en_now v)"
  "dget (new_task v i title md c r) ''precheck'' = PyDict []" "dget (new_task v i title md c r) ''tdd'' = empty_tdd"
  "dget (new_task v i title md c r) ''gates'' = PyList []" "dget (new_task v i title md c r) ''risks'' = PyList []"
  "dget (new_task v i title md c r) ''decisions'' = PyList []" "dget (new_task v i title md c r) ''child_history'' = PyList []"
  "dget (new_task v i title md c r) ''verification_evidence'' = PyList []" "dget (new_task v i title md c r) ''verification_epoch'' = PyNone"
  "dget (new_task v i title md c r) ''change_epoch'' = PyInt 0" "dget (new_task v i title md c r) ''final_audit_complete'' = PyBool False"
  "dget (new_task v i title md c r) ''active_child'' = PyNone" "dget (new_task v i title md c r) ''previous_state'' = PyNone"
  "dget (new_task v i title md c r) ''transitions'' = PyList []" "dget (new_task v i title md c r) ''material_claim'' = PyBool True"
  "dget (new_task v i title md c r) ''evidence_head'' = PyNone" "dget (new_task v i title md c r) ''evidence_set_digest'' = PyStr EMPTY_EVIDENCE_SET_DIGEST"
  "dget (new_task v i title md c r) ''implementation_digest'' = PyNone" "dget (new_task v i title md c r) ''diff_digest'' = PyNone"
  "dget (new_task v i title md c r) ''falsification'' = PyNone" "dget (new_task v i title md c r) ''review_receipt'' = PyNone"
  by (simp_all add: new_task_def seal_task_def)

lemma new_task_digest: "dget (new_task v i title md c r) ''integrity_sha256'' = PyStr (state_digest (new_task v i title md c r))"
  by (simp add: new_task_def seal_task_def state_seal.digest_ignores_field)

lemma new_task_keys: "is_dict (new_task v i title md c r)" "list_all (has_key (new_task v i title md c r)) task_required" "has_key (new_task v i title md c r) ''tdd''"
  by (simp_all add: new_task_def seal_task_def task_required_def)

lemma EMPTY_digest: "is_digest (PyStr EMPTY_EVIDENCE_SET_DIGEST)"
  by (simp add: is_digest_def EMPTY_EVIDENCE_SET_DIGEST_def)

lemma new_task_valid:
  assumes "task_id_ok i" and "\<not> blank title" and "\<not> blank (en_now v)" and "md \<in> set MODES" and "c \<in> set COMPLEXITIES" and "r \<in> set RISKS"
  shows "validate_task (new_task v i title md c r) (Some i) = Inr ()"
proof -
  let ?t = "new_task v i title md c r"
  note f = new_task_fields [of v i title md c r] new_task_keys [of v i title md c r, unfolded list_all_iff]
  have "check_header ?t (Some i) = Inr ()" unfolding check_header_def check_all_Inr
    using assms by (simp add: f validate_task_id_def memb_unit str_in_def is_text_def is_nonneg_int_def STATES_def unhashable_def)
  moreover have "check_tdd ?t = Inr ()" unfolding check_tdd_def Let_def check_all_Inr
    by (simp add: f check_all_Inr empty_tdd_def memb_or_none_def tdd_digest_fields_def null_or_def)
  moreover have "check_receipts ?t = Inr ()" unfolding check_receipts_def check_all_Inr
    using EMPTY_digest by (simp add: f null_or_def check_review_field_def)
  moreover have "check_arrays ?t = Inr ()" unfolding check_arrays_def check_all_Inr
    by (simp add: f null_or_def unique_ids_def distinct_values_def map_dict_def check_all_Inr)
  moreover have "check_active_child ?t = Inr ()" "check_transitions ?t = Inr ()"
    by (simp_all add: f check_active_child_def check_transitions_def check_all_Inr)
  ultimately show ?thesis unfolding validate_task_def check_all_Inr by (simp add: f new_task_digest)
qed

section \<open>Creating on a healthy disk\<close>

abbreviation current_file :: path where
  "current_file \<equiv> runtime_dir @ [''current-task'']"

text \<open>No trace of the identifier, and a current pointer that may be replaced.\<close>

definition unused :: "disk \<Rightarrow> string \<Rightarrow> bool" where
  "unused d i \<longleftrightarrow> (\<forall>q. \<not> exists d (tasks_dir @ i # q)) \<and> \<not> exists d (anchor_file i) \<and> (\<forall>q. \<not> exists d (history_dir i @ q))
     \<and> (node_at d current_file = None \<or> (\<exists>b. own_file d current_file b))"

definition created_files :: "string \<Rightarrow> pyval \<Rightarrow> pyval \<Rightarrow> string option \<Rightarrow> mutation list" where
  "created_files i task a old = [new_file (state_file i) (json_text task), over_file current_file old (i @ [newline]), new_file (anchor_file i) (json_text a),
     new_file (history_dir i @ [anchor_name a]) (json_text a)]"

lemma absent_no_redirect: "\<not> exists d p \<Longrightarrow> \<not> is_path_redirect d p"
  by (simp add: exists_def is_path_redirect_def)

lemma first_anchor_good:
  assumes "dget t ''id'' = PyStr i" and "dget t ''revision'' = PyInt k" and "is_str (dget t ''integrity_sha256'')"
  shows "good_anchor i k (new_anchor t None)" and "dget (new_anchor t None) ''state_sha256'' = dget t ''integrity_sha256''"
proof -
  have w: "wf_val (dget t ''integrity_sha256'')" using assms(3) by (cases "dget t ''integrity_sha256''") (simp_all add: is_str_def)
  let ?a = "PyDict [(''schema'', PyInt 2), (''task_id'', PyStr i), (''revision'', PyInt k), (''state_sha256'', dget t ''integrity_sha256''),
       (''previous_anchor_sha256'', PyNone), (''history_origin_revision'', PyInt 0)]"
  have a: "new_anchor t None = dset ?a ''anchor_sha256'' (PyStr (anchor_digest ?a))" by (simp add: new_anchor_def Let_def assms(1,2))
  have "wf_val (new_anchor t None)" unfolding a using w by (intro wf_dset) simp_all
  moreover have "anchor_digest (dset ?a ''anchor_sha256'' (PyStr (anchor_digest ?a))) = anchor_digest ?a" by (rule anchor_seal.digest_ignores_field)
  ultimately show "good_anchor i k (new_anchor t None)" by (simp add: good_anchor_def a)
  show "dget (new_anchor t None) ''state_sha256'' = dget t ''integrity_sha256''" by (simp add: a)
qed

lemma state_path_unused:
  assumes h: "healthy v d" and i: "task_id_ok i" and u: "unused d i"
  shows "state_path v i d = (d, Inr (state_file i))"
proof -
  have n: "\<not> is_path_redirect d (tasks_dir @ [i])" "\<not> is_path_redirect d (state_file i)" using u absent_no_redirect by (auto simp: unused_def)
  have "\<not> redirected d (state_file i)" using n dirs_redirect [OF dirs_control [OF h bases(2)]] steps_append [of "tasks_dir @ [i]" "''state.json''"] steps_append [of tasks_dir i]
    by (auto simp: redirected_def)
  moreover have "plain (state_file i)" using i not_up(1) [OF i] plain_snoc [of "tasks_dir @ [i]" "''state.json''"] plain_snoc [of tasks_dir i] by simp
  ultimately have "confine v (state_file i) False d = (d, Inr (state_file i))" by (simp add: confine_def confined_path_def plain_def)
  then show ?thesis using task_dir_ok [OF h i n(1)] by (simp add: state_path_def)
qed

lemma current_path_ok:
  assumes h: "healthy v d" and "\<not> is_path_redirect d current_file"
  shows "current_path v d = (d, Inr current_file)"
  using control_dir_ok [OF h bases(1)] confine_child [OF dirs_control [OF h bases(1)], of "''current-task''" False v] assms(2) by (simp add: current_path_def)

lemma history_path_unused:
  assumes h: "healthy v d" and i: "task_id_ok i" and u: "unused d i" and g: "good_anchor i 0 a"
  shows "anchor_history_path v a d = (put d (history_dir i) Directory, Inr (history_dir i @ [anchor_name a]))"
proof -
  let ?b = "persistent_dir @ [''task-anchor-history'']" and ?d = "put d (history_dir i) Directory"
  have n: "node_at d (history_dir i) = None" "node_at d (history_dir i @ [x]) = None" for x
  proof -
    have "\<not> exists d (history_dir i @ q)" for q using u unfolding unused_def by blast
    from this [of "[]"] this [of "[x]"] show "node_at d (history_dir i) = None" "node_at d (history_dir i @ [x]) = None" by (simp_all add: exists_def)
  qed
  have b: "dirs_to d ?b" by (rule dirs_control [OF h bases(6)])
  have bd: "is_dir d ?b" using b steps_self [of ?b] by (simp add: dirs_to_def)
  have "confine v (?b @ [i]) False d = (d, Inr (?b @ [i]))"
    by (rule confine_child [OF b]) (use i not_up n in \<open>auto simp: is_path_redirect_def\<close>)
  moreover have "mkdir_one (?b @ [i]) d = (?d, Inr ())" using n(1) bd by (simp add: mkdir_one_def is_dir_def exists_def butlast_append)
  moreover have b': "dirs_to ?d ?b" using b by (auto simp: dirs_to_def is_dir_def)
  moreover have "confine v (?b @ [i]) True ?d = (?d, Inr (?b @ [i]))"
    by (rule confine_child [OF b']) (use i not_up in \<open>auto simp: is_path_redirect_def exists_def\<close>)
  ultimately have p: "anchor_history_dir v i True d = (?d, Inr (history_dir i))"
    using control_dir_ok [OF h bases(6)] by (simp add: anchor_history_dir_def task_id_valid [OF i])
  have nm: "anchor_name a = history_name 0 (anchor_digest a)" by (rule good_anchor_name [OF g])
  have "dirs_to ?d (?b @ [i])" by (rule dirs_child [OF b']) (simp add: is_dir_def)
  then have "confine v (history_dir i @ [anchor_name a]) False ?d = (?d, Inr (history_dir i @ [anchor_name a]))"
    using history_name_clean(2) [OF anchor_digest_text(2), of 0 a] n(2) plain_snoc [of ?b i] not_up(1) [OF i]
    by (intro confine_child) (simp_all add: nm is_path_redirect_def)
  then show ?thesis unfolding anchor_history_path_def
    using g p anchor_digest_text(1) [of a] by (simp add: good_anchor_def Let_def nonneg_def digest_text_def is_int_def int_of_val_def anchor_name_def)
qed

lemma put_history_dir:
  assumes h: "healthy v d" and u: "unused d i"
  defines "d1 \<equiv> put d (history_dir i) Directory"
  shows "healthy v d1" and "own_file d1 p b = (p \<noteq> history_dir i \<and> own_file d p b)" and "fresh_tx v name d1 = fresh_tx v name d"
    and "stored d j t as \<Longrightarrow> stored d1 j t as"
proof -
  have n: "node_at d (history_dir i) = None" using u [unfolded unused_def, THEN conjunct2, THEN conjunct2, THEN conjunct1, THEN spec, of "[]"] by (simp add: exists_def)
  have nd: "node_at d1 q = (if q = history_dir i then Some Directory else node_at d q)" for q by (simp add: d1_def)
  have un: "\<not> under_agents (history_dir i)" by (simp add: under_agents_def persistent_dir_def aegis_dir_def)
  have g: "set (governing_file_identities d1) = set (governing_file_identities d)"
    by (rule governing_ids_cong [of "history_dir i"]) (use n un in \<open>auto intro!: ungoverned_dir simp: nd\<close>)
  show own: "own_file d1 p b = (p \<noteq> history_dir i \<and> own_file d p b)" for p b by (auto simp: own_file_def g nd)
  show "fresh_tx v name d1 = fresh_tx v name d" by (simp add: fresh_tx_def exists_def nd)
  have dir: "is_dir d1 q = (q = history_dir i \<or> is_dir d q)" for q by (auto simp: is_dir_def nd n)
  show "healthy v d1" using h by (auto simp: healthy_def dirs_to_def dir no_pending_def)
  assume s: "stored d j t as"
  then have "j \<noteq> i" using n by (auto simp: stored_def is_dir_def)
  then have "exists d1 (history_dir j @ [x]) = exists d (history_dir j @ [x])" for x by (simp add: exists_def nd)
  then show "stored d1 j t as" using s by (auto simp: stored_def own dir persistent_dir_def tasks_dir_def aegis_dir_def)
qed

lemma created_paths: "map mu_path (created_files i t a old) = [state_file i, current_file, anchor_file i, history_dir i @ [anchor_name a]]"
  by (simp add: created_files_def over_file_def new_file_def)

lemma created_independent: "independent (map mu_path (created_files i t a old))"
  by (simp add: created_paths independent_def path_defs strict_prefix_def)

lemma created_touched:
  assumes "tx = store_tx v name (created_files i t a old)"
  shows "touched tx q \<longleftrightarrow> prefix q (state_file i) \<or> prefix q current_file \<or> prefix q (anchor_file i) \<or> prefix q (history_dir i @ [anchor_name a])
    \<or> prefix q (journal_path tx) \<or> prefix (tx_dir tx) q"
  by (simp add: touched_def assms created_files_def over_file_def new_file_def)

lemma untouched_created:
  assumes "tx = store_tx v name (created_files i t a old)" and "j \<noteq> i"
  shows "\<not> touched tx (state_file j)" and "\<not> touched tx (anchor_file j)" and "\<not> touched tx (history_dir j)" and "\<not> touched tx (tasks_dir @ [j])"
    and "\<not> touched tx (history_dir j @ [n])"
  unfolding created_touched [OF assms(1)] using assms(2) by (auto simp: assms(1) path_defs)

lemma created_frame:
  assumes s: "stored d j task' bs" and sd: "settled tx d d'" and t: "tx = store_tx v name (created_files i t a old)" and ji: "j \<noteq> i"
  shows "stored d' j task' bs"
proof -
  note n = settled_other [OF sd untouched_created(1) [OF t ji]] settled_other [OF sd untouched_created(2) [OF t ji]]
    settled_other [OF sd untouched_created(3) [OF t ji]] settled_other [OF sd untouched_created(4) [OF t ji]] settled_other [OF sd untouched_created(5) [OF t ji]]
  show ?thesis using s unfolding stored_def n .
qed

lemma current_aegis: "aegis_file current_file"
  unfolding aegis_file_def by (rule exI [of _ "[''runtime'']"], rule exI [of _ "''current-task''"]) (simp add: runtime_dir_def aegis_dir_def normal_def plain_def slash_def)

lemma create_transaction:
  fixes t :: pyval
  assumes h: "healthy v d" and i: "task_id_ok i" and u: "unused d i" and g: "good_anchor i 0 a" and fr: "fresh_tx v ''task-create'' d" and old: "old = read d current_file"
  defines "d1 \<equiv> put d (history_dir i) Directory" and "tx \<equiv> store_tx v ''task-create'' (created_files i t a old)"
  shows "\<exists>d'. transact v ''task-create'' (created_files i t a old) d1 = (d', Inr ()) \<and> settled tx d1 d' \<and> read d' (state_file i) = Some (json_text t)
    \<and> read d' (anchor_file i) = Some (json_text a) \<and> read d' (history_dir i @ [anchor_name a]) = Some (json_text a) \<and> read d' current_file = Some (i @ [newline])"
proof -
  let ?ms = "created_files i t a old"
  note p = put_history_dir [OF h u, folded d1_def]
  have all: "\<not> exists d (tasks_dir @ i # q)" "\<not> exists d (anchor_file i)" "\<not> exists d (history_dir i @ q)" "node_at d current_file = None \<or> (\<exists>b. own_file d current_file b)" for q
    using u unfolding unused_def by blast+
  have n: "node_at d1 (state_file i) = None" "node_at d1 (tasks_dir @ [i]) = None" "node_at d1 (anchor_file i) = None" "node_at d1 (history_dir i @ [x]) = None" for x
    using all(1) [of "[''state.json'']"] all(1) [of "[]"] all(2) all(3) [of "[x]"] by (auto simp: d1_def exists_def path_defs)
  have c: "node_at d1 current_file = node_at d current_file" by (simp add: d1_def path_defs)
  have dirs: "dirs_to d1 tasks_dir" "dirs_to d1 (persistent_dir @ [''task-anchors''])" "dirs_to d1 runtime_dir" "dirs_to d1 (history_dir i)"
    using dirs_control [OF p(1)] bases dirs_child [OF dirs_control [OF p(1) bases(6)], of i] by (auto simp: d1_def is_dir_def)
  have w: "writable d1 (anchor_file i)" "writable d1 (history_dir i @ [anchor_name a])" "writable d1 current_file"
    using target_writable [OF task_files(2) [OF i], of d1] target_writable [OF history_file [OF i g], of d1] target_writable [OF current_aegis, of d1] n dirs all(4) c p(2) [of current_file]
    by (auto simp: butlast_append path_defs)
  have ws: "writable d1 (state_file i)"
    using aegis_file_props [OF task_files(1) [OF i]] n(1,2) dirs(1) steps_append [of tasks_dir i] unfolding writable_def task_files(3) [OF i] dirs_to_def is_dir_def by auto
  have e: "as_expected d1 m" if "m \<in> set ?ms" for m
    using that n c old by (auto simp: created_files_def over_file_def new_file_def as_expected_def read_def split: option.splits node.splits)
  have "\<forall>m \<in> set ?ms. aegis_file (mu_path m) \<and> writable d1 (mu_path m) \<and> as_expected d1 m"
    using e w ws task_files(1,2) [OF i] history_file [OF i g] current_aegis by (auto simp: created_files_def over_file_def new_file_def)
  then obtain d' where d': "transact v ''task-create'' ?ms d1 = (d', Inr ())" "read d' = tx_final tx d1" "settled tx d1 d'"
    using transact_ok [OF p(1), of "''task-create''" ?ms] p(3) fr created_independent unfolding tx_def by (auto simp: created_files_def)
  have "read d' (state_file i) = Some (json_text t)" "read d' (anchor_file i) = Some (json_text a)" "read d' (history_dir i @ [anchor_name a]) = Some (json_text a)"
    "read d' current_file = Some (i @ [newline])"
    by (simp_all add: d'(2) tx_def tx_final_def created_files_def over_file_def new_file_def path_defs)
  then show ?thesis using d'(1,3) by blast
qed

lemma created_stored:
  fixes t :: pyval
  assumes i: "task_id_ok i" and u: "unused d i" and g: "good_anchor i 0 a" and t: "wf_val t" "validate_task t (Some i) = Inr ()" "dget t ''schema'' = PyInt 4"
      "dget t ''revision'' = PyInt 0" "dget a ''state_sha256'' = dget t ''integrity_sha256''"
    and tx: "tx = store_tx v name (created_files i t a old)" and d1: "d1 = put d (history_dir i) Directory" and sd: "settled tx d1 d'"
    and r: "read d' (state_file i) = Some (json_text t)" "read d' (anchor_file i) = Some (json_text a)" "read d' (history_dir i @ [anchor_name a]) = Some (json_text a)"
  shows "stored d' i t [a]"
proof -
  have paths: "set (tx_paths tx) = {state_file i, current_file, anchor_file i, history_dir i @ [anchor_name a]}" by (auto simp: tx created_files_def over_file_def new_file_def)
  have f: "own_file d' (state_file i) (json_text t)" "own_file d' (anchor_file i) (json_text a)" "own_file d' (history_dir i @ [anchor_name a]) (json_text a)"
    using settled_own [OF sd] r paths by simp_all
  have c: "anchor_chain i [a]" using g by (simp add: anchor_chain_def)
  have hd: "is_dir d' (history_dir i)" by (rule settled_dir [OF sd]) (auto simp: d1 is_dir_def tx created_files_def over_file_def new_file_def path_defs)
  have ns: "\<not> exists d (tasks_dir @ i # q)" for q using u unfolding unused_def by blast
  have "rooted d1 (state_file i)" using ns [of "[''state.json'']"] by (auto simp: rooted_def d1 exists_def path_defs)
  moreover have "\<forall>p \<in> set (tx_paths tx). rooted d1 p \<longrightarrow> rooted d' p" using sd unfolding settled_def beside_def by (elim conjE)
  ultimately have "rooted d' (state_file i)" unfolding paths by simp
  then have td: "is_dir d' (tasks_dir @ [i])" using own_file_read(2) [OF f(1)] steps_self [of "tasks_dir @ [i]"] by (auto simp: rooted_def task_files(3) [OF i])
  have nh: "\<not> exists d (history_dir i @ [n])" for n using u unfolding unused_def by blast
  have "n = anchor_name a" if x: "exists d' (history_dir i @ [n])" for n
  proof (rule ccontr)
    assume "n \<noteq> anchor_name a"
    then have "\<not> touched tx (history_dir i @ [n])" unfolding created_touched [OF tx] by (auto simp: tx path_defs)
    then show False using settled_other(4) [OF sd] x nh [of n] by (auto simp: d1 exists_def)
  qed
  then show ?thesis using i t c f hd td by (auto simp: stored_def int_of_val_def)
qed

lemma strip_line: "task_id_ok i \<Longrightarrow> strip (i @ [newline]) = i"
proof -
  assume i: "task_id_ok i"
  have sp: "\<not> is_space c" if "id_char c" for c using that by (auto simp: id_char_def is_lower_def is_digit_def is_space_def Let_def less_eq_char_def)
  have e: "i \<noteq> []" "\<not> is_space (hd i)" "\<not> is_space (last i)" using i sp by (auto simp: task_id_ok_def)
  have "is_space newline" by (simp add: is_space_def newline_def)
  moreover have "dropWhile is_space (i @ [newline]) = i @ [newline]" using e by (intro dropWhile_no_head) simp
  moreover have "dropWhile is_space (rev i) = rev i" using e by (intro dropWhile_no_head) (simp add: hd_rev)
  ultimately show ?thesis by (simp add: strip_def)
qed

lemma current_id_ok:
  assumes h: "healthy v d" and s: "stored d i task as" and f: "own_file d current_file (i @ [newline])"
  shows "chosen_id v None d = (d, Inr i)"
proof -
  have i: "task_id_ok i" and sf: "is_file d (state_file i)" using s own_file_read(3) by (auto simp: stored_def)
  obtain n m where nd: "node_at d current_file = Some (File n m (i @ [newline]))" using f by (auto simp: own_file_def)
  have "current_id v d = (d, Inr i)"
    unfolding current_id_def using current_path_ok [OF h file_no_redirect [OF f]] state_path_ok [OF h s] sf
    by (simp add: nd strip_line [OF i] io_bind_def io_get_def io_return_def)
  then show ?thesis by (simp add: chosen_id_def task_id_valid [OF i] io_res_apply)
qed

lemma create_stores:
  assumes h: "healthy v d" and fr: "fresh_tx v ''task-create'' d" and u: "unused d (new_id v title)"
    and id: "8 \<le> length (en_uuid v)" "list_all is_hex (en_uuid v)" and now: "\<not> blank (en_now v)"
    and arg: "\<not> blank title" "md \<in> set MODES" "c \<in> set COMPLEXITIES" "r \<in> set RISKS"
  defines "i \<equiv> new_id v title" and "t \<equiv> new_task v (new_id v title) title md c r"
  shows "\<exists>d'. create v title md c r d = (d', Inr t) \<and> healthy v d' \<and> stored d' i t [new_anchor t None] \<and> own_file d' current_file (i @ [newline])
    \<and> other_tasks_kept i d d' \<and> (\<forall>q. \<not> exists d (tasks_dir @ i # q) \<longrightarrow> q \<noteq> [] \<longrightarrow> q \<noteq> [''state.json''] \<longrightarrow> \<not> exists d' (tasks_dir @ i # q))
    \<and> (\<forall>name. name \<noteq> ''task-create'' \<longrightarrow> fresh_tx v name d \<longrightarrow> fresh_tx v name d')"
proof -
  let ?a = "new_anchor t None" and ?old = "read d current_file" and ?d1 = "put d (history_dir i) Directory"
  let ?ms = "created_files i t ?a ?old"
  have i: "task_id_ok i" unfolding i_def by (rule new_id_ok [OF id])
  note u = u [folded i_def] and f = new_task_fields [of v i title md c r, folded t_def [folded i_def]] new_task_digest [of v i title md c r, folded t_def [folded i_def]]
  have t: "wf_val t" "validate_task t (Some i) = Inr ()"
    unfolding t_def i_def [symmetric] by (rule new_task_wf, rule new_task_valid [OF i arg(1) now arg(2-4)])
  have g: "good_anchor i 0 ?a" "dget ?a ''state_sha256'' = dget t ''integrity_sha256''"
    using first_anchor_good [OF f(1,3)] f by (simp_all add: is_str_def)
  have un: "\<not> exists d (tasks_dir @ i # q)" "\<not> exists d (anchor_file i)" "node_at d current_file = None \<or> (\<exists>b. own_file d current_file b)" for q
    using u unfolding unused_def by blast+
  have cr: "\<not> is_path_redirect d current_file" using un(3) file_no_redirect by (auto simp: is_path_redirect_def)
  have old: "read_bytes d current_file = Inr ?old" using un(3) by (auto simp: read_bytes_def read_def own_file_def)
  obtain d' where d': "transact v ''task-create'' ?ms ?d1 = (d', Inr ())" "settled (store_tx v ''task-create'' ?ms) ?d1 d'"
    "read d' (state_file i) = Some (json_text t)" "read d' (anchor_file i) = Some (json_text ?a)" "read d' (history_dir i @ [anchor_name ?a]) = Some (json_text ?a)"
    "read d' current_file = Some (i @ [newline])"
    using create_transaction [OF h i u g(1) fr refl] by blast
  have "create_body v i title md c r d = (d', Inr t)"
    unfolding create_body_def Let_def t_def [folded i_def, symmetric]
    using state_path_unused [OF h i u] un(1) [of "[''state.json'']"] current_path_ok [OF h cr] old anchor_path_ok [OF h i absent_no_redirect [OF un(2)]]
      history_path_unused [OF h i u g(1)] d'(1) by (simp add: created_files_def io_get_def io_return_def io_bind_def)
  then have "create v title md c r d = (d', Inr t)"
    unfolding create_def new_id_def [symmetric] i_def [symmetric] using arg control_dir_ok [OF h bases(1)] task_id_valid [OF i] task_dir_ok [OF h i absent_no_redirect [OF un(1) [of "[]"]]]
    by (simp add: check_all_Inr io_res_apply)
  moreover have "healthy v d'"
    by (rule settled_healthy [OF put_history_dir(1) [OF h u] d'(2)])
       (use task_files [OF i] history_file [OF i g(1)] current_aegis in \<open>auto simp: created_files_def over_file_def new_file_def control_dirs_def leases_dir_def path_defs\<close>)
  moreover have "stored d' i t [?a]" by (rule created_stored [OF i u g(1) t f(2,3) g(2) refl refl d'(2-5)])
  moreover have "own_file d' current_file (i @ [newline])"
    by (rule settled_own [OF d'(2) _ d'(6)]) (simp add: created_files_def over_file_def new_file_def)
  moreover have "other_tasks_kept i d d'" unfolding other_tasks_kept_def using created_frame [OF put_history_dir(4) [OF h u] d'(2) refl] by blast
  moreover have "\<not> exists d' (tasks_dir @ i # q)" if "q \<noteq> []" "q \<noteq> [''state.json'']" for q
  proof -
    have "\<not> touched (store_tx v ''task-create'' ?ms) (tasks_dir @ i # q)" unfolding created_touched [OF refl] using that by (auto simp: path_defs prefix_Cons)
    then show ?thesis using settled_other(4) [OF d'(2)] un(1) [of q] by (auto simp: exists_def path_defs)
  qed
  moreover have "fresh_tx v name d'" if "name \<noteq> ''task-create''" "fresh_tx v name d" for name
  proof -
    have "\<not> touched (store_tx v ''task-create'' ?ms) (transactions @ (name @ ''-'' @ en_tx v) # q)" for q
      unfolding created_touched [OF refl] using that(1) by (auto simp: path_defs)
    note n = settled_other(4) [OF d'(2) this]
    from n [of "[]"] n [of "[_]"] show ?thesis using that(2) by (simp add: fresh_tx_def exists_def)
  qed
  ultimately show ?thesis by blast
qed

section \<open>Saving a task unchanged\<close>

lemma dset_same: "has_key t k \<Longrightarrow> dget t k = x \<Longrightarrow> dset t k x = t"
  by (cases t) (auto simp: dset_def has_key_iff_map_of dget_def dget_or_def update_triv)

lemma set_defaults_id: "\<forall>kv \<in> set kvs. has_key t (fst kv) \<Longrightarrow> set_defaults t kvs = t"
  by (induction kvs) (auto simp: set_defaults_def dsetdefault_def)

lemma migrate_id:
  assumes "is_dict t" and "dget t ''schema'' = PyInt 4" and "\<forall>kv \<in> set schema4_defaults. has_key t (fst kv)" and "is_dict (dget t ''tdd'')"
    and "\<forall>kv \<in> set (entries empty_tdd). has_key (dget t ''tdd'') (fst kv)" and "has_key t ''transitions''" and "dget t ''transitions'' = PyList []"
    and "has_key t ''integrity_sha256''" and "dget t ''integrity_sha256'' = PyStr (state_digest t)"
  shows "migrate t = Inr t"
proof -
  have m: "set_defaults t schema4_defaults = t" "set_defaults (dget t ''tdd'') (entries empty_tdd) = dget t ''tdd''"
    using assms(3,5) by (simp_all only: set_defaults_id)
  have "has_key t ''tdd''" using assms(3) by (simp add: schema4_defaults_def)
  then have k: "dset t ''tdd'' (dget t ''tdd'') = t" "dset t ''transitions'' (PyList []) = t" "seal_task t = t"
    using assms by (simp_all add: dset_same seal_task_def)
  show ?thesis unfolding migrate_def Let_def using assms(1,2,4,6,7) by (simp add: m k dget_or_key)
qed

lemma stamped_valid:
  assumes "validate_task t (Some i) = Inr ()" and "\<not> blank now" and "0 \<le> n"
  shows "validate_task (seal_task (dset (dset t ''revision'' (PyInt n)) ''updated'' (PyStr now))) (Some i) = Inr ()"
proof -
  let ?u = "dset (dset t ''revision'' (PyInt n)) ''updated'' (PyStr now)"
  let ?s = "seal_task ?u"
  have d: "is_dict t" by (rule validated_fields(2) [OF assms(1)])
  have f: "dget ?s k = (if k = ''integrity_sha256'' then PyStr (state_digest ?u) else if k = ''updated'' then PyStr now else if k = ''revision'' then PyInt n else dget t k)" for k
    by (simp add: seal_task_def)
  have k: "has_key t k \<Longrightarrow> has_key ?s k" for k using d by (simp add: seal_task_def)
  have v: "check_header t (Some i) = Inr ()" "check_tdd t = Inr ()" "check_receipts t = Inr ()" "check_arrays t = Inr ()" "check_active_child t = Inr ()" "check_transitions t = Inr ()"
    using assms(1) by (simp_all add: validate_task_def check_all_Inr)
  have "check_header ?s (Some i) = Inr ()" using v(1) k d assms(2,3) unfolding check_header_def check_all_Inr
    by (simp add: f is_text_def is_nonneg_int_def split: if_splits) (simp add: seal_task_def)
  moreover have "check_tdd ?s = Inr ()" using v(2) d by (simp add: check_tdd_def f) (simp add: seal_task_def)
  moreover have "check_review_field ?s = check_review_field t" unfolding check_review_field_def f by simp
  then have "check_receipts ?s = Inr ()" using v(3) unfolding check_receipts_def check_all_Inr by (simp add: f)
  moreover have "check_arrays ?s = Inr ()" using v(4) d unfolding check_arrays_def check_all_Inr by (simp add: f) (simp add: seal_task_def)
  moreover have "check_active_child ?s = Inr ()" using v(5) by (simp add: check_active_child_def check_brief_def f)
  moreover have "check_transitions ?s = Inr ()" using v(6) by (simp add: check_transitions_def f)
  moreover have "state_digest ?s = state_digest ?u" by (simp add: seal_task_def state_seal.digest_ignores_field)
  ultimately show ?thesis using assms(1) unfolding validate_task_def check_all_Inr by (simp add: f)
qed


lemma append_only_refl:
  assumes "validate_task t (Some i) = Inr ()" and "dget t ''gates'' = PyList []" and "dget t ''risks'' = PyList []" and "is_dict (dget t ''tdd'')" and "dget (dget t ''tdd'') ''cycles'' = PyList []"
    and "\<forall>f \<in> set [''decisions'', ''child_history'', ''transitions'']. dget t f = PyList []"
  shows "validate_append_only t t = Inr ()"
proof -
  have h: "check_header t (Some i) = Inr ()" using assms(1) by (simp add: validate_task_def check_all_Inr)
  have k: "\<forall>k \<in> set task_required. has_key t k" using h by (simp add: check_header_def check_all_Inr)
  have "dget_or t f d = dget t f" if "f \<in> set task_required" for f d using k that by (simp add: dget_or_key)
  from this [of "''decisions''"] this [of "''child_history''"] this [of "''transitions''"] this [of "''gates''"] this [of "''risks''"] this [of "''change_epoch''"]
  have o: "dget_or t ''decisions'' d = PyList []" "dget_or t ''child_history'' d = PyList []" "dget_or t ''transitions'' d = PyList []" "dget_or t ''gates'' d = PyList []"
    "dget_or t ''risks'' d = PyList []" "dget_or t ''change_epoch'' d = dget t ''change_epoch''" for d using assms by (simp_all add: task_required_def)
  have e: "is_nonneg_int (dget t ''change_epoch'')" using h by (simp add: check_header_def check_all_Inr)
  have "has_key t ''tdd''" using assms(4) by (intro dget_not_None_key) (auto simp: is_dict_def)
  then have "check_cycles t t = Inr ()" using assms(5) dget_not_None_key [of "dget t ''tdd''" "''cycles''"]
    by (simp add: check_cycles_def Let_def dget_or_key check_all_Inr)
  moreover have "check_epoch t t = Inr ()" using e by (cases "dget t ''change_epoch''") (simp_all add: check_epoch_def o number_def is_nonneg_int_def)
  ultimately show ?thesis using assms unfolding validate_append_only_def check_all_Inr
    by (simp add: o check_same_def check_prefix_def check_items_def check_all_Inr)
qed

lemma resave_new_task:
  assumes "task_id_ok i" and "\<not> blank title" and "\<not> blank (en_now v)" and "md \<in> set MODES" and "c \<in> set COMPLEXITIES" and "r \<in> set RISKS" and "\<not> blank now"
  defines "t \<equiv> canon (new_task v i title md c r)"
  shows "revised now (Inr []) t t = Inr (seal_task (dset (dset t ''revision'' (PyInt 1)) ''updated'' (PyStr now)))"
proof -
  note w = new_task_wf [of v i title md c r] and f = new_task_fields [of v i title md c r]
  have val: "validate_task t (Some i) = Inr ()" using new_task_valid [OF assms(1-6)] validate_task_canon [OF w] by (simp add: t_def)
  have g: "dget t k = canon (dget (new_task v i title md c r) k)" for k unfolding t_def by (rule dget_canon [OF w])
  have hk: "has_key t k = has_key (new_task v i title md c r) k" for k by (simp add: t_def)
  have dg: "dget t ''integrity_sha256'' = PyStr (state_digest t)" using new_task_digest [of v i title md c r] by (simp add: g) (simp add: t_def)
  have keys: "\<forall>kv \<in> set schema4_defaults. has_key t (fst kv)" "has_key t ''transitions''" "has_key t ''integrity_sha256''" "has_key t ''gates''" "has_key t ''evidence_set_digest''"
    by (simp_all add: hk schema4_defaults_def new_task_def seal_task_def)
  have td: "is_dict (dget t ''tdd'')" "\<forall>kv \<in> set (entries empty_tdd). has_key (dget t ''tdd'') (fst kv)" "dget (dget t ''tdd'') ''cycles'' = PyList []"
    using dget_canon [of empty_tdd "''cycles''"] by (simp_all add: g f) (auto simp: empty_tdd_def)
  have m: "migrate t = Inr t" by (rule migrate_id) (use validated_fields(2) [OF val] keys td dg in \<open>simp_all add: g f\<close>)
  have ap: "validate_append_only t t = Inr ()" by (rule append_only_refl [OF val]) (use td in \<open>simp_all add: g f\<close>)
  have esd: "dset t ''evidence_set_digest'' (PyStr (evidence_set_digest [])) = t"
    by (rule dset_same [OF keys(5)]) (simp add: g f evidence_set_digest_def EMPTY_EVIDENCE_SET_DIGEST_def)
  have id: "dget t ''id'' = PyStr i" by (simp add: g f)
  have "prepare_save now [] t t t (PyInt 0) = Inr (seal_task (dset (dset t ''revision'' (PyInt 1)) ''updated'' (PyStr now)))"
    unfolding prepare_save_def Let_def esd
    using ap stamped_valid [OF val assms(7), of 1] keys(4)
    by (simp add: dget_or_key g f check_evidence_head_def ledger_head_def check_all_Inr drop_stale_falsification_def drop_stale_review_def stamp_def number_def reopen_audit_def whenever_def)
  then show ?thesis unfolding revised_def save_begin_def using m by (simp add: g f)
qed

section \<open>Properties of the store\<close>

text \<open>
  C2: the round trip of a task. On a healthy disk that has no trace of the new identifier,
  \<open>create\<close> with a non-blank title and known mode, complexity and risk returns a task of revision 0 in
  CREATED whose identifier is valid whatever the title is; afterwards the disk is healthy, \<open>load\<close> of that
  identifier and \<open>load\<close> without one both return the task as written, and every other stored task is
  stored as before.
\<close>

theorem create_load_roundtrip:
  assumes "healthy v d" and "fresh_tx v ''task-create'' d" and "unused d (new_id v title)"
    and "8 \<le> length (en_uuid v)" and "list_all is_hex (en_uuid v)" and "\<not> blank (en_now v)"
    and "\<not> blank title" and "md \<in> set MODES" and "complexity \<in> set COMPLEXITIES" and "risk \<in> set RISKS"
  shows "\<exists>d' t. create v title md complexity risk d = (d', Inr t) \<and> healthy v d' \<and> task_id_ok (new_id v title)
    \<and> dget t ''id'' = PyStr (new_id v title) \<and> dget t ''state'' = PyStr ''CREATED'' \<and> dget t ''revision'' = PyInt 0
    \<and> load v ws (Some (new_id v title)) d' = (d', Inr (canon t)) \<and> load v ws None d' = (d', Inr (canon t))
    \<and> other_tasks_kept (new_id v title) d d'"
proof -
  let ?i = "new_id v title" and ?t = "new_task v (new_id v title) title md complexity risk"
  obtain d' where d': "create v title md complexity risk d = (d', Inr ?t)" "healthy v d'" "stored d' ?i ?t [new_anchor ?t None]"
      "own_file d' current_file (?i @ [newline])" "other_tasks_kept ?i d d'"
    using create_stores [OF assms] by blast
  note f = new_task_fields [of v ?i title md complexity risk]
  have "loaded ws x (canon ?t) = Inr (canon ?t)" for x using dget_canon [OF new_task_wf] by (simp add: loaded_def f)
  then have "load v ws (Some ?i) d' = (d', Inr (canon ?t))" "load v ws None d' = (d', Inr (canon ?t))"
    using load_refines [OF d'(2,3)] load_unlocked_refines [OF d'(2,3)] current_id_ok [OF d'(2-4)] by (simp_all add: load_def)
  then show ?thesis using d' new_id_ok [OF assms(4,5)] f by blast
qed

text \<open>
  C1: \<open>mutate\<close> refines a pure function of the stored task. On a healthy disk, let \<open>fn\<close> leave the
  disk alone and return \<open>changed\<close> for the stored task. If \<open>mutated\<close> (the load check of a finalized
  task, the guards on terminal states, stale revisions and active children, the result of \<open>fn\<close>, and the
  rules of a save against the verified ledger) raises, then \<open>mutate\<close> raises the same and the disk is
  untouched. Otherwise \<open>mutate\<close> returns that task, with the revision increased by one; the disk is
  healthy, a later \<open>load\<close> answers from the new task, the chain of anchors is the old one with one more
  that names the old head, and every other stored task is stored as before.
\<close>

theorem mutate_refines:
  assumes "healthy v d" and "stored d i task as" and "fresh_tx v ''task-state'' d" and "fn (canon task) d = (d, changed)"
    and "\<forall>x. changed = Inr x \<longrightarrow> wf_val x"
  shows "case mutated (en_now v) ws (ledger_of d i) expected allow changed (canon task) of
      Inl e \<Rightarrow> mutate v ws fn (Some i) expected allow held None d = (d, Inl e)
    | Inr u \<Rightarrow> dget u ''revision'' = PyInt (int (length as)) \<and> (\<exists>d'. mutate v ws fn (Some i) expected allow held None d = (d', Inr u) \<and> healthy v d'
        \<and> stored d' i u (as @ [new_anchor u (Some (canon (last as)))]) \<and> load v ws' (Some i) d' = (d', loaded ws' (ledger_of d' i) (canon u))
        \<and> other_tasks_kept i d d')"
proof (cases "mutated (en_now v) ws (ledger_of d i) expected allow changed (canon task)")
  case (Inl e)
  then show ?thesis using mutate_cases [of v d i task as fn changed ws expected allow held, OF assms] by simp
next
  case (Inr u)
  then obtain d' where d': "mutate v ws fn (Some i) expected allow held None d = (d', Inr u)" "healthy v d'"
    "stored d' i u (as @ [new_anchor u (Some (canon (last as)))])" "other_tasks_kept i d d'"
    using mutate_cases [of v d i task as fn changed ws expected allow held, OF assms] by auto
  have "dget u ''revision'' = PyInt (int (length as))" using d'(3) by (simp add: stored_def)
  then show ?thesis using Inr d' load_refines [OF d'(2,3)] by auto
qed

section \<open>A concrete store\<close>

definition sample_env :: env where
  "sample_env = \<lparr>en_root = [''repo''], en_now = ''2026-01-01'', en_uuid = ''0123abcd'', en_tx = ''t1'', en_age = (\<lambda>_. None)\<rparr>"

definition sample_store :: disk where
  "sample_store = map (\<lambda>p. (p, Directory)) ([''.aegis''] # persistent_dir # control_dirs)"

lemmas sample_paths = control_dirs_def leases_dir_def path_defs

lemma sample_store_nodes: "node_at sample_store p = (if p \<in> set ([] # [''.aegis''] # persistent_dir # control_dirs) then Some Directory else None)"
  by (auto simp: node_at_def sample_store_def map_of_map_restrict restrict_map_def map_of_eq_None_iff map_of_map [unfolded comp_def])

lemma sample_steps: "p \<in> set control_dirs \<Longrightarrow> set (steps p) \<subseteq> set ([''.aegis''] # persistent_dir # control_dirs)"
proof -
  have "list_all (\<lambda>p. list_all (\<lambda>q. q \<in> set ([''.aegis''] # persistent_dir # control_dirs)) (steps p)) control_dirs" by (simp add: sample_paths steps_def)
  then show "p \<in> set control_dirs \<Longrightarrow> set (steps p) \<subseteq> set ([''.aegis''] # persistent_dir # control_dirs)" unfolding list_all_iff by blast
qed

lemma sample_healthy: "healthy sample_env sample_store"
proof -
  have "dirs_to sample_store p" if "p \<in> set control_dirs" for p using sample_steps [OF that] by (auto simp: dirs_to_def is_dir_def sample_store_nodes)
  moreover have "no_pending sample_store transactions" unfolding no_pending_def is_dir_def sample_store_nodes by (auto simp: sample_paths)
  ultimately show ?thesis by (simp add: healthy_def sample_env_def plain_def normal_def slash_def)
qed

lemma sample_unused: "task_id_ok i \<Longrightarrow> unused sample_store i"
  unfolding unused_def exists_def sample_store_nodes by (auto simp: sample_paths)

lemma sample_fresh: "fresh_tx sample_env name sample_store"
  unfolding fresh_tx_def exists_def sample_store_nodes by (auto simp: sample_paths)

lemma sample_uuid: "8 \<le> length (en_uuid sample_env)" "list_all is_hex (en_uuid sample_env)" "\<not> blank (en_now sample_env)"
  by (simp_all add: sample_env_def is_hex_def is_digit_def less_eq_char_def blank_def strip_def is_space_def)

lemma sample_args: "\<not> blank ''Fix it''" "''write'' \<in> set MODES" "''M'' \<in> set COMPLEXITIES" "''low'' \<in> set RISKS"
  by (simp_all add: blank_def strip_def is_space_def MODES_def COMPLEXITIES_def RISKS_def)

theorem create_load_roundtrip_witness:
  "\<exists>d' t. create sample_env ''Fix it'' ''write'' ''M'' ''low'' sample_store = (d', Inr t) \<and> load sample_env PyNone None d' = (d', Inr (canon t))"
  using create_load_roundtrip [OF sample_healthy sample_fresh sample_unused [OF new_id_ok [OF sample_uuid(1,2)]] sample_uuid sample_args, of PyNone] by blast

lemma no_ledger: "\<not> exists d (tasks_dir @ [i, ''evidence.jsonl'']) \<Longrightarrow> \<not> exists d (tasks_dir @ [i, ''evidence-head.json'']) \<Longrightarrow> ledger_of d i = Inr []"
  by (simp add: ledger_of_def evidence_at_def load_evidence_def load_anchor_def file_at_def is_dir_def exists_def read_def)

text \<open>A second revision of the new task: every hypothesis holds and the change is saved.\<close>

theorem mutate_refines_witness:
  "\<exists>d i task as d' u. healthy sample_env d \<and> stored d i task as
     \<and> mutate sample_env PyNone (\<lambda>t. io_res (Inr t)) (Some i) (Some 0) False False None d = (d', Inr u) \<and> dget u ''revision'' = PyInt 1"
proof -
  let ?i = "new_id sample_env ''Fix it''" and ?t = "new_task sample_env (new_id sample_env ''Fix it'') ''Fix it'' ''write'' ''M'' ''low''"
  let ?u = "seal_task (dset (dset (canon ?t) ''revision'' (PyInt 1)) ''updated'' (PyStr (en_now sample_env)))"
  have i: "task_id_ok ?i" by (rule new_id_ok [OF sample_uuid(1,2)])
  obtain d where d: "healthy sample_env d" "stored d ?i ?t [new_anchor ?t None]"
    and rest: "\<forall>q. \<not> exists sample_store (tasks_dir @ ?i # q) \<longrightarrow> q \<noteq> [] \<longrightarrow> q \<noteq> [''state.json''] \<longrightarrow> \<not> exists d (tasks_dir @ ?i # q)"
    and fr: "fresh_tx sample_env ''task-state'' sample_store \<longrightarrow> fresh_tx sample_env ''task-state'' d"
    using create_stores [OF sample_healthy sample_fresh sample_unused [OF i] sample_uuid sample_args] by auto
  have "\<not> exists sample_store (tasks_dir @ ?i # q)" for q using sample_unused [OF i] unfolding unused_def by blast
  then have l: "ledger_of d ?i = Inr []" using rest by (intro no_ledger) simp_all
  have f: "dget (canon ?t) k = canon (dget ?t k)" for k by (rule dget_canon [OF new_task_wf])
  have "mutated (en_now sample_env) PyNone (ledger_of d ?i) (Some 0) False (Inr (canon ?t)) (canon ?t) = Inr ?u"
    unfolding mutated_def l using resave_new_task [OF i sample_args(1) sample_uuid(3) sample_args(2-4) sample_uuid(3)]
    by (simp add: loaded_def mutable_def check_all_Inr f new_task_fields str_in_def TERMINAL_STATES_def)
  moreover have "fresh_tx sample_env ''task-state'' d" using fr sample_fresh by blast
  moreover have "\<forall>x. Inr (canon ?t) = Inr x \<longrightarrow> wf_val x" using new_task_wf by simp
  ultimately have "dget ?u ''revision'' = PyInt 1 \<and> (\<exists>d'. mutate sample_env PyNone (\<lambda>t. io_res (Inr t)) (Some ?i) (Some 0) False False None d = (d', Inr ?u))"
    using mutate_refines [where fn = "\<lambda>t. io_res (Inr t)" and changed = "Inr (canon ?t)" and ws = PyNone and ws' = PyNone and expected = "Some 0" and allow = False and held = False, OF d]
    by (auto simp: io_res_apply)
  then show ?thesis using d by blast
qed

end
