(* ===== verification/Store_Transitions.thy ===== *)
theory Store_Transitions
  imports Store_Laws
begin

text \<open>
  The public operations of \<open>StateStore\<close> that advance a task (\<open>transition\<close>, \<open>audit_complete\<close>,
  \<open>record_tdd_cycle\<close>, \<open>record_falsification\<close>, \<open>record_review\<close>) as functions of the stored task, its ledger
  and the readings of lease and workspace, and what a finalized task has behind it.
\<close>

section \<open>Changed tasks are well formed\<close>

lemma wf_map_items:
  assumes "wf_val t" and "\<And>x. wf_val x \<Longrightarrow> wf_val (f x)"
  shows "wf_val (map_items f t field)"
proof -
  have "list_all wf_val (map f (items (dget t field)))" using wf_item [OF wf_dget [OF assms(1)]] assms(2) by (auto simp: list_all_iff)
  then show ?thesis using assms(1) by (auto simp: map_items_def list_all_iff intro!: wf_dset)
qed

lemma wf_reset_gate: "wf_val g \<Longrightarrow> wf_val (reset_gate g)"
  by (auto simp: reset_gate_def intro!: wf_dset)

lemma wf_reopen_risk: "wf_val r \<Longrightarrow> wf_val (reopen_risk r)"
  by (auto simp: reopen_risk_def intro!: wf_dset wf_dpop)

lemma wf_drop_receipts: "wf_val t \<Longrightarrow> wf_val (drop_receipts t)"
  by (auto simp: drop_receipts_def drop_audit_def intro!: wf_dset wf_dpop)

lemma wf_new_candidate: "wf_val t \<Longrightarrow> wf_val (new_candidate n t)"
  unfolding new_candidate_def by (intro wf_map_items wf_drop_receipts wf_reset_gate wf_reopen_risk wf_dset) simp_all

lemma wf_block_fields: "wf_val t \<Longrightarrow> wf_val (block_fields tgt reason t)"
  by (auto simp: block_fields_def Let_def intro!: wf_dset wf_dpop wf_dget)

lemma enter_state_cases:
  assumes "enter_state now tgt reason t = Inr u"
  obtains t1 t2 r e where "t1 = dset (block_fields tgt reason t) ''state'' (PyStr tgt)"
    and "if tgt \<in> set [''IMPLEMENT'', ''REMEDIATE''] then \<exists>n. py_int (dget_or t1 ''change_epoch'' (PyInt 0)) = Inr n \<and> t2 = new_candidate n t1
      else t2 = (if tgt = ''TEST_DESIGN'' then drop_receipts t1 else t1)"
    and "py_int (dget_or t2 ''revision'' (PyInt 0)) = Inr r" and "py_int (dget_or t2 ''change_epoch'' (PyInt 0)) = Inr e"
    and "u = dset t2 ''transitions'' (PyList (items (dget t2 ''transitions'') @
       [PyDict [(''at'', PyStr now), (''from'', dget t ''state''), (''to'', PyStr tgt), (''reason'', PyStr (strip reason)), (''revision'', PyInt (r + 1)), (''epoch'', PyInt e)]]))"
proof -
  define t1 where "t1 = dset (block_fields tgt reason t) ''state'' (PyStr tgt)"
  obtain t2 r e where c: "(if tgt \<in> set [''IMPLEMENT'', ''REMEDIATE''] then res_bind (py_int (dget_or t1 ''change_epoch'' (PyInt 0))) (\<lambda>epoch. Inr (new_candidate epoch t1))
         else Inr (if tgt = ''TEST_DESIGN'' then drop_receipts t1 else t1)) = Inr t2"
    "py_int (dget_or t2 ''revision'' (PyInt 0)) = Inr r" "py_int (dget_or t2 ''change_epoch'' (PyInt 0)) = Inr e"
    "u = dset t2 ''transitions'' (PyList (items (dget t2 ''transitions'') @
       [PyDict [(''at'', PyStr now), (''from'', dget t ''state''), (''to'', PyStr tgt), (''reason'', PyStr (strip reason)), (''revision'', PyInt (r + 1)), (''epoch'', PyInt e)]]))"
    using assms unfolding enter_state_def Let_def t1_def [symmetric] res_bind_Inr by blast
  show ?thesis by (rule that [OF t1_def _ c(2-4)]) (use c(1) in \<open>auto simp only: res_bind_Inr split: if_splits\<close>)
qed

lemma wf_enter_state:
  assumes "enter_state now tgt reason t = Inr u" and "wf_val t"
  shows "wf_val u"
  using assms(1)
proof (rule enter_state_cases)
  fix t1 t2 r e
  assume t1: "t1 = dset (block_fields tgt reason t) ''state'' (PyStr tgt)"
    and t2: "if tgt \<in> set [''IMPLEMENT'', ''REMEDIATE''] then \<exists>n. py_int (dget_or t1 ''change_epoch'' (PyInt 0)) = Inr n \<and> t2 = new_candidate n t1
      else t2 = (if tgt = ''TEST_DESIGN'' then drop_receipts t1 else t1)"
    and u: "u = dset t2 ''transitions'' (PyList (items (dget t2 ''transitions'') @
       [PyDict [(''at'', PyStr now), (''from'', dget t ''state''), (''to'', PyStr tgt), (''reason'', PyStr (strip reason)), (''revision'', PyInt (r + 1)), (''epoch'', PyInt e)]]))"
  have w1: "wf_val t1" unfolding t1 by (intro wf_dset wf_block_fields assms(2)) simp
  then have w2: "wf_val t2" using t2 wf_new_candidate wf_drop_receipts by (auto split: if_splits)
  then have "\<forall>x \<in> set (items (dget t2 ''transitions'')). wf_val x" using wf_item wf_dget by blast
  then show ?thesis unfolding u using w2 wf_dget [OF assms(2)] by (auto simp: list_all_iff intro!: wf_dset)
qed

section \<open>A transition\<close>

definition leased :: "disk \<Rightarrow> bool" where
  "leased d \<longleftrightarrow> truthy (dget (lease_inspect d (leases_dir @ [''subagent-lease.json''])) ''exists'')"

text \<open>The body of \<open>transition\<close> on a task: the state machine, then for an audit the lease and the proofs, then the workspace.\<close>

definition advanced :: "env \<Rightarrow> bool \<Rightarrow> pyval list res \<Rightarrow> pyval \<Rightarrow> pyval \<Rightarrow> string \<Rightarrow> string \<Rightarrow> pyval \<Rightarrow> pyval res" where
  "advanced v lease ledger first second tgt reason task =
     res_bind (validate_transition task tgt (Some reason)) (\<lambda>_.
     res_bind (whenever (tgt \<in> set [''FINAL_AUDIT'', ''FINALIZE''])
       (res_bind (guard (\<not> lease) (RuntimeErr ''global subagent lease blocks final audit/finalization'')) (\<lambda>_.
        res_bind ledger (\<lambda>records. validate_proofs (en_age v) records task (tgt = ''FINALIZE''))))) (\<lambda>_.
     res_bind (whenever (tgt = ''FINALIZE'') (check_workspace first second task)) (\<lambda>_.
     enter_state (en_now v) tgt reason task)))"

lemma check_lease_eq: "healthy v d \<Longrightarrow> check_lease v m d = (d, guard (\<not> leased d) (RuntimeErr m))"
  using control_dir_ok [of v d leases_dir] by (simp add: check_lease_def leased_def io_get_def)

lemma check_proofs_eq:
  assumes "healthy v d" and "stored d i task as" and "dget t ''id'' = PyStr i"
  shows "check_proofs v t b d = (d, res_bind (ledger_of d i) (\<lambda>records. validate_proofs (en_age v) records t b))"
  using load_ledger_eq [OF assms(1,2)] by (auto simp: check_proofs_def assms(3) io_bind_def io_res_apply res_bind_def split: sum.splits)

lemma canon_id: "stored d i task as \<Longrightarrow> dget (canon task) ''id'' = PyStr i"
  using validated_fields(1) [of task i] by (auto simp: stored_def dget_canon)

lemma apply_transition_eq:
  assumes h: "healthy v d" and s: "stored d i task as"
  shows "apply_transition v a b tgt reason (canon task) d = (d, advanced v (leased d) (ledger_of d i) a b tgt reason (canon task))"
proof -
  note e = check_lease_eq [OF h] check_proofs_eq [OF h s canon_id [OF s]]
  show ?thesis
    by (cases "tgt \<in> set [''FINAL_AUDIT'', ''FINALIZE'']")
       (simp_all add: apply_transition_def advanced_def io_bind_def io_res_apply io_return_def res_bind_def whenever_def e split: sum.splits)
qed

lemma wf_advanced: "advanced v l ledger a b tgt reason t = Inr u \<Longrightarrow> wf_val t \<Longrightarrow> wf_val u"
  by (auto simp: advanced_def res_bind_Inr dest: wf_enter_state)

lemma dget_map_items: "k \<noteq> field \<Longrightarrow> dget (map_items f t field) k = dget t k"
  by (simp add: map_items_def)

lemma entered_state: "enter_state now tgt reason t = Inr u \<Longrightarrow> dget u ''state'' = PyStr tgt"
  by (erule enter_state_cases) (auto simp: new_candidate_def drop_receipts_def drop_audit_def dget_map_items split: if_splits)

lemma migrate_other:
  assumes "migrate t = Inr u" and "k \<notin> {''schema'', ''tdd'', ''transitions'', ''integrity_sha256''}" and "k \<notin> fst ` set schema4_defaults"
  shows "dget u k = dget t k"
  using assms(1)
proof (rule migrate_cases)
  fix m2 m3
  assume m: "m2 = set_defaults (if py_eq (dget t ''schema'') (PyInt 4) then t else dset t ''schema'' (PyInt 4)) schema4_defaults"
    "m3 = dset m2 ''tdd'' (set_defaults (dget m2 ''tdd'') (entries empty_tdd))"
    and u: "u = seal_task m3 \<or> (\<exists>ts ts'. dget_or m3 ''transitions'' (PyList []) = PyList ts \<and> migrate_transitions 1 0 ts = Inr ts' \<and> u = seal_task (dset m3 ''transitions'' (PyList ts')))"
  have "dget m2 k = dget t k" unfolding m(1) using assms(2) by (simp add: set_defaults_other [OF assms(3)])
  then have "dget m3 k = dget t k" using assms(2) by (simp add: m(2))
  then show ?thesis using u assms(2) by (auto simp: seal_task_def)
qed

lemma revised_state:
  assumes "revised now ledger current upd = Inr u"
  shows "dget u ''state'' = dget upd ''state''"
  using assms
proof (rule revised_cases)
  fix migrated upd' records
  assume b: "save_begin current upd (dget current ''revision'') = Inr (migrated, upd')"
    and p: "prepare_save now records current migrated upd' (dget current ''revision'') = Inr u"
  obtain u3 where u3: "drop_stale_review current migrated (drop_stale_falsification current migrated (dset upd' ''evidence_set_digest'' (PyStr (evidence_set_digest records)))) = Inr u3"
    "stamp now (reopen_audit current u3) (dget current ''revision'') = Inr u" by (rule prepare_save_cases [OF p])
  have "dget u ''state'' = dget u3 ''state''" using stamp_other [OF u3(2), of "''state''"] by simp
  also have "\<dots> = dget upd' ''state''" using drop_stale_other [OF u3(1), of "''state''"] by simp
  also have "\<dots> = dget upd ''state''" by (rule migrate_other [OF save_begin_cases(2) [OF b]]) (simp_all add: schema4_defaults_def)
  finally show ?thesis .
qed

lemma loaded_same: "loaded ws ledger t = Inr x \<Longrightarrow> x = t"
  by (auto simp: loaded_def res_bind_Inr split: if_splits)

lemma transition_steps:
  assumes "healthy v d" and "stored d i task as" and "\<not> blank reason"
  shows "transition v ws tgt reason (Some i) d = (case loaded (ws 0) (ledger_of d i) (canon task) of Inl e \<Rightarrow> (d, Inl e) | Inr _ \<Rightarrow>
      if dget task ''state'' = PyStr (upper tgt) \<and> upper tgt = ''FINALIZE'' then (d, Inr (canon task))
      else io_bind (change v (ws 0) (apply_transition v (ws 1) (ws 2) (upper tgt) reason) i)
        (\<lambda>upd. if upper tgt = ''FINALIZE'' then load v (ws 3) (Some i) else io_return upd) d)"
proof -
  let ?l = "loaded (ws 0) (ledger_of d i) (canon task)"
  have i: "task_id_ok i" and w: "wf_val task" using assms(2) by (auto simp: stored_def)
  have st: "dget (canon task) ''state'' = PyStr s \<longleftrightarrow> dget task ''state'' = PyStr s" for s by (simp add: dget_canon [OF w])
  have ld: "load v (ws 0) (Some i) d = (d, ?l)" by (rule load_refines [OF assms(1,2)])
  show ?thesis
  proof (cases ?l)
    case (Inr x)
    then have "load v (ws 0) (Some i) d = (d, Inr (canon task))" using ld loaded_same by simp
    then show ?thesis using Inr chosen_ok [OF i, of v d] assms(3) st by (auto simp: transition_def Let_def io_return_def)
  qed (use ld chosen_ok [OF i, of v d] assms(3) in \<open>simp add: transition_def Let_def\<close>)
qed

text \<open>
  C3: \<open>transition\<close> refines the workflow. On a healthy disk with a stored task and a reason that is not
  blank, a transition to FINALIZE of a finalized task answers what \<open>load\<close> answers and writes nothing. Any
  other transition is decided by \<open>advanced\<close> (the state machine, the lease, the proofs in the verified
  ledger, the two workspace readings) and the rules of a save: when they raise, so does \<open>transition\<close> and the
  disk is untouched; otherwise the stored task is the one they give, in the state asked for, with one more
  anchor; every other task is kept, and after FINALIZE the answer is that of loading the task again.
\<close>

theorem transition_refines:
  assumes "healthy v d" and "stored d i task as" and "fresh_tx v ''task-state'' d" and "\<not> blank reason"
  shows "if dget task ''state'' = PyStr ''FINALIZE'' \<and> upper tgt = ''FINALIZE''
    then transition v ws tgt reason (Some i) d = (d, loaded (ws 0) (ledger_of d i) (canon task))
    else case mutated (en_now v) (ws 0) (ledger_of d i) None False
        (advanced v (leased d) (ledger_of d i) (ws 1) (ws 2) (upper tgt) reason (canon task)) (canon task) of
      Inl e \<Rightarrow> transition v ws tgt reason (Some i) d = (d, Inl e)
    | Inr u \<Rightarrow> dget u ''state'' = PyStr (upper tgt) \<and> (\<exists>d'. healthy v d' \<and> stored d' i u (as @ [new_anchor u (Some (canon (last as)))])
        \<and> other_tasks_kept i d d' \<and> transition v ws tgt reason (Some i) d
          = (d', if upper tgt = ''FINALIZE'' then loaded (ws 3) (ledger_of d' i) (canon u) else Inr u))"
proof -
  let ?t = "canon task" and ?g = "upper tgt" and ?l = "loaded (ws 0) (ledger_of d i) (canon task)"
  let ?c = "advanced v (leased d) (ledger_of d i) (ws 1) (ws 2) (upper tgt) reason (canon task)"
  let ?m = "mutated (en_now v) (ws 0) (ledger_of d i) None False ?c ?t"
  have w: "wf_val task" using assms(2) by (simp add: stored_def)
  note tr = transition_steps [OF assms(1,2,4), of ws tgt]
  show ?thesis
  proof (cases "dget task ''state'' = PyStr ''FINALIZE'' \<and> ?g = ''FINALIZE''")
    case True
    then have "transition v ws tgt reason (Some i) d = (d, ?l)" using tr loaded_same by (cases ?l) auto
    then show ?thesis using True by simp
  next
    case False
    have cw: "\<forall>x. ?c = Inr x \<longrightarrow> wf_val x" using wf_advanced w by auto
    note mc = mutate_cases [of v d i task as "apply_transition v (ws 1) (ws 2) ?g reason" ?c "ws 0" None False False,
      OF assms(1-3) apply_transition_eq [OF assms(1,2)] cw, folded change_def]
    show ?thesis
    proof (cases ?m)
      case (Inl e)
      then have "change v (ws 0) (apply_transition v (ws 1) (ws 2) ?g reason) i d = (d, Inl e)" using mc by simp
      moreover have "?l = Inl e' \<Longrightarrow> e' = e" for e' using Inl by (simp add: mutated_def)
      ultimately have "transition v ws tgt reason (Some i) d = (d, Inl e)" using tr False by (cases ?l) (auto split: if_splits)
      then show ?thesis unfolding if_not_P [OF False] Inl by simp
    next
      case (Inr u)
      then obtain d' where d': "change v (ws 0) (apply_transition v (ws 1) (ws 2) ?g reason) i d = (d', Inr u)" "healthy v d'"
        "stored d' i u (as @ [new_anchor u (Some (canon (last as)))])" "other_tasks_kept i d d'" using mc by auto
      obtain x c where m: "?l = Inr x" "?c = Inr c" "revised (en_now v) (ledger_of d i) ?t c = Inr u" using Inr by (auto simp: mutated_def res_bind_Inr)
      have "enter_state (en_now v) ?g reason ?t = Inr c" using m(2) by (auto simp: advanced_def res_bind_Inr)
      then have s: "dget u ''state'' = PyStr ?g" using entered_state revised_state [OF m(3)] by simp
      have "transition v ws tgt reason (Some i) d = (d', if ?g = ''FINALIZE'' then loaded (ws 3) (ledger_of d' i) (canon u) else Inr u)"
        using tr m(1) False d'(1) load_refines [OF d'(2,3)] by (auto simp: io_return_def)
      then show ?thesis unfolding if_not_P [OF False] Inr using s d' by auto
    qed
  qed
qed


section \<open>What stands behind a finalized task\<close>

lemma dict_of_value:
  assumes "has_key (dict_of kvs) k"
  shows "(k, dget (dict_of kvs) k) \<in> set kvs"
proof -
  have "map_of (fold (\<lambda>(k, v) d. AList.update k v d) kvs xs) k = Some y \<Longrightarrow> (k, y) \<in> set kvs \<or> map_of xs k = Some y" for xs y
  proof (induction kvs arbitrary: xs)
    case (Cons kv kvs)
    obtain a b where "kv = (a, b)" by (cases kv)
    then show ?case using Cons.IH [of "AList.update a b xs"] Cons.prems by (auto simp: update_conv' split: if_splits)
  qed simp
  from this [of "[]"] show ?thesis using assms by (auto simp: has_key_iff_map_of dict_of_def dget_def dget_or_def)
qed

lemma record_found:
  assumes "has_key (records_by_id records) p"
  shows "dget (records_by_id records) p \<in> set records" and "py_str (dget (dget (records_by_id records) p) ''id'') = p"
  using dict_of_value [of "map (\<lambda>r. (py_str (dget r ''id''), r)) records" p] assms by (auto simp: records_by_id_def)

text \<open>A record that proves something for a task in its current epoch.\<close>

definition proves :: "pyval \<Rightarrow> bool \<Rightarrow> pyval \<Rightarrow> bool" where
  "proves task finalizing r \<longleftrightarrow> py_eq (dget r ''task_id'') (dget task ''id'') \<and> (\<exists>n. py_int (dget_or task ''change_epoch'' (PyInt 0)) = Inr n \<and> py_eq (dget r ''change_epoch'') (PyInt n))
     \<and> str_in (dget r ''provenance'') [''framework-command'', ''verified-observation'', ''external-source'']
     \<and> (dget r ''provenance'' = PyStr ''framework-command'' \<longrightarrow> dget (dget (details r) ''command'') ''success'' = PyBool True)
     \<and> (finalizing \<longrightarrow> py_eq (dget (dget (details r) ''workspace'') ''sha256'') (dget (dget task ''final_audit_workspace'') ''sha256''))"

lemma check_proof_proves:
  assumes "py_int (dget_or task ''change_epoch'' (PyInt 0)) = Inr n" and "check_proof age task n finalizing r = Inr ()"
  shows "proves task finalizing r"
  using assms unfolding check_proof_def Let_def check_all_Inr proves_def by (auto simp: memb_unit check_all_Inr)

lemma proofs_sound:
  assumes "validate_proofs age records task finalizing = Inr ()" and "p \<in> set (proof_ids task)"
  shows "\<exists>r \<in> set records. py_str (dget r ''id'') = py_str p \<and> proves task finalizing r"
proof -
  let ?b = "records_by_id records"
  have k: "has_key ?b (py_str p)" using assms by (auto simp: validate_proofs_def Let_def check_all_Inr)
  obtain n where n: "py_int (dget_or task ''change_epoch'' (PyInt 0)) = Inr n" "check_proof age task n finalizing (dget ?b (py_str p)) = Inr ()"
    using assms by (auto simp: validate_proofs_def Let_def check_all_Inr res_bind_Inr for_each_Inr)
  show ?thesis using record_found [OF k] check_proof_proves [OF n] by blast
qed

lemma gate_proof_relevant:
  assumes "validate_proofs age records task finalizing = Inr ()" and "g \<in> set (proven_gates task)" and "p \<in> set (items (dget g ''evidence''))"
  shows "\<exists>r \<in> set records. py_str (dget r ''id'') = py_str p \<and> proves task finalizing r \<and> py_in (dget g ''id'') (dget_or (details r) ''gate_ids'' (PyList [])) = Inr True"
proof -
  let ?b = "records_by_id records"
  have p: "p \<in> set (proof_ids task)" using assms(2,3) by (auto simp: proof_ids_def)
  have k: "has_key ?b (py_str p)" using assms(1) p by (auto simp: validate_proofs_def Let_def check_all_Inr)
  obtain n where n: "py_int (dget_or task ''change_epoch'' (PyInt 0)) = Inr n" "check_proof age task n finalizing (dget ?b (py_str p)) = Inr ()"
    using assms(1) p by (auto simp: validate_proofs_def Let_def check_all_Inr res_bind_Inr for_each_Inr)
  have "check_gate_proof ?b g p = Inr ()" using assms by (auto simp: validate_proofs_def Let_def check_all_Inr for_each_Inr)
  then have "py_in (dget g ''id'') (dget_or (details (dget ?b (py_str p))) ''gate_ids'' (PyList [])) = Inr True"
    by (auto simp: check_gate_proof_def Let_def res_bind_Inr)
  then show ?thesis using record_found [OF k] check_proof_proves [OF n] by blast
qed


text \<open>
  C4: what stands behind a finalized task. When the body of \<open>transition\<close> accepts FINALIZE for a task
  that is not finalized, the task is in FINAL_AUDIT with a completed audit, no child and no lease is
  active, its gates, blocking risks and verification are settled, and a write task has current GREEN,
  falsification and review receipts; the head of the verified ledger is the one the task records, every
  proof the task cites is a record of that ledger for this task and epoch, not entered by hand, of a
  successful command where it is one, and observed in the audited workspace; every proof of a proven
  gate names the gate; and both readings of the workspace are the audited one.
\<close>

theorem finalized_is_proven:
  assumes "advanced v lease ledger first second ''FINALIZE'' reason task = Inr u" and "dget task ''state'' \<noteq> PyStr ''FINALIZE''"
  shows "dget u ''state'' = PyStr ''FINALIZE'' \<and> dget task ''state'' = PyStr ''FINAL_AUDIT'' \<and> truthy (dget task ''final_audit_complete'')
    \<and> \<not> lease \<and> \<not> truthy (dget task ''active_child'') \<and> gates_settled task \<and> risks_settled task \<and> verified_now task
    \<and> (write_mode task \<longrightarrow> gate_evidence task \<and> (\<exists>c. green_current task c \<and> falsification_current task c \<and> review_current task c))
    \<and> (\<exists>records. ledger = Inr records \<and> py_eq (ledger_head records) (dget task ''evidence_head'')
        \<and> (\<forall>p \<in> set (proof_ids task). \<exists>r \<in> set records. py_str (dget r ''id'') = py_str p \<and> proves task True r)
        \<and> (\<forall>g \<in> set (proven_gates task). \<forall>p \<in> set (items (dget g ''evidence'')). \<exists>r \<in> set records. py_str (dget r ''id'') = py_str p
             \<and> proves task True r \<and> py_in (dget g ''id'') (dget_or (details r) ''gate_ids'' (PyList [])) = Inr True))
    \<and> truthy (dget first ''available'') \<and> py_eq (dget first ''sha256'') (dget second ''sha256'')
    \<and> py_eq (dget first ''sha256'') (dget (dget task ''final_audit_workspace'') ''sha256'')"
proof -
  have up: "upper ''FINALIZE'' = ''FINALIZE''" by code_simp
  have vt: "validate_transition task ''FINALIZE'' (Some reason) = Inr ()" and l: "\<not> lease"
    and w: "check_workspace first second task = Inr ()" and e: "enter_state (en_now v) ''FINALIZE'' reason task = Inr u"
    using assms(1) by (auto simp: advanced_def res_bind_Inr)
  obtain records where r: "ledger = Inr records" "validate_proofs (en_age v) records task True = Inr ()"
    using assms(1) by (auto simp: advanced_def res_bind_Inr)
  have hd: "py_eq (ledger_head records) (dget task ''evidence_head'')" using r(2) by (simp add: validate_proofs_def Let_def check_all_Inr)
  have "truthy (dget first ''available'')" "py_eq (dget first ''sha256'') (dget second ''sha256'')"
    "py_eq (dget first ''sha256'') (dget (dget task ''final_audit_workspace'') ''sha256'')"
    using w by (auto simp: check_workspace_def Let_def check_all_Inr)
  then show ?thesis using finalize_facts [OF vt up assms(2)] entered_state [OF e] l r(1) hd proofs_sound [OF r(2)] gate_proof_relevant [OF r(2)] by blast
qed

definition sample_proof :: pyval where
  "sample_proof = PyDict [(''schema'', PyInt 2), (''id'', PyStr ''E-1''), (''task_id'', PyStr ''task-1''), (''change_epoch'', PyInt 1), (''provenance'', PyStr ''framework-command''),
     (''record_sha256'', PyStr ''head''), (''details'', PyDict [(''command'', PyDict [(''success'', PyBool True)]), (''workspace'', PyDict [(''sha256'', PyStr ''tree'')]),
       (''gate_ids'', PyList [PyStr ''G1'']), (''task_revision'', PyInt 4)])]"

definition sample_audited :: pyval where
  "sample_audited = PyDict [(''id'', PyStr ''task-1''), (''mode'', PyStr ''read''), (''risk'', PyStr ''low''), (''state'', PyStr ''FINAL_AUDIT''), (''revision'', PyInt 9), (''change_epoch'', PyInt 1),
     (''verification_epoch'', PyInt 1), (''verification_evidence'', PyList [PyStr ''E-1'']), (''evidence_head'', PyStr ''head''), (''final_audit_complete'', PyBool True),
     (''final_audit_workspace'', PyDict [(''available'', PyBool True), (''sha256'', PyStr ''tree'')]),
     (''gates'', PyList [PyDict [(''id'', PyStr ''G1''), (''status'', PyStr ''PROVEN''), (''created_revision'', PyInt 3), (''evidence'', PyList [PyStr ''E-1''])]]),
     (''risks'', PyList []), (''transitions'', PyList [])]"

definition sample_tree :: pyval where
  "sample_tree = PyDict [(''available'', PyBool True), (''sha256'', PyStr ''tree'')]"

lemma sample_final: "\<exists>u. advanced sample_env False (Inr [sample_proof]) sample_tree sample_tree ''FINALIZE'' ''done'' sample_audited = Inr u"
proof -
  have up: "upper ''FINALIZE'' = ''FINALIZE''" by code_simp
  have "finalize_guards sample_audited = Inr ()" unfolding finalize_guards_def check_all_Inr
    by (simp add: sample_audited_def sample_guard_defs Let_def)
  then have "target_guards sample_audited ''FINAL_AUDIT'' ''FINALIZE'' = Inr ()" unfolding target_guards_Inr by simp
  then have "validate_transition sample_audited ''FINALIZE'' (Some ''done'') = Inr ()"
    unfolding validate_transition_Inr up by (simp add: edge_FINALIZE sample_audited_def blank_def strip_def is_space_def) (simp add: STATES_def)
  moreover have "validate_proofs (en_age sample_env) [sample_proof] sample_audited True = Inr ()"
    unfolding validate_proofs_def Let_def check_all_Inr
    by (simp add: sample_audited_def sample_proof_def ledger_head_def proof_ids_def proven_gates_def records_by_id_def dict_of_def check_proof_def check_gate_proof_def
        details_def check_all_Inr memb_unit str_in_def py_int_def py_in_def for_each_Inr Let_def del: for_each.simps)
  moreover have "check_workspace sample_tree sample_tree sample_audited = Inr ()" by (simp add: check_workspace_def sample_tree_def sample_audited_def check_all_Inr)
  moreover have "\<exists>u. enter_state (en_now sample_env) ''FINALIZE'' ''done'' sample_audited = Inr u"
    by (simp add: enter_state_def Let_def sample_audited_def block_fields_def py_int_def)
  ultimately show ?thesis by (simp add: advanced_def whenever_def)
qed

theorem finalized_is_proven_witness:
  "\<exists>u. advanced sample_env False (Inr [sample_proof]) sample_tree sample_tree ''FINALIZE'' ''done'' sample_audited = Inr u
     \<and> dget u ''state'' = PyStr ''FINALIZE'' \<and> gates_settled sample_audited"
proof -
  obtain u where u: "advanced sample_env False (Inr [sample_proof]) sample_tree sample_tree ''FINALIZE'' ''done'' sample_audited = Inr u" using sample_final by blast
  have "dget sample_audited ''state'' \<noteq> PyStr ''FINALIZE''" by (simp add: sample_audited_def)
  from u finalized_is_proven [OF u this] show ?thesis by (elim conjE) (intro exI conjI; assumption)
qed


text \<open>A new task may not be finalized: the state machine refuses and nothing is written.\<close>

theorem transition_refines_witness:
  "\<exists>d i task as e. healthy sample_env d \<and> stored d i task as \<and> transition sample_env (\<lambda>_. PyNone) ''FINALIZE'' ''done'' (Some i) d = (d, Inl e)"
proof -
  let ?i = "new_id sample_env ''Fix it''" and ?t = "new_task sample_env (new_id sample_env ''Fix it'') ''Fix it'' ''write'' ''M'' ''low''"
  have i: "task_id_ok ?i" by (rule new_id_ok [OF sample_uuid(1,2)])
  obtain d where d: "healthy sample_env d" "stored d ?i ?t [new_anchor ?t None]"
    and fr: "fresh_tx sample_env ''task-state'' sample_store \<longrightarrow> fresh_tx sample_env ''task-state'' d"
    using create_stores [OF sample_healthy sample_fresh sample_unused [OF i] sample_uuid sample_args] by auto
  have up: "upper ''FINALIZE'' = ''FINALIZE''" by code_simp
  have f: "dget (canon ?t) k = canon (dget ?t k)" for k by (rule dget_canon [OF new_task_wf])
  have "validate_transition (canon ?t) ''FINALIZE'' (Some ''done'') \<noteq> Inr ()"
  proof
    assume "validate_transition (canon ?t) ''FINALIZE'' (Some ''done'') = Inr ()"
    then obtain s where "dget (canon ?t) ''state'' = PyStr s" "edge s ''FINALIZE''"
      by (rule transition_guards) (simp_all add: up f new_task_fields)
    then show False by (simp add: edge_FINALIZE f new_task_fields)
  qed
  then obtain e0 where "validate_transition (canon ?t) ''FINALIZE'' (Some ''done'') = Inl e0" using unit_res_cases by blast
  then obtain e where "mutated (en_now sample_env) PyNone (ledger_of d ?i) None False
      (advanced sample_env (leased d) (ledger_of d ?i) PyNone PyNone ''FINALIZE'' ''done'' (canon ?t)) (canon ?t) = Inl e"
    by (auto simp: mutated_def loaded_def mutable_def check_all_Inr f new_task_fields str_in_def TERMINAL_STATES_def advanced_def)
  moreover have "fresh_tx sample_env ''task-state'' d" using fr sample_fresh by blast
  ultimately have "transition sample_env (\<lambda>_. PyNone) ''FINALIZE'' ''done'' (Some ?i) d = (d, Inl e)"
    using transition_refines [OF d, of "''done''" "''FINALIZE''" "\<lambda>_. PyNone"] by (simp add: up new_task_fields blank_def strip_def is_space_def)
  then show ?thesis using d by blast
qed

section \<open>What a save keeps\<close>

text \<open>The entries of \<open>before\<close> come first in \<open>after\<close>, equal as Python compares them.\<close>

definition extends_list :: "pyval \<Rightarrow> pyval \<Rightarrow> bool" where
  "extends_list before after \<longleftrightarrow> (\<exists>ys. after = PyList ys \<and> list_all2 py_eq (take (length (items before)) ys) (items before))"

lemma check_prefix_extends: "check_prefix x y e = Inr () \<Longrightarrow> extends_list x y"
  by (cases y) (simp_all add: check_prefix_def extends_list_def)

definition kept_items :: "(pyval \<Rightarrow> pyval \<Rightarrow> bool) \<Rightarrow> pyval list \<Rightarrow> pyval list \<Rightarrow> bool" where
  "kept_items same befores afters \<longleftrightarrow> (\<forall>b \<in> set befores. \<exists>a \<in> set afters. py_eq (dget b ''id'') (dget a ''id''))
     \<and> (\<forall>a \<in> set afters. \<forall>old. lookup_id befores (dget a ''id'') = Some old \<longrightarrow> same old a)"

lemma check_items_kept:
  assumes "check_items befores after_v same e1 e2 = Inr ()"
  shows "\<exists>afters. iter after_v = Inr afters \<and> kept_items same befores afters"
proof -
  obtain afters ids where a: "iter after_v = Inr afters" "map_res item_id afters = Inr ids" "\<forall>b \<in> set befores. \<exists>i \<in> set ids. py_eq (dget b ''id'') i"
    "\<forall>x \<in> set afters. case lookup_id befores (dget x ''id'') of None \<Rightarrow> True | Some old \<Rightarrow> same old x"
    using assms by (auto simp: check_items_def res_bind_Inr check_all_Inr for_each_Inr)
  have "ids = map (\<lambda>x. dget x ''id'') afters" using a(2) by (induction afters arbitrary: ids) (auto simp: res_bind_Inr item_id_def split: if_splits)
  then show ?thesis using a by (fastforce simp: kept_items_def)
qed

definition kept_cycle :: "pyval \<Rightarrow> pyval \<Rightarrow> bool" where
  "kept_cycle old new \<longleftrightarrow> (\<forall>f \<in> set immutable_cycle_fields. py_eq (dget new f) (dget old f))
     \<and> extends_list (dget_or old ''events'' (PyList [])) (dget_or new ''events'' (PyList []))
     \<and> (str_in (dget old ''status'') [''TDD_CYCLE_ABORTED'', ''TDD_CYCLE_COMPLETE''] \<longrightarrow> py_eq new old)"

lemma check_cycles_kept:
  assumes "check_cycles m u = Inr ()"
  shows "\<exists>ys. iter (dget_or (dget_or u ''tdd'' (PyDict [])) ''cycles'' (PyList [])) = Inr ys \<and> length (items (dget (dget m ''tdd'') ''cycles'')) \<le> length ys
    \<and> (\<forall>(old, new) \<in> set (zip (items (dget (dget m ''tdd'') ''cycles'')) ys). kept_cycle old new)"
proof -
  obtain ys where ys: "iter (dget_or (dget_or u ''tdd'' (PyDict [])) ''cycles'' (PyList [])) = Inr ys" "length (items (dget (dget m ''tdd'') ''cycles'')) \<le> length ys"
    "\<forall>p \<in> set (zip (items (dget (dget m ''tdd'') ''cycles'')) ys). check_cycle_pair p = Inr ()"
    using assms by (auto simp: check_cycles_def Let_def res_bind_Inr check_all_Inr for_each_Inr)
  have "check_cycle_pair (old, new) = Inr () \<Longrightarrow> kept_cycle old new" for old new
    by (auto simp: check_cycle_pair_def kept_cycle_def check_all_Inr check_prefix_extends split: if_splits)
  then show ?thesis using ys by blast
qed

lemma stamp_other_or:
  assumes "stamp now (reopen_audit current t) n = Inr u"
    and "k \<notin> {''revision'', ''updated'', ''integrity_sha256'', ''final_audit_complete'', ''final_audit_workspace''}"
  shows "dget_or u k x = dget_or t k x"
  using assms by (auto simp: stamp_def reopen_audit_def res_bind_Inr seal_task_def split: if_splits)

lemma for_each_same: "(\<And>x. x \<in> set xs \<Longrightarrow> f x = g x) \<Longrightarrow> for_each f xs = for_each g xs"
  by (induction xs) (simp_all split: sum.splits)

lemma stamp_append_only:
  assumes "stamp now (reopen_audit current t) n = Inr u"
  shows "validate_append_only m u = validate_append_only m t"
proof -
  have o: "dget_or u k x = dget_or t k x" if "k \<in> set [''decisions'', ''child_history'', ''transitions'', ''tdd'', ''change_epoch'', ''gates'', ''risks'']" for k x
    using stamp_other_or [OF assms, of k] that by auto
  have "for_each (check_same m u) [''id'', ''title'', ''mode'', ''complexity'', ''risk'', ''created''] = for_each (check_same m t) [''id'', ''title'', ''mode'', ''complexity'', ''risk'', ''created'']"
  proof (rule for_each_same)
    fix f assume "f \<in> set [''id'', ''title'', ''mode'', ''complexity'', ''risk'', ''created'']"
    then have "dget u f = dget t f" by (intro stamp_other [OF assms]) auto
    then show "check_same m u f = check_same m t f" by (simp add: check_same_def)
  qed
  moreover have "for_each (\<lambda>f. check_prefix (dget_or m f (PyList [])) (dget_or u f (PyList [])) e) [''decisions'', ''child_history'', ''transitions'']
    = for_each (\<lambda>f. check_prefix (dget_or m f (PyList [])) (dget_or t f (PyList [])) e) [''decisions'', ''child_history'', ''transitions'']" for e
    by (rule for_each_same) (subst o; auto)
  moreover have "check_cycles m u = check_cycles m t" "check_epoch m u = check_epoch m t" by (simp_all add: check_cycles_def check_epoch_def o)
  moreover have "dget_or u ''gates'' x = dget_or t ''gates'' x" "dget_or u ''risks'' x = dget_or t ''risks'' x" for x by (simp_all add: o)
  ultimately show ?thesis unfolding validate_append_only_def by (simp only:)
qed

lemma stamp_bound:
  assumes "stamp now (reopen_audit current t) n = Inr u"
  shows "validate_bound_falsification u b = validate_bound_falsification t b" and "validate_bound_review u = validate_bound_review t"
proof -
  have f: "dget u k = dget t k" "dget_or u k x = dget_or t k x" if "k \<in> set [''id'', ''tdd'', ''falsification'', ''review_receipt'', ''change_epoch'', ''implementation_digest'', ''diff_digest'', ''precheck'',
      ''evidence_set_digest'', ''child_history'']" for k x
    using stamp_other [OF assms, of k] stamp_other_or [OF assms, of k] that by auto
  have k: "dget u ''id'' = dget t ''id''" "dget u ''tdd'' = dget t ''tdd''" "dget u ''falsification'' = dget t ''falsification''" "dget u ''review_receipt'' = dget t ''review_receipt''"
    "dget u ''change_epoch'' = dget t ''change_epoch''" "dget u ''diff_digest'' = dget t ''diff_digest''" "dget u ''evidence_set_digest'' = dget t ''evidence_set_digest''" "dget u ''precheck'' = dget t ''precheck''"
    "dget_or u ''child_history'' x = dget_or t ''child_history'' x" "dget_or u ''precheck'' x = dget_or t ''precheck'' x" "dget_or u ''change_epoch'' x = dget_or t ''change_epoch'' x" for x
    by (simp_all add: f)
  have c: "current_tdd_cycle u = current_tdd_cycle t" unfolding current_tdd_cycle_def k ..
  show "validate_bound_falsification u b = validate_bound_falsification t b" unfolding validate_bound_falsification_def c k ..
  show "validate_bound_review u = validate_bound_review t" unfolding validate_bound_review_def review_is_current_def c k ..
qed

text \<open>
  C18: a save rewrites no history. When a change of a task is accepted, the saved task keeps identifier,
  title, mode, complexity, risk and creation time; its decisions, child handoffs and transitions begin
  with the old ones; every TDD cycle is there with its frozen contract, its events extended and, when it
  had ended, unchanged; no gate or risk is removed or changes what it is about; the implementation epoch
  stays or grows by one; and a falsification or review receipt of the saved task is valid for its
  current cycle, epoch and diff.
\<close>

theorem save_append_only:
  assumes "revised now ledger current upd = Inr u"
  shows "\<exists>m. migrate current = Inr m
    \<and> (\<forall>f \<in> set [''id'', ''title'', ''mode'', ''complexity'', ''risk'', ''created'']. py_eq (dget u f) (dget m f))
    \<and> (\<forall>f \<in> set [''decisions'', ''child_history'', ''transitions'']. extends_list (dget_or m f (PyList [])) (dget_or u f (PyList [])))
    \<and> (\<exists>cycles. iter (dget_or (dget_or u ''tdd'' (PyDict [])) ''cycles'' (PyList [])) = Inr cycles \<and> length (items (dget (dget m ''tdd'') ''cycles'')) \<le> length cycles
         \<and> (\<forall>(old, new) \<in> set (zip (items (dget (dget m ''tdd'') ''cycles'')) cycles). kept_cycle old new))
    \<and> (\<exists>gates. iter (dget_or u ''gates'' (PyList [])) = Inr gates \<and> kept_items same_gate (items (dget m ''gates'')) gates)
    \<and> (\<exists>risks. iter (dget_or u ''risks'' (PyList [])) = Inr risks \<and> kept_items same_risk (items (dget m ''risks'')) risks)
    \<and> (\<exists>a b. number (dget_or m ''change_epoch'' (PyInt 0)) = Inr a \<and> number (dget_or u ''change_epoch'' (PyInt 0)) = Inr b \<and> a \<le> b \<and> b \<le> a + 1)
    \<and> (dget u ''falsification'' \<noteq> PyNone \<longrightarrow> validate_bound_falsification u False = Inr ())
    \<and> (dget u ''review_receipt'' \<noteq> PyNone \<longrightarrow> validate_bound_review u = Inr ())"
  using assms
proof (rule revised_cases)
  fix m upd' records
  assume b: "save_begin current upd (dget current ''revision'') = Inr (m, upd')"
    and p: "prepare_save now records current m upd' (dget current ''revision'') = Inr u"
  from p obtain u3 where u3: "validate_append_only m u3 = Inr ()" "stamp now (reopen_audit current u3) (dget current ''revision'') = Inr u"
    "dget u3 ''falsification'' \<noteq> PyNone \<longrightarrow> validate_bound_falsification u3 False = Inr ()" "dget u3 ''review_receipt'' \<noteq> PyNone \<longrightarrow> validate_bound_review u3 = Inr ()"
    by (rule prepare_save_cases)
  have a: "validate_append_only m u = Inr ()" using u3(1) stamp_append_only [OF u3(2)] by simp
  have r: "dget u ''falsification'' \<noteq> PyNone \<longrightarrow> validate_bound_falsification u False = Inr ()" "dget u ''review_receipt'' \<noteq> PyNone \<longrightarrow> validate_bound_review u = Inr ()"
    using u3(3,4) stamp_bound [OF u3(2)] stamp_other [OF u3(2)] by simp_all
  have "check_cycles m u = Inr ()" "check_epoch m u = Inr ()"
    "\<forall>f \<in> set [''id'', ''title'', ''mode'', ''complexity'', ''risk'', ''created'']. py_eq (dget u f) (dget m f)"
    "\<forall>f \<in> set [''decisions'', ''child_history'', ''transitions'']. extends_list (dget_or m f (PyList [])) (dget_or u f (PyList []))"
    "\<exists>gates. iter (dget_or u ''gates'' (PyList [])) = Inr gates \<and> kept_items same_gate (items (dget m ''gates'')) gates"
    "\<exists>risks. iter (dget_or u ''risks'' (PyList [])) = Inr risks \<and> kept_items same_risk (items (dget m ''risks'')) risks"
    using a unfolding validate_append_only_def check_all_Inr for_each_Inr check_same_def guard_Inr
    by (auto intro: check_prefix_extends check_items_kept)
  then show ?thesis using save_begin_cases(1) [OF b] check_cycles_kept r by (auto simp: check_epoch_def res_bind_Inr)
qed

theorem save_append_only_witness:
  "\<exists>t u. revised ''now'' (Inr []) t t = Inr u \<and> (\<exists>m. migrate t = Inr m \<and> py_eq (dget u ''title'') (dget m ''title''))"
proof -
  let ?t = "canon (new_task sample_env (new_id sample_env ''Fix it'') ''Fix it'' ''write'' ''M'' ''low'')"
  have n: "\<not> blank ''now''" by (simp add: blank_def strip_def is_space_def)
  obtain u where u: "revised ''now'' (Inr []) ?t ?t = Inr u"
    using resave_new_task [OF new_id_ok [OF sample_uuid(1,2)] sample_args(1) sample_uuid(3) sample_args(2-4) n] by blast
  from save_append_only [OF u] obtain m where m: "migrate ?t = Inr m"
    and k: "\<forall>f \<in> set [''id'', ''title'', ''mode'', ''complexity'', ''risk'', ''created'']. py_eq (dget u f) (dget m f)" by (elim exE conjE)
  have "py_eq (dget u ''title'') (dget m ''title'')" by (rule bspec [OF k]) simp
  with u m show ?thesis by (intro exI conjI)
qed

section \<open>A new implementation candidate\<close>

text \<open>
  a new implementation needs new proof. Entering IMPLEMENT or REMEDIATE raises the implementation
  epoch by one, removes the verification evidence and its epoch, both receipts and the completed audit,
  opens every gate that was proven and takes its evidence away, reopens every resolved risk unless it is
  marked to stay closed, and appends one transition with the new epoch and the next revision; no other
  part of gates and risks changes.
\<close>

theorem implementation_resets:
  assumes "enter_state now tgt reason task = Inr u" and "tgt \<in> set [''IMPLEMENT'', ''REMEDIATE'']"
    and "is_list (dget task ''gates'')" and "is_list (dget task ''risks'')" and "dget task ''change_epoch'' = PyInt n" and "dget task ''revision'' = PyInt r"
  shows "dget u ''state'' = PyStr tgt \<and> dget u ''change_epoch'' = PyInt (n + 1) \<and> dget u ''verification_evidence'' = PyList [] \<and> dget u ''verification_epoch'' = PyNone
    \<and> dget u ''falsification'' = PyNone \<and> dget u ''review_receipt'' = PyNone \<and> dget u ''final_audit_complete'' = PyBool False \<and> \<not> has_key u ''final_audit_workspace''
    \<and> dget u ''gates'' = PyList (map reset_gate (items (dget task ''gates''))) \<and> (\<forall>g \<in> set (items (dget u ''gates'')). dget g ''status'' \<noteq> PyStr ''PROVEN'')
    \<and> dget u ''risks'' = PyList (map reopen_risk (items (dget task ''risks'')))
    \<and> (\<forall>x \<in> set (items (dget u ''risks'')). dget x ''status'' = PyStr ''resolved'' \<longrightarrow> \<not> truthy (dget_or x ''reopen_on_change'' (PyBool True)))
    \<and> dget u ''transitions'' = PyList (items (dget task ''transitions'') @ [PyDict [(''at'', PyStr now), (''from'', dget task ''state''), (''to'', PyStr tgt),
         (''reason'', PyStr (strip reason)), (''revision'', PyInt (r + 1)), (''epoch'', PyInt (n + 1))]])"
  using assms(1)
proof (rule enter_state_cases)
  fix t1 t2 r' e
  assume t1: "t1 = dset (block_fields tgt reason task) ''state'' (PyStr tgt)"
    and t2: "if tgt \<in> set [''IMPLEMENT'', ''REMEDIATE''] then \<exists>n. py_int (dget_or t1 ''change_epoch'' (PyInt 0)) = Inr n \<and> t2 = new_candidate n t1
      else t2 = (if tgt = ''TEST_DESIGN'' then drop_receipts t1 else t1)"
    and i: "py_int (dget_or t2 ''revision'' (PyInt 0)) = Inr r'" "py_int (dget_or t2 ''change_epoch'' (PyInt 0)) = Inr e"
    and u: "u = dset t2 ''transitions'' (PyList (items (dget t2 ''transitions'') @
       [PyDict [(''at'', PyStr now), (''from'', dget task ''state''), (''to'', PyStr tgt), (''reason'', PyStr (strip reason)), (''revision'', PyInt (r' + 1)), (''epoch'', PyInt e)]]))"
  have b: "dget t1 k = dget task k" "dget_or t1 k x = dget_or task k x" "has_key t1 k = has_key task k"
    if "k \<in> set [''gates'', ''risks'', ''change_epoch'', ''revision'', ''transitions'']" for k x
    using that by (auto simp: t1 block_fields_def Let_def)
  have h: "has_key task ''gates''" "has_key task ''risks''" "has_key task ''change_epoch''" "has_key task ''revision''"
    using assms(3-6) by (auto intro!: dget_not_None_key simp: is_list_def)
  have t2: "t2 = new_candidate n t1" using t2 assms(2,5) h by (auto simp: b dget_or_key py_int_def)
  have g: "dget t2 ''gates'' = PyList (map reset_gate (items (dget task ''gates'')))" "dget t2 ''risks'' = PyList (map reopen_risk (items (dget task ''risks'')))"
    by (simp_all add: t2 new_candidate_def map_items_def drop_receipts_def drop_audit_def b h)
  have "dget t2 ''transitions'' = dget task ''transitions''" "dget_or t2 ''revision'' x = PyInt r" "dget_or t2 ''change_epoch'' x = PyInt (n + 1)" "dget t2 ''change_epoch'' = PyInt (n + 1)" for x
    using h assms(6) by (simp_all add: t2 new_candidate_def map_items_def drop_receipts_def drop_audit_def b dget_or_key)
  moreover have "dget t2 ''verification_evidence'' = PyList []" "dget t2 ''verification_epoch'' = PyNone" "dget t2 ''falsification'' = PyNone" "dget t2 ''review_receipt'' = PyNone"
    "dget t2 ''final_audit_complete'' = PyBool False" "\<not> has_key t2 ''final_audit_workspace''"
    by (simp_all add: t2 new_candidate_def map_items_def drop_receipts_def drop_audit_def)
  moreover have "dget (reset_gate x) ''status'' \<noteq> PyStr ''PROVEN''" for x by (simp add: reset_gate_def)
  moreover have "dget (reopen_risk x) ''status'' = PyStr ''resolved'' \<Longrightarrow> \<not> truthy (dget_or (reopen_risk x) ''reopen_on_change'' (PyBool True))" for x
    by (auto simp: reopen_risk_def split: if_splits)
  ultimately show ?thesis using entered_state [OF assms(1)] i by (simp add: u g py_int_def)
qed

theorem implementation_resets_witness:
  "\<exists>u. enter_state ''now'' ''IMPLEMENT'' ''fix'' sample_audited = Inr u \<and> dget u ''change_epoch'' = PyInt 2 \<and> dget u ''verification_evidence'' = PyList []"
proof -
  have "\<exists>u. enter_state ''now'' ''IMPLEMENT'' ''fix'' sample_audited = Inr u"
    by (simp add: enter_state_def Let_def sample_audited_def block_fields_def py_int_def new_candidate_def map_items_def drop_receipts_def drop_audit_def)
  then obtain u where u: "enter_state ''now'' ''IMPLEMENT'' ''fix'' sample_audited = Inr u" by blast
  have "is_list (dget sample_audited ''gates'')" "is_list (dget sample_audited ''risks'')" "dget sample_audited ''change_epoch'' = PyInt 1" "dget sample_audited ''revision'' = PyInt 9"
    by (simp_all add: sample_audited_def)
  from implementation_resets [OF u _ this] have "dget u ''change_epoch'' = PyInt 2 \<and> dget u ''verification_evidence'' = PyList []" by simp
  with u show ?thesis by blast
qed

section \<open>The history of a stored task\<close>

definition visited :: "string \<Rightarrow> pyval list \<Rightarrow> string list" where
  "visited s ts = s # map (\<lambda>t. py_str (dget t ''to'')) ts"

definition follows :: "pyval \<Rightarrow> string \<Rightarrow> string \<Rightarrow> bool" where
  "follows t s s' \<longleftrightarrow> dget t ''from'' = PyStr s \<and> dget t ''to'' = PyStr s' \<and> edge s s'"

lemma check_entry_follows:
  assumes "check_entry n s l t = Inr ()"
  shows "follows t s (py_str (dget t ''to''))" and "3 \<le> n \<Longrightarrow> is_int (dget t ''revision'') \<and> l < int_of_val (dget t ''revision'')"
  using assms by (auto simp: check_entry_def follows_def edge_def check_all_Inr memb_unit str_in_def split: if_splits option.splits pyval.splits)

lemma check_history_follows:
  assumes "check_history n s l ts = Inr final"
  shows "(\<forall>k < length ts. follows (ts ! k) (visited s ts ! k) (visited s ts ! Suc k)) \<and> last (visited s ts) = final
    \<and> (3 \<le> n \<longrightarrow> sorted_wrt (<) (l # map (\<lambda>t. int_of_val (dget t ''revision'')) ts))"
  using assms
proof (induction ts arbitrary: s l)
  case (Cons t ts)
  let ?s = "py_str (dget t ''to'')" and ?l = "if 3 \<le> n then int_of_val (dget t ''revision'') else l"
  have e: "check_entry n s l t = Inr ()" and h: "check_history n ?s ?l ts = Inr final" using Cons.prems by (auto split: sum.splits)
  note ih = Cons.IH [OF h] and f = check_entry_follows [OF e]
  have "follows ((t # ts) ! k) (visited s (t # ts) ! k) (visited s (t # ts) ! Suc k)" if "k < length (t # ts)" for k
    using ih f(1) that by (cases k) (auto simp: visited_def)
  moreover have "last (visited s (t # ts)) = final" using ih by (simp add: visited_def)
  moreover have "sorted_wrt (<) (l # map (\<lambda>t. int_of_val (dget t ''revision'')) (t # ts))" if "3 \<le> n" using ih f(2) that by auto
  ultimately show ?case by blast
qed (simp add: visited_def)


definition sample_discovering :: pyval where
  "sample_discovering = seal_task (dset (dset (new_task sample_env ''fix-it-0123abcd'' ''Fix it'' ''write'' ''M'' ''low'') ''state'' (PyStr ''DISCOVER'')) ''transitions''
     (PyList [PyDict [(''at'', PyStr ''2026-01-01''), (''from'', PyStr ''CREATED''), (''to'', PyStr ''DISCOVER''), (''reason'', PyStr ''start''), (''revision'', PyInt 1), (''epoch'', PyInt 0)]]))"

lemma sample_discovering_valid: "validate_task sample_discovering (Some ''fix-it-0123abcd'') = Inr ()"
proof -
  let ?n = "new_task sample_env ''fix-it-0123abcd'' ''Fix it'' ''write'' ''M'' ''low''" and ?t = sample_discovering
  note n = new_task_fields [of sample_env "''fix-it-0123abcd''" "''Fix it''" "''write''" "''M''" "''low''"]
  have i: "task_id_ok ''fix-it-0123abcd''" by (simp add: task_id_ok_def id_char_def is_lower_def is_digit_def less_eq_char_def)
  have "validate_task ?n (Some ''fix-it-0123abcd'') = Inr ()" by (rule new_task_valid [OF i sample_args(1) sample_uuid(3) sample_args(2-4)])
  then have v: "check_header ?n (Some ''fix-it-0123abcd'') = Inr ()" "check_tdd ?n = Inr ()" "check_receipts ?n = Inr ()" "check_arrays ?n = Inr ()"
    by (simp_all add: validate_task_def check_all_Inr)
  have f: "dget ?t k = (if k = ''integrity_sha256'' then PyStr (state_digest ?t) else if k = ''state'' then PyStr ''DISCOVER'' else dget ?n k)" if "k \<noteq> ''transitions''" for k
    using that
    by (simp add: sample_discovering_def seal_task_def state_seal.digest_ignores_field)
  have k: "has_key ?t k \<longleftrightarrow> k = ''state'' \<or> k = ''transitions'' \<or> k = ''integrity_sha256'' \<or> has_key ?n k" "is_dict ?t" for k by (auto simp: sample_discovering_def seal_task_def)
  have tr: "dget ?t ''transitions'' = PyList [PyDict [(''at'', PyStr ''2026-01-01''), (''from'', PyStr ''CREATED''), (''to'', PyStr ''DISCOVER''), (''reason'', PyStr ''start''), (''revision'', PyInt 1), (''epoch'', PyInt 0)]]"
    by (simp add: sample_discovering_def seal_task_def)
  have "check_header ?t (Some ''fix-it-0123abcd'') = Inr ()" using v(1) unfolding check_header_def check_all_Inr by (simp add: f k memb_unit str_in_def STATES_def split: if_splits)
  moreover have "check_tdd ?t = Inr ()" using v(2) by (simp add: check_tdd_def f k)
  moreover have "check_review_field ?t = check_review_field ?n" by (simp add: check_review_field_def f n whenever_def)
  then have "check_receipts ?t = Inr ()" using v(3) unfolding check_receipts_def check_all_Inr by (simp add: f)
  moreover have "check_arrays ?t = Inr ()" using v(4) unfolding check_arrays_def check_all_Inr by (simp add: f k tr)
  moreover have "check_active_child ?t = Inr ()" by (simp add: check_active_child_def f n)
  moreover have "check_transitions ?t = Inr ()"
    by (simp add: check_transitions_def tr check_entry_def check_all_Inr memb_def str_in_def whenever_def unhashable_def ALLOWED_def escapes_def is_text_def blank_def strip_def is_space_def
        int_of_val_def f n)
  ultimately show ?thesis unfolding validate_task_def check_all_Inr using f [of "''integrity_sha256''"] by (simp add: f n)
qed


end
