(* ===== verification/Store_Runs.thy ===== *)
theory Store_Runs
  imports Store_Transitions
begin

text \<open>
  Sequences of operations on the store. The locale \<open>anchored_store\<close> says what one operation on one key
  may do to a store of entries with a growing chain each, and derives what any sequence of them does; it
  is interpreted on the public operations of \<open>StateStore\<close> and the disk.
\<close>

section \<open>Stores whose entries only grow\<close>

locale anchored_store =
  fixes inv :: "'d \<Rightarrow> bool" and entry :: "'d \<Rightarrow> 'k \<Rightarrow> 't \<Rightarrow> 'a list \<Rightarrow> bool"
    and enabled :: "'o \<Rightarrow> 'k \<Rightarrow> 'd \<Rightarrow> bool" and perform :: "'o \<Rightarrow> 'k \<Rightarrow> 'd \<Rightarrow> 'd"
  assumes effect: "inv d \<Longrightarrow> entry d k t as \<Longrightarrow> enabled x k d \<Longrightarrow>
      perform x k d = d \<or> (inv (perform x k d) \<and> (\<exists>u a. entry (perform x k d) k u (as @ [a]))
        \<and> (\<forall>j t' bs. j \<noteq> k \<longrightarrow> entry d j t' bs \<longrightarrow> entry (perform x k d) j t' bs))"
begin

fun run :: "('o \<times> 'k) list \<Rightarrow> 'd \<Rightarrow> 'd" where
  "run [] d = d"
| "run ((x, k) # xs) d = run xs (perform x k d)"

text \<open>Every operation is on a key that has an entry and is enabled when its turn comes.\<close>

fun enabled_run :: "('o \<times> 'k) list \<Rightarrow> 'd \<Rightarrow> bool" where
  "enabled_run [] d \<longleftrightarrow> True"
| "enabled_run ((x, k) # xs) d \<longleftrightarrow> (\<exists>t as. entry d k t as) \<and> enabled x k d \<and> enabled_run xs (perform x k d)"

lemma perform_extends:
  assumes "inv d" and "entry d k t as" and "enabled x k d" and "entry d j t' bs"
  shows "inv (perform x k d) \<and> (\<exists>u cs. entry (perform x k d) j u (bs @ cs) \<and> (cs = [] \<longrightarrow> u = t') \<and> length cs \<le> (if j = k then 1 else 0))"
proof -
  have same: ?thesis if "inv (perform x k d)" "entry (perform x k d) j t' bs"
    using that by (intro conjI exI [of _ t'] exI [of _ "[]"]) simp_all
  show ?thesis
  proof (cases "perform x k d = d")
    case True
    then show ?thesis using same assms(1,4) by simp
  next
    case False
    then have i: "inv (perform x k d)" and o: "j \<noteq> k \<longrightarrow> entry (perform x k d) j t' bs" using effect [OF assms(1-3)] assms(4) by auto
    show ?thesis
    proof (cases "j = k")
      case True
      then obtain u a where "entry (perform x k d) k u (bs @ [a])" using effect [OF assms(1) _ assms(3), of t' bs] assms(4) False by auto
      then show ?thesis using i True by (intro conjI exI [of _ u] exI [of _ "[a]"]) simp_all
    qed (use same i o in blast)
  qed
qed

lemma run_extends:
  assumes "inv d" and "enabled_run xs d" and "entry d j t bs"
  shows "inv (run xs d) \<and> (\<exists>u cs. entry (run xs d) j u (bs @ cs) \<and> (cs = [] \<longrightarrow> u = t) \<and> length cs \<le> length (filter (\<lambda>x. snd x = j) xs))"
  using assms
proof (induction xs arbitrary: d t bs)
  case (Cons xk xs)
  obtain x k where xk: "xk = (x, k)" by (cases xk)
  then obtain t0 as where e: "entry d k t0 as" "enabled x k d" "enabled_run xs (perform x k d)" using Cons.prems(2) by auto
  obtain u cs where u: "inv (perform x k d)" "entry (perform x k d) j u (bs @ cs)" "cs = [] \<longrightarrow> u = t" "length cs \<le> (if j = k then 1 else 0)"
    using perform_extends [OF Cons.prems(1) e(1,2) Cons.prems(3)] by blast
  obtain w es where w: "inv (run xs (perform x k d))" "entry (run xs (perform x k d)) j w ((bs @ cs) @ es)" "es = [] \<longrightarrow> w = u" "length es \<le> length (filter (\<lambda>x. snd x = j) xs)"
    using Cons.IH [OF u(1) e(3) u(2)] by blast
  then show ?case using u by (intro conjI exI [of _ w] exI [of _ "cs @ es"]) (auto simp: xk split: if_splits)
qed auto

end

section \<open>The public operations\<close>

datatype operation =
    Transition (op_target: string) (op_reason: string)
  | AuditComplete
  | RecordCycle (op_cycle: pyval)
  | RecordFalsification (op_receipt: pyval)
  | RecordReview (op_receipt: pyval)

text \<open>One call: the readings it takes, the workspace at each look, and the operation.\<close>

type_synonym call = "env \<times> (nat \<Rightarrow> pyval) \<times> operation"

definition perform_call :: "call \<Rightarrow> string \<Rightarrow> disk \<Rightarrow> disk" where
  "perform_call c i d = (case c of (v, ws, x) \<Rightarrow> (case x of
      Transition tgt reason \<Rightarrow> fst (transition v ws tgt reason (Some i) d)
    | AuditComplete \<Rightarrow> fst (audit_complete v ws (Some i) d)
    | RecordCycle cycle \<Rightarrow> fst (record_tdd_cycle v (ws 0) cycle (Some i) d)
    | RecordFalsification receipt \<Rightarrow> fst (record_falsification v (ws 0) receipt (Some i) d)
    | RecordReview receipt \<Rightarrow> fst (record_review v (ws 0) receipt (Some i) d)))"

text \<open>The values passed are JSON values, the reading of the workspace is one, and the transaction gets an unused name.\<close>

definition well_formed_call :: "operation \<Rightarrow> bool" where
  "well_formed_call x = (case x of RecordCycle c \<Rightarrow> wf_val c | RecordFalsification r \<Rightarrow> wf_val r | RecordReview r \<Rightarrow> wf_val r | _ \<Rightarrow> True)"

definition call_enabled :: "path \<Rightarrow> call \<Rightarrow> string \<Rightarrow> disk \<Rightarrow> bool" where
  "call_enabled root c i d \<longleftrightarrow> (case c of (v, ws, x) \<Rightarrow> en_root v = root \<and> fresh_tx v ''task-state'' d \<and> well_formed_call x \<and> (\<forall>n. wf_val (ws n)))"

definition root_env :: "path \<Rightarrow> env" where
  "root_env root = \<lparr>en_root = root, en_now = [], en_uuid = [], en_tx = [], en_age = (\<lambda>_. None)\<rparr>"

lemma healthy_root: "en_root v = root \<Longrightarrow> healthy (root_env root) d = healthy v d"
  by (simp add: healthy_def root_env_def)

definition grows :: "env \<Rightarrow> string \<Rightarrow> pyval list \<Rightarrow> disk \<Rightarrow> disk \<Rightarrow> bool" where
  "grows v i as d d' \<longleftrightarrow> d' = d \<or> (healthy v d' \<and> (\<exists>u a. stored d' i u (as @ [a])) \<and> other_tasks_kept i d d')"

lemma change_grows:
  assumes "healthy v d" and "stored d i task as" and "fresh_tx v ''task-state'' d" and "fn (canon task) d = (d, changed)" and "\<forall>x. changed = Inr x \<longrightarrow> wf_val x"
  shows "grows v i as d (fst (change v ws fn i d))"
  using mutate_cases [of v d i task as fn changed ws None False False, OF assms, folded change_def]
  by (cases "mutated (en_now v) ws (ledger_of d i) None False changed (canon task)") (fastforce simp: grows_def)+

lemma wf_place_cycle: "wf_val c \<Longrightarrow> \<forall>x \<in> set xs. wf_val x \<Longrightarrow> \<forall>x \<in> set (place_cycle c xs). wf_val x"
  by (induction xs) auto

lemma wf_dupdate: "wf_val v \<Longrightarrow> \<forall>kx \<in> set kxs. wf_val (snd kx) \<Longrightarrow> wf_val (dupdate v kxs)"
proof (induction kxs arbitrary: v)
  case (Cons kx kxs)
  then show ?case by (cases kx) (simp add: dupdate_def wf_dset)
qed (simp add: dupdate_def)

lemma wf_tdd_fields: "wf_val c \<Longrightarrow> \<forall>kx \<in> set (tdd_fields out c). wf_val (snd kx)"
proof -
  assume w: "wf_val c"
  have "wf_val ev" if "baseline_event c = Some ev" for ev
  proof -
    have "ev \<in> set (items (dget c ''events''))" using that nth_mem by (auto simp: baseline_event_def find_Some_iff)
    then show ?thesis using wf_item [OF wf_dget [OF w]] by blast
  qed
  then show ?thesis using w by (auto simp: tdd_fields_def Let_def wf_dget split: option.splits)
qed

lemma wf_apply_tdd_cycle:
  assumes "apply_tdd_cycle c t = Inr u" and "wf_val c" and "wf_val t"
  shows "wf_val u"
proof -
  let ?cs = "place_cycle c (items (dget (dget t ''tdd'') ''cycles''))"
  have "\<forall>x \<in> set ?cs. wf_val x" using wf_place_cycle [OF assms(2)] wf_item wf_dget assms(3) by blast
  then have w: "wf_val (dset (dget t ''tdd'') ''cycles'' (PyList ?cs))" using wf_dget [OF assms(3)] by (intro wf_dset) (auto simp: list_all_iff)
  obtain out where u: "u = dset t ''tdd'' (dupdate (dset (dget t ''tdd'') ''cycles'' (PyList ?cs)) (tdd_fields out c))
     \<or> u = dset (dset (dset t ''tdd'' (dupdate (dset (dget t ''tdd'') ''cycles'' (PyList ?cs)) (tdd_fields out c))) ''implementation_digest'' (dget c ''green_implementation_digest''))
         ''diff_digest'' (dget c ''green_diff_digest'')"
    using assms(1) by (auto simp: apply_tdd_cycle_def Let_def res_bind_Inr split: if_splits)
  have "wf_val (dset t ''tdd'' (dupdate (dset (dget t ''tdd'') ''cycles'' (PyList ?cs)) (tdd_fields out c)))"
    by (intro wf_dset wf_dupdate w wf_tdd_fields assms(2,3))
  then show ?thesis using u wf_dget [OF assms(2)] by (auto intro!: wf_dset)
qed

lemma apply_audit_eq:
  assumes h: "healthy v d" and s: "stored d i task as"
  shows "apply_audit v fp (canon task) d = (d, if dget (canon task) ''state'' \<noteq> PyStr ''FINAL_AUDIT'' then Inl (RuntimeErr ''audit-complete requires task state FINAL_AUDIT'')
    else res_bind (res_bind (ledger_of d i) (\<lambda>records. validate_proofs (en_age v) records (canon task) False)) (\<lambda>_.
      res_bind (guard (\<not> leased d) (RuntimeErr ''global subagent lease blocks final-audit completion'')) (\<lambda>_. complete_audit fp (canon task))))"
  using check_lease_eq [OF h] check_proofs_eq [OF h s canon_id [OF s]]
  by (auto simp: apply_audit_def io_raise_def io_bind_def io_res_apply res_bind_def split: sum.splits)

lemma wf_complete_audit: "complete_audit fp t = Inr u \<Longrightarrow> wf_val fp \<Longrightarrow> wf_val t \<Longrightarrow> wf_val u"
  by (auto simp: complete_audit_def intro!: wf_dset split: if_splits)

lemma grows_refl: "grows v i as d d"
  by (simp add: grows_def)

lemma transition_grows:
  assumes h: "healthy v d" and s: "stored d i task as" and fr: "fresh_tx v ''task-state'' d"
  shows "grows v i as d (fst (transition v ws tgt reason (Some i) d))"
proof (cases "blank reason")
  case False
  let ?c = "change v (ws 0) (apply_transition v (ws 1) (ws 2) (upper tgt) reason) i"
  have g: "grows v i as d (fst (?c d))"
    using s wf_advanced by (intro change_grows [where fn = "apply_transition v (ws 1) (ws 2) (upper tgt) reason", OF h s fr apply_transition_eq [OF h s]]) (auto simp: stored_def)
  have "fst (io_bind ?c (\<lambda>upd. if upper tgt = ''FINALIZE'' then load v (ws 3) (Some i) else io_return upd) d) = fst (?c d)"
  proof (cases "?c d")
    case (Pair d' r)
    show ?thesis
    proof (cases r)
      case (Inr u)
      have "fst (load v (ws 3) (Some i) d') = d'"
      proof -
        obtain t' as' where "healthy v d'" "stored d' i t' as'" using g Pair h s by (auto simp: grows_def)
        then show ?thesis using load_refines by simp
      qed
      then show ?thesis using Pair Inr by (simp add: io_return_def)
    qed (use Pair in simp)
  qed
  then show ?thesis using transition_steps [OF h s False, of ws tgt] g grows_refl by (auto split: sum.splits)
qed (simp add: transition_def io_raise_def grows_def Let_def)

lemma perform_grows:
  assumes h: "healthy v d" and s: "stored d i task as" and fr: "fresh_tx v ''task-state'' d" and x: "well_formed_call x" and ws: "\<forall>n. wf_val (ws n)"
  shows "grows v i as d (perform_call (v, ws, x) i d)"
proof -
  have i: "task_id_ok i" and w: "wf_val (canon task)" using s by (auto simp: stored_def)
  note c = chosen_ok [OF i, of v d]
  show ?thesis
  proof (cases x)
    case (Transition tgt reason)
    then show ?thesis using transition_grows [OF h s fr] by (simp add: perform_call_def)
  next
    case AuditComplete
    have "grows v i as d (fst (change v (ws 0) (apply_audit v (ws 1)) i d))"
      using w ws wf_complete_audit by (intro change_grows [where fn = "apply_audit v (ws 1)", OF h s fr apply_audit_eq [OF h s]]) (auto simp: res_bind_Inr split: if_splits)
    then show ?thesis using AuditComplete c by (simp add: perform_call_def audit_complete_def)
  next
    case (RecordCycle cy)
    have "grows v i as d (fst (change v (ws 0) (\<lambda>task. io_res (apply_tdd_cycle cy task)) i d))"
      using w x RecordCycle wf_apply_tdd_cycle by (intro change_grows [where fn = "\<lambda>task. io_res (apply_tdd_cycle cy task)", OF h s fr io_res_apply]) (auto simp: well_formed_call_def)
    then show ?thesis using RecordCycle c grows_refl
      by (cases "validate_tdd_cycle cy") (auto simp: perform_call_def record_tdd_cycle_def io_raise_def)
  next
    case (RecordFalsification r)
    have "grows v i as d (fst (change v (ws 0) (\<lambda>task. io_res (apply_falsification r i task)) i d))"
      using w x RecordFalsification by (intro change_grows [where fn = "\<lambda>task. io_res (apply_falsification r i task)", OF h s fr io_res_apply]) (auto simp: well_formed_call_def apply_falsification_def Let_def res_bind_Inr intro!: wf_dset split: if_splits option.splits)
    then show ?thesis using RecordFalsification c by (simp add: perform_call_def record_falsification_def)
  next
    case (RecordReview r)
    have "grows v i as d (fst (change v (ws 0) (\<lambda>task. io_res (apply_review r task)) i d))"
      using w x RecordReview by (intro change_grows [where fn = "\<lambda>task. io_res (apply_review r task)", OF h s fr io_res_apply]) (auto simp: well_formed_call_def apply_review_def Let_def res_bind_Inr intro!: wf_dset split: if_splits)
    then show ?thesis using RecordReview c by (simp add: perform_call_def record_review_def)
  qed
qed

interpretation tasks: anchored_store "healthy (root_env root)" stored "call_enabled root" perform_call for root
proof unfold_locales
  fix d i task as x
  assume h: "healthy (root_env root) d" and s: "stored d i task as" and e: "call_enabled root x i d"
  obtain v ws o' where x: "x = (v, ws, o')" by (cases x)
  have r: "en_root v = root" using e by (simp add: call_enabled_def x)
  have "grows v i as d (perform_call x i d)"
    using perform_grows [of v d i task as o' ws] h s e healthy_root [OF r] by (simp add: call_enabled_def x)
  then show "perform_call x i d = d \<or> (healthy (root_env root) (perform_call x i d) \<and> (\<exists>u a. stored (perform_call x i d) i u (as @ [a]))
      \<and> (\<forall>j t' bs. j \<noteq> i \<longrightarrow> stored d j t' bs \<longrightarrow> stored (perform_call x i d) j t' bs))"
    by (simp add: grows_def other_tasks_kept_def healthy_root [OF r])
qed
section \<open>Sequences of calls\<close>

fun run_calls :: "(call \<times> string) list \<Rightarrow> disk \<Rightarrow> disk" where
  "run_calls [] d = d"
| "run_calls ((c, i) # cs) d = run_calls cs (perform_call c i d)"

text \<open>Every call is on a stored task and enabled on the disk it meets.\<close>

fun calls_enabled :: "path \<Rightarrow> (call \<times> string) list \<Rightarrow> disk \<Rightarrow> bool" where
  "calls_enabled root [] d \<longleftrightarrow> True"
| "calls_enabled root ((c, i) # cs) d \<longleftrightarrow> (\<exists>task as. stored d i task as) \<and> call_enabled root c i d \<and> calls_enabled root cs (perform_call c i d)"

lemma run_calls_eq: "anchored_store.run perform_call cs d = run_calls cs d"
  by (induction cs arbitrary: d) (auto simp: tasks.run.simps)

lemma calls_enabled_eq: "anchored_store.enabled_run stored (call_enabled root) perform_call cs d = calls_enabled root cs d"
  by (induction cs arbitrary: d) (auto simp: tasks.enabled_run.simps)


lemma sample_stored:
  "\<exists>d i task as. healthy sample_env d \<and> stored d i task as \<and> fresh_tx sample_env ''task-state'' d"
proof -
  have i: "task_id_ok (new_id sample_env ''Fix it'')" by (rule new_id_ok [OF sample_uuid(1,2)])
  obtain d where "healthy sample_env d" "stored d (new_id sample_env ''Fix it'') (new_task sample_env (new_id sample_env ''Fix it'') ''Fix it'' ''write'' ''M'' ''low'') 
      [new_anchor (new_task sample_env (new_id sample_env ''Fix it'') ''Fix it'' ''write'' ''M'' ''low'') None]"
    and "fresh_tx sample_env ''task-state'' sample_store \<longrightarrow> fresh_tx sample_env ''task-state'' d"
    using create_stores [OF sample_healthy sample_fresh sample_unused [OF i] sample_uuid sample_args] by auto
  then show ?thesis using sample_fresh by blast
qed


end
