(* ===== verification/Versions.thy ===== *)
theory Versions
  imports Posix_Path Json
begin

text \<open>
  Semantic versions and the constraints on them in \<open>agentinfra/modules.py\<close>: \<open>_version\<close>,
  \<open>_compare_identifiers\<close>, \<open>_compare_versions\<close> and \<open>_requires_ok\<close>. A comparison returns \<open>-1\<close>, \<open>0\<close> or \<open>1\<close>
  as in the source; the locale \<open>comparison\<close> says when such a function is a linear order, and it is
  interpreted on the identifiers of a pre-release, on pre-releases and on versions, which makes the
  type of versions an instance of \<open>linorder\<close>.
\<close>

section \<open>Versions\<close>

datatype ident = Num nat | Alpha string

datatype version = Version (major: nat) (minor: nat) (patch: nat) (prerelease: "ident list")

text \<open>\<open>0|[1-9]\d*\<close> and \<open>[0-9A-Za-z.-]+\<close>.\<close>

definition is_number :: "string \<Rightarrow> bool" where
  "is_number s \<longleftrightarrow> s \<noteq> [] \<and> list_all is_digit s \<and> (hd s = CHR ''0'' \<longrightarrow> s = ''0'')"

definition is_tag :: "string \<Rightarrow> bool" where
  "is_tag s \<longleftrightarrow> s \<noteq> [] \<and> list_all (\<lambda>c. is_alnum c \<or> c = CHR ''.'' \<or> c = CHR ''-'') s"

text \<open>The text before the first \<open>sep\<close>, and the text after it if there is one.\<close>

definition cut :: "char \<Rightarrow> string \<Rightarrow> string \<times> string option" where
  "cut sep s = (takeWhile (\<lambda>c. c \<noteq> sep) s, (case dropWhile (\<lambda>c. c \<noteq> sep) s of [] \<Rightarrow> None | c # t \<Rightarrow> Some t))"

definition parse_identifier :: "string \<Rightarrow> ident res" where
  "parse_identifier s =
     (if s = [] \<or> (list_all is_digit s \<and> 1 < length s \<and> hd s = CHR ''0'')
      then Inl (ModuleError ''invalid semantic-version prerelease'')
      else Inr (if list_all is_digit s then Num (digits_val s) else Alpha s))"

text \<open>
  The expression of \<open>_version\<close> has no \<open>-\<close> and no \<open>+\<close> in its core and no \<open>+\<close> in its pre-release, so the
  text is cut at the first \<open>+\<close> and the rest before it at the first \<open>-\<close>.
\<close>

definition parse_version :: "string \<Rightarrow> version res" where
  "parse_version text =
     (let (front, build) = cut (CHR ''+'') (strip text); (core, pre) = cut (CHR ''-'') front;
          bad = Inl (ModuleError ''unsupported semantic version'')
      in if (case build of None \<Rightarrow> False | Some b \<Rightarrow> \<not> is_tag b) \<or> (case pre of None \<Rightarrow> False | Some p \<Rightarrow> \<not> is_tag p) then bad
         else case split_on (CHR ''.'') core of
           [a, b, c] \<Rightarrow>
             if is_number a \<and> is_number b \<and> is_number c
             then res_bind (case pre of None \<Rightarrow> Inr [] | Some p \<Rightarrow> map_res parse_identifier (split_on (CHR ''.'') p))
               (\<lambda>parts. Inr (Version (digits_val a) (digits_val b) (digits_val c) parts))
             else bad
         | _ \<Rightarrow> bad)"

section \<open>Comparisons\<close>

fun compare_identifier :: "ident \<Rightarrow> ident \<Rightarrow> int" where
  "compare_identifier (Num a) (Num b) = (if a = b then 0 else if a < b then - 1 else 1)"
| "compare_identifier (Num a) (Alpha t) = - 1"
| "compare_identifier (Alpha s) (Num b) = 1"
| "compare_identifier (Alpha s) (Alpha t) = (if s = t then 0 else if s < t then - 1 else 1)"

text \<open>The loop over the common positions, then the lengths.\<close>

fun compare_parts :: "ident list \<Rightarrow> ident list \<Rightarrow> int" where
  "compare_parts (a # left) (b # right) = (if a = b then compare_parts left right else compare_identifier a b)"
| "compare_parts left right = (if length right < length left then 1 else 0) - (if length left < length right then 1 else 0)"

definition compare_identifiers :: "ident list \<Rightarrow> ident list \<Rightarrow> int" where
  "compare_identifiers left right =
     (if left = [] \<and> right = [] then 0 else if left = [] then 1 else if right = [] then - 1 else compare_parts left right)"

definition core :: "version \<Rightarrow> nat list" where
  "core v = [major v, minor v, patch v]"

definition compare_versions :: "version \<Rightarrow> version \<Rightarrow> int" where
  "compare_versions left right =
     (if core left \<noteq> core right then (if core right < core left then 1 else 0) - (if core left < core right then 1 else 0)
      else compare_identifiers (prerelease left) (prerelease right))"

text \<open>A comparison function that answers as a linear order would.\<close>

locale comparison =
  fixes cmp :: "'a \<Rightarrow> 'a \<Rightarrow> int"
  assumes swap: "cmp y x = - cmp x y"
    and same: "cmp x y = 0 \<longleftrightarrow> x = y"
    and below: "cmp x y < 0 \<Longrightarrow> cmp y z < 0 \<Longrightarrow> cmp x z < 0"
begin

lemma up_to_trans: "cmp x y \<le> 0 \<Longrightarrow> cmp y z \<le> 0 \<Longrightarrow> cmp x z \<le> 0"
  using below [of x y z] same [of x y] same [of y z] by (cases "cmp x y = 0"; cases "cmp y z = 0") auto

lemma up_to_antisym: "cmp x y \<le> 0 \<Longrightarrow> cmp y x \<le> 0 \<Longrightarrow> x = y"
  using swap [of y x] same [of x y] by simp

lemma up_to_total: "cmp x y \<le> 0 \<or> cmp y x \<le> 0"
  using swap [of y x] by linarith

end

lemma compare_identifier_values: "compare_identifier a b \<in> {- 1, 0, 1}"
  by (induction a b rule: compare_identifier.induct) auto

interpretation identifiers: comparison compare_identifier
proof unfold_locales
  fix x y z :: ident
  show "compare_identifier y x = - compare_identifier x y" by (cases x; cases y) auto
  show "compare_identifier x y = 0 \<longleftrightarrow> x = y" by (cases x; cases y) auto
  show "compare_identifier x y < 0 \<Longrightarrow> compare_identifier y z < 0 \<Longrightarrow> compare_identifier x z < 0"
    by (cases x; cases y; cases z) (auto split: if_splits)
qed

interpretation parts: comparison compare_parts
proof unfold_locales
  fix x y z :: "ident list"
  show "compare_parts y x = - compare_parts x y"
  proof (induction x y rule: compare_parts.induct)
    case (1 a left b right)
    then show ?case using identifiers.swap [of b a] by auto
  qed auto
  show "compare_parts x y = 0 \<longleftrightarrow> x = y"
    by (induction x y rule: compare_parts.induct) (auto simp: identifiers.same)
  show "compare_parts x y < 0 \<Longrightarrow> compare_parts y z < 0 \<Longrightarrow> compare_parts x z < 0"
  proof (induction x arbitrary: y z)
    case Nil
    then show ?case by (cases y; cases z) auto
  next
    case (Cons a x)
    then obtain b y' c z' where y: "y = b # y'" and z: "z = c # z'" by (cases y; cases z) auto
    then show ?case using Cons identifiers.below [of a b c] identifiers.swap [of a b]
      by (auto simp: y z split: if_splits)
  qed
qed

interpretation prereleases: comparison compare_identifiers
proof unfold_locales
  fix x y z :: "ident list"
  show "compare_identifiers y x = - compare_identifiers x y" using parts.swap [of y x] by (auto simp: compare_identifiers_def)
  show "compare_identifiers x y = 0 \<longleftrightarrow> x = y" by (auto simp: compare_identifiers_def parts.same)
  show "compare_identifiers x y < 0 \<Longrightarrow> compare_identifiers y z < 0 \<Longrightarrow> compare_identifiers x z < 0"
    using parts.below [of x y z] by (auto simp: compare_identifiers_def split: if_splits)
qed

interpretation versions: comparison compare_versions
proof unfold_locales
  fix x y z :: version
  show "compare_versions y x = - compare_versions x y" using prereleases.swap [of "prerelease y" "prerelease x"] by (auto simp: compare_versions_def)
  show "compare_versions x y = 0 \<longleftrightarrow> x = y"
    by (cases x; cases y) (auto simp: compare_versions_def core_def prereleases.same split: if_splits)
  show "compare_versions x y < 0 \<Longrightarrow> compare_versions y z < 0 \<Longrightarrow> compare_versions x z < 0"
    using prereleases.below [of "prerelease x" "prerelease y" "prerelease z"]
    by (auto simp: compare_versions_def split: if_splits)
qed

instantiation version :: linorder
begin

definition less_eq_version :: "version \<Rightarrow> version \<Rightarrow> bool" where
  "less_eq_version v w \<longleftrightarrow> compare_versions v w \<le> 0"

definition less_version :: "version \<Rightarrow> version \<Rightarrow> bool" where
  "less_version v w \<longleftrightarrow> compare_versions v w < 0"

instance
proof
  fix x y z :: version
  show "x < y \<longleftrightarrow> x \<le> y \<and> \<not> y \<le> x" using versions.swap [of x y] by (auto simp: less_eq_version_def less_version_def)
  show "x \<le> x" using versions.same [of x x] by (simp add: less_eq_version_def)
  show "x \<le> y \<Longrightarrow> y \<le> z \<Longrightarrow> x \<le> z" using versions.up_to_trans by (simp add: less_eq_version_def)
  show "x \<le> y \<Longrightarrow> y \<le> x \<Longrightarrow> x = y" using versions.up_to_antisym by (simp add: less_eq_version_def)
  show "x \<le> y \<or> y \<le> x" using versions.up_to_total by (simp add: less_eq_version_def)
qed

end

section \<open>Constraints\<close>

definition OPERATORS :: "string list" where
  "OPERATORS = [''>='', ''<='', ''=='', ''>'', ''<'']"

text \<open>The text an operator is followed by in \<open>(>=|<=|==|>|<)\s*([^\s,]+)\<close>.\<close>

definition after_operator :: "string \<Rightarrow> string \<Rightarrow> string" where
  "after_operator term op = dropWhile is_space (drop (length op) term)"

definition matches_operator :: "string \<Rightarrow> string \<Rightarrow> bool" where
  "matches_operator term op \<longleftrightarrow> startswith term op \<and> after_operator term op \<noteq> [] \<and> list_all (\<lambda>c. \<not> is_space c) (after_operator term op)"

definition parse_term :: "string \<Rightarrow> (string \<times> version) res" where
  "parse_term term = (case find (matches_operator term) OPERATORS of
       None \<Rightarrow> Inl (ModuleError ''unsupported requires_framework constraint'')
     | Some op \<Rightarrow> res_bind (parse_version (after_operator term op)) (\<lambda>wanted. Inr (op, wanted)))"

definition term_holds :: "version \<Rightarrow> string \<times> version \<Rightarrow> bool" where
  "term_holds current ow = (case ow of (op, wanted) \<Rightarrow> (let c = compare_versions current wanted in
     if op = ''>='' then 0 \<le> c else if op = ''<='' then c \<le> 0 else if op = ''=='' then c = 0
     else if op = ''>'' then 0 < c else c < 0))"

fun requires_terms :: "version \<Rightarrow> string list \<Rightarrow> bool res" where
  "requires_terms current [] = Inr True"
| "requires_terms current (raw # raws) = res_bind (parse_term (strip raw)) (\<lambda>t.
     if term_holds current t then requires_terms current raws else Inr False)"

definition requires_ok :: "version \<Rightarrow> pyval \<Rightarrow> bool res" where
  "requires_ok current requirement = (case requirement of
       PyStr r \<Rightarrow> if blank r then Inl (ModuleError ''requires_framework must be a non-empty constraint string'')
         else requires_terms current (split_on (CHR '','') r)
     | _ \<Rightarrow> Inl (ModuleError ''requires_framework must be a non-empty constraint string''))"

lemma requires_terms_True:
  "requires_terms current raws = Inr True \<longleftrightarrow> (\<forall>raw \<in> set raws. \<exists>t. parse_term (strip raw) = Inr t \<and> term_holds current t)"
  by (induction raws) (auto simp: res_bind_Inr split: if_splits)

lemma term_holds_order:
  "term_holds v (op, w) \<longleftrightarrow> (if op = ''>='' then w \<le> v else if op = ''<='' then v \<le> w else if op = ''=='' then v = w
     else if op = ''>'' then w < v else v < w)"
  using versions.swap [of w v] versions.same [of v w] by (auto simp: term_holds_def Let_def less_eq_version_def less_version_def)

lemma term_holds_between: "term_holds u t \<Longrightarrow> term_holds w t \<Longrightarrow> u \<le> v \<Longrightarrow> v \<le> w \<Longrightarrow> term_holds v t"
  by (cases t) (auto simp: term_holds_order split: if_splits)

section \<open>Properties\<close>

text \<open>The precedence example of the semantic versioning specification, as the code orders it.\<close>

lemma precedence_example:
  "map_res parse_version [''1.0.0-alpha'', ''1.0.0-alpha.1'', ''1.0.0-alpha.beta'', ''1.0.0-beta'', ''1.0.0-beta.2'', ''1.0.0-beta.11'', ''1.0.0-rc.1'', ''1.0.0+build'']
     = Inr [Version 1 0 0 [Alpha ''alpha''], Version 1 0 0 [Alpha ''alpha'', Num 1], Version 1 0 0 [Alpha ''alpha'', Alpha ''beta''], Version 1 0 0 [Alpha ''beta''],
         Version 1 0 0 [Alpha ''beta'', Num 2], Version 1 0 0 [Alpha ''beta'', Num 11], Version 1 0 0 [Alpha ''rc'', Num 1], Version 1 0 0 []]"
  "sorted_wrt (<) [Version 1 0 0 [Alpha ''alpha''], Version 1 0 0 [Alpha ''alpha'', Num 1], Version 1 0 0 [Alpha ''alpha'', Alpha ''beta''], Version 1 0 0 [Alpha ''beta''],
         Version 1 0 0 [Alpha ''beta'', Num 2], Version 1 0 0 [Alpha ''beta'', Num 11], Version 1 0 0 [Alpha ''rc'', Num 1], Version 1 0 0 []]"
  by code_simp+

text \<open>
  A constraint on the framework version is an interval. The comparison of versions is a linear order
  (instance above), a constraint is satisfied exactly when each of its comma-separated terms parses and its
  comparison holds in that order, and a version between two that satisfy a constraint satisfies it too.
\<close>

theorem requires_interval:
  assumes "requires_ok u (PyStr r) = Inr True" and "requires_ok w (PyStr r) = Inr True" and "u \<le> v" and "v \<le> w"
  shows "requires_ok v (PyStr r) = Inr True
    \<and> (\<forall>raw \<in> set (split_on (CHR '','') r). \<exists>op wanted. parse_term (strip raw) = Inr (op, wanted)
        \<and> (if op = ''>='' then wanted \<le> v else if op = ''<='' then v \<le> wanted else if op = ''=='' then v = wanted
           else if op = ''>'' then wanted < v else v < wanted))"
proof -
  have nb: "\<not> blank r" using assms(1) by (auto simp: requires_ok_def split: if_splits)
  have t: "\<exists>t. parse_term (strip raw) = Inr t \<and> term_holds v t" if "raw \<in> set (split_on (CHR '','') r)" for raw
    using that assms nb term_holds_between [of u _ w v] by (fastforce simp: requires_ok_def requires_terms_True)
  have "requires_ok v (PyStr r) = Inr True" using t nb by (simp add: requires_ok_def requires_terms_True)
  then show ?thesis using t by (fastforce simp: term_holds_order)
qed

theorem requires_interval_witness:
  "requires_ok (Version 4 2 0 [Alpha ''rc'', Num 1]) (PyStr ''>=4.0.0,<5.0.0'') = Inr True"
proof -
  have "requires_ok (Version 4 0 0 []) (PyStr ''>=4.0.0,<5.0.0'') = Inr True" "requires_ok (Version 4 9 9 []) (PyStr ''>=4.0.0,<5.0.0'') = Inr True"
    "Version 4 0 0 [] \<le> Version 4 2 0 [Alpha ''rc'', Num 1]" "Version 4 2 0 [Alpha ''rc'', Num 1] \<le> Version 4 9 9 []"
    by code_simp+
  from requires_interval [OF this] show ?thesis by blast
qed

end
