(* ===== verification/Modules.thy ===== *)
theory Modules
  imports Versions File_System
begin

text \<open>
  Modules of the control plane, \<open>agentinfra/modules.py\<close>: the check of a module manifest, the paths a
  module may name, the search for modules in the framework and the check of their dependency graph.

  A manifest is the value \<open>tomllib\<close> reads from \<open>module.toml\<close>; the reader is the argument \<open>toml\<close> of
  \<open>discover\<close>, \<open>None\<close> standing for the error it raises. The depth-first search over the dependencies is a
  \<open>partial_function\<close>, so that it returns at all is a theorem.
\<close>

section \<open>Manifests\<close>

definition KINDS :: "string list" where
  "KINDS = [''agent-host'', ''agent-host-template'', ''environment'', ''developer-extension'']"

definition HARD_INVARIANT_ADAPTERS :: "string list" where
  "HARD_INVARIANT_ADAPTERS = [''codex'', ''xonsh'', ''python-meta'']"

definition TOP_KEYS :: "string list" where
  "TOP_KEYS = [''module'', ''detect'', ''install'', ''python'']"

definition MODULE_KEYS :: "string list" where
  "MODULE_KEYS = [''id'', ''name'', ''version'', ''kind'', ''policy'', ''requires_framework'', ''replaces'', ''dependencies'']"

definition DETECT_KEYS :: "string list" where
  "DETECT_KEYS = [''executables'', ''environment_any'', ''python_packages_all'']"

definition INSTALL_KEYS :: "string list" where
  "INSTALL_KEYS = [''command'', ''verify'', ''uninstall'', ''writes'']"

definition PYTHON_KEYS :: "string list" where
  "PYTHON_KEYS = [''optional_dependencies'']"

text \<open>\<open>ID_RE\<close> and \<open>PACKAGE_RE\<close>.\<close>

definition id_char :: "char \<Rightarrow> bool" where
  "id_char c \<longleftrightarrow> is_lower c \<or> is_digit c"

definition is_module_id :: "string \<Rightarrow> bool" where
  "is_module_id s \<longleftrightarrow> s \<noteq> [] \<and> length s \<le> 64 \<and> id_char (hd s) \<and> id_char (last s) \<and> list_all (\<lambda>c. id_char c \<or> c = CHR ''-'') s"

definition is_package :: "string \<Rightarrow> bool" where
  "is_package s \<longleftrightarrow> s \<noteq> [] \<and> is_alnum (hd s) \<and> list_all (\<lambda>c. is_alnum c \<or> c \<in> set ''_.-'') s"

definition str_where :: "(string \<Rightarrow> bool) \<Rightarrow> pyval \<Rightarrow> bool" where
  "str_where P v = (case v of PyStr s \<Rightarrow> P s | _ \<Rightarrow> False)"

definition string_array :: "pyval \<Rightarrow> bool \<Rightarrow> unit res" where
  "string_array v allow_empty = check_all
     [guard (is_list v \<and> list_all is_text (items v)) (ModuleError ''must be an array of non-empty strings''),
      guard (allow_empty \<or> items v \<noteq> []) (ModuleError ''must not be empty'')]"

definition only_keys :: "pyval \<Rightarrow> string list \<Rightarrow> unit res" where
  "only_keys table allowed = guard (list_all (\<lambda>e. fst e \<in> set allowed) (entries table)) (ModuleError ''unknown field(s)'')"

definition check_version :: "pyval \<Rightarrow> unit res" where
  "check_version v = (case v of PyStr s \<Rightarrow> res_bind (parse_version s) (\<lambda>_. Inr ()) | _ \<Rightarrow> Inl AttributeErr)"

definition check_table :: "pyval \<Rightarrow> string \<times> string list \<Rightarrow> unit res" where
  "check_table data t = (case t of (name, allowed) \<Rightarrow> (let table = dget_or data name (PyDict []) in check_all
     [guard (is_dict table) (ModuleError ''must be a table''),
      only_keys table allowed,
      for_each (\<lambda>e. string_array (snd e) False) (entries table)]))"

definition packages :: "pyval \<Rightarrow> pyval list" where
  "packages data = items (dget_or (dget_or data ''detect'' (PyDict [])) ''python_packages_all'' (PyList []))
     @ items (dget_or (dget_or data ''python'' (PyDict [])) ''optional_dependencies'' (PyList []))"

definition check_dependencies :: "pyval \<Rightarrow> unit res" where
  "check_dependencies v = check_all
     [string_array v True,
      guard (list_all (str_where is_module_id) (items v) \<and> distinct (items v)) (ModuleError ''module.dependencies contains invalid or duplicate ids'')]"

definition check_manifest :: "pyval \<Rightarrow> unit res" where
  "check_manifest data = (let module = dget data ''module'' in check_all
     [guard (is_dict data) (ModuleError ''invalid module manifest''),
      only_keys data TOP_KEYS,
      guard (is_dict module) (ModuleError ''module table is required''),
      only_keys module MODULE_KEYS,
      guard (list_all (has_key module) [''id'', ''name'', ''version'', ''kind'', ''policy'']) (ModuleError ''module manifest missing field(s)''),
      guard (str_where is_module_id (dget module ''id'')) (ModuleError ''module id must be canonical lowercase letters/digits/hyphens''),
      guard (is_text (dget module ''name'')) (ModuleError ''module name must be a non-empty string''),
      check_version (dget module ''version''),
      memb (dget module ''kind'') KINDS (ModuleError ''unknown module kind''),
      string_array (dget module ''policy'') False,
      guard (\<not> has_key module ''replaces'' \<or> str_where is_module_id (dget module ''replaces'')) (ModuleError ''module.replaces must be a canonical module id''),
      whenever (has_key module ''dependencies'') (check_dependencies (dget module ''dependencies'')),
      for_each (check_table data) [(''detect'', DETECT_KEYS), (''install'', INSTALL_KEYS), (''python'', PYTHON_KEYS)],
      guard (list_all (str_where is_package) (packages data)) (ModuleError ''unsafe Python package name'')])"

definition text_of :: "pyval \<Rightarrow> string" where
  "text_of v = (case v of PyStr s \<Rightarrow> s | _ \<Rightarrow> [])"

text \<open>What discovery keeps of a module; \<open>mi_replaced\<close> is the built-in module a local one replaces.\<close>

datatype module_info = Module (mi_path: path) (mi_manifest: pyval) (mi_source: string) (mi_replaced: "module_info option")

type_synonym modules = "(string \<times> module_info) list"

definition dependencies :: "module_info \<Rightarrow> string list" where
  "dependencies info = map text_of (items (dget_or (dget (mi_manifest info) ''module'') ''dependencies'' (PyList [])))"

section \<open>The dependency graph\<close>

text \<open>A loop whose body carries a state, may raise, and may fail to return.\<close>

fun each_opt :: "('s \<Rightarrow> 'a \<Rightarrow> 's res option) \<Rightarrow> 'a list \<Rightarrow> 's \<Rightarrow> 's res option" where
  "each_opt f [] s = Some (Inr s)"
| "each_opt f (x # xs) s = Option.bind (f s x) (\<lambda>r. case r of Inl e \<Rightarrow> Some (Inl e) | Inr s' \<Rightarrow> each_opt f xs s')"

lemma each_opt_mono [partial_function_mono]:
  assumes "\<And>s x. mono_option (\<lambda>F. f F s x)"
  shows "mono_option (\<lambda>F. each_opt (f F) xs s)"
proof (induction xs arbitrary: s)
  case Nil
  show ?case by (simp add: monotone_def option.leq_refl)
next
  case (Cons x xs)
  have "mono_option (\<lambda>F. Option.bind (f F s x) (\<lambda>r. case r of Inl e \<Rightarrow> Some (Inl e) | Inr s' \<Rightarrow> each_opt (f F) xs s'))"
  proof (intro bind_mono assms)
    fix r
    show "mono_option (\<lambda>F. case r of Inl e \<Rightarrow> Some (Inl e) | Inr s' \<Rightarrow> each_opt (f F) xs s')"
      by (cases r) (simp_all add: Cons option.const_mono)
  qed
  then show ?case by simp
qed

text \<open>
  \<open>visit\<close>: \<open>visiting\<close> are the modules whose visit has begun and not ended (they are taken out when it ends,
  so the caller's set is unchanged), \<open>visited\<close> the ended ones, latest first.
\<close>

partial_function (option) visit :: "modules \<Rightarrow> string list \<Rightarrow> string list \<Rightarrow> string \<Rightarrow> string list res option" where
  "visit found visiting visited m =
    (if m \<in> set visiting then Some (Inl (ModuleError ''module dependency cycle''))
     else if m \<in> set visited then Some (Inr visited)
     else case map_of found m of
       None \<Rightarrow> Some (Inl (KeyErr m))
     | Some info \<Rightarrow>
        Option.bind (each_opt (\<lambda>done dependency.
            if map_of found dependency = None then Some (Inl (ModuleError ''missing dependency''))
            else visit found (m # visiting) done dependency) (dependencies info) visited)
          (\<lambda>r. case r of Inl e \<Rightarrow> Some (Inl e) | Inr done \<Rightarrow> Some (Inr (m # done))))"

declare visit.simps [code]

definition visit_all :: "modules \<Rightarrow> string list res option" where
  "visit_all found = each_opt (visit found []) (sort (map fst found)) []"

definition check_dependency_graph :: "modules \<Rightarrow> unit res option" where
  "check_dependency_graph found = map_option (map_sum id (\<lambda>_. ())) (visit_all found)"

subsection \<open>What the search decides\<close>

definition graph :: "modules \<Rightarrow> (string \<times> string) set" where
  "graph found = {(m, d). \<exists>info. map_of found m = Some info \<and> d \<in> set (dependencies info)}"

text \<open>A list in which the dependencies of every module come after it.\<close>

fun ordered_by :: "modules \<Rightarrow> string list \<Rightarrow> bool" where
  "ordered_by found [] \<longleftrightarrow> True"
| "ordered_by found (m # ms) \<longleftrightarrow> m \<in> dom (map_of found) \<and> m \<notin> set ms \<and> graph found `` {m} \<subseteq> set ms \<and> ordered_by found ms"

lemma ordered_reaches: "ordered_by found ms \<Longrightarrow> m \<in> set ms \<Longrightarrow> (m, x) \<in> (graph found)\<^sup>+ \<Longrightarrow> x \<in> set ms \<and> x \<noteq> m"
proof (induction ms arbitrary: m)
  case (Cons k ms)
  show ?case
  proof (cases "m = k")
    case True
    from Cons.prems(3) obtain d where d: "(m, d) \<in> graph found" "(d, x) \<in> (graph found)\<^sup>*" by (meson tranclD)
    then have "d \<in> set ms" using Cons.prems(1) True by auto
    then have "x \<in> set ms" using d(2) Cons.IH [of d] Cons.prems(1) by (metis ordered_by.simps(2) rtranclD)
    then show ?thesis using Cons.prems(1) True by auto
  next
    case False
    then show ?thesis using Cons by auto
  qed
qed simp

lemma ordered_dom: "ordered_by found ms \<Longrightarrow> set ms \<subseteq> dom (map_of found)"
  by (induction ms) auto

definition well_founded :: "modules \<Rightarrow> bool" where
  "well_founded found \<longleftrightarrow> Range (graph found) \<subseteq> dom (map_of found) \<and> acyclic (graph found)"

lemma ordered_well_founded:
  assumes "ordered_by found ms" and "dom (map_of found) \<subseteq> set ms"
  shows "well_founded found"
proof -
  have r: "x \<in> set ms \<and> x \<noteq> m" if "(m, x) \<in> (graph found)\<^sup>+" for m x
  proof -
    have "m \<in> dom (map_of found)" using tranclD [OF that] by (auto simp: graph_def)
    then show ?thesis using ordered_reaches [OF assms(1) _ that] assms(2) by blast
  qed
  then have "Range (graph found) \<subseteq> dom (map_of found)" using ordered_dom [OF assms(1)] by blast
  moreover have "acyclic (graph found)" using r by (auto simp: acyclic_def)
  ultimately show ?thesis by (simp add: well_founded_def)
qed

text \<open>A raise means the graph is not well founded; a return extends the visited modules.\<close>

definition outcome :: "modules \<Rightarrow> (string list \<Rightarrow> bool) \<Rightarrow> string set \<Rightarrow> string list \<Rightarrow> string list res option \<Rightarrow> bool" where
  "outcome found ok goal s r \<longleftrightarrow> (\<exists>x. r = Some x \<and> (case x of
      Inl e \<Rightarrow> \<not> well_founded found \<and> (\<exists>msg. e = ModuleError msg)
    | Inr s' \<Rightarrow> ok s' \<and> set s \<subseteq> set s' \<and> goal \<subseteq> set s'))"

lemma outcome_simps [simp]:
  "outcome found ok goal s (Some (Inl e)) \<longleftrightarrow> \<not> well_founded found \<and> (\<exists>msg. e = ModuleError msg)"
  "outcome found ok goal s (Some (Inr s')) \<longleftrightarrow> ok s' \<and> set s \<subseteq> set s' \<and> goal \<subseteq> set s'"
  by (simp_all add: outcome_def)

lemma outcomeE:
  assumes "outcome found ok goal s r"
  obtains e where "r = Some (Inl e)" "\<not> well_founded found" "\<exists>msg. e = ModuleError msg"
    | s' where "r = Some (Inr s')" "ok s'" "set s \<subseteq> set s'" "goal \<subseteq> set s'"
proof -
  obtain x where "r = Some x" "case x of Inl e \<Rightarrow> \<not> well_founded found \<and> (\<exists>msg. e = ModuleError msg) | Inr s' \<Rightarrow> ok s' \<and> set s \<subseteq> set s' \<and> goal \<subseteq> set s'"
    using assms unfolding outcome_def by blast
  then show thesis using that by (cases x) auto
qed

lemma each_outcome:
  assumes "\<And>s x. x \<in> set xs \<Longrightarrow> ok s \<Longrightarrow> outcome found ok {x} s (f s x)" and "ok s"
  shows "outcome found ok (set xs) s (each_opt f xs s)"
  using assms
proof (induction xs arbitrary: s)
  case (Cons x xs)
  have "outcome found ok {x} s (f s x)" using Cons.prems by simp
  then consider e where "f s x = Some (Inl e)" "\<not> well_founded found" "\<exists>msg. e = ModuleError msg"
    | s' where "f s x = Some (Inr s')" "ok s'" "set s \<subseteq> set s'" "x \<in> set s'" by (elim outcomeE) auto
  then show ?case
  proof cases
    case 2
    then have "outcome found ok (set xs) s' (each_opt f xs s')" using Cons by simp
    then show ?thesis by (elim outcomeE) (use 2 in auto)
  qed simp
qed simp

lemma visit_outcome:
  assumes "m \<in> dom (map_of found)" and "ordered_by found visited" and "set visited \<inter> set visiting = {}"
    and "\<And>x. x \<in> set visiting \<Longrightarrow> (x, m) \<in> (graph found)\<^sup>+"
  shows "outcome found (\<lambda>s. ordered_by found s \<and> set s \<inter> set visiting = {}) {m} visited (visit found visiting visited m)"
  using assms
proof (induction "card (dom (map_of found) - set visiting)" arbitrary: m visiting visited rule: less_induct)
  case less
  let ?r = "visit found visiting visited m"
  consider "m \<in> set visiting" | "m \<notin> set visiting" "m \<in> set visited" | info where "m \<notin> set visiting" "m \<notin> set visited" "map_of found m = Some info"
    using less.prems(1) by blast
  then show ?case
  proof cases
    case 1
    then have "\<not> well_founded found" using less.prems(4) by (auto simp: well_founded_def acyclic_def)
    then show ?thesis using 1 by (simp add: visit.simps [of found visiting] outcome_def)
  next
    case 2
    then show ?thesis using less.prems by (simp add: visit.simps [of found visiting] outcome_def)
  next
    case 3
    let ?ok = "\<lambda>s. ordered_by found s \<and> set s \<inter> set (m # visiting) = {}"
    let ?f = "\<lambda>s d. if map_of found d = None then Some (Inl (ModuleError ''missing dependency'')) else visit found (m # visiting) s d"
    have e: "(m, d) \<in> graph found" if "d \<in> set (dependencies info)" for d using that 3 by (auto simp: graph_def)
    have "card (dom (map_of found) - set (m # visiting)) < card (dom (map_of found) - set visiting)"
      using 3 less.prems(1) by (intro psubset_card_mono finite_Diff finite_dom_map_of) auto
    then have step: "outcome found ?ok {d} s (?f s d)" if d: "d \<in> set (dependencies info)" and s: "?ok s" for s d
    proof (cases "map_of found d = None")
      case True
      then have "\<not> well_founded found" using e [OF d] by (auto simp: well_founded_def)
      then show ?thesis using True by (simp add: outcome_def)
    next
      case False
      have "(x, d) \<in> (graph found)\<^sup>+" if "x \<in> set (m # visiting)" for x
        using that e [OF d] less.prems(4) [of x] by (auto intro: trancl_into_trancl)
      then have "outcome found ?ok {d} s (visit found (m # visiting) s d)"
        using False s by (intro less.hyps) (use \<open>card _ < _\<close> in auto)
      then show ?thesis using False by (simp only: if_False)
    qed
    have "outcome found ?ok (set (dependencies info)) visited (each_opt ?f (dependencies info) visited)"
      by (rule each_outcome [OF step]) (use less.prems 3 in auto)
    then show ?thesis
      by (elim outcomeE) (use 3 in \<open>auto simp: visit.simps [of found visiting] graph_def\<close>)
  qed
qed

lemma graph_decided:
  "\<exists>r. check_dependency_graph found = Some r
     \<and> (r = Inr () \<longleftrightarrow> Range (graph found) \<subseteq> dom (map_of found) \<and> acyclic (graph found))
     \<and> (r = Inr () \<or> (\<exists>msg. r = Inl (ModuleError msg)))"
proof -
  have "outcome found (ordered_by found) (set (sort (map fst found))) [] (visit_all found)"
    unfolding visit_all_def
  proof (rule each_outcome)
    fix s x
    assume "x \<in> set (sort (map fst found))" and "ordered_by found s"
    then show "outcome found (ordered_by found) {x} s (visit found [] s x)"
      using visit_outcome [of x found s "[]"] by (simp add: dom_map_of_conv_image_fst)
  qed simp
  then consider e where "visit_all found = Some (Inl e)" "\<not> well_founded found" "\<exists>msg. e = ModuleError msg"
    | ms where "visit_all found = Some (Inr ms)" "ordered_by found ms" "dom (map_of found) \<subseteq> set ms"
    by (elim outcomeE) (auto simp: dom_map_of_conv_image_fst)
  then show ?thesis
  proof cases
    case 1
    then show ?thesis by (auto simp: check_dependency_graph_def well_founded_def)
  next
    case 2
    then show ?thesis using ordered_well_founded [OF 2(2,3)] by (simp add: check_dependency_graph_def well_founded_def)
  qed
qed
section \<open>Discovery\<close>

fun fold_res :: "('a \<Rightarrow> 's \<Rightarrow> 's res) \<Rightarrow> 'a list \<Rightarrow> 's \<Rightarrow> 's res" where
  "fold_res f [] s = Inr s"
| "fold_res f (x # xs) s = res_bind (f x s) (fold_res f xs)"

lemma fold_res_invariant:
  assumes "fold_res f xs s = Inr t" and "I s" and "\<And>x s t. x \<in> set xs \<Longrightarrow> I s \<Longrightarrow> f x s = Inr t \<Longrightarrow> I t"
  shows "I t"
  using assms by (induction xs arbitrary: s) (auto simp: res_bind_Inr)

text \<open>A path as a manifest spells it, and the disk as seen from a directory.\<close>

definition spelled :: "string \<Rightarrow> supplied" where
  "spelled v = (if startswith v [slash] then Abs (path_parts v) else Rel (path_parts v))"

definition under :: "disk \<Rightarrow> path \<Rightarrow> disk" where
  "under d base = map (\<lambda>e. (drop (length base) (fst e), snd e)) (filter (\<lambda>e. take (length base) (fst e) = base \<and> fst e \<noteq> base) d)"

definition is_source_framework :: "disk \<Rightarrow> bool" where
  "is_source_framework d \<longleftrightarrow> list_all (exists d) [[''VERSION''], [''framework.toml''], [''infra'', ''agentinfra''], [''laws''], [''modules'']]"

definition framework_dir :: "disk \<Rightarrow> path res" where
  "framework_dir d = (if is_source_framework d then Inr [] else if is_dir d agents_dir then Inr agents_dir else Inl FileNotFoundErr)"

definition framework_version :: "disk \<Rightarrow> path \<Rightarrow> version res" where
  "framework_version d fw = (case read d (fw @ [''VERSION'']) of
      Some text \<Rightarrow> parse_version (strip text)
    | None \<Rightarrow> if exists d (fw @ [''VERSION'']) then Inl (OSErr ''not a file'') else Inl (ModuleError ''framework VERSION is missing''))"

definition read_manifest :: "(string \<Rightarrow> pyval option) \<Rightarrow> disk \<Rightarrow> path \<Rightarrow> pyval res" where
  "read_manifest toml d p =
    (if is_path_redirect d p then Inl (ModuleError ''module manifest must not be a symlink'')
     else case Option.bind (read d p) toml of
       None \<Rightarrow> Inl (ModuleError ''invalid module manifest'')
     | Some data \<Rightarrow> res_bind (check_manifest data) (\<lambda>_. Inr data))"

definition policy_file :: "path \<Rightarrow> disk \<Rightarrow> path \<Rightarrow> pyval \<Rightarrow> unit res" where
  "policy_file root d base v = res_bind (confined_path (root @ base) (under d base) (spelled (text_of v)) True False) (\<lambda>p.
     guard (is_file d (base @ p)) (ModuleError ''module policy is not a regular file''))"

definition SHELLS :: "string list" where
  "SHELLS = [''sh'', ''bash'', ''cmd'', ''cmd.exe'', ''powershell'', ''pwsh'']"

definition action_script :: "path \<Rightarrow> disk \<Rightarrow> path \<Rightarrow> string \<Rightarrow> unit res" where
  "action_script root d base text = (let ps = path_parts text in
     if startswith text [slash] \<or> ''..'' \<in> set ps then Inl (ModuleError ''unsafe module action script path'')
     else res_bind (if ps \<noteq> [] \<and> hd ps = ''.agents'' then res_bind (framework_dir d) (\<lambda>fw. Inr (if fw = [] then tl ps else ps)) else Inr ps) (\<lambda>script.
       res_bind (confined_path root d (Rel script) True False) (\<lambda>target. check_all
         [guard (take (length base) target = base) (ModuleError ''module action script escapes its module''),
          guard (is_file d target) (ModuleError ''module action script is not a file'')])))"

definition action_argv :: "path \<Rightarrow> disk \<Rightarrow> path \<Rightarrow> string \<times> pyval \<Rightarrow> unit res" where
  "action_argv root d base entry = (case entry of (action, value) \<Rightarrow>
     if action = ''writes'' then Inr ()
     else case map text_of (items value) of
       [] \<Rightarrow> Inl (ModuleError ''module action is empty'')
     | first # rest \<Rightarrow>
        if first = ''python'' \<or> first = ''{python}'' then
          (case rest of [] \<Rightarrow> Inl (ModuleError ''module Python action has no script'') | script # _ \<Rightarrow> action_script root d base script)
        else guard (slash \<notin> set first \<and> CHR 0x5C \<notin> set first \<and> casefold first \<notin> set SHELLS) (ModuleError ''unsafe module action executable''))"

definition validate_module_paths :: "path \<Rightarrow> disk \<Rightarrow> module_info \<Rightarrow> unit res" where
  "validate_module_paths root d info = check_all
     [for_each (policy_file root d (mi_path info)) (items (dget (dget (mi_manifest info) ''module'') ''policy'')),
      for_each (action_argv root d (mi_path info)) (entries (dget_or (mi_manifest info) ''install'' (PyDict [])))]"

definition check_requirement :: "disk \<Rightarrow> path \<Rightarrow> pyval \<Rightarrow> unit res" where
  "check_requirement d fw requirement = whenever (truthy requirement)
     (res_bind (framework_version d fw) (\<lambda>v. res_bind (requires_ok v requirement) (\<lambda>ok.
       guard ok (ModuleError ''module requires another framework version''))))"

definition module_of :: "pyval \<Rightarrow> pyval" where
  "module_of data = dget data ''module''"

definition add_module :: "(string \<Rightarrow> pyval option) \<Rightarrow> path \<Rightarrow> disk \<Rightarrow> path \<Rightarrow> path \<Rightarrow> string \<Rightarrow> string \<Rightarrow> modules \<Rightarrow> modules res" where
  "add_module toml root d fw base source name found =
    res_bind (read_manifest toml d (base @ [name, ''module.toml''])) (\<lambda>data.
    let module_id = text_of (dget (module_of data) ''id''); replaces = dget (module_of data) ''replaces'';
        info = Module (base @ [name]) data source None in
    res_bind (check_all [guard (name = module_id) (ModuleError ''module directory does not match manifest id''),
      check_requirement d fw (dget (module_of data) ''requires_framework''),
      validate_module_paths root d info]) (\<lambda>_.
    case map_of found module_id of
      Some previous \<Rightarrow>
        if source \<noteq> ''local'' \<or> mi_source previous \<noteq> ''built-in'' \<or> replaces \<noteq> PyStr module_id
        then Inl (ModuleError ''duplicate module id'')
        else if module_id \<in> set HARD_INVARIANT_ADAPTERS
        then Inl (ModuleError ''local replacement of protected hard-invariant adapter is forbidden'')
        else Inr (AList.update module_id (Module (base @ [name]) data source (Some previous)) found)
    | None \<Rightarrow>
        if truthy replaces then Inl (ModuleError ''declares replacement but no built-in module exists'')
        else Inr (AList.update module_id info found)))"

definition module_names :: "disk \<Rightarrow> path \<Rightarrow> string list" where
  "module_names d base = filter (\<lambda>n. exists d (base @ [n, ''module.toml''])) (names d base)"

definition scan_base :: "(string \<Rightarrow> pyval option) \<Rightarrow> path \<Rightarrow> disk \<Rightarrow> path \<Rightarrow> path \<times> string \<Rightarrow> modules \<Rightarrow> modules res" where
  "scan_base toml root d fw bs found = (case bs of (base, source) \<Rightarrow>
     if \<not> exists d base then Inr found
     else if is_path_redirect d base then Inl (ModuleError ''module root must not be a symlink'')
     else fold_res (add_module toml root d fw base source) (module_names d base) found)"

definition scan_modules :: "(string \<Rightarrow> pyval option) \<Rightarrow> path \<Rightarrow> disk \<Rightarrow> modules res" where
  "scan_modules toml root d = res_bind (framework_dir d) (\<lambda>fw.
     fold_res (scan_base toml root d fw) [(fw @ [''modules''], ''built-in''), (fw @ [''local-modules''], ''local'')] [])"

definition discover :: "(string \<Rightarrow> pyval option) \<Rightarrow> path \<Rightarrow> disk \<Rightarrow> modules res option" where
  "discover toml root d = (case scan_modules toml root d of
      Inl e \<Rightarrow> Some (Inl e)
    | Inr found \<Rightarrow> map_option (\<lambda>r. res_bind r (\<lambda>_. Inr found)) (check_dependency_graph found))"

subsection \<open>What is found\<close>

text \<open>A module as discovery may return it.\<close>

definition admissible :: "path \<Rightarrow> disk \<Rightarrow> path \<Rightarrow> string \<Rightarrow> module_info \<Rightarrow> bool" where
  "admissible root d fw m info \<longleftrightarrow> check_manifest (mi_manifest info) = Inr ()
     \<and> dget (module_of (mi_manifest info)) ''id'' = PyStr m
     \<and> check_requirement d fw (dget (module_of (mi_manifest info)) ''requires_framework'') = Inr ()
     \<and> validate_module_paths root d info = Inr ()
     \<and> mi_path info = fw @ [if mi_source info = ''local'' then ''local-modules'' else ''modules'', m]
     \<and> (case mi_replaced info of None \<Rightarrow> \<not> truthy (dget (module_of (mi_manifest info)) ''replaces'')
        | Some previous \<Rightarrow> mi_source info = ''local'' \<and> mi_source previous = ''built-in'' \<and> m \<notin> set HARD_INVARIANT_ADAPTERS
            \<and> dget (module_of (mi_manifest info)) ''replaces'' = PyStr m)"

lemma manifest_id: "check_manifest data = Inr () \<Longrightarrow> dget (module_of data) ''id'' = PyStr (text_of (dget (module_of data) ''id''))"
  by (cases "dget (module_of data) ''id''") (auto simp: check_manifest_def Let_def guards str_where_def text_of_def module_of_def)

lemma validate_ignores_replaced: "validate_module_paths root d (Module p data s r) = validate_module_paths root d (Module p data s r')"
  by (simp add: validate_module_paths_def)

lemma add_module_Inr:
  assumes "add_module toml root d fw (fw @ [dir]) source name found = Inr found'" and "dir = (if source = ''local'' then ''local-modules'' else ''modules'')"
  obtains info where "map_of found' = (map_of found)(name \<mapsto> info)" "admissible root d fw name info" "mi_source info = source"
    "map_of found name = None \<or> (source = ''local'' \<and> name \<notin> set HARD_INVARIANT_ADAPTERS)"
proof -
  obtain data where r: "read_manifest toml d (fw @ [dir, name, ''module.toml'']) = Inr data"
    using assms(1) by (auto simp: add_module_def res_bind_Inr)
  let ?id = "text_of (dget (module_of data) ''id'')"
  have c: "check_manifest data = Inr ()" using r by (auto simp: read_manifest_def res_bind_Inr split: if_splits option.splits)
  have k: "check_all [guard (name = ?id) (ModuleError ''module directory does not match manifest id''),
      check_requirement d fw (dget (module_of data) ''requires_framework''),
      validate_module_paths root d (Module (fw @ [dir, name]) data source None)] = Inr ()"
    using assms(1) r by (auto simp: add_module_def res_bind_Inr Let_def)
  then have n: "?id = name" by (simp add: guards)
  note rest = assms(1) [unfolded add_module_def, simplified, unfolded r, simplified, unfolded Let_def k, simplified, unfolded n]
  show thesis
  proof (cases "map_of found name")
    case None
    then have "found' = AList.update name (Module (fw @ [dir, name]) data source None) found" "\<not> truthy (dget (module_of data) ''replaces'')"
      using rest by (auto split: if_splits)
    then show thesis using that None c k n manifest_id [OF c] assms(2)
      by (auto simp: update_conv' admissible_def guards)
  next
    case (Some previous)
    then have "found' = AList.update name (Module (fw @ [dir, name]) data source (Some previous)) found" "source = ''local''"
        "mi_source previous = ''built-in''" "dget (module_of data) ''replaces'' = PyStr name" "name \<notin> set HARD_INVARIANT_ADAPTERS"
      using rest by (auto split: if_splits)
    moreover have "validate_module_paths root d (Module (fw @ [dir, name]) data source (Some previous)) = Inr ()"
      using k validate_ignores_replaced [of root d "fw @ [dir, name]" data source None "Some previous"] by (auto simp: guards)
    ultimately show thesis using Some c k n manifest_id [OF c] assms(2)
      by (intro that [of "Module (fw @ [dir, name]) data source (Some previous)"]) (auto simp: update_conv' admissible_def guards)
  qed
qed
lemma scan_found:
  assumes "fold_res (add_module toml root d fw (fw @ [dir]) source) ns found = Inr found'"
    and "dir = (if source = ''local'' then ''local-modules'' else ''modules'')"
  shows "dom (map_of found') = dom (map_of found) \<union> set ns
    \<and> (\<forall>m info. map_of found' m = Some info \<longrightarrow> map_of found m = Some info \<or> admissible root d fw m info \<and> mi_source info = source)
    \<and> (\<forall>m \<in> set HARD_INVARIANT_ADAPTERS. m \<in> dom (map_of found) \<longrightarrow> map_of found' m = map_of found m)"
  using assms(1)
proof (induction ns arbitrary: found)
  case (Cons n ns)
  then obtain found1 where f: "add_module toml root d fw (fw @ [dir]) source n found = Inr found1"
      "fold_res (add_module toml root d fw (fw @ [dir]) source) ns found1 = Inr found'"
    by (auto simp: res_bind_Inr)
  from f(1) obtain info where i: "map_of found1 = (map_of found)(n \<mapsto> info)" "admissible root d fw n info" "mi_source info = source"
      "map_of found n = None \<or> (source = ''local'' \<and> n \<notin> set HARD_INVARIANT_ADAPTERS)"
    by (rule add_module_Inr [OF _ assms(2)])
  note IH = Cons.IH [OF f(2)]
  have "dom (map_of found') = dom (map_of found) \<union> set (n # ns)" using IH i(1) by auto
  moreover have "map_of found m = Some x \<or> admissible root d fw m x \<and> mi_source x = source" if "map_of found' m = Some x" for m x
    using IH that i by (auto split: if_splits)
  moreover have "map_of found' m = map_of found m" if "m \<in> set HARD_INVARIANT_ADAPTERS" "m \<in> dom (map_of found)" for m
    using IH that i(1,4) by (auto split: if_splits)
  ultimately show ?case by blast
qed simp

text \<open>The names of the module directories of a base, none if it does not exist.\<close>

definition offered :: "disk \<Rightarrow> path \<Rightarrow> string set" where
  "offered d base = (if exists d base then set (module_names d base) else {})"

lemma discover_found:
  assumes "discover toml root d = Some (Inr found)"
  obtains fw where "framework_dir d = Inr fw"
    "dom (map_of found) = offered d (fw @ [''modules'']) \<union> offered d (fw @ [''local-modules''])"
    "\<And>m info. map_of found m = Some info \<Longrightarrow> admissible root d fw m info"
    "\<And>m info. m \<in> set HARD_INVARIANT_ADAPTERS \<Longrightarrow> m \<in> offered d (fw @ [''modules'']) \<Longrightarrow> map_of found m = Some info \<Longrightarrow> mi_source info = ''built-in''"
    "Range (graph found) \<subseteq> dom (map_of found)" "acyclic (graph found)"
proof -
  have s: "scan_modules toml root d = Inr found"
    using assms by (auto simp: discover_def res_bind_Inr split: sum.splits)
  then have g: "check_dependency_graph found = Some (Inr ())" using assms by (auto simp: discover_def res_bind_Inr)
  obtain fw found1 where f: "framework_dir d = Inr fw" "scan_base toml root d fw (fw @ [''modules''], ''built-in'') [] = Inr found1"
      "scan_base toml root d fw (fw @ [''local-modules''], ''local'') found1 = Inr found"
    using s by (auto simp: scan_modules_def res_bind_Inr)
  have step: "dom (map_of t) = dom (map_of s) \<union> offered d (fw @ [dir])
      \<and> (\<forall>m info. map_of t m = Some info \<longrightarrow> map_of s m = Some info \<or> admissible root d fw m info \<and> mi_source info = source)
      \<and> (\<forall>m \<in> set HARD_INVARIANT_ADAPTERS. m \<in> dom (map_of s) \<longrightarrow> map_of t m = map_of s m)"
    if "scan_base toml root d fw (fw @ [dir], source) s = Inr t" "dir = (if source = ''local'' then ''local-modules'' else ''modules'')" for dir source s t
  proof (cases "exists d (fw @ [dir])")
    case True
    then have "fold_res (add_module toml root d fw (fw @ [dir]) source) (module_names d (fw @ [dir])) s = Inr t"
      using that(1) by (auto simp: scan_base_def split: if_splits)
    from scan_found [OF this that(2)] show ?thesis using True by (simp add: offered_def)
  qed (use that(1) in \<open>simp add: scan_base_def offered_def\<close>)
  note a = step [OF f(2)] and b = step [OF f(3)]
  show thesis
  proof (rule that [OF f(1)])
    show "dom (map_of found) = offered d (fw @ [''modules'']) \<union> offered d (fw @ [''local-modules''])" using a b by simp
    show "admissible root d fw m info" if "map_of found m = Some info" for m info using a b that by fastforce
    show "mi_source info = ''built-in''" if "m \<in> set HARD_INVARIANT_ADAPTERS" "m \<in> offered d (fw @ [''modules''])" "map_of found m = Some info" for m info
      using a b that by fastforce
    show "Range (graph found) \<subseteq> dom (map_of found)" "acyclic (graph found)" using graph_decided [of found] g by auto
  qed
qed
section \<open>Properties\<close>

text \<open>
  C13: The check of the dependency graph always returns, and decides what it should: it succeeds exactly
  when every dependency of a found module is a found module and no module depends on itself, directly or
  through others; otherwise it raises \<open>ModuleError\<close>. (The recursion visits each module once.)
\<close>

theorem dependency_graph_decided:
  "\<exists>r. check_dependency_graph found = Some r
     \<and> (r = Inr () \<longleftrightarrow> Range (graph found) \<subseteq> dom (map_of found) \<and> acyclic (graph found))
     \<and> (r = Inr () \<or> (\<exists>msg. r = Inl (ModuleError msg)))"
  by (rule graph_decided)

text \<open>
  C15: Everything discovery returns is admissible. If \<open>discover\<close> succeeds, then every module directory of
  the framework and of the project is represented, and each returned module lies in the directory of its
  identifier, has a manifest that passed every check, accepts the version of the framework, and names only
  policy files inside its directory and action scripts inside it; a module that stands for another is a
  local one that explicitly replaces a built-in one of the same identifier, and an adapter that carries hard
  invariants is the built-in one whenever the framework ships it. The dependencies are closed and acyclic.
\<close>

theorem discover_sound:
  assumes "discover toml root d = Some (Inr found)"
  shows "\<exists>fw. framework_dir d = Inr fw
    \<and> dom (map_of found) = offered d (fw @ [''modules'']) \<union> offered d (fw @ [''local-modules''])
    \<and> (\<forall>m info. map_of found m = Some info \<longrightarrow> admissible root d fw m info
        \<and> (m \<in> set HARD_INVARIANT_ADAPTERS \<and> m \<in> offered d (fw @ [''modules'']) \<longrightarrow> mi_source info = ''built-in''))
    \<and> Range (graph found) \<subseteq> dom (map_of found) \<and> acyclic (graph found)"
  using assms by (rule discover_found) blast

definition sample_manifest :: pyval where
  "sample_manifest = PyDict [(''module'', PyDict [(''id'', PyStr ''demo''), (''name'', PyStr ''Demo''), (''version'', PyStr ''0.1.0''),
     (''kind'', PyStr ''agent-host''), (''policy'', PyList [PyStr ''POLICY.md'']), (''requires_framework'', PyStr ''>=4.0.0'')])]"

definition sample_framework :: disk where
  "sample_framework = [([''.agents''], Directory), ([''.agents'', ''VERSION''], File 1 420 ''5.0.0''), ([''.agents'', ''modules''], Directory),
     ([''.agents'', ''modules'', ''demo''], Directory), ([''.agents'', ''modules'', ''demo'', ''module.toml''], File 2 420 ''demo''),
     ([''.agents'', ''modules'', ''demo'', ''POLICY.md''], File 3 420 ''policy'')]"

definition sample_toml :: "string \<Rightarrow> pyval option" where
  "sample_toml text = (if text = ''demo'' then Some sample_manifest else None)"

lemma sample_discover:
  "discover sample_toml [''work''] sample_framework = Some (Inr [(''demo'', Module [''.agents'', ''modules'', ''demo''] sample_manifest ''built-in'' None)])"
  by code_simp

theorem discover_sound_witness:
  "\<exists>fw. framework_dir sample_framework = Inr fw
     \<and> admissible [''work''] sample_framework fw ''demo'' (Module [''.agents'', ''modules'', ''demo''] sample_manifest ''built-in'' None)"
proof -
  from discover_sound [OF sample_discover] obtain fw where "framework_dir sample_framework = Inr fw"
      "\<And>m info. map_of [(''demo'', Module [''.agents'', ''modules'', ''demo''] sample_manifest ''built-in'' None)] m = Some info
         \<Longrightarrow> admissible [''work''] sample_framework fw m info"
    by (elim exE conjE) blast
  then show ?thesis by (intro exI [of _ fw] conjI) simp_all
qed

end
