(* ===== verification/Module_Actions.thy ===== *)
theory Module_Actions
  imports Modules Recovery
begin

text \<open>
  The actions of a module, \<open>run_action\<close> of \<open>agentinfra/modules.py\<close>: the command of a module runs in a copy
  of the workspace, and what it changed there is applied to the workspace in one transaction, if every
  change is below a declared write root. The run of the command is the argument \<open>proc\<close>, which maps the
  command and the copied disk to the disk it leaves, its exit code and whether it timed out.
\<close>

section \<open>Write roots\<close>

definition PROTECTED_TOP :: "string list" where
  "PROTECTED_TOP = [''.agents'', ''.git'', ''AGENTS.md'', ''INDEX.md'', ''framework.toml'', ''VERSION'', ''MANIFEST.sha256'', ''RELEASE.json'',
     ''bin'', ''bootstrap'', ''core'', ''infra'', ''laws'', ''modules'', ''protocols'', ''scripts'', ''templates'', ''tests-to-impl'']"

definition module_id :: "module_info \<Rightarrow> string" where
  "module_id info = text_of (dget (module_of (mi_manifest info)) ''id'')"

definition trusted_codex :: "module_info \<Rightarrow> bool" where
  "trusted_codex info \<longleftrightarrow> mi_source info = ''built-in'' \<and> module_id info = ''codex''"

definition CODEX_STATE :: path where
  "CODEX_STATE = [''.agents'', ''persistent'', ''install-state'', ''codex'']"

definition install_of :: "module_info \<Rightarrow> pyval" where
  "install_of info = dget_or (mi_manifest info) ''install'' (PyDict [])"

definition write_root :: "path \<Rightarrow> disk \<Rightarrow> module_info \<Rightarrow> string \<Rightarrow> path res" where
  "write_root root d info value = (let ps = path_parts value in
     if startswith value [slash] \<or> ''..'' \<in> set ps \<or> ps = [] then Inl (ModuleError ''unsafe declared module write root'')
     else if hd ps \<in> set PROTECTED_TOP \<and> \<not> (trusted_codex info \<and> take 4 ps = CODEX_STATE)
     then Inl (ModuleError ''module write root targets protected framework/user policy'')
     else if hd ps = ''.codex'' \<and> \<not> trusted_codex info then Inl (ModuleError ''only the protected built-in Codex adapter may mutate .codex'')
     else confined_path root d (Rel ps) False False)"

definition declared_write_roots :: "path \<Rightarrow> disk \<Rightarrow> module_info \<Rightarrow> path list res" where
  "declared_write_roots root d info = (let declared = dget_or (install_of info) ''writes'' (PyList []) in
     res_bind (string_array declared True) (\<lambda>_. map_res (write_root root d info) (map text_of (items declared))))"

text \<open>A path at or below one of the roots.\<close>

definition mutation_is_declared :: "path \<Rightarrow> path list \<Rightarrow> bool" where
  "mutation_is_declared p roots \<longleftrightarrow> list_ex (\<lambda>allowed. take (length allowed) p = allowed) roots"

section \<open>Snapshots and copies\<close>

definition skipped :: "path \<Rightarrow> bool" where
  "skipped p \<longleftrightarrow> take 1 p = [''.git''] \<or> take 2 p = [''.agents'', ''runtime''] \<or> take 3 p = [''.agents'', ''persistent'', ''transactions'']
     \<or> ''__pycache__'' \<in> set p \<or> (p \<noteq> [] \<and> suffix_of (last p) \<in> {''.pyc'', ''.pyo''})"

definition snapshot_files :: "disk \<Rightarrow> (path \<times> string \<times> int) list" where
  "snapshot_files d = List.map_filter (\<lambda>p. case node_at d p of
      Some (File i m b) \<Rightarrow> if skipped p then None else Some (p, b, m) | _ \<Rightarrow> None) (remdups (map fst d))"

definition snapshot_links :: "disk \<Rightarrow> (path \<times> string) list" where
  "snapshot_links d = List.map_filter (\<lambda>p. case node_at d p of
      Some (Symlink t x) \<Rightarrow> if skipped p then None else Some (p, t) | _ \<Rightarrow> None) (remdups (map fst d))"

text \<open>Equality of dictionaries.\<close>

definition same_dict :: "(path \<times> 'a) list \<Rightarrow> (path \<times> 'a) list \<Rightarrow> bool" where
  "same_dict f g \<longleftrightarrow> list_all (\<lambda>k. map_of f k = map_of g k) (map fst (f @ g))"

definition same_snapshot :: "disk \<Rightarrow> disk \<Rightarrow> bool" where
  "same_snapshot d d' \<longleftrightarrow> same_dict (snapshot_files d) (snapshot_files d') \<and> same_dict (snapshot_links d) (snapshot_links d')"

text \<open>\<open>shutil.ignore_patterns\<close> of the copy, on a name in any directory.\<close>

definition ignored :: "string \<Rightarrow> bool" where
  "ignored n \<longleftrightarrow> n \<in> {''.git'', ''runtime'', ''transactions'', ''__pycache__''} \<or> startswith (rev n) (rev ''.pyc'') \<or> startswith (rev n) (rev ''.pyo'')"

definition copytree :: "disk \<Rightarrow> disk" where
  "copytree d = filter (\<lambda>e. \<not> list_ex ignored (fst e)) d"

section \<open>Running an action\<close>

definition action_command :: "module_info \<Rightarrow> string \<Rightarrow> string list res" where
  "action_command info action = (let command = dget (install_of info) (if action = ''install'' then ''command'' else action) in
     if \<not> truthy command then Inl (ModuleError ''module has no such action'')
     else res_bind (string_array command False) (\<lambda>_. Inr (map text_of (items command))))"

text \<open>In a source tree the leading \<open>.agents\<close> of an argument is dropped; \<open>str(Path())\<close> is a dot.\<close>

definition portable :: "disk \<Rightarrow> string \<Rightarrow> string" where
  "portable d item = (if is_source_framework d \<and> \<not> startswith item [slash] \<and> path_parts item \<noteq> [] \<and> hd (path_parts item) = ''.agents''
     then (case tl (path_parts item) of [] \<Rightarrow> ''.'' | ps \<Rightarrow> posix ps) else item)"

definition full_command :: "string \<Rightarrow> disk \<Rightarrow> string \<Rightarrow> bool \<Rightarrow> string list \<Rightarrow> string list" where
  "full_command python d action apply command = (case map (portable d) command of
      [] \<Rightarrow> []
    | first # rest \<Rightarrow> (if first \<in> {''python'', ''{python}''} then python else first) # rest
        @ (if action \<in> {''install'', ''uninstall''} \<and> apply then [''--apply''] else []))"

definition changed_keys :: "(path \<times> string \<times> int) list \<Rightarrow> (path \<times> string \<times> int) list \<Rightarrow> path list" where
  "changed_keys before after = filter (\<lambda>p. map_of before p \<noteq> map_of after p) (sort_key posix (remdups (map fst (before @ after))))"

definition action_mutation :: "path \<Rightarrow> disk \<Rightarrow> path list \<Rightarrow> (path \<times> string \<times> int) list \<Rightarrow> (path \<times> string \<times> int) list \<Rightarrow> path \<Rightarrow> mutation res" where
  "action_mutation root d roots before after p = res_bind (confined_path root d (Rel p) False False) (\<lambda>dest.
     if \<not> mutation_is_declared dest roots then Inl (ModuleError ''module action mutated undeclared or protected path'')
     else Inr \<lparr>mu_path = dest, mu_data = map_option fst (map_of after p),
       mu_expected_sha256 = map_option (\<lambda>x. sha256 (fst x)) (map_of before p),
       mu_expected_exists = Some (map_of before p \<noteq> None), mu_mode = map_option snd (map_of after p)\<rparr>)"

record action_report =
  ar_exit :: int
  ar_process_exit :: int
  ar_timed_out :: bool
  ar_read_only :: bool
  ar_stable :: bool
  ar_transactional :: bool
  ar_write_roots :: "path list"

text \<open>The readings of one action: root, interpreter, identifier of the transaction and clock.\<close>

record action_env =
  ae_root :: path
  ae_python :: string
  ae_uuid :: string
  ae_now :: string

type_synonym process = "string list \<Rightarrow> disk \<Rightarrow> disk \<times> int \<times> bool"

definition action_tx :: "action_env \<Rightarrow> module_info \<Rightarrow> string \<Rightarrow> mutation list \<Rightarrow> tx" where
  "action_tx v info action ms = \<lparr>tx_root = ae_root v, tx_state_dir = persistent_dir @ [''transactions''],
     tx_name = ''module-'' @ module_id info @ ''-'' @ action, tx_uuid = ae_uuid v, tx_now = ae_now v, tx_mutations = ms\<rparr>"

definition apply_difference :: "action_env \<Rightarrow> module_info \<Rightarrow> string \<Rightarrow> path list \<Rightarrow> disk \<Rightarrow> unit io" where
  "apply_difference v info action roots after d =
    (if \<not> same_dict (snapshot_links d) (snapshot_links after) then (d, Inl (ModuleError ''module action attempted unsupported symlink topology mutation''))
     else case map_res (action_mutation (ae_root v) d roots (snapshot_files d) (snapshot_files after)) (changed_keys (snapshot_files d) (snapshot_files after)) of
       Inl e \<Rightarrow> (d, Inl e)
     | Inr [] \<Rightarrow> (d, Inr ())
     | Inr ms \<Rightarrow> io_bind (run_transaction (action_tx v info action ms) False) (\<lambda>_. io_return ()) d)"

definition run_action :: "action_env \<Rightarrow> process \<Rightarrow> module_info \<Rightarrow> string \<Rightarrow> bool \<Rightarrow> action_report io" where
  "run_action v proc info action apply d =
    (if action \<notin> {''install'', ''verify'', ''uninstall''} then (d, Inl (ModuleError ''unsupported module action''))
     else case res_bind (validate_module_paths (ae_root v) d info) (\<lambda>_. res_bind (action_command info action) (\<lambda>command. res_bind (framework_dir d) (\<lambda>_.
         res_bind (declared_write_roots (ae_root v) d info) (\<lambda>roots. Inr (full_command (ae_python v) d action apply command, roots))))) of
       Inl e \<Rightarrow> (d, Inl e)
     | Inr (command, roots) \<Rightarrow>
        (case proc command (copytree d) of (after, code, timed_out) \<Rightarrow>
          let read_only = (action = ''verify'' \<or> \<not> apply); stable = same_snapshot (copytree d) after;
              applies = (\<not> read_only \<and> \<not> timed_out \<and> code = 0);
              report = \<lparr>ar_exit = if read_only \<and> \<not> stable then 70 else code, ar_process_exit = code, ar_timed_out = timed_out,
                ar_read_only = read_only, ar_stable = stable, ar_transactional = applies, ar_write_roots = roots\<rparr>
          in if applies then io_bind (apply_difference v info action roots after) (\<lambda>_. io_return report) d
             else (d, Inr report)))"

section \<open>What an action may change\<close>

lemma map_of_map_filter:
  assumes "\<And>p k x. f p = Some (k, x) \<Longrightarrow> k = p"
  shows "map_of (List.map_filter f ps) p = (if p \<in> set ps then map_option snd (f p) else None)"
proof (induction ps)
  case (Cons q ps)
  show ?case
  proof (cases "f q")
    case (Some kx)
    then obtain x where "f q = Some (q, x)" using assms [of q "fst kx" "snd kx"] by (cases kx) simp
    then show ?thesis using Cons by (simp add: map_filter_simps)
  qed (use Cons in \<open>simp add: map_filter_simps\<close>)
qed (simp add: map_filter_simps)

lemma map_of_snapshot:
  "map_of (snapshot_files d) p = (case node_at d p of Some (File i m b) \<Rightarrow> if skipped p then None else Some (b, m) | _ \<Rightarrow> None)"
proof -
  have "p \<in> fst ` set d \<or> node_at d p = None \<or> node_at d p = Some Directory"
    by (auto simp: node_at_def map_of_eq_None_iff)
  then show ?thesis unfolding snapshot_files_def
    by (subst map_of_map_filter) (auto split: option.splits node.splits if_splits)
qed

lemma snapshot_reads: "\<not> skipped p \<Longrightarrow> map_option fst (map_of (snapshot_files d) p) = read d p"
  by (auto simp: map_of_snapshot read_def split: option.splits node.splits)

lemma snapshot_keys: "p \<in> fst ` set (snapshot_files d) \<Longrightarrow> \<not> skipped p"
proof -
  assume "p \<in> fst ` set (snapshot_files d)"
  then have "map_of (snapshot_files d) p \<noteq> None" by (simp add: map_of_eq_None_iff)
  then show ?thesis by (auto simp: map_of_snapshot split: option.splits node.splits if_splits)
qed

lemma changed_keys_set: "set (changed_keys f g) = {p. map_of f p \<noteq> map_of g p}"
proof -
  have "p \<in> fst ` set f \<union> fst ` set g" if "map_of f p \<noteq> map_of g p" for p
    using that by (metis UnCI map_of_eq_None_iff)
  then show ?thesis by (auto simp: changed_keys_def)
qed

lemma changed_keys_distinct: "distinct (changed_keys f g)"
  by (simp add: changed_keys_def)

text \<open>The mutation of one changed file, and of all of them.\<close>

definition difference :: "disk \<Rightarrow> disk \<Rightarrow> path \<Rightarrow> mutation" where
  "difference d after p = \<lparr>mu_path = p, mu_data = map_option fst (map_of (snapshot_files after) p),
     mu_expected_sha256 = map_option (\<lambda>x. sha256 (fst x)) (map_of (snapshot_files d) p),
     mu_expected_exists = Some (map_of (snapshot_files d) p \<noteq> None), mu_mode = map_option snd (map_of (snapshot_files after) p)\<rparr>"

abbreviation changes :: "disk \<Rightarrow> disk \<Rightarrow> path list" where
  "changes d after \<equiv> changed_keys (snapshot_files d) (snapshot_files after)"

definition permitted :: "disk \<Rightarrow> path list \<Rightarrow> path \<Rightarrow> bool" where
  "permitted d roots p \<longleftrightarrow> p \<noteq> [] \<and> plain p \<and> \<not> redirected d p \<and> mutation_is_declared p roots"

lemma action_mutation_Inr:
  "action_mutation root d roots (snapshot_files d) (snapshot_files after) p = Inr m \<longleftrightarrow> permitted d roots p \<and> m = difference d after p"
  by (auto simp: action_mutation_def res_bind_Inr confined_path_def permitted_def plain_def difference_def split: if_splits)

lemma action_mutations_Inr:
  "map_res (action_mutation root d roots (snapshot_files d) (snapshot_files after)) ps = Inr ms
     \<longleftrightarrow> (\<forall>p \<in> set ps. permitted d roots p) \<and> ms = map (difference d after) ps"
  by (induction ps arbitrary: ms) (auto simp: res_bind_Inr action_mutation_Inr)

lemma difference_expected: "p \<in> set (changes d after) \<Longrightarrow> as_expected d (difference d after p)"
proof -
  assume "p \<in> set (changes d after)"
  then have "\<not> skipped p" using snapshot_keys by (auto simp: changed_keys_def)
  then have r: "read d p = map_option fst (map_of (snapshot_files d) p)" by (simp add: snapshot_reads)
  then show ?thesis by (simp add: as_expected_def difference_def option.map_comp comp_def)
qed

text \<open>The disk after the files that differ were given the contents they have in the copy.\<close>

definition synced :: "disk \<Rightarrow> disk \<Rightarrow> path \<Rightarrow> string option" where
  "synced d after p = (if p \<in> set (changes d after) then map_option fst (map_of (snapshot_files after) p) else read d p)"

lemma apply_difference_ok:
  assumes l: "same_dict (snapshot_links d) (snapshot_links after)" and p: "\<forall>p \<in> set (changes d after). permitted d roots p"
    and r: "changes d after \<noteq> [] \<Longrightarrow> tx_ready (action_tx v info action (map (difference d after) (changes d after))) d"
  shows "\<exists>d'. apply_difference v info action roots after d = (d', Inr ()) \<and> read d' = synced d after"
proof (cases "changes d after")
  case Nil
  then show ?thesis using l by (auto simp: apply_difference_def synced_def)
next
  case (Cons q qs)
  let ?ms = "map (difference d after) (changes d after)" and ?t = "action_tx v info action (map (difference d after) (changes d after))"
  have m: "map_res (action_mutation (ae_root v) d roots (snapshot_files d) (snapshot_files after)) (changes d after) = Inr ?ms"
    using p by (simp add: action_mutations_Inr)
  have e: "\<forall>m \<in> set (tx_mutations ?t). as_expected d m" using difference_expected by (auto simp: action_tx_def)
  have "tx_mutations ?t \<noteq> []" "last (tx_state_dir ?t) \<noteq> ''AGENTS.md''" using Cons by (simp_all add: action_tx_def)
  from run_transaction_ok [OF r e this] obtain d' j where d': "run_transaction ?t False d = (d', Inr j)" "read d' = tx_final ?t d"
    using Cons by auto
  have "map_of (map (\<lambda>m. (mu_path m, mu_data m)) ?ms) p = (if p \<in> set (changes d after) then Some (mu_data (difference d after p)) else None)" for p
    using map_of_map_restrict [of "\<lambda>p. mu_data (difference d after p)" "changes d after"] by (simp add: comp_def difference_def restrict_map_def)
  then have "tx_final ?t d = synced d after"
    by (auto simp: fun_eq_iff tx_final_def synced_def action_tx_def difference_def)
  then show ?thesis using l m d' Cons by (auto simp: apply_difference_def io_bind_def)
qed
text \<open>A file a module may change: never a part of the framework or its policy, unless it is the state of the built-in Codex adapter.\<close>

definition unprotected :: "module_info \<Rightarrow> path \<Rightarrow> bool" where
  "unprotected info p \<longleftrightarrow> p \<noteq> [] \<and> plain p \<and> (hd p \<in> set PROTECTED_TOP \<longrightarrow> trusted_codex info \<and> take 4 p = CODEX_STATE)
     \<and> (hd p = ''.codex'' \<longrightarrow> trusted_codex info)"

lemma write_root_Inr: "write_root root d info value = Inr p \<Longrightarrow> unprotected info p"
  by (auto simp: write_root_def Let_def confined_path_def unprotected_def plain_def split: if_splits)

lemma permitted_unprotected:
  assumes "declared_write_roots root d info = Inr roots" and "permitted d roots p"
  shows "unprotected info p"
proof -
  obtain q where q: "q \<in> set roots" "take (length q) p = q" using assms(2) by (auto simp: permitted_def mutation_is_declared_def list_ex_iff)
  then have u: "unprotected info q"
    using assms(1) write_root_Inr by (auto simp: declared_write_roots_def Let_def res_bind_Inr dest!: map_res_from)
  then have "hd q = hd p" using q(2) by (metis append_take_drop_id hd_append2 unprotected_def)
  moreover have "take 4 p = CODEX_STATE" if "take 4 q = CODEX_STATE"
  proof -
    have "length CODEX_STATE = 4" by (simp add: CODEX_STATE_def)
    then have "4 \<le> length q" using that by (metis length_take min.absorb_iff2 min.commute)
    then show ?thesis using that q(2) by (metis min.absorb1 take_take)
  qed
  ultimately show ?thesis using u assms(2) by (auto simp: unprotected_def permitted_def)
qed

text \<open>An action is prepared: the paths of the module are valid, it has the command, there is a framework, and its write roots are accepted.\<close>

definition prepared :: "action_env \<Rightarrow> disk \<Rightarrow> module_info \<Rightarrow> string \<Rightarrow> string list \<Rightarrow> path list \<Rightarrow> bool" where
  "prepared v d info action command roots \<longleftrightarrow> action \<in> {''install'', ''uninstall''} \<and> validate_module_paths (ae_root v) d info = Inr ()
     \<and> action_command info action = Inr command \<and> is_ok (framework_dir d) \<and> declared_write_roots (ae_root v) d info = Inr roots"

text \<open>The changes can be applied: links are as they were, every change is permitted, and nothing blocks the transaction.\<close>

definition applicable :: "action_env \<Rightarrow> disk \<Rightarrow> module_info \<Rightarrow> string \<Rightarrow> path list \<Rightarrow> disk \<Rightarrow> bool" where
  "applicable v d info action roots after \<longleftrightarrow> same_dict (snapshot_links d) (snapshot_links after)
     \<and> (\<forall>p \<in> set (changes d after). permitted d roots p)
     \<and> (changes d after = [] \<or> tx_ready (action_tx v info action (map (difference d after) (changes d after))) d)"

lemma action_effect:
  assumes "prepared v d info action command roots"
    and "proc (full_command (ae_python v) d action True command) (copytree d) = (after, 0, False)"
    and "applicable v d info action roots after"
  shows "\<exists>d' report. run_action v proc info action True d = (d', Inr report) \<and> ar_transactional report \<and> read d' = synced d after"
proof -
  have pr: "action \<in> {''install'', ''uninstall''}" "validate_module_paths (ae_root v) d info = Inr ()"
      "action_command info action = Inr command" "declared_write_roots (ae_root v) d info = Inr roots" "\<exists>fw. framework_dir d = Inr fw"
    using assms(1) by (auto simp: prepared_def is_ok_def split: sum.splits)
  have "\<exists>d'. apply_difference v info action roots after d = (d', Inr ()) \<and> read d' = synced d after"
    using assms(3) by (intro apply_difference_ok) (auto simp: applicable_def)
  then obtain d' where d': "apply_difference v info action roots after d = (d', Inr ())" "read d' = synced d after" by blast
  have a: "action \<in> {''install'', ''verify'', ''uninstall''}" "action \<noteq> ''verify''" using pr(1) by auto
  then show ?thesis unfolding run_action_def using pr(2-5) assms(2) d' by (auto simp: Let_def io_bind_def)
qed
lemma copytree_node: "p \<noteq> [] \<Longrightarrow> node_at (copytree d) p = (if list_ex ignored p then None else node_at d p)"
proof (induction d)
  case (Cons e d)
  then show ?case by (cases e) (auto simp: copytree_def node_at_def map_of_eq_None_iff)
qed (simp add: copytree_def node_at_def)

text \<open>A file that the copy leaves out counts as deleted.\<close>

lemma uncopied_changes:
  assumes "read d p \<noteq> None" and "\<not> skipped p" and "list_ex ignored p"
  shows "synced d (copytree d) p = None"
proof -
  have p: "p \<noteq> []" using assms(1) by (auto simp: read_def node_at_def)
  have "map_of (snapshot_files (copytree d)) p = None" using copytree_node [OF p] assms(3) by (simp add: map_of_snapshot)
  moreover have "map_of (snapshot_files d) p \<noteq> None" using assms(1,2) by (auto simp: map_of_snapshot read_def split: option.splits node.splits)
  ultimately show ?thesis by (simp add: synced_def changed_keys_set)
qed

section \<open>Properties\<close>

text \<open>
  C16: An applied action changes exactly what its command changed in the copy, and nothing protected. When
  the module is valid, its command succeeds, and its changes are declared and can be committed, \<open>run_action\<close>
  returns, every file that differs between the workspace and the copy gets the bytes of the copy, every
  other file keeps its bytes, and no changed file belongs to the framework, its policy or \<open>.codex\<close>, save for
  the built-in Codex adapter.
\<close>

theorem action_changes_declared:
  assumes "prepared v d info action command roots"
    and "proc (full_command (ae_python v) d action True command) (copytree d) = (after, 0, False)"
    and "applicable v d info action roots after"
  shows "\<exists>d' report. run_action v proc info action True d = (d', Inr report) \<and> ar_transactional report \<and> read d' = synced d after
    \<and> (\<forall>p. read d' p \<noteq> read d p \<longrightarrow> mutation_is_declared p roots \<and> unprotected info p)"
proof -
  obtain d' report where r: "run_action v proc info action True d = (d', Inr report)" "ar_transactional report" "read d' = synced d after"
    using action_effect [where proc = proc, OF assms] by blast
  have "permitted d roots p" if "read d' p \<noteq> read d p" for p
    using that r(3) assms(3) by (auto simp: synced_def applicable_def split: if_splits)
  then show ?thesis using r permitted_unprotected [of "ae_root v" d info roots] assms(1) by (auto simp: prepared_def permitted_def)
qed

text \<open>
  Verifying a module, and installing or uninstalling without \<open>--apply\<close>, never changes the workspace,
  whatever the command does to the copy it runs in; if it changed the copy the exit code is 70.
\<close>

theorem action_read_only:
  assumes "action = ''verify'' \<or> \<not> apply"
  shows "\<exists>r. run_action v proc info action apply d = (d, r)
    \<and> (\<forall>report. r = Inr report \<longrightarrow> \<not> ar_transactional report \<and> ar_exit report = (if ar_stable report then ar_process_exit report else 70))"
proof -
  have ro: "(action = ''verify'' \<or> \<not> apply) = True" using assms by blast
  show ?thesis unfolding run_action_def Let_def ro by (simp del: insert_iff split: sum.split prod.split) (auto simp del: insert_iff)
qed

text \<open>
  C33: The copy leaves out more than the snapshot. \<open>shutil.ignore_patterns\<close> drops every file or directory
  named \<open>runtime\<close>, \<open>transactions\<close> or \<open>.git\<close> at any depth, while the snapshot of the workspace leaves out
  only \<open>.git\<close> at the top and two directories below \<open>.agents\<close>. So an applied action whose command changes
  nothing at all deletes every file below such a name in its write roots.
\<close>

theorem action_deletes_uncopied:
  assumes "prepared v d info action command roots"
    and "proc (full_command (ae_python v) d action True command) (copytree d) = (copytree d, 0, False)"
    and "applicable v d info action roots (copytree d)"
    and "read d p \<noteq> None" and "\<not> skipped p" and "list_ex ignored p"
  shows "\<exists>d' report. run_action v proc info action True d = (d', Inr report) \<and> read d' p = None"
  using action_effect [where proc = proc, OF assms(1-3)] uncopied_changes [OF assms(4-6)] by auto

section \<open>An example\<close>

definition demo_module :: module_info where
  "demo_module = Module [''.agents'', ''modules'', ''demo''] (PyDict [(''module'', PyDict [(''id'', PyStr ''demo''), (''policy'', PyList [PyStr ''POLICY.md''])]),
     (''install'', PyDict [(''command'', PyList [PyStr ''tool-setup'']), (''verify'', PyList [PyStr ''tool-check'']), (''writes'', PyList [PyStr ''tools''])])]) ''built-in'' None"

definition demo_disk :: disk where
  "demo_disk = [([''.agents''], Directory), ([''.agents'', ''modules''], Directory), ([''.agents'', ''modules'', ''demo''], Directory),
     ([''.agents'', ''modules'', ''demo'', ''POLICY.md''], File 1 420 ''policy''),
     ([''.aegis''], Directory), ([''.aegis'', ''state''], Directory), ([''.aegis'', ''state'', ''transactions''], Directory),
     ([''tools''], Directory), ([''tools'', ''runtime''], Directory), ([''tools'', ''runtime'', ''a.txt''], File 2 420 ''keep'')]"

definition demo_env :: action_env where
  "demo_env = \<lparr>ae_root = [''work''], ae_python = ''/usr/bin/python3'', ae_uuid = ''0'', ae_now = ''now''\<rparr>"

definition idle :: process where
  "idle command d = (d, 0, False)"

lemma demo_nodes:
  "node_at demo_disk p = (if p = [] \<or> p \<in> {[''.agents''], [''.agents'', ''modules''], [''.agents'', ''modules'', ''demo''], [''.aegis''], [''.aegis'', ''state''],
       [''.aegis'', ''state'', ''transactions''], [''tools''], [''tools'', ''runtime'']} then Some Directory
     else if p = [''.agents'', ''modules'', ''demo'', ''POLICY.md''] then Some (File 1 420 ''policy'')
     else if p = [''tools'', ''runtime'', ''a.txt''] then Some (File 2 420 ''keep'') else None)"
  by (simp add: node_at_def demo_disk_def)

lemma demo_prepared: "prepared demo_env demo_disk demo_module ''install'' [''tool-setup''] [[''tools'']]"
  by code_simp

lemma demo_changes: "changes demo_disk (copytree demo_disk) = [[''tools'', ''runtime'', ''a.txt'']]"
  by code_simp

lemma demo_governing: "set (governing_file_identities demo_disk) = {1}"
  by code_simp

lemma demo_ready: "tx_ready (action_tx demo_env demo_module ''install'' (map (difference demo_disk (copytree demo_disk)) [[''tools'', ''runtime'', ''a.txt'']])) demo_disk"
proof -
  let ?t = "action_tx demo_env demo_module ''install'' (map (difference demo_disk (copytree demo_disk)) [[''tools'', ''runtime'', ''a.txt'']])"
  have sd: "tx_state_dir ?t = [''.aegis'', ''state'', ''transactions'']" "tx_dir ?t = [''.aegis'', ''state'', ''transactions'', ''module-demo-install-0'']"
      "tx_id ?t = ''module-demo-install-0''" "tx_paths ?t = [[''tools'', ''runtime'', ''a.txt'']]" "tx_root ?t = [''work'']"
    by (simp_all add: action_tx_def tx_dir_def tx_id_def demo_env_def module_id_def module_of_def demo_module_def text_of_def
        persistent_dir_def aegis_dir_def difference_def)
  have "writable demo_disk [''tools'', ''runtime'', ''a.txt'']"
    by (simp add: writable_def demo_nodes demo_governing plain_def under_agents_def steps_def)
  moreover have "tx_wf ?t" unfolding tx_wf_def sd by (simp add: plain_def normal_def slash_def under_agents_def)
  ultimately show ?thesis unfolding tx_ready_def sd no_pending_def by (simp add: is_dir_def exists_def demo_nodes steps_def)
qed

lemma demo_applicable: "applicable demo_env demo_disk demo_module ''install'' [[''tools'']] (copytree demo_disk)"
proof -
  have "same_dict (snapshot_links demo_disk) (snapshot_links (copytree demo_disk))" by code_simp
  moreover have "permitted demo_disk [[''tools'']] [''tools'', ''runtime'', ''a.txt'']" by code_simp
  ultimately show ?thesis using demo_ready by (simp only: applicable_def demo_changes) simp
qed

theorem action_changes_declared_witness:
  "\<exists>d' report. run_action demo_env idle demo_module ''install'' True demo_disk = (d', Inr report) \<and> ar_transactional report"
  using action_changes_declared [where proc = idle, OF demo_prepared _ demo_applicable] by (auto simp: idle_def)

theorem action_read_only_witness:
  "\<exists>r. run_action demo_env (\<lambda>c d. ([], 0, False)) demo_module ''verify'' True demo_disk = (demo_disk, r)"
  using action_read_only [of "''verify''" True demo_env "\<lambda>c d. ([], 0, False)" demo_module demo_disk] by auto

theorem action_deletes_uncopied_witness:
  "\<exists>d' report. run_action demo_env idle demo_module ''install'' True demo_disk = (d', Inr report)
     \<and> read demo_disk [''tools'', ''runtime'', ''a.txt''] = Some ''keep'' \<and> read d' [''tools'', ''runtime'', ''a.txt''] = None"
proof -
  have "read demo_disk [''tools'', ''runtime'', ''a.txt''] = Some ''keep''" "\<not> skipped [''tools'', ''runtime'', ''a.txt'']" "list_ex ignored [''tools'', ''runtime'', ''a.txt'']"
    by code_simp+
  then show ?thesis using action_deletes_uncopied [where proc = idle and p = "[''tools'', ''runtime'', ''a.txt'']", OF demo_prepared _ demo_applicable] by (auto simp: idle_def)
qed

end
