(* ===== verification/Final_Audit.thy ===== *)
theory Final_Audit
  imports Sealing
begin

text \<open>
  The contract of the final audit, \<open>agentinfra/final_audit.py\<close>: sealed observations, one for each of
  forty required checks, and the receipt that binds them to the workspace they were made in.
\<close>

section \<open>Observations\<close>

definition REQUIRED_FINAL_AUDIT_CHECKS :: "string list" where
  "REQUIRED_FINAL_AUDIT_CHECKS =
    [''expected_repository_root'', ''boundary_snapshot_current'', ''governance_digest_unchanged'',
     ''no_agents_mutation'', ''no_governing_instruction_mutation'', ''no_unexpected_nested_repository_mutation'',
     ''no_overwritten_user_owned_dirty_file'', ''no_unexpected_generated_churn'', ''no_unexpected_lockfile_change'',
     ''no_unauthorized_dependency_change'', ''no_unauthorized_test_law_mutation'', ''no_reference_mutation'',
     ''write_scope_respected'', ''change_budget_respected_or_replanned'', ''semantic_budget_respected_or_replanned'',
     ''all_hard_gates_proven'', ''all_required_gates_proven_or_externally_waived'', ''advisory_omissions_justified'',
     ''mandatory_gate_families_present'', ''every_behavioral_production_change_has_tdd_cycle'', ''test_design_predates_implementation'',
     ''baseline_execution_predates_implementation'', ''required_red_legitimate_and_current'', ''characterization_present_where_required'',
     ''test_contract_frozen'', ''oracle_frozen'', ''green_same_frozen_contract'',
     ''green_current_implementation_epoch'', ''verification_current'', ''review_current'',
     ''review_lease_closed'', ''falsification_recorded'', ''no_unresolved_blocking_finding'',
     ''required_commands_executed'', ''no_secrets_introduced'', ''no_suspicious_test_aware_behavior'',
     ''no_fake_red'', ''no_fabricated_capability_claim'', ''final_workspace_fingerprint_recorded'',
     ''compiled_task_contract_current'']"

definition PROVENANCE :: "string list" where
  "PROVENANCE = [''framework-command'', ''verified-observation'', ''external-source'']"

definition FINAL_STATUSES :: "string list" where
  "FINAL_STATUSES = [''PROVEN'', ''NOT_APPLICABLE'']"

definition observation_digest :: "pyval \<Rightarrow> string" where
  "observation_digest v = sha256 (canonical (dpop v ''observation_sha256''))"

definition audit_digest :: "pyval \<Rightarrow> string" where
  "audit_digest v = sha256 (canonical (dpop v ''receipt_sha256''))"

interpretation observation_seal: sealed_record "''observation_sha256''" observation_digest
  by unfold_locales (simp add: observation_digest_def digest_without_def)

interpretation audit_seal: sealed_record "''receipt_sha256''" audit_digest
  by unfold_locales (simp add: audit_digest_def digest_without_def)

definition stripped :: "pyval \<Rightarrow> pyval" where
  "stripped v = (case v of PyStr s \<Rightarrow> PyStr (strip s) | _ \<Rightarrow> PyNone)"

definition seal_audit_observation :: "pyval \<Rightarrow> pyval \<Rightarrow> pyval \<Rightarrow> pyval \<Rightarrow> pyval \<Rightarrow> pyval \<Rightarrow> pyval res" where
  "seal_audit_observation check_id status evidence_digest provenance detail justification = res_bind (check_all
     [guard (str_in check_id REQUIRED_FINAL_AUDIT_CHECKS) (FinalAuditError ''unknown final-audit check''),
      memb status FINAL_STATUSES (FinalAuditError ''final-audit observation must be PROVEN or NOT_APPLICABLE''),
      guard (is_digest evidence_digest) (FinalAuditError ''final-audit observation requires a canonical evidence digest''),
      memb provenance PROVENANCE (FinalAuditError ''manual or unknown provenance cannot prove final audit''),
      guard (is_text detail) (FinalAuditError ''final-audit observation requires execution detail''),
      guard (status = PyStr ''NOT_APPLICABLE'' \<longrightarrow> is_text justification) (FinalAuditError ''NOT_APPLICABLE final-audit observation requires justification'')]) (\<lambda>_.
     let body = PyDict [(''schema'', PyInt 1), (''check_id'', check_id), (''status'', status), (''evidence_digest'', evidence_digest),
       (''provenance'', provenance), (''detail'', stripped detail), (''justification'', stripped justification)]
     in Inr (dset body ''observation_sha256'' (PyStr (observation_digest body))))"

definition validate_observation :: "pyval \<Rightarrow> string \<Rightarrow> pyval res" where
  "validate_observation record expected_id = res_bind (check_all
     [guard (is_dict record \<and> py_eq (dget record ''schema'') (PyInt 1)) (FinalAuditError ''invalid final-audit observation schema''),
      guard (dget record ''check_id'' = PyStr expected_id) (FinalAuditError ''final-audit observations are missing, duplicated, or reordered''),
      guard (dget record ''observation_sha256'' = PyStr (observation_digest record)) (FinalAuditError ''final-audit observation seal is invalid''),
      memb (dget record ''status'') FINAL_STATUSES (FinalAuditError ''final-audit check is not proven''),
      memb (dget record ''provenance'') PROVENANCE (FinalAuditError ''final-audit check has manual/unknown provenance''),
      guard (is_sha256 (py_str (dget_or record ''evidence_digest'' (PyStr [])))) (FinalAuditError ''final-audit evidence digest is invalid''),
      guard (is_text (dget record ''detail'')) (FinalAuditError ''final-audit execution detail is missing''),
      guard (dget record ''status'' = PyStr ''NOT_APPLICABLE'' \<longrightarrow> is_text (dget record ''justification'')) (FinalAuditError ''final-audit NOT_APPLICABLE check is unjustified'')])
    (\<lambda>_. Inr record)"

section \<open>The receipt\<close>

text \<open>\<open>dict(sorted(Counter(...).items()))\<close> of validated statuses.\<close>

definition status_count :: "pyval list \<Rightarrow> string \<Rightarrow> nat" where
  "status_count records s = length (filter (\<lambda>r. dget r ''status'' = PyStr s) records)"

definition status_counts :: "pyval list \<Rightarrow> pyval" where
  "status_counts records = PyDict (map (\<lambda>s. (s, PyInt (int (status_count records s))))
     (filter (\<lambda>s. 0 < status_count records s) [''NOT_APPLICABLE'', ''PROVEN'']))"

definition finalize_audit :: "pyval \<Rightarrow> pyval \<Rightarrow> pyval \<Rightarrow> pyval res" where
  "finalize_audit observations expected current = res_bind (check_all
     [guard (is_list observations \<and> length (items observations) = length REQUIRED_FINAL_AUDIT_CHECKS) (FinalAuditError ''final audit requires exactly 40 observations''),
      guard (is_sha256 (py_str expected) \<and> is_sha256 (py_str current)) (FinalAuditError ''final audit requires canonical workspace digests''),
      guard (py_eq expected current) (FinalAuditError ''workspace changed during final audit'')]) (\<lambda>_.
    res_bind (map_res (\<lambda>rc. validate_observation (fst rc) (snd rc)) (zip (items observations) REQUIRED_FINAL_AUDIT_CHECKS)) (\<lambda>validated.
    res_bind (guard (map (\<lambda>r. dget r ''check_id'') validated = map PyStr REQUIRED_FINAL_AUDIT_CHECKS)
      (FinalAuditError ''final-audit observation identity is not an exact contract bijection'')) (\<lambda>_.
    let body = PyDict [(''schema'', PyInt 1), (''outcome'', PyStr ''PASS''), (''check_count'', PyInt (int (length validated))),
      (''counts'', status_counts validated), (''workspace_sha256'', current), (''observations'', PyList validated)]
    in Inr (dset body ''receipt_sha256'' (PyStr (audit_digest body))))))"

section \<open>What a receipt stands for\<close>

lemma validate_observation_Inr:
  "validate_observation record i = Inr r \<longleftrightarrow> r = record \<and> is_dict record \<and> py_eq (dget record ''schema'') (PyInt 1)
     \<and> dget record ''check_id'' = PyStr i \<and> dget record ''observation_sha256'' = PyStr (observation_digest record)
     \<and> str_in (dget record ''status'') FINAL_STATUSES \<and> str_in (dget record ''provenance'') PROVENANCE
     \<and> is_sha256 (py_str (dget_or record ''evidence_digest'' (PyStr []))) \<and> is_text (dget record ''detail'')
     \<and> (dget record ''status'' = PyStr ''NOT_APPLICABLE'' \<longrightarrow> is_text (dget record ''justification''))"
  by (auto simp: validate_observation_def guards)

text \<open>A builder's observation passes the validator.\<close>

lemma sealed_validates:
  assumes "seal_audit_observation (PyStr i) status evidence_digest provenance detail justification = Inr r"
  shows "validate_observation r i = Inr r \<and> dget r ''status'' = status"
proof -
  let ?body = "PyDict [(''schema'', PyInt 1), (''check_id'', PyStr i), (''status'', status), (''evidence_digest'', evidence_digest),
       (''provenance'', provenance), (''detail'', stripped detail), (''justification'', stripped justification)]"
  have c: "str_in status FINAL_STATUSES" "is_digest evidence_digest" "str_in provenance PROVENANCE" "is_text detail"
      "status = PyStr ''NOT_APPLICABLE'' \<longrightarrow> is_text justification"
    and r: "r = dset ?body ''observation_sha256'' (PyStr (observation_digest ?body))"
    using assms by (auto simp: seal_audit_observation_def guards Let_def)
  have t: "is_text (stripped v)" if "is_text v" for v using that by (auto elim!: is_textE simp: stripped_def)
  have "observation_digest r = observation_digest ?body" unfolding r by simp
  then have "dget r ''observation_sha256'' = PyStr (observation_digest r)" by (simp add: r)
  moreover have "dget_or r ''evidence_digest'' (PyStr []) = evidence_digest" by (simp add: r)
  moreover have "is_sha256 (py_str evidence_digest)" using c(2) by (auto elim!: is_digestE)
  ultimately show ?thesis using c t by (simp add: validate_observation_Inr r)
qed

lemma validated_eq:
  assumes "map_res (\<lambda>rc. validate_observation (fst rc) (snd rc)) (zip records ids) = Inr rs" and "length records = length ids"
  shows "rs = records \<and> list_all2 (\<lambda>r i. validate_observation r i = Inr r) records ids"
  using assms
proof (induction records ids arbitrary: rs rule: list_induct2')
  case (4 r records i ids)
  then show ?case by (auto simp: res_bind_Inr validate_observation_Inr)
qed auto

lemma validate_check_id: "validate_observation r i = Inr r' \<Longrightarrow> dget r ''check_id'' = PyStr i"
  by (simp add: validate_observation_Inr)

lemma validated_all:
  assumes "list_all2 (\<lambda>r i. validate_observation r i = Inr r) records ids"
  shows "map_res (\<lambda>rc. validate_observation (fst rc) (snd rc)) (zip records ids) = Inr records \<and> map (\<lambda>r. dget r ''check_id'') records = map PyStr ids"
  using assms validate_check_id by (induction rule: list_all2_induct) auto

lemma status_counts_total:
  "\<forall>r \<in> set records. str_in (dget r ''status'') FINAL_STATUSES \<Longrightarrow> status_count records ''PROVEN'' + status_count records ''NOT_APPLICABLE'' = length records"
  by (induction records) (auto simp: status_count_def FINAL_STATUSES_def str_in_iff)

lemma finalize_audit_Inr:
  assumes "finalize_audit observations expected current = Inr receipt"
  obtains records where "observations = PyList records" "list_all2 (\<lambda>r i. validate_observation r i = Inr r) records REQUIRED_FINAL_AUDIT_CHECKS"
    "is_sha256 (py_str current)" "py_eq expected current" "dget receipt ''receipt_sha256'' = PyStr (audit_digest receipt)"
    "dget receipt ''observations'' = PyList records" "dget receipt ''workspace_sha256'' = current" "dget receipt ''outcome'' = PyStr ''PASS''"
    "dget receipt ''counts'' = status_counts records"
proof -
  obtain records validated where o: "observations = PyList records" "length records = length REQUIRED_FINAL_AUDIT_CHECKS" "is_sha256 (py_str current)" "py_eq expected current"
      and v: "map_res (\<lambda>rc. validate_observation (fst rc) (snd rc)) (zip records REQUIRED_FINAL_AUDIT_CHECKS) = Inr validated"
      and r: "receipt = (let body = PyDict [(''schema'', PyInt 1), (''outcome'', PyStr ''PASS''), (''check_count'', PyInt (int (length validated))),
          (''counts'', status_counts validated), (''workspace_sha256'', current), (''observations'', PyList validated)]
        in dset body ''receipt_sha256'' (PyStr (audit_digest body)))"
    using assms by (auto simp: finalize_audit_def guards Let_def elim!: is_listE)
  note e = validated_eq [OF v o(2)]
  show thesis by (rule that [OF o(1) e [THEN conjunct2] o(3,4)]) (use e in \<open>simp_all add: r Let_def\<close>)
qed

lemma audit_passes:
  assumes v: "list_all2 (\<lambda>r i. validate_observation r i = Inr r) records REQUIRED_FINAL_AUDIT_CHECKS" and "is_sha256 w"
  shows "\<exists>receipt. finalize_audit (PyList records) (PyStr w) (PyStr w) = Inr receipt"
  using validated_all [OF v] list_all2_lengthD [OF v] assms(2) by (simp add: finalize_audit_def Let_def)

section \<open>Properties\<close>

text \<open>
  C14: A passing final audit covers every check. If \<open>finalize_audit\<close> returns, the observations are one for
  each required check in the order of the contract, each with an intact seal, proven or not applicable with
  a justification, of a provenance that is not manual, with an evidence digest and a detail; the workspace
  was the expected one; and the receipt holds these observations, counts all of them, names the workspace
  and carries a seal that is intact.
\<close>

theorem final_audit_sound:
  assumes "finalize_audit observations expected current = Inr receipt"
  shows "\<exists>records. observations = PyList records \<and> length records = length REQUIRED_FINAL_AUDIT_CHECKS
    \<and> (\<forall>k < length records. let r = records ! k in
        dget r ''check_id'' = PyStr (REQUIRED_FINAL_AUDIT_CHECKS ! k) \<and> dget r ''observation_sha256'' = PyStr (observation_digest r)
        \<and> str_in (dget r ''provenance'') PROVENANCE \<and> is_sha256 (py_str (dget_or r ''evidence_digest'' (PyStr []))) \<and> is_text (dget r ''detail'')
        \<and> (dget r ''status'' = PyStr ''PROVEN'' \<or> dget r ''status'' = PyStr ''NOT_APPLICABLE'' \<and> is_text (dget r ''justification'')))
    \<and> py_eq expected current \<and> dget receipt ''observations'' = PyList records \<and> dget receipt ''workspace_sha256'' = current
    \<and> dget receipt ''counts'' = status_counts records \<and> status_count records ''PROVEN'' + status_count records ''NOT_APPLICABLE'' = length records
    \<and> dget receipt ''receipt_sha256'' = PyStr (audit_digest receipt)"
proof -
  obtain records where r: "observations = PyList records" "list_all2 (\<lambda>r i. validate_observation r i = Inr r) records REQUIRED_FINAL_AUDIT_CHECKS"
    "py_eq expected current" "dget receipt ''receipt_sha256'' = PyStr (audit_digest receipt)"
    "dget receipt ''observations'' = PyList records" "dget receipt ''workspace_sha256'' = current" "dget receipt ''counts'' = status_counts records"
    using finalize_audit_Inr [OF assms] by blast
  have v: "validate_observation (records ! k) (REQUIRED_FINAL_AUDIT_CHECKS ! k) = Inr (records ! k)" if "k < length records" for k
    using r(2) that by (auto simp: list_all2_conv_all_nth)
  then have "\<forall>r \<in> set records. str_in (dget r ''status'') FINAL_STATUSES" by (auto simp: in_set_conv_nth validate_observation_Inr)
  note t = status_counts_total [OF this]
  have "dget r ''status'' = PyStr ''PROVEN'' \<or> dget r ''status'' = PyStr ''NOT_APPLICABLE'' \<and> is_text (dget r ''justification'')"
    if "validate_observation r i = Inr r" for r i
    using that by (auto simp: validate_observation_Inr str_in_iff FINAL_STATUSES_def)
  then show ?thesis using r v t list_all2_lengthD [OF r(2)]
    by (intro exI [of _ records]) (auto simp: Let_def validate_observation_Inr)
qed

text \<open>
  Observations made for every required check pass the final audit: if the k-th record was returned by
  \<open>seal_audit_observation\<close> for the k-th check and the workspace digest is canonical and unchanged,
  \<open>finalize_audit\<close> returns a receipt, and a record of it that is altered without a new seal is refused by
  the validator unless SHA-256 has a collision.
\<close>

theorem final_audit_roundtrip:
  assumes "list_all2 (\<lambda>r i. \<exists>st ev pr de ju. seal_audit_observation (PyStr i) st ev pr de ju = Inr r) records REQUIRED_FINAL_AUDIT_CHECKS"
    and "is_sha256 w"
  shows "(\<exists>receipt. finalize_audit (PyList records) (PyStr w) (PyStr w) = Inr receipt)
    \<and> (\<forall>r \<in> set records. \<forall>k x i r'. wf_val r \<longrightarrow> wf_val x \<longrightarrow> k \<noteq> ''observation_sha256'' \<longrightarrow> canon (dget r k) \<noteq> canon x
        \<longrightarrow> validate_observation (dset r k x) i = Inr r'
        \<longrightarrow> sha256_collision (canonical (dpop r ''observation_sha256'')) (canonical (dpop (dset r k x) ''observation_sha256'')))"
proof
  have v: "list_all2 (\<lambda>r i. validate_observation r i = Inr r) records REQUIRED_FINAL_AUDIT_CHECKS"
    by (rule list_all2_mono [OF assms(1)]) (use sealed_validates in blast)
  then show "\<exists>receipt. finalize_audit (PyList records) (PyStr w) (PyStr w) = Inr receipt"
    by (rule audit_passes [OF _ assms(2)])
  have s: "dget r ''observation_sha256'' = PyStr (observation_digest r)" if "r \<in> set records" for r
    using v that by (auto simp: list_all2_conv_all_nth in_set_conv_nth validate_observation_Inr)
  show "\<forall>r \<in> set records. \<forall>k x i r'. wf_val r \<longrightarrow> wf_val x \<longrightarrow> k \<noteq> ''observation_sha256'' \<longrightarrow> canon (dget r k) \<noteq> canon x
        \<longrightarrow> validate_observation (dset r k x) i = Inr r'
        \<longrightarrow> sha256_collision (canonical (dpop r ''observation_sha256'')) (canonical (dpop (dset r k x) ''observation_sha256''))"
    using s observation_seal.tamper_detected by (auto simp: validate_observation_Inr)
qed

definition sample_observation :: "string \<Rightarrow> pyval" where
  "sample_observation i = (case seal_audit_observation (PyStr i) (PyStr ''PROVEN'') (PyStr (replicate 64 (CHR ''a''))) (PyStr ''framework-command'') (PyStr ''ran'') PyNone
     of Inl e \<Rightarrow> PyNone | Inr r \<Rightarrow> r)"

lemma sample_sealed:
  assumes "i \<in> set REQUIRED_FINAL_AUDIT_CHECKS"
  shows "seal_audit_observation (PyStr i) (PyStr ''PROVEN'') (PyStr (replicate 64 (CHR ''a''))) (PyStr ''framework-command'') (PyStr ''ran'') PyNone = Inr (sample_observation i)"
proof -
  have "\<exists>r. seal_audit_observation (PyStr i) (PyStr ''PROVEN'') (PyStr (replicate 64 (CHR ''a''))) (PyStr ''framework-command'') (PyStr ''ran'') PyNone = Inr r"
    using assms by (simp add: seal_audit_observation_def str_in_iff memb_def FINAL_STATUSES_def PROVENANCE_def is_sha256_def is_hex_def is_digit_def
        blank_def strip_def is_space_def Let_def list_all_iff)
  then show ?thesis by (auto simp: sample_observation_def)
qed

lemma sample_records:
  "list_all2 (\<lambda>r i. \<exists>st ev pr de ju. seal_audit_observation (PyStr i) st ev pr de ju = Inr r) (map sample_observation REQUIRED_FINAL_AUDIT_CHECKS) REQUIRED_FINAL_AUDIT_CHECKS"
  unfolding list.rel_map by (rule list.rel_refl_strong) (use sample_sealed in blast)

theorem final_audit_roundtrip_witness:
  "\<exists>receipt. finalize_audit (PyList (map sample_observation REQUIRED_FINAL_AUDIT_CHECKS)) (PyStr (replicate 64 (CHR ''b''))) (PyStr (replicate 64 (CHR ''b''))) = Inr receipt"
  using final_audit_roundtrip [OF sample_records, of "replicate 64 (CHR ''b'')"] by (simp add: is_sha256_def is_hex_def list_all_iff)

lemma sample_finalized:
  "\<exists>receipt. finalize_audit (PyList (map sample_observation REQUIRED_FINAL_AUDIT_CHECKS)) (PyStr (replicate 64 (CHR ''b''))) (PyStr (replicate 64 (CHR ''b''))) = Inr receipt"
proof -
  have "list_all2 (\<lambda>r i. validate_observation r i = Inr r) (map sample_observation REQUIRED_FINAL_AUDIT_CHECKS) REQUIRED_FINAL_AUDIT_CHECKS"
    by (rule list_all2_mono [OF sample_records]) (use sealed_validates in blast)
  then show ?thesis by (rule audit_passes) (simp add: is_sha256_def is_hex_def list_all_iff)
qed

theorem final_audit_sound_witness:
  "\<exists>receipt. dget receipt ''receipt_sha256'' = PyStr (audit_digest receipt) \<and> dget receipt ''workspace_sha256'' = PyStr (replicate 64 (CHR ''b''))"
proof -
  obtain receipt where "finalize_audit (PyList (map sample_observation REQUIRED_FINAL_AUDIT_CHECKS)) (PyStr (replicate 64 (CHR ''b''))) (PyStr (replicate 64 (CHR ''b''))) = Inr receipt"
    using sample_finalized by blast
  from final_audit_sound [OF this] show ?thesis by blast
qed

end
