(* ===== verification/Law_Runtime.thy ===== *)
theory Law_Runtime
  imports Task_Schema
begin

text \<open>
  The status of a law, \<open>agentinfra/law_runtime.py\<close>: a law is collected with the digest of its definition,
  started once and completed once; a summary counts the records. \<open>check_unittest_summary\<close> is the check of
  the summary an isolated test module prints (the run of the module is not modelled).
\<close>

section \<open>Records\<close>

definition OUTCOMES :: "string list" where
  "OUTCOMES = [''PASSED'', ''FAILED'', ''UNAVAILABLE'', ''BLOCKED'', ''JUSTIFIED_SKIP'']"

definition LIMITATIONS :: "string list" where
  "LIMITATIONS = [''UNAVAILABLE'', ''BLOCKED'', ''JUSTIFIED_SKIP'']"

text \<open>\<open>_LAW_ID_RE\<close>.\<close>

definition is_law_id :: "pyval \<Rightarrow> bool" where
  "is_law_id v = (case v of PyStr (c # cs) \<Rightarrow> is_alnum c \<and> length cs \<le> 159 \<and> list_all (\<lambda>d. is_alnum d \<or> d \<in> set ''_.-'') cs | _ \<Rightarrow> False)"

definition law_require_digest :: "pyval \<Rightarrow> unit res" where
  "law_require_digest v = guard (is_digest v) (LawStatusError ''must be a canonical sha256'')"

definition collect_law :: "string \<Rightarrow> pyval \<Rightarrow> pyval \<Rightarrow> pyval res" where
  "collect_law now law_id definition_digest = res_bind (check_all
     [guard (is_law_id law_id) (LawStatusError ''law id must be canonical and bounded''), law_require_digest definition_digest]) (\<lambda>_.
   Inr (PyDict [(''schema'', PyInt 1), (''id'', law_id), (''definition_digest'', definition_digest), (''collected'', PyBool True), (''started'', PyBool False),
     (''completed'', PyBool False), (''outcome'', PyNone), (''oracle_count'', PyInt 0), (''capability_status'', PyNone), (''evidence_digest'', PyNone),
     (''detail'', PyStr []), (''justification'', PyNone), (''collected_at'', PyStr now), (''started_at'', PyNone), (''completed_at'', PyNone)]))"

definition start_law :: "string \<Rightarrow> pyval \<Rightarrow> pyval res" where
  "start_law now record = res_bind (check_all
     [guard (is_dict record \<and> py_eq (dget record ''schema'') (PyInt 1) \<and> dget record ''collected'' = PyBool True) (LawStatusError ''only a collected law may start''),
      guard (\<not> truthy (dget record ''started'') \<and> \<not> truthy (dget record ''completed'')) (LawStatusError ''law execution may start exactly once'')]) (\<lambda>_.
   Inr (dset (dset record ''started'' (PyBool True)) ''started_at'' (PyStr now)))"

definition strip_text :: "pyval \<Rightarrow> pyval" where
  "strip_text v = (case v of PyStr s \<Rightarrow> PyStr (strip s) | _ \<Rightarrow> PyNone)"

definition complete_law :: "string \<Rightarrow> pyval \<Rightarrow> pyval \<Rightarrow> pyval \<Rightarrow> pyval \<Rightarrow> pyval \<Rightarrow> pyval \<Rightarrow> pyval \<Rightarrow> pyval \<Rightarrow> pyval res" where
  "complete_law now record outcome oracle_count evidence_digest current_definition_digest detail capability_status justification = res_bind (check_all
     [guard (is_dict record \<and> dget record ''started'' = PyBool True \<and> dget record ''completed'' \<noteq> PyBool True) (LawStatusError ''only a started, incomplete law may complete''),
      law_require_digest (dget record ''definition_digest''),
      law_require_digest current_definition_digest,
      guard (current_definition_digest = dget record ''definition_digest'') (LawStatusError ''law definition changed between collection and completion''),
      memb outcome OUTCOMES (LawStatusError ''unknown law outcome''),
      guard (is_pos_int oracle_count) (LawStatusError ''completed law requires at least one executed oracle''),
      guard (is_text detail) (LawStatusError ''completed law requires execution detail''),
      guard (is_text capability_status) (LawStatusError ''completed law requires capability status''),
      guard (str_in outcome [''PASSED'', ''FAILED''] \<longrightarrow> capability_status = PyStr ''AVAILABLE'') (LawStatusError ''requires AVAILABLE capability''),
      guard (str_in outcome LIMITATIONS \<longrightarrow> capability_status \<noteq> PyStr ''AVAILABLE'') (LawStatusError ''cannot claim AVAILABLE capability''),
      guard (str_in outcome LIMITATIONS \<longrightarrow> is_text justification) (LawStatusError ''requires a concrete justification''),
      law_require_digest evidence_digest]) (\<lambda>_.
   Inr (dupdate record [(''completed'', PyBool True), (''completed_at'', PyStr now), (''outcome'', outcome), (''oracle_count'', oracle_count),
     (''evidence_digest'', evidence_digest), (''capability_status'', strip_text capability_status), (''detail'', strip_text detail), (''justification'', strip_text justification)]))"

section \<open>Summaries\<close>

definition count_field :: "pyval list \<Rightarrow> string \<Rightarrow> pyval \<Rightarrow> int" where
  "count_field records k v = int (length (filter (\<lambda>r. dget r k = v) records))"

definition summarize_law_records :: "pyval \<Rightarrow> pyval res" where
  "summarize_law_records value = (let records = items value; ids = map (\<lambda>r. dget r ''id'') records in
   res_bind (check_all
     [guard (is_list value) (LawStatusError ''law records must be an array''),
      guard (list_all is_dict records) (LawStatusError ''law record ids must be present and unique''),
      distinct_values ids (LawStatusError ''law record ids must be present and unique'')]) (\<lambda>_.
   let collected = count_field records ''collected'' (PyBool True); completed = count_field records ''completed'' (PyBool True);
       passed = count_field records ''outcome'' (PyStr ''PASSED'') in
   Inr (PyDict [(''collected'', PyInt collected), (''started'', PyInt (count_field records ''started'' (PyBool True))), (''completed'', PyInt completed),
     (''passed'', PyInt passed), (''failed'', PyInt (count_field records ''outcome'' (PyStr ''FAILED''))),
     (''unavailable'', PyInt (count_field records ''outcome'' (PyStr ''UNAVAILABLE''))), (''blocked'', PyInt (count_field records ''outcome'' (PyStr ''BLOCKED''))),
     (''justified_skips'', PyInt (count_field records ''outcome'' (PyStr ''JUSTIFIED_SKIP''))), (''unexecuted'', PyInt (collected - completed)),
     (''ok'', PyBool (records \<noteq> [] \<and> passed = int (length records) \<and> collected - completed = 0))])))"

definition TEST_OUTCOMES :: "string list" where
  "TEST_OUTCOMES = [''PASS'', ''FAIL'', ''ERROR'', ''SKIP'', ''EXPECTED_FAILURE'', ''UNEXPECTED_SUCCESS'']"

definition filled :: "pyval \<Rightarrow> bool" where
  "filled v = (case v of PyStr s \<Rightarrow> s \<noteq> [] | _ \<Rightarrow> False)"

fun check_test_records :: "pyval list \<Rightarrow> pyval list \<Rightarrow> unit res" where
  "check_test_records seen [] = Inr ()"
| "check_test_records seen (r # rs) = (let bad = LawStatusError ''isolated unittest exact-result record failed validation'' in
     res_bind (check_all
       [guard (is_dict r \<and> filled (dget r ''id'') \<and> dget r ''id'' \<notin> set seen \<and> filled (dget r ''method'')) bad,
        memb (dget r ''outcome'') TEST_OUTCOMES bad,
        guard (filled (dget r ''capability_status'') \<and> filled (dget r ''detail'')) bad])
     (\<lambda>_. check_test_records (dget r ''id'' # seen) rs))"

definition check_unittest_summary :: "string \<Rightarrow> string \<Rightarrow> pyval \<Rightarrow> unit res" where
  "check_unittest_summary module_name definition payload = res_bind (guard
     (is_dict payload \<and> py_eq (dget payload ''schema'') (PyInt 2) \<and> dget payload ''module'' = PyStr module_name
      \<and> dget payload ''definition_sha256'' = PyStr definition \<and> is_bool (dget payload ''ok'')
      \<and> list_all (\<lambda>k. is_nonneg_int (dget payload k)) [''collected'', ''successful_oracles'', ''failures'', ''errors'', ''expected_failures'', ''unexpected_successes'']
      \<and> is_list (dget payload ''justified_capability_skips'') \<and> is_list (dget payload ''tests'')
      \<and> dget payload ''collected'' = PyInt (int (length (items (dget payload ''tests'')))))
     (LawStatusError ''isolated unittest module summary failed schema or definition validation''))
   (\<lambda>_. check_test_records [] (items (dget payload ''tests'')))"

section \<open>The life of a record\<close>

inductive recorded :: "pyval \<Rightarrow> pyval \<Rightarrow> pyval \<Rightarrow> bool" for law_id frozen :: pyval where
  collected: "collect_law now law_id frozen = Inr r \<Longrightarrow> recorded law_id frozen r"
| started: "recorded law_id frozen r \<Longrightarrow> start_law now r = Inr r' \<Longrightarrow> recorded law_id frozen r'"
| completed: "recorded law_id frozen r \<Longrightarrow> complete_law now r oc n ev cu de ca ju = Inr r' \<Longrightarrow> recorded law_id frozen r'"

datatype phase = Collected | Started | Completed

definition in_phase :: "phase \<Rightarrow> pyval \<Rightarrow> bool" where
  "in_phase ph r \<longleftrightarrow> dget r ''started'' = PyBool (ph \<noteq> Collected) \<and> dget r ''completed'' = PyBool (ph = Completed)
     \<and> (if ph = Completed then str_in (dget r ''outcome'') OUTCOMES \<and> is_pos_int (dget r ''oracle_count'') \<and> is_digest (dget r ''evidence_digest'')
          \<and> is_text (dget r ''detail'') \<and> (str_in (dget r ''outcome'') LIMITATIONS \<longrightarrow> is_text (dget r ''justification''))
        else dget r ''outcome'' = PyNone \<and> dget r ''oracle_count'' = PyInt 0 \<and> dget r ''evidence_digest'' = PyNone)"

text \<open>What every record has: its identity, the frozen definition and one of the three phases.\<close>

definition law_record :: "pyval \<Rightarrow> pyval \<Rightarrow> pyval \<Rightarrow> bool" where
  "law_record law_id definition r \<longleftrightarrow> is_dict r \<and> py_eq (dget r ''schema'') (PyInt 1) \<and> dget r ''id'' = law_id \<and> is_law_id law_id \<and> dget r ''definition_digest'' = definition \<and> is_digest definition
     \<and> dget r ''collected'' = PyBool True \<and> (\<exists>ph. in_phase ph r)"

lemma start_law_Inr:
  "start_law now r = Inr r' \<longleftrightarrow> is_dict r \<and> py_eq (dget r ''schema'') (PyInt 1) \<and> dget r ''collected'' = PyBool True
     \<and> \<not> truthy (dget r ''started'') \<and> \<not> truthy (dget r ''completed'') \<and> r' = dset (dset r ''started'' (PyBool True)) ''started_at'' (PyStr now)"
  by (auto simp: start_law_def guards)

lemma text_strip [simp]: "is_text v \<Longrightarrow> is_text (strip_text v)"
  by (auto elim!: is_textE simp: strip_text_def)

lemma complete_law_Inr:
  assumes "complete_law now r oc n ev cu de ca ju = Inr r'"
  shows "is_dict r \<and> dget r ''started'' = PyBool True \<and> dget r ''completed'' \<noteq> PyBool True \<and> cu = dget r ''definition_digest''
    \<and> str_in oc OUTCOMES \<and> is_pos_int n \<and> is_digest ev \<and> is_text de \<and> (str_in oc [''PASSED'', ''FAILED''] \<longrightarrow> ca = PyStr ''AVAILABLE'')
    \<and> (str_in oc LIMITATIONS \<longrightarrow> ca \<noteq> PyStr ''AVAILABLE'' \<and> is_text ju)
    \<and> r' = dupdate r [(''completed'', PyBool True), (''completed_at'', PyStr now), (''outcome'', oc), (''oracle_count'', n),
         (''evidence_digest'', ev), (''capability_status'', strip_text ca), (''detail'', strip_text de), (''justification'', strip_text ju)]"
  using assms by (simp add: complete_law_def law_require_digest_def guards)

lemma recorded_law_record: "recorded i dg r \<Longrightarrow> law_record i dg r"
proof (induction rule: recorded.induct)
  case (collected now r)
  then have r: "is_law_id i" "is_digest dg" "is_dict r" "dget r ''schema'' = PyInt 1" "dget r ''id'' = i" "dget r ''definition_digest'' = dg" "dget r ''collected'' = PyBool True"
      "dget r ''started'' = PyBool False" "dget r ''completed'' = PyBool False" "dget r ''outcome'' = PyNone" "dget r ''oracle_count'' = PyInt 0" "dget r ''evidence_digest'' = PyNone"
    by (auto simp: collect_law_def law_require_digest_def guards)
  then have "in_phase Collected r" by (simp add: in_phase_def)
  then show ?case using r unfolding law_record_def by auto
next
  case (started r now r')
  note s = started(2) [unfolded start_law_Inr]
  obtain ph where "in_phase ph r" using started(3) by (auto simp: law_record_def)
  then have "in_phase Started r'" using s by (cases ph) (simp_all add: in_phase_def)
  then show ?case using started(3) s unfolding law_record_def by auto
next
  case (completed r now oc n ev cu de ca ju r')
  note c = complete_law_Inr [OF completed(2)]
  then have "in_phase Completed r'" by (simp add: in_phase_def)
  then show ?case using completed(3) c unfolding law_record_def by auto
qed

text \<open>Only an available capability yields a pass or a failure.\<close>

lemma recorded_available: "recorded i dg r \<Longrightarrow> str_in (dget r ''outcome'') [''PASSED'', ''FAILED''] \<Longrightarrow> dget r ''capability_status'' = PyStr ''AVAILABLE''"
proof (induction rule: recorded.induct)
  case (collected now r)
  then show ?case by (auto simp: collect_law_def law_require_digest_def guards)
next
  case (started r now r')
  then show ?case by (auto simp: start_law_Inr)
next
  case (completed r now oc n ev cu de ca ju r')
  note c = complete_law_Inr [OF completed(2)]
  have "strip ''AVAILABLE'' = ''AVAILABLE''" by code_simp
  then show ?case using c completed(4) by (auto simp: strip_text_def)
qed

section \<open>Properties\<close>

text \<open>
  The life cycle of a law. A record that the three operations produced keeps its identifier and the
  digest its definition had when it was collected; it is collected, started or completed, in this order, and
  each step is made at most once: a started law does not start, a completed one neither starts nor
  completes. It has an outcome exactly when it is completed, and then at least one oracle ran, its evidence
  has a digest, it passed or failed only with the capability available, and every other outcome has a
  justification.
\<close>

theorem law_lifecycle:
  assumes "recorded law_id frozen r"
  shows "dget r ''id'' = law_id \<and> dget r ''definition_digest'' = frozen \<and> is_digest frozen \<and> (\<exists>ph. in_phase ph r
    \<and> (is_ok (start_law now r) \<longleftrightarrow> ph = Collected) \<and> (ph \<noteq> Started \<longrightarrow> \<not> is_ok (complete_law now' r oc n ev cu de ca ju))
    \<and> (str_in (dget r ''outcome'') [''PASSED'', ''FAILED''] \<longrightarrow> ph = Completed \<and> dget r ''capability_status'' = PyStr ''AVAILABLE''))"
proof -
  obtain ph where p: "in_phase ph r" and l: "law_record law_id frozen r" using recorded_law_record [OF assms] by (auto simp: law_record_def)
  have "is_ok (start_law now r) \<longleftrightarrow> ph = Collected"
    using p l by (cases ph) (auto simp: start_law_def in_phase_def law_record_def)
  moreover have "\<not> is_ok (complete_law now' r oc n ev cu de ca ju)" if "ph \<noteq> Started"
  proof (rule ccontr)
    assume "\<not> ?thesis"
    then obtain r' where "complete_law now' r oc n ev cu de ca ju = Inr r'" by (auto simp: is_ok_def split: sum.splits)
    from complete_law_Inr [OF this] show False using p that by (cases ph) (simp_all add: in_phase_def)
  qed
  moreover have "ph = Completed" if "str_in (dget r ''outcome'') [''PASSED'', ''FAILED'']"
    using p that by (cases ph) (simp_all add: in_phase_def)
  ultimately show ?thesis using p l recorded_available [OF assms] by (auto simp: law_record_def)
qed

lemma count_all: "count_field rs k v = int (length rs) \<longleftrightarrow> (\<forall>r \<in> set rs. dget r k = v)"
proof -
  have "length (filter P xs) = length xs \<longleftrightarrow> (\<forall>x \<in> set xs. P x)" for P and xs :: "pyval list"
    by (metis filter_True filter_id_conv length_filter_less nat_neq_iff)
  then show ?thesis by (simp add: count_field_def)
qed

text \<open>
  The summary of recorded laws is \<open>ok\<close> exactly when there is a law and every law has been executed and
  passed: a law that is only collected or started, or whose capability was missing, is never a success.
\<close>

theorem law_summary_ok:
  assumes "\<forall>r \<in> set rs. \<exists>i dg. recorded i dg r" and "summarize_law_records (PyList rs) = Inr s"
  shows "dget s ''ok'' = PyBool (rs \<noteq> [] \<and> (\<forall>r \<in> set rs. in_phase Completed r \<and> dget r ''outcome'' = PyStr ''PASSED'' \<and> dget r ''capability_status'' = PyStr ''AVAILABLE''))"
proof -
  have ok: "dget s ''ok'' = PyBool (rs \<noteq> [] \<and> count_field rs ''outcome'' (PyStr ''PASSED'') = int (length rs)
      \<and> count_field rs ''collected'' (PyBool True) - count_field rs ''completed'' (PyBool True) = 0)"
    using assms(2) by (auto simp: summarize_law_records_def Let_def guards)
  have l: "\<exists>i dg. law_record i dg r" if "r \<in> set rs" for r using assms(1) recorded_law_record that by blast
  have c: "count_field rs ''collected'' (PyBool True) = int (length rs)" unfolding count_all using l by (auto simp: law_record_def)
  have "in_phase Completed r \<and> dget r ''capability_status'' = PyStr ''AVAILABLE''" if "r \<in> set rs" "dget r ''outcome'' = PyStr ''PASSED''" for r
  proof -
    note r = that
    obtain ph where "in_phase ph r" using l [OF r(1)] by (auto simp: law_record_def)
    then have "in_phase Completed r" using r(2) by (cases ph) (simp_all add: in_phase_def)
    then show ?thesis using recorded_available assms(1) r by fastforce
  qed
  moreover have "dget r ''completed'' = PyBool True" if "in_phase Completed r" for r using that by (simp add: in_phase_def)
  ultimately have "count_field rs ''outcome'' (PyStr ''PASSED'') = int (length rs) \<and> count_field rs ''collected'' (PyBool True) - count_field rs ''completed'' (PyBool True) = 0
      \<longleftrightarrow> (\<forall>r \<in> set rs. in_phase Completed r \<and> dget r ''outcome'' = PyStr ''PASSED'' \<and> dget r ''capability_status'' = PyStr ''AVAILABLE'')"
    unfolding c count_all using count_all [of rs "''completed''" "PyBool True"] by auto
  then show ?thesis using ok by simp
qed

definition sample_law :: pyval where
  "sample_law = (let dg = PyStr (replicate 64 (CHR ''a'')) in
     case res_bind (collect_law ''t0'' (PyStr ''law-1'') dg) (\<lambda>r. res_bind (start_law ''t1'' r)
       (\<lambda>r. complete_law ''t2'' r (PyStr ''PASSED'') (PyInt 2) dg dg (PyStr ''ran'') (PyStr ''AVAILABLE'') PyNone)) of Inl e \<Rightarrow> PyNone | Inr r \<Rightarrow> r)"

lemma sample_recorded: "recorded (PyStr ''law-1'') (PyStr (replicate 64 (CHR ''a''))) sample_law"
proof -
  let ?dg = "PyStr (replicate 64 (CHR ''a''))"
  have "is_ok (res_bind (collect_law ''t0'' (PyStr ''law-1'') ?dg) (\<lambda>r. res_bind (start_law ''t1'' r)
       (\<lambda>r. complete_law ''t2'' r (PyStr ''PASSED'') (PyInt 2) ?dg ?dg (PyStr ''ran'') (PyStr ''AVAILABLE'') PyNone)))" by code_simp
  then obtain r0 r1 r2 where c: "collect_law ''t0'' (PyStr ''law-1'') ?dg = Inr r0" "start_law ''t1'' r0 = Inr r1"
      "complete_law ''t2'' r1 (PyStr ''PASSED'') (PyInt 2) ?dg ?dg (PyStr ''ran'') (PyStr ''AVAILABLE'') PyNone = Inr r2"
    by (auto simp: is_ok_def res_bind_Inr split: sum.splits)
  have "recorded (PyStr ''law-1'') ?dg r2"
    by (rule recorded.completed [OF recorded.started [OF recorded.collected [OF c(1)] c(2)] c(3)])
  moreover have "sample_law = r2" using c by (simp add: sample_law_def Let_def)
  ultimately show ?thesis by simp
qed

theorem law_lifecycle_witness: "dget sample_law ''id'' = PyStr ''law-1'' \<and> is_digest (PyStr (replicate 64 (CHR ''a'')))"
  using law_lifecycle [OF sample_recorded] by blast

theorem law_summary_ok_witness: "\<exists>s. summarize_law_records (PyList [sample_law]) = Inr s \<and> dget s ''ok'' = PyBool True"
proof -
  have "is_ok (summarize_law_records (PyList [sample_law]))" by code_simp
  then obtain s where s: "summarize_law_records (PyList [sample_law]) = Inr s" by (auto simp: is_ok_def split: sum.splits)
  have "\<forall>r \<in> set [sample_law]. \<exists>i dg. recorded i dg r" using sample_recorded by auto
  moreover have "in_phase Completed sample_law \<and> dget sample_law ''outcome'' = PyStr ''PASSED'' \<and> dget sample_law ''capability_status'' = PyStr ''AVAILABLE''" by code_simp
  ultimately have "dget s ''ok'' = PyBool True" using law_summary_ok [OF _ s] by simp
  then show ?thesis using s by blast
qed

end
