(* ===== verification/Policy.thy ===== *)
theory Policy
  imports Scope Atomic
begin

text \<open>
  The constitution (\<open>agentinfra/constitution.py\<close>) and the compiler of project contracts
  (\<open>agentinfra/policy.py\<close>): a project contract is refused when any of its entries weakens the constitution,
  and is otherwise compiled, with the classes of a task and the paths it changes, into the gates, the scope
  and the budgets of the task, sealed by a digest. Sets of strings are sorted lists without duplicates.
\<close>

section \<open>The constitution\<close>

definition INVARIANTS :: "(string \<times> string \<times> string) list" where
  "INVARIANTS =
    [(''AEGIS-I001'', ''Governing policy immutability'', ''An acting agent cannot mutate policy governing its task.''),
     (''AEGIS-I002'', ''Acceptance criteria stability'', ''Acceptance criteria cannot be weakened after failure.''),
     (''AEGIS-I003'', ''No self-waiver'', ''An acting agent cannot grant itself a mandatory exception.''),
     (''AEGIS-I004'', ''Evidence epoch integrity'', ''Only evidence for the current implementation epoch can prove current behavior.''),
     (''AEGIS-I005'', ''Production-path truth'', ''Production claims must exercise production paths.''),
     (''AEGIS-I006'', ''Contract-test integrity'', ''Tests and laws cannot be weakened to manufacture success.''),
     (''AEGIS-I007'', ''Independent acceptance'', ''Substantial changes require acceptance independent of the implementer.''),
     (''AEGIS-I008'', ''Capability honesty'', ''Unavailable, blocked, and untested validation are never PASS.''),
     (''AEGIS-I009'', ''Epistemic honesty'', ''Observation, proof, inference, assumption, and untested claims remain distinct.''),
     (''AEGIS-I010'', ''Controlled scope'', ''Implementation scope cannot expand silently.''),
     (''AEGIS-I011'', ''Sequential agency'', ''At most one child is active globally and nested delegation is forbidden.''),
     (''AEGIS-I012'', ''Parent canonical authority'', ''The parent owns canonical task state and final claims.''),
     (''AEGIS-I013'', ''Max reasoning'', ''Use Max reasoning where available and never lower it to save credits.''),
     (''AEGIS-I014'', ''Falsification'', ''Substantial validation attempts to disprove correctness.''),
     (''AEGIS-I015'', ''User-work preservation'', ''Unrelated dirty and untracked work remains user-owned.''),
     (''AEGIS-I016'', ''Minimal unjustified change'', ''Scope, architecture, and dependency expansion require justification.''),
     (''AEGIS-I017'', ''Compatibility preservation'', ''Compatibility work preserves observable behavior unless divergence is explicit.''),
     (''AEGIS-I018'', ''No manufactured success'', ''Fake counters, evidence, execution, support, and test-aware behavior are rejected.''),
     (''AEGIS-I019'', ''Test-driven production mutation'', ''Behavioral production mutation requires a baseline-executed test contract first.''),
     (''AEGIS-I020'', ''RED/GREEN contract identity'', ''GREEN must use the frozen test and oracle contract used for RED or characterization.''),
     (''AEGIS-I021'', ''Property-first assurance'', ''Stateful and combinatorial risk requires property or model-based assurance.''),
     (''AEGIS-I022'', ''Regression-first remediation'', ''A discovered defect must be executable as a regression before remediation.'')]"

definition policy_digest :: "pyval \<Rightarrow> string" where
  "policy_digest v = sha256 (canonical (dpop v ''digest''))"

interpretation policy_seal: sealed_record "''digest''" policy_digest
  by unfold_locales (simp add: policy_digest_def digest_without_def)

definition constitutional_contract :: pyval where
  "constitutional_contract = (let body = PyDict [(''schema'', PyInt 1), (''version'', PyStr ''5.0.0''),
      (''invariants'', PyList (map (\<lambda>(i, title, statement). PyDict [(''id'', PyStr i), (''title'', PyStr title), (''statement'', PyStr statement)]) INVARIANTS))]
    in dset body ''digest'' (PyStr (policy_digest body)))"

section \<open>Tables\<close>

definition TASK_CLASSES :: "string list" where
  "TASK_CLASSES = [''BUG_FIX'', ''FEATURE'', ''REFACTOR'', ''REIMPLEMENTATION'', ''MIGRATION'', ''PERFORMANCE'', ''CONCURRENCY'', ''SECURITY'', ''DEPENDENCY_CHANGE'', ''BUILD_SYSTEM'', ''CI_CD'', ''INFRASTRUCTURE'', ''API_CHANGE'', ''FFI_CHANGE'', ''DATABASE_CHANGE'', ''DOCUMENTATION'', ''TEST_ONLY'']"

definition GATE_SEVERITIES :: "string list" where
  "GATE_SEVERITIES = [''HARD'', ''REQUIRED'', ''ADVISORY'']"

definition WEAKENING_RULES :: "(string \<times> bool \<times> string) list" where
  "WEAKENING_RULES =
    [(''independent_review'', False, ''AEGIS-I007''),
     (''strict_evidence'', False, ''AEGIS-I009''),
     (''production_path'', False, ''AEGIS-I005''),
     (''tdd'', False, ''AEGIS-I019''),
     (''test_first'', False, ''AEGIS-I019''),
     (''red_required'', False, ''AEGIS-I019''),
     (''property_testing'', False, ''AEGIS-I021''),
     (''allow_test_after_implementation'', True, ''AEGIS-I019''),
     (''nested_delegation'', True, ''AEGIS-I011''),
     (''parallel_agents'', True, ''AEGIS-I011''),
     (''allow_self_waiver'', True, ''AEGIS-I003''),
     (''allow_test_weakening'', True, ''AEGIS-I006''),
     (''governance_write'', True, ''AEGIS-I001''),
     (''verification_optional'', True, ''AEGIS-I008''),
     (''parent_canonical_state'', False, ''AEGIS-I012''),
     (''max_reasoning'', False, ''AEGIS-I013''),
     (''falsification'', False, ''AEGIS-I014'')]"

definition gate :: "string \<Rightarrow> string \<Rightarrow> string \<Rightarrow> string \<Rightarrow> pyval res" where
  "gate gate_id description severity family =
    (if severity \<notin> set GATE_SEVERITIES then Inl (PolicyError ''unknown gate severity'')
     else Inr (PyDict [(''id'', PyStr gate_id), (''description'', PyStr description), (''severity'', PyStr severity),
       (''family'', PyStr family), (''waivable'', PyBool (severity \<noteq> ''HARD''))]))"

text \<open>Every call of \<open>_gate\<close> in the file leaves the severity at its default.\<close>

definition hard_gate :: "string \<Rightarrow> string \<Rightarrow> string \<Rightarrow> pyval" where
  "hard_gate gate_id description family = PyDict [(''id'', PyStr gate_id), (''description'', PyStr description), (''severity'', PyStr ''HARD''),
     (''family'', PyStr family), (''waivable'', PyBool False)]"

lemma gate_hard: "gate gate_id description ''HARD'' family = Inr (hard_gate gate_id description family)"
  by (simp add: gate_def hard_gate_def GATE_SEVERITIES_def)

definition CORE_GATES :: "(string \<times> string) list" where
  "CORE_GATES =
    [(''GOVERNANCE_INTEGRITY'', ''Governing policy and instructions match their frozen digest.''),
     (''TEST_LAW_INTEGRITY'', ''Frozen tests and laws retain their definition digests.''),
     (''EVIDENCE_HONESTY'', ''Claims use current evidence with an honest epistemic status.''),
     (''PRODUCTION_PATH_TRUTH'', ''Production claims exercise production behavior.''),
     (''WORKSPACE_SAFETY'', ''Writes remain in scope and preserve user work.''),
     (''SEQUENTIAL_DELEGATION'', ''At most one child is active and no nested child exists.''),
     (''TEST_DESIGN_COMPLETE'', ''The executable test/property contract is designed.''),
     (''TEST_FIRST_CONTRACT_RECORDED'', ''Test definition predates behavioral implementation mutation.''),
     (''BASELINE_EXECUTED'', ''The frozen contract ran against the pre-implementation baseline.''),
     (''TEST_CONTRACT_FROZEN'', ''Test, oracle, and gate contracts are content-addressed and frozen.''),
     (''IMPLEMENTATION_AUTHORIZED'', ''Implementation write authority follows the required baseline result.''),
     (''GREEN_EVIDENCE_CURRENT'', ''The frozen contract is GREEN for the current implementation epoch.''),
     (''PROPERTY_FALSIFICATION_COMPLETE'', ''Required counterexample search and negative validation completed.''),
     (''INDEPENDENT_REVIEW_CURRENT'', ''Independent review binds to the current diff and evidence.'')]"

definition CLASS_GATES :: "(string \<times> (string \<times> string) list) list" where
  "CLASS_GATES =
    [(''BUG_FIX'', [(''ORIGINAL_FAILURE_REPRODUCED'', ''The original defect is reproduced before remediation.''), (''REGRESSION_GREEN'', ''The regression is GREEN after remediation.'')]),
     (''FEATURE'', [(''REQUIREMENT_CONTRACT'', ''Positive, negative, and boundary behavior is executable.'')]),
     (''REFACTOR'', [(''BEHAVIOR_EQUIVALENCE'', ''The frozen characterization remains equivalent.'')]),
     (''REIMPLEMENTATION'', [(''REFERENCE_INTEGRITY'', ''The reference digest and read-only status are current.''), (''DIFFERENTIAL_ORACLE'', ''Reference and candidate normalized observations agree.'')]),
     (''MIGRATION'', [(''MIGRATION_RECOVERY'', ''Migration is compatible, idempotent, and recovers safely.'')]),
     (''CONCURRENCY'', [(''CONCURRENCY_MODEL'', ''Ordering, cancellation, duplication, failure, and cleanup are modeled.'')]),
     (''PERFORMANCE'', [(''PERFORMANCE_METHODOLOGY'', ''Correctness, baseline, noise, and threshold are reproducible.'')]),
     (''SECURITY'', [(''SECURITY_ABUSE_CASES'', ''Hostile inputs, path boundaries, secrets, and failures close safely.'')]),
     (''DEPENDENCY_CHANGE'', [(''DEPENDENCY_DELTA'', ''Direct/transitive impact and lifecycle behavior are reviewed.'')]),
     (''BUILD_SYSTEM'', [(''BUILD_PLAN_VALIDATED'', ''Build changes render and validate without an unrequested apply.'')]),
     (''CI_CD'', [(''CI_PLAN_VALIDATED'', ''CI/CD changes render and validate without an unrequested apply.'')]),
     (''INFRASTRUCTURE'', [(''INFRASTRUCTURE_PLAN_VALIDATED'', ''Infrastructure changes plan without live apply.'')]),
     (''API_CHANGE'', [(''API_CONTRACT'', ''Public API compatibility and errors are executable.'')]),
     (''FFI_CHANGE'', [(''FFI_CONTRACT'', ''ABI, ownership, lifetime, and errors are executable.'')]),
     (''DATABASE_CHANGE'', [(''DATABASE_MIGRATION'', ''Schema/data preservation and transactional recovery are executable.'')])]"

text \<open>Each pack with the classes and the gates it adds.\<close>

definition PACKS :: "(string \<times> string list \<times> string list) list" where
  "PACKS =
    [(''rust-systems'', [''SECURITY''], [''MEMORY_SAFETY'', ''UNSAFE_BOUNDARY_AUDIT'']),
     (''rust-concurrency'', [''CONCURRENCY''], [''NO_SLEEP_SYNCHRONIZATION'', ''CANCELLATION_SHUTDOWN'', ''BACKPRESSURE'']),
     (''rust-ffi'', [''FFI_CHANGE''], [''ABI_OWNERSHIP_LIFETIME'']),
     (''go-service'', [''API_CHANGE''], [''SERVICE_SHUTDOWN'', ''REQUEST_CANCELLATION'']),
     (''python-control-plane'', [], [''HYPOTHESIS_PROPERTY_SUITE'']),
     (''distributed-system'', [''CONCURRENCY''], [''IDEMPOTENCY'', ''DUPLICATE_REORDER_RETRY'', ''DURABILITY_RECOVERY'']),
     (''reimplementation'', [''REIMPLEMENTATION''], [''REFERENCE_INTEGRITY'', ''DIFFERENTIAL_ORACLE'', ''DIVERGENCE_REGISTRY'']),
     (''compatibility-preserving-refactor'', [''REFACTOR''], [''BEHAVIOR_EQUIVALENCE'', ''PUBLIC_SURFACE_AUDIT'']),
     (''performance-critical'', [''PERFORMANCE''], [''PERFORMANCE_METHODOLOGY'', ''CORRECTNESS_BEFORE_BENCHMARK'']),
     (''terraform'', [''INFRASTRUCTURE''], [''TERRAFORM_VALIDATE_PLAN'', ''NO_LIVE_APPLY'']),
     (''kubernetes'', [''INFRASTRUCTURE''], [''KUBERNETES_RENDER_VALIDATE'', ''ROLLOUT_RECOVERY'']),
     (''database'', [''DATABASE_CHANGE''], [''DATABASE_MIGRATION'', ''DATA_PRESERVATION'']),
     (''agent-framework'', [''SECURITY''], [''HYPOTHESIS_PROPERTY_SUITE'', ''CONTROL_PLANE_ADVERSARIAL_REVIEW''])]"

section \<open>Project contracts\<close>

definition replace_char :: "char \<Rightarrow> char \<Rightarrow> string \<Rightarrow> string" where
  "replace_char a b s = map (\<lambda>c. if c = a then b else c) s"

definition fold_key :: "string \<Rightarrow> string" where
  "fold_key k = casefold (replace_char (CHR ''-'') (CHR ''_'') k)"

text \<open>Every entry of every dictionary inside a value, with its key folded.\<close>

fun walk :: "pyval \<Rightarrow> (string \<times> pyval) list" where
  "walk (PyDict kvs) = concat (map (\<lambda>(k, child). (fold_key k, child) # walk child) kvs)"
| "walk (PyList xs) = concat (map walk xs)"
| "walk v = []"

definition weakens :: "string \<times> pyval \<Rightarrow> bool" where
  "weakens e = (case map_of WEAKENING_RULES (fst e) of None \<Rightarrow> False | Some (forbidden, rule) \<Rightarrow> py_eq (snd e) (PyBool forbidden))"

definition str_list :: "pyval \<Rightarrow> bool" where
  "str_list v \<longleftrightarrow> is_list v \<and> list_all is_str (items v)"

definition pack_list :: "pyval \<Rightarrow> pyval" where
  "pack_list contract = dget_or (dget_or contract ''policy'' (PyDict [])) ''packs'' (PyList [])"

definition boundaries :: "pyval \<Rightarrow> pyval" where
  "boundaries contract = dget_or contract ''boundaries'' (PyDict [])"

definition boundary :: "pyval \<Rightarrow> string \<Rightarrow> pyval" where
  "boundary contract field = dget_or (boundaries contract) field (PyList [])"

definition strings :: "pyval \<Rightarrow> string list" where
  "strings v = map (\<lambda>x. case x of PyStr s \<Rightarrow> s | _ \<Rightarrow> []) (items v)"

definition validate_project_contract :: "pyval \<Rightarrow> unit res" where
  "validate_project_contract contract = check_all
     [guard (is_dict contract \<and> py_eq (dget contract ''schema'') (PyInt 1)) (PolicyError ''project contract schema must be exactly 1''),
      guard (is_dict (dget contract ''project'') \<and> is_text (dget (dget contract ''project'') ''name'')) (PolicyError ''project.name must be a non-empty string''),
      guard (\<not> list_ex weakens (walk contract)) (PolicyError ''project policy attempts constitutional weakening''),
      guard (is_dict (dget_or contract ''policy'' (PyDict []))) (PolicyError ''policy must be a table/object''),
      guard (str_list (pack_list contract)) (PolicyError ''policy.packs must be a string array''),
      guard (list_all (\<lambda>p. p \<in> fst ` set PACKS) (strings (pack_list contract))) (PolicyError ''unknown policy packs''),
      guard (is_dict (boundaries contract)) (PolicyError ''boundaries must be a table/object''),
      for_each (\<lambda>field. guard (is_list (boundary contract field) \<and> list_all is_text (items (boundary contract field)))
        (PolicyError ''boundaries must be non-empty-string arrays'')) [''source'', ''generated'', ''immutable'', ''vendor'']]"

section \<open>Classification\<close>

definition file_name :: "string \<Rightarrow> string" where
  "file_name s = rev (takeWhile (\<lambda>c. c \<noteq> slash) (rev s))"

definition LOCKFILES :: "string list" where
  "LOCKFILES = [''requirements.txt'', ''poetry.lock'', ''cargo.lock'', ''go.sum'', ''package-lock.json'', ''pnpm-lock.yaml'', ''yarn.lock'']"

definition classify_path :: "string \<Rightarrow> string list" where
  "classify_path raw = (let normalized = casefold (replace_char (CHR 0x5C) slash raw); name = file_name normalized in
     (if name \<in> set LOCKFILES then [''DEPENDENCY_CHANGE''] else [])
     @ (if startswith normalized ''.github/'' \<or> contains (slash # normalized) ''/ci/'' then [''CI_CD''] else [])
     @ (if name \<in> {''dockerfile'', ''makefile''} \<or> list_ex (endswith name) [''.tf'', ''.yaml'', ''.yml''] then [''INFRASTRUCTURE''] else [])
     @ (if endswith name ''.sql'' then [''DATABASE_CHANGE''] else [])
     @ (if list_ex (contains normalized) [''security'', ''auth'', ''credential'', ''secret''] then [''SECURITY''] else [])
     @ (if startswith normalized ''tests/'' \<or> contains (slash # normalized) ''/tests/'' then [''TEST_ONLY''] else [])
     @ (if endswith name ''.md'' then [''DOCUMENTATION''] else []))"

definition classify_paths :: "string list \<Rightarrow> string list" where
  "classify_paths paths = concat (map classify_path paths)"

definition tdd_mode :: "string list \<Rightarrow> string" where
  "tdd_mode classes = (let behavioral = filter (\<lambda>c. c \<notin> {''DOCUMENTATION'', ''TEST_ONLY''}) classes in
     if behavioral = [] then ''NON_BEHAVIORAL_TEST_FIRST'' else if set behavioral = {''REFACTOR''} then ''CHARACTERIZATION_REQUIRED'' else ''RED_REQUIRED'')"

definition REFERENCE_FIELDS :: "string list" where
  "REFERENCE_FIELDS = [''id'', ''path'', ''revision'', ''sha256'', ''read_only'', ''command'', ''observation'', ''normalization'', ''permitted_divergence'']"

definition check_reference :: "pyval \<Rightarrow> unit res" where
  "check_reference item = check_all
     [guard (is_dict item) (PolicyError ''reference entry must be an object''),
      guard (list_all (has_key item) REFERENCE_FIELDS) (PolicyError ''reference entry is incomplete''),
      guard (is_sha256 (py_str (dget item ''sha256'')) \<and> dget item ''read_only'' = PyBool True) (PolicyError ''AEGIS-I017: reference must have a canonical digest and read_only=true''),
      guard (str_list (dget item ''command'') \<and> items (dget item ''command'') \<noteq> []) (PolicyError ''reference command must be a non-empty argv array'')]"

definition validate_references :: "pyval \<Rightarrow> bool \<Rightarrow> pyval list res" where
  "validate_references references required = (let rs = (if references = PyNone then PyList [] else references) in
     res_bind (guard (is_list rs) (PolicyError ''references must be an array'')) (\<lambda>_.
     res_bind (for_each check_reference (items rs)) (\<lambda>_.
     res_bind (guard (\<not> required \<or> items rs \<noteq> []) (PolicyError ''AEGIS-I017: reimplementation requires a complete read-only reference contract'')) (\<lambda>_.
     Inr (items rs)))))"

section \<open>Compilation\<close>

text \<open>\<open>sorted(set(xs))\<close>.\<close>

definition sorted_set :: "string list \<Rightarrow> string list" where
  "sorted_set xs = sort (remdups xs)"

definition named_classes :: "pyval \<Rightarrow> string list \<Rightarrow> string list \<Rightarrow> string list \<Rightarrow> string list" where
  "named_classes contract declared prior paths = map upper (declared @ prior) @ classify_paths paths
     @ concat (map (\<lambda>p. case map_of PACKS p of None \<Rightarrow> [] | Some (classes, gates) \<Rightarrow> classes) (strings (pack_list contract)))"

definition task_classes :: "pyval \<Rightarrow> string list \<Rightarrow> string list \<Rightarrow> string list \<Rightarrow> string list" where
  "task_classes contract declared prior paths = (let named = named_classes contract declared prior paths in
     sorted_set (if named = [] then [''FEATURE''] else named))"

definition mode_gate :: "string \<Rightarrow> string" where
  "mode_gate tdd = (if tdd = ''RED_REQUIRED'' then ''RED_EVIDENCE_CURRENT'' else if tdd = ''CHARACTERIZATION_REQUIRED'' then ''CHARACTERIZATION_CURRENT''
     else ''NON_BEHAVIORAL_TEST_FIRST'')"

text \<open>\<open>gates.setdefault(...)\<close>.\<close>

definition add_default :: "string \<times> pyval \<Rightarrow> (string \<times> pyval) list \<Rightarrow> (string \<times> pyval) list" where
  "add_default e gates = (if fst e \<in> fst ` set gates then gates else gates @ [e])"

definition class_gates :: "string \<Rightarrow> (string \<times> pyval) list" where
  "class_gates c = (case map_of CLASS_GATES c of None \<Rightarrow> [] | Some gs \<Rightarrow> map (\<lambda>(i, de). (i, hard_gate i de ''constitutional'')) gs)"

definition pack_gates :: "string \<Rightarrow> (string \<times> pyval) list" where
  "pack_gates p = (case map_of PACKS p of None \<Rightarrow> [] | Some (classes, gs) \<Rightarrow> map (\<lambda>i. (i, hard_gate i (''Mandatory '' @ p @ '' policy-pack contract.'') (''pack:'' @ p))) gs)"

definition gate_table :: "string list \<Rightarrow> string list \<Rightarrow> (string \<times> pyval) list" where
  "gate_table classes packs = (let m = mode_gate (tdd_mode classes) in
     fold add_default (concat (map class_gates classes) @ concat (map pack_gates packs))
       (AList.update m (hard_gate m ''The task-specific TDD baseline mode has current executable evidence.'' ''constitutional'')
         (map (\<lambda>(i, de). (i, hard_gate i de ''constitutional'')) CORE_GATES)))"

definition SEMANTIC_DIMENSIONS :: "string list" where
  "SEMANTIC_DIMENSIONS = [''public_apis'', ''public_types'', ''dependencies'', ''unsafe_blocks'', ''threads_executors'', ''global_mutable_state'', ''feature_flags'',
     ''environment_variables'', ''network_ports'', ''external_services'', ''persistent_formats'', ''database_objects'', ''operational_requirements'']"

definition py_strings :: "string list \<Rightarrow> pyval" where
  "py_strings xs = PyList (map PyStr xs)"

text \<open>\<open>sorted(item["path"] for item in references)\<close>: strings sort; one path alone needs no order; numbers sort; a mixture raises (arrays as paths are not modelled).\<close>

definition sorted_paths :: "pyval list \<Rightarrow> pyval res" where
  "sorted_paths ps = (if list_all is_str ps then Inr (py_strings (sort (strings (PyList ps))))
     else if length ps = 1 then Inr (PyList ps)
     else if list_all is_int ps then Inr (PyList (sort_key (\<lambda>v. case v of PyInt n \<Rightarrow> n | PyBool b \<Rightarrow> (if b then 1 else 0) | _ \<Rightarrow> 0) ps))
     else Inl TypeErr)"

definition scope_of :: "pyval \<Rightarrow> pyval \<Rightarrow> pyval" where
  "scope_of contract reference = PyDict
     [(''allow'', py_strings (sorted_set (strings (boundary contract ''source'') @ [''infra/property_tests/**'', ''infra/tests/**'', ''infra/law_tests/**'']))),
      (''deny'', py_strings (sorted_set (strings (boundary contract ''immutable'') @ [''.agents/**'', ''**/AGENTS.md'']))),
      (''immutable'', py_strings (sorted_set (strings (boundary contract ''immutable'') @ [''.agents/**'', ''**/AGENTS.md'']))),
      (''generated'', py_strings (sorted_set (strings (boundary contract ''generated'')))),
      (''reference'', reference), (''user_dirty'', PyList []), (''nested_repositories'', PyList [])]"

definition compile_contract :: "pyval \<Rightarrow> string list \<Rightarrow> string list \<Rightarrow> pyval \<Rightarrow> string list \<Rightarrow> pyval res" where
  "compile_contract contract declared_classes changed_paths risk prior_classes =
    res_bind (validate_project_contract contract) (\<lambda>_.
    res_bind (guard (list_all (\<lambda>c. c \<in> set TASK_CLASSES) (map upper (declared_classes @ prior_classes))) (PolicyError ''unknown task classes'')) (\<lambda>_.
    let paths = sorted_set changed_paths; packs = sorted_set (strings (pack_list contract));
        classes = task_classes contract declared_classes prior_classes paths; tdd = tdd_mode classes in
    res_bind (validate_references (dget contract ''references'') (''REIMPLEMENTATION'' \<in> set classes)) (\<lambda>references.
    res_bind (sorted_paths (map (\<lambda>r. dget r ''path'') references)) (\<lambda>reference_paths.
    let gates = gate_table classes packs;
        compiled = PyDict [(''schema'', PyInt 1), (''constitution'', constitutional_contract), (''project'', dget contract ''project''),
          (''task'', PyDict [(''classes'', py_strings classes), (''risk'', risk), (''tdd_mode'', PyStr tdd), (''changed_paths'', py_strings paths)]),
          (''policy_packs'', py_strings packs),
          (''gates'', PyList (map snd (sort_key fst gates))),
          (''scope'', scope_of contract reference_paths),
          (''change_budget'', PyDict [(''files'', PyNone), (''lines_added'', PyNone), (''lines_deleted'', PyNone), (''generated_churn'', PyInt 0), (''lockfile_churn'', PyInt 0)]),
          (''semantic_budget'', PyDict (map (\<lambda>k. (k, PyInt 0)) SEMANTIC_DIMENSIONS)),
          (''references'', PyList references),
          (''commands'', dget_or contract ''commands'' (PyDict [])),
          (''review'', PyDict [(''independent_required'', PyBool True), (''tdd_provenance_audit'', PyBool True), (''specialist_security'', PyBool (''SECURITY'' \<in> set classes))])]
    in Inr (dset compiled ''digest'' (PyStr (policy_digest compiled)))))))"

definition write_compiled_policy :: "path \<Rightarrow> pyval \<Rightarrow> path io" where
  "write_compiled_policy root compiled d = (let actual = policy_digest compiled; destination = aegis_dir @ [''compiled-policy'', actual @ ''.json''] in
     if \<not> is_dict compiled then (d, Inl AttributeErr)
     else if dget compiled ''digest'' \<noteq> PyStr actual then (d, Inl (PolicyError ''compiled policy digest mismatch''))
     else (case atomic_write_json root d (Rel destination) compiled (Some 384) of (d', Inl e) \<Rightarrow> (d', Inl e) | (d', Inr _) \<Rightarrow> (d', Inr destination)))"

definition RANKS :: "(string \<times> int) list" where
  "RANKS = [(''host'', 70), (''system'', 70), (''user'', 60), (''constitution'', 50), (''project-governance'', 40), (''subsystem-governance'', 30), (''source'', 10), (''comment'', 10)]"

definition classify_instruction_source :: "string \<Rightarrow> string \<Rightarrow> string \<Rightarrow> pyval" where
  "classify_instruction_source kind source content = (let normalized = replace_char (CHR ''_'') (CHR ''-'') (casefold (strip kind));
       rank = (case map_of RANKS normalized of None \<Rightarrow> 0 | Some r \<Rightarrow> r) in
     PyDict [(''kind'', PyStr normalized), (''source'', PyStr source), (''content_sha256'', PyStr (sha256 content)), (''authoritative'', PyBool (30 \<le> rank)), (''authority_rank'', PyInt rank)])"

section \<open>The gates of a task\<close>

lemma add_default_keys: "fst ` set (fold add_default es gs) = fst ` set gs \<union> fst ` set es"
  by (induction es arbitrary: gs) (auto simp: add_default_def)

lemma add_default_sub: "set (fold add_default es gs) \<subseteq> set gs \<union> set es"
proof (induction es arbitrary: gs)
  case (Cons e es)
  have "set (add_default e gs) \<subseteq> insert e (set gs)" by (auto simp: add_default_def)
  then show ?case using Cons [of "add_default e gs"] by auto
qed simp

lemma add_default_keeps: "set gs \<subseteq> set (fold add_default es gs)"
proof (induction es arbitrary: gs)
  case (Cons e es)
  have "set gs \<subseteq> set (add_default e gs)" by (auto simp: add_default_def)
  then show ?case using Cons [of "add_default e gs"] by auto
qed simp

definition is_hard_entry :: "string \<times> pyval \<Rightarrow> bool" where
  "is_hard_entry e \<longleftrightarrow> (\<exists>de fam. snd e = hard_gate (fst e) de fam)"

lemma hard_entry [simp]: "is_hard_entry (i, hard_gate i de fam)"
  by (auto simp: is_hard_entry_def)

definition base_gates :: "string list \<Rightarrow> (string \<times> pyval) list" where
  "base_gates classes = AList.update (mode_gate (tdd_mode classes)) (hard_gate (mode_gate (tdd_mode classes)) ''The task-specific TDD baseline mode has current executable evidence.'' ''constitutional'')
     (map (\<lambda>(i, de). (i, hard_gate i de ''constitutional'')) CORE_GATES)"

lemma mode_not_core: "mode_gate m \<notin> fst ` set CORE_GATES"
proof -
  have "list_all (\<lambda>g. g \<notin> fst ` set CORE_GATES) [''RED_EVIDENCE_CURRENT'', ''CHARACTERIZATION_CURRENT'', ''NON_BEHAVIORAL_TEST_FIRST'']" by code_simp
  then show ?thesis by (simp add: mode_gate_def)
qed

lemma update_fresh: "k \<notin> fst ` set al \<Longrightarrow> AList.update k v al = al @ [(k, v)]"
  by (induction al) auto

lemma base_gates_eq:
  "base_gates classes = map (\<lambda>(i, de). (i, hard_gate i de ''constitutional'')) CORE_GATES
     @ [(mode_gate (tdd_mode classes), hard_gate (mode_gate (tdd_mode classes)) ''The task-specific TDD baseline mode has current executable evidence.'' ''constitutional'')]"
  unfolding base_gates_def by (rule update_fresh) (use mode_not_core in \<open>force simp: image_iff\<close>)

lemma gate_table_keys:
  "fst ` set (gate_table classes packs) = fst ` set CORE_GATES \<union> {mode_gate (tdd_mode classes)}
     \<union> (\<Union>c \<in> set classes. fst ` set (class_gates c)) \<union> (\<Union>p \<in> set packs. fst ` set (pack_gates p))"
proof -
  have "fst ` set (base_gates classes) = fst ` set CORE_GATES \<union> {mode_gate (tdd_mode classes)}"
    unfolding base_gates_eq by (force simp: image_iff)
  then show ?thesis by (simp add: gate_table_def Let_def add_default_keys base_gates_def [symmetric] image_Un image_UN)
qed

lemma gate_table_hard: "e \<in> set (gate_table classes packs) \<Longrightarrow> is_hard_entry e"
proof -
  assume "e \<in> set (gate_table classes packs)"
  then have "e \<in> set (base_gates classes) \<union> set (concat (map class_gates classes) @ concat (map pack_gates packs))"
    using add_default_sub unfolding gate_table_def Let_def base_gates_def [symmetric] by blast
  then show ?thesis
    by (auto simp: base_gates_eq class_gates_def pack_gates_def split: option.splits)
qed

lemma core_in_table: "(i, de) \<in> set CORE_GATES \<Longrightarrow> (i, hard_gate i de ''constitutional'') \<in> set (gate_table classes packs)"
proof -
  assume "(i, de) \<in> set CORE_GATES"
  then have "(i, hard_gate i de ''constitutional'') \<in> set (base_gates classes)" unfolding base_gates_eq by force
  then show ?thesis using add_default_keeps unfolding gate_table_def Let_def base_gates_def [symmetric] by blast
qed

section \<open>Weakening\<close>

text \<open>An entry of a dictionary somewhere inside a value.\<close>

inductive entry_in :: "pyval \<Rightarrow> string \<Rightarrow> pyval \<Rightarrow> bool" where
  here: "(k, x) \<in> set kvs \<Longrightarrow> entry_in (PyDict kvs) k x"
| deeper: "(k', v) \<in> set kvs \<Longrightarrow> entry_in v k x \<Longrightarrow> entry_in (PyDict kvs) k x"
| element: "v \<in> set xs \<Longrightarrow> entry_in v k x \<Longrightarrow> entry_in (PyList xs) k x"

lemma walk_finds: "entry_in v k x \<Longrightarrow> (fold_key k, x) \<in> set (walk v)"
  by (induction rule: entry_in.induct) (auto intro: rev_bexI)

lemma weakening_distinct: "distinct (map fst WEAKENING_RULES)"
  by code_simp

lemma not_weakened:
  assumes "validate_project_contract contract = Inr ()" and "entry_in contract k x" and "(fold_key k, forbidden, rule) \<in> set WEAKENING_RULES"
  shows "\<not> py_eq x (PyBool forbidden)"
proof
  assume "py_eq x (PyBool forbidden)"
  moreover have "map_of WEAKENING_RULES (fold_key k) = Some (forbidden, rule)" using assms(3) weakening_distinct by simp
  ultimately have "weakens (fold_key k, x)" by (simp add: weakens_def)
  then show False using assms(1) walk_finds [OF assms(2)] by (auto simp: validate_project_contract_def guards list_ex_iff)
qed

section \<open>The compiled contract\<close>

definition gate_ids :: "pyval \<Rightarrow> string set" where
  "gate_ids compiled = set (strings (PyList (map (\<lambda>g. dget g ''id'') (items (dget compiled ''gates'')))))"

definition classes_of :: "pyval \<Rightarrow> string list" where
  "classes_of compiled = strings (dget (dget compiled ''task'') ''classes'')"

lemma strings_py [simp]: "strings (py_strings xs) = xs"
  by (simp add: strings_def py_strings_def comp_def)

lemma compile_contract_Inr:
  assumes "compile_contract contract declared paths risk prior = Inr compiled"
  obtains classes where "validate_project_contract contract = Inr ()" "set (map upper (declared @ prior)) \<subseteq> set TASK_CLASSES"
    "classes = task_classes contract declared prior (sorted_set paths)" "classes_of compiled = classes"
    "dget (dget compiled ''task'') ''tdd_mode'' = PyStr (tdd_mode classes)"
    "dget compiled ''gates'' = PyList (map snd (sort_key fst (gate_table classes (sorted_set (strings (pack_list contract))))))"
    "dget compiled ''constitution'' = constitutional_contract"
    "\<exists>reference. dget compiled ''scope'' = scope_of contract reference"
    "dget (dget compiled ''review'') ''independent_required'' = PyBool True"
    "dget (dget compiled ''review'') ''specialist_security'' = PyBool (''SECURITY'' \<in> set classes)"
    "dget compiled ''digest'' = PyStr (policy_digest compiled)" "is_dict compiled"
proof -
  let ?c = "task_classes contract declared prior (sorted_set paths)"
  show thesis
    by (rule that [of ?c]) (use assms in \<open>auto simp: compile_contract_def Let_def guards classes_of_def list_all_iff\<close>)
qed

lemma sorted_set_set [simp]: "set (sorted_set xs) = set xs"
  by (simp add: sorted_set_def)

lemma task_classes_set: "set (task_classes contract declared prior paths)
    = (if named_classes contract declared prior paths = [] then {''FEATURE''} else set (named_classes contract declared prior paths))"
  by (simp add: task_classes_def Let_def)

lemma hard_gate_id: "is_hard_entry e \<Longrightarrow> dget (snd e) ''id'' = PyStr (fst e)"
  by (auto simp: is_hard_entry_def hard_gate_def)

lemma gate_ids_eq:
  assumes "dget compiled ''gates'' = PyList (map snd (sort_key fst (gate_table classes packs)))"
  shows "gate_ids compiled = fst ` set (gate_table classes packs)"
proof -
  have "(\<lambda>e. case dget (snd e) ''id'' of PyStr s \<Rightarrow> s | _ \<Rightarrow> []) ` set (gate_table classes packs) = fst ` set (gate_table classes packs)"
    by (rule image_cong) (use gate_table_hard hard_gate_id in \<open>auto simp: split_beta\<close>)
  then show ?thesis unfolding gate_ids_def assms by (simp add: strings_def image_image comp_def)
qed

lemma gate_shape:
  assumes "dget compiled ''gates'' = PyList (map snd (sort_key fst (gate_table classes packs)))" and "g \<in> set (items (dget compiled ''gates''))"
  shows "dget g ''severity'' = PyStr ''HARD'' \<and> dget g ''waivable'' = PyBool False"
proof -
  obtain e where "e \<in> set (gate_table classes packs)" "g = snd e" using assms by auto
  from gate_table_hard [OF this(1)] this(2) show ?thesis by (auto simp: is_hard_entry_def hard_gate_def)
qed

section \<open>Properties\<close>

text \<open>
  C11: What compiles is not weaker than the constitution. If \<open>compile_contract\<close> returns, no entry of the
  contract, at any depth and however its key is capitalised or hyphenated, has a value that weakens the
  constitution; the result carries the constitution, every core gate, a gate for the TDD mode of its
  classes, and every gate of its classes and packs, all of them hard and not waivable; its scope denies the
  framework and the agent instructions; an independent review is required, and a security review when a
  changed path or a class asks for one; and its digest is intact.
\<close>

theorem compiled_contract_sound:
  assumes "compile_contract contract declared paths risk prior = Inr compiled"
  shows "(\<forall>k x forbidden rule. entry_in contract k x \<longrightarrow> (fold_key k, forbidden, rule) \<in> set WEAKENING_RULES \<longrightarrow> \<not> py_eq x (PyBool forbidden))
    \<and> dget compiled ''constitution'' = constitutional_contract
    \<and> (\<exists>classes. classes_of compiled = classes \<and> classes \<noteq> [] \<and> set (classify_paths paths) \<subseteq> set classes
        \<and> gate_ids compiled = fst ` set CORE_GATES \<union> {mode_gate (tdd_mode classes)} \<union> (\<Union>c \<in> set classes. fst ` set (class_gates c))
            \<union> (\<Union>p \<in> set (strings (pack_list contract)). fst ` set (pack_gates p))
        \<and> dget (dget compiled ''review'') ''specialist_security'' = PyBool (''SECURITY'' \<in> set classes))
    \<and> (\<forall>g \<in> set (items (dget compiled ''gates'')). dget g ''severity'' = PyStr ''HARD'' \<and> dget g ''waivable'' = PyBool False)
    \<and> {''.agents/**'', ''**/AGENTS.md''} \<union> set (strings (boundary contract ''immutable'')) = set (strings (dget (dget compiled ''scope'') ''deny''))
    \<and> dget (dget compiled ''review'') ''independent_required'' = PyBool True
    \<and> dget compiled ''digest'' = PyStr (policy_digest compiled)"
proof -
  obtain classes where c: "validate_project_contract contract = Inr ()" "classes = task_classes contract declared prior (sorted_set paths)" "classes_of compiled = classes"
    "dget compiled ''gates'' = PyList (map snd (sort_key fst (gate_table classes (sorted_set (strings (pack_list contract))))))"
    "dget compiled ''constitution'' = constitutional_contract" "\<exists>reference. dget compiled ''scope'' = scope_of contract reference"
    "dget (dget compiled ''review'') ''independent_required'' = PyBool True"
    "dget (dget compiled ''review'') ''specialist_security'' = PyBool (''SECURITY'' \<in> set classes)" "dget compiled ''digest'' = PyStr (policy_digest compiled)"
    using compile_contract_Inr [OF assms] by metis
  have "set classes \<noteq> {}" unfolding c(2) task_classes_set by (simp split: if_split)
  then have "classes \<noteq> []" by auto
  moreover have "set (classify_paths paths) \<subseteq> set classes" unfolding c(2) task_classes_set by (auto simp: named_classes_def classify_paths_def)
  moreover have "set (strings (dget (dget compiled ''scope'') ''deny'')) = {''.agents/**'', ''**/AGENTS.md''} \<union> set (strings (boundary contract ''immutable''))"
    using c(6) by (auto simp: scope_of_def)
  ultimately show ?thesis
    using c(3,5,7-9) gate_ids_eq [OF c(4)] gate_table_keys [of classes "sorted_set (strings (pack_list contract))"] gate_shape [OF c(4)] not_weakened [OF c(1)]
    by simp
qed
text \<open>How much evidence a TDD mode asks for.\<close>

definition strictness :: "string \<Rightarrow> nat" where
  "strictness tdd = (if tdd = ''RED_REQUIRED'' then 2 else if tdd = ''CHARACTERIZATION_REQUIRED'' then 1 else 0)"

lemma rank_mono: "A \<subseteq> B \<Longrightarrow> (if A = {} then 0 else if A = {r} then 1 else 2 :: nat) \<le> (if B = {} then 0 else if B = {r} then 1 else 2)"
  by auto

lemma tdd_mode_mono:
  assumes "set cs \<subseteq> set ds"
  shows "strictness (tdd_mode cs) \<le> strictness (tdd_mode ds)"
proof -
  let ?b = "\<lambda>xs. set (filter (\<lambda>c. c \<notin> {''DOCUMENTATION'', ''TEST_ONLY''}) xs)"
  have m: "strictness (tdd_mode xs) = (if ?b xs = {} then 0 else if ?b xs = {''REFACTOR''} then 1 else 2)" for xs
    unfolding tdd_mode_def strictness_def Let_def by (simp only: set_empty) simp
  have "?b cs \<subseteq> ?b ds" using assms by auto
  then show ?thesis unfolding m by (rule rank_mono)
qed

definition MODE_GATES :: "string set" where
  "MODE_GATES = {''RED_EVIDENCE_CURRENT'', ''CHARACTERIZATION_CURRENT'', ''NON_BEHAVIORAL_TEST_FIRST''}"

text \<open>
  Knowing more about a task never weakens its contract. Compile one contract twice, the second time
  with all the classes and changed paths of the first and possibly more. If the first compilation had a
  class to go by, the second has all its classes, asks for at least as strict a TDD mode, and has all its
  gates apart from the gate that names the mode. (With no class at all the compiler assumes a feature, so
  there the gates may differ.)
\<close>

theorem contract_monotone:
  assumes "compile_contract contract declared paths risk prior = Inr x" and "compile_contract contract declared' paths' risk' prior' = Inr y"
    and "set (declared @ prior) \<subseteq> set (declared' @ prior')" and "set paths \<subseteq> set paths'"
    and "named_classes contract declared prior (sorted_set paths) \<noteq> []"
  shows "set (classes_of x) \<subseteq> set (classes_of y) \<and> strictness (tdd_mode (classes_of x)) \<le> strictness (tdd_mode (classes_of y))
    \<and> gate_ids x - MODE_GATES \<subseteq> gate_ids y"
proof -
  let ?n = "named_classes contract declared prior (sorted_set paths)" and ?n' = "named_classes contract declared' prior' (sorted_set paths')"
  obtain cs where c: "cs = task_classes contract declared prior (sorted_set paths)" "classes_of x = cs"
      "dget x ''gates'' = PyList (map snd (sort_key fst (gate_table cs (sorted_set (strings (pack_list contract))))))"
    using compile_contract_Inr [OF assms(1)] by metis
  obtain ds where d: "ds = task_classes contract declared' prior' (sorted_set paths')" "classes_of y = ds"
      "dget y ''gates'' = PyList (map snd (sort_key fst (gate_table ds (sorted_set (strings (pack_list contract))))))"
    using compile_contract_Inr [OF assms(2)] by metis
  have n: "set ?n \<subseteq> set ?n'" using assms(3,4) by (auto simp: named_classes_def classify_paths_def)
  then have "?n' \<noteq> []" using assms(5) by (metis set_empty subset_empty)
  then have s: "set cs \<subseteq> set ds" unfolding c(1) d(1) task_classes_set using n assms(5) by simp
  have "mode_gate m \<in> MODE_GATES" for m by (simp add: mode_gate_def MODE_GATES_def)
  then have "gate_ids x - MODE_GATES \<subseteq> gate_ids y"
    unfolding gate_ids_eq [OF c(3)] gate_ids_eq [OF d(3)] gate_table_keys using s by blast
  then show ?thesis using s tdd_mode_mono [OF s] unfolding c(2) d(2) by blast
qed

definition sample_contract :: pyval where
  "sample_contract = PyDict [(''schema'', PyInt 1), (''project'', PyDict [(''name'', PyStr ''lab'')]), (''policy'', PyDict [(''packs'', PyList [PyStr ''database''])])]"

lemma sample_compiles: "\<exists>x. compile_contract sample_contract [''refactor''] [] (PyStr ''low'') [] = Inr x"
    and sample_compiles_more: "\<exists>x. compile_contract sample_contract [''refactor'', ''feature''] [''src/auth.py''] (PyStr ''low'') [] = Inr x"
proof -
  have v: "validate_project_contract sample_contract = Inr ()" by code_simp
  have r: "dget sample_contract ''references'' = PyNone" by (simp add: sample_contract_def)
  have e: "validate_references PyNone False = Inr []" "sorted_paths [] = Inr (py_strings [])" by code_simp+
  have c: "list_all (\<lambda>c. c \<in> set TASK_CLASSES) (map upper ([''refactor''] @ []))" "list_all (\<lambda>c. c \<in> set TASK_CLASSES) (map upper ([''refactor'', ''feature''] @ []))" by code_simp+
  have n: "''REIMPLEMENTATION'' \<notin> set (task_classes sample_contract [''refactor''] [] (sorted_set []))"
      "''REIMPLEMENTATION'' \<notin> set (task_classes sample_contract [''refactor'', ''feature''] [] (sorted_set [''src/auth.py'']))" by code_simp+
  show "\<exists>x. compile_contract sample_contract [''refactor''] [] (PyStr ''low'') [] = Inr x"
    unfolding compile_contract_def v r using c(1) n(1) e by (simp add: Let_def)
  show "\<exists>x. compile_contract sample_contract [''refactor'', ''feature''] [''src/auth.py''] (PyStr ''low'') [] = Inr x"
    unfolding compile_contract_def v r using c(2) n(2) e by (simp add: Let_def)
qed

theorem compiled_contract_sound_witness:
  "\<exists>x. compile_contract sample_contract [''refactor''] [] (PyStr ''low'') [] = Inr x \<and> dget x ''digest'' = PyStr (policy_digest x)"
  using sample_compiles compiled_contract_sound by blast

theorem contract_monotone_witness:
  "\<exists>x y. compile_contract sample_contract [''refactor''] [] (PyStr ''low'') [] = Inr x \<and> gate_ids x - MODE_GATES \<subseteq> gate_ids y"
proof -
  obtain x y where xy: "compile_contract sample_contract [''refactor''] [] (PyStr ''low'') [] = Inr x"
      "compile_contract sample_contract [''refactor'', ''feature''] [''src/auth.py''] (PyStr ''low'') [] = Inr y"
    using sample_compiles sample_compiles_more by blast
  have "named_classes sample_contract [''refactor''] [] (sorted_set []) \<noteq> []" by (simp add: named_classes_def)
  from contract_monotone [OF xy _ _ this] show ?thesis using xy(1) by auto
qed

end
