(* ===== verification/Text_Lines.thy ===== *)
theory Text_Lines
  imports Py_Prelude
begin

text \<open>
  \<open>str.splitlines\<close>: the line boundaries among the characters below 256, with a carriage return and a line
  feed after it counting as one.
\<close>

definition is_break :: "char \<Rightarrow> bool" where
  "is_break c \<longleftrightarrow> (let n = of_char c :: nat in (10 \<le> n \<and> n \<le> 13) \<or> (28 \<le> n \<and> n \<le> 30) \<or> n = 133)"

definition lf :: char where "lf = CHR 0x0A"
definition cr :: char where "cr = CHR 0x0D"

text \<open>\<open>splitlines(keepends=True)\<close>, and the text of a line without its boundary.\<close>

fun keep_lines :: "string \<Rightarrow> string list" where
  "keep_lines [] = []"
| "keep_lines (c # s) =
    (if c = cr \<and> s \<noteq> [] \<and> hd s = lf then [cr, lf] # keep_lines (tl s)
     else if is_break c then [c] # keep_lines s
     else (case keep_lines s of [] \<Rightarrow> [[c]] | l # ls \<Rightarrow> (c # l) # ls))"

definition line_text :: "string \<Rightarrow> string" where
  "line_text l = takeWhile (\<lambda>c. \<not> is_break c) l"

definition split_lines :: "string \<Rightarrow> string list" where
  "split_lines s = map line_text (keep_lines s)"

lemma is_break_simps [simp]: "is_break lf" "is_break cr" "lf \<noteq> cr" "cr \<noteq> lf"
  by (simp_all add: is_break_def lf_def cr_def)

lemma keep_lines_concat: "concat (keep_lines s) = s"
proof (induction s rule: keep_lines.induct)
  case (2 c s)
  consider "c = cr \<and> s \<noteq> [] \<and> hd s = lf" | "\<not> (c = cr \<and> s \<noteq> [] \<and> hd s = lf)" "is_break c" | "\<not> (c = cr \<and> s \<noteq> [] \<and> hd s = lf)" "\<not> is_break c" by blast
  then show ?case
  proof cases
    case 1
    then have "lf # tl s = s" by (metis list.collapse)
    then show ?thesis using 2(1) 1 by simp
  next
    case 3
    then show ?thesis using 2(3) by (cases "keep_lines s") auto
  qed (use 2(2) in auto)
qed simp

lemma keep_lines_nonempty: "l \<in> set (keep_lines s) \<Longrightarrow> l \<noteq> []"
proof (induction s rule: keep_lines.induct)
  case (2 c s)
  then show ?case by (auto split: if_splits list.splits)
qed simp

lemma keep_lines_line: "list_all (\<lambda>c. \<not> is_break c) l \<Longrightarrow> keep_lines (l @ lf # s) = (l @ [lf]) # keep_lines s"
proof (induction l)
  case (Cons c l)
  then have "c \<noteq> cr" by auto
  then show ?case using Cons by simp
qed simp

lemma line_text_line [simp]: "list_all (\<lambda>c. \<not> is_break c) l \<Longrightarrow> line_text (l @ [lf]) = l"
  by (simp add: line_text_def list_all_iff takeWhile_append)

lemma split_lines_lines:
  "\<forall>l \<in> set ls. list_all (\<lambda>c. \<not> is_break c) l \<Longrightarrow> split_lines (concat (map (\<lambda>l. l @ [lf]) ls)) = ls"
  by (induction ls) (auto simp: split_lines_def keep_lines_line)

end
