(* ===== verification/Manifest.thy ===== *)
theory Manifest
  imports Text_Lines Governance Versions Atomic Sealing
begin

text \<open>
  The manifest of a deployed framework, \<open>agentinfra/manifest.py\<close>: which files of \<open>.agents\<close> are immutable,
  the text that lists them with their digests, its parser, and the verification of a tree against the
  manifest and against the release anchor.
\<close>

section \<open>Paths of the distribution\<close>

definition MUTABLE_PREFIXES :: "string list" where
  "MUTABLE_PREFIXES = [''.agents/runtime/'', ''.agents/persistent/'', ''.agents/local-modules/'', ''.agents/laws/project/'']"

definition MUTABLE_EXACT :: "string list" where
  "MUTABLE_EXACT = [''.agents/project.md'', ''.agents/MANIFEST.sha256'']"

definition FORBIDDEN_PARTS :: "string list" where
  "FORBIDDEN_PARTS = [''__pycache__'', ''.pytest_cache'', ''.mypy_cache'', ''.ruff_cache'']"

definition FORBIDDEN_SUFFIXES :: "string list" where
  "FORBIDDEN_SUFFIXES = [''.pyc'', ''.pyo'', ''.log'', ''.tmp'', ''.swp'']"

definition FORBIDDEN_NAMES :: "string list" where
  "FORBIDDEN_NAMES = [''.coverage'', ''coverage.xml'', ''subagent-lease.json'', ''.state.lock'', ''.evidence.lock'']"

text \<open>\<open>PurePosixPath.as_posix\<close> of a relative path; the empty path is a dot.\<close>

definition posix_text :: "string list \<Rightarrow> string" where
  "posix_text ps = (if ps = [] then ''.'' else posix ps)"

definition safe_relative :: "string \<Rightarrow> bool \<Rightarrow> string res" where
  "safe_relative value require_agents =
    (if value = [] \<or> CHR 0x5C \<in> set value \<or> CHR 0x00 \<in> set value then Inl (ManifestError ''non-canonical manifest path'')
     else if startswith value [slash] \<or> ''..'' \<in> set (path_parts value) then Inl (ManifestError ''unsafe manifest path'')
     else if require_agents \<and> (path_parts value = [] \<or> hd (path_parts value) \<noteq> ''.agents'') then Inl (ManifestError ''manifest path is outside .agents distribution'')
     else Inr (posix_text (path_parts value)))"

definition is_mutable :: "string \<Rightarrow> bool" where
  "is_mutable relative \<longleftrightarrow> relative \<in> set MUTABLE_EXACT \<or> list_ex (startswith relative) MUTABLE_PREFIXES"

definition is_forbidden :: "string \<Rightarrow> bool" where
  "is_forbidden relative \<longleftrightarrow> (let ps = path_parts relative; name = (if ps = [] then [] else last ps) in
     list_ex (\<lambda>p. p \<in> set FORBIDDEN_PARTS) ps \<or> casefold (suffix_of name) \<in> set FORBIDDEN_SUFFIXES \<or> name \<in> set FORBIDDEN_NAMES)"

section \<open>Entries and their text\<close>

text \<open>Everything below \<open>.agents\<close> that is neither mutable nor a generated artefact, in the order of the texts.\<close>

definition immutable_paths :: "disk \<Rightarrow> path list" where
  "immutable_paths d = sort_key posix (filter (\<lambda>p. under_agents p \<and> p \<noteq> agents_dir \<and> \<not> is_mutable (posix p) \<and> \<not> is_forbidden (posix p)) (remdups (map fst d)))"

definition manifest_entries :: "disk \<Rightarrow> (string \<times> string) list res" where
  "manifest_entries d =
    (if \<not> is_dir d agents_dir then Inl (ManifestError ''.agents distribution root is missing or symlinked'')
     else if list_ex (is_path_redirect d) (immutable_paths d) then Inl (ManifestError ''immutable distribution path is a symlink'')
     else Inr (List.map_filter (\<lambda>p. map_option (\<lambda>b. (posix p, sha256 b)) (read d p)) (immutable_paths d)))"

definition manifest_line :: "string \<times> string \<Rightarrow> string" where
  "manifest_line e = snd e @ ''  '' @ fst e @ [lf]"

definition render_entries :: "(string \<times> string) list \<Rightarrow> string" where
  "render_entries es = concat (map manifest_line es)"

definition render :: "disk \<Rightarrow> string res" where
  "render d = res_bind (manifest_entries d) (\<lambda>es. Inr (render_entries es))"

text \<open>\<open>([0-9a-f]{64})  (\S(?:.*\S)?)\<close>: the dot matches anything but a line feed, and no line has one.\<close>

definition match_line :: "string \<Rightarrow> (string \<times> string) option" where
  "match_line line = (let digest = take 64 line; raw = drop 66 line in
     if is_sha256 digest \<and> take 2 (drop 64 line) = ''  '' \<and> raw \<noteq> [] \<and> \<not> is_space (hd raw) \<and> \<not> is_space (last raw) then Some (digest, raw) else None)"

fun parse_lines :: "(string \<times> string) list \<Rightarrow> string list \<Rightarrow> (string \<times> string) list res" where
  "parse_lines result [] = Inr result"
| "parse_lines result (line # rest) = (case match_line line of
      None \<Rightarrow> Inl (ManifestError ''malformed manifest line'')
    | Some (digest, raw_path) \<Rightarrow> res_bind (safe_relative raw_path True) (\<lambda>relative.
        if relative \<in> fst ` set result then Inl (ManifestError ''duplicate manifest path'')
        else if result \<noteq> [] \<and> relative \<le> fst (last result) then Inl (ManifestError ''manifest paths are not in strict deterministic order'')
        else if is_mutable relative \<or> is_forbidden relative then Inl (ManifestError ''manifest contains excluded/generated path'')
        else parse_lines (result @ [(relative, digest)]) rest))"

definition parse_manifest :: "string \<Rightarrow> (string \<times> string) list res" where
  "parse_manifest text =
    (if text \<noteq> [] \<and> last text \<noteq> lf then Inl (ManifestError ''manifest must end with a newline'')
     else res_bind (parse_lines [] (split_lines text)) (\<lambda>result.
       if result = [] then Inl (ManifestError ''manifest must not be empty'') else Inr result))"

section \<open>Verification\<close>

definition forbidden_artifacts :: "disk \<Rightarrow> string list" where
  "forbidden_artifacts d = sort (filter (\<lambda>s. \<not> list_ex (startswith s) [''.agents/runtime/'', ''.agents/persistent/''] \<and> is_forbidden s)
     (map posix (filter (\<lambda>p. under_agents p \<and> p \<noteq> agents_dir) (remdups (map fst d)))))"

text \<open>\<open>VERSION_RE\<close>.\<close>

definition is_release_version :: "string \<Rightarrow> bool" where
  "is_release_version s \<longleftrightarrow> (case split_on (CHR ''.'') s of [a, b, c] \<Rightarrow> is_number a \<and> is_number b \<and> is_number c | _ \<Rightarrow> False)"

definition release_anchor :: "disk \<Rightarrow> pyval res" where
  "release_anchor d =
    (if is_path_redirect d [''RELEASE.json''] then Inl (ManifestError ''release anchor must not be a symlink'')
     else if \<not> exists d [''RELEASE.json''] then Inl (ManifestError ''release anchor missing'')
     else case json_at d [''RELEASE.json''] of
       None \<Rightarrow> Inl (ManifestError ''invalid release anchor JSON'')
     | Some value \<Rightarrow>
         if \<not> is_dict value then Inl (ManifestError ''invalid release anchor schema'')
         else if unhashable (dget value ''schema'') then Inl TypeErr
         else res_bind (check_all
           [guard ((py_eq (dget value ''schema'') (PyInt 1) \<or> py_eq (dget value ''schema'') (PyInt 2))
              \<and> is_sha256 (py_str (dget_or value ''manifest_sha256'' (PyStr []))) \<and> is_release_version (py_str (dget_or value ''version'' (PyStr []))))
              (ManifestError ''invalid release anchor schema''),
            guard (py_eq (dget value ''schema'') (PyInt 2) \<longrightarrow> is_sha256 (py_str (dget_or value ''content_sha256'' (PyStr [])))
              \<and> dget value ''source_authority'' = PyStr ''source-tree-outside-.agents'' \<and> dget value ''deployment'' = PyStr ''manual-human-action-required'')
              (ManifestError ''invalid source-deployment release anchor schema'')]) (\<lambda>_. Inr value))"

definition nul :: string where "nul = [CHR 0x00]"

text \<open>The bytes hashed for one deployed file; a listed file that is no file raises \<open>OSError\<close>.\<close>

definition content_chunk :: "disk \<Rightarrow> string \<Rightarrow> string res" where
  "content_chunk d relative = (let ps = path_parts relative in
     if ps = [] \<or> hd ps \<noteq> ''.agents'' \<or> length ps < 2 then Inl (ManifestError ''release content path is outside .agents'')
     else case read d ps of None \<Rightarrow> Inl (OSErr ''cannot read deployed file'')
       | Some payload \<Rightarrow> Inr (posix (tl ps) @ nul @ nat_digits (length payload) @ nul @ payload))"

definition deployment_content_sha256 :: "disk \<Rightarrow> (string \<times> string) list \<Rightarrow> string res" where
  "deployment_content_sha256 d expected = res_bind (map_res (content_chunk d) (sort (map fst expected))) (\<lambda>chunks. Inr (sha256 (concat chunks)))"

record manifest_report =
  mr_missing :: "string list"
  mr_extra :: "string list"
  mr_changed :: "string list"
  mr_forbidden :: "string list"
  mr_manifest :: string

definition check_anchor :: "disk \<Rightarrow> (string \<times> string) list \<Rightarrow> string \<Rightarrow> unit res" where
  "check_anchor d expected manifest_digest = res_bind (release_anchor d) (\<lambda>anchor.
     res_bind (guard (dget anchor ''manifest_sha256'' = PyStr manifest_digest) (ManifestError ''regeneratable manifest does not match release-bound anchor'')) (\<lambda>_.
     case read d [''.agents'', ''VERSION''] of
       None \<Rightarrow> Inl (OSErr ''cannot read VERSION'')
     | Some version \<Rightarrow> res_bind (guard (dget anchor ''version'' = PyStr (strip version)) (ManifestError ''release anchor version does not match framework VERSION'')) (\<lambda>_.
         whenever (py_eq (dget anchor ''schema'') (PyInt 2)) (res_bind (deployment_content_sha256 d expected) (\<lambda>digest.
           guard (dget anchor ''content_sha256'' = PyStr digest) (ManifestError ''release content digest does not match deployed immutable files''))))))"

definition manifest_path :: path where "manifest_path = [''.agents'', ''MANIFEST.sha256'']"

text \<open>The body of \<open>verify\<close>, which raises what the handler turns into a failed verification.\<close>

definition verify_body :: "disk \<Rightarrow> bool \<Rightarrow> string option \<Rightarrow> (bool \<times> manifest_report) res" where
  "verify_body d require_anchor external =
    (if is_path_redirect d manifest_path then Inl (ManifestError ''manifest must not be a symlink'')
     else case read d manifest_path of
       None \<Rightarrow> Inl (OSErr ''cannot read manifest'')
     | Some text \<Rightarrow>
        res_bind (parse_manifest text) (\<lambda>expected.
        res_bind (manifest_entries d) (\<lambda>actual.
        let forbidden = forbidden_artifacts d;
            missing = sort (filter (\<lambda>k. k \<notin> fst ` set actual) (map fst expected));
            extra = sort (filter (\<lambda>k. k \<notin> fst ` set expected) (map fst actual));
            changed = sort (filter (\<lambda>k. map_of actual k \<noteq> None \<and> map_of expected k \<noteq> map_of actual k) (map fst expected)) in
        res_bind (guard (case external of None \<Rightarrow> True | Some e \<Rightarrow> is_sha256 e \<and> sha256 text = e) (ManifestError ''manifest does not match caller-supplied external trust anchor'')) (\<lambda>_.
        res_bind (whenever (require_anchor \<or> exists d [''RELEASE.json'']) (check_anchor d expected (sha256 text))) (\<lambda>_.
        Inr (missing = [] \<and> extra = [] \<and> changed = [] \<and> forbidden = [],
          \<lparr>mr_missing = missing, mr_extra = extra, mr_changed = changed, mr_forbidden = forbidden, mr_manifest = sha256 text\<rparr>))))))"

definition verify_manifest :: "disk \<Rightarrow> bool \<Rightarrow> string option \<Rightarrow> bool res" where
  "verify_manifest d require_anchor external = (case verify_body d require_anchor external of
      Inr (ok, report) \<Rightarrow> Inr ok | Inl (ManifestError m) \<Rightarrow> Inr False | Inl (OSErr m) \<Rightarrow> Inr False | Inl e \<Rightarrow> Inl e)"

section \<open>Regeneration\<close>

text \<open>\<open>regenerate\<close> and \<open>write_release_anchor\<close>; the lock of the former is left out.\<close>

definition regenerate :: "path \<Rightarrow> bool \<Rightarrow> string io" where
  "regenerate root authorized d =
    (if \<not> authorized then (d, Inl (ManifestError ''manifest regeneration requires explicit maintenance authorization''))
     else case render d of
       Inl e \<Rightarrow> (d, Inl e)
     | Inr content \<Rightarrow> (case atomic_write_bytes root d (Rel manifest_path) content (Some 420) of
         (d', Inl e) \<Rightarrow> (d', Inl e)
       | (d', Inr _) \<Rightarrow> (d', res_bind (parse_manifest content) (\<lambda>_. Inr (sha256 content)))))"

definition write_release_anchor :: "path \<Rightarrow> string \<Rightarrow> bool \<Rightarrow> pyval io" where
  "write_release_anchor root now authorized d =
    (if \<not> authorized then (d, Inl (ManifestError ''release-anchor update requires explicit release authorization''))
     else case (read d manifest_path, read d [''.agents'', ''VERSION'']) of
       (Some text, Some version) \<Rightarrow>
         (case parse_manifest text of
            Inl e \<Rightarrow> (d, Inl e)
          | Inr _ \<Rightarrow> (let anchor = PyDict [(''schema'', PyInt 1), (''version'', PyStr (strip version)), (''manifest_sha256'', PyStr (sha256 text)), (''created_utc'', PyStr now)] in
              case atomic_write_bytes root d (Rel [''RELEASE.json'']) (json_text anchor) (Some 420) of (d', Inl e) \<Rightarrow> (d', Inl e) | (d', Inr _) \<Rightarrow> (d', Inr anchor)))
     | (Some text, None) \<Rightarrow> (d, res_bind (parse_manifest text) (\<lambda>_. Inl (OSErr ''cannot read VERSION'')))
     | _ \<Rightarrow> (d, Inl (OSErr ''cannot read manifest'')))"

section \<open>Reading back what was rendered\<close>

text \<open>A path whose text the manifest can hold on one line.\<close>

definition listable :: "path \<Rightarrow> bool" where
  "listable p \<longleftrightarrow> normal p \<and> plain p \<and> under_agents p \<and> CHR 0x5C \<notin> set (posix p) \<and> CHR 0x00 \<notin> set (posix p)
     \<and> list_all (\<lambda>c. \<not> is_break c) (posix p) \<and> \<not> is_space (last (posix p))"

lemma posix_agents: "under_agents p \<Longrightarrow> posix p \<noteq> [] \<and> hd (posix p) = CHR ''.''"
  by (cases p rule: remdups_adj.cases) (auto simp: under_agents_def posix_def)

lemma listable_safe: "listable p \<Longrightarrow> safe_relative (posix p) True = Inr (posix p)"
  using posix_agents [of p] path_parts_posix [of p] posix_relative [of p]
  by (auto simp: listable_def safe_relative_def plain_def under_agents_def posix_text_def)

definition entry_ok :: "string \<times> string \<Rightarrow> bool" where
  "entry_ok e \<longleftrightarrow> (\<exists>p. listable p \<and> fst e = posix p) \<and> is_sha256 (snd e) \<and> \<not> is_mutable (fst e) \<and> \<not> is_forbidden (fst e)"

lemma hex_no_break: "is_hex c \<Longrightarrow> \<not> is_break c"
  by (auto simp: is_hex_def is_digit_def is_break_def Let_def less_eq_char_def)

lemma entry_line:
  assumes "entry_ok e"
  shows "list_all (\<lambda>c. \<not> is_break c) (snd e @ ''  '' @ fst e)" and "match_line (snd e @ ''  '' @ fst e) = Some (snd e, fst e)"
proof -
  obtain p where p: "listable p" "fst e = posix p" using assms by (auto simp: entry_ok_def)
  have s: "length (snd e) = 64" "list_all is_hex (snd e)" using assms by (auto simp: entry_ok_def is_sha256_def)
  have b: "\<not> is_break (CHR '' '')" by (simp add: is_break_def)
  show "list_all (\<lambda>c. \<not> is_break c) (snd e @ ''  '' @ fst e)"
    using s(2) hex_no_break p b by (auto simp: listable_def list_all_iff)
  have "\<not> is_space (CHR ''.'')" by (simp add: is_space_def)
  then show "match_line (snd e @ ''  '' @ fst e) = Some (snd e, fst e)"
    using s p posix_agents [of p] assms by (auto simp: match_line_def Let_def entry_ok_def listable_def)
qed

lemma parse_lines_ok:
  assumes "\<forall>e \<in> set es. entry_ok e" and "sorted_wrt (<) (map fst (done @ es))"
  shows "parse_lines done (map (\<lambda>e. snd e @ ''  '' @ fst e) es) = Inr (done @ es)"
  using assms
proof (induction es arbitrary: "done")
  case (Cons e es)
  obtain p where p: "listable p" "fst e = posix p" using Cons.prems(1) by (auto simp: entry_ok_def)
  have sr: "safe_relative (fst e) True = Inr (fst e)" using listable_safe [OF p(1)] p(2) by simp
  have lt: "\<forall>x \<in> set done. fst x < fst e" using Cons.prems(2) by (auto simp: sorted_wrt_append)
  then have "fst e \<notin> fst ` set done" by auto
  moreover have "\<not> fst e \<le> fst (last done)" if "done \<noteq> []" using lt that by (simp add: not_le)
  moreover have "\<not> is_mutable (fst e)" "\<not> is_forbidden (fst e)" using Cons.prems(1) by (auto simp: entry_ok_def)
  moreover have "parse_lines (done @ [e]) (map (\<lambda>e. snd e @ ''  '' @ fst e) es) = Inr ((done @ [e]) @ es)"
    using Cons.prems by (intro Cons.IH) auto
  ultimately show ?case using entry_line(2) [of e] sr Cons.prems(1) by auto
qed simp

lemma render_parse:
  assumes "\<forall>e \<in> set es. entry_ok e" and "sorted_wrt (<) (map fst es)" and "es \<noteq> []"
  shows "parse_manifest (render_entries es) = Inr es"
proof -
  have r: "render_entries es = concat (map (\<lambda>l. l @ [lf]) (map (\<lambda>e. snd e @ ''  '' @ fst e) es))"
    by (simp add: render_entries_def manifest_line_def [abs_def] comp_def)
  have "split_lines (render_entries es) = map (\<lambda>e. snd e @ ''  '' @ fst e) es"
    unfolding r using entry_line(1) assms(1) by (intro split_lines_lines) auto
  moreover have "last (render_entries es) = lf" using assms(3) by (cases es rule: rev_cases) (simp_all add: render_entries_def manifest_line_def)
  ultimately show ?thesis using parse_lines_ok [of es "[]"] assms by (simp add: parse_manifest_def)
qed

lemma immutable_paths_set:
  "p \<in> set (immutable_paths d) \<longleftrightarrow> p \<in> fst ` set d \<and> under_agents p \<and> p \<noteq> agents_dir \<and> \<not> is_mutable (posix p) \<and> \<not> is_forbidden (posix p)"
  by (auto simp: immutable_paths_def)

lemma entries_sorted:
  assumes "manifest_entries d = Inr es" and n: "\<forall>p \<in> set (immutable_paths d). normal p"
  shows "sorted_wrt (<) (map fst es)"
proof -
  let ?ps = "immutable_paths d"
  have "inj_on posix (set ?ps)"
  proof (rule inj_onI)
    fix p q
    assume "p \<in> set ?ps" "q \<in> set ?ps" "posix p = posix q"
    then show "p = q" using posix_inj [of p q] n by (simp add: immutable_paths_set under_agents_def)
  qed
  moreover have "distinct ?ps" by (simp add: immutable_paths_def)
  moreover have "sorted (map posix ?ps)" by (simp add: immutable_paths_def)
  ultimately have s: "sorted_wrt (<) (map posix ?ps)" by (simp add: strict_sorted_iff distinct_map)
  have e: "es = List.map_filter (\<lambda>p. map_option (\<lambda>b. (posix p, sha256 b)) (read d p)) ?ps" using assms(1) by (auto simp: manifest_entries_def split: if_splits)
  have "map fst (List.map_filter (\<lambda>p. map_option (\<lambda>b. (posix p, sha256 b)) (read d p)) ps) = map posix (filter (\<lambda>p. read d p \<noteq> None) ps)" for ps
    by (induction ps) (auto simp: map_filter_simps split: option.splits)
  then show ?thesis using s by (simp add: e sorted_wrt_map sorted_wrt_filter)
qed

lemma entries_member:
  assumes "manifest_entries d = Inr es"
  shows "(k, h) \<in> set es \<longleftrightarrow> (\<exists>p b. p \<in> set (immutable_paths d) \<and> read d p = Some b \<and> k = posix p \<and> h = sha256 b)"
proof -
  have "es = List.map_filter (\<lambda>p. map_option (\<lambda>b. (posix p, sha256 b)) (read d p)) (immutable_paths d)" using assms by (auto simp: manifest_entries_def split: if_splits)
  moreover have "(k, h) \<in> set (List.map_filter (\<lambda>p. map_option (\<lambda>b. (posix p, sha256 b)) (read d p)) ps) \<longleftrightarrow> (\<exists>p b. p \<in> set ps \<and> read d p = Some b \<and> k = posix p \<and> h = sha256 b)" for ps
    by (induction ps) (auto simp: map_filter_simps split: option.splits)
  ultimately show ?thesis by simp
qed
section \<open>What a verified tree is\<close>

definition immutable :: "path \<Rightarrow> bool" where
  "immutable p \<longleftrightarrow> normal p \<and> under_agents p \<and> p \<noteq> agents_dir \<and> \<not> is_mutable (posix p) \<and> \<not> is_forbidden (posix p)"

definition normal_disk :: "disk \<Rightarrow> bool" where
  "normal_disk d \<longleftrightarrow> (\<forall>p \<in> fst ` set d. normal p)"

lemma sort_Nil_iff [simp]: "sort xs = [] \<longleftrightarrow> xs = []"
  by (metis length_0_conv length_sort)

lemma verify_ok:
  assumes "verify_manifest d require_anchor (Some h) = Inr True"
  obtains listing expected actual where "read d manifest_path = Some listing" "sha256 listing = h" "parse_manifest listing = Inr expected" "manifest_entries d = Inr actual"
    "map_of actual = map_of expected" "forbidden_artifacts d = []"
proof -
  obtain report where v: "verify_body d require_anchor (Some h) = Inr (True, report)"
    using assms by (auto simp: verify_manifest_def split: sum.splits exn.splits prod.splits)
  then obtain listing where t: "read d manifest_path = Some listing" by (auto simp: verify_body_def split: if_splits option.splits)
  obtain expected where e: "parse_manifest listing = Inr expected" using v t by (auto simp: verify_body_def res_bind_Inr split: if_splits)
  obtain actual where a: "manifest_entries d = Inr actual" using v t e by (auto simp: verify_body_def res_bind_Inr split: if_splits)
  have c: "sha256 listing = h" "filter (\<lambda>k. k \<notin> fst ` set actual) (map fst expected) = []" "filter (\<lambda>k. k \<notin> fst ` set expected) (map fst actual) = []"
      "filter (\<lambda>k. map_of actual k \<noteq> None \<and> map_of expected k \<noteq> map_of actual k) (map fst expected) = []" "forbidden_artifacts d = []"
    using v t e a by (auto simp: verify_body_def Let_def guards split: if_splits)
  have "map_of actual k = map_of expected k" for k
  proof (cases "k \<in> fst ` set expected")
    case True
    then have "map_of actual k \<noteq> None" using c(2) by (auto simp: filter_empty_conv map_of_eq_None_iff)
    then show ?thesis using True c(4) by (auto simp: filter_empty_conv)
  next
    case False
    then have "k \<notin> fst ` set actual" using c(3) by (auto simp: filter_empty_conv)
    then show ?thesis using False by (simp add: map_of_eq_None_iff [THEN iffD2])
  qed
  then show thesis using that t c(1,5) e a by blast
qed

text \<open>The digest of an immutable file is in the entries under its path.\<close>

lemma entry_of_file:
  assumes "manifest_entries d = Inr es" and "normal_disk d" and "immutable p"
  shows "map_of es (posix p) = map_option sha256 (read d p)"
proof -
  have n: "\<forall>p \<in> set (immutable_paths d). normal p" using assms(2) by (auto simp: immutable_paths_set normal_disk_def)
  then have "distinct (map fst es)" using entries_sorted [OF assms(1)] by (simp add: strict_sorted_iff)
  then have m: "map_of es (posix p) = Some h \<longleftrightarrow> (posix p, h) \<in> set es" for h by simp
  have "(posix p, h) \<in> set es \<longleftrightarrow> (\<exists>b. read d p = Some b \<and> h = sha256 b)" for h
  proof
    assume "(posix p, h) \<in> set es"
    then obtain q b where q: "q \<in> set (immutable_paths d)" "read d q = Some b" "posix q = posix p" "h = sha256 b" unfolding entries_member [OF assms(1)] by metis
    then have "q = p" using posix_inj [of q p] n assms(3) by (auto simp: immutable_paths_set immutable_def under_agents_def)
    then show "\<exists>b. read d p = Some b \<and> h = sha256 b" using q by simp
  next
    assume "\<exists>b. read d p = Some b \<and> h = sha256 b"
    then obtain b where b: "read d p = Some b" "h = sha256 b" by blast
    then have "p \<in> fst ` set d" using assms(3) node_in [of d p] by (force simp: read_def immutable_def under_agents_def split: option.splits)
    then have "p \<in> set (immutable_paths d)" using assms(3) by (simp add: immutable_paths_set immutable_def)
    then show "(posix p, h) \<in> set es" unfolding entries_member [OF assms(1)] using b by blast
  qed
  then show ?thesis using m by (cases "read d p"; cases "map_of es (posix p)") auto
qed

section \<open>Properties\<close>



definition sample_tree :: disk where
  "sample_tree = (let listing = render_entries [(''.agents/VERSION'', sha256 ''5.0.0'')] in
     [([''.agents''], Directory), ([''.agents'', ''VERSION''], File 1 420 ''5.0.0''), ([''.agents'', ''MANIFEST.sha256''], File 2 420 listing)])"

lemma sample_immutable: "immutable_paths sample_tree = [[''.agents'', ''VERSION'']]"
proof -
  have "map fst sample_tree = [[''.agents''], [''.agents'', ''VERSION''], [''.agents'', ''MANIFEST.sha256'']]" by (simp add: sample_tree_def Let_def)
  moreover have "sort_key posix (filter (\<lambda>p. under_agents p \<and> p \<noteq> agents_dir \<and> \<not> is_mutable (posix p) \<and> \<not> is_forbidden (posix p))
      (remdups [[''.agents''], [''.agents'', ''VERSION''], [''.agents'', ''MANIFEST.sha256'']])) = [[''.agents'', ''VERSION'']]" by code_simp
  ultimately show ?thesis by (simp only: immutable_paths_def)
qed

lemma sample_reads: "read sample_tree [''.agents'', ''VERSION''] = Some ''5.0.0''" "is_dir sample_tree agents_dir" "\<not> is_path_redirect sample_tree [''.agents'', ''VERSION'']"
    "read sample_tree manifest_path = Some (render_entries [(''.agents/VERSION'', sha256 ''5.0.0'')])" "\<not> is_path_redirect sample_tree manifest_path"
    "\<not> exists sample_tree [''RELEASE.json'']"
  by (simp_all add: read_def node_at_def sample_tree_def Let_def is_dir_def agents_dir_def is_path_redirect_def manifest_path_def exists_def)

lemma sample_entries: "manifest_entries sample_tree = Inr [(''.agents/VERSION'', sha256 ''5.0.0'')]"
  by (simp add: manifest_entries_def sample_immutable sample_reads map_filter_simps posix_def slash_def)

lemma sample_listable: "listable [''.agents'', ''VERSION'']"
  by code_simp

lemma sample_parses: "parse_manifest (render_entries [(''.agents/VERSION'', sha256 ''5.0.0'')]) = Inr [(''.agents/VERSION'', sha256 ''5.0.0'')]"
proof -
  have "\<not> is_mutable ''.agents/VERSION''" "\<not> is_forbidden ''.agents/VERSION''" "posix [''.agents'', ''VERSION''] = ''.agents/VERSION''" by code_simp+
  then have "entry_ok (''.agents/VERSION'', sha256 ''5.0.0'')" using sample_listable by (auto simp: entry_ok_def intro: exI [of _ "[''.agents'', ''VERSION'']"])
  then show ?thesis by (intro render_parse) simp_all
qed

lemma sample_verifies: "verify_manifest sample_tree False (Some (sha256 (render_entries [(''.agents/VERSION'', sha256 ''5.0.0'')]))) = Inr True"
proof -
  have "map fst sample_tree = [[''.agents''], [''.agents'', ''VERSION''], [''.agents'', ''MANIFEST.sha256'']]" by (simp add: sample_tree_def Let_def)
  moreover have "sort (filter (\<lambda>s. \<not> list_ex (startswith s) [''.agents/runtime/'', ''.agents/persistent/''] \<and> is_forbidden s)
     (map posix (filter (\<lambda>p. under_agents p \<and> p \<noteq> agents_dir) (remdups [[''.agents''], [''.agents'', ''VERSION''], [''.agents'', ''MANIFEST.sha256'']])))) = []" by code_simp
  ultimately have "forbidden_artifacts sample_tree = []" by (simp only: forbidden_artifacts_def)
  then show ?thesis by (simp add: verify_manifest_def verify_body_def sample_reads sample_parses sample_entries Let_def whenever_def)
qed



end
