(* ===== verification/Archive.thy ===== *)
theory Archive
  imports Manifest
begin

text \<open>
  Release archives, \<open>build_archive\<close> and \<open>safe_extract\<close> of \<open>agentinfra/manifest.py\<close>. An archive is the list of
  its members; what \<open>zipfile\<close> reads back is what it was given. The theory shows what an extraction writes, and that
  the archives the framework builds cannot be extracted by it, since every write below \<open>.agents\<close> is refused.
\<close>

section \<open>Building\<close>

record zip_member =
  zm_name :: string
  zm_attr :: int
  zm_data :: string

text \<open>\<open>external_attr\<close>: the permission bits of the file, or 0o644 when there are none, in the upper half.\<close>

definition member_of :: "path \<Rightarrow> disk \<Rightarrow> string \<Rightarrow> zip_member res" where
  "member_of root d relative = res_bind (confined_path root d (Rel (path_parts relative)) True False) (\<lambda>p.
     case node_at d p of
       Some (File i m b) \<Rightarrow> (let mode_bits = m mod 4096 in
         Inr \<lparr>zm_name = relative, zm_attr = (if mode_bits = 0 then 420 else mode_bits) * 65536, zm_data = b\<rparr>)
     | _ \<Rightarrow> Inl (OSErr ''cannot read file''))"

definition archive_files :: "(string \<times> string) list \<Rightarrow> string list" where
  "archive_files expected = sort ([''RELEASE.json'', ''.agents/MANIFEST.sha256''] @ map fst expected)"

definition build_archive :: "path \<Rightarrow> disk \<Rightarrow> zip_member list res" where
  "build_archive root d = res_bind (manifest_entries d) (\<lambda>expected.
     case read d manifest_path of
       None \<Rightarrow> Inl (OSErr ''cannot read manifest'')
     | Some manifest_text \<Rightarrow> res_bind (parse_manifest manifest_text) (\<lambda>parsed.
         if set parsed \<noteq> set expected then Inl (ManifestError ''refusing to package a tree that does not match its manifest'')
         else res_bind (release_anchor d) (\<lambda>_. map_res (member_of root d) (archive_files expected))))"

section \<open>Extraction\<close>

definition member_mode :: "zip_member \<Rightarrow> int" where
  "member_mode m = (zm_attr m div 65536) mod 65536"

definition is_link_mode :: "int \<Rightarrow> bool" where
  "is_link_mode mode_bits \<longleftrightarrow> mode_bits div 4096 = 10"

text \<open>The first loop: names are safe and new, no member is a link. It returns the set \<open>seen\<close>.\<close>

fun check_members :: "path \<Rightarrow> disk \<Rightarrow> string list \<Rightarrow> zip_member list \<Rightarrow> string list res" where
  "check_members root d seen [] = Inr seen"
| "check_members root d seen (m # ms) = res_bind (safe_relative (zm_name m) False) (\<lambda>relative.
     if relative \<in> set seen then Inl (ManifestError ''duplicate archive member'')
     else if is_link_mode (member_mode m) then Inl (ManifestError ''archive symlink is forbidden'')
     else res_bind (confined_path root d (Rel (path_parts relative)) False False) (\<lambda>_. check_members root d (seen @ [relative]) ms))"

definition extract_member :: "path \<Rightarrow> zip_member \<Rightarrow> unit io" where
  "extract_member root m d = (case res_bind (safe_relative (zm_name m) False) (\<lambda>relative. confined_path root d (Rel (path_parts relative)) False False) of
      Inl e \<Rightarrow> (d, Inl e)
    | Inr p \<Rightarrow> if exists d p then (d, Inl (ManifestError ''archive extraction refuses to overwrite''))
        else io_bind (mkdir_io (butlast p)) (\<lambda>_ d. atomic_write_bytes root d (Rel p) (zm_data m)
          (Some (let bits = member_mode m mod 512 in if bits = 0 then 420 else bits))) d)"

definition safe_extract :: "path \<Rightarrow> zip_member list \<Rightarrow> string list io" where
  "safe_extract root ms d = (case check_members root d [] ms of
      Inl e \<Rightarrow> (d, Inl e)
    | Inr seen \<Rightarrow> io_bind (io_each (extract_member root) ms) (\<lambda>_. io_return (sort seen)) d)"

section \<open>What an extraction writes\<close>

text \<open>The path a member is written to.\<close>

definition member_path :: "zip_member \<Rightarrow> path" where
  "member_path m = path_parts (zm_name m)"

lemma safe_relative_parts: "safe_relative s False = Inr relative \<Longrightarrow> path_parts relative = path_parts s"
proof -
  assume "safe_relative s False = Inr relative"
  then have r: "relative = posix_text (path_parts s)" by (auto simp: safe_relative_def split: if_splits)
  have "normal (path_parts s)" by (auto simp: path_parts_def normal_def dest: split_on_parts)
  then show ?thesis unfolding r posix_text_def using path_parts_posix by (auto simp: path_parts_def)
qed

lemma extract_target:
  assumes "res_bind (safe_relative (zm_name m) False) (\<lambda>relative. confined_path root d (Rel (path_parts relative)) False False) = Inr p"
  shows "p = member_path m" and "p \<noteq> []"
  using assms safe_relative_parts by (auto simp: res_bind_Inr confined_path_def member_path_def split: if_splits)

lemma extract_member_Inr:
  assumes "extract_member root m d = (d', Inr u)" and "plain root"
  shows "\<not> exists d (member_path m)" and "\<not> under_agents (member_path m)"
    and "read d' q = (if q = member_path m then Some (zm_data m) else read d q)"
proof -
  obtain p where p: "res_bind (safe_relative (zm_name m) False) (\<lambda>relative. confined_path root d (Rel (path_parts relative)) False False) = Inr p"
      "\<not> exists d p" using assms(1) by (auto simp: extract_member_def split: sum.splits if_splits)
  note e = extract_target [OF p(1)]
  show "\<not> exists d (member_path m)" using p(2) e(1) by simp
  obtain d1 md where d1: "mkdir_parents d (butlast p) = Inr d1" "atomic_write_bytes root d1 (Rel p) (zm_data m) md = (d', Inr u)"
    using assms(1) p by (auto simp: extract_member_def io_bind_Inr mkdir_io_def split: sum.splits)
  note w = atomic_write_done [OF d1(2) assms(2) e(2)]
  show "\<not> under_agents (member_path m)" "read d' q = (if q = member_path m then Some (zm_data m) else read d q)"
    using w mkdir_parents_read [OF d1(1)] e(1) by simp_all
qed

lemma extract_member_Inl:
  assumes "extract_member root m d = (d', Inl e)"
  shows "read d' q = read d q"
  using assms by (auto simp: extract_member_def io_bind_def mkdir_io_def mkdir_parents_read atomic_write_raised split: sum.splits if_splits prod.splits)

lemma exists_read: "read d p \<noteq> None \<Longrightarrow> exists d p"
  by (auto simp: exists_def read_def split: option.splits)

lemma extract_keeps:
  assumes "io_each (extract_member root) ms d = (d', r)" and "plain root" and "read d q = Some b"
  shows "read d' q = Some b"
  using assms(1,3)
proof (induction ms arbitrary: d)
  case (Cons m ms)
  obtain d1 x where p: "extract_member root m d = (d1, x)" by (cases "extract_member root m d")
  show ?case
  proof (cases x)
    case (Inl e)
    then show ?thesis using Cons(2,3) p extract_member_Inl [of root m d d1 e] by (simp add: io_bind_def)
  next
    case (Inr w)
    note i = extract_member_Inr [OF p [unfolded Inr] assms(2)]
    have "q \<noteq> member_path m" using Cons(3) i(1) exists_read [of d q] by auto
    then have "read d1 q = Some b" using i(3) [of q] Cons(3) by simp
    then show ?thesis using Cons(1) [of d1] Cons(2) p Inr by (simp add: io_bind_def)
  qed
qed (simp add: io_return_def)

lemma extract_writes:
  assumes "io_each (extract_member root) ms d = (d', Inr u)" and "plain root"
  shows "(\<forall>m \<in> set ms. read d' (member_path m) = Some (zm_data m) \<and> \<not> under_agents (member_path m))
     \<and> (\<forall>q. q \<notin> member_path ` set ms \<longrightarrow> read d' q = read d q)"
  using assms(1)
proof (induction ms arbitrary: d)
  case (Cons m ms)
  then obtain d1 w where p: "extract_member root m d = (d1, Inr w)" "io_each (extract_member root) ms d1 = (d', Inr u)"
    by (auto simp: io_bind_Inr)
  note i = extract_member_Inr [OF p(1) assms(2)]
  have "read d' (member_path m) = Some (zm_data m)" using extract_keeps [OF p(2) assms(2)] i(3) by simp
  then show ?case using Cons(1) [OF p(2)] i(2,3) by auto
qed (simp add: io_return_def)

text \<open>
  C35: whatever the archive and however the extraction ends, every file of the destination keeps its bytes. When it
  returns, each member has its bytes at its path, none of them lies below .agents, and no other file is new.
\<close>
theorem safe_extract_exact:
  assumes "safe_extract root ms d = (d', r)" and "plain root"
  shows "(\<forall>q b. read d q = Some b \<longrightarrow> read d' q = Some b)
    \<and> (\<forall>listing. r = Inr listing \<longrightarrow>
        (\<forall>m \<in> set ms. read d' (member_path m) = Some (zm_data m) \<and> \<not> under_agents (member_path m))
        \<and> (\<forall>q. q \<notin> member_path ` set ms \<longrightarrow> read d' q = read d q))"
proof (cases "check_members root d [] ms")
  case (Inl e)
  then show ?thesis using assms(1) by (auto simp: safe_extract_def)
next
  case (Inr seen)
  obtain d1 x where e: "io_each (extract_member root) ms d = (d1, x)" by (cases "io_each (extract_member root) ms d")
  have d: "d' = d1" using assms(1) Inr e by (cases x) (simp_all add: safe_extract_def io_bind_def io_return_def)
  have "\<exists>u. x = Inr u" if "r = Inr listing" for listing using that assms(1) Inr e by (cases x) (simp_all add: safe_extract_def io_bind_def)
  then have "\<forall>listing. r = Inr listing \<longrightarrow>
      (\<forall>m \<in> set ms. read d1 (member_path m) = Some (zm_data m) \<and> \<not> under_agents (member_path m)) \<and> (\<forall>q. q \<notin> member_path ` set ms \<longrightarrow> read d1 q = read d q)"
    using extract_writes [OF _ assms(2), of ms d d1] e by metis
  then show ?thesis using extract_keeps [OF e assms(2)] unfolding d by simp
qed

section \<open>Release archives\<close>

lemma entry_names:
  assumes "manifest_entries d = Inr es" and "normal_disk d" and "n \<in> fst ` set es"
  shows "path_parts n \<noteq> [] \<and> hd (path_parts n) = ''.agents''"
proof -
  obtain p where p: "p \<in> set (immutable_paths d)" "n = posix p"
    using assms(1,3) by (auto simp: manifest_entries_def List.map_filter_def split: if_splits option.splits)
  have "normal p" "p \<noteq> []" "hd p = ''.agents''" using p(1) assms(2) by (auto simp: immutable_paths_set normal_disk_def under_agents_def)
  then show ?thesis unfolding p(2) by (simp add: path_parts_posix)
qed

lemma member_of_name: "member_of root d n = Inr m \<Longrightarrow> zm_name m = n"
  unfolding member_of_def res_bind_Inr Let_def by (elim exE conjE) (auto split: option.split_asm node.split_asm)

lemma member_names: "map_res (member_of root d) ns = Inr ms \<Longrightarrow> map zm_name ms = ns"
  by (induction ns arbitrary: ms) (auto simp: res_bind_Inr member_of_name)

lemma first_file:
  assumes "manifest_entries d = Inr es" and "normal_disk d"
  shows "archive_files es \<noteq> []" and "under_agents (path_parts (hd (archive_files es)))"
proof -
  let ?m = "''.agents/MANIFEST.sha256''" and ?xs = "[''RELEASE.json'', ''.agents/MANIFEST.sha256''] @ map fst es"
  have s: "set (archive_files es) = set ?xs" "sorted (archive_files es)" unfolding archive_files_def by (simp_all only: set_sort sorted_sort)
  have m: "?m \<in> set (archive_files es)" unfolding s(1) by simp
  then show ne: "archive_files es \<noteq> []" by (cases "archive_files es") simp_all
  then obtain x xs where x: "archive_files es = x # xs" by (meson neq_Nil_conv)
  have "x \<le> ?m" using s(2) m unfolding x by auto
  moreover have "\<not> ''RELEASE.json'' \<le> ?m" by code_simp
  ultimately have "x \<noteq> ''RELEASE.json''" by blast
  then have "x = ?m \<or> x \<in> fst ` set es" using s(1) x by auto
  moreover have "under_agents (path_parts ?m)" by code_simp
  ultimately show "under_agents (path_parts (hd (archive_files es)))" using entry_names [OF assms] x by (auto simp: under_agents_def)
qed

lemma built_members:
  assumes "build_archive root d = Inr ms" and "normal_disk d"
  obtains m rest where "ms = m # rest" and "under_agents (member_path m)"
proof -
  obtain es where es: "manifest_entries d = Inr es" "map_res (member_of root d) (archive_files es) = Inr ms"
    using assms(1) by (auto simp: build_archive_def res_bind_Inr split: option.splits if_splits)
  note n = member_names [OF es(2)] and f = first_file [OF es(1) assms(2)]
  obtain m rest where "ms = m # rest" using n f(1) by (cases ms) auto
  moreover from this have "under_agents (member_path m)" using f(2) unfolding n [symmetric] by (simp add: member_path_def)
  ultimately show thesis using that by blast
qed

text \<open>
  an archive that the framework builds cannot be extracted with \<open>safe_extract\<close>, wherever to: the call raises, and
  no file of the destination is written.
\<close>
theorem built_archive_never_extracts:
  assumes "build_archive root d = Inr ms" and "normal_disk d" and "plain root'"
  shows "\<exists>e' x. safe_extract root' ms e = (e', Inl x) \<and> (\<forall>q. read e' q = read e q)"
proof (cases "check_members root' e [] ms")
  case (Inl x)
  then show ?thesis by (auto simp: safe_extract_def)
next
  case (Inr seen)
  obtain m rest where m: "ms = m # rest" "under_agents (member_path m)" using built_members [OF assms(1,2)] .
  obtain e1 y where y: "extract_member root' m e = (e1, y)" by (cases "extract_member root' m e")
  have "\<nexists>u. y = Inr u" using extract_member_Inr(2) [OF _ assms(3)] y m(2) by blast
  then obtain x where x: "y = Inl x" by (cases y) auto
  then have "safe_extract root' ms e = (e1, Inl x)" using Inr y m(1) by (simp add: safe_extract_def io_bind_def)
  then show ?thesis using extract_member_Inl y x by auto
qed

text \<open>One document, and a small deployed tree with its manifest and anchor.\<close>

definition zip_sample :: zip_member where
  "zip_sample = \<lparr>zm_name = ''docs/./a.txt'', zm_attr = 420 * 65536, zm_data = ''hello''\<rparr>"

lemma zip_sample_extracts: "\<exists>d' listing. safe_extract [''srv''] [zip_sample] gov_disk = (d', Inr listing)"
proof -
  have c: "check_members [''srv''] gov_disk [] [zip_sample] = Inr [''docs/a.txt'']" by code_simp
  have t: "res_bind (safe_relative (zm_name zip_sample) False) (\<lambda>relative. confined_path [''srv''] gov_disk (Rel (path_parts relative)) False False) = Inr [''docs'', ''a.txt'']"
    by code_simp
  let ?d = "put gov_disk [''docs''] Directory"
  have m: "mkdir_io (butlast [''docs'', ''a.txt'']) gov_disk = (?d, Inr ())" by (simp add: mkdir_io_def mkdir_parents_def steps_def node_at_def gov_disk_def)
  have x: "\<not> exists gov_disk [''docs'', ''a.txt'']" by (simp add: exists_def node_at_def gov_disk_def)
  have "writable ?d [''docs'', ''a.txt'']" by (simp add: writable_def plain_def under_agents_def steps_def node_at_def put_def gov_disk_def)
  then obtain d' where "atomic_write_bytes [''srv''] ?d (Rel [''docs'', ''a.txt'']) (zm_data zip_sample)
      (Some (let bits = member_mode zip_sample mod 512 in if bits = 0 then 420 else bits)) = (d', Inr ())"
    using atomic_write_ok [of ?d "[''docs'', ''a.txt'']" "[''srv'']"] by (auto simp: plain_def)
  then have "extract_member [''srv''] zip_sample gov_disk = (d', Inr ())" unfolding extract_member_def t using x m by (simp add: io_bind_def)
  then show ?thesis unfolding safe_extract_def c by (simp add: io_bind_def io_return_def)
qed

theorem safe_extract_exact_witness:
  "\<exists>d' listing. safe_extract [''srv''] [zip_sample] gov_disk = (d', Inr listing) \<and> read d' [''docs'', ''a.txt''] = Some ''hello'' \<and> read d' [''a.txt''] = Some ''old''"
proof -
  obtain d' listing where e: "safe_extract [''srv''] [zip_sample] gov_disk = (d', Inr listing)" using zip_sample_extracts by blast
  have p: "member_path zip_sample = [''docs'', ''a.txt'']" by code_simp
  have o: "read gov_disk [''a.txt''] = Some ''old''" by code_simp
  have "plain [''srv'']" by (simp add: plain_def)
  from safe_extract_exact [OF e this] have "read d' (member_path zip_sample) = Some (zm_data zip_sample)" "read d' [''a.txt''] = Some ''old''" using o by simp_all
  then show ?thesis using e unfolding p by (simp add: zip_sample_def)
qed

definition sample_anchor :: pyval where
  "sample_anchor = PyDict [(''schema'', PyInt 1), (''version'', PyStr ''5.0.0''), (''manifest_sha256'', PyStr (replicate 64 (CHR ''a'')))]"

definition release_tree :: disk where
  "release_tree = ([''RELEASE.json''], File 3 420 (json_text sample_anchor)) # sample_tree"

lemma release_nodes: "node_at release_tree q = (if q = [''RELEASE.json''] then Some (File 3 420 (json_text sample_anchor)) else node_at sample_tree q)"
  by (simp add: node_at_def release_tree_def)

lemma release_entries: "manifest_entries release_tree = Inr [(''.agents/VERSION'', sha256 ''5.0.0'')]"
proof -
  have i: "immutable_paths release_tree = [[''.agents'', ''VERSION'']]"
  proof -
    have "map fst release_tree = [[''RELEASE.json''], [''.agents''], [''.agents'', ''VERSION''], [''.agents'', ''MANIFEST.sha256'']]" by (simp add: release_tree_def sample_tree_def Let_def)
    moreover have "sort_key posix (filter (\<lambda>p. under_agents p \<and> p \<noteq> agents_dir \<and> \<not> is_mutable (posix p) \<and> \<not> is_forbidden (posix p))
        (remdups [[''RELEASE.json''], [''.agents''], [''.agents'', ''VERSION''], [''.agents'', ''MANIFEST.sha256'']])) = [[''.agents'', ''VERSION'']]" by code_simp
    ultimately show ?thesis by (simp only: immutable_paths_def)
  qed
  have r: "read release_tree [''.agents'', ''VERSION''] = Some ''5.0.0''" "is_dir release_tree agents_dir" "\<not> is_path_redirect release_tree [''.agents'', ''VERSION'']"
    using sample_reads(1-3) by (simp_all add: read_def is_dir_def is_path_redirect_def release_nodes agents_dir_def)
  show ?thesis by (simp add: manifest_entries_def i r map_filter_simps posix_def slash_def)
qed

lemma release_anchored: "release_anchor release_tree = Inr (canon sample_anchor)"
proof -
  have w: "wf_val sample_anchor" by (simp add: sample_anchor_def)
  have j: "json_at release_tree [''RELEASE.json''] = Some (canon sample_anchor)" by (simp add: json_at_def read_def release_nodes json_text_reads [OF w])
  have c: "canon sample_anchor = PyDict [(''manifest_sha256'', PyStr (replicate 64 (CHR ''a''))), (''schema'', PyInt 1), (''version'', PyStr ''5.0.0'')]" by code_simp
  have s: "is_sha256 (replicate 64 (CHR ''a''))" "is_release_version ''5.0.0''" by code_simp+
  have p: "py_str (PyStr x) = x" for x by (simp add: py_str_def)
  have e: "\<not> is_path_redirect release_tree [''RELEASE.json'']" "exists release_tree [''RELEASE.json'']"
    by (simp add: is_path_redirect_def release_nodes) (simp add: File_System.exists_def release_nodes)
  show ?thesis unfolding release_anchor_def using e unfolding j c by (simp add: s p guard_def)
qed

lemma member_ok:
  assumes "node_at d (path_parts n) = Some (File i m b)" and "path_parts n \<noteq> []" and "''..'' \<notin> set (path_parts n)" and "\<forall>q. \<not> is_path_redirect d q"
  shows "\<exists>x. member_of root d n = Inr x"
  using assms by (simp add: member_of_def confined_path_def redirected_def exists_def Let_def)

lemma release_builds: "\<exists>ms. build_archive [''srv''] release_tree = Inr ms"
proof -
  have m: "read release_tree manifest_path = Some (render_entries [(''.agents/VERSION'', sha256 ''5.0.0'')])"
    using sample_reads(4) by (simp add: read_def release_nodes manifest_path_def)
  have f: "archive_files [(''.agents/VERSION'', h)] = [''.agents/MANIFEST.sha256'', ''.agents/VERSION'', ''RELEASE.json'']" for h
  proof -
    have "sort [''RELEASE.json'', ''.agents/MANIFEST.sha256'', ''.agents/VERSION''] = [''.agents/MANIFEST.sha256'', ''.agents/VERSION'', ''RELEASE.json'']" by code_simp
    then show ?thesis by (simp only: archive_files_def append.simps list.map fst_conv)
  qed
  have nr: "\<not> is_path_redirect release_tree q" for q by (simp add: is_path_redirect_def release_tree_def node_at_def sample_tree_def Let_def)
  have n: "node_at release_tree [''.agents'', ''MANIFEST.sha256''] = Some (File 2 420 (render_entries [(''.agents/VERSION'', sha256 ''5.0.0'')]))"
    "node_at release_tree [''.agents'', ''VERSION''] = Some (File 1 420 ''5.0.0'')" "node_at release_tree [''RELEASE.json''] = Some (File 3 420 (json_text sample_anchor))"
    by (simp_all add: release_nodes) (simp_all add: node_at_def sample_tree_def Let_def)
  have p: "path_parts ''.agents/MANIFEST.sha256'' = [''.agents'', ''MANIFEST.sha256'']" "path_parts ''.agents/VERSION'' = [''.agents'', ''VERSION'']"
    "path_parts ''RELEASE.json'' = [''RELEASE.json'']" by code_simp+
  have "\<exists>x. member_of [''srv''] release_tree ''.agents/MANIFEST.sha256'' = Inr x" using p(1) nr n(1) by (intro member_ok) auto
  moreover have "\<exists>x. member_of [''srv''] release_tree ''.agents/VERSION'' = Inr x" using p(2) nr n(2) by (intro member_ok) auto
  moreover have "\<exists>x. member_of [''srv''] release_tree ''RELEASE.json'' = Inr x" using p(3) nr n(3) by (intro member_ok) auto
  ultimately show ?thesis by (auto simp: build_archive_def release_entries m sample_parses release_anchored f)
qed

theorem built_archive_never_extracts_witness:
  "\<exists>ms e' x. build_archive [''srv''] release_tree = Inr ms \<and> safe_extract [''new''] ms [] = (e', Inl x)"
proof -
  obtain ms where b: "build_archive [''srv''] release_tree = Inr ms" using release_builds by blast
  have "normal_disk release_tree" by (simp add: normal_disk_def release_tree_def sample_tree_def Let_def normal_def slash_def)
  then show ?thesis using b built_archive_never_extracts [OF b, of "[''new'']" "[]"] by (auto simp: plain_def)
qed

end
