(* ===== verification/Markers.thy ===== *)
theory Markers
  imports Text_Lines Posix_Path
begin

text \<open>
  The managed block of \<open>AGENTS.md\<close> as text, from \<open>agentinfra/bootstrap.py\<close>: decoding, the newline
  convention of a file, the search for marker lines outside code fences and quotations, and the split of
  a file at its block. A text is scanned line by line with the open fence as state; the lemmas say how a
  scan behaves on texts put together from lines, so that the block that was found can be replaced or a
  new one appended.
\<close>

section \<open>Decoding\<close>

text \<open>UTF-8 for the characters below 256; a text with other characters is outside the model.\<close>

fun utf8_decode :: "string \<Rightarrow> string option" where
  "utf8_decode [] = Some []"
| "utf8_decode (c # s) = (let n = of_char c :: nat in
     if n < 128 then map_option (Cons c) (utf8_decode s)
     else case s of [] \<Rightarrow> None
       | c' # t \<Rightarrow> (let m = of_char c' :: nat in
           if (n = 194 \<or> n = 195) \<and> 128 \<le> m \<and> m < 192 then map_option (Cons (char_of (64 * (n - 192) + (m - 128)))) (utf8_decode t)
           else None))"

definition utf8_char :: "char \<Rightarrow> string" where
  "utf8_char c = (let n = of_char c :: nat in if n < 128 then [c] else [char_of (192 + n div 64), char_of (128 + n mod 64)])"

definition utf8_encode :: "string \<Rightarrow> string" where
  "utf8_encode s = concat (map utf8_char s)"

definition BOM :: string where "BOM = [CHR 0xEF, CHR 0xBB, CHR 0xBF]"

definition decode :: "string \<Rightarrow> (string \<times> bool) res" where
  "decode data = (let bom = startswith data BOM; payload = (if bom then drop (length BOM) data else data) in
     case utf8_decode payload of None \<Rightarrow> Inl (BootstrapError ''root AGENTS.md is not valid UTF-8'') | Some text \<Rightarrow> Inr (text, bom))"

definition newline_of :: "string \<Rightarrow> string" where
  "newline_of text = (let before = takeWhile (\<lambda>c. c \<noteq> lf) text in
     if lf \<in> set text \<and> before \<noteq> [] \<and> last before = cr then [cr, lf] else [lf])"

section \<open>Markers\<close>

definition BEGIN :: string where "BEGIN = ''<!-- AEGIS:BEGIN -->''"
definition END :: string where "END = ''<!-- AEGIS:END -->''"

text \<open>\<open>managed_block\<close> for the text of the template.\<close>

definition managed_block :: "string \<Rightarrow> string \<Rightarrow> string res" where
  "managed_block template newline = (let body = split_lines (strip template) in
     if \<exists>l \<in> set body. strip l \<in> {BEGIN, END} then Inl (BootstrapError ''managed bootstrap template must not contain marker lines'')
     else Inr (BEGIN @ newline @ join newline body @ newline @ END))"

text \<open>\<open>line.rstrip("\r\n")\<close>, \<open>text.index(needle)\<close> for a text that has it, and \<open>_FENCE\<close>.\<close>

definition logical :: "string \<Rightarrow> string" where
  "logical line = rev (dropWhile (\<lambda>c. c = cr \<or> c = lf) (rev line))"

fun index_of :: "string \<Rightarrow> string \<Rightarrow> nat" where
  "index_of needle [] = 0"
| "index_of needle (c # s) = (if startswith (c # s) needle then 0 else Suc (index_of needle s))"

definition quoted :: "string \<Rightarrow> bool" where
  "quoted l \<longleftrightarrow> startswith (dropWhile is_space l) ''>''"

definition fence_token :: "string \<Rightarrow> char option" where
  "fence_token l = (let s = dropWhile is_space l in
     if startswith s [CHR 0x60, CHR 0x60, CHR 0x60] then Some (CHR 0x60) else if startswith s ''~~~'' then Some (CHR ''~'') else None)"

definition line_mark :: "string \<Rightarrow> (bool \<times> nat) option" where
  "line_mark l = (if strip l = BEGIN then Some (True, index_of BEGIN l) else if strip l = END then Some (False, index_of END l) else None)"

text \<open>One turn of the loop: the open fence after a line, and the marker it holds.\<close>

definition line_step :: "char option \<Rightarrow> string \<Rightarrow> char option \<times> (bool \<times> nat) option" where
  "line_step fence line = (let l = logical line in
     case (if quoted l then None else fence_token l) of
       Some t \<Rightarrow> ((if fence = None then Some t else if fence = Some t then None else fence), None)
     | None \<Rightarrow> (fence, if fence = None \<and> \<not> quoted l then line_mark l else None))"

fun scan :: "nat \<Rightarrow> char option \<Rightarrow> string list \<Rightarrow> (bool \<times> nat) list \<times> char option" where
  "scan offset fence [] = ([], fence)"
| "scan offset fence (l # ls) = (case line_step fence l of (fence', m) \<Rightarrow>
     case scan (offset + length l) fence' ls of (ms, g) \<Rightarrow>
       ((case m of None \<Rightarrow> ms | Some (front, k) \<Rightarrow> (front, offset + k) # ms), g))"

definition marker_offsets :: "string \<Rightarrow> nat list \<times> nat list" where
  "marker_offsets text = (let ms = fst (scan 0 None (keep_lines text)) in (map snd (filter fst ms), map snd (filter (\<lambda>m. \<not> fst m) ms)))"

definition split_existing :: "string \<Rightarrow> (string \<times> string option \<times> string) res" where
  "split_existing text = (case marker_offsets text of (begins, ends) \<Rightarrow>
     if begins = [] \<and> ends = [] then Inr (text, None, [])
     else if length begins \<noteq> 1 \<or> length ends \<noteq> 1 \<or> hd ends \<le> hd begins
     then Inl (BootstrapError ''malformed or duplicate Aegis markers in root AGENTS.md'')
     else (let start = hd begins; finish = hd ends + length END in
       Inr (take start text, Some (take (finish - start) (drop start text)), drop finish text)))"


section \<open>Lines\<close>

text \<open>A line that ends where the text after it begins.\<close>

definition ended :: "string \<Rightarrow> string \<Rightarrow> bool" where
  "ended l s \<longleftrightarrow> (\<exists>b e. l = b @ e \<and> list_all (\<lambda>c. \<not> is_break c) b
     \<and> (e = [cr, lf] \<or> (\<exists>c. e = [c] \<and> is_break c \<and> \<not> (c = cr \<and> s \<noteq> [] \<and> hd s = lf))))"

lemma keep_lines_ended: "ended l s \<Longrightarrow> keep_lines (l @ s) = l # keep_lines s"
proof -
  assume "ended l s"
  then obtain b e where be: "l = b @ e" "list_all (\<lambda>c. \<not> is_break c) b"
      "e = [cr, lf] \<or> (\<exists>c. e = [c] \<and> is_break c \<and> \<not> (c = cr \<and> s \<noteq> [] \<and> hd s = lf))"
    by (auto simp: ended_def)
  have "keep_lines (b @ e @ s) = (b @ e) # keep_lines s" using be(2)
  proof (induction b)
    case Nil
    then show ?case using be(3) by auto
  next
    case (Cons c b)
    then have "c \<noteq> cr" by auto
    then show ?case using Cons by simp
  qed
  then show ?thesis using be(1) by simp
qed

lemma keep_lines_open: "b \<noteq> [] \<Longrightarrow> list_all (\<lambda>c. \<not> is_break c) b \<Longrightarrow> keep_lines b = [b]"
proof (induction b)
  case (Cons c b)
  then have "c \<noteq> cr" by auto
  then show ?case using Cons by (cases b) auto
qed simp

lemma ended_Cons: "ended l s \<Longrightarrow> \<not> is_break c \<Longrightarrow> ended (c # l) s"
proof -
  assume "ended l s" "\<not> is_break c"
  then obtain b e where "l = b @ e" "list_all (\<lambda>c. \<not> is_break c) (c # b)"
      "e = [cr, lf] \<or> (\<exists>c. e = [c] \<and> is_break c \<and> \<not> (c = cr \<and> s \<noteq> [] \<and> hd s = lf))"
    by (auto simp: ended_def)
  then show ?thesis unfolding ended_def by (metis append_Cons)
qed

lemma keep_lines_Cons:
  assumes "keep_lines s = l # ls"
  shows "s = l @ concat ls \<and> keep_lines (concat ls) = ls
    \<and> (ended l (concat ls) \<or> ls = [] \<and> list_all (\<lambda>c. \<not> is_break c) l)"
  using assms
proof (induction s arbitrary: l ls rule: keep_lines.induct)
  case (2 c s)
  consider "c = cr \<and> s \<noteq> [] \<and> hd s = lf" | "\<not> (c = cr \<and> s \<noteq> [] \<and> hd s = lf)" "is_break c" | "\<not> (c = cr \<and> s \<noteq> [] \<and> hd s = lf)" "\<not> is_break c" by blast
  then show ?case
  proof cases
    case 1
    then have l: "l = [cr, lf]" "ls = keep_lines (tl s)" using 2(4) by auto
    moreover have "lf # tl s = s" using 1 by (metis list.collapse)
    moreover have "ended [cr, lf] t" for t unfolding ended_def by (intro exI [of _ "[]"] exI [of _ "[cr, lf]"]) simp
    ultimately show ?thesis using 1 by (auto simp: keep_lines_concat)
  next
    case 2
    then have l: "l = [c]" "ls = keep_lines s" using \<open>keep_lines (c # s) = l # ls\<close> by auto
    have "ended [c] s" unfolding ended_def using 2 by (intro exI [of _ "[]"] exI [of _ "[c]"]) auto
    then show ?thesis using l by (simp add: keep_lines_concat)
  next
    case 3
    show ?thesis
    proof (cases "keep_lines s")
      case Nil
      then have "s = []" using keep_lines_concat [of s] by simp
      then show ?thesis using 2(4) 3 by auto
    next
      case (Cons k ks)
      then have l: "l = c # k" "ls = ks" using 2(4) 3 by auto
      then show ?thesis using 2(3) [OF 3 Cons] 3(2) ended_Cons by auto
    qed
  qed
qed simp

lemma ended_mono: "ended l s \<Longrightarrow> s \<noteq> [] \<Longrightarrow> t = [] \<or> hd t \<noteq> lf \<Longrightarrow> ended l t"
  unfolding ended_def by auto

text \<open>All lines but the last end with a boundary, so the text after them may be exchanged.\<close>

lemma keep_lines_prefix:
  assumes "keep_lines s = ls @ ms" and "ms \<noteq> []" and "t = [] \<or> hd t \<noteq> lf"
  shows "keep_lines (concat ls @ t) = ls @ keep_lines t"
  using assms(1)
proof (induction ls arbitrary: s)
  case (Cons l ls)
  have k: "keep_lines (concat (ls @ ms)) = ls @ ms" "ended l (concat (ls @ ms))"
    using keep_lines_Cons [of s l "ls @ ms"] Cons.prems assms(2) by auto
  have ne: "concat (ls @ ms) \<noteq> []" using k(1) assms(2) by (metis Nil_is_append_conv keep_lines.simps(1))
  have "ended l (concat ls @ t)"
  proof (cases "concat ls")
    case Nil
    then have "concat ls @ t = t" by (simp only: append_Nil)
    then show ?thesis using ended_mono [OF k(2) ne assms(3)] by (simp only:)
  next
    case (Cons c cs)
    then have "hd (concat ls @ t) = hd (concat (ls @ ms))" "concat ls @ t \<noteq> []" by auto
    then show ?thesis using k(2) ne unfolding ended_def by metis
  qed
  then show ?case using Cons.IH [OF k(1)] keep_lines_ended [of l "concat ls @ t"] by simp
qed simp

lemma keep_lines_suffix: "keep_lines s = ls @ ms \<Longrightarrow> keep_lines (concat ms) = ms"
proof (induction ls arbitrary: s)
  case Nil
  then show ?case using keep_lines_concat [of s] by simp
next
  case (Cons l ls)
  then show ?case using keep_lines_Cons [of s l "ls @ ms"] by auto
qed

section \<open>Scanning\<close>

lemma scan_shift: "scan (offset + k) fence ls = (map (apsnd ((+) k)) (fst (scan offset fence ls)), snd (scan offset fence ls))"
proof (induction ls arbitrary: offset fence)
  case (Cons l ls)
  obtain f m where fm: "line_step fence l = (f, m)" by fastforce
  obtain ms g where mg: "scan (offset + length l) f ls = (ms, g)" by fastforce
  have "scan (offset + k + length l) f ls = (map (apsnd ((+) k)) ms, g)" using Cons [of "offset + length l" f] mg by (simp add: add.commute add.left_commute)
  then show ?case using fm mg by (auto split: option.splits simp: add.left_commute)
qed simp

lemma scan_silent: "fst (scan offset fence ls) = [] \<longleftrightarrow> fst (scan 0 fence ls) = []" "snd (scan offset fence ls) = snd (scan 0 fence ls)"
  using scan_shift [of 0 offset fence ls] by simp_all

lemma scan_append:
  "scan offset fence (ls @ ms) = (fst (scan offset fence ls) @ fst (scan (offset + length (concat ls)) (snd (scan offset fence ls)) ms),
     snd (scan (offset + length (concat ls)) (snd (scan offset fence ls)) ms))"
proof (induction ls arbitrary: offset fence)
  case (Cons l ls)
  obtain f m where fm: "line_step fence l = (f, m)" by fastforce
  show ?case using fm Cons [of "offset + length l" f] by (simp add: add.assoc split: option.splits prod.splits)
qed simp

lemma scan_first:
  assumes "scan offset fence ls = ((front, k) # ms, g)"
  obtains ls1 l ls2 j where "ls = ls1 @ l # ls2" and "scan offset fence ls1 = ([], None)" and "line_step None l = (None, Some (front, j))"
    and "k = offset + length (concat ls1) + j" and "scan (offset + length (concat ls1) + length l) None ls2 = (ms, g)"
  using assms
proof (induction ls arbitrary: offset fence thesis)
  case (Cons l ls)
  obtain f m where fm: "line_step fence l = (f, m)" by fastforce
  obtain ns h where nh: "scan (offset + length l) f ls = (ns, h)" by fastforce
  show ?case
  proof (cases m)
    case None
    then have "scan (offset + length l) f ls = ((front, k) # ms, g)" using Cons.prems(2) fm nh by simp
    from Cons.IH [OF _ this] obtain ls1 l' ls2 j where d: "ls = ls1 @ l' # ls2" "scan (offset + length l) f ls1 = ([], None)"
        "line_step None l' = (None, Some (front, j))" "k = offset + length l + length (concat ls1) + j"
        "scan (offset + length l + length (concat ls1) + length l') None ls2 = (ms, g)"
      by metis
    then show ?thesis using Cons.prems(1) [of "l # ls1" l' ls2 j] fm None by (simp add: add.assoc)
  next
    case (Some oj)
    then have "fence = None" "f = None" using fm by (auto simp: line_step_def Let_def split: option.splits if_splits)
    then show ?thesis using Cons.prems Some fm nh by (cases oj) (auto intro: Cons.prems(1) [of "[]" l ls])
  qed
qed simp

text \<open>What a line shows does not depend on how it ends.\<close>

lemma logical_nl: "list_all (\<lambda>c. \<not> is_break c) l \<Longrightarrow> set e \<subseteq> {cr, lf} \<Longrightarrow> logical (l @ e) = l"
proof -
  assume a: "list_all (\<lambda>c. \<not> is_break c) l" "set e \<subseteq> {cr, lf}"
  have "dropWhile (\<lambda>c. c = cr \<or> c = lf) (rev l) = rev l"
  proof (cases "rev l")
    case (Cons c cs)
    then have "c \<in> set l" by (metis list.set_intros(1) set_rev)
    then have "c \<noteq> cr \<and> c \<noteq> lf" using a(1) by (auto simp: list_all_iff)
    then show ?thesis using Cons by simp
  qed simp
  moreover have "dropWhile (\<lambda>c. c = cr \<or> c = lf) (rev e @ rev l) = dropWhile (\<lambda>c. c = cr \<or> c = lf) (rev l)"
    using a(2) by (intro dropWhile_append2) auto
  ultimately show ?thesis by (simp add: logical_def)
qed

lemma logical_idem [simp]: "logical (logical l) = logical l"
proof -
  have "dropWhile P (dropWhile P xs) = dropWhile P xs" for P and xs :: string by (induction xs) auto
  then show ?thesis by (simp add: logical_def)
qed

lemma line_step_logical: "line_step fence (logical l) = line_step fence l"
  by (simp add: line_step_def)

lemma scan_fence_cong: "map logical ls = map logical ms \<Longrightarrow> snd (scan offset fence ls) = snd (scan offset' fence ms)"
proof (induction ls arbitrary: ms offset offset' fence)
  case (Cons l ls)
  then obtain m ms' where m: "ms = m # ms'" "logical l = logical m" "map logical ls = map logical ms'" by auto
  then have "line_step fence l = line_step fence m" by (metis line_step_logical)
  then show ?case using Cons.IH [OF m(3)] m(1) by (auto split: prod.splits) (metis snd_conv)+
qed simp

lemma scan_no_marks: "\<forall>l \<in> set ls. strip (logical l) \<notin> {BEGIN, END} \<Longrightarrow> fst (scan offset fence ls) = []"
  by (induction ls arbitrary: offset fence) (auto simp: line_step_def line_mark_def Let_def split: option.splits prod.splits if_splits)

section \<open>Marker lines\<close>

definition marker :: "bool \<Rightarrow> string" where
  "marker front = (if front then BEGIN else END)"

lemma marker_facts:
  "marker front \<noteq> []" "hd (marker front) = CHR ''<''" "last (marker front) = CHR ''>''" "list_all (\<lambda>c. \<not> is_break c) (marker front)"
  by (cases front; simp add: marker_def BEGIN_def END_def is_break_def)+

lemma bracket_facts: "\<not> is_space (CHR ''<'')" "\<not> is_space (CHR ''>'')" "BEGIN \<noteq> END" "is_space cr" "is_space lf"
  by code_simp+

lemma marker_eq: "s = marker front \<Longrightarrow> s = BEGIN \<longleftrightarrow> front" "s = marker front \<Longrightarrow> s = END \<longleftrightarrow> \<not> front"
  using bracket_facts(3) by (auto simp: marker_def)

lemma strip_decomp: "\<exists>w r. s = w @ strip s @ r \<and> list_all is_space w \<and> list_all is_space r"
proof -
  have "s = takeWhile is_space s @ strip s @ rev (takeWhile is_space (rev (dropWhile is_space s)))"
    unfolding strip_def by (metis rev_append rev_rev_ident takeWhile_dropWhile_id)
  then show ?thesis by (metis list_all_iff set_rev set_takeWhileD)
qed

lemma dropWhile_marker: "list_all is_space w \<Longrightarrow> dropWhile is_space (w @ marker front @ r) = marker front @ r"
  using marker_facts(1,2) [of front] bracket_facts(1) by (induction w) (cases "marker front"; auto)+

lemma strip_marker: "list_all is_space w \<Longrightarrow> list_all is_space r \<Longrightarrow> strip (w @ marker front @ r) = marker front"
proof -
  assume w: "list_all is_space w" "list_all is_space r"
  have "rev (marker front) \<noteq> []" "hd (rev (marker front)) = CHR ''>''" using marker_facts(1,3) [of front] by (simp_all add: hd_rev)
  then have "dropWhile is_space (rev (marker front)) = rev (marker front)" using bracket_facts(2) by (cases "rev (marker front)") auto
  moreover have "dropWhile is_space (rev r @ rev (marker front)) = dropWhile is_space (rev (marker front))"
    using w(2) by (intro dropWhile_append2) (auto simp: list_all_iff)
  ultimately show ?thesis using dropWhile_marker [OF w(1)] by (simp add: strip_def)
qed

lemma logical_decomp: "\<exists>e. l = logical l @ e \<and> set e \<subseteq> {cr, lf}"
proof -
  have "l = logical l @ rev (takeWhile (\<lambda>c. c = cr \<or> c = lf) (rev l))"
    unfolding logical_def by (metis rev_append rev_rev_ident takeWhile_dropWhile_id)
  moreover have "set (rev (takeWhile (\<lambda>c. c = cr \<or> c = lf) (rev l))) \<subseteq> {cr, lf}" by (auto dest: set_takeWhileD)
  ultimately show ?thesis by blast
qed

lemma logical_append: "x \<noteq> [] \<Longrightarrow> last x \<noteq> cr \<Longrightarrow> last x \<noteq> lf \<Longrightarrow> logical (x @ r) = x @ logical r"
proof -
  assume x: "x \<noteq> []" "last x \<noteq> cr" "last x \<noteq> lf"
  obtain e where e: "r = logical r @ e" "set e \<subseteq> {cr, lf}" using logical_decomp by blast
  have "logical ((x @ logical r) @ e) = logical (x @ logical r)"
    unfolding logical_def rev_append [of "x @ _"] using e(2) by (subst dropWhile_append2) auto
  moreover have "x @ r = (x @ logical r) @ e" using e(1) by simp
  ultimately have r: "logical (x @ r) = rev (dropWhile (\<lambda>c. c = cr \<or> c = lf) (rev (logical r) @ rev x))"
    by (simp only: logical_def [of "x @ logical r"] rev_append)
  show ?thesis
  proof (cases "rev (logical r)")
    case Nil
    obtain y c where "x = y @ [c]" using x(1) by (metis rev_exhaust)
    then show ?thesis using r Nil x by simp
  next
    case (Cons c cs)
    have "dropWhile (\<lambda>c. c = cr \<or> c = lf) (rev (logical r)) = rev (logical r)" using logical_idem [of r] unfolding logical_def by (metis rev_rev_ident)
    then have "hd (rev (logical r)) \<noteq> cr \<and> hd (rev (logical r)) \<noteq> lf" using hd_dropWhile [of "\<lambda>c. c = cr \<or> c = lf" "rev (logical r)"] Cons by auto
    then have "c \<noteq> cr \<and> c \<noteq> lf" unfolding Cons by simp
    then have "dropWhile (\<lambda>c. c = cr \<or> c = lf) (rev (logical r) @ rev x) = rev (logical r) @ rev x" unfolding Cons by simp
    then show ?thesis using r by simp
  qed
qed

lemma index_marker: "list_all is_space w \<Longrightarrow> index_of (marker front) (w @ marker front @ r) = length w"
proof (induction w)
  case Nil
  then show ?case using marker_facts(1) [of front] by (cases "marker front") (auto simp: startswith_iff)
next
  case (Cons c w)
  have "\<not> startswith ((c # w) @ marker front @ r) (marker front)"
  proof
    assume "startswith ((c # w) @ marker front @ r) (marker front)"
    then have "c = hd (marker front)" using marker_facts(1) [of front] by (cases "marker front") auto
    then show False using Cons.prems marker_facts(2) [of front] bracket_facts(1) by simp
  qed
  then show ?case using Cons by simp
qed

lemma line_step_marker:
  assumes "list_all is_space w" and "list_all is_space r"
  shows "line_step None (w @ marker front @ r) = (None, Some (front, length w))"
proof -
  have "last (w @ marker front) = CHR ''>''" "w @ marker front \<noteq> []" using marker_facts(1,3) [of front] by simp_all
  moreover have "CHR ''>'' \<noteq> cr" "CHR ''>'' \<noteq> lf" by (simp_all add: cr_def lf_def)
  ultimately have l: "logical (w @ marker front @ r) = w @ marker front @ logical r" using logical_append [of "w @ marker front" r] by simp
  have sp: "list_all is_space (logical r)" using logical_decomp [of r] assms(2) by (metis list_all_append)
  note s = strip_marker [OF assms(1) sp, of front] and d = dropWhile_marker [OF assms(1), of front "logical r"]
  obtain m where m: "marker front = CHR ''<'' # m" using marker_facts(1,2) [of front] by (cases "marker front") auto
  have q: "\<not> quoted (w @ marker front @ logical r)" "fence_token (w @ marker front @ logical r) = None"
    unfolding quoted_def fence_token_def Let_def d by (simp_all add: m)
  have "line_mark (w @ marker front @ logical r) = Some (front, length w)"
    using s index_marker [OF assms(1), of front "logical r"] bracket_facts(3) unfolding line_mark_def marker_def by (cases front) auto
  then show ?thesis using q l by (simp add: line_step_def)
qed

lemma line_step_Some:
  assumes "line_step fence l = (f, Some (front, k))"
  shows "\<exists>w r. l = w @ marker front @ r \<and> list_all is_space w \<and> list_all is_space r \<and> k = length w"
proof -
  have m: "line_mark (logical l) = Some (front, k)" using assms by (auto simp: line_step_def Let_def split: option.splits if_splits)
  then have s: "strip (logical l) = marker front" by (auto simp: line_mark_def marker_def split: if_splits)
  obtain w r where wr: "logical l = w @ marker front @ r" "list_all is_space w" "list_all is_space r" using strip_decomp [of "logical l"] s by metis
  have "k = index_of (marker front) (logical l)" using m by (auto simp: line_mark_def marker_def split: if_splits)
  then have "k = length w" using wr index_marker by simp
  obtain e where e: "l = logical l @ e" "set e \<subseteq> {cr, lf}" using logical_decomp by blast
  have "list_all is_space (r @ e)" using wr(3) e(2) bracket_facts(4,5) by (auto simp: list_all_iff)
  moreover have "l = w @ marker front @ r @ e" using e(1) wr(1) by (metis append.assoc)
  ultimately show ?thesis using wr(2) \<open>k = length w\<close> by blast
qed


section \<open>A text around its block\<close>

text \<open>The text before a block: lines without marker and with every fence closed, and the indentation of the block.\<close>

definition clean_before :: "string \<Rightarrow> bool" where
  "clean_before pre \<longleftrightarrow> (\<exists>ls w. pre = concat ls @ w \<and> list_all (\<lambda>c. is_space c \<and> \<not> is_break c) w
     \<and> (\<forall>t. t = [] \<or> hd t \<noteq> lf \<longrightarrow> keep_lines (concat ls @ t) = ls @ keep_lines t) \<and> scan 0 None ls = ([], None))"

text \<open>The text after a block: white space to the end of the line, and lines without marker.\<close>

definition clean_after :: "string \<Rightarrow> bool" where
  "clean_after suf \<longleftrightarrow> (\<exists>r ls. suf = r @ concat ls \<and> list_all is_space r
     \<and> (\<forall>m. m \<noteq> [] \<and> list_all (\<lambda>c. \<not> is_break c) m \<longrightarrow> keep_lines (m @ suf) = (m @ r) # ls) \<and> fst (scan 0 None ls) = [])"

lemma line_break_last:
  assumes "ended (x @ c # y) s \<or> list_all (\<lambda>c. \<not> is_break c) (x @ c # y)" and "is_break c"
  shows "y = [] \<or> y = [lf]"
proof -
  have "ended (x @ c # y) s" using assms by auto
  then obtain b e where be: "x @ c # y = b @ e" "list_all (\<lambda>c. \<not> is_break c) b" "e = [cr, lf] \<or> (\<exists>c. e = [c])"
    by (auto simp: ended_def)
  have "length b \<le> length x"
  proof (rule ccontr)
    assume "\<not> ?thesis"
    then have "(x @ c # y) ! length x = b ! length x" "length x < length b" using be(1) by (simp_all add: nth_append)
    then have "c \<in> set b" by simp
    then show False using be(2) assms(2) by (auto simp: list_all_iff)
  qed
  then obtain z where "x = b @ z" "e = z @ c # y" using be(1) by (metis append_eq_append_conv_if append_eq_conv_conj append_take_drop_id)
  then show ?thesis using be(3) by (cases z) (auto simp: append_eq_Cons_conv)
qed

lemma marker_line_indent:
  assumes "ended (w @ marker front @ r) s \<or> list_all (\<lambda>c. \<not> is_break c) (w @ marker front @ r)"
  shows "list_all (\<lambda>c. \<not> is_break c) w"
  unfolding list_all_iff
proof
  fix c assume "c \<in> set w"
  then obtain x y where w: "w = x @ c # y" by (meson split_list)
  show "\<not> is_break c"
  proof
    assume "is_break c"
    then have "y @ marker front @ r = [] \<or> y @ marker front @ r = [lf]" using line_break_last [of x c "y @ marker front @ r" s] assms w by simp
    then have "marker front = [] \<or> marker front = [lf]" by (auto simp: append_eq_Cons_conv)
    then show False using marker_facts(1,4) [of front] by auto
  qed
qed

lemma ended_same_end:
  assumes "ended (x @ r) s" and "list_all (\<lambda>c. \<not> is_break c) x" and "list_all (\<lambda>c. \<not> is_break c) y"
  shows "ended (y @ r) s"
proof -
  obtain b e where be: "x @ r = b @ e" "list_all (\<lambda>c. \<not> is_break c) b" "e = [cr, lf] \<or> (\<exists>c. e = [c] \<and> is_break c \<and> \<not> (c = cr \<and> s \<noteq> [] \<and> hd s = lf))"
    using assms(1) by (auto simp: ended_def)
  then have e: "e \<noteq> []" "is_break (hd e)" by auto
  have "length x \<le> length b"
  proof (rule ccontr)
    assume "\<not> ?thesis"
    then have "length b < length x" by simp
    then have "x ! length b = (b @ e) ! length b" using be(1) by (metis nth_append)
    then have "x ! length b = hd e" using e(1) by (simp add: nth_append hd_conv_nth)
    then have "hd e \<in> set x" using \<open>length b < length x\<close> by (metis nth_mem)
    then show False using assms(2) e(2) by (auto simp: list_all_iff)
  qed
  then obtain z where z: "b = x @ z" "r = z @ e" using be(1) by (metis append_eq_append_conv_if append_eq_conv_conj append_take_drop_id)
  then have "y @ r = (y @ z) @ e" "list_all (\<lambda>c. \<not> is_break c) (y @ z)" using be(2) assms(3) by auto
  then show ?thesis unfolding ended_def using be(3) by blast
qed

lemma keep_lines_line_end:
  assumes "keep_lines s = (x @ r) # ls" and "list_all (\<lambda>c. \<not> is_break c) x" and "y \<noteq> []" and "list_all (\<lambda>c. \<not> is_break c) y"
  shows "keep_lines (y @ r @ concat ls) = (y @ r) # ls"
proof -
  have k: "keep_lines (concat ls) = ls" "ended (x @ r) (concat ls) \<or> ls = [] \<and> list_all (\<lambda>c. \<not> is_break c) (x @ r)"
    using keep_lines_Cons [OF assms(1)] by auto
  from k(2) show ?thesis
  proof
    assume "ended (x @ r) (concat ls)"
    then show ?thesis using keep_lines_ended [OF ended_same_end [OF _ assms(2,4)]] k(1) by simp
  next
    assume "ls = [] \<and> list_all (\<lambda>c. \<not> is_break c) (x @ r)"
    then show ?thesis using keep_lines_open [of "y @ r"] assms(3,4) by simp
  qed
qed

text \<open>Splitting a text at its block gives two such texts.\<close>

lemma split_existing_clean:
  assumes "split_existing text = Inr (pre, Some current, suf)"
  shows "text = pre @ current @ suf \<and> clean_before pre \<and> clean_after suf"
proof -
  let ?ms = "fst (scan 0 None (keep_lines text))"
  obtain b e where be: "map snd (filter fst ?ms) = [b]" "map snd (filter (\<lambda>m. \<not> fst m) ?ms) = [e]" "b < e"
      "pre = take b text" "current = take (e + length END - b) (drop b text)" "suf = drop (e + length END) text"
    using assms by (auto simp: split_existing_def marker_offsets_def Let_def length_Suc_conv split: if_splits prod.splits)
  have "length (filter fst ?ms) = 1" "length (filter (\<lambda>m. \<not> fst m) ?ms) = 1" using be(1,2) by (metis length_map length_Cons list.size(3) One_nat_def)+
  then have "length ?ms = 2" using sum_length_filter_compl [of fst ?ms] by simp
  then obtain m n g where mn: "scan 0 None (keep_lines text) = ([m, n], g)" by (cases "scan 0 None (keep_lines text)") (auto simp: numeral_2_eq_2 length_Suc_conv)
  obtain ls1 l ls2 j where s1: "keep_lines text = ls1 @ l # ls2" "scan 0 None ls1 = ([], None)" "line_step None l = (None, Some (fst m, j))"
      "snd m = 0 + length (concat ls1) + j" "scan (0 + length (concat ls1) + length l) None ls2 = ([n], g)"
    using scan_first [of 0 None "keep_lines text" "fst m" "snd m" "[n]" g] mn by (metis prod.collapse)
  obtain ls3 l' ls4 k where s2: "ls2 = ls3 @ l' # ls4" "line_step None l' = (None, Some (fst n, k))"
      "snd n = 0 + length (concat ls1) + length l + length (concat ls3) + k"
      "scan (0 + length (concat ls1) + length l + length (concat ls3) + length l') None ls4 = ([], g)"
    using scan_first [of "0 + length (concat ls1) + length l" None ls2 "fst n" "snd n" "[]" g] s1(5) by (metis prod.collapse)
  obtain w r where w: "l = w @ marker (fst m) @ r" "list_all is_space w" "j = length w" using line_step_Some [OF s1(3)] by blast
  obtain w' r' where w': "l' = w' @ marker (fst n) @ r'" "list_all is_space r'" "k = length w'" using line_step_Some [OF s2(2)] by blast
  have "snd m < snd n" using s1(4) s2(3) w(1,3) marker_facts(1) [of "fst m"] by simp
  then have o: "fst m" "\<not> fst n" "snd m = b" "snd n = e" using be(1-3) mn by (auto split: if_splits)
  have t: "text = concat ls1 @ l @ concat ls3 @ l' @ concat ls4" using keep_lines_concat [of "text"] s1(1) s2(1) by simp
  have pre: "pre = concat ls1 @ w" using be(4) o(3) s1(4) w t by simp
  have "e + length END = length (concat ls1 @ l @ concat ls3 @ w' @ END)" using o(4) s2(3) w'(3) by simp
  then have suf: "suf = r' @ concat ls4" using be(6) t w'(1) o(2) by (simp add: marker_def)
  have eq: "text = pre @ current @ suf"
    using be(3-6) by (metis add_diff_inverse_nat append_take_drop_id drop_drop less_or_eq_imp_le not_less trans_le_add1 add.commute)
  have el: "ended l (concat ls2) \<or> list_all (\<lambda>c. \<not> is_break c) l" "keep_lines (concat (l # ls2)) = l # ls2"
    using keep_lines_suffix [OF s1(1)] keep_lines_Cons [of "concat (l # ls2)" l ls2] by auto
  have kp: "keep_lines (concat (l' # ls4)) = l' # ls4" using keep_lines_suffix [of "text" "ls1 @ l # ls3" "l' # ls4"] s1(1) s2(1) by simp
  then have el': "ended l' (concat ls4) \<or> list_all (\<lambda>c. \<not> is_break c) l'" using keep_lines_Cons [of "concat (l' # ls4)" l' ls4] by auto
  have nb: "list_all (\<lambda>c. \<not> is_break c) w" using marker_line_indent el(1) w(1) by blast
  have "list_all (\<lambda>c. \<not> is_break c) w'" using marker_line_indent el' w'(1) by blast
  then have nb': "list_all (\<lambda>c. \<not> is_break c) (w' @ marker (fst n))" using marker_facts(4) [of "fst n"] by simp
  have "clean_before pre" unfolding clean_before_def
    using pre nb w(2) s1(2) keep_lines_prefix [of "text" ls1 "l # ls2"] s1(1) by (intro exI [of _ ls1] exI [of _ w]) (auto simp: list_all_iff)
  moreover have "clean_after suf" unfolding clean_after_def
  proof (intro exI conjI allI impI)
    show "suf = r' @ concat ls4" by (rule suf)
    show "list_all is_space r'" by (rule w'(2))
    show "fst (scan 0 None ls4) = []" using s2(4) scan_silent(1) by (metis fst_conv)
    fix m' assume "m' \<noteq> [] \<and> list_all (\<lambda>c. \<not> is_break c) m'"
    then show "keep_lines (m' @ suf) = (m' @ r') # ls4"
      using keep_lines_line_end [of "concat (l' # ls4)" "w' @ marker (fst n)" r' ls4 m'] kp w'(1) nb' suf by simp
  qed
  ultimately show ?thesis using eq by blast
qed

text \<open>And a block between two such texts is found.\<close>

definition newlines :: "string set" where "newlines = {[lf], [cr, lf]}"

lemma newline_of_newlines [simp]: "newline_of text \<in> newlines"
  by (simp add: newline_of_def newlines_def Let_def)

lemma ended_newline: "nl \<in> newlines \<Longrightarrow> list_all (\<lambda>c. \<not> is_break c) b \<Longrightarrow> ended (b @ nl) s"
  unfolding ended_def newlines_def by (intro exI [of _ b] exI [of _ nl]) auto

definition body_lines :: "string \<Rightarrow> string list" where
  "body_lines template = (case split_lines (strip template) of [] \<Rightarrow> [[]] | ls \<Rightarrow> ls)"

lemma keep_lines_body:
  assumes "nl \<in> newlines" and "\<forall>l \<in> set ls. list_all (\<lambda>c. \<not> is_break c) l"
  shows "keep_lines (join nl ls @ nl @ s) = map (\<lambda>l. l @ nl) (case ls of [] \<Rightarrow> [[]] | ls \<Rightarrow> ls) @ keep_lines s"
  using assms
proof (induction nl ls rule: join.induct)
  case (1 sep)
  then show ?case using keep_lines_ended [OF ended_newline [of sep "[]" s]] by simp
next
  case (2 sep l)
  then show ?case using keep_lines_ended [OF ended_newline [of sep l s]] by simp
next
  case (3 sep l k ls)
  then show ?case using keep_lines_ended [OF ended_newline [of sep l "join sep (k # ls) @ sep @ s"]] by simp
qed


text \<open>A template whose code fences are closed.\<close>

definition fences_closed :: "string list \<Rightarrow> bool" where
  "fences_closed ls \<longleftrightarrow> snd (scan 0 None ls) = None"

lemma keep_lines_parts: "l \<in> set (keep_lines s) \<Longrightarrow> list_all (\<lambda>c. \<not> is_break c) (line_text l)"
  by (auto simp: line_text_def list_all_iff dest: set_takeWhileD)

lemma managed_block_Inr:
  assumes "managed_block template nl = Inr desired" and "nl \<in> newlines"
  shows "desired = BEGIN @ nl @ concat (map (\<lambda>l. l @ nl) (body_lines template)) @ END
    \<and> (\<forall>s. keep_lines (concat (map (\<lambda>l. l @ nl) (body_lines template)) @ s) = map (\<lambda>l. l @ nl) (body_lines template) @ keep_lines s)
    \<and> (\<forall>l \<in> set (body_lines template). list_all (\<lambda>c. \<not> is_break c) l \<and> strip l \<notin> {BEGIN, END})"
proof -
  let ?b = "split_lines (strip template)"
  have d: "desired = BEGIN @ nl @ join nl ?b @ nl @ END" "\<forall>l \<in> set ?b. strip l \<notin> {BEGIN, END}"
    using assms(1) by (auto simp: managed_block_def Let_def split: if_splits)
  have nb: "\<forall>l \<in> set ?b. list_all (\<lambda>c. \<not> is_break c) l" using keep_lines_parts by (auto simp: split_lines_def)
  have k: "keep_lines (join nl ?b @ nl @ s) = map (\<lambda>l. l @ nl) (body_lines template) @ keep_lines s" for s
    using keep_lines_body [OF assms(2) nb] by (simp add: body_lines_def)
  have j: "join nl ?b @ nl = concat (map (\<lambda>l. l @ nl) (body_lines template))"
    using keep_lines_concat [of "join nl ?b @ nl"] k [of "[]"] by simp
  have "strip [] \<notin> {BEGIN, END}" by code_simp
  then have "\<forall>l \<in> set (body_lines template). list_all (\<lambda>c. \<not> is_break c) l \<and> strip l \<notin> {BEGIN, END}"
    using d(2) nb by (auto simp: body_lines_def split: list.splits)
  then show ?thesis using d(1) k j by (metis append.assoc)
qed

lemma body_scan:
  assumes "\<forall>l \<in> set (body_lines template). list_all (\<lambda>c. \<not> is_break c) l \<and> strip l \<notin> {BEGIN, END}"
    and "nl \<in> newlines" and "fences_closed (split_lines (strip template))"
  shows "scan k None (map (\<lambda>l. l @ nl) (body_lines template)) = ([], None)"
proof -
  let ?b = "body_lines template"
  have "set nl \<subseteq> {cr, lf}" using assms(2) by (auto simp: newlines_def)
  then have l: "logical (l @ nl) = l" "logical l = l" if "l \<in> set ?b" for l
    using that assms(1) logical_nl [of l nl] logical_nl [of l "[]"] by auto
  then have "fst (scan k None (map (\<lambda>l. l @ nl) ?b)) = []" using assms(1) by (intro scan_no_marks) auto
  moreover have "snd (scan k None (map (\<lambda>l. l @ nl) ?b)) = snd (scan 0 None ?b)" using l by (intro scan_fence_cong) simp
  moreover have "snd (scan 0 None ?b) = None"
  proof (cases "split_lines (strip template)")
    case Nil
    have "line_step None [] = (None, None)" by code_simp
    then show ?thesis using Nil by (simp add: body_lines_def)
  qed (use assms(3) in \<open>simp add: body_lines_def fences_closed_def\<close>)
  ultimately show ?thesis by (metis prod.collapse)
qed

lemma block_found:
  assumes "clean_before pre" and "clean_after suf" and "managed_block template nl = Inr desired" and "nl \<in> newlines"
    and "fences_closed (split_lines (strip template))"
  shows "split_existing (pre @ desired @ suf) = Inr (pre, Some desired, suf)"
proof -
  obtain ls w where p: "pre = concat ls @ w" "list_all (\<lambda>c. is_space c \<and> \<not> is_break c) w"
      "\<And>t. t = [] \<or> hd t \<noteq> lf \<Longrightarrow> keep_lines (concat ls @ t) = ls @ keep_lines t" "scan 0 None ls = ([], None)"
    using assms(1) unfolding clean_before_def by blast
  obtain r ms where s: "suf = r @ concat ms" "list_all is_space r" "\<And>m. m \<noteq> [] \<Longrightarrow> list_all (\<lambda>c. \<not> is_break c) m \<Longrightarrow> keep_lines (m @ suf) = (m @ r) # ms"
      "fst (scan 0 None ms) = []"
    using assms(2) unfolding clean_after_def by blast
  let ?b = "map (\<lambda>l. l @ nl) (body_lines template)"
  have d: "desired = BEGIN @ nl @ concat ?b @ END" "\<And>s. keep_lines (concat ?b @ s) = ?b @ keep_lines s"
      "\<forall>l \<in> set (body_lines template). list_all (\<lambda>c. \<not> is_break c) l \<and> strip l \<notin> {BEGIN, END}"
    using managed_block_Inr [OF assms(3,4)] by auto
  have w: "list_all is_space w" "list_all (\<lambda>c. \<not> is_break c) (w @ BEGIN)" using p(2) marker_facts(4) [of True] by (auto simp: list_all_iff marker_def)
  have E: "END \<noteq> []" "list_all (\<lambda>c. \<not> is_break c) END" using marker_facts(1,4) [of False] by (simp_all add: marker_def)
  have h: "hd (w @ BEGIN @ x) \<noteq> lf" for x using p(2) by (cases w) (auto simp: BEGIN_def lf_def is_break_def)
  have "keep_lines (pre @ desired @ suf) = ls @ keep_lines ((w @ BEGIN @ nl) @ concat ?b @ END @ suf)"
    using p(3) [of "w @ BEGIN @ nl @ concat ?b @ END @ suf"] h p(1) d(1) by simp
  also have "keep_lines ((w @ BEGIN @ nl) @ concat ?b @ END @ suf) = (w @ BEGIN @ nl) # keep_lines (concat ?b @ END @ suf)"
    using keep_lines_ended [OF ended_newline [OF assms(4) w(2)]] by simp
  also have "keep_lines (concat ?b @ END @ suf) = ?b @ (END @ r) # ms" using d(2) s(3) E by simp
  finally have k: "keep_lines (pre @ desired @ suf) = ls @ (w @ BEGIN @ nl) # ?b @ (END @ r) # ms" .
  have sp: "list_all is_space nl" using assms(4) bracket_facts(4,5) by (auto simp: newlines_def)
  have l1: "line_step None (w @ BEGIN @ nl) = (None, Some (True, length w))" using line_step_marker [OF w(1) sp, of True] by (simp add: marker_def)
  have l2: "line_step None (END @ r) = (None, Some (False, 0))" using line_step_marker [of "[]" r False] s(2) by (simp add: marker_def)
  have "fst (scan x None ms) = []" for x using s(4) scan_silent(1) by blast
  then have "fst (scan x None (?b @ (END @ r) # ms)) = [(False, x + length (concat ?b))]" for x
    using body_scan [OF d(3) assms(4,5)] l2 by (simp add: scan_append split: prod.splits) (metis fst_conv)
  then have "fst (scan 0 None (keep_lines (pre @ desired @ suf))) = [(True, length pre), (False, length (pre @ BEGIN @ nl @ concat ?b))]"
    unfolding k using p(1,4) l1 by (simp add: scan_append split: prod.splits)
  then have "marker_offsets (pre @ desired @ suf) = ([length pre], [length (pre @ BEGIN @ nl @ concat ?b)])"
    by (simp add: marker_offsets_def)
  then show ?thesis using marker_facts(1) [of True] unfolding split_existing_def d(1) by (simp add: marker_def)
qed


section \<open>Adding a block\<close>

text \<open>A line break at the end of a text ends its last line or adds an empty one.\<close>

lemma keep_lines_snoc:
  assumes "c = cr \<or> c = lf"
  shows "keep_lines (s @ [c]) = keep_lines s @ [[c]] \<or> (\<exists>ls l. keep_lines s = ls @ [l] \<and> keep_lines (s @ [c]) = ls @ [l @ [c]])"
proof (induction s rule: keep_lines.induct)
  case 1
  then show ?case using assms by auto
next
  case (2 b s)
  consider "b = cr \<and> s \<noteq> [] \<and> hd s = lf" | "\<not> (b = cr \<and> s \<noteq> [] \<and> hd s = lf)" "is_break b" | "\<not> (b = cr \<and> s \<noteq> [] \<and> hd s = lf)" "\<not> is_break b" by blast
  then show ?case
  proof cases
    case 1
    then have "keep_lines ((b # s) @ [c]) = [cr, lf] # keep_lines (tl s @ [c])" "keep_lines (b # s) = [cr, lf] # keep_lines (tl s)" by simp_all
    then show ?thesis using 2(1) [OF 1] by (metis append_Cons)
  next
    case 2
    note b = this
    show ?thesis
    proof (cases "b = cr \<and> s = [] \<and> c = lf")
      case True
      then show ?thesis by (intro disjI2 exI [of _ "[]"] exI [of _ "[cr]"]) simp
    next
      case False
      then have "keep_lines ((b # s) @ [c]) = [b] # keep_lines (s @ [c])" "keep_lines (b # s) = [b] # keep_lines s" using b by (auto simp: hd_append)
      then show ?thesis using \<open>\<lbrakk>\<not> (b = cr \<and> s \<noteq> [] \<and> hd s = lf); is_break b\<rbrakk> \<Longrightarrow> _\<close> b by (metis append_Cons)
    qed
  next
    case 3
    then have b: "b \<noteq> cr" by auto
    have IH: "keep_lines (s @ [c]) = keep_lines s @ [[c]] \<or> (\<exists>ls l. keep_lines s = ls @ [l] \<and> keep_lines (s @ [c]) = ls @ [l @ [c]])" using 2(3) [OF 3] .
    show ?thesis
    proof (cases "keep_lines s")
      case Nil
      then have "s = []" using keep_lines_concat [of s] by simp
      then show ?thesis using 3 b assms by (intro disjI2 exI [of _ "[]"] exI [of _ "[b]"]) auto
    next
      case (Cons k ks)
      then have ks: "keep_lines (b # s) = (b # k) # ks" using 3 b by simp
      from IH show ?thesis
      proof
        assume "keep_lines (s @ [c]) = keep_lines s @ [[c]]"
        then show ?thesis using ks Cons 3 b by simp
      next
        assume "\<exists>ls l. keep_lines s = ls @ [l] \<and> keep_lines (s @ [c]) = ls @ [l @ [c]]"
        then obtain ls l where l: "keep_lines s = ls @ [l]" "keep_lines (s @ [c]) = ls @ [l @ [c]]" by blast
        show ?thesis
        proof (cases ls)
          case Nil
          then show ?thesis using l ks Cons 3 b by (intro disjI2 exI [of _ "[]"] exI [of _ "b # l"]) simp
        next
          case ls: (Cons m ms)
          then show ?thesis using l ks Cons 3 b by (intro disjI2 exI [of _ "(b # m) # ms"] exI [of _ l]) simp
        qed
      qed
    qed
  qed
qed

lemma logical_snoc: "c = cr \<or> c = lf \<Longrightarrow> logical (l @ [c]) = logical l"
  by (auto simp: logical_def)

lemma scan_snoc:
  assumes "c = cr \<or> c = lf"
  shows "scan k fence (keep_lines (s @ [c])) = scan k fence (keep_lines s)"
  using keep_lines_snoc [OF assms, of s]
proof
  have "line_step f [c] = (f, None)" for f
  proof -
    have "logical [c] = []" using assms by (auto simp: logical_def)
    moreover have "\<not> quoted []" "fence_token [] = None" "line_mark [] = None" by code_simp+
    ultimately show ?thesis by (simp add: line_step_def)
  qed
  moreover assume "keep_lines (s @ [c]) = keep_lines s @ [[c]]"
  ultimately show ?thesis by (simp add: scan_append)
next
  assume "\<exists>ls l. keep_lines s = ls @ [l] \<and> keep_lines (s @ [c]) = ls @ [l @ [c]]"
  moreover have "line_step f (l @ [c]) = line_step f l" for f l using logical_snoc [OF assms] by (metis line_step_logical)
  ultimately show ?thesis by (auto simp: scan_append)
qed

lemma scan_breaks: "set e \<subseteq> {cr, lf} \<Longrightarrow> scan k fence (keep_lines (s @ e)) = scan k fence (keep_lines s)"
proof (induction e rule: rev_induct)
  case (snoc c e)
  then show ?case using scan_snoc [of c k fence "s @ e"] by auto
qed simp

lemma keep_lines_after_lf: "x = [] \<or> last x = lf \<Longrightarrow> keep_lines (x @ t) = keep_lines x @ keep_lines t"
proof (induction x rule: keep_lines.induct)
  case (2 b s)
  consider "b = cr \<and> s \<noteq> [] \<and> hd s = lf" | "\<not> (b = cr \<and> s \<noteq> [] \<and> hd s = lf)" "is_break b" | "\<not> (b = cr \<and> s \<noteq> [] \<and> hd s = lf)" "\<not> is_break b" by blast
  then show ?case
  proof cases
    case 1
    then have "tl s = [] \<or> last (tl s) = lf" using 2(4) by (cases s) (auto split: if_splits)
    then show ?thesis using 1 2(1) by simp
  next
    case 2
    then have "s = [] \<or> last s = lf" "\<not> (b = cr \<and> s = [])" using \<open>b # s = [] \<or> last (b # s) = lf\<close> by (auto split: if_splits)
    then show ?thesis using 2 \<open>\<lbrakk>\<not> (b = cr \<and> s \<noteq> [] \<and> hd s = lf); is_break b; s = [] \<or> last s = lf\<rbrakk> \<Longrightarrow> _\<close> by auto
  next
    case 3
    then have s: "s \<noteq> []" "last s = lf" "b \<noteq> cr" using 2(4) by (auto split: if_splits)
    obtain k ks where k: "keep_lines s = k # ks" using s(1) keep_lines_concat [of s] by (cases "keep_lines s") auto
    have "keep_lines (s @ t) = keep_lines s @ keep_lines t" using 2(3) [OF 3] s by simp
    then show ?thesis using k 3 s by simp
  qed
qed simp

definition separator :: "string \<Rightarrow> string \<Rightarrow> string" where
  "separator old nl = (if old = [] then [] else if endswith old (nl @ nl) then [] else if endswith old nl then nl else nl @ nl)"

lemma appended_clean:
  assumes "scan 0 None (keep_lines old) = ([], None)" and "nl \<in> newlines"
  shows "clean_before (old @ separator old nl) \<and> clean_after nl"
proof -
  let ?x = "old @ separator old nl"
  have nl: "set nl \<subseteq> {cr, lf}" "nl \<noteq> []" "last nl = lf" using assms(2) by (auto simp: newlines_def)
  then have "set (separator old nl) \<subseteq> {cr, lf}" by (auto simp: separator_def)
  then have s: "scan 0 None (keep_lines ?x) = ([], None)" using scan_breaks assms(1) by simp
  have "?x = [] \<or> last ?x = lf" using nl by (auto simp: separator_def endswith_iff)
  then have "keep_lines (concat (keep_lines ?x) @ t) = keep_lines ?x @ keep_lines t" for t unfolding keep_lines_concat by (rule keep_lines_after_lf)
  then have "clean_before ?x" unfolding clean_before_def using s by (intro exI [of _ "keep_lines ?x"] exI [of _ "[]"]) (simp add: keep_lines_concat)
  moreover have "keep_lines (m @ nl) = [m @ nl]" if "list_all (\<lambda>c. \<not> is_break c) m" for m
    using keep_lines_ended [OF ended_newline [OF assms(2) that, of "[]"]] by simp
  then have "clean_after nl" unfolding clean_after_def using nl(1) bracket_facts(4,5) by (intro exI [of _ nl] exI [of _ "[]"]) (auto simp: list_all_iff)
  ultimately show ?thesis ..
qed


lemma newline_of_prefix: "lf \<in> set pre \<Longrightarrow> newline_of (pre @ s) = newline_of pre"
  by (simp add: newline_of_def)

lemma newline_of_block:
  assumes "lf \<notin> set pre" and "nl \<in> newlines"
  shows "newline_of (pre @ BEGIN @ nl @ s) = nl"
proof -
  have B: "lf \<notin> set BEGIN" "BEGIN \<noteq> []" "last BEGIN \<noteq> cr" by code_simp+
  then have "takeWhile (\<lambda>c. c \<noteq> lf) ((pre @ BEGIN) @ nl @ s) = (pre @ BEGIN) @ takeWhile (\<lambda>c. c \<noteq> lf) (nl @ s)" using assms(1) by (intro takeWhile_append2) auto
  then show ?thesis using assms(2) B by (auto simp: newline_of_def newlines_def)
qed

text \<open>
  The new text of \<open>plan_install\<close>: the block replaces the one that is there, or is appended after an empty
  line. In the second case no fence may be open at the end and the text may not end in a lone carriage
  return, which the line feed after it would turn into another newline convention.
\<close>

definition merged :: "string \<Rightarrow> string \<times> string option \<times> string \<Rightarrow> string \<Rightarrow> string \<Rightarrow> string" where
  "merged old parts desired nl = (case parts of
      (pre, None, suf) \<Rightarrow> old @ separator old nl @ desired @ nl
    | (pre, Some current, suf) \<Rightarrow> pre @ desired @ suf)"

definition appendable :: "string \<Rightarrow> bool" where
  "appendable old \<longleftrightarrow> fences_closed (keep_lines old) \<and> (old = [] \<or> last old \<noteq> cr)"

lemma split_existing_None:
  assumes "split_existing text = Inr (pre, None, suf)"
  shows "pre = text \<and> fst (scan 0 None (keep_lines text)) = []"
proof -
  let ?ms = "fst (scan 0 None (keep_lines text))"
  have "filter fst ?ms = []" "filter (\<lambda>m. \<not> fst m) ?ms = []" "pre = text"
    using assms by (auto simp: split_existing_def marker_offsets_def Let_def split: if_splits prod.splits)
  then show ?thesis using sum_length_filter_compl [of fst ?ms] by (simp del: filter_empty_conv)
qed

lemma merged_stable:
  assumes "split_existing old = Inr parts" and "managed_block template (newline_of old) = Inr desired"
    and "fences_closed (split_lines (strip template))" and "fst (snd parts) = None \<Longrightarrow> appendable old"
  shows "newline_of (merged old parts desired (newline_of old)) = newline_of old
    \<and> (\<exists>pre suf. merged old parts desired (newline_of old) = pre @ desired @ suf
        \<and> split_existing (merged old parts desired (newline_of old)) = Inr (pre, Some desired, suf))"
proof -
  let ?nl = "newline_of old"
  have d: "desired = BEGIN @ ?nl @ concat (map (\<lambda>l. l @ ?nl) (body_lines template)) @ END"
    using managed_block_Inr [OF assms(2)] by simp
  obtain pre cur suf where p: "parts = (pre, cur, suf)" by (cases parts)
  show ?thesis
  proof (cases cur)
    case None
    then have o: "pre = old" "scan 0 None (keep_lines old) = ([], None)" "old = [] \<or> last old \<noteq> cr"
      using split_existing_None [of old pre suf] assms(1,4) p by (auto simp: appendable_def fences_closed_def) (metis prod.collapse)
    have c: "clean_before (old @ separator old ?nl)" "clean_after ?nl" using appended_clean [OF o(2)] by auto
    have m: "merged old parts desired ?nl = (old @ separator old ?nl) @ desired @ ?nl" using p None by (simp add: merged_def)
    have "newline_of ((old @ separator old ?nl) @ desired @ ?nl) = ?nl"
    proof (cases "lf \<in> set old")
      case True
      then show ?thesis using newline_of_prefix [of old] by simp
    next
      case nolf: False
      then have nl: "?nl = [lf]" by (simp add: newline_of_def)
      show ?thesis
      proof (cases "old = []")
        case True
        then show ?thesis using newline_of_block [of "[]" ?nl] d by (simp add: separator_def)
      next
        case False
        have "\<not> endswith old [lf]" "\<not> endswith old [lf, lf]" using nolf by (auto simp: endswith_iff)
        then have "(old @ separator old ?nl) @ desired @ ?nl = old @ lf # lf # desired @ [lf]" using False unfolding nl by (simp add: separator_def)
        moreover have "takeWhile (\<lambda>c. c \<noteq> lf) (old @ lf # s) = old" for s using nolf by (subst takeWhile_append2) auto
        then have "newline_of (old @ lf # s) = [lf]" for s using False o(3) by (simp add: newline_of_def)
        ultimately show ?thesis using nl by simp
      qed
    qed
    then show ?thesis using block_found [OF c assms(2) _ assms(3)] m by auto
  next
    case (Some current)
    have c: "old = pre @ current @ suf" "clean_before pre" "clean_after suf" using split_existing_clean [of old pre current suf] assms(1) p Some by auto
    have m: "merged old parts desired ?nl = pre @ desired @ suf" using p Some by (simp add: merged_def)
    have "newline_of (pre @ desired @ suf) = ?nl"
    proof (cases "lf \<in> set pre")
      case True
      then show ?thesis using newline_of_prefix [of pre] c(1) by simp
    next
      case False
      then show ?thesis using newline_of_block [OF False, of ?nl] d by simp
    qed
    then show ?thesis using block_found [OF c(2,3) assms(2) _ assms(3)] m by auto
  qed
qed

section \<open>The codec\<close>

lemma utf8_decode_encode [simp]: "utf8_decode (utf8_encode s) = Some s"
proof (induction s)
  case (Cons c s)
  have n: "of_char c < (256::nat)" by simp
  show ?case
  proof (cases "of_char c < (128::nat)")
    case False
    let ?n = "of_char c :: nat"
    have "2 \<le> ?n div 64" using div_le_mono [of 128 ?n 64] False by simp
    moreover have "?n div 64 < 4" using n by (simp add: less_mult_imp_div_less)
    ultimately have a: "?n div 64 = 2 \<or> ?n div 64 = 3" by linarith
    have "of_char (char_of (192 + ?n div 64) :: char) = (192 + ?n div 64 :: nat)" "of_char (char_of (128 + ?n mod 64) :: char) = (128 + ?n mod 64 :: nat)"
      using a by (auto simp: of_char_of)
    moreover have "64 * (?n div 64) + ?n mod 64 = ?n" by simp
    ultimately show ?thesis using a False Cons by (auto simp: utf8_encode_def utf8_char_def Let_def)
  qed (use Cons in \<open>simp add: utf8_encode_def utf8_char_def Let_def\<close>)
qed (simp add: utf8_encode_def)

lemma utf8_encode_decode: "utf8_decode b = Some s \<Longrightarrow> utf8_encode s = b"
proof (induction b arbitrary: s rule: utf8_decode.induct)
  case (2 c b)
  show ?case
  proof (cases "of_char c < (128::nat)")
    case True
    then obtain t where "utf8_decode b = Some t" "s = c # t" using 2(3) by (auto simp: Let_def)
    then show ?thesis using 2(1) True by (auto simp: utf8_encode_def utf8_char_def Let_def)
  next
    case False
    let ?n = "of_char c :: nat"
    obtain c' b' where b: "b = c' # b'" using 2(3) False by (auto simp: Let_def split: list.splits)
    let ?m = "of_char c' :: nat"
    obtain t where t: "?n = 194 \<or> ?n = 195" "128 \<le> ?m" "?m < 192" "utf8_decode b' = Some t" "s = char_of (64 * (?n - 192) + (?m - 128)) # t"
      using 2(3) False b by (auto simp: Let_def split: if_splits)
    have e: "utf8_encode t = b'" using 2(2) [OF refl False b] t(1-4) by auto
    let ?k = "64 * (?n - 192) + (?m - 128)"
    obtain i where i: "?m = i + 64 * 2" "i < 64" using t(2,3) by (intro that [of "?m - 128"]) auto
    have j: "?m mod 64 = ?m - 128" unfolding i(1) mod_mult_self2 using i(2) by simp
    have k: "?k < 256" "\<not> ?k < 128" "?k div 64 = ?n - 192" "?k mod 64 = ?m - 128" using t(1-3) j by (auto simp del: diff_is_0_eq simp: div_less mod_less)
    then have o: "of_char (char_of ?k :: char) = ?k" by (simp add: of_char_of)
    have "utf8_char (char_of ?k) = [char_of (192 + ?k div 64), char_of (128 + ?k mod 64)]" unfolding utf8_char_def Let_def o using k by simp
    also have "\<dots> = [c, c']"
    proof -
      have "192 + (?n - 192) = ?n" "128 + (?m - 128) = ?m" using t(1-3) by auto
      then show ?thesis unfolding k(3,4) by (simp only: char_of_char)
    qed
    finally show ?thesis using e t(5) b by (simp add: utf8_encode_def)
  qed
qed (simp add: utf8_encode_def)

end
