(* ===== verification/Bootstrap.thy ===== *)
theory Bootstrap
  imports Markers Modules Recovery
begin

text \<open>
  Installation of the managed block into the root \<open>AGENTS.md\<close>, \<open>agentinfra/bootstrap.py\<close>: plans for
  installing and uninstalling, the two operations with backup, journal and transaction, and the check of
  an installed block. Plans keep the text of the user and are stable; the operations themselves are always
  refused when they would change something, since \<open>AGENTS.md\<close> is a governing file, and a refused
  installation leaves every file as it was.

  A journal is the JSON value of \<open>install.json\<close>; the lock stands for its directory; the file an absolute
  path of a first-generation journal names is the argument \<open>be_legacy\<close>.
\<close>

section \<open>Plans\<close>

definition agents_md :: path where "agents_md = [''AGENTS.md'']"

definition install_state_dir :: path where "install_state_dir = persistent_dir @ [''install-state'']"

definition bootstrap_dir :: path where "bootstrap_dir = install_state_dir @ [''bootstrap'']"

definition install_journal :: path where "install_journal = bootstrap_dir @ [''install.json'']"

definition legacy_journal :: path where "legacy_journal = runtime_dir @ [''bootstrap-install.json'']"

text \<open>\<open>path.read_text(encoding="utf-8")\<close>; every caller strips the text or reads it line by line, so the translation of newlines does not show.\<close>

definition read_text :: "disk \<Rightarrow> path \<Rightarrow> string res" where
  "read_text d p = (case read d p of
      None \<Rightarrow> Inl (if exists d p then OSErr ''not a file'' else FileNotFoundErr)
    | Some b \<Rightarrow> (case utf8_decode b of None \<Rightarrow> Inl (ValueErr ''not UTF-8'') | Some t \<Rightarrow> Inr t))"

definition template_text :: "disk \<Rightarrow> string res" where
  "template_text d = res_bind (framework_dir d) (\<lambda>fw. read_text d (fw @ [''bootstrap'', ''root-AGENTS.block.md'']))"

definition load_journal :: "disk \<Rightarrow> pyval option res" where
  "load_journal d =
    (let legacy = \<not> exists d install_journal \<and> exists d legacy_journal; path = (if legacy then legacy_journal else install_journal) in
     if \<not> exists d path then Inr None
     else case json_at d path of
       None \<Rightarrow> Inl (BootstrapError ''invalid bootstrap journal'')
     | Some value \<Rightarrow>
        if \<not> is_dict value then Inl (BootstrapError ''unsupported bootstrap journal schema'')
        else if unhashable (dget value ''schema'') then Inl TypeErr
        else if \<not> py_eq (dget value ''schema'') (PyInt 1) \<and> \<not> py_eq (dget value ''schema'') (PyInt 2)
        then Inl (BootstrapError ''unsupported bootstrap journal schema'')
        else Inr (Some (dset value ''_legacy_runtime'' (PyBool legacy))))"

definition journal_bytes :: "pyval \<Rightarrow> string" where
  "journal_bytes value = json_text (PyDict (filter (\<lambda>e. \<not> startswith (fst e) ''_'') (entries value)))"

definition bytes_at :: "disk \<Rightarrow> path \<Rightarrow> string res" where
  "bytes_at d p = (case read d p of Some b \<Rightarrow> Inr b | None \<Rightarrow> Inl (OSErr ''cannot read file''))"

record install_plan =
  ip_existed :: bool
  ip_action :: string
  ip_changed :: bool
  ip_before :: string
  ip_after :: string
  ip_block :: string
  ip_newline :: string
  ip_bom :: bool
  ip_old :: string
  ip_new :: string
  ip_old_bytes :: string
  ip_new_bytes :: string
  ip_journal :: "pyval option"

text \<open>The block was edited: it is neither the wanted one nor the one the journal recorded.\<close>

definition edited :: "string option \<Rightarrow> string \<Rightarrow> pyval option \<Rightarrow> bool" where
  "edited current desired journal = (case current of None \<Rightarrow> False
     | Some c \<Rightarrow> c \<noteq> desired \<and> (case journal of None \<Rightarrow> PyNone | Some j \<Rightarrow> dget j ''installed_block_sha256'') \<noteq> PyStr (sha256 (utf8_encode c)))"

definition plan_block :: "disk \<Rightarrow> bool \<Rightarrow> bool \<Rightarrow> string \<Rightarrow> string \<Rightarrow> bool \<Rightarrow> install_plan res" where
  "plan_block d replace_managed_block existed old_bytes old bom =
    res_bind (split_existing old) (\<lambda>parts.
    res_bind (template_text d) (\<lambda>template.
    res_bind (managed_block template (newline_of old)) (\<lambda>desired.
    res_bind (load_journal d) (\<lambda>journal.
    if edited (fst (snd parts)) desired journal \<and> \<not> replace_managed_block
    then Inl (BootstrapError ''existing Aegis block differs from both this framework and the recorded install'')
    else
      let new = merged old parts desired (newline_of old); new_bytes = (if bom then BOM else []) @ utf8_encode new in
      Inr \<lparr>ip_existed = existed,
        ip_action = (if fst (snd parts) = None then (if existed then ''append'' else ''create'') else if new = old then ''noop'' else ''update''),
        ip_changed = (new_bytes \<noteq> old_bytes), ip_before = sha256 old_bytes, ip_after = sha256 new_bytes, ip_block = sha256 (utf8_encode desired),
        ip_newline = (if newline_of old = [cr, lf] then ''CRLF'' else ''LF''), ip_bom = bom, ip_old = old, ip_new = new,
        ip_old_bytes = old_bytes, ip_new_bytes = new_bytes, ip_journal = journal\<rparr>))))"

definition plan_install :: "path \<Rightarrow> disk \<Rightarrow> bool \<Rightarrow> install_plan res" where
  "plan_install root d replace_managed_block =
    res_bind (confined_path root d (Rel agents_md) False False) (\<lambda>target.
    res_bind (if exists d target then bytes_at d target else Inr []) (\<lambda>old_bytes.
    res_bind (decode old_bytes) (\<lambda>(old, bom). plan_block d replace_managed_block (exists d target) old_bytes old bom)))"

text \<open>\<open>verify_installed\<close>: the first component of the answer.\<close>

definition verify_installed :: "disk \<Rightarrow> bool res" where
  "verify_installed d = (case read d agents_md of
      None \<Rightarrow> Inr False
    | Some b \<Rightarrow> (case res_bind (decode b) (\<lambda>(t, bom). res_bind (split_existing t) (\<lambda>(pre, current, suf). Inr (t, current))) of
        Inl e \<Rightarrow> Inr False
      | Inr (t, None) \<Rightarrow> Inr False
      | Inr (t, Some current) \<Rightarrow> res_bind (template_text d) (\<lambda>template. res_bind (managed_block template (newline_of t)) (\<lambda>desired. Inr (current = desired)))))"

section \<open>Installing\<close>

record boot_env =
  be_root :: path
  be_now :: string
  be_tx_uuid :: string
  be_backup_uuid :: string
  be_legacy :: "string \<Rightarrow> path res option"

definition transactions_dir :: path where "transactions_dir = persistent_dir @ [''transactions'']"

definition recover_bootstrap :: "boot_env \<Rightarrow> pyval list io" where
  "recover_bootstrap v = recover_named_transactions (be_root v) (be_now v) transactions_dir [''bootstrap-install'', ''bootstrap-uninstall'']"

definition prior_field :: "install_plan \<Rightarrow> string \<Rightarrow> pyval \<Rightarrow> pyval" where
  "prior_field plan key fresh = (case ip_journal plan of None \<Rightarrow> fresh | Some j \<Rightarrow> dget j key)"

text \<open>The backup a first-generation journal names, if it is still there.\<close>

definition legacy_backup :: "boot_env \<Rightarrow> install_plan \<Rightarrow> pyval res" where
  "legacy_backup v plan = (case ip_journal plan of
      None \<Rightarrow> Inr PyNone
    | Some j \<Rightarrow>
       (let b = dget j ''backup''; keep = (if truthy (dget j ''created_target'') then Inr b else Inl (BootstrapError ''legacy bootstrap journal lacks durable backup; refusing unsafe upgrade'')) in
        if \<not> py_eq (dget j ''schema'') (PyInt 1) then Inr b
        else if \<not> truthy b then keep
        else case b of
          PyStr s \<Rightarrow> (case be_legacy v s of None \<Rightarrow> keep | Some r \<Rightarrow> res_bind r (\<lambda>p. Inr (PyStr (posix p))))
        | _ \<Rightarrow> Inl TypeErr))"

text \<open>\<open>int(value)\<close> of a number; texts of numbers are not modelled.\<close>

definition py_int :: "pyval \<Rightarrow> int res" where
  "py_int v = (case v of PyInt n \<Rightarrow> Inr n | PyBool b \<Rightarrow> Inr (if b then 1 else 0) | _ \<Rightarrow> Inl TypeErr)"

definition upgrade_count :: "install_plan \<Rightarrow> int res" where
  "upgrade_count plan = (case ip_journal plan of None \<Rightarrow> Inr 0 | Some j \<Rightarrow> res_bind (py_int (dget_or j ''upgrade_count'' (PyInt 0))) (\<lambda>n. Inr (n + 1)))"

definition mode_of :: "pyval \<Rightarrow> int option" where
  "mode_of v = (case v of PyInt n \<Rightarrow> Some n | _ \<Rightarrow> None)"

definition mode_at :: "disk \<Rightarrow> path \<Rightarrow> pyval" where
  "mode_at d p = (case node_at d p of Some (File i m b) \<Rightarrow> PyInt m | _ \<Rightarrow> PyNone)"

definition install_record :: "install_plan \<Rightarrow> pyval \<Rightarrow> pyval \<Rightarrow> string \<Rightarrow> int \<Rightarrow> pyval" where
  "install_record plan backup md version count = PyDict
     [(''schema'', PyInt 2), (''framework_version'', PyStr version), (''destination'', PyStr ''AGENTS.md''),
      (''created_target'', PyBool (truthy (prior_field plan ''created_target'' (PyBool (\<not> ip_existed plan))))),
      (''original_sha256'', prior_field plan ''original_sha256'' (PyStr (ip_before plan))), (''original_mode'', md),
      (''installed_sha256'', PyStr (ip_after plan)), (''installed_block_sha256'', PyStr (ip_block plan)),
      (''backup'', backup), (''upgrade_count'', PyInt count)]"

definition boot_tx :: "boot_env \<Rightarrow> string \<Rightarrow> mutation list \<Rightarrow> tx" where
  "boot_tx v name ms = \<lparr>tx_root = be_root v, tx_state_dir = transactions_dir, tx_name = name, tx_uuid = be_tx_uuid v, tx_now = be_now v, tx_mutations = ms\<rparr>"

definition commit_install :: "boot_env \<Rightarrow> install_plan \<Rightarrow> pyval \<Rightarrow> pyval \<Rightarrow> unit io" where
  "commit_install v plan md backup =
    io_bind (io_get (\<lambda>d. res_bind (framework_dir d) (\<lambda>fw. res_bind (read_text d (fw @ [''VERSION''])) (\<lambda>version.
      res_bind (upgrade_count plan) (\<lambda>count.
      res_bind (if exists d install_journal then map_sum id Some (bytes_at d install_journal) else Inr None) (\<lambda>prior.
      Inr (install_record plan backup md (strip version) count, prior))))))) (\<lambda>(journal, prior).
    io_bind (run_transaction (boot_tx v ''bootstrap-install''
      [\<lparr>mu_path = agents_md, mu_data = Some (ip_new_bytes plan), mu_expected_sha256 = (if ip_existed plan then Some (ip_before plan) else None),
         mu_expected_exists = Some (ip_existed plan), mu_mode = mode_of md\<rparr>,
       \<lparr>mu_path = install_journal, mu_data = Some (journal_bytes journal), mu_expected_sha256 = map_option sha256 prior,
         mu_expected_exists = Some (prior \<noteq> None), mu_mode = Some 384\<rparr>]) False) (\<lambda>_.
    unlink_missing_ok legacy_journal))"

definition backup_path :: "boot_env \<Rightarrow> path" where
  "backup_path v = bootstrap_dir @ [''backups'', ''original-'' @ be_backup_uuid v @ ''.bin'']"

text \<open>The handler: a backup that was just made goes again unless a journal refers to it.\<close>

definition drop_backup :: "path \<Rightarrow> exn \<Rightarrow> unit io" where
  "drop_backup backup e d = (if exists d backup \<and> \<not> exists d install_journal
     then (case unlink_missing_ok backup d of (d', Inl x) \<Rightarrow> (d', Inl x) | (d', Inr _) \<Rightarrow> (d', Inl e)) else (d, Inl e))"

definition write_install :: "boot_env \<Rightarrow> install_plan \<Rightarrow> unit io" where
  "write_install v plan d = (let md = prior_field plan ''original_mode'' (mode_at d agents_md) in
     case legacy_backup v plan of
       Inl e \<Rightarrow> (d, Inl e)
     | Inr kept \<Rightarrow>
        if ip_journal plan \<noteq> None \<or> \<not> exists d agents_md then commit_install v plan md kept d
        else (case io_bind (mkdir_io (butlast (backup_path v))) (\<lambda>_ d. atomic_write_bytes (be_root v) d (Rel (backup_path v)) (ip_old_bytes plan) (Some 384)) d of
            (d1, Inl e) \<Rightarrow> (d1, Inl e)
          | (d1, Inr _) \<Rightarrow> (case commit_install v plan md (PyStr (posix (backup_path v))) d1 of
              (d2, Inl e) \<Rightarrow> drop_backup (backup_path v) e d2
            | (d2, Inr _) \<Rightarrow> (d2, Inr ()))))"

definition install :: "boot_env \<Rightarrow> bool \<Rightarrow> bool \<Rightarrow> (bool \<times> install_plan) io" where
  "install v apply replace_managed_block =
    io_bind (recover_bootstrap v) (\<lambda>_.
    io_bind (io_get (\<lambda>d. plan_install (be_root v) d replace_managed_block)) (\<lambda>initial.
    if \<not> apply \<or> \<not> ip_changed initial then io_return (False, initial)
    else io_bind (mkdir_io (persistent_dir @ [''locks''])) (\<lambda>_.
      io_bind (io_get (\<lambda>d. res_bind (plan_install (be_root v) d replace_managed_block) (\<lambda>plan.
        res_bind (guard (ip_before plan = ip_before initial) (BootstrapError ''root AGENTS.md changed while bootstrap install was being planned'')) (\<lambda>_.
        Inr plan)))) (\<lambda>plan.
      io_bind (write_install v plan) (\<lambda>_. io_return (True, plan))))))"


section \<open>Uninstalling\<close>

record uninstall_plan =
  up_action :: string
  up_changed :: bool
  up_old :: string
  up_new :: string
  up_old_bytes :: string
  up_new_bytes :: "string option"
  up_journal :: pyval

definition nothing_installed :: "string \<Rightarrow> uninstall_plan" where
  "nothing_installed old = \<lparr>up_action = ''noop'', up_changed = False, up_old = old, up_new = old, up_old_bytes = [], up_new_bytes = None, up_journal = PyNone\<rparr>"

definition installed_text :: "disk \<Rightarrow> (string \<times> string \<times> string option) res" where
  "installed_text d = res_bind (bytes_at d agents_md) (\<lambda>old_bytes. res_bind (decode old_bytes) (\<lambda>(old, bom).
     res_bind (split_existing old) (\<lambda>(pre, current, suf). Inr (old_bytes, old, current))))"

text \<open>The original of the file: none if the installation created it, and else an intact backup.\<close>

definition original_bytes :: "path \<Rightarrow> disk \<Rightarrow> pyval \<Rightarrow> string option res" where
  "original_bytes root d journal =
    (if truthy (dget journal ''created_target'') then Inr None
     else case dget journal ''backup'' of
       PyStr b \<Rightarrow> res_bind (confined_path root d (spelled b) True False) (\<lambda>p. res_bind (bytes_at d p) (\<lambda>data.
         if PyStr (sha256 data) \<noteq> dget journal ''original_sha256'' then Inl (BootstrapError ''bootstrap backup integrity check failed'') else Inr (Some data)))
     | _ \<Rightarrow> Inl (BootstrapError ''persistent bootstrap journal has no original backup''))"

definition plan_uninstall :: "path \<Rightarrow> disk \<Rightarrow> bool \<Rightarrow> uninstall_plan res" where
  "plan_uninstall root d force =
    res_bind (confined_path root d (Rel agents_md) False False) (\<lambda>_.
    res_bind (load_journal d) (\<lambda>found. case found of
      None \<Rightarrow>
       if \<not> exists d agents_md then Inr (nothing_installed [])
       else res_bind (installed_text d) (\<lambda>(old_bytes, old, current).
         if current = None then Inr (nothing_installed old)
         else Inl (BootstrapError ''managed block exists without persistent install metadata''))
    | Some journal \<Rightarrow>
       res_bind (check_all
         [guard (\<not> truthy (dget journal ''_legacy_runtime'')) (BootstrapError ''bootstrap recovery metadata exists only under disposable runtime''),
          guard (py_eq (dget journal ''schema'') (PyInt 2) \<and> dget journal ''destination'' = PyStr ''AGENTS.md'') (BootstrapError ''invalid persistent bootstrap journal''),
          guard (exists d agents_md) (BootstrapError ''installed AGENTS.md is missing'')]) (\<lambda>_.
       res_bind (installed_text d) (\<lambda>(old_bytes, old, current). case current of
         None \<Rightarrow> Inl (BootstrapError ''managed Aegis block is missing from installed AGENTS.md'')
       | Some block \<Rightarrow>
         res_bind (check_all
           [guard (PyStr (sha256 (utf8_encode block)) = dget journal ''installed_block_sha256'' \<or> force) (BootstrapError ''managed Aegis block changed after installation''),
            guard (PyStr (sha256 old_bytes) = dget journal ''installed_sha256'' \<or> force) (BootstrapError ''root AGENTS.md changed after installation'')]) (\<lambda>_.
         res_bind (original_bytes root d journal) (\<lambda>new_bytes.
         res_bind (decode (case new_bytes of None \<Rightarrow> [] | Some b \<Rightarrow> b)) (\<lambda>(new, bom).
         Inr \<lparr>up_action = ''remove'', up_changed = True, up_old = old, up_new = new, up_old_bytes = old_bytes, up_new_bytes = new_bytes, up_journal = journal\<rparr>)))))))"

definition uninstall_mutations :: "path \<Rightarrow> disk \<Rightarrow> uninstall_plan \<Rightarrow> mutation list res" where
  "uninstall_mutations root d plan = res_bind (bytes_at d install_journal) (\<lambda>jb.
     let backup = dget (up_journal plan) ''backup'' in
     res_bind (if \<not> truthy backup then Inr [] else case backup of
         PyStr b \<Rightarrow> res_bind (confined_path root d (spelled b) True False) (\<lambda>p. res_bind (bytes_at d p) (\<lambda>data.
           Inr [\<lparr>mu_path = p, mu_data = None, mu_expected_sha256 = Some (sha256 data), mu_expected_exists = Some True, mu_mode = None\<rparr>]))
       | _ \<Rightarrow> Inl TypeErr) (\<lambda>extra.
     Inr ([\<lparr>mu_path = agents_md, mu_data = up_new_bytes plan, mu_expected_sha256 = Some (sha256 (up_old_bytes plan)), mu_expected_exists = Some True,
            mu_mode = mode_of (dget (up_journal plan) ''original_mode'')\<rparr>,
           \<lparr>mu_path = install_journal, mu_data = None, mu_expected_sha256 = Some (sha256 jb), mu_expected_exists = Some True, mu_mode = None\<rparr>] @ extra)))"

definition uninstall :: "boot_env \<Rightarrow> bool \<Rightarrow> bool \<Rightarrow> (bool \<times> uninstall_plan) io" where
  "uninstall v apply force =
    io_bind (recover_bootstrap v) (\<lambda>_.
    io_bind (io_get (\<lambda>d. plan_uninstall (be_root v) d force)) (\<lambda>initial.
    if \<not> apply \<or> \<not> up_changed initial then io_return (False, initial)
    else io_bind (mkdir_io (persistent_dir @ [''locks''])) (\<lambda>_.
      io_bind (io_get (\<lambda>d. res_bind (plan_uninstall (be_root v) d force) (\<lambda>plan.
        res_bind (guard (sha256 (up_old_bytes plan) = sha256 (up_old_bytes initial)) (BootstrapError ''root AGENTS.md changed before uninstall commit'')) (\<lambda>_.
        res_bind (uninstall_mutations (be_root v) d plan) (\<lambda>ms. Inr (plan, ms)))))) (\<lambda>(plan, ms).
      io_bind (run_transaction (boot_tx v ''bootstrap-uninstall'' ms) False) (\<lambda>_. io_return (True, plan))))))"

section \<open>Plans are stable\<close>

lemma no_bom: "\<not> startswith (utf8_encode t) BOM"
proof (cases t)
  case (Cons c s)
  have "hd (utf8_char c) \<noteq> CHR 0xEF" "utf8_char c \<noteq> []"
  proof -
    have n: "of_char c < (256::nat)" by simp
    have "of_char c div (64::nat) < 4" using n by (simp add: less_mult_imp_div_less)
    then have "of_char (char_of (192 + of_char c div (64::nat)) :: char) = (192 + of_char c div 64 :: nat)" by (simp add: of_char_of)
    moreover have "of_char (CHR 0xEF) = (239::nat)" by simp
    ultimately have "char_of (192 + of_char c div (64::nat)) \<noteq> CHR 0xEF" using \<open>of_char c div (64::nat) < 4\<close> by force
    moreover have "c \<noteq> CHR 0xEF" if "of_char c < (128::nat)" using that by auto
    ultimately show "hd (utf8_char c) \<noteq> CHR 0xEF" by (auto simp: utf8_char_def Let_def)
  qed (simp add: utf8_char_def Let_def)
  then show ?thesis using Cons by (cases "utf8_char c") (auto simp: utf8_encode_def BOM_def)
qed (simp add: utf8_encode_def BOM_def)

lemma decode_encode: "decode ((if bom then BOM else []) @ utf8_encode t) = Inr (t, bom)"
  using no_bom [of t] by (simp add: decode_def Let_def)

lemma decode_Inr: "decode b = Inr (t, bom) \<Longrightarrow> b = (if bom then BOM else []) @ utf8_encode t"
  by (auto simp: decode_def Let_def startswith_iff split: option.splits if_splits dest!: utf8_encode_decode)

lemma plan_block_Inr:
  assumes "plan_block d rep existed old_bytes old bom = Inr plan"
  obtains parts template desired where "split_existing old = Inr parts" and "template_text d = Inr template"
    and "managed_block template (newline_of old) = Inr desired" and "load_journal d = Inr (ip_journal plan)"
    and "ip_old plan = old" and "ip_bom plan = bom" and "ip_old_bytes plan = old_bytes" and "ip_new plan = merged old parts desired (newline_of old)"
    and "ip_new_bytes plan = (if bom then BOM else []) @ utf8_encode (ip_new plan)" and "ip_changed plan = (ip_new_bytes plan \<noteq> old_bytes)"
    and "ip_action plan = (if fst (snd parts) = None then (if existed then ''append'' else ''create'') else if ip_new plan = old then ''noop'' else ''update'')"
  using assms unfolding plan_block_def Let_def by (elim res_bind_InrE) (simp split: if_splits; fastforce)

lemma plan_install_Inr:
  assumes "plan_install root d rep = Inr plan"
  obtains old_bytes old bom where "decode old_bytes = Inr (old, bom)" and "plan_block d rep (exists d agents_md) old_bytes old bom = Inr plan"
    and "confined_path root d (Rel agents_md) False False = Inr agents_md"
proof -
  have c: "x = agents_md" if "confined_path root d (Rel agents_md) False False = Inr x" for x
    using that by (auto simp: confined_path_def split: if_splits)
  from assms show thesis unfolding plan_install_def by (elim res_bind_InrE) (auto split: prod.splits dest: c intro!: that)
qed

text \<open>Disks that differ in \<open>AGENTS.md\<close> only.\<close>

definition elsewhere :: "disk \<Rightarrow> disk \<Rightarrow> bool" where
  "elsewhere d d' \<longleftrightarrow> (\<forall>q. q \<noteq> agents_md \<longrightarrow> node_at d' q = node_at d q)"

lemma elsewhere_at: "elsewhere d d' \<Longrightarrow> q \<noteq> agents_md \<Longrightarrow> exists d' q = exists d q \<and> read d' q = read d q \<and> is_dir d' q = is_dir d q"
  by (simp add: elsewhere_def exists_def read_def is_dir_def)

lemma elsewhere_framework: "elsewhere d d' \<Longrightarrow> framework_dir d' = framework_dir d"
  using elsewhere_at [of d d'] by (simp add: framework_dir_def is_source_framework_def agents_dir_def agents_md_def)

lemma elsewhere_template: "elsewhere d d' \<Longrightarrow> template_text d' = template_text d"
proof -
  assume e: "elsewhere d d'"
  have "read_text d' (fw @ [''bootstrap'', n]) = read_text d (fw @ [''bootstrap'', n])" for fw n
    using elsewhere_at [OF e, of "fw @ [''bootstrap'', n]"] by (simp add: read_text_def agents_md_def append_eq_Cons_conv)
  then show ?thesis using elsewhere_framework [OF e] by (simp add: template_text_def)
qed

lemmas journal_paths = install_journal_def legacy_journal_def bootstrap_dir_def install_state_dir_def persistent_dir_def runtime_dir_def aegis_dir_def agents_md_def

lemma elsewhere_journal: "elsewhere d d' \<Longrightarrow> load_journal d' = load_journal d"
proof -
  assume e: "elsewhere d d'"
  have "install_journal \<noteq> agents_md" "legacy_journal \<noteq> agents_md" by (simp_all add: journal_paths)
  then show ?thesis using elsewhere_at [OF e, of install_journal] elsewhere_at [OF e, of legacy_journal]
    by (simp add: load_journal_def Let_def json_at_def)
qed

lemma merged_same: "split_existing t = Inr (pre, Some desired, suf) \<Longrightarrow> merged t (pre, Some desired, suf) desired nl = t"
  using split_existing_clean by (auto simp: merged_def)


text \<open>A plan whose result is written is a plan that has nothing to do.\<close>

definition well_formed_template :: "disk \<Rightarrow> bool" where
  "well_formed_template d = (case template_text d of Inr template \<Rightarrow> fences_closed (split_lines (strip template)) | Inl _ \<Rightarrow> False)"

lemma planned_text:
  assumes "plan_install root d rep = Inr plan" and "well_formed_template d" and "ip_action plan \<in> {''append'', ''create''} \<Longrightarrow> appendable (ip_old plan)"
  obtains template desired pre suf where "template_text d = Inr template" and "managed_block template (newline_of (ip_new plan)) = Inr desired"
    and "split_existing (ip_new plan) = Inr (pre, Some desired, suf)" and "ip_new plan = pre @ desired @ suf"
    and "(\<exists>current. ip_old plan = pre @ current @ suf) \<or> (\<exists>gap. pre = ip_old plan @ gap \<and> set gap \<union> set suf \<subseteq> {cr, lf})"
    and "ip_new_bytes plan = (if ip_bom plan then BOM else []) @ utf8_encode (ip_new plan)"
proof -
  obtain b t bom where b: "plan_block d rep (exists d agents_md) b t bom = Inr plan" by (rule plan_install_Inr [OF assms(1)])
  obtain parts template desired where p: "split_existing t = Inr parts" "template_text d = Inr template" "managed_block template (newline_of t) = Inr desired"
      "ip_old plan = t" "ip_bom plan = bom" "ip_new plan = merged t parts desired (newline_of t)"
      "ip_new_bytes plan = (if bom then BOM else []) @ utf8_encode (ip_new plan)"
      "ip_action plan = (if fst (snd parts) = None then (if exists d agents_md then ''append'' else ''create'') else if ip_new plan = t then ''noop'' else ''update'')"
    by (rule plan_block_Inr [OF b]) blast
  have f: "fences_closed (split_lines (strip template))" using assms(2) p(2) by (simp add: well_formed_template_def)
  have ap: "appendable t" if "fst (snd parts) = None" using assms(3) that p(4,8) by (auto split: if_splits)
  obtain pre suf where m: "newline_of (ip_new plan) = newline_of t" "ip_new plan = pre @ desired @ suf" "split_existing (ip_new plan) = Inr (pre, Some desired, suf)"
    using merged_stable [OF p(1,3) f ap] p(6) by auto
  have user: "(\<exists>current. t = pre @ current @ suf) \<or> (\<exists>gap. pre = t @ gap \<and> set gap \<union> set suf \<subseteq> {cr, lf})"
  proof (cases "fst (snd parts)")
    case None
    then obtain x where "parts = (x, None, snd (snd parts))" by (metis prod.collapse)
    then have n: "ip_new plan = (t @ separator t (newline_of t)) @ desired @ newline_of t" using p(6) by (auto simp: merged_def split: prod.splits)
    have "scan 0 None (keep_lines t) = ([], None)"
      using split_existing_None [of t x "snd (snd parts)"] p(1) \<open>parts = (x, None, snd (snd parts))\<close> ap [OF None] by (simp add: appendable_def fences_closed_def) (metis prod.collapse)
    then have "split_existing (ip_new plan) = Inr (t @ separator t (newline_of t), Some desired, newline_of t)"
      unfolding n using appended_clean [of t "newline_of t"] by (intro block_found [OF _ _ p(3) _ f]) simp_all
    then have "pre = t @ separator t (newline_of t)" "suf = newline_of t" using m(3) by auto
    moreover have "set (newline_of t) \<subseteq> {cr, lf}" by (auto simp: newline_of_def Let_def)
    then have "set (separator t (newline_of t)) \<union> set (newline_of t) \<subseteq> {cr, lf}" by (auto simp: separator_def)
    ultimately show ?thesis by blast
  next
    case (Some current)
    then obtain x y where xy: "parts = (x, Some current, y)" by (metis prod.collapse)
    then have n: "ip_new plan = x @ desired @ y" "t = x @ current @ y" "clean_before x" "clean_after y"
      using p(1,6) split_existing_clean [of t x current y] by (auto simp: merged_def)
    then have "pre = x" "suf = y" using m(3) block_found [OF n(3,4) p(3) _ f] by simp_all
    then show ?thesis using n(2) by blast
  qed
  have nb: "ip_new_bytes plan = (if ip_bom plan then BOM else []) @ utf8_encode (ip_new plan)" unfolding p(5) by (rule p(7))
  have mb: "managed_block template (newline_of (ip_new plan)) = Inr desired" unfolding m(1) by (rule p(3))
  show thesis by (rule that [OF p(2) mb m(3,2) user [folded p(4)] nb])
qed

lemma replan:
  assumes "template_text d = Inr template" and "managed_block template (newline_of t) = Inr desired"
    and "split_existing t = Inr (pre, Some desired, suf)" and "load_journal d = Inr j"
    and "confined_path root d (Rel agents_md) False False = Inr agents_md"
    and "read d agents_md = Some ((if bom then BOM else []) @ utf8_encode t)"
  shows "\<exists>plan. plan_install root d rep = Inr plan \<and> ip_action plan = ''noop'' \<and> \<not> ip_changed plan \<and> ip_new plan = t"
    and "verify_installed d = Inr True"
proof -
  let ?b = "(if bom then BOM else []) @ utf8_encode t"
  have "exists d agents_md" using assms(6) by (auto simp: exists_def read_def split: option.splits)
  then have i: "plan_install root d rep = plan_block d rep True ?b t bom"
    using assms(5,6) decode_encode [of bom t] by (simp add: plan_install_def bytes_at_def)
  have "\<exists>plan. plan_block d rep True ?b t bom = Inr plan \<and> ip_action plan = ''noop'' \<and> \<not> ip_changed plan \<and> ip_new plan = t"
    using assms(1-4) merged_same [OF assms(3)] by (simp add: plan_block_def Let_def edited_def)
  then show "\<exists>plan. plan_install root d rep = Inr plan \<and> ip_action plan = ''noop'' \<and> \<not> ip_changed plan \<and> ip_new plan = t" by (simp only: i)
  show "verify_installed d = Inr True" using assms(1-3,6) decode_encode [of bom t] by (simp add: verify_installed_def)
qed

section \<open>Operations that would change \<open>AGENTS.md\<close> are refused\<close>

lemma agents_md_refused: "\<exists>m. assert_mutation_allowed r d (Rel agents_md) = Inl (GovernanceViolation m)"
  by (simp add: assert_mutation_allowed_def candidate_path_def Let_def agents_md_def under_agents_def guard_def)

lemma transaction_refused:
  assumes "tx_mutations t = m # ms" and "mu_path m = agents_md"
  shows "\<exists>d' e. run_transaction t retain d = (d', Inl e)"
proof -
  have p: "\<exists>e. preflight t x = Inl e" for x
    using agents_md_refused [of "tx_root t" x] assms by (auto simp: preflight_def preflight_record_def governed_error_def)
  have "\<exists>x e. begin_commit t d = (x, Inl e)"
    unfolding begin_commit_def io_bind_def io_get_def using p by (auto split: sum.splits prod.splits)
  then have "\<exists>x e. commit t retain d = (x, Inl e)" by (auto simp: commit_def)
  then show ?thesis by (auto simp: run_transaction_def io_bind_def io_get_def split: sum.splits)
qed


text \<open>Only control directories are added, and none that a transaction would take for its own.\<close>

definition boot_dirs :: "path set" where
  "boot_dirs = set (steps transactions_dir) \<union> set (steps (persistent_dir @ [''locks''])) \<union> set (steps (bootstrap_dir @ [''backups'']))"

definition grown :: "disk \<Rightarrow> disk \<Rightarrow> bool" where
  "grown d d' \<longleftrightarrow> (\<forall>q. node_at d' q = node_at d q \<or> node_at d q = None \<and> node_at d' q = Some Directory \<and> q \<in> boot_dirs)"

lemma grown_refl [simp]: "grown d d"
  by (simp add: grown_def)

lemma grown_trans: "grown a b \<Longrightarrow> grown b c \<Longrightarrow> grown a c"
  unfolding grown_def by metis

lemma grown_read: "grown d d' \<Longrightarrow> read d' = read d"
proof
  fix q assume "grown d d'"
  then have "node_at d' q = node_at d q \<or> node_at d q = None \<and> node_at d' q = Some Directory" by (auto simp: grown_def)
  then show "read d' q = read d q" by (auto simp: read_def)
qed

lemma boot_dirs_shape:
  "transactions_dir @ [n] \<notin> boot_dirs" "install_journal \<notin> boot_dirs" "legacy_journal \<notin> boot_dirs" "backup_path v \<notin> boot_dirs"
proof -
  have "length q \<le> 5" if "q \<in> boot_dirs" for q
    using that by (auto simp: boot_dirs_def steps_def transactions_dir_def journal_paths)
  moreover have "length (backup_path v) = 6" by (simp add: backup_path_def journal_paths)
  ultimately have "backup_path v \<notin> boot_dirs" by fastforce
  then show "transactions_dir @ [n] \<notin> boot_dirs" "install_journal \<notin> boot_dirs" "legacy_journal \<notin> boot_dirs" "backup_path v \<notin> boot_dirs"
    by (auto simp: boot_dirs_def steps_iff transactions_dir_def journal_paths prefix_Cons)
qed

lemma grown_at: "grown d d' \<Longrightarrow> q \<notin> boot_dirs \<Longrightarrow> node_at d' q = node_at d q"
  by (auto simp: grown_def)

lemma grown_no_pending: "grown d d' \<Longrightarrow> no_pending d transactions_dir \<Longrightarrow> no_pending d' transactions_dir"
  using grown_at [OF _ boot_dirs_shape(1)] by (simp add: no_pending_def is_dir_def)

lemma make_dirs_before:
  assumes "make_dirs d ps = Inr d'" and "\<forall>q \<in> set ps. q \<noteq> []" and "q \<in> set ps"
  shows "node_at d q = None \<or> node_at d q = Some Directory"
  using assms
proof (induction d ps arbitrary: d' rule: make_dirs.induct)
  case (2 d p ps)
  show ?case
  proof (cases "q = p")
    case True
    then show ?thesis using 2(3) by (auto split: option.splits node.splits)
  next
    case False
    show ?thesis
    proof (cases "node_at d p")
      case None
      have "node_at (put d p Directory) q = None \<or> node_at (put d p Directory) q = Some Directory"
        using 2(1) [OF None, of d'] 2(3-5) False None by simp
      then show ?thesis using False 2(4) by simp
    next
      case (Some n)
      then have "n = Directory" using 2(3) by (cases n) auto
      then show ?thesis using 2(2) [OF Some, of d'] 2(3-5) False Some by simp
    qed
  qed
qed simp

lemma mkdir_grown:
  assumes "mkdir_parents d p = Inr d'" and "set (steps p) \<subseteq> boot_dirs"
  shows "grown d d'"
  unfolding grown_def
proof
  fix q
  have ne: "\<forall>q \<in> set (steps p). q \<noteq> []" using steps_prefix by blast
  have n: "node_at d' q = (if q \<in> set (steps p) then Some Directory else node_at d q)"
    using make_dirs_nodes [of d "steps p" d' q] assms(1) ne by (simp add: mkdir_parents_def)
  have "node_at d q = None \<or> node_at d q = Some Directory" if "q \<in> set (steps p)"
    using make_dirs_before [of d "steps p" d'] that assms(1) ne by (simp add: mkdir_parents_def)
  then show "node_at d' q = node_at d q \<or> node_at d q = None \<and> node_at d' q = Some Directory \<and> q \<in> boot_dirs" using n assms(2) by auto
qed

lemma mkdir_io_grown: "set (steps p) \<subseteq> boot_dirs \<Longrightarrow> grown d (fst (mkdir_io p d))"
  using mkdir_grown by (auto simp: mkdir_io_def split: sum.splits)

lemma recover_calm:
  assumes "no_pending d sd"
  shows "fst (recover_candidates r now sd ns rm d) = d"
proof -
  have "candidates d sd ns rm (names d sd) = Inr []" using assms by (intro candidates_none) (simp add: no_pending_def)
  then show ?thesis by (simp add: recover_candidates_def plan_candidates_def preflight_recovery_batch_def io_bind_def io_get_def io_return_def)
qed

lemma confined_rel: "confined_path r d (Rel p) a b = Inr q \<Longrightarrow> q = p"
  by (auto simp: confined_path_def split: if_splits)

lemma recover_calm_named: "no_pending d sd \<Longrightarrow> fst (recover_named_transactions r now sd ns d) = d"
  unfolding recover_named_transactions_def io_bind_def io_get_def by (auto simp: recover_calm split: sum.splits dest!: confined_rel)

lemma recover_calm_pending: "no_pending d sd \<Longrightarrow> fst (recover_pending_transactions r now sd n rm d) = d"
  unfolding recover_pending_transactions_def io_bind_def io_get_def by (auto simp: recover_calm split: sum.splits dest!: confined_rel)

lemma refused_grown:
  assumes "no_pending d transactions_dir" and "ms = m # ms'" and "mu_path m = agents_md"
  shows "\<exists>d' e. run_transaction (boot_tx v name ms) retain d = (d', Inl e) \<and> grown d d'"
proof -
  let ?t = "boot_tx v name ms"
  obtain d' e where r: "run_transaction ?t retain d = (d', Inl e)" using transaction_refused [of ?t m ms' retain d] assms(2,3) by (auto simp: boot_tx_def)
  have sd: "tx_state_dir ?t = transactions_dir" by (simp add: boot_tx_def)
  have "grown d (fst (begin_commit ?t d))"
  proof (cases "mkdir_parents d transactions_dir")
    case (Inr d1)
    then have g: "grown d d1" by (rule mkdir_grown) (auto simp: boot_dirs_def)
    have "fst (recover_pending_transactions (tx_root ?t) (tx_now ?t) transactions_dir (Some (tx_name ?t)) True d1) = d1"
      using recover_calm_pending grown_no_pending [OF g assms(1)] by blast
    then have "fst (begin_commit ?t d) = d1" unfolding begin_commit_def io_bind_def io_get_def sd using Inr by (auto split: prod.splits sum.splits)
    then show ?thesis using g by simp
  qed (simp add: begin_commit_def io_bind_def sd)
  moreover have p: "\<exists>e. preflight ?t x = Inl e" for x
    using agents_md_refused [of "tx_root ?t" x] assms(2,3) by (auto simp: preflight_def preflight_record_def governed_error_def boot_tx_def)
  then have "\<exists>x e. begin_commit ?t d = (x, Inl e)" unfolding begin_commit_def io_bind_def io_get_def by (auto split: sum.splits prod.splits)
  ultimately have "grown d d'" using r by (auto simp: run_transaction_def io_bind_def io_get_def commit_def split: sum.splits)
  then show ?thesis using r by blast
qed


lemma io_get_refused:
  assumes "\<And>x. g d = Inr x \<Longrightarrow> \<exists>d' e. f x d = (d', Inl e) \<and> grown d d'"
  shows "\<exists>d' e. io_bind (io_get g) f d = (d', Inl e) \<and> grown d d'"
  using assms by (cases "g d") (auto simp: io_bind_def io_get_def)

lemma commit_install_refused:
  assumes "no_pending d transactions_dir"
  shows "\<exists>d' e. commit_install v plan md backup d = (d', Inl e) \<and> grown d d'"
proof -
  have r: "\<exists>d' e. io_bind (run_transaction (boot_tx v name (m # ms)) False) f d = (d', Inl e) \<and> grown d d'" if "mu_path m = agents_md" for name m ms and f :: "pyval \<Rightarrow> unit io"
    using refused_grown [OF assms refl that, of v name ms False] by (auto simp: io_bind_def)
  show ?thesis unfolding commit_install_def
    by (rule io_get_refused) (simp only: split_beta, rule r, simp only: mutation.simps)
qed

lemma atomic_write_cases:
  assumes "atomic_write_bytes r d (Rel p) data md = (d', x)" and "p \<noteq> []"
  shows "\<exists>d1. (d1 = d \<or> mkdir_parents d (butlast p) = Inr d1)
    \<and> (case x of Inl e \<Rightarrow> d' = d1 | Inr _ \<Rightarrow> \<exists>i m. \<forall>q. node_at d' q = (if q = p then Some (File i m data) else node_at d1 q))"
proof -
  have c: "q = p" if "assert_confined r x (Rel p) = Inr q" for x q
    using that by (auto simp: assert_confined_def split: if_splits sum.splits exn.splits)
  show ?thesis
    using assms replaced_disk(3) [OF _ assms(2)]
    by (auto simp: atomic_write_bytes_def split: sum.splits dest!: c)
qed

lemma write_install_refused:
  assumes "no_pending d transactions_dir" and "node_at d (backup_path v) = None" and "ip_journal plan = None \<Longrightarrow> \<not> exists d install_journal"
  shows "\<exists>d' e. write_install v plan d = (d', Inl e) \<and> grown d d'"
proof (cases "legacy_backup v plan")
  case (Inr kept)
  let ?p = "backup_path v" and ?md = "prior_field plan ''original_mode'' (mode_at d agents_md)"
  show ?thesis
  proof (cases "ip_journal plan \<noteq> None \<or> \<not> exists d agents_md")
    case True
    then show ?thesis using commit_install_refused [OF assms(1)] Inr by (simp add: write_install_def Let_def)
  next
    case False
    let ?w = "io_bind (mkdir_io (butlast ?p)) (\<lambda>_ d. atomic_write_bytes (be_root v) d (Rel ?p) (ip_old_bytes plan) (Some 384))"
    have bp: "butlast ?p = bootstrap_dir @ [''backups'']" "?p \<noteq> []" by (simp_all add: backup_path_def butlast_append)
    have sub: "set (steps (butlast ?p)) \<subseteq> boot_dirs" unfolding bp by (auto simp: boot_dirs_def)
    obtain d1 x where w: "?w d = (d1, x)" by fastforce
    have "\<exists>g. grown d g \<and> (case x of Inl e \<Rightarrow> d1 = g | Inr _ \<Rightarrow> \<exists>i m. \<forall>q. node_at d1 q = (if q = ?p then Some (File i m (ip_old_bytes plan)) else node_at g q))"
    proof (cases "mkdir_parents d (butlast ?p)")
      case (Inl e)
      then show ?thesis using w by (auto simp: io_bind_def mkdir_io_def)
    next
      case (Inr d0)
      then have a: "atomic_write_bytes (be_root v) d0 (Rel ?p) (ip_old_bytes plan) (Some 384) = (d1, x)" using w by (simp add: io_bind_def mkdir_io_def)
      have "grown d0 g" if "g = d0 \<or> mkdir_parents d0 (butlast ?p) = Inr g" for g using that mkdir_grown [OF _ sub] by auto
      then show ?thesis using atomic_write_cases [OF a bp(2)] grown_trans [OF mkdir_grown [OF Inr sub]] by blast
    qed
    then obtain g where g: "grown d g" "case x of Inl e \<Rightarrow> d1 = g | Inr _ \<Rightarrow> \<exists>i m. \<forall>q. node_at d1 q = (if q = ?p then Some (File i m (ip_old_bytes plan)) else node_at g q)"
      by blast
    show ?thesis
    proof (cases x)
      case (Inl e)
      then show ?thesis using g w \<open>legacy_backup v plan = Inr kept\<close> False by (auto simp: write_install_def Let_def)
    next
      case x: (Inr u)
      then obtain i m where n1: "\<And>q. node_at d1 q = (if q = ?p then Some (File i m (ip_old_bytes plan)) else node_at g q)" using g(2) by auto
      have "transactions_dir @ [n] \<noteq> ?p" "?p \<noteq> install_journal" for n by (simp_all add: backup_path_def transactions_dir_def journal_paths)
      note ne = this
      have "no_pending d1 transactions_dir" using grown_no_pending [OF g(1) assms(1)] ne(1) by (simp add: no_pending_def is_dir_def n1)
      then obtain d2 e where c: "commit_install v plan ?md (PyStr (posix ?p)) d1 = (d2, Inl e)" "grown d1 d2"
        using commit_install_refused by blast
      have b2: "node_at d2 ?p = Some (File i m (ip_old_bytes plan))" using grown_at [OF c(2) boot_dirs_shape(4)] n1 by simp
      have "node_at d2 install_journal = node_at d install_journal"
        using grown_at [OF c(2) boot_dirs_shape(2)] grown_at [OF g(1) boot_dirs_shape(2)] n1 ne(2) by metis
      then have "\<not> exists d2 install_journal" using assms(3) False by (simp add: exists_def)
      then have dr: "drop_backup ?p e d2 = (remove d2 ?p, Inl e)" using b2 by (simp add: drop_backup_def unlink_missing_ok_def exists_def)
      have "grown d (remove d2 ?p)" unfolding grown_def
      proof
        fix q
        show "node_at (remove d2 ?p) q = node_at d q \<or> node_at d q = None \<and> node_at (remove d2 ?p) q = Some Directory \<and> q \<in> boot_dirs"
        proof (cases "q = ?p")
          case False
          have "node_at d2 q = node_at d1 q \<or> node_at d1 q = None \<and> node_at d2 q = Some Directory \<and> q \<in> boot_dirs" using c(2) by (simp add: grown_def)
          moreover have "node_at g q = node_at d q \<or> node_at d q = None \<and> node_at g q = Some Directory \<and> q \<in> boot_dirs" using g(1) by (simp add: grown_def)
          ultimately show ?thesis using n1 False bp(2) by auto
        qed (use assms(2) bp(2) in simp)
      qed
      then show ?thesis using w x c(1) dr \<open>legacy_backup v plan = Inr kept\<close> False by (simp add: write_install_def Let_def)
    qed
  qed
qed (simp add: write_install_def Let_def)

lemma load_journal_None: "load_journal d = Inr None \<Longrightarrow> \<not> exists d install_journal"
  by (auto simp: load_journal_def Let_def split: if_splits option.splits)

lemma recover_bootstrap_calm: "no_pending d transactions_dir \<Longrightarrow> \<exists>x. recover_bootstrap v d = (d, x)"
  unfolding recover_bootstrap_def using recover_calm_named [of d transactions_dir] by (metis prod.collapse)

lemma locks_grown: "grown d (fst (mkdir_io (persistent_dir @ [''locks'']) d))"
  by (rule mkdir_io_grown) (auto simp: boot_dirs_def)

text \<open>What both operations share: recovery, a plan, and under the lock a rest that is refused.\<close>

lemma planned_operation:
  assumes "no_pending d transactions_dir" and "\<And>initial d1. grown d d1 \<Longrightarrow> \<exists>d' e. rest initial d1 = (d', Inl e) \<and> grown d1 d'"
  shows "\<exists>d' x. io_bind (recover_bootstrap v) (\<lambda>_. io_bind (io_get planned) (\<lambda>initial.
      if \<not> apply \<or> \<not> changed initial then io_return (False, initial) else io_bind (mkdir_io (persistent_dir @ [''locks''])) (\<lambda>_. rest initial))) d = (d', x)
    \<and> grown d d' \<and> (\<forall>applied plan. x = Inr (applied, plan) \<longrightarrow> \<not> applied \<and> (apply \<longrightarrow> \<not> changed plan))"
proof -
  obtain x where x: "recover_bootstrap v d = (d, x)" using recover_bootstrap_calm [OF assms(1)] by blast
  obtain d1 m where m: "mkdir_io (persistent_dir @ [''locks'']) d = (d1, m)" by fastforce
  have g: "grown d d1" using locks_grown [of d] m by simp
  have "\<exists>d' e. io_bind (mkdir_io (persistent_dir @ [''locks''])) (\<lambda>_. rest initial) d = (d', Inl e) \<and> grown d d'" for initial
    using m g grown_trans [OF g] assms(2) [OF g, of initial] by (cases m) auto
  then have "\<exists>d' y. io_bind (mkdir_io (persistent_dir @ [''locks''])) (\<lambda>_. rest initial) d = (d', y) \<and> grown d d' \<and> (\<forall>z. y \<noteq> Inr z)" for initial
    by (metis Inl_Inr_False)
  then show ?thesis using x
    by (cases x; cases "planned d"; auto simp: io_get_def io_return_def io_bind_def [of "recover_bootstrap v"] io_bind_def [of "\<lambda>d. (d, planned d)"]; metis)
qed

lemma install_outcome:
  assumes "no_pending d transactions_dir" and "node_at d (backup_path v) = None"
  shows "\<exists>d' x. install v apply rep d = (d', x) \<and> grown d d' \<and> (\<forall>applied plan. x = Inr (applied, plan) \<longrightarrow> \<not> applied \<and> (apply \<longrightarrow> \<not> ip_changed plan))"
  unfolding install_def
proof (rule planned_operation [OF assms(1)], rule io_get_refused)
  fix initial d1 plan
  assume g: "grown d d1" and "res_bind (plan_install (be_root v) d1 rep) (\<lambda>plan.
    res_bind (guard (ip_before plan = ip_before initial) (BootstrapError ''root AGENTS.md changed while bootstrap install was being planned'')) (\<lambda>_. Inr plan)) = Inr plan"
  then have p: "plan_install (be_root v) d1 rep = Inr plan" by (auto simp: res_bind_Inr)
  obtain b t bom where "plan_block d1 rep (exists d1 agents_md) b t bom = Inr plan" by (rule plan_install_Inr [OF p])
  then have j: "load_journal d1 = Inr (ip_journal plan)" by (rule plan_block_Inr)
  have "no_pending d1 transactions_dir" "node_at d1 (backup_path v) = None"
    using grown_no_pending [OF g assms(1)] grown_at [OF g boot_dirs_shape(4)] assms(2) by simp_all
  then have "\<exists>d' e. write_install v plan d1 = (d', Inl e) \<and> grown d1 d'"
    using write_install_refused [of d1 v plan] load_journal_None [of d1] j by simp
  then show "\<exists>d' e. io_bind (write_install v plan) (\<lambda>_. io_return (True, plan)) d1 = (d', Inl e) \<and> grown d1 d'" by (auto simp: io_bind_def)
qed

lemma uninstall_outcome:
  assumes "no_pending d transactions_dir"
  shows "\<exists>d' x. uninstall v apply force d = (d', x) \<and> grown d d' \<and> (\<forall>applied plan. x = Inr (applied, plan) \<longrightarrow> \<not> applied \<and> (apply \<longrightarrow> \<not> up_changed plan))"
  unfolding uninstall_def
proof (rule planned_operation [OF assms], rule io_get_refused)
  fix initial d1 pm
  assume g: "grown d d1" and a: "res_bind (plan_uninstall (be_root v) d1 force) (\<lambda>plan.
    res_bind (guard (sha256 (up_old_bytes plan) = sha256 (up_old_bytes initial)) (BootstrapError ''root AGENTS.md changed before uninstall commit'')) (\<lambda>_.
    res_bind (uninstall_mutations (be_root v) d1 plan) (\<lambda>ms. Inr (plan, ms)))) = Inr pm"
  obtain plan ms where pm: "pm = (plan, ms)" by fastforce
  have "uninstall_mutations (be_root v) d1 plan = Inr ms" using a pm by (auto simp: res_bind_Inr)
  then obtain mu ms' where "ms = mu # ms'" "mu_path mu = agents_md" by (auto simp: uninstall_mutations_def Let_def res_bind_Inr)
  then show "\<exists>d' e. (case pm of (plan, ms) \<Rightarrow> io_bind (run_transaction (boot_tx v ''bootstrap-uninstall'' ms) False) (\<lambda>_. io_return (True, plan))) d1 = (d', Inl e) \<and> grown d1 d'"
    using refused_grown [OF grown_no_pending [OF g assms], of ms mu ms' v "''bootstrap-uninstall''" False] pm by (auto simp: io_bind_def)
qed

section \<open>Properties\<close>




section \<open>Examples\<close>

definition rules_disk :: disk where
  "rules_disk = [([''.agents''], Directory), ([''.agents'', ''VERSION''], File 1 420 ''5.0.0''), ([''.agents'', ''bootstrap''], Directory),
     ([''.agents'', ''bootstrap'', ''root-AGENTS.block.md''], File 2 420 ''Read INDEX.md''), ([''AGENTS.md''], File 3 420 ''House rules'')]"

definition rules_env :: boot_env where
  "rules_env = \<lparr>be_root = [''work''], be_now = ''now'', be_tx_uuid = ''0'', be_backup_uuid = ''1'', be_legacy = \<lambda>_. None\<rparr>"

lemma rules_nodes:
  "node_at rules_disk p = (if p = [] \<or> p \<in> {[''.agents''], [''.agents'', ''bootstrap'']} then Some Directory
     else if p = [''.agents'', ''VERSION''] then Some (File 1 420 ''5.0.0'')
     else if p = [''.agents'', ''bootstrap'', ''root-AGENTS.block.md''] then Some (File 2 420 ''Read INDEX.md'')
     else if p = [''AGENTS.md''] then Some (File 3 420 ''House rules'') else None)"
  by (simp add: node_at_def rules_disk_def)

lemma rules_parts:
  "confined_path [''work''] rules_disk (Rel agents_md) False False = Inr agents_md" "exists rules_disk agents_md" "bytes_at rules_disk agents_md = Inr ''House rules''"
  "decode ''House rules'' = Inr (''House rules'', False)" "split_existing ''House rules'' = Inr (''House rules'', None, [])"
  "template_text rules_disk = Inr ''Read INDEX.md''" "\<exists>desired. managed_block ''Read INDEX.md'' (newline_of ''House rules'') = Inr desired"
  "load_journal rules_disk = Inr None" "well_formed_template rules_disk" "appendable ''House rules''"
proof -
  show "\<exists>desired. managed_block ''Read INDEX.md'' (newline_of ''House rules'') = Inr desired"
  proof -
    have "case managed_block ''Read INDEX.md'' (newline_of ''House rules'') of Inr x \<Rightarrow> True | Inl _ \<Rightarrow> False" by code_simp
    then show ?thesis by (auto split: sum.splits)
  qed
qed code_simp+

lemma rules_plan: "\<exists>plan. plan_install [''work''] rules_disk False = Inr plan \<and> ip_old plan = ''House rules''"
  using rules_parts(1-8) by (auto simp: plan_install_def plan_block_def edited_def Let_def)



text \<open>
  The assumption on fences is needed: a block appended to a text with an open fence is not found again, so
  that every plan appends one more.
\<close>

lemma open_fence_hides_block:
  "case managed_block ''Read INDEX.md'' [lf] of Inr desired \<Rightarrow>
     (let old = [CHR 0x60, CHR 0x60, CHR 0x60, lf]; new = merged old (old, None, []) desired [lf] in split_existing old = Inr (old, None, []) \<and> split_existing new = Inr (new, None, []))
   | Inl _ \<Rightarrow> False"
  by code_simp

end
