(* ===== verification/Workspace.thy ===== *)
theory Workspace
  imports Manifest Modules Sealing
begin

text \<open>
  Fingerprints of the working tree, \<open>agentinfra/workspace.py\<close>: the policy on what is left out, the
  reader of \<open>git status\<close>, and the fingerprints of a git worktree and of a plain tree. A fingerprint is the
  digest of a JSON value; the theory shows what two equal fingerprints have in common.

  Readings from outside are parameters: \<open>git\<close> answers a command line, \<open>toml\<close> reads the policy file,
  \<open>located\<close> says where the target of a symbolic link is, and \<open>resolve_top\<close> turns the top directory git prints
  into a path. Paths in git's output are taken byte for byte.
\<close>

section \<open>Policy\<close>

definition DEFAULT_EPHEMERAL :: "string list" where
  "DEFAULT_EPHEMERAL = [''.git'', ''__pycache__'', ''.pytest_cache'', ''.mypy_cache'', ''.ruff_cache'', ''.coverage'', ''coverage'', ''htmlcov'',
     ''node_modules'', ''dist'', ''build'', ''.aegis'', ''.agents/runtime'', ''.agents/persistent'']"

record fingerprint_policy =
  fp_ephemeral :: "string list"
  fp_include_ignored :: "string list"
  fp_external_symlinks :: "string list"

definition policy_path :: path where "policy_path = [''.agents'', ''workspace-policy.toml'']"

definition unsafe_item :: "string \<Rightarrow> bool" where
  "unsafe_item item \<longleftrightarrow> startswith item [slash] \<or> ''..'' \<in> set (path_parts item)"

definition policy_values :: "pyval \<Rightarrow> string \<Rightarrow> string list res" where
  "policy_values block key = (let values = dget_or block key (PyList []) in
     if \<not> is_list values \<or> \<not> list_all is_text (items values) then Inl (RuntimeErr ''workspace fingerprint policy must be a string array'')
     else if list_ex unsafe_item (map text_of (items values)) then Inl (RuntimeErr ''workspace fingerprint policy contains unsafe path'')
     else Inr (map text_of (items values)))"

definition fingerprint_policy_of :: "(string \<Rightarrow> pyval option) \<Rightarrow> disk \<Rightarrow> fingerprint_policy res" where
  "fingerprint_policy_of toml d =
    (if \<not> exists d policy_path then Inr \<lparr>fp_ephemeral = sort DEFAULT_EPHEMERAL, fp_include_ignored = [], fp_external_symlinks = []\<rparr>
     else case Option.bind (read d policy_path) toml of
       None \<Rightarrow> Inl (RuntimeErr ''invalid workspace fingerprint policy'')
     | Some data \<Rightarrow> (let block = dget_or data ''fingerprint'' (PyDict []) in
         if \<not> is_dict block then Inl (RuntimeErr ''workspace fingerprint policy [fingerprint] must be a table'')
         else res_bind (policy_values block ''ephemeral'') (\<lambda>e. res_bind (policy_values block ''include_ignored'') (\<lambda>i.
           res_bind (policy_values block ''external_symlinks'') (\<lambda>x.
           Inr \<lparr>fp_ephemeral = sort (remdups (DEFAULT_EPHEMERAL @ e)), fp_include_ignored = i, fp_external_symlinks = x\<rparr>)))))"

definition strs :: "string list \<Rightarrow> pyval" where
  "strs xs = PyList (map PyStr xs)"

definition canonical_policy :: "fingerprint_policy \<Rightarrow> string" where
  "canonical_policy p = canonical (PyDict [(''ephemeral'', strs (fp_ephemeral p)), (''include_ignored'', strs (fp_include_ignored p)),
     (''external_symlinks'', strs (fp_external_symlinks p))])"

definition strip_slashes :: "string \<Rightarrow> string" where
  "strip_slashes s = rev (dropWhile (\<lambda>c. c = slash) (rev (dropWhile (\<lambda>c. c = slash) s)))"

definition is_ephemeral :: "fingerprint_policy \<Rightarrow> string \<Rightarrow> bool" where
  "is_ephemeral policy relative = (let n = strip_slashes (map (\<lambda>c. if c = CHR 0x5C then slash else c) relative) in
     list_ex (\<lambda>item. n = strip_slashes item \<or> startswith n (strip_slashes item @ [slash])) (fp_ephemeral policy))"

section \<open>Files\<close>

fun octal :: "nat \<Rightarrow> string" where
  "octal n = (if n < 8 then [char_of (48 + n)] else octal (n div 8) @ [char_of (48 + n mod 8)])"

declare octal.simps [simp del]

definition file_fingerprint :: "disk \<Rightarrow> path \<Rightarrow> string" where
  "file_fingerprint d p = (case node_at d p of
      Some (Symlink t b) \<Rightarrow> ''symlink:'' @ t
    | Some (File i m b) \<Rightarrow> ''file:'' @ octal (nat (m mod 512)) @ '':'' @ sha256 b
    | _ \<Rightarrow> ''other'')"

text \<open>Where a symbolic link leads: nowhere, to a path of the tree, or out of it to something with the given fingerprint.\<close>

datatype location = Broken | Inside path | Outside string

section \<open>Git\<close>

datatype run_result = Missing | Timed_out | Ran (code: int) (out: string) (err: string)

type_synonym git = "string list \<Rightarrow> run_result"

text \<open>\<open>_parse_status\<close> on the chunks between the NUL bytes.\<close>

fun parse_status :: "fingerprint_policy \<Rightarrow> string list \<Rightarrow> (string \<times> string \<times> string option) list res" where
  "parse_status policy [] = Inr []"
| "parse_status policy (record # chunks) =
    (if record = [] then parse_status policy chunks
     else if length record < 4 \<or> record ! 2 \<noteq> CHR '' '' then Inl (RuntimeErr ''malformed git porcelain status record'')
     else if \<not> list_all (\<lambda>c. of_char c < (128::nat)) (take 2 record) then Inl (ValueErr ''not ASCII'')
     else let status = take 2 record; relative = drop 3 record in
       if CHR ''R'' \<in> set status \<or> CHR ''C'' \<in> set status then
         (case chunks of
            [] \<Rightarrow> Inl (RuntimeErr ''truncated git rename/copy status record'')
          | previous # rest \<Rightarrow>
             if previous = [] then Inl (RuntimeErr ''truncated git rename/copy status record'')
             else res_bind (parse_status policy rest) (\<lambda>rs.
               Inr (if is_ephemeral policy relative \<and> is_ephemeral policy previous then rs else (status, relative, Some previous) # rs)))
       else res_bind (parse_status policy chunks) (\<lambda>rs.
         Inr (if is_ephemeral policy relative then rs else (status, relative, None) # rs)))"

definition unavailable :: "string \<Rightarrow> bool \<Rightarrow> string \<Rightarrow> pyval" where
  "unavailable kind fallback reason = PyDict [(''schema'', PyInt 2), (''available'', PyBool False), (''kind'', PyStr kind),
     (''fallback_allowed'', PyBool fallback), (''reason'', PyStr reason)]"

text \<open>\<open>_failed\<close>: the answer to give when a command did not succeed.\<close>

definition failed :: "run_result \<Rightarrow> string \<Rightarrow> pyval option" where
  "failed r label = (case r of
      Missing \<Rightarrow> Some (unavailable ''git'' True ''git executable missing'')
    | Timed_out \<Rightarrow> Some (unavailable ''git'' False (''git '' @ label @ '' timed out''))
    | Ran c ou er \<Rightarrow> if c = 0 then None
        else Some (dupdate (unavailable ''git'' False (''git '' @ label @ '' failed'')) [(''exit'', PyInt c), (''stderr_sha256'', PyStr (sha256 er))]))"

definition stdout :: "run_result \<Rightarrow> string" where
  "stdout r = (case r of Ran c ou er \<Rightarrow> ou | _ \<Rightarrow> [])"

definition status_value :: "string \<times> string \<times> string option \<Rightarrow> pyval" where
  "status_value r = (case r of (status, relative, previous) \<Rightarrow> PyList [PyStr status, PyStr relative, (case previous of None \<Rightarrow> PyNone | Some p \<Rightarrow> PyStr p)])"

definition rstrip_slashes :: "string \<Rightarrow> string" where
  "rstrip_slashes s = rev (dropWhile (\<lambda>c. c = slash) (rev s))"

definition declared_ignored :: "disk \<Rightarrow> string \<Rightarrow> string list" where
  "declared_ignored d relative = [relative, if node_at d (path_parts relative) \<noteq> None then file_fingerprint d (path_parts relative) else ''missing'']"

text \<open>\<open>link.resolve(strict=True)\<close> raises on a broken link.\<close>

definition external_item :: "disk \<Rightarrow> (path \<Rightarrow> location) \<Rightarrow> string \<Rightarrow> string list res" where
  "external_item d located relative = (case node_at d (path_parts relative) of
      Some (Symlink t b) \<Rightarrow> (case located (path_parts relative) of Broken \<Rightarrow> Inl FileNotFoundErr | Inside q \<Rightarrow> Inr [relative, t, file_fingerprint d q] | Outside f \<Rightarrow> Inr [relative, t, f])
    | _ \<Rightarrow> Inr [relative, ''not-symlink''])"

record ws_env =
  we_root :: path
  we_git :: git
  we_toml :: "string \<Rightarrow> pyval option"
  we_located :: "path \<Rightarrow> location"
  we_resolve_top :: "string \<Rightarrow> path"

fun first_failure :: "(run_result \<times> string) list \<Rightarrow> pyval option" where
  "first_failure [] = None"
| "first_failure ((r, label) # rs) = (case failed r label of None \<Rightarrow> first_failure rs | x \<Rightarrow> x)"

definition root_name :: "path \<Rightarrow> string" where
  "root_name r = slash # posix r"

definition fingerprint :: "string \<Rightarrow> pyval \<Rightarrow> pyval" where
  "fingerprint kind payload = PyDict [(''schema'', PyInt 2), (''available'', PyBool True), (''kind'', PyStr kind),
     (''sha256'', PyStr (sha256 (canonical payload))), (''details'', payload)]"

definition git_payload :: "ws_env \<Rightarrow> disk \<Rightarrow> path \<Rightarrow> string \<Rightarrow> string option \<Rightarrow> string \<Rightarrow> string \<Rightarrow> string \<Rightarrow> pyval res" where
  "git_payload v d git_top pre head status unstaged staged =
    res_bind (fingerprint_policy_of (we_toml v) d) (\<lambda>policy.
    res_bind (parse_status policy (split_on (CHR 0x00) status)) (\<lambda>records.
    let untracked = map (\<lambda>r. [fst (snd r), file_fingerprint d (path_parts (fst (snd r)))]) (filter (\<lambda>r. fst r = ''??'') records);
        ignored = map (declared_ignored d) (fp_include_ignored policy) in
    res_bind (map_res (external_item d (we_located v)) (fp_external_symlinks policy)) (\<lambda>external.
    Inr (PyDict [(''schema'', PyInt 2), (''git_top'', PyStr (root_name git_top)), (''scope'', PyStr (root_name (we_root v))), (''prefix'', PyStr pre),
      (''baseline_tree'', (case head of None \<Rightarrow> PyNone | Some h \<Rightarrow> PyStr (strip h))), (''unborn'', PyBool (head = None)),
      (''status_sha256'', PyStr (sha256 (canonical (PyList (map status_value records))))),
      (''unstaged_diff_sha256'', PyStr (sha256 unstaged)), (''staged_diff_sha256'', PyStr (sha256 staged)),
      (''untracked'', PyList (map strs (sort untracked))), (''declared_ignored'', PyList (map strs (sort ignored))),
      (''external_dependencies'', PyList (map strs (sort external))), (''policy_sha256'', PyStr (sha256 (canonical_policy policy)))]))))"

definition git_workspace_fingerprint :: "ws_env \<Rightarrow> disk \<Rightarrow> pyval res" where
  "git_workspace_fingerprint v d = (case we_git v [''rev-parse'', ''--show-toplevel''] of
      Missing \<Rightarrow> Inr (unavailable ''git'' True ''git executable missing'')
    | Timed_out \<Rightarrow> Inr (unavailable ''git'' False ''git root probe timed out'')
    | Ran c ou er \<Rightarrow>
       if c \<noteq> 0 then Inr (unavailable ''git'' True ''not a git worktree'')
       else let git_top = we_resolve_top v (strip ou) in
       if take (length git_top) (we_root v) \<noteq> git_top then Inr (unavailable ''git'' False ''framework root outside git top-level'')
       else let prefix_result = we_git v [''rev-parse'', ''--show-prefix''] in
       case failed prefix_result ''prefix probe'' of
         Some x \<Rightarrow> Inr x
       | None \<Rightarrow>
          let pre = strip (stdout prefix_result);
              status = we_git v [''status'', ''--porcelain=v1'', ''-z'', ''--untracked-files=all'', ''--'', ''.''];
              unstaged = we_git v [''diff'', ''--binary'', ''--no-ext-diff'', ''--'', ''.''];
              staged = we_git v [''diff'', ''--cached'', ''--binary'', ''--no-ext-diff'', ''--'', ''.''] in
          case first_failure [(status, ''status''), (unstaged, ''diff''), (staged, ''cached diff'')] of
            Some x \<Rightarrow> Inr x
          | None \<Rightarrow>
             let head = we_git v [''rev-parse'', ''--verify'', (if pre \<noteq> [] then ''HEAD:'' @ rstrip_slashes pre else ''HEAD^{tree}'')];
                 unborn = (case we_git v [''symbolic-ref'', ''--quiet'', ''HEAD''] of Ran k x y \<Rightarrow> k = 0 | _ \<Rightarrow> False);
                 finish = (\<lambda>h. res_bind (git_payload v d git_top pre h (stdout status) (stdout unstaged) (stdout staged)) (\<lambda>payload. Inr (fingerprint ''git'' payload))) in
             case failed head ''HEAD probe'' of
               None \<Rightarrow> finish (Some (stdout head))
             | Some x \<Rightarrow> (case head of Ran k y z \<Rightarrow> if unborn then finish None else Inr x | _ \<Rightarrow> Inr x))"

section \<open>Plain trees\<close>

text \<open>The loop over the sorted paths; its body answers with an item, nothing, or a reason to give up.\<close>

datatype entry_item = Skip | Item "string list" | Refuse string

definition tree_item :: "ws_env \<Rightarrow> fingerprint_policy \<Rightarrow> disk \<Rightarrow> path \<Rightarrow> entry_item" where
  "tree_item v policy d p = (let relative = posix p in
     if is_ephemeral policy relative then Skip
     else case node_at d p of
       Some (Symlink t b) \<Rightarrow> (case we_located v p of
           Broken \<Rightarrow> Refuse (''cannot fingerprint '' @ relative)
         | Inside q \<Rightarrow> Item [relative, ''symlink:'' @ t]
         | Outside f \<Rightarrow> if relative \<notin> set (fp_external_symlinks policy) then Refuse (''undeclared external symlink: '' @ relative)
             else Item [relative, ''external:'' @ t, f])
     | Some (File i m b) \<Rightarrow> Item [relative, file_fingerprint d p]
     | _ \<Rightarrow> Skip)"

fun tree_items :: "(path \<Rightarrow> entry_item) \<Rightarrow> path list \<Rightarrow> string + string list list" where
  "tree_items f [] = Inr []"
| "tree_items f (p # ps) = (case f p of
      Skip \<Rightarrow> tree_items f ps
    | Refuse reason \<Rightarrow> Inl reason
    | Item x \<Rightarrow> (case tree_items f ps of Inl r \<Rightarrow> Inl r | Inr xs \<Rightarrow> Inr (x # xs)))"

definition tree_paths :: "disk \<Rightarrow> path list" where
  "tree_paths d = sort_key posix (remdups (filter (\<lambda>p. p \<noteq> []) (map fst d)))"

definition tree_payload :: "path \<Rightarrow> fingerprint_policy \<Rightarrow> string list list \<Rightarrow> pyval" where
  "tree_payload root policy xs = PyDict [(''schema'', PyInt 2), (''scope'', PyStr (root_name root)), (''items'', PyList (map strs xs)),
     (''policy_sha256'', PyStr (sha256 (canonical_policy policy)))]"

definition tree_workspace_fingerprint :: "ws_env \<Rightarrow> disk \<Rightarrow> pyval res" where
  "tree_workspace_fingerprint v d = res_bind (fingerprint_policy_of (we_toml v) d) (\<lambda>policy.
     Inr (case tree_items (tree_item v policy d) (tree_paths d) of
       Inl reason \<Rightarrow> unavailable ''tree'' False reason
     | Inr xs \<Rightarrow> dset (fingerprint ''tree'' (tree_payload (we_root v) policy xs)) ''file_count'' (PyInt (int (length xs)))))"

definition workspace_fingerprint :: "ws_env \<Rightarrow> disk \<Rightarrow> pyval res" where
  "workspace_fingerprint v d = res_bind (git_workspace_fingerprint v d) (\<lambda>g.
     if truthy (dget g ''available'') \<or> \<not> truthy (dget g ''fallback_allowed'') then Inr g else tree_workspace_fingerprint v d)"

section \<open>What equal tree fingerprints have in common\<close>

text \<open>What a fingerprint sees of a path: permission bits and bytes of a file, text of a link.\<close>

definition seen :: "disk \<Rightarrow> path \<Rightarrow> (int \<times> string + string) option" where
  "seen d p = (case node_at d p of
      Some (File i m b) \<Rightarrow> Some (Inl (m mod 512, b))
    | Some (Symlink t x) \<Rightarrow> Some (Inr t)
    | _ \<Rightarrow> None)"

definition collide_at :: "disk \<Rightarrow> disk \<Rightarrow> path \<Rightarrow> bool" where
  "collide_at d e p = (case (node_at d p, node_at e p) of (Some (File i m x), Some (File j n y)) \<Rightarrow> sha256_collision x y | _ \<Rightarrow> False)"

lemma octal_ne: "octal n \<noteq> []" "[] \<noteq> octal n"
  by (subst octal.simps; simp)+

lemma octal_inj: "octal m = octal n \<Longrightarrow> m = n"
proof (induction m arbitrary: n rule: octal.induct)
  case (1 m)
  have digit: "char_of (48 + a) = (char_of (48 + b) :: char) \<longleftrightarrow> a = b" if "a < 8" "b < 8" for a b :: nat
  proof
    assume "char_of (48 + a) = (char_of (48 + b) :: char)"
    then have "of_char (char_of (48 + a) :: char) = (of_char (char_of (48 + b) :: char) :: nat)" by simp
    then show "a = b" using that by simp
  qed simp
  show ?case
  proof (cases "m < 8")
    case True
    show ?thesis using 1 True digit octal_ne by (cases "n < 8") (auto simp: octal.simps [of m] octal.simps [of n])
  next
    case False
    have "\<not> n < 8" using 1 False octal_ne by (auto simp: octal.simps [of m] octal.simps [of n])
    then have e: "octal (m div 8) = octal (n div 8)" "m mod 8 = n mod 8"
      using 1 False digit by (simp_all add: octal.simps [of m] octal.simps [of n])
    then have "m div 8 = n div 8" using 1(1) False by blast
    then show ?thesis using e(2) by (metis div_mult_mod_eq)
  qed
qed

lemma strs_inj: "strs x = strs y \<longleftrightarrow> x = y"
  by (auto simp: strs_def inj_map_eq_map inj_def)

lemma canon_strs [simp]: "canon (strs x) = strs x"
  by (simp add: strs_def comp_def)

lemma wf_strs [simp]: "wf_val (strs x)"
  by (auto simp: strs_def list_all_iff)

lemma map_strs_inj: "map strs xs = map strs ys \<Longrightarrow> xs = ys"
  by (metis strs_inj injI inj_map_eq_map)

lemma canonical_policy_inj: "canonical_policy P = canonical_policy Q \<Longrightarrow> P = Q"
proof -
  assume "canonical_policy P = canonical_policy Q"
  let ?v = "\<lambda>P. PyDict [(''ephemeral'', strs (fp_ephemeral P)), (''include_ignored'', strs (fp_include_ignored P)),
     (''external_symlinks'', strs (fp_external_symlinks P))]"
  have w: "wf_val (?v P)" for P by (simp add: wf_dict del: wf_val.simps)
  have c: "canon (?v P) = canon (?v Q)"
    using \<open>canonical_policy P = _\<close> canonical_inj [OF w w] by (simp add: canonical_policy_def)
  have "canon (dget (?v P) k) = canon (dget (?v Q) k)" for k
    using arg_cong [OF c, of "\<lambda>x. dget x k"] unfolding dget_canon [OF w] .
  from this [of "''ephemeral''"] this [of "''include_ignored''"] this [of "''external_symlinks''"]
  show "P = Q" by (simp add: strs_inj)
qed

lemma tree_payload_inj:
  assumes "canonical (tree_payload r P xs) = canonical (tree_payload s Q ys)"
  shows "xs = ys" and "root_name r = root_name s" and "sha256 (canonical_policy P) = sha256 (canonical_policy Q)"
proof -
  have w: "wf_val (tree_payload r P xs)" for r P xs by (auto simp: tree_payload_def list_all_iff)
  have c: "canon (tree_payload r P xs) = canon (tree_payload s Q ys)" using canonical_inj [OF w w assms] .
  have k: "canon (dget (tree_payload r P xs) k) = canon (dget (tree_payload s Q ys) k)" for k
    using arg_cong [OF c, of "\<lambda>x. dget x k"] unfolding dget_canon [OF w] .
  show "xs = ys" using k [of "''items''"] by (simp add: tree_payload_def comp_def map_strs_inj)
  show "root_name r = root_name s" using k [of "''scope''"] by (simp add: tree_payload_def)
  show "sha256 (canonical_policy P) = sha256 (canonical_policy Q)" using k [of "''policy_sha256''"] by (simp add: tree_payload_def)
qed

lemma file_fingerprint_seen:
  assumes "file_fingerprint d p = file_fingerprint e p" and "is_file d p" and "is_file e p"
  shows "seen d p = seen e p \<or> collide_at d e p"
proof -
  obtain i m x where d: "node_at d p = Some (File i m x)" using assms(2) by (auto simp: is_file_def split: option.splits node.splits)
  obtain j n y where e: "node_at e p = Some (File j n y)" using assms(3) by (auto simp: is_file_def split: option.splits node.splits)
  have "octal (nat (m mod 512)) = octal (nat (n mod 512)) \<and> sha256 x = sha256 y"
    using assms(1) append_eq_append_conv [of "'':'' @ sha256 x" "'':'' @ sha256 y"]
    by (auto simp: file_fingerprint_def d e)
  then have "m mod 512 = n mod 512" and "sha256 x = sha256 y" using octal_inj by (force simp: nat_eq_iff)+
  then show ?thesis by (auto simp: seen_def collide_at_def d e sha256_collision_def)
qed

lemma tree_items_Inr:
  "tree_items f ps = Inr xs \<Longrightarrow> (\<forall>p \<in> set ps. f p = Skip \<or> (\<exists>x \<in> set xs. f p = Item x)) \<and> (\<forall>x \<in> set xs. \<exists>p \<in> set ps. f p = Item x)"
  by (induction ps arbitrary: xs) (auto split: entry_item.splits sum.splits)

lemma tree_item_shape: "tree_item v P d p = Item x \<Longrightarrow> hd x = posix p"
  by (auto simp: tree_item_def Let_def split: if_splits option.splits node.splits location.splits)

lemma tree_item_path:
  assumes "tree_items (tree_item v P d) (tree_paths d) = Inr xs" and "normal_disk d" and "normal p" and "p \<noteq> []"
  shows "x \<in> set xs \<and> hd x = posix p \<longleftrightarrow> tree_item v P d p = Item x"
proof
  assume x: "x \<in> set xs \<and> hd x = posix p"
  then obtain q where q: "q \<in> set (tree_paths d)" "tree_item v P d q = Item x" using tree_items_Inr [OF assms(1)] by blast
  have "posix q = posix p" using tree_item_shape [OF q(2)] x by simp
  moreover have "normal q" and "q \<noteq> []" using q(1) assms(2) by (auto simp: tree_paths_def normal_disk_def)
  ultimately show "tree_item v P d p = Item x" using q(2) posix_inj assms(3,4) by metis
next
  assume i: "tree_item v P d p = Item x"
  then have "node_at d p \<noteq> None" by (auto simp: tree_item_def Let_def split: if_splits option.splits)
  then have "p \<in> set (tree_paths d)" using assms(4) by (force simp: tree_paths_def node_at_def dest: map_of_SomeD)
  then show "x \<in> set xs \<and> hd x = posix p" using tree_items_Inr [OF assms(1)] i tree_item_shape [OF i] by auto
qed

lemma tree_item_seen:
  assumes "tree_item v P d p = tree_item w P e p" and "\<not> is_ephemeral P (posix p)"
    and "\<And>r. tree_item v P d p \<noteq> Refuse r"
  shows "seen d p = seen e p \<or> collide_at d e p"
proof (cases "is_file d p \<and> is_file e p")
  case True
  then have "file_fingerprint d p = file_fingerprint e p"
    using assms(1,2) by (auto simp: tree_item_def is_file_def split: option.splits node.splits)
  then show ?thesis using file_fingerprint_seen True by blast
next
  case False
  then show ?thesis using assms
    by (auto simp: tree_item_def Let_def is_file_def seen_def file_fingerprint_def split: option.splits node.splits location.splits if_splits)
qed

lemma entry_item_eqI:
  assumes "\<And>x. a = Item x \<longleftrightarrow> b = Item x" and "\<And>r. a \<noteq> Refuse r" and "\<And>r. b \<noteq> Refuse r"
  shows "a = b"
  using assms by (metis entry_item.exhaust)

lemma tree_item_accepted:
  assumes "tree_items (tree_item v P d) (tree_paths d) = Inr xs" and "p \<noteq> []"
  shows "tree_item v P d p \<noteq> Refuse r"
proof (cases "p \<in> set (tree_paths d)")
  case True
  then show ?thesis using tree_items_Inr [OF assms(1)] by force
next
  case False
  then have "node_at d p = None" using assms(2) by (force simp: tree_paths_def node_at_def map_of_eq_None_iff)
  then show ?thesis by (simp add: tree_item_def Let_def)
qed

lemma tree_items_seen:
  assumes "tree_items (tree_item v P d) (tree_paths d) = Inr xs" and "tree_items (tree_item w P e) (tree_paths e) = Inr xs"
    and "normal_disk d" and "normal_disk e" and "normal p" and "p \<noteq> []" and "\<not> is_ephemeral P (posix p)"
  shows "seen d p = seen e p \<or> collide_at d e p"
proof -
  have "tree_item v P d p = Item x \<longleftrightarrow> tree_item w P e p = Item x" for x
    using tree_item_path [OF assms(1,3,5,6)] tree_item_path [OF assms(2,4,5,6)] by blast
  moreover have "tree_item v P d p \<noteq> Refuse r" "tree_item w P e p \<noteq> Refuse r" for r
    using tree_item_accepted [OF assms(1,6)] tree_item_accepted [OF assms(2,6)] by blast+
  ultimately have "tree_item v P d p = tree_item w P e p"
    by (rule entry_item_eqI)
  then show ?thesis using tree_item_seen assms(7) tree_item_accepted [OF assms(1,6)] by blast
qed

lemma tree_fingerprint_available:
  assumes "tree_workspace_fingerprint v d = Inr a" and "dget a ''available'' = PyBool True"
  obtains P xs where "fingerprint_policy_of (we_toml v) d = Inr P" and "tree_items (tree_item v P d) (tree_paths d) = Inr xs"
    and "dget a ''details'' = tree_payload (we_root v) P xs" and "dget a ''sha256'' = PyStr (sha256 (canonical (dget a ''details'')))"
  using assms by (auto simp: tree_workspace_fingerprint_def fingerprint_def unavailable_def res_bind_def split: sum.splits)

text \<open>
  C37: two available fingerprints of plain trees with the same digest were taken under the same policy, and every
  path the policy does not leave out is the same in both trees: both have no file or link there, or files with the
  same permission bits and bytes, or links with the same text. The only way out is a SHA-256 collision between the
  two payloads, the two policies or the two files at that path.
\<close>
theorem tree_fingerprint_commits:
  assumes "tree_workspace_fingerprint v d = Inr a" and "tree_workspace_fingerprint w e = Inr b"
    and "dget a ''available'' = PyBool True" and "dget b ''available'' = PyBool True" and "dget a ''sha256'' = dget b ''sha256''"
    and "normal_disk d" and "normal_disk e"
  shows "sha256_collision (canonical (dget a ''details'')) (canonical (dget b ''details'')) \<or>
    (\<exists>P Q. fingerprint_policy_of (we_toml v) d = Inr P \<and> fingerprint_policy_of (we_toml w) e = Inr Q \<and>
      (sha256_collision (canonical_policy P) (canonical_policy Q) \<or>
       P = Q \<and> (\<forall>p. normal p \<and> p \<noteq> [] \<and> \<not> is_ephemeral P (posix p) \<longrightarrow> seen d p = seen e p \<or> collide_at d e p)))"
proof -
  obtain P xs where a: "fingerprint_policy_of (we_toml v) d = Inr P" "tree_items (tree_item v P d) (tree_paths d) = Inr xs"
    "dget a ''details'' = tree_payload (we_root v) P xs" "dget a ''sha256'' = PyStr (sha256 (canonical (dget a ''details'')))"
    using tree_fingerprint_available [OF assms(1,3)] .
  obtain Q ys where b: "fingerprint_policy_of (we_toml w) e = Inr Q" "tree_items (tree_item w Q e) (tree_paths e) = Inr ys"
    "dget b ''details'' = tree_payload (we_root w) Q ys" "dget b ''sha256'' = PyStr (sha256 (canonical (dget b ''details'')))"
    using tree_fingerprint_available [OF assms(2,4)] .
  show ?thesis
  proof (cases "canonical (dget a ''details'') = canonical (dget b ''details'')")
    case False
    then show ?thesis using a(4) b(4) assms(5) by (simp add: sha256_collision_def)
  next
    case True
    then have t: "xs = ys" "sha256 (canonical_policy P) = sha256 (canonical_policy Q)"
      unfolding a(3) b(3) using tree_payload_inj by blast+
    show ?thesis
    proof (cases "P = Q")
      case True
      then show ?thesis using a(1,2) b(1,2) t(1) tree_items_seen assms(6,7) by blast
    next
      case False
      then have "sha256_collision (canonical_policy P) (canonical_policy Q)"
        using t(2) canonical_policy_inj by (auto simp: sha256_collision_def)
      then show ?thesis using a(1) b(1) by blast
    qed
  qed
qed

definition tree_env :: ws_env where
  "tree_env = \<lparr>we_root = [''srv'', ''app''], we_git = (\<lambda>args. Missing), we_toml = (\<lambda>s. None), we_located = (\<lambda>p. Broken), we_resolve_top = path_parts\<rparr>"

definition tree_before :: disk where
  "tree_before = [([''dist''], Directory), ([''dist'', ''app.js''], File 2 420 ''old''), ([''main.c''], File 1 420 ''int x;'')]"

definition tree_after :: disk where
  "tree_after = [([''main.c''], File 9 420 ''int x;''), ([''dist''], Directory), ([''dist'', ''app.js''], File 3 420 ''new'')]"

lemma sample_policy:
  "fingerprint_policy_of (we_toml tree_env) tree_before = Inr \<lparr>fp_ephemeral = sort DEFAULT_EPHEMERAL, fp_include_ignored = [], fp_external_symlinks = []\<rparr>"
  "fingerprint_policy_of (we_toml tree_env) tree_after = Inr \<lparr>fp_ephemeral = sort DEFAULT_EPHEMERAL, fp_include_ignored = [], fp_external_symlinks = []\<rparr>"
  by (simp_all add: fingerprint_policy_of_def exists_def node_at_def policy_path_def tree_before_def tree_after_def)

lemma sample_paths:
  "tree_paths tree_before = [[''dist''], [''dist'', ''app.js''], [''main.c'']]" "tree_paths tree_after = [[''dist''], [''dist'', ''app.js''], [''main.c'']]"
  by code_simp+

lemma sample_ephemeral:
  "is_ephemeral \<lparr>fp_ephemeral = sort DEFAULT_EPHEMERAL, fp_include_ignored = [], fp_external_symlinks = []\<rparr> ''dist''"
  "is_ephemeral \<lparr>fp_ephemeral = sort DEFAULT_EPHEMERAL, fp_include_ignored = [], fp_external_symlinks = []\<rparr> ''dist/app.js''"
  "\<not> is_ephemeral \<lparr>fp_ephemeral = sort DEFAULT_EPHEMERAL, fp_include_ignored = [], fp_external_symlinks = []\<rparr> ''main.c''"
  by code_simp+

lemma sample_posix: "posix [''dist''] = ''dist''" "posix [''dist'', ''app.js''] = ''dist/app.js''" "posix [''main.c''] = ''main.c''"
  by code_simp+

lemma sample_fingerprints: "tree_workspace_fingerprint tree_env d = Inr (dset (fingerprint ''tree'' (tree_payload [''srv'', ''app'']
    \<lparr>fp_ephemeral = sort DEFAULT_EPHEMERAL, fp_include_ignored = [], fp_external_symlinks = []\<rparr>
    [[''main.c'', ''file:'' @ octal 420 @ '':'' @ sha256 ''int x;'']])) ''file_count'' (PyInt 1))"
  if "d \<in> {tree_before, tree_after}"
proof -
  have e: "we_root tree_env = [''srv'', ''app'']" by (simp add: tree_env_def)
  have n: "node_at tree_before [''main.c''] = Some (File 1 420 ''int x;'')" "node_at tree_after [''main.c''] = Some (File 9 420 ''int x;'')"
    by (simp_all add: node_at_def tree_before_def tree_after_def)
  show ?thesis using that
    by (auto simp only: insert_iff empty_iff tree_workspace_fingerprint_def sample_policy sample_paths res_bind_def sum.case e
        tree_items.simps tree_item_def sample_posix Let_def sample_ephemeral n option.case node.case entry_item.case file_fingerprint_def if_True if_False)
       simp_all
qed

theorem tree_fingerprint_commits_witness:
  "\<exists>a. tree_workspace_fingerprint tree_env tree_before = Inr a \<and> tree_workspace_fingerprint tree_env tree_after = Inr a \<and>
    (\<exists>P Q. fingerprint_policy_of (we_toml tree_env) tree_before = Inr P \<and> fingerprint_policy_of (we_toml tree_env) tree_after = Inr Q \<and>
      (sha256_collision (canonical_policy P) (canonical_policy Q) \<or>
       P = Q \<and> (\<forall>p. normal p \<and> p \<noteq> [] \<and> \<not> is_ephemeral P (posix p) \<longrightarrow> seen tree_before p = seen tree_after p \<or> collide_at tree_before tree_after p)))"
proof -
  let ?a = "dset (fingerprint ''tree'' (tree_payload [''srv'', ''app'']
    \<lparr>fp_ephemeral = sort DEFAULT_EPHEMERAL, fp_include_ignored = [], fp_external_symlinks = []\<rparr>
    [[''main.c'', ''file:'' @ octal 420 @ '':'' @ sha256 ''int x;'']])) ''file_count'' (PyInt 1)"
  have b: "tree_workspace_fingerprint tree_env tree_before = Inr ?a" by (rule sample_fingerprints) simp
  have a: "tree_workspace_fingerprint tree_env tree_after = Inr ?a" by (rule sample_fingerprints) simp
  have v: "dget ?a ''available'' = PyBool True" by (simp add: fingerprint_def)
  have n: "normal_disk tree_before" "normal_disk tree_after"
    by (simp_all add: normal_disk_def tree_before_def tree_after_def normal_def slash_def)
  show ?thesis using tree_fingerprint_commits [OF b a v v refl n] b a by (simp only: sha256_collision_def) blast
qed

text \<open>
  \<open>git status\<close> names paths from the top of the repository, and the code looks them up from the root. In a
  subdirectory an untracked file is therefore not found, and its bytes do not reach the fingerprint.
\<close>

definition sub_env :: ws_env where
  "sub_env = tree_env\<lparr>we_git := (\<lambda>args.
     if args = [''rev-parse'', ''--show-toplevel''] then Ran 0 ''/srv'' []
     else if args = [''rev-parse'', ''--show-prefix''] then Ran 0 ''app/'' []
     else if hd args = ''status'' then Ran 0 (''?? app/new.c'' @ [CHR 0x00]) []
     else Ran 0 [] [])\<rparr>"

definition new_file :: "string \<Rightarrow> disk" where
  "new_file b = [([''new.c''], File 1 420 b)]"

lemma new_file_policy:
  "fingerprint_policy_of toml (new_file b) = Inr \<lparr>fp_ephemeral = sort DEFAULT_EPHEMERAL, fp_include_ignored = [], fp_external_symlinks = []\<rparr>"
  by (simp add: fingerprint_policy_of_def exists_def node_at_def policy_path_def new_file_def)

lemma untracked_in_subdirectory_unseen:
  "\<exists>f. dget f ''available'' = PyBool True \<and> (\<forall>b. git_workspace_fingerprint sub_env (new_file b) = Inr f)"
proof -
  have s: "parse_status \<lparr>fp_ephemeral = sort DEFAULT_EPHEMERAL, fp_include_ignored = [], fp_external_symlinks = []\<rparr>
      (split_on (CHR 0x00) (''?? app/new.c'' @ [CHR 0x00])) = Inr [(''??'', ''app/new.c'', None)]" by code_simp
  have q: "path_parts ''app/new.c'' = [''app'', ''new.c'']" "path_parts ''/srv'' = [''srv'']" by code_simp+
  have o: "file_fingerprint (new_file b) [''app'', ''new.c''] = ''other''" for b by (simp add: file_fingerprint_def node_at_def new_file_def)
  have t: "strip ''/srv'' = ''/srv''" "strip ''app/'' = ''app/''" by code_simp+
  have k: "\<exists>payload. \<forall>b. git_payload sub_env (new_file b) [''srv''] ''app/'' (Some []) (''?? app/new.c'' @ [CHR 0x00]) [] [] = Inr payload"
    unfolding git_payload_def new_file_policy res_bind_def sum.case s Let_def by (simp add: q(1) o)
  then obtain payload where k: "\<forall>b. git_payload sub_env (new_file b) [''srv''] ''app/'' (Some []) (''?? app/new.c'' @ [CHR 0x00]) [] [] = Inr payload" ..
  have "git_workspace_fingerprint sub_env (new_file b) = Inr (fingerprint ''git'' payload)" for b
    using k by (simp add: git_workspace_fingerprint_def sub_env_def tree_env_def failed_def stdout_def t q(2) Let_def res_bind_def)
  then show ?thesis by (intro exI [of _ "fingerprint ''git'' payload"]) (simp add: fingerprint_def)
qed

end
