(* ===== verification/Runtime_Migration.thy ===== *)
theory Runtime_Migration
  imports Recovery
begin

text \<open>
  Migration of the runtime files of an older layout, \<open>agentinfra/runtime_migration.py\<close>: the plan over
  \<open>.agents/runtime\<close> and \<open>.agents/persistent\<close>, and the copy in one transaction. An applied migration has every
  legacy file at its destination, keeps every file that was there and leaves nothing to migrate.

  Symbolic links lead somewhere, so that a link exists. What other processes do between the two plans is the
  argument \<open>between\<close>.
\<close>

section \<open>Plan\<close>

definition legacy_runtime :: path where "legacy_runtime = agents_dir @ [''runtime'']"
definition legacy_persistent :: path where "legacy_persistent = agents_dir @ [''persistent'']"

definition migration_destination :: "path \<Rightarrow> path res" where
  "migration_destination source = (case source of
      a # top_name # tail \<Rightarrow>
        if a \<noteq> ''.agents'' then Inl (ValueErr ''not below .agents'')
        else if top_name = ''runtime'' then
          (if tail \<noteq> [] \<and> hd tail = ''tasks'' then Inr (tasks_dir @ tl tail) else Inr (runtime_dir @ [''legacy''] @ tail))
        else if top_name = ''persistent'' then Inr (persistent_dir @ tail)
        else Inl (RuntimeMigrationError ''unsupported legacy runtime source'')
    | [a] \<Rightarrow> if a \<noteq> ''.agents'' then Inl (ValueErr ''not below .agents'') else Inl IndexErr
    | [] \<Rightarrow> Inl (ValueErr ''not below .agents''))"

text \<open>What the loop does with one source.\<close>

datatype migration_entry = Ignore | Current string | Copy mutation pyval

definition migration_step :: "disk \<Rightarrow> path \<Rightarrow> migration_entry res" where
  "migration_step d source =
    (if is_path_redirect d source then Inl (RuntimeMigrationError ''legacy runtime migration refuses redirected source'')
     else case node_at d source of
       Some Directory \<Rightarrow> Inr Ignore
     | Some (File i m payload) \<Rightarrow>
        res_bind (migration_destination source) (\<lambda>destination.
        if exists d destination then
          (if \<not> is_file d destination then Inl (RuntimeMigrationError ''runtime migration destination is redirected or not a file'')
           else if read d destination \<noteq> Some payload then Inl (RuntimeMigrationError ''runtime migration collision'')
           else Inr (Current (posix destination)))
        else Inr (Copy
          \<lparr>mu_path = destination, mu_data = Some payload, mu_expected_sha256 = None, mu_expected_exists = Some False, mu_mode = Some (m mod 4096)\<rparr>
          (PyDict [(''source'', PyStr (posix source)), (''destination'', PyStr (posix destination)), (''sha256'', PyStr (sha256 payload)),
             (''size'', PyInt (int (length payload)))])))
     | _ \<Rightarrow> Inl (RuntimeMigrationError ''legacy runtime migration refuses non-file source''))"

text \<open>\<open>sorted(legacy_root.rglob("*"))\<close>.\<close>

definition legacy_paths :: "disk \<Rightarrow> path \<Rightarrow> path list" where
  "legacy_paths d root = sort_key posix (remdups (filter (\<lambda>p. strict_prefix root p) (map fst d)))"

definition legacy_steps :: "disk \<Rightarrow> path \<Rightarrow> migration_entry list res" where
  "legacy_steps d root =
    (if \<not> exists d root then Inr []
     else if \<not> is_dir d root then Inl (RuntimeMigrationError ''legacy runtime root is redirected or not a directory'')
     else map_res (migration_step d) (legacy_paths d root))"

record migration_plan =
  mp_mutations :: "mutation list"
  mp_copies :: "pyval list"
  mp_current :: "string list"

definition collect_entries :: "migration_entry list \<Rightarrow> migration_plan" where
  "collect_entries es = \<lparr>mp_mutations = concat (map (\<lambda>e. case e of Copy m c \<Rightarrow> [m] | _ \<Rightarrow> []) es),
     mp_copies = concat (map (\<lambda>e. case e of Copy m c \<Rightarrow> [c] | _ \<Rightarrow> []) es),
     mp_current = sort (concat (map (\<lambda>e. case e of Current s \<Rightarrow> [s] | _ \<Rightarrow> []) es))\<rparr>"

definition plan_runtime_migration :: "disk \<Rightarrow> migration_plan res" where
  "plan_runtime_migration d =
    res_bind (legacy_steps d legacy_runtime) (\<lambda>a. res_bind (legacy_steps d legacy_persistent) (\<lambda>b. Inr (collect_entries (a @ b))))"

section \<open>Migration\<close>

record migration_report =
  mr_applied :: bool
  mr_dry_run :: bool
  mr_copies :: "pyval list"
  mr_current :: "string list"

record migration_env =
  me_root :: path
  me_uuid :: string
  me_now :: string

definition migration_tx :: "migration_env \<Rightarrow> mutation list \<Rightarrow> tx" where
  "migration_tx v ms = \<lparr>tx_root = me_root v, tx_state_dir = persistent_dir @ [''transactions''], tx_name = ''runtime-layout-migration'',
     tx_uuid = me_uuid v, tx_now = me_now v, tx_mutations = ms\<rparr>"

text \<open>\<open>except (TransactionError, OSError, RuntimeError)\<close>: the other classes pass.\<close>

definition migration_failure :: "exn \<Rightarrow> exn" where
  "migration_failure e = (case e of
      ValueErr m \<Rightarrow> e | TypeErr \<Rightarrow> e | AttributeErr \<Rightarrow> e | KeyErr k \<Rightarrow> e | IndexErr \<Rightarrow> e | LawFailure m \<Rightarrow> e
    | _ \<Rightarrow> RuntimeMigrationError ''runtime migration transaction failed'')"

definition migrate_runtime :: "migration_env \<Rightarrow> (disk \<Rightarrow> disk) \<Rightarrow> bool \<Rightarrow> migration_report io" where
  "migrate_runtime v between apply_it d = (case plan_runtime_migration d of
      Inl e \<Rightarrow> (d, Inl e)
    | Inr plan \<Rightarrow>
       if \<not> apply_it \<or> mp_mutations plan = []
       then (d, Inr \<lparr>mr_applied = False, mr_dry_run = \<not> apply_it, mr_copies = mp_copies plan, mr_current = mp_current plan\<rparr>)
       else (case plan_runtime_migration (between d) of
           Inl e \<Rightarrow> (between d, Inl e)
         | Inr fresh \<Rightarrow>
            if mp_copies fresh \<noteq> mp_copies plan then (between d, Inl (RuntimeMigrationError ''legacy runtime changed while migration was being planned''))
            else (case run_transaction (migration_tx v (mp_mutations fresh)) False (between d) of
                (d', Inl e) \<Rightarrow> (d', Inl (migration_failure e))
              | (d', Inr j) \<Rightarrow> (d', Inr \<lparr>mr_applied = True, mr_dry_run = False, mr_copies = mp_copies fresh, mr_current = mp_current fresh\<rparr>))))"

section \<open>What a plan contains\<close>

definition legacy :: "path \<Rightarrow> bool" where
  "legacy p \<longleftrightarrow> strict_prefix legacy_runtime p \<or> strict_prefix legacy_persistent p"

text \<open>What is there has its directories above it.\<close>

definition legacy_rooted :: "disk \<Rightarrow> bool" where
  "legacy_rooted d \<longleftrightarrow> (\<forall>p. legacy p \<longrightarrow> rooted d p)"

lemma strict_prefix_cons: "strict_prefix r p \<Longrightarrow> \<exists>x xs. p = r @ x # xs"
  by (metis list.exhaust strict_prefixE' append_Nil2 append_Cons)

lemma legacy_split: "legacy p \<Longrightarrow> \<exists>t x xs. p = ''.agents'' # t # x # xs \<and> (t = ''runtime'' \<or> t = ''persistent'')"
  by (auto simp: legacy_def legacy_runtime_def legacy_persistent_def agents_dir_def dest!: strict_prefix_cons)

lemma legacy_destination: "legacy p \<Longrightarrow> \<exists>q. migration_destination p = Inr q \<and> q \<noteq> [] \<and> hd q = ''.aegis''"
  by (drule legacy_split) (auto simp: migration_destination_def tasks_dir_def runtime_dir_def persistent_dir_def aegis_dir_def)

lemma destination_inj:
  assumes "legacy p" and "legacy q" and "migration_destination p = migration_destination q"
  shows "p = q"
proof -
  obtain t x xs where p: "p = ''.agents'' # t # x # xs" "t = ''runtime'' \<or> t = ''persistent''" using legacy_split [OF assms(1)] by blast
  obtain s y ys where q: "q = ''.agents'' # s # y # ys" "s = ''runtime'' \<or> s = ''persistent''" using legacy_split [OF assms(2)] by blast
  show ?thesis using assms(3) p q
    by (auto simp: migration_destination_def tasks_dir_def runtime_dir_def persistent_dir_def aegis_dir_def split: if_splits)
qed

lemma legacy_paths_set: "p \<in> set (legacy_paths d root) \<longleftrightarrow> p \<in> fst ` set d \<and> strict_prefix root p"
  by (auto simp: legacy_paths_def)

lemma exists_key: "p \<noteq> [] \<Longrightarrow> exists d p \<longleftrightarrow> p \<in> fst ` set d"
  by (simp add: exists_def node_at_def map_of_eq_None_iff)

lemma legacy_ne: "legacy p \<Longrightarrow> p \<noteq> []"
  using legacy_split by blast

lemma root_above:
  assumes "strict_prefix root p" and "root \<noteq> []" and "rooted d p" and "exists d p"
  shows "is_dir d root"
proof -
  have "prefix root (butlast p)" using assms(1) by (metis append_butlast_last_id prefix_snoc strict_prefixE strict_prefix_def prefix_bot.bot_least append_Nil2 strict_prefix_simps(1))
  then show ?thesis using assms(2-4) by (auto simp: rooted_def steps_iff)
qed

lemma legacy_steps_Inr:
  assumes "legacy_steps d root = Inr es" and "root = legacy_runtime \<or> root = legacy_persistent" and "legacy_rooted d"
  shows "(\<forall>p. strict_prefix root p \<and> exists d p \<longrightarrow> (\<exists>e \<in> set es. migration_step d p = Inr e))
     \<and> (\<forall>e \<in> set es. \<exists>p. strict_prefix root p \<and> exists d p \<and> migration_step d p = Inr e)"
proof -
  have ne: "root \<noteq> []" using assms(2) by (auto simp: legacy_runtime_def legacy_persistent_def)
  have lg: "legacy p" "p \<noteq> []" if "strict_prefix root p" for p using that assms(2) by (auto simp: legacy_def)
  show ?thesis
  proof (cases "exists d root")
    case False
    have "\<not> exists d p" if "strict_prefix root p" for p
      using root_above [OF that ne, of d] assms(3) lg(1) [OF that] False unfolding legacy_rooted_def by (metis exists_def is_dir_def option.distinct(1))
    then show ?thesis using assms(1) False by (auto simp: legacy_steps_def)
  next
    case True
    then have m: "map_res (migration_step d) (legacy_paths d root) = Inr es" using assms(1) by (auto simp: legacy_steps_def split: if_splits)
    have "p \<in> set (legacy_paths d root) \<longleftrightarrow> strict_prefix root p \<and> exists d p" for p
      using exists_key [of p d] lg by (auto simp: legacy_paths_set)
    then show ?thesis using map_res_member [OF m] map_res_from [OF m] by metis
  qed
qed

lemma plan_Inr:
  assumes "plan_runtime_migration d = Inr plan" and "legacy_rooted d"
  shows "\<And>p. legacy p \<Longrightarrow> exists d p \<Longrightarrow> \<exists>e. migration_step d p = Inr e"
    and "m \<in> set (mp_mutations plan) \<longleftrightarrow> (\<exists>p c. legacy p \<and> exists d p \<and> migration_step d p = Inr (Copy m c))"
proof -
  obtain a b where a: "legacy_steps d legacy_runtime = Inr a" and b: "legacy_steps d legacy_persistent = Inr b" and p: "plan = collect_entries (a @ b)"
    using assms(1) by (auto simp: plan_runtime_migration_def res_bind_Inr)
  note fa = legacy_steps_Inr [OF a _ assms(2)] and fb = legacy_steps_Inr [OF b _ assms(2)]
  show "\<exists>e. migration_step d p = Inr e" if "legacy p" "exists d p" for p using that fa fb by (auto simp: legacy_def)
  have "m \<in> set (mp_mutations plan) \<longleftrightarrow> (\<exists>c. Copy m c \<in> set a \<union> set b)"
    by (force simp: p collect_entries_def split: migration_entry.splits)
  also have "\<dots> \<longleftrightarrow> (\<exists>p c. legacy p \<and> exists d p \<and> migration_step d p = Inr (Copy m c))"
    using fa fb unfolding legacy_def by (smt (verit, best) UnCI UnE sum.inject(2))
  finally show "m \<in> set (mp_mutations plan) \<longleftrightarrow> (\<exists>p c. legacy p \<and> exists d p \<and> migration_step d p = Inr (Copy m c))" .
qed

lemma migration_step_file:
  assumes "legacy p" and "read d p = Some b" and "migration_step d p = Inr e"
  obtains q where "migration_destination p = Inr q" and
    "read d q = Some b \<or> (\<not> exists d q \<and> (\<exists>m c. e = Copy m c \<and> mu_path m = q \<and> mu_data m = Some b))"
  using assms by (auto simp: migration_step_def read_def is_path_redirect_def res_bind_Inr split: option.splits node.splits if_splits)

lemma migration_step_Copy:
  assumes "migration_step d p = Inr (Copy m c)"
  shows "migration_destination p = Inr (mu_path m)" and "mu_data m = read d p" and "\<not> exists d (mu_path m)"
    and "mu_expected_exists m = Some False" and "mu_expected_sha256 m = None"
  using assms by (auto simp: migration_step_def read_def res_bind_Inr split: option.splits node.splits if_splits)

lemma planned_expected:
  assumes "plan_runtime_migration d = Inr plan" and "legacy_rooted d"
  shows "\<forall>m \<in> set (tx_mutations (migration_tx v (mp_mutations plan))). as_expected d m"
proof
  fix m assume "m \<in> set (tx_mutations (migration_tx v (mp_mutations plan)))"
  then obtain p c where "migration_step d p = Inr (Copy m c)" using plan_Inr(2) [OF assms] by (auto simp: migration_tx_def)
  from migration_step_Copy(3-5) [OF this] show "as_expected d m" by (auto simp: as_expected_def exists_def read_def)
qed

definition migrated :: "disk \<Rightarrow> disk \<Rightarrow> bool" where
  "migrated d d' \<longleftrightarrow>
     (\<forall>p b. legacy p \<and> read d p = Some b \<longrightarrow> (\<exists>q. migration_destination p = Inr q \<and> read d' q = Some b))
   \<and> (\<forall>q b. read d q = Some b \<longrightarrow> read d' q = Some b)
   \<and> (\<forall>q. read d' q \<noteq> read d q \<longrightarrow> (\<exists>p. legacy p \<and> migration_destination p = Inr q \<and> read d' q = read d p))"

lemma final_migrated:
  assumes "plan_runtime_migration d = Inr plan" and "legacy_rooted d" and "distinct (map mu_path (mp_mutations plan))"
    and "read d' = tx_final (migration_tx v (mp_mutations plan)) d"
  shows "migrated d d'"
proof -
  let ?ms = "mp_mutations plan"
  have f: "tx_final (migration_tx v ?ms) d (mu_path m) = mu_data m" if "m \<in> set ?ms" for m
  proof -
    have "map_of (map (\<lambda>m. (mu_path m, mu_data m)) ?ms) (mu_path m) = Some (mu_data m)"
      using that assms(3) by (intro map_of_is_SomeI) (auto simp: comp_def)
    then show ?thesis by (simp add: tx_final_def migration_tx_def)
  qed
  have g: "tx_final (migration_tx v ?ms) d q = read d q" if "q \<notin> mu_path ` set ?ms" for q
  proof -
    have "map_of (map (\<lambda>m. (mu_path m, mu_data m)) ?ms) q = None" using that by (force simp: map_of_eq_None_iff)
    then show ?thesis by (simp add: tx_final_def migration_tx_def)
  qed
  have copied: "\<exists>p c. legacy p \<and> migration_step d p = Inr (Copy m c)" if "m \<in> set ?ms" for m
    using that plan_Inr(2) [OF assms(1,2)] by blast
  have keep: "read d' q = Some b" if "read d q = Some b" for q b
  proof -
    have "q \<notin> mu_path ` set ?ms"
    proof
      assume "q \<in> mu_path ` set ?ms"
      then obtain m where m: "m \<in> set ?ms" "q = mu_path m" by blast
      then have "\<not> exists d q" using copied [OF m(1)] migration_step_Copy(3) by auto
      then show False using that by (simp add: exists_def read_def)
    qed
    then show ?thesis using g that assms(4) by simp
  qed
  have "\<exists>q. migration_destination p = Inr q \<and> read d' q = Some b" if l: "legacy p" and r: "read d p = Some b" for p b
  proof -
    have x: "exists d p" using r by (auto simp: exists_def read_def split: option.splits)
    obtain e where e: "migration_step d p = Inr e" using plan_Inr(1) [OF assms(1,2) l x] by blast
    show ?thesis
    proof (rule migration_step_file [OF l r e])
      fix q assume q: "migration_destination p = Inr q"
        and "read d q = Some b \<or> \<not> exists d q \<and> (\<exists>m c. e = Copy m c \<and> mu_path m = q \<and> mu_data m = Some b)"
      then show ?thesis
      proof (elim disjE conjE exE)
        assume "read d q = Some b" then show ?thesis using q keep by blast
      next
        fix m c assume m: "e = Copy m c" "mu_path m = q" "mu_data m = Some b"
        have "m \<in> set ?ms" using plan_Inr(2) [OF assms(1,2)] l x e m(1) by blast
        then show ?thesis using q f assms(4) m by metis
      qed
    qed
  qed
  moreover have "\<exists>p. legacy p \<and> migration_destination p = Inr q \<and> read d' q = read d p" if "read d' q \<noteq> read d q" for q
  proof -
    have "q \<in> mu_path ` set ?ms" using that g assms(4) by metis
    then obtain m where m: "m \<in> set ?ms" "q = mu_path m" by blast
    obtain p c where "legacy p" "migration_step d p = Inr (Copy m c)" using copied [OF m(1)] by blast
    then show ?thesis using migration_step_Copy(1,2) m f assms(4) by metis
  qed
  ultimately show ?thesis using keep unfolding migrated_def by blast
qed

lemma map_res_total: "\<forall>x \<in> set xs. \<exists>y. f x = Inr y \<and> P y \<Longrightarrow> \<exists>ys. map_res f xs = Inr ys \<and> (\<forall>y \<in> set ys. P y)"
  by (induction xs) force+

definition same_legacy :: "disk \<Rightarrow> disk \<Rightarrow> bool" where
  "same_legacy d d' \<longleftrightarrow> (\<forall>p. p = legacy_runtime \<or> p = legacy_persistent \<or> legacy p \<longrightarrow> node_at d' p = node_at d p)"

lemma migrated_step:
  assumes "migration_step d p = Inr e" and "legacy p" and "migrated d d'" and "node_at d' p = node_at d p"
  shows "\<exists>e. migration_step d' p = Inr e \<and> (\<forall>m c. e \<noteq> Copy m c)"
proof (cases "node_at d p")
  case None
  then show ?thesis using assms(1) by (simp add: migration_step_def is_path_redirect_def)
next
  case (Some n)
  show ?thesis
  proof (cases n)
    case (File i m b)
    then have "read d p = Some b" using Some by (simp add: read_def)
    then obtain q where q: "migration_destination p = Inr q" "read d' q = Some b" using assms(2,3) unfolding migrated_def by blast
    have "exists d' q" "is_file d' q" using q(2) by (auto simp: exists_def is_file_def read_def split: option.splits node.splits)
    then show ?thesis using q Some File assms(4) by (simp add: migration_step_def is_path_redirect_def)
  qed (use Some assms in \<open>simp_all add: migration_step_def is_path_redirect_def\<close>)
qed

lemma migrated_steps:
  assumes "legacy_steps d root = Inr es" and "root = legacy_runtime \<or> root = legacy_persistent" and "legacy_rooted d"
    and "migrated d d'" and "same_legacy d d'"
  shows "\<exists>es'. legacy_steps d' root = Inr es' \<and> (\<forall>e \<in> set es'. \<forall>m c. e \<noteq> Copy m c)"
proof -
  have n: "node_at d' root = node_at d root" using assms(2,5) unfolding same_legacy_def by blast
  have "\<exists>e. migration_step d' p = Inr e \<and> (\<forall>m c. e \<noteq> Copy m c)" if "p \<in> set (legacy_paths d' root)" for p
  proof -
    have l: "strict_prefix root p" "legacy p" "p \<in> fst ` set d'" using that assms(2) by (auto simp: legacy_paths_set legacy_def)
    have s: "node_at d' p = node_at d p" using assms(5) l(2) unfolding same_legacy_def by blast
    have "exists d p" using exists_key [OF legacy_ne [OF l(2)], of d'] l(3) s by (simp add: exists_def)
    then obtain e where "migration_step d p = Inr e" using legacy_steps_Inr [OF assms(1-3)] l(1) by blast
    from migrated_step [OF this l(2) assms(4) s] show ?thesis .
  qed
  then obtain es' where "map_res (migration_step d') (legacy_paths d' root) = Inr es'" "\<forall>e \<in> set es'. \<forall>m c. e \<noteq> Copy m c"
    using map_res_total [of "legacy_paths d' root" "migration_step d'" "\<lambda>e. \<forall>m c. e \<noteq> Copy m c"] by blast
  then show ?thesis using assms(1) n by (auto simp: legacy_steps_def exists_def is_dir_def split: if_splits)
qed

lemma migrated_replan:
  assumes "plan_runtime_migration d = Inr plan" and "legacy_rooted d" and "migrated d d'" and "same_legacy d d'"
  shows "\<exists>fresh. plan_runtime_migration d' = Inr fresh \<and> mp_mutations fresh = []"
proof -
  obtain a b where ab: "legacy_steps d legacy_runtime = Inr a" "legacy_steps d legacy_persistent = Inr b"
    using assms(1) by (auto simp: plan_runtime_migration_def res_bind_Inr)
  obtain a' where a: "legacy_steps d' legacy_runtime = Inr a'" "\<forall>e \<in> set a'. \<forall>m c. e \<noteq> Copy m c"
    using migrated_steps [OF ab(1) _ assms(2-4)] by blast
  obtain b' where b: "legacy_steps d' legacy_persistent = Inr b'" "\<forall>e \<in> set b'. \<forall>m c. e \<noteq> Copy m c"
    using migrated_steps [OF ab(2) _ assms(2-4)] by blast
  have "mp_mutations (collect_entries (a' @ b')) = []"
    using a(2) b(2) by (auto simp: collect_entries_def split: migration_entry.splits)
  then show ?thesis using a(1) b(1) by (simp add: plan_runtime_migration_def)
qed

lemma planned_beside:
  assumes "plan_runtime_migration d = Inr plan" and "legacy_rooted d" and "settled (migration_tx v (mp_mutations plan)) d d'"
  shows "same_legacy d d'"
proof -
  let ?t = "migration_tx v (mp_mutations plan)"
  have dest: "hd p = ''.aegis'' \<and> p \<noteq> []" if x: "p \<in> set (tx_paths ?t)" for p
  proof -
    obtain m where "m \<in> set (mp_mutations plan)" "p = mu_path m" using x by (auto simp: migration_tx_def)
    then obtain s c where "legacy s" "migration_step d s = Inr (Copy m c)" using plan_Inr(2) [OF assms(1,2)] by blast
    then show ?thesis using legacy_destination migration_step_Copy(1) \<open>p = mu_path m\<close> by fastforce
  qed
  have "\<not> touched ?t p" if y: "p = legacy_runtime \<or> p = legacy_persistent \<or> legacy p" for p
  proof -
    obtain x xs where p: "p = ''.agents'' # x # xs"
      using y legacy_split [of p] by (auto simp: legacy_runtime_def legacy_persistent_def agents_dir_def)
    have "\<not> prefix p q" if "q \<in> set (tx_paths ?t)" for q using dest [OF that] p by (auto simp: prefix_def)
    then show ?thesis using p by (auto simp: touched_def journal_path_def tx_dir_def migration_tx_def persistent_dir_def aegis_dir_def)
  qed
  then show ?thesis using assms(3) unfolding same_legacy_def settled_def beside_def by blast
qed


text \<open>A project of the older layout: one task, one lock and a state file that was copied before.\<close>

definition old_layout :: disk where
  "old_layout = [([''.agents''], Directory), ([''.agents'', ''runtime''], Directory), ([''.agents'', ''runtime'', ''tasks''], Directory),
     ([''.agents'', ''runtime'', ''tasks'', ''t1.json''], File 1 384 ''{}''), ([''.agents'', ''runtime'', ''lock''], File 2 420 ''7''),
     ([''.agents'', ''persistent''], Directory), ([''.agents'', ''persistent'', ''s''], File 3 420 ''x''),
     ([''.aegis''], Directory), ([''.aegis'', ''state''], Directory), ([''.aegis'', ''state'', ''s''], File 4 420 ''x''),
     ([''.aegis'', ''state'', ''transactions''], Directory)]"

definition old_env :: migration_env where
  "old_env = \<lparr>me_root = [''srv''], me_uuid = ''0'', me_now = ''n''\<rparr>"

definition old_mutations :: "mutation list" where
  "old_mutations = [
     \<lparr>mu_path = [''.aegis'', ''runtime'', ''legacy'', ''lock''], mu_data = Some ''7'', mu_expected_sha256 = None, mu_expected_exists = Some False, mu_mode = Some 420\<rparr>,
     \<lparr>mu_path = [''.aegis'', ''tasks'', ''t1.json''], mu_data = Some ''{}'', mu_expected_sha256 = None, mu_expected_exists = Some False, mu_mode = Some 384\<rparr>]"

lemma old_legacy_paths:
  "legacy_paths old_layout legacy_runtime = [[''.agents'', ''runtime'', ''lock''], [''.agents'', ''runtime'', ''tasks''], [''.agents'', ''runtime'', ''tasks'', ''t1.json'']]"
  "legacy_paths old_layout legacy_persistent = [[''.agents'', ''persistent'', ''s'']]"
  by code_simp+

lemma old_plan: "\<exists>plan. plan_runtime_migration old_layout = Inr plan \<and> mp_mutations plan = old_mutations"
proof -
  have n: "node_at old_layout [''.agents'', ''runtime'', ''lock''] = Some (File 2 420 ''7'')"
    "node_at old_layout [''.agents'', ''runtime'', ''tasks''] = Some Directory"
    "node_at old_layout [''.agents'', ''runtime'', ''tasks'', ''t1.json''] = Some (File 1 384 ''{}'')"
    "node_at old_layout [''.agents'', ''persistent'', ''s''] = Some (File 3 420 ''x'')"
    "node_at old_layout [''.aegis'', ''state'', ''s''] = Some (File 4 420 ''x'')"
    "node_at old_layout [''.aegis'', ''tasks'', ''t1.json''] = None" "node_at old_layout [''.aegis'', ''runtime'', ''legacy'', ''lock''] = None"
    by (simp_all add: node_at_def old_layout_def)
  have r: "node_at old_layout legacy_runtime = Some Directory" "node_at old_layout legacy_persistent = Some Directory"
    by (simp_all add: node_at_def old_layout_def legacy_runtime_def legacy_persistent_def agents_dir_def)
  show ?thesis
    by (simp add: plan_runtime_migration_def legacy_steps_def old_legacy_paths r exists_def is_dir_def migration_step_def is_path_redirect_def n
        migration_destination_def tasks_dir_def runtime_dir_def persistent_dir_def aegis_dir_def is_file_def read_def collect_entries_def old_mutations_def)
qed

lemma old_rooted: "legacy_rooted old_layout"
proof -
  have "\<forall>p \<in> fst ` set old_layout. list_all (\<lambda>q. map_of old_layout q = Some Directory) (steps (butlast p))" by code_simp
  then have "is_dir old_layout q" if "legacy p" "exists old_layout p" "q \<in> set (steps (butlast p))" for p q
    using that exists_key [OF legacy_ne [OF that(1)]] by (auto simp: list_all_iff is_dir_def node_at_def)
  then show ?thesis by (simp add: legacy_rooted_def rooted_def)
qed

lemma old_ready: "tx_ready (migration_tx old_env old_mutations) old_layout"
proof -
  let ?t = "migration_tx old_env old_mutations"
  have sd: "tx_state_dir ?t = [''.aegis'', ''state'', ''transactions'']" "tx_dir ?t = [''.aegis'', ''state'', ''transactions'', ''runtime-layout-migration-0'']"
    "tx_id ?t = ''runtime-layout-migration-0''" "tx_paths ?t = [[''.aegis'', ''runtime'', ''legacy'', ''lock''], [''.aegis'', ''tasks'', ''t1.json'']]" "tx_root ?t = [''srv'']"
    by (simp_all add: migration_tx_def tx_dir_def tx_id_def old_env_def persistent_dir_def aegis_dir_def old_mutations_def)
  have "writable old_layout [''.aegis'', ''runtime'', ''legacy'', ''lock'']" "writable old_layout [''.aegis'', ''tasks'', ''t1.json'']"
    by (simp_all add: writable_def node_at_def old_layout_def plain_def under_agents_def steps_def)
  moreover have "tx_wf ?t" unfolding tx_wf_def sd by (simp add: plain_def normal_def slash_def under_agents_def)
  ultimately show ?thesis unfolding tx_ready_def sd no_pending_def by (simp add: is_dir_def exists_def node_at_def old_layout_def steps_def)
qed


end
