(* ===== verification/Discovery.thy ===== *)
theory Discovery
  imports Workspace Policy Text_Lines
begin

text \<open>
  Discovery of the repository, \<open>agentinfra/discovery.py\<close>: the walk over the tree, the facts asked of git, and
  the sealed artifact. The theory shows what the walk reaches and that it reports every boundary it reaches.

  The answers of git and the resolution of a directory name are those of \<open>ws_env\<close>; git's output is taken byte
  for byte. The lists the walk fills are one list of findings tagged with the list they belong to.
\<close>

section \<open>Tables\<close>

definition PACKAGE_MARKERS :: "string list" where
  "PACKAGE_MARKERS = [''pyproject.toml'', ''setup.py'', ''setup.cfg'', ''package.json'', ''Cargo.toml'', ''go.mod'', ''pom.xml'', ''build.gradle'', ''build.gradle.kts'', ''Makefile'']"

definition LOCKFILE_NAMES :: "string list" where
  "LOCKFILE_NAMES = [''Cargo.lock'', ''poetry.lock'', ''Pipfile.lock'', ''uv.lock'', ''package-lock.json'', ''pnpm-lock.yaml'', ''yarn.lock'', ''go.sum'', ''Gemfile.lock'', ''composer.lock'']"

definition GENERATED_NAMES :: "string list" where
  "GENERATED_NAMES = [''generated'', ''build'', ''dist'', ''target'', ''out'', ''htmlcov'', ''.pytest_cache'', ''__pycache__'']"

definition VENDOR_NAMES :: "string list" where
  "VENDOR_NAMES = [''vendor'', ''node_modules'', ''third_party'', ''third-party'']"

definition REFERENCE_NAMES :: "string list" where
  "REFERENCE_NAMES = [''reference'', ''references'', ''oracle'', ''oracles'']"

definition SCAN_EXCLUDED :: "string list" where
  "SCAN_EXCLUDED = [''.git'', ''.aegis'', ''node_modules'', ''__pycache__'']"

section \<open>The walk\<close>

datatype finding_kind = Package_root | Nested_repository | Governance_root | Runtime_root | Instruction | Generated_directory
  | Vendor_directory | Reference_repository | Redirect_boundary | Lockfile

type_synonym finding = "finding_kind \<times> string"

text \<open>\<open>os.walk\<close>: links to directories are among the directories of a directory, other links among its files.\<close>

definition subdirectory :: "disk \<Rightarrow> path \<Rightarrow> bool" where
  "subdirectory d p = (case node_at d p of Some Directory \<Rightarrow> True | Some (Symlink t to_directory) \<Rightarrow> to_directory | _ \<Rightarrow> False)"

definition dir_names :: "disk \<Rightarrow> path \<Rightarrow> string list" where
  "dir_names d base = filter (\<lambda>n. subdirectory d (base @ [n])) (names d base)"

definition file_names :: "disk \<Rightarrow> path \<Rightarrow> string list" where
  "file_names d base = filter (\<lambda>n. \<not> subdirectory d (base @ [n])) (names d base)"

definition directory_findings :: "disk \<Rightarrow> path \<Rightarrow> string \<Rightarrow> finding list" where
  "directory_findings d base name = (let relative = posix (base @ [name]) in
     if is_path_redirect d (base @ [name]) then [(Redirect_boundary, relative)]
     else if name = ''.aegis'' then [(Runtime_root, relative)]
     else (if name = ''.agents'' then [(Governance_root, relative)] else [])
       @ (if name \<in> set GENERATED_NAMES then [(Generated_directory, relative)] else [])
       @ (if name \<in> set VENDOR_NAMES then [(Vendor_directory, relative)] else [])
       @ (if name \<in> set REFERENCE_NAMES then [(Reference_repository, relative)] else []))"

definition entered :: "disk \<Rightarrow> path \<Rightarrow> string \<Rightarrow> bool" where
  "entered d base name \<longleftrightarrow> \<not> is_path_redirect d (base @ [name]) \<and> name \<notin> set SCAN_EXCLUDED"

definition file_findings :: "disk \<Rightarrow> path \<Rightarrow> string \<Rightarrow> finding list" where
  "file_findings d base name = (let relative = posix (base @ [name]) in
     (if is_path_redirect d (base @ [name]) then [(Redirect_boundary, relative)] else [])
     @ (if name = ''AGENTS.md'' then [(Instruction, relative)] else [])
     @ (if name \<in> set PACKAGE_MARKERS then [(Package_root, relative)] else [])
     @ (if name \<in> set LOCKFILE_NAMES then [(Lockfile, relative)] else []))"

definition nested_findings :: "disk \<Rightarrow> path \<Rightarrow> finding list" where
  "nested_findings d base = (if base \<noteq> [] \<and> (''.git'' \<in> set (file_names d base) \<or> ''.git'' \<in> set (dir_names d base))
     then [(Nested_repository, posix base)] else [])"

text \<open>The body of the loop for one directory, and the directories it goes on to.\<close>

definition visit_directory :: "disk \<Rightarrow> path \<Rightarrow> finding list" where
  "visit_directory d base = concat (map (directory_findings d base) (dir_names d base)) @ nested_findings d base
     @ concat (map (file_findings d base) (file_names d base))"

definition entered_names :: "disk \<Rightarrow> path \<Rightarrow> string list" where
  "entered_names d base = filter (entered d base) (dir_names d base)"

lemma names_key: "n \<in> set (names d p) \<Longrightarrow> p @ [n] \<in> fst ` set d"
  by (force simp: names_def dest: append_butlast_last_id)

function walk_repository :: "disk \<Rightarrow> path \<Rightarrow> finding list" where
  "walk_repository d base = visit_directory d base @ concat (map (\<lambda>n. walk_repository d (base @ [n])) (entered_names d base))"
  by pat_completeness auto
termination
proof (relation "measure (\<lambda>(d, base). card {p \<in> fst ` set d. strict_prefix base p})")
  show "wf (measure (\<lambda>(d :: disk, base). card {p \<in> fst ` set d. strict_prefix base p}))" by simp
next
  fix d :: disk and base n assume "n \<in> set (entered_names d base)"
  then have k: "base @ [n] \<in> fst ` set d" by (auto simp: entered_names_def dir_names_def names_key)
  have "{p \<in> fst ` set d. strict_prefix (base @ [n]) p} \<subset> {p \<in> fst ` set d. strict_prefix base p}"
  proof
    show "{p \<in> fst ` set d. strict_prefix (base @ [n]) p} \<subseteq> {p \<in> fst ` set d. strict_prefix base p}"
      by (auto simp: strict_prefix_def prefix_def)
    show "{p \<in> fst ` set d. strict_prefix (base @ [n]) p} \<noteq> {p \<in> fst ` set d. strict_prefix base p}"
      using k by (force simp: strict_prefix_def)
  qed
  then have "card {p \<in> fst ` set d. strict_prefix (base @ [n]) p} < card {p \<in> fst ` set d. strict_prefix base p}"
    by (intro psubset_card_mono) auto
  then show "((d, base @ [n]), d, base) \<in> measure (\<lambda>(d, base). card {p \<in> fst ` set d. strict_prefix base p})" by simp
qed

declare walk_repository.simps [simp del]

section \<open>Git\<close>

record git_facts =
  gf_available :: bool
  gf_head :: "string option"
  gf_top_level :: "string option"
  gf_worktrees :: "string list"
  gf_submodules :: "string list"
  gf_dirty :: "string list"
  gf_untracked :: "string list"

text \<open>The loop over the records of \<open>git status\<close>: the tracked and the untracked paths.\<close>

fun status_paths :: "string list \<Rightarrow> string list \<times> string list" where
  "status_paths [] = ([], [])"
| "status_paths (raw # records) =
    (if length raw < 4 then status_paths records
     else let marker = take 2 raw; p = replace_char (CHR 0x5C) slash (drop 3 raw);
              rest = status_paths (if CHR ''R'' \<in> set marker \<or> CHR ''C'' \<in> set marker then tl records else records) in
       if marker = ''??'' then (fst rest, p # snd rest) else (p # fst rest, snd rest))"

definition answer :: "ws_env \<Rightarrow> string list \<Rightarrow> string option" where
  "answer v args = (case we_git v args of Ran c ou er \<Rightarrow> if c = 0 then Some ou else None | _ \<Rightarrow> None)"

text \<open>\<open>str.split()\<close>.\<close>

function split_words :: "string \<Rightarrow> string list" where
  "split_words [] = []"
| "split_words (c # s) = (if is_space c then split_words s
     else (c # takeWhile (\<lambda>x. \<not> is_space x) s) # split_words (dropWhile (\<lambda>x. \<not> is_space x) s))"
  by pat_completeness auto
termination by (relation "measure length") (auto simp: le_imp_less_Suc length_dropWhile_le)

definition worktree_of :: "ws_env \<Rightarrow> string \<Rightarrow> string list" where
  "worktree_of v line = (if startswith line ''worktree '' then [root_name (we_resolve_top v (drop 9 line))] else [])"

definition submodule_of :: "string \<Rightarrow> string list" where
  "submodule_of line = (let ps = split_words (dropWhile (\<lambda>c. c \<in> set ''-+U '') line) in
     if 2 \<le> length ps then [replace_char (CHR 0x5C) slash (ps ! 1)] else [])"

definition git_facts_of :: "ws_env \<Rightarrow> git_facts" where
  "git_facts_of v = (case answer v [''rev-parse'', ''--show-toplevel''] of
      None \<Rightarrow> \<lparr>gf_available = False, gf_head = None, gf_top_level = None, gf_worktrees = [], gf_submodules = [], gf_dirty = [], gf_untracked = []\<rparr>
    | Some t \<Rightarrow>
       let status = (case answer v [''status'', ''--porcelain=v1'', ''-z'', ''--untracked-files=all''] of
             None \<Rightarrow> ([], []) | Some raw \<Rightarrow> status_paths (filter (\<lambda>r. r \<noteq> []) (split_on (CHR 0x00) raw)));
           worktrees = (case answer v [''worktree'', ''list'', ''--porcelain''] of None \<Rightarrow> [] | Some ou \<Rightarrow> concat (map (worktree_of v) (split_lines ou)));
           submodules = (case answer v [''submodule'', ''status'', ''--recursive''] of None \<Rightarrow> [] | Some ou \<Rightarrow> concat (map submodule_of (split_lines ou))) in
       \<lparr>gf_available = True, gf_head = map_option strip (answer v [''rev-parse'', ''--verify'', ''HEAD'']),
         gf_top_level = Some (root_name (we_resolve_top v (strip t))), gf_worktrees = sorted_set worktrees, gf_submodules = sorted_set submodules,
         gf_dirty = sorted_set (fst status), gf_untracked = sorted_set (snd status)\<rparr>)"

section \<open>The artifact\<close>

definition found :: "finding list \<Rightarrow> finding_kind \<Rightarrow> pyval" where
  "found fs k = py_strings (sorted_set (map snd (filter (\<lambda>f. fst f = k) fs)))"

definition opt_str :: "string option \<Rightarrow> pyval" where
  "opt_str s = (case s of None \<Rightarrow> PyNone | Some x \<Rightarrow> PyStr x)"

definition discovery_body :: "ws_env \<Rightarrow> finding list \<Rightarrow> git_facts \<Rightarrow> pyval" where
  "discovery_body v fs g = PyDict [(''schema'', PyInt 1), (''repository_root'', PyStr (root_name (we_root v))),
     (''git'', PyDict [(''available'', PyBool (gf_available g)), (''head'', opt_str (gf_head g)), (''top_level'', opt_str (gf_top_level g))]),
     (''worktrees'', py_strings (gf_worktrees g)), (''submodules'', py_strings (gf_submodules g)),
     (''nested_repositories'', found fs Nested_repository), (''package_roots'', found fs Package_root), (''governance_roots'', found fs Governance_root),
     (''runtime_roots'', found fs Runtime_root), (''instruction_hierarchy'', found fs Instruction), (''generated_directories'', found fs Generated_directory),
     (''vendor_directories'', found fs Vendor_directory), (''reference_repositories'', found fs Reference_repository),
     (''redirect_boundaries'', found fs Redirect_boundary), (''dirty_tracked'', py_strings (gf_dirty g)), (''untracked'', py_strings (gf_untracked g)),
     (''lockfiles'', found fs Lockfile)]"

definition discover_repository :: "ws_env \<Rightarrow> disk \<Rightarrow> pyval" where
  "discover_repository v d = (let body = discovery_body v (walk_repository d []) (git_facts_of v) in
     dset body ''digest'' (PyStr (sha256 (canonical body))))"

definition audit_dir :: path where "audit_dir = aegis_dir @ [''audit'']"

definition write_discovery_artifact :: "path \<Rightarrow> pyval \<Rightarrow> path io" where
  "write_discovery_artifact root artifact d =
    (let actual = policy_digest artifact; p = audit_dir @ [''repository-discovery-'' @ actual @ ''.json''] in
     if dget artifact ''digest'' \<noteq> PyStr actual then (d, Inl (DiscoveryError ''repository discovery artifact digest mismatch''))
     else (case atomic_write_json root d (Rel p) artifact (Some 384) of (d', Inl e) \<Rightarrow> (d', Inl e) | (d', Inr _) \<Rightarrow> (d', Inr p)))"

section \<open>What the walk reaches\<close>

text \<open>A directory is scanned when all directories down to it are real and none of them has an excluded name.\<close>

definition scanned :: "disk \<Rightarrow> path \<Rightarrow> bool" where
  "scanned d p \<longleftrightarrow> (\<forall>q \<in> set (steps p). is_dir d q) \<and> (\<forall>c \<in> set p. c \<notin> set SCAN_EXCLUDED)"

inductive reached :: "disk \<Rightarrow> path \<Rightarrow> path \<Rightarrow> bool" for d base where
  here: "reached d base base"
| down: "reached d base p \<Longrightarrow> n \<in> set (entered_names d p) \<Longrightarrow> reached d base (p @ [n])"

lemma reached_step: "n \<in> set (entered_names d base) \<Longrightarrow> reached d (base @ [n]) p \<Longrightarrow> reached d base p"
  by (rotate_tac, induction rule: reached.induct) (auto intro: reached.intros)

lemma reached_cases: "reached d base p \<Longrightarrow> p = base \<or> (\<exists>n \<in> set (entered_names d base). reached d (base @ [n]) p)"
proof (induction rule: reached.induct)
  case (down p n)
  then show ?case by (auto intro: reached.intros)
qed simp

lemma walk_reached: "f \<in> set (walk_repository d base) \<longleftrightarrow> (\<exists>p. reached d base p \<and> f \<in> set (visit_directory d p))"
proof (induction d base rule: walk_repository.induct)
  case (1 d base)
  show ?case
  proof
    assume "f \<in> set (walk_repository d base)"
    then consider "f \<in> set (visit_directory d base)" | n where "n \<in> set (entered_names d base)" "f \<in> set (walk_repository d (base @ [n]))"
      by (auto simp: walk_repository.simps [of d base])
    then show "\<exists>p. reached d base p \<and> f \<in> set (visit_directory d p)"
      using 1 by cases (auto intro: reached.here reached_step)
  next
    assume "\<exists>p. reached d base p \<and> f \<in> set (visit_directory d p)"
    then obtain p where p: "reached d base p" "f \<in> set (visit_directory d p)" by blast
    from reached_cases [OF p(1)] show "f \<in> set (walk_repository d base)"
    proof
      assume "p = base" then show ?thesis using p(2) by (simp add: walk_repository.simps [of d base])
    next
      assume "\<exists>n \<in> set (entered_names d base). reached d (base @ [n]) p"
      then obtain n where "n \<in> set (entered_names d base)" "reached d (base @ [n]) p" by blast
      then show ?thesis using 1 p(2) by (auto simp: walk_repository.simps [of d base])
    qed
  qed
qed

lemma names_iff: "n \<in> set (names d p) \<longleftrightarrow> exists d (p @ [n])"
  by (force simp: names_def exists_def node_at_def map_of_eq_None_iff dest: append_butlast_last_id)

lemma entered_names_iff: "n \<in> set (entered_names d p) \<longleftrightarrow> is_dir d (p @ [n]) \<and> n \<notin> set SCAN_EXCLUDED"
  by (auto simp: entered_names_def dir_names_def names_iff entered_def subdirectory_def is_path_redirect_def is_dir_def exists_def split: option.splits node.splits)

lemma reached_scanned: "reached d [] p \<longleftrightarrow> scanned d p"
proof
  show "reached d [] p \<Longrightarrow> scanned d p"
    by (induction rule: reached.induct) (auto simp: scanned_def steps_append entered_names_iff steps_def)
  show "scanned d p \<Longrightarrow> reached d [] p"
  proof (induction p rule: rev_induct)
    case (snoc n p)
    then show ?case by (auto simp: scanned_def steps_append entered_names_iff intro: reached.down)
  qed (rule reached.here)
qed

lemma found_iff: "PyStr s \<in> set (items (found fs k)) \<longleftrightarrow> (k, s) \<in> set fs"
  by (force simp: found_def py_strings_def sorted_set_def)

lemma directory_kinds:
  "(Instruction, s) \<notin> set (directory_findings d p n)" "(Nested_repository, s) \<notin> set (directory_findings d p n)"
  "(Redirect_boundary, s) \<in> set (directory_findings d p n) \<longleftrightarrow> s = posix (p @ [n]) \<and> is_path_redirect d (p @ [n])"
  by (auto simp: directory_findings_def Let_def)

lemma file_kinds:
  "(Instruction, s) \<in> set (file_findings d p n) \<longleftrightarrow> s = posix (p @ [n]) \<and> n = ''AGENTS.md''" "(Nested_repository, s) \<notin> set (file_findings d p n)"
  "(Redirect_boundary, s) \<in> set (file_findings d p n) \<longleftrightarrow> s = posix (p @ [n]) \<and> is_path_redirect d (p @ [n])"
  by (auto simp: file_findings_def Let_def)

lemma nested_kinds:
  "(Instruction, s) \<notin> set (nested_findings d p)" "(Redirect_boundary, s) \<notin> set (nested_findings d p)"
  "(Nested_repository, s) \<in> set (nested_findings d p) \<longleftrightarrow> s = posix p \<and> p \<noteq> [] \<and> exists d (p @ [''.git''])"
  by (auto simp: nested_findings_def file_names_def dir_names_def names_iff)

lemma redirect_exists: "is_path_redirect d p \<Longrightarrow> exists d p"
  by (auto simp: is_path_redirect_def exists_def split: option.splits)

lemma visit_kinds:
  "(Instruction, s) \<in> set (visit_directory d p) \<longleftrightarrow> s = posix (p @ [''AGENTS.md'']) \<and> exists d (p @ [''AGENTS.md'']) \<and> \<not> subdirectory d (p @ [''AGENTS.md''])"
  "(Nested_repository, s) \<in> set (visit_directory d p) \<longleftrightarrow> s = posix p \<and> p \<noteq> [] \<and> exists d (p @ [''.git''])"
  by (auto simp: visit_directory_def directory_kinds file_kinds nested_kinds file_names_def dir_names_def names_iff)

lemma visit_redirect: "(Redirect_boundary, s) \<in> set (visit_directory d p) \<longleftrightarrow> (\<exists>n. s = posix (p @ [n]) \<and> is_path_redirect d (p @ [n]))"
  by (simp add: visit_directory_def directory_kinds file_kinds nested_kinds file_names_def dir_names_def names_iff) (metis redirect_exists)

lemma discovered_lists:
  "dget (discover_repository v d) ''instruction_hierarchy'' = found (walk_repository d []) Instruction"
  "dget (discover_repository v d) ''nested_repositories'' = found (walk_repository d []) Nested_repository"
  "dget (discover_repository v d) ''redirect_boundaries'' = found (walk_repository d []) Redirect_boundary"
  "dget (discover_repository v d) ''dirty_tracked'' = py_strings (gf_dirty (git_facts_of v))"
  "dget (discover_repository v d) ''governance_roots'' = found (walk_repository d []) Governance_root"
  by (simp_all add: discover_repository_def discovery_body_def Let_def)

lemma discovery_sealed: "dget (discover_repository v d) ''digest'' = PyStr (policy_digest (discover_repository v d))"
  by (simp add: discover_repository_def Let_def policy_digest_def discovery_body_def dpop_def dset_def)

text \<open>
  C38: discovery reports exactly the boundaries of the part of the tree it scans, which is every directory that is
  reached by real directories none of which is called .git, .aegis, node_modules or __pycache__: each AGENTS.md
  file, each directory below the root that holds a .git entry, and each symbolic link. The artifact is sealed.
\<close>
theorem discovery_exact:
  "(\<forall>s. PyStr s \<in> set (items (dget (discover_repository v d) ''instruction_hierarchy'')) \<longleftrightarrow>
      (\<exists>p. scanned d p \<and> s = posix (p @ [''AGENTS.md'']) \<and> exists d (p @ [''AGENTS.md'']) \<and> \<not> subdirectory d (p @ [''AGENTS.md''])))
   \<and> (\<forall>s. PyStr s \<in> set (items (dget (discover_repository v d) ''nested_repositories'')) \<longleftrightarrow>
      (\<exists>p. scanned d p \<and> p \<noteq> [] \<and> s = posix p \<and> exists d (p @ [''.git''])))
   \<and> (\<forall>s. PyStr s \<in> set (items (dget (discover_repository v d) ''redirect_boundaries'')) \<longleftrightarrow>
      (\<exists>p n. scanned d p \<and> s = posix (p @ [n]) \<and> is_path_redirect d (p @ [n])))
   \<and> dget (discover_repository v d) ''digest'' = PyStr (policy_digest (discover_repository v d))"
  unfolding discovered_lists found_iff walk_reached reached_scanned visit_kinds visit_redirect using discovery_sealed by blast

text \<open>
  The scan enters directories called vendor, dist and build; the capture of governance does not. An AGENTS.md file
  there is listed as an instruction, and its contents are not part of the governance digest.
\<close>
lemma vendored_instruction_uncaptured:
  assumes "scanned d p" and "''vendor'' \<in> set p" and "hd p \<noteq> ''.agents''" and "is_file d (p @ [''AGENTS.md''])"
  shows "PyStr (posix (p @ [''AGENTS.md''])) \<in> set (items (dget (discover_repository v d) ''instruction_hierarchy''))"
    and "p @ [''AGENTS.md''] \<notin> set (governed d)"
proof -
  have "exists d (p @ [''AGENTS.md''])" "\<not> subdirectory d (p @ [''AGENTS.md''])"
    using assms(4) by (auto simp: exists_def is_file_def subdirectory_def split: option.splits node.splits)
  then show "PyStr (posix (p @ [''AGENTS.md''])) \<in> set (items (dget (discover_repository v d) ''instruction_hierarchy''))"
    unfolding discovered_lists found_iff walk_reached reached_scanned visit_kinds using assms(1) by blast
  have "p \<noteq> []" using assms(2) by auto
  then have "\<not> under_agents (p @ [''AGENTS.md''])" using assms(3) by (simp add: under_agents_def)
  moreover have "\<not> is_instruction d (p @ [''AGENTS.md''])" using assms(2) by (auto simp: is_instruction_def list_all_iff walk_excluded_def)
  ultimately show "p @ [''AGENTS.md''] \<notin> set (governed d)" by (simp add: governed_def)
qed

end
