(* ===== verification/Precheck.thy ===== *)
theory Precheck
  imports Discovery Bootstrap State_Machine
begin

text \<open>
  The precheck of a task, \<open>agentinfra/precheck.py\<close>: thirteen artifacts from governance, constitution, discovery,
  workspace, policy and scope, each with its digest, sealed and written below \<open>.aegis/audit\<close>. The theory shows that
  what is built passes the state machine, is bound to unchanged governance and protects the boundaries discovered.

  \<open>pc_linked\<close> is what reading through a symbolic link gives. Texts of instructions are Latin-1 in UTF-8.
\<close>

section \<open>Artifacts\<close>

definition artifact :: "string \<Rightarrow> pyval \<Rightarrow> pyval" where
  "artifact kind payload = (let body = PyDict [(''schema'', PyInt 1), (''kind'', PyStr kind), (''payload'', payload)] in
     dset body ''digest'' (PyStr (sha256 (canonical body))))"

record precheck_env =
  pc_ws :: ws_env
  pc_linked :: "path \<Rightarrow> string option"

definition content_at :: "precheck_env \<Rightarrow> disk \<Rightarrow> path \<Rightarrow> string option" where
  "content_at v d p = (case node_at d p of Some (File i m b) \<Rightarrow> Some b | Some (Symlink t x) \<Rightarrow> pc_linked v p | _ \<Rightarrow> None)"

definition LAW_DIRECTORIES :: "string list" where
  "LAW_DIRECTORIES = [''tests'', ''law_tests'', ''tests-to-impl'', ''laws'']"

definition baseline_selected :: "path \<Rightarrow> bool" where
  "baseline_selected p \<longleftrightarrow> startswith (last p) ''test_'' \<and> suffix_of (last p) = ''.py'' \<or> list_ex (\<lambda>c. casefold c \<in> set LAW_DIRECTORIES) p"

definition baseline_entry :: "precheck_env \<Rightarrow> disk \<Rightarrow> path \<Rightarrow> pyval list" where
  "baseline_entry v d p = (case content_at v d p of
      None \<Rightarrow> []
    | Some b \<Rightarrow> if ''.aegis'' \<in> set p \<or> \<not> baseline_selected p then []
        else [PyDict [(''path'', PyStr (posix p)), (''size'', PyInt (int (length b))), (''sha256'', PyStr (sha256 b))]])"

definition test_law_baseline :: "precheck_env \<Rightarrow> disk \<Rightarrow> pyval" where
  "test_law_baseline v d = (let es = concat (map (baseline_entry v d) (tree_paths d)) in
     artifact ''test-law-baseline'' (PyDict [(''entries'', PyList es), (''count'', PyInt (int (length es)))]))"

text \<open>\<open>read_text\<close> turns each line boundary of the two system kinds into a line feed.\<close>

fun universal_newlines :: "string \<Rightarrow> string" where
  "universal_newlines [] = []"
| "universal_newlines (c # s) = (if c = cr then lf # universal_newlines (if s \<noteq> [] \<and> hd s = lf then tl s else s) else c # universal_newlines s)"

definition instruction_record :: "precheck_env \<Rightarrow> disk \<Rightarrow> string \<Rightarrow> pyval res" where
  "instruction_record v d relative = (case content_at v d (path_parts relative) of
      None \<Rightarrow> Inl FileNotFoundErr
    | Some b \<Rightarrow> (case utf8_decode b of None \<Rightarrow> Inl (ValueErr ''not UTF-8'')
        | Some t \<Rightarrow> Inr (classify_instruction_source ''project-governance'' relative (utf8_encode (universal_newlines t)))))"

definition instruction_provenance :: "precheck_env \<Rightarrow> disk \<Rightarrow> pyval \<Rightarrow> pyval res" where
  "instruction_provenance v d discovery =
    res_bind (map_res (instruction_record v d) (map text_of (items (dget_or discovery ''instruction_hierarchy'' (PyList []))))) (\<lambda>rs.
    Inr (artifact ''instruction-provenance'' (PyDict [(''records'', PyList (rs @
      map (\<lambda>r. classify_instruction_source ''constitution'' (text_of r) ''deployed immutable Aegis governance root'')
        (items (dget_or discovery ''governance_roots'' (PyList [])))))])))"

definition PROPERTY_PACKS :: "string list" where
  "PROPERTY_PACKS = [''python-control-plane'', ''agent-framework'', ''distributed-system'', ''rust-concurrency'']"

definition tdd_plan :: "pyval \<Rightarrow> pyval \<Rightarrow> pyval \<Rightarrow> pyval" where
  "tdd_plan compiled test_contract_digest oracle_digest = artifact ''tdd-plan'' (PyDict
     [(''mode'', dget (dget compiled ''task'') ''tdd_mode''), (''test_contract_digest'', test_contract_digest), (''oracle_digest'', oracle_digest),
      (''property_first'', PyBool (list_ex (\<lambda>p. p \<in> set (map PyStr PROPERTY_PACKS)) (items (dget compiled ''policy_packs'')))),
      (''implementation_authorized'', PyBool False)])"

text \<open>\<open>len(value) == 64 and value == value.casefold()\<close>.\<close>

definition canonical_digest :: "pyval \<Rightarrow> bool" where
  "canonical_digest v = (case v of PyStr s \<Rightarrow> length s = 64 \<and> s = casefold s | _ \<Rightarrow> False)"

definition bound :: "pyval \<Rightarrow> bool" where
  "bound a = (case dget a ''digest'' of PyStr s \<Rightarrow> length s = 64 | _ \<Rightarrow> False)"

section \<open>The precheck\<close>

record precheck_request =
  pr_contract :: pyval
  pr_declared :: "string list"
  pr_changed :: "string list"
  pr_risk :: pyval
  pr_test_contract :: pyval
  pr_oracle :: pyval
  pr_prior :: "string list"

definition TEST_PATHS :: "string list" where
  "TEST_PATHS = [''tests/**'', ''infra/tests/**'', ''infra/property_tests/**'', ''infra/law_tests/**'']"

definition precheck_scope :: "pyval \<Rightarrow> pyval \<Rightarrow> pyval \<Rightarrow> pyval \<Rightarrow> pyval res" where
  "precheck_scope contract compiled discovery governance = (let scope_data = dget compiled ''scope'' in
     compile_write_scope (items (dget scope_data ''allow'')) (items (dget scope_data ''deny'')) (map PyStr TEST_PATHS)
       (items (dget_or (dget_or contract ''boundaries'' (PyDict [])) ''source'' (PyList [])))
       (items (dget scope_data ''generated'')) (items (dget scope_data ''reference''))
       (items (dget_or discovery ''dirty_tracked'' (PyList []))) (items (dget_or discovery ''nested_repositories'' (PyList [])))
       (PyBool False) (dget governance ''digest''))"

definition precheck_artifacts :: "precheck_env \<Rightarrow> disk \<Rightarrow> precheck_request \<Rightarrow> pyval \<Rightarrow> pyval \<Rightarrow> pyval \<Rightarrow> pyval \<Rightarrow> pyval \<Rightarrow> (string \<times> pyval) list res" where
  "precheck_artifacts v d q governance discovery workspace compiled write_scope =
    res_bind (instruction_provenance v d discovery) (\<lambda>provenance.
    Inr [(''governance_snapshot'', governance), (''constitution'', constitutional_contract), (''instruction_provenance'', provenance),
      (''repository_discovery'', discovery), (''workspace_snapshot'', artifact ''workspace-snapshot'' workspace),
      (''test_law_baseline'', test_law_baseline v d), (''tdd_plan'', tdd_plan compiled (pr_test_contract q) (pr_oracle q)),
      (''compiled_policy'', compiled), (''mandatory_gates'', artifact ''mandatory-gates'' (dget compiled ''gates'')), (''write_scope'', write_scope),
      (''budgets'', artifact ''budgets'' (PyDict [(''change'', dget compiled ''change_budget''), (''semantic'', dget compiled ''semantic_budget'')])),
      (''command_matrix'', artifact ''command-matrix'' (dget compiled ''commands'')),
      (''review_requirements'', artifact ''review-requirements'' (dget compiled ''review''))])"

definition precheck_body :: "path \<Rightarrow> (string \<times> pyval) list \<Rightarrow> pyval \<Rightarrow> pyval" where
  "precheck_body root artifacts compiled = (let body = PyDict [(''schema'', PyInt 1), (''project_root'', PyStr (root_name root)),
       (''artifacts'', PyDict artifacts), (''compiled_policy_digest'', dget compiled ''digest'')] in
     dset body ''digest'' (PyStr (sha256 (canonical body))))"

definition precheck_path :: "pyval \<Rightarrow> path" where
  "precheck_path body = audit_dir @ [''precheck-'' @ text_of (dget body ''digest'') @ ''.json'']"

text \<open>From the scope on: the artifacts, their digests, the sealed body and its file.\<close>

definition finish_precheck :: "precheck_env \<Rightarrow> precheck_request \<Rightarrow> pyval \<Rightarrow> pyval \<Rightarrow> pyval \<Rightarrow> pyval \<Rightarrow> pyval io" where
  "finish_precheck v q governance discovery workspace compiled d = (let root = we_root (pc_ws v) in
     case res_bind (precheck_scope (pr_contract q) compiled discovery governance) (precheck_artifacts v d q governance discovery workspace compiled) of
       Inl e \<Rightarrow> (d, Inl e)
     | Inr artifacts \<Rightarrow>
        if list_ex (\<lambda>a. \<not> bound (snd a)) artifacts then (d, Inl (PrecheckError ''precheck produced an unbound artifact''))
        else let body = precheck_body root artifacts compiled in
          (case atomic_write_json root d (Rel (precheck_path body)) body (Some 384) of
             (d', Inl e) \<Rightarrow> (d', Inl e)
           | (d', Inr _) \<Rightarrow> (d', Inr (dset body ''path'' (PyStr (root_name (root @ precheck_path body)))))))"

definition build_precheck :: "precheck_env \<Rightarrow> precheck_request \<Rightarrow> pyval io" where
  "build_precheck v q d = (let root = we_root (pc_ws v) in
     if \<not> (canonical_digest (pr_test_contract q) \<and> canonical_digest (pr_oracle q))
     then (d, Inl (PrecheckError ''precheck requires canonical test and oracle digests''))
     else io_bind (io_get (capture_governance root)) (\<lambda>governance.
       io_bind (io_get (\<lambda>d. Inr (discover_repository (pc_ws v) d))) (\<lambda>discovery.
       io_bind (write_discovery_artifact root discovery) (\<lambda>_.
       io_bind (io_get (workspace_fingerprint (pc_ws v))) (\<lambda>workspace.
       if dget workspace ''available'' \<noteq> PyBool True then io_raise (PrecheckError ''workspace snapshot is unavailable'')
       else io_bind (io_get (\<lambda>_. compile_contract (pr_contract q) (pr_declared q) (pr_changed q) (pr_risk q) (pr_prior q))) (\<lambda>compiled.
       io_bind (write_compiled_policy root compiled) (\<lambda>_.
       finish_precheck v q governance discovery workspace compiled)))))) d)"

section \<open>What a precheck is worth\<close>

lemma atomic_write_read:
  assumes "atomic_write_json r d (Rel p) obj md = (d', Inr u)" and "plain r" and "p \<noteq> []"
  shows "read d' p = Some (json_text obj)" and "capture_governance r d' = capture_governance r d"
  using atomic_write_done(2) [of r d p "json_text obj" md d' u p] write_capture [OF assms(2), of "Rel p" d "json_text obj" md] assms
  by (simp_all add: atomic_write_json_def)

lemma policy_written:
  assumes "write_compiled_policy r compiled d = (d', Inr p)" and "plain r"
  shows "capture_governance r d' = capture_governance r d"
  using assms atomic_write_read(2) [where r = r and d = d and obj = compiled and d' = d']
  by (auto simp: write_compiled_policy_def Let_def aegis_dir_def split: if_splits prod.splits sum.splits)

lemma discovery_written:
  assumes "write_discovery_artifact r a d = (d', Inr p)" and "plain r"
  shows "capture_governance r d' = capture_governance r d"
  using assms atomic_write_read(2) [where r = r and d = d and obj = a and d' = d']
  by (auto simp: write_discovery_artifact_def Let_def audit_dir_def aegis_dir_def split: if_splits prod.splits sum.splits)

definition sealed :: "pyval \<Rightarrow> bool" where
  "sealed a \<longleftrightarrow> is_dict a \<and> (\<exists>s. dget a ''digest'' = PyStr (sha256 s))"

lemma sealed_passes: "sealed a \<Longrightarrow> bound a" "sealed a \<Longrightarrow> is_digest (artifact_digest a)"
proof -
  assume "sealed a"
  then obtain s where s: "is_dict a" "dget a ''digest'' = PyStr (sha256 s)" by (auto simp: sealed_def)
  then show "bound a" by (simp add: bound_def)
  have "has_key a ''digest''" using s(2) by (intro dget_not_None_key) simp
  then show "is_digest (artifact_digest a)" using s by (simp add: artifact_digest_def Let_def dget_or_key is_digest_def)
qed

lemma sealed_artifact: "sealed (artifact k x)"
  by (simp add: sealed_def artifact_def Let_def) blast

lemma build_precheckE:
  assumes "build_precheck v q d = (d', Inr body)"
  obtains governance compiled workspace d1 d2 p1 p2 where "capture_governance (we_root (pc_ws v)) d = Inr governance"
    and "write_discovery_artifact (we_root (pc_ws v)) (discover_repository (pc_ws v) d) d = (d1, Inr p1)"
    and "workspace_fingerprint (pc_ws v) d1 = Inr workspace" and "dget workspace ''available'' = PyBool True"
    and "compile_contract (pr_contract q) (pr_declared q) (pr_changed q) (pr_risk q) (pr_prior q) = Inr compiled"
    and "write_compiled_policy (we_root (pc_ws v)) compiled d1 = (d2, Inr p2)"
    and "finish_precheck v q governance (discover_repository (pc_ws v) d) workspace compiled d2 = (d', Inr body)"
  using assms by (auto simp: build_precheck_def Let_def io_bind_Inr io_get_def io_raise_def split: if_splits)

lemma finish_precheckE:
  assumes "finish_precheck v q governance discovery workspace compiled d = (d', Inr body)" and "plain (we_root (pc_ws v))"
  obtains write_scope artifacts where "precheck_scope (pr_contract q) compiled discovery governance = Inr write_scope"
    and "precheck_artifacts v d q governance discovery workspace compiled write_scope = Inr artifacts"
    and "dget body ''artifacts'' = PyDict artifacts" and "dget (dpop body ''path'') ''digest'' = PyStr (policy_digest (dpop body ''path''))"
    and "read d' (precheck_path body) = Some (json_text (dpop body ''path''))"
    and "capture_governance (we_root (pc_ws v)) d' = capture_governance (we_root (pc_ws v)) d"
proof -
  let ?r = "we_root (pc_ws v)"
  obtain write_scope artifacts where a: "precheck_scope (pr_contract q) compiled discovery governance = Inr write_scope"
      "precheck_artifacts v d q governance discovery workspace compiled write_scope = Inr artifacts"
    using assms(1) by (auto simp: finish_precheck_def Let_def res_bind_Inr split: sum.splits)
  let ?b = "precheck_body ?r artifacts compiled"
  obtain u where w: "atomic_write_json ?r d (Rel (precheck_path ?b)) ?b (Some 384) = (d', Inr u)"
      and body: "body = dset ?b ''path'' (PyStr (root_name (?r @ precheck_path ?b)))"
    using assms(1) a by (auto simp: finish_precheck_def Let_def split: if_splits prod.splits sum.splits)
  have p: "dpop body ''path'' = ?b" "precheck_path body = precheck_path ?b" "precheck_path ?b \<noteq> []"
    by (simp_all add: body precheck_path_def audit_dir_def) (simp add: precheck_body_def Let_def dpop_def dset_def)
  have s: "dget ?b ''digest'' = PyStr (policy_digest ?b)" by (simp add: precheck_body_def Let_def policy_digest_def dpop_def dset_def)
  have "dget body ''artifacts'' = PyDict artifacts" by (simp add: body precheck_body_def Let_def)
  then show thesis
    using that [OF a] s atomic_write_read [OF w assms(2) p(3)] unfolding p(1,2) by blast
qed

lemma captured_sealed: "capture_governance r d = Inr g \<Longrightarrow> sealed g"
  by (auto simp: sealed_def capture_governance_def Let_def split: if_splits)

lemma scope_sealed: "precheck_scope c compiled discovery g = Inr scope \<Longrightarrow> sealed scope"
  by (auto simp: sealed_def precheck_scope_def Let_def validate_write_scope_Inr scope_digest_def elim!: compile_write_scopeE)

lemma compiled_sealed: "compile_contract c declared changed risk prior = Inr compiled \<Longrightarrow> sealed compiled"
  using compile_contract_Inr unfolding sealed_def policy_digest_def by metis

lemma constitution_sealed: "sealed constitutional_contract"
  by (simp add: sealed_def constitutional_contract_def Let_def policy_digest_def) blast

lemma discovered_sealed: "sealed (discover_repository w e)"
  by (simp add: sealed_def discover_repository_def Let_def discovery_body_def) blast

lemma provenance_sealed: "instruction_provenance v d discovery = Inr p \<Longrightarrow> sealed p"
  by (auto simp: instruction_provenance_def res_bind_Inr sealed_artifact)

lemma artifacts_sealed:
  assumes "precheck_artifacts v d q governance discovery workspace compiled write_scope = Inr artifacts"
    and "sealed governance" and "sealed discovery" and "sealed compiled" and "sealed write_scope"
  shows "list_all (\<lambda>a. sealed (snd a)) artifacts" and "map fst artifacts = PRECHECK_KEYS"
  using assms by (auto simp: precheck_artifacts_def res_bind_Inr sealed_artifact constitution_sealed provenance_sealed
      test_law_baseline_def tdd_plan_def Let_def PRECHECK_KEYS_def)

lemma sealed_artifacts_pass:
  assumes "list_all (\<lambda>a. sealed (snd a)) artifacts" and "map fst artifacts = PRECHECK_KEYS" and "dget task ''precheck'' = PyDict artifacts"
  shows "validate_precheck task = Inr ()"
proof -
  have "sealed (dget (PyDict artifacts) k)" if "k \<in> set PRECHECK_KEYS" for k
  proof -
    have "k \<in> fst ` set artifacts" using that unfolding assms(2) [symmetric] by simp
    then obtain x where "map_of artifacts k = Some x" by (metis map_of_eq_None_iff not_None_eq)
    then show ?thesis using assms(1) map_of_SomeD [of artifacts k x] by (auto simp: dget_def dget_or_def list_all_iff)
  qed
  then show ?thesis unfolding validate_precheck_Inr assms(3) using sealed_passes(2) by simp
qed

text \<open>The scope of a precheck: test design below the test directories of the framework, and no implementation.\<close>

definition FRAMEWORK_TESTS :: "string list" where
  "FRAMEWORK_TESTS = [''infra/property_tests/**'', ''infra/tests/**'', ''infra/law_tests/**'']"

lemma text_items: "list_all is_text (items x) \<Longrightarrow> map PyStr (strings x) = items x"
  unfolding strings_def map_map by (rule map_idI) (auto simp: list_all_iff is_text_def split: pyval.splits)

lemma listed_sorted: "listed tgt (items (py_strings (sorted_set (xs @ ys)))) \<longleftrightarrow> listed tgt (map PyStr xs) \<or> listed tgt (map PyStr ys)"
  by (auto simp: listed_def py_strings_def)

lemma framework_tests_normal: "normalize (PyStr p) True = Inr p" if "p \<in> set FRAMEWORK_TESTS"
proof -
  have "list_all (\<lambda>p. normalize (PyStr p) True = Inr p) FRAMEWORK_TESTS" by code_simp
  then show ?thesis using that by (simp add: list_all_iff)
qed

lemma precheck_scope_decides:
  assumes "compile_contract c declared changed risk prior = Inr compiled" and "precheck_scope c compiled discovery governance = Inr scope"
    and "normalize p False = Inr tgt" and "write_authorized scope p phase g = Inr True"
  shows "phase = ''TEST_DESIGN''" and "g = dget governance ''digest''" and "\<exists>x \<in> set FRAMEWORK_TESTS. covered tgt x"
    and "\<not> bounded_by tgt (items (dget_or discovery ''dirty_tracked'' (PyList [])))"
    and "\<not> bounded_by tgt (items (dget_or discovery ''nested_repositories'' (PyList [])))"
proof -
  obtain classes where v: "validate_project_contract c = Inr ()" and s: "\<exists>reference. dget compiled ''scope'' = scope_of c reference"
    using compile_contract_Inr [OF assms(1)] by metis
  have src: "list_all is_text (items (boundary c ''source''))"
    using v by (auto simp: validate_project_contract_def guards split: sum.splits)
  have b: "dget_or (dget_or c ''boundaries'' (PyDict [])) ''source'' (PyList []) = boundary c ''source''" by (simp add: boundary_def boundaries_def)
  have d: "g = dget governance ''digest'' \<and> \<not> bounded_by tgt (items (dget_or discovery ''dirty_tracked'' (PyList [])))
     \<and> \<not> bounded_by tgt (items (dget_or discovery ''nested_repositories'' (PyList []))) \<and> listed tgt (items (dget (dget compiled ''scope'') ''allow''))
     \<and> phase = ''TEST_DESIGN'' \<and> \<not> listed tgt (items (boundary c ''source''))"
    using compiled_decides [OF assms(2) [unfolded precheck_scope_def Let_def b] assms(3), of phase g] assms(4) by simp
  then show "phase = ''TEST_DESIGN''" "g = dget governance ''digest''"
    "\<not> bounded_by tgt (items (dget_or discovery ''dirty_tracked'' (PyList [])))"
    "\<not> bounded_by tgt (items (dget_or discovery ''nested_repositories'' (PyList [])))" by blast+
  have "listed tgt (items (py_strings (sorted_set (strings (boundary c ''source'') @ FRAMEWORK_TESTS))))"
    using d s by (auto simp: scope_of_def FRAMEWORK_TESTS_def)
  then have "listed tgt (map PyStr FRAMEWORK_TESTS)" using d unfolding listed_sorted text_items [OF src] by blast
  then show "\<exists>x \<in> set FRAMEWORK_TESTS. covered tgt x" using framework_tests_normal by (auto simp: listed_def)
qed

text \<open>
  C9: what a precheck returns is good for the task it was built for. A task that carries the artifacts passes the
  check of the state machine on entry to TRIAGE; the body is sealed and is what its file below .aegis/audit holds;
  governance is after the three writes what the snapshot says; and the write scope lets a write pass only in test
  design, under the digest of that snapshot, below a test directory of the framework, and outside every tracked
  file that was changed and every nested repository that discovery found.
\<close>
theorem precheck_sound:
  assumes "build_precheck v q d = (d', Inr body)" and "plain (we_root (pc_ws v))"
  shows "(\<forall>task. dget task ''precheck'' = dget body ''artifacts'' \<longrightarrow> validate_precheck task = Inr ())
    \<and> dget (dpop body ''path'') ''digest'' = PyStr (policy_digest (dpop body ''path''))
    \<and> read d' (precheck_path body) = Some (json_text (dpop body ''path''))
    \<and> capture_governance (we_root (pc_ws v)) d' = Inr (dget (dget body ''artifacts'') ''governance_snapshot'')
    \<and> (\<forall>p tgt phase g. normalize p False = Inr tgt \<and> write_authorized (dget (dget body ''artifacts'') ''write_scope'') p phase g = Inr True \<longrightarrow>
        phase = ''TEST_DESIGN'' \<and> g = dget (dget (dget body ''artifacts'') ''governance_snapshot'') ''digest''
        \<and> (\<exists>x \<in> set FRAMEWORK_TESTS. covered tgt x)
        \<and> \<not> bounded_by tgt (items (dget (discover_repository (pc_ws v) d) ''dirty_tracked''))
        \<and> \<not> bounded_by tgt (items (dget (discover_repository (pc_ws v) d) ''nested_repositories'')))"
  using assms(1)
proof (rule build_precheckE)
  let ?r = "we_root (pc_ws v)" and ?disc = "discover_repository (pc_ws v) d"
  fix governance compiled workspace d1 d2 p1 p2
  assume g: "capture_governance ?r d = Inr governance" and w1: "write_discovery_artifact ?r ?disc d = (d1, Inr p1)"
    and c: "compile_contract (pr_contract q) (pr_declared q) (pr_changed q) (pr_risk q) (pr_prior q) = Inr compiled"
    and w2: "write_compiled_policy ?r compiled d1 = (d2, Inr p2)"
    and f: "finish_precheck v q governance ?disc workspace compiled d2 = (d', Inr body)"
  obtain scope artifacts where s: "precheck_scope (pr_contract q) compiled ?disc governance = Inr scope"
    and a: "precheck_artifacts v d2 q governance ?disc workspace compiled scope = Inr artifacts" "dget body ''artifacts'' = PyDict artifacts"
    and b: "dget (dpop body ''path'') ''digest'' = PyStr (policy_digest (dpop body ''path''))"
      "read d' (precheck_path body) = Some (json_text (dpop body ''path''))" "capture_governance ?r d' = capture_governance ?r d2"
    using finish_precheckE [OF f assms(2)] by metis
  note sealed = artifacts_sealed [OF a(1) captured_sealed [OF g] discovered_sealed compiled_sealed [OF c] scope_sealed [OF s]]
  have 1: "\<forall>task. dget task ''precheck'' = dget body ''artifacts'' \<longrightarrow> validate_precheck task = Inr ()"
    using sealed_artifacts_pass [OF sealed] by (simp add: a(2))
  have k: "dget (dget body ''artifacts'') ''governance_snapshot'' = governance" "dget (dget body ''artifacts'') ''write_scope'' = scope"
    unfolding a(2) using a(1) by (auto simp: precheck_artifacts_def res_bind_Inr)
  have 2: "capture_governance ?r d' = Inr governance"
    using b(3) policy_written [OF w2 assms(2)] discovery_written [OF w1 assms(2)] g by simp
  have o: "dget_or ?disc x (PyList []) = dget ?disc x" if "x = ''dirty_tracked'' \<or> x = ''nested_repositories''" for x
    using that by (intro dget_or_key dget_not_None_key) (auto simp: discovered_lists found_def py_strings_def)
  note decides = precheck_scope_decides [OF c s]
  show ?thesis unfolding k using 1 2 b(1,2) decides o by auto
qed

text \<open>
  A test file below tests/ is in the test paths of the scope but never in what it allows, unless the contract names it
  as source, and then it counts as production: no phase may write it.
\<close>
lemma tests_directory_unwritable:
  assumes "build_precheck v q d = (d', Inr body)" and "normalize p False = Inr tgt" and "startswith tgt ''tests/''"
  shows "write_authorized (dget (dget body ''artifacts'') ''write_scope'') p phase g \<noteq> Inr True"
proof
  assume w: "write_authorized (dget (dget body ''artifacts'') ''write_scope'') p phase g = Inr True"
  obtain governance compiled workspace d2 scope artifacts
    where c: "compile_contract (pr_contract q) (pr_declared q) (pr_changed q) (pr_risk q) (pr_prior q) = Inr compiled"
      and s: "precheck_scope (pr_contract q) compiled (discover_repository (pc_ws v) d) governance = Inr scope"
      and a: "precheck_artifacts v d2 q governance (discover_repository (pc_ws v) d) workspace compiled scope = Inr artifacts"
      and b: "dget body ''artifacts'' = PyDict artifacts"
    using assms(1) by (auto simp: finish_precheck_def Let_def res_bind_Inr precheck_body_def split: sum.splits if_splits prod.splits elim!: build_precheckE)
  have "dget (dget body ''artifacts'') ''write_scope'' = scope" unfolding b using a by (auto simp: precheck_artifacts_def res_bind_Inr)
  then have "\<exists>x \<in> set FRAMEWORK_TESTS. covered tgt x" using precheck_scope_decides(3) [OF c s assms(2)] w by simp
  moreover have "hd tgt = CHR ''t''" "tgt \<noteq> []" using assms(3) by (auto simp: startswith_iff)
  moreover have "list_all (\<lambda>x. endswith (rstrip_slash x) ''/**'' \<and> hd (rstrip_slash (take (length (rstrip_slash x) - 3) (rstrip_slash x))) = CHR ''i''
      \<and> rstrip_slash (take (length (rstrip_slash x) - 3) (rstrip_slash x)) \<noteq> []) FRAMEWORK_TESTS" by code_simp
  ultimately show False by (auto simp: list_all_iff covered_def Let_def startswith_iff hd_append)
qed

section \<open>A precheck of a small project\<close>

definition small_project :: disk where "small_project = [([''.agents''], Directory)]"

definition small_env :: precheck_env where "small_env = \<lparr>pc_ws = tree_env, pc_linked = (\<lambda>p. None)\<rparr>"

definition small_request :: precheck_request where
  "small_request = \<lparr>pr_contract = sample_contract, pr_declared = [''refactor''], pr_changed = [], pr_risk = PyStr ''low'',
     pr_test_contract = PyStr (replicate 64 (CHR ''a'')), pr_oracle = PyStr (replicate 64 (CHR ''b'')), pr_prior = []\<rparr>"

lemma small_writable: "writable small_project [''.aegis'', x, y]" if "x \<noteq> ''..''" "y \<noteq> ''..''" "y \<noteq> ''AGENTS.md''"
  using that by (simp add: writable_def node_at_def small_project_def plain_def under_agents_def steps_def)

lemma tree_items_plain:
  assumes "\<forall>p \<in> set ps. \<not> is_path_redirect d p"
  shows "\<exists>xs. tree_items (tree_item v P d) ps = Inr xs"
  using assms
proof (induction ps)
  case (Cons p ps)
  then obtain xs where xs: "tree_items (tree_item v P d) ps = Inr xs" by auto
  have "\<not> is_path_redirect d p" using Cons(2) by simp
  then have "tree_item v P d p = Skip \<or> (\<exists>x. tree_item v P d p = Item x)"
    by (auto simp: tree_item_def Let_def is_path_redirect_def split: option.splits node.splits)
  then show ?case using xs by auto
qed simp

lemma tree_env_available:
  assumes "\<forall>p. \<not> is_path_redirect d p" and "\<not> exists d policy_path"
  shows "\<exists>w. workspace_fingerprint tree_env d = Inr w \<and> dget w ''available'' = PyBool True"
proof -
  let ?P = "\<lparr>fp_ephemeral = sort DEFAULT_EPHEMERAL, fp_include_ignored = [], fp_external_symlinks = []\<rparr>"
  obtain xs where xs: "tree_items (tree_item tree_env ?P d) (tree_paths d) = Inr xs" using tree_items_plain assms(1) by blast
  have "fingerprint_policy_of (we_toml tree_env) d = Inr ?P" using assms(2) by (simp add: fingerprint_policy_of_def)
  then have t: "tree_workspace_fingerprint tree_env d = Inr (dset (fingerprint ''tree'' (tree_payload (we_root tree_env) ?P xs)) ''file_count'' (PyInt (int (length xs))))"
    using xs by (simp add: tree_workspace_fingerprint_def)
  have "we_git tree_env args = Missing" for args by (simp add: tree_env_def)
  then have "workspace_fingerprint tree_env d = tree_workspace_fingerprint tree_env d"
    by (simp add: workspace_fingerprint_def git_workspace_fingerprint_def unavailable_def)
  then show ?thesis using t by (simp add: fingerprint_def)
qed

lemma small_discovery:
  "dget (discover_repository tree_env small_project) ''dirty_tracked'' = PyList []"
  "dget (discover_repository tree_env small_project) ''nested_repositories'' = PyList []"
  "dget (discover_repository tree_env small_project) ''instruction_hierarchy'' = PyList []"
proof -
  have "entered_names small_project [] = [''.agents'']" "entered_names small_project [''.agents''] = []"
    "visit_directory small_project [] = [(Governance_root, ''.agents'')]" "visit_directory small_project [''.agents''] = []" by code_simp+
  then have w: "walk_repository small_project [] = [(Governance_root, ''.agents'')]"
    by (simp add: walk_repository.simps [of small_project "[]"] walk_repository.simps [of small_project "[''.agents'']"])
  have "gf_dirty (git_facts_of tree_env) = []" by (simp add: git_facts_of_def answer_def tree_env_def)
  then show "dget (discover_repository tree_env small_project) ''dirty_tracked'' = PyList []"
    "dget (discover_repository tree_env small_project) ''nested_repositories'' = PyList []"
    "dget (discover_repository tree_env small_project) ''instruction_hierarchy'' = PyList []"
    by (simp_all add: discovered_lists w found_def py_strings_def sorted_set_def)
qed

lemma written_json: "writable d p \<Longrightarrow> plain r \<Longrightarrow> \<exists>d'. atomic_write_json r d (Rel p) x md = (d', Inr ()) \<and> updated d p (Some (json_text x)) d'"
  by (simp add: atomic_write_json_def write_updated)

lemma updated_plain:
  assumes "updated d p (Some b) d'" and "\<forall>q. \<not> is_path_redirect d q"
  shows "\<forall>q. \<not> is_path_redirect d' q"
proof
  fix q
  obtain i m where "node_at d' q = (if q = p then map_option (File i m) (Some b) else if Some b \<noteq> None \<and> q \<in> set (steps (butlast p)) then Some Directory else node_at d q)"
    using assms(1) unfolding updated_def by blast
  then show "\<not> is_path_redirect d' q" using assms(2) by (simp add: is_path_redirect_def)
qed

lemma small_scope:
  assumes "compile_contract sample_contract [''refactor''] [] (PyStr ''low'') [] = Inr compiled" and "is_digest (dget g ''digest'')"
  shows "\<exists>scope. precheck_scope sample_contract compiled (discover_repository tree_env small_project) g = Inr scope"
proof -
  have src: "boundary sample_contract f = PyList []" for f by (simp add: boundary_def boundaries_def sample_contract_def)
  have c: "dget compiled ''scope'' = scope_of sample_contract (py_strings [])"
  proof -
    have r: "dget sample_contract ''references'' = PyNone" by (simp add: sample_contract_def)
    have e: "validate_references PyNone b = Inr rs \<Longrightarrow> rs = []" "sorted_paths [] = Inr (py_strings [])" for b rs
      by (auto simp: validate_references_def res_bind_Inr Let_def sorted_paths_def py_strings_def strings_def)
    show ?thesis using assms(1) unfolding compile_contract_def r by (auto simp: Let_def res_bind_Inr dest!: e(1) simp: e(2))
  qed
  have o: "dget_or (discover_repository tree_env small_project) k (PyList []) = PyList []" if "k \<in> {''dirty_tracked'', ''nested_repositories''}" for k
  proof -
    have "dget (discover_repository tree_env small_project) k = PyList []" using that small_discovery by auto
    moreover from this have "has_key (discover_repository tree_env small_project) k" by (intro dget_not_None_key) simp
    ultimately show ?thesis by (simp add: dget_or_key)
  qed
  have b: "dget_or (dget_or sample_contract ''boundaries'' (PyDict [])) ''source'' (PyList []) = PyList []" by (simp add: sample_contract_def)
  let ?s = "scope_of sample_contract (py_strings [])"
  have "is_ok (patterns (items (dget ?s ''allow''))) \<and> is_ok (patterns (items (dget ?s ''deny''))) \<and> is_ok (patterns (map PyStr TEST_PATHS))
    \<and> items (dget ?s ''generated'') = [] \<and> items (dget ?s ''reference'') = []" by code_simp
  then obtain al de te where p: "patterns (items (dget ?s ''allow'')) = Inr al" "patterns (items (dget ?s ''deny'')) = Inr de" "patterns (map PyStr TEST_PATHS) = Inr te"
    and e: "items (dget ?s ''generated'') = []" "items (dget ?s ''reference'') = []" by (auto simp: is_ok_def split: sum.splits)
  have n: "patterns [] = Inr []" "boundary_patterns [] = Inr []" by (simp_all add: patterns_def boundary_patterns_def)
  show ?thesis using assms(2) unfolding precheck_scope_def Let_def c compile_write_scope_def p e b
    by (simp add: o n p guard_def)
qed

lemma finish_completes:
  assumes "capture_governance r e = Inr g" and "compile_contract c declared changed risk prior = Inr compiled"
    and "precheck_scope (pr_contract q) compiled (discover_repository w e) g = Inr scope"
    and "instruction_provenance v d (discover_repository w e) = Inr provenance"
    and "\<And>x. writable d (audit_dir @ [''precheck-'' @ x @ ''.json''])" and "plain (we_root (pc_ws v))"
  shows "\<exists>d' body. finish_precheck v q g (discover_repository w e) ws compiled d = (d', Inr body)"
proof -
  let ?r = "we_root (pc_ws v)"
  obtain as where a: "precheck_artifacts v d q g (discover_repository w e) ws compiled scope = Inr as"
    using assms(4) by (simp add: precheck_artifacts_def)
  have "list_all (\<lambda>a. sealed (snd a)) as"
    by (rule artifacts_sealed(1) [OF a captured_sealed [OF assms(1)] discovered_sealed compiled_sealed [OF assms(2)] scope_sealed [OF assms(3)]])
  then have nb: "\<not> list_ex (\<lambda>a. \<not> bound (snd a)) as" using sealed_passes(1) by (auto simp: list_ex_iff list_all_iff)
  let ?b = "precheck_body ?r as compiled"
  have "writable d (precheck_path ?b)" using assms(5) by (simp add: precheck_path_def)
  then obtain d3 where "atomic_write_json ?r d (Rel (precheck_path ?b)) ?b (Some 384) = (d3, Inr ())" using written_json assms(6) by blast
  then show ?thesis using assms(3) a nb by (simp add: finish_precheck_def Let_def)
qed

lemma small_succeeds: "\<exists>d' body. build_precheck small_env small_request small_project = (d', Inr body)"
proof -
  let ?r = "[''srv'', ''app'']" and ?disc = "discover_repository tree_env small_project"
  have r: "we_root (pc_ws small_env) = ?r" "pc_ws small_env = tree_env" "plain ?r" "we_root tree_env = ?r" by (simp_all add: small_env_def tree_env_def plain_def)
  have q: "canonical_digest (pr_test_contract small_request)" "canonical_digest (pr_oracle small_request)" by code_simp+
  obtain g where g: "capture_governance ?r small_project = Inr g"
    by (simp add: capture_governance_def Let_def agents_present_def is_dir_def node_at_def small_project_def agents_dir_def)
  let ?p1 = "[''.aegis'', ''audit'', ''repository-discovery-'' @ policy_digest ?disc @ ''.json'']"
  have w1: "writable small_project ?p1" by (intro small_writable) auto
  obtain d1 where d1: "atomic_write_json ?r small_project (Rel ?p1) ?disc (Some 384) = (d1, Inr ())" "updated small_project ?p1 (Some (json_text ?disc)) d1"
    using written_json [OF w1 r(3)] by blast
  have e1: "write_discovery_artifact ?r ?disc small_project = (d1, Inr ?p1)"
    using d1(1) discovery_sealed [of tree_env small_project] by (simp add: write_discovery_artifact_def Let_def audit_dir_def aegis_dir_def)
  have nr: "\<forall>q. \<not> is_path_redirect small_project q" by (simp add: is_path_redirect_def node_at_def small_project_def)
  have np: "\<not> exists d1 policy_path"
    using updated_node [OF d1(2), of policy_path] by (simp add: exists_def policy_path_def node_at_def small_project_def strict_prefix_def prefix_def)
  obtain ws where ws: "workspace_fingerprint tree_env d1 = Inr ws" "dget ws ''available'' = PyBool True"
    using tree_env_available [OF updated_plain [OF d1(2) nr] np] by blast
  obtain compiled where c: "compile_contract sample_contract [''refactor''] [] (PyStr ''low'') [] = Inr compiled" using sample_compiles by blast
  let ?p2 = "[''.aegis'', ''compiled-policy'', policy_digest compiled @ ''.json'']"
  have ext: "x @ ''.json'' \<noteq> ''..'' \<and> x @ ''.json'' \<noteq> ''AGENTS.md''" for x :: string
    by (auto simp: append_eq_Cons_conv)
  have w2: "writable small_project ?p2" by (rule small_writable) (use ext in auto)
  have sp: "\<not> strict_prefix [a, b, c] [a', b', c']" for a b c a' b' c' :: string by (auto simp: strict_prefix_def prefix_def)
  have w2': "writable d1 ?p2" by (rule updated_writable [OF d1(2) w1 w2 sp sp])
  obtain d2 where d2: "atomic_write_json ?r d1 (Rel ?p2) compiled (Some 384) = (d2, Inr ())" "updated d1 ?p2 (Some (json_text compiled)) d2"
    using written_json [OF w2' r(3)] by blast
  have cs: "dget compiled ''digest'' = PyStr (policy_digest compiled)" "is_dict compiled" using compile_contract_Inr [OF c] by metis+
  have e2: "write_compiled_policy ?r compiled d1 = (d2, Inr ?p2)" using d2(1) cs by (simp add: write_compiled_policy_def Let_def aegis_dir_def)
  have "is_digest (dget g ''digest'')" using captured_sealed [OF g] by (auto simp: sealed_def is_digest_def)
  then obtain scope where s: "precheck_scope sample_contract compiled ?disc g = Inr scope" using small_scope [OF c] by blast
  have "writable d2 (audit_dir @ [''precheck-'' @ x @ ''.json''])" for x
  proof -
    have "writable small_project [''.aegis'', ''audit'', ''precheck-'' @ x @ ''.json'']" by (rule small_writable) auto
    then show ?thesis using updated_writable [OF d2(2) w2' updated_writable [OF d1(2) w1]] sp by (simp add: audit_dir_def aegis_dir_def)
  qed
  moreover obtain x where "instruction_provenance small_env d2 ?disc = Inr x"
    using small_discovery(3) by (simp add: instruction_provenance_def dget_or_key dget_not_None_key)
  ultimately have "\<exists>d' body. finish_precheck small_env small_request g ?disc ws compiled d2 = (d', Inr body)"
    using s by (intro finish_completes [OF g c]) (simp_all add: small_request_def r)
  then show ?thesis
    using q g e1 ws c e2 by (simp add: build_precheck_def Let_def r(1,2,4) io_bind_def io_get_def small_request_def)
qed

theorem precheck_sound_witness:
  "\<exists>d' body. build_precheck small_env small_request small_project = (d', Inr body)
    \<and> validate_precheck (PyDict [(''precheck'', dget body ''artifacts'')]) = Inr ()
    \<and> capture_governance [''srv'', ''app''] d' = Inr (dget (dget body ''artifacts'') ''governance_snapshot'')"
proof -
  obtain d' body where b: "build_precheck small_env small_request small_project = (d', Inr body)" using small_succeeds by blast
  have r: "we_root (pc_ws small_env) = [''srv'', ''app'']" "plain (we_root (pc_ws small_env))" by (simp_all add: small_env_def tree_env_def plain_def)
  show ?thesis using precheck_sound [OF b r(2)] b unfolding r(1) by auto
qed

end
