(* ===== verification/Context_Cache.thy ===== *)
theory Context_Cache
  imports Evidence Workspace
begin

text \<open>
  The ledger of what an agent has read, \<open>agentinfra/context_cache.py\<close>: files with their digest and identity, external
  sources with a fingerprint and a term, and summaries of logs, in one JSON file. The theory shows when a recorded
  file counts as fresh and that an external source is fresh only with a matching fingerprint or verified provenance.

  \<open>ce_stat\<close> is the value of \<open>_stat_identity\<close>, \<open>ce_parent\<close> the real place of a directory below the root (or
  nothing, outside it), \<open>ce_link\<close> where a link leads (nowhere, or inside the root or not), \<open>ce_until\<close> the end of a term from now, and \<open>ce_current\<close> whether that end is still to
  come. Paths are given below the root and terms are whole numbers of seconds. What other processes do while a file is read is a function from readings
  to disks. The lock stands for its directory.
\<close>

section \<open>The ledger\<close>

record cache_env =
  ce_root :: path
  ce_now :: string
  ce_stat :: "disk \<Rightarrow> path \<Rightarrow> pyval"
  ce_parent :: "path \<Rightarrow> path option"
  ce_link :: "disk \<Rightarrow> path \<Rightarrow> bool option"
  ce_until :: "int \<Rightarrow> string res"
  ce_current :: "string \<Rightarrow> bool res"

definition cache_dir :: path where "cache_dir = aegis_dir @ [''cache'']"
definition ledger_path :: path where "ledger_path = cache_dir @ [''context-ledger.json'']"

definition source_key :: "string \<Rightarrow> string" where
  "source_key source = ''external:'' @ sha256 source"

definition validate_entry :: "pyval \<Rightarrow> unit res" where
  "validate_entry ent =
    (if \<not> is_dict ent then Inl (RuntimeErr ''context cache entry schema is invalid'')
     else res_bind (memb (dget ent ''kind'') [''file'', ''external'', ''summary''] (RuntimeErr ''context cache entry schema is invalid'')) (\<lambda>_.
     if dget ent ''kind'' = PyStr ''file'' then check_all
       [guard (list_all (\<lambda>f. is_str (dget ent f)) [''path'', ''sha256'', ''recorded_at'']) (RuntimeErr ''context cache file entry is malformed''),
        guard (is_dict (dget ent ''stat'') \<and> is_list (dget_or ent ''dependencies'' (PyList []))) (RuntimeErr ''context cache file entry stat/dependencies are malformed'')]
     else if dget ent ''kind'' = PyStr ''external'' then check_all
       [guard (list_all (\<lambda>f. is_str (dget ent f)) [''source'', ''fingerprint'', ''recorded_at'', ''provenance'']) (RuntimeErr ''context cache external entry is malformed''),
        guard (dget ent ''valid_until'' = PyNone \<or> is_str (dget ent ''valid_until'')) (RuntimeErr ''context cache external validity is malformed'')]
     else guard (is_str (dget ent ''source'') \<and> is_str (dget ent ''sha256'') \<and> is_int (dget ent ''bytes'')) (RuntimeErr ''context cache summary entry is malformed'')))"

definition validate_cache :: "pyval \<Rightarrow> unit res" where
  "validate_cache data = check_all
     [guard (is_dict data \<and> py_eq (dget data ''schema'') (PyInt 3) \<and> is_dict (dget data ''sources'')) (RuntimeErr ''context cache schema is invalid''),
      for_each validate_entry (map snd (entries (dget data ''sources'')))]"

definition load_ledger :: "disk \<Rightarrow> pyval res" where
  "load_ledger d = (if \<not> exists d ledger_path then Inr (PyDict [(''schema'', PyInt 3), (''sources'', PyDict [])])
     else case json_at d ledger_path of
       None \<Rightarrow> Inl (RuntimeErr ''context cache corruption'')
     | Some data \<Rightarrow> res_bind (validate_cache data) (\<lambda>_. Inr data))"

text \<open>\<open>atomic_write_json\<close> without a root: redirected parents are refused, governance is not asked.\<close>

definition write_unrooted :: "path \<Rightarrow> string \<Rightarrow> int \<Rightarrow> unit io" where
  "write_unrooted p data m d = (if redirected d p then (d, Inl (AtomicWriteError ''refusing redirected target''))
     else case mkdir_parents d (butlast p) of
       Inl e \<Rightarrow> (d, Inl e)
     | Inr d1 \<Rightarrow> (case replace_file (write_temp d1 p m data) (temp_path d1 p) p of Inl e \<Rightarrow> (d1, Inl e) | Inr d2 \<Rightarrow> (d2, Inr ())))"

definition save_ledger :: "pyval \<Rightarrow> unit io" where
  "save_ledger data d = (case validate_cache data of Inl e \<Rightarrow> (d, Inl e) | Inr _ \<Rightarrow> write_unrooted ledger_path (json_text data) 384 d)"

definition with_source :: "pyval \<Rightarrow> string \<Rightarrow> pyval \<Rightarrow> pyval" where
  "with_source data key ent = dset data ''sources'' (dset (dget data ''sources'') key ent)"

text \<open>What every recording does under the lock.\<close>

definition store_source :: "string \<Rightarrow> pyval \<Rightarrow> pyval io" where
  "store_source key ent d = (case load_ledger d of
      Inl e \<Rightarrow> (d, Inl e)
    | Inr data \<Rightarrow> io_bind (save_ledger (with_source data key ent)) (\<lambda>_. io_return ent) d)"

section \<open>Files\<close>

text \<open>What \<open>Path.exists\<close> and \<open>Path.resolve\<close> find: nothing, or something inside the root or not.\<close>

definition followed :: "cache_env \<Rightarrow> disk \<Rightarrow> path \<Rightarrow> bool option" where
  "followed v d p = (case node_at d p of None \<Rightarrow> None | Some (Symlink t x) \<Rightarrow> ce_link v d p | Some _ \<Rightarrow> Some True)"

definition confined_source :: "cache_env \<Rightarrow> disk \<Rightarrow> path \<Rightarrow> bool \<Rightarrow> path res" where
  "confined_source v d p must_exist =
    (if ''..'' \<in> set p then Inl (SecurityError ''parent traversal is not allowed'')
     else if p = [] then Inl (SecurityError ''root itself is not a valid confined child path'')
     else case ce_parent v (butlast p) of
       None \<Rightarrow> Inl (SecurityError ''path escapes root'')
     | Some base \<Rightarrow> (case followed v d (base @ [last p]) of
         None \<Rightarrow> if must_exist then Inl (SecurityError ''required path does not exist'') else Inr (base @ [last p])
       | Some inside \<Rightarrow> if inside then Inr (base @ [last p]) else Inl (SecurityError ''resolved path escapes root'')))"

definition path_name :: "cache_env \<Rightarrow> path \<Rightarrow> string" where
  "path_name v p = root_name (ce_root v @ p)"

definition stat_identity :: "cache_env \<Rightarrow> disk \<Rightarrow> path \<Rightarrow> pyval res" where
  "stat_identity v d p = (if exists d p then Inr (ce_stat v d p) else Inl FileNotFoundErr)"

definition digest_of :: "disk \<Rightarrow> path \<Rightarrow> string res" where
  "digest_of d p = (case node_at d p of
      Some (File i m b) \<Rightarrow> Inr (sha256 b)
    | Some (Symlink t x) \<Rightarrow> Inr (sha256 t)
    | Some Directory \<Rightarrow> Inl (OSErr ''is a directory'')
    | None \<Rightarrow> Inl FileNotFoundErr)"

text \<open>One round of \<open>_consistent_digest\<close>: five readings, each of its own disk.\<close>

definition digest_round :: "cache_env \<Rightarrow> (nat \<Rightarrow> disk) \<Rightarrow> path \<Rightarrow> (string \<times> pyval) option res" where
  "digest_round v view p =
    res_bind (stat_identity v (view 0) p) (\<lambda>before.
    res_bind (digest_of (view 1) p) (\<lambda>digest.
    res_bind (stat_identity v (view 2) p) (\<lambda>middle.
    if \<not> py_eq before middle then Inr None
    else res_bind (digest_of (view 3) p) (\<lambda>confirm.
    res_bind (stat_identity v (view 4) p) (\<lambda>after.
    Inr (if py_eq middle after \<and> digest = confirm then Some (digest, after) else None))))))"

fun digest_rounds :: "nat \<Rightarrow> cache_env \<Rightarrow> (nat \<Rightarrow> nat \<Rightarrow> disk) \<Rightarrow> nat \<Rightarrow> path \<Rightarrow> (string \<times> pyval) res" where
  "digest_rounds 0 v view n p = Inl (RuntimeErr ''context source changed while it was being fingerprinted'')"
| "digest_rounds (Suc k) v view n p = (case digest_round v (view n) p of
      Inl e \<Rightarrow> Inl e
    | Inr (Some x) \<Rightarrow> Inr x
    | Inr None \<Rightarrow> digest_rounds k v view (Suc n) p)"

definition consistent_digest :: "cache_env \<Rightarrow> (nat \<Rightarrow> nat \<Rightarrow> disk) \<Rightarrow> path \<Rightarrow> (string \<times> pyval) res" where
  "consistent_digest v view p = digest_rounds 3 v view 0 p"

text \<open>A dependency with its digest and identity, as it is recorded.\<close>

type_synonym dependency = "path \<times> string \<times> pyval"

definition dependency_value :: "cache_env \<Rightarrow> dependency \<Rightarrow> pyval" where
  "dependency_value v x = (case x of (p, digest, ident) \<Rightarrow> PyDict [(''path'', PyStr (path_name v p)), (''sha256'', PyStr digest), (''stat'', ident)])"

definition read_dependency :: "cache_env \<Rightarrow> (nat \<Rightarrow> nat \<Rightarrow> nat \<Rightarrow> disk) \<Rightarrow> disk \<Rightarrow> nat \<times> path \<Rightarrow> dependency res" where
  "read_dependency v views d x = (case x of (i, p) \<Rightarrow> res_bind (confined_source v d p True) (\<lambda>q.
     res_bind (consistent_digest v (views i) q) (\<lambda>(digest, ident). Inr (q, digest, ident))))"

definition unchanged :: "cache_env \<Rightarrow> (nat \<Rightarrow> nat \<Rightarrow> nat \<Rightarrow> disk) \<Rightarrow> string \<Rightarrow> nat \<times> dependency \<Rightarrow> unit res" where
  "unchanged v views message x = (case x of (i, q, digest, ident) \<Rightarrow> res_bind (consistent_digest v (views i) q) (\<lambda>(current, now).
     guard (py_eq now ident \<and> current = digest) (RuntimeErr message)))"

definition file_entry :: "cache_env \<Rightarrow> path \<Rightarrow> string \<Rightarrow> pyval \<Rightarrow> dependency list \<Rightarrow> string \<Rightarrow> pyval" where
  "file_entry v q digest ident deps conclusion = PyDict [(''kind'', PyStr ''file''), (''path'', PyStr (path_name v q)), (''sha256'', PyStr digest), (''stat'', ident),
     (''dependencies'', PyList (map (dependency_value v) deps)), (''conclusion'', PyStr (redact_text conclusion)), (''recorded_at'', PyStr (ce_now v))]"

definition record_file :: "cache_env \<Rightarrow> (nat \<Rightarrow> nat \<Rightarrow> nat \<Rightarrow> disk) \<Rightarrow> path \<Rightarrow> string \<Rightarrow> path list \<Rightarrow> pyval io" where
  "record_file v views p conclusion required d = (let n = length required in
     case res_bind (confined_source v d p True) (\<lambda>q.
       res_bind (map_res (read_dependency v views d) (zip [0..<n] required)) (\<lambda>deps.
       res_bind (consistent_digest v (views n) q) (\<lambda>(digest, ident). Inr (q, deps, digest, ident)))) of
       Inl e \<Rightarrow> (d, Inl e)
     | Inr (q, deps, digest, ident) \<Rightarrow>
        io_bind (mkdir_io cache_dir) (\<lambda>_.
        io_bind (io_get (\<lambda>_. unchanged v views ''context source changed before cache commit'' (Suc n, q, digest, ident))) (\<lambda>_.
        io_bind (io_get (\<lambda>_. for_each (unchanged v views ''context dependency changed before cache commit'') (zip [n + 2..<2 * n + 2] deps))) (\<lambda>_.
        store_source (path_name v q) (file_entry v q digest ident deps conclusion)))) d)"

definition dependency_fresh :: "cache_env \<Rightarrow> disk \<Rightarrow> pyval \<Rightarrow> bool res" where
  "dependency_fresh v d dependency =
    (if \<not> is_dict dependency then Inl TypeErr
     else if \<not> has_key dependency ''path'' then Inl (KeyErr ''path'')
     else if \<not> is_str (dget dependency ''path'') then Inl TypeErr
     else let s = text_of (dget dependency ''path'') in
       if ''..'' \<in> set (path_parts s) then Inl (SecurityError ''parent traversal is not allowed'')
       else case below (ce_root v) (if startswith s [slash] then Abs (path_parts s) else Rel (path_parts s)) of
       None \<Rightarrow> Inl (SecurityError ''path escapes root'')
     | Some p \<Rightarrow> res_bind (confined_source v d p False) (\<lambda>q. Inr (followed v d q \<noteq> None \<and> py_eq (ce_stat v d q) (dget dependency ''stat''))))"

fun all_fresh :: "cache_env \<Rightarrow> disk \<Rightarrow> pyval list \<Rightarrow> bool res" where
  "all_fresh v d [] = Inr True"
| "all_fresh v d (x # xs) = res_bind (dependency_fresh v d x) (\<lambda>ok. if ok then all_fresh v d xs else Inr False)"

definition check_file :: "cache_env \<Rightarrow> (nat \<Rightarrow> nat \<Rightarrow> disk) \<Rightarrow> path \<Rightarrow> disk \<Rightarrow> pyval res" where
  "check_file v view p d =
    res_bind (confined_source v d p False) (\<lambda>q.
    res_bind (load_ledger d) (\<lambda>data.
    let old = dget (dget data ''sources'') (path_name v q) in
    if \<not> truthy old then Inr (PyDict [(''known'', PyBool False), (''fresh'', PyBool False)])
    else if \<not> exists d q then Inr (PyDict [(''known'', PyBool True), (''fresh'', PyBool False), (''reason'', PyStr ''missing'')])
    else res_bind (all_fresh v d (items (dget_or old ''dependencies'' (PyList [])))) (\<lambda>dependencies_fresh.
    if py_eq (ce_stat v d q) (dget old ''stat'') \<and> dependencies_fresh
    then Inr (PyDict [(''known'', PyBool True), (''fresh'', PyBool True), (''sha256'', dget old ''sha256''), (''previous'', dget old ''sha256''),
      (''conclusion'', dget_or old ''conclusion'' (PyStr [])), (''verified_by'', PyStr ''unchanged-filesystem-identity'')])
    else res_bind (consistent_digest v view q) (\<lambda>(digest, ident).
      Inr (PyDict [(''known'', PyBool True), (''fresh'', PyBool (PyStr digest = dget old ''sha256'' \<and> dependencies_fresh)), (''sha256'', PyStr digest),
        (''previous'', dget old ''sha256''), (''dependencies_fresh'', PyBool dependencies_fresh), (''conclusion'', dget_or old ''conclusion'' (PyStr [])),
        (''verified_by'', PyStr ''content-hash'')])))))"

section \<open>External sources and summaries\<close>

definition PROVENANCES :: "string list" where
  "PROVENANCES = [''caller-asserted'', ''http-etag'', ''content-sha256'', ''versioned-source'']"

definition valid_ttl :: "pyval \<Rightarrow> bool" where
  "valid_ttl ttl = (case ttl of PyNone \<Rightarrow> True | PyInt n \<Rightarrow> 0 \<le> n | _ \<Rightarrow> False)"

definition term_end :: "cache_env \<Rightarrow> pyval \<Rightarrow> pyval res" where
  "term_end v ttl = (case ttl of PyInt n \<Rightarrow> res_bind (ce_until v n) (\<lambda>s. Inr (PyStr s)) | _ \<Rightarrow> Inr PyNone)"

definition external_entry :: "cache_env \<Rightarrow> pyval \<Rightarrow> pyval \<Rightarrow> string \<Rightarrow> pyval \<Rightarrow> pyval \<Rightarrow> pyval" where
  "external_entry v source fprint conclusion provenance valid_until = PyDict [(''kind'', PyStr ''external''), (''source'', source), (''fingerprint'', fprint),
     (''provenance'', provenance), (''verified'', PyBool (provenance \<noteq> PyStr ''caller-asserted'')), (''conclusion'', PyStr (redact_text conclusion)),
     (''recorded_at'', PyStr (ce_now v)), (''valid_until'', valid_until)]"

definition record_external :: "cache_env \<Rightarrow> pyval \<Rightarrow> pyval \<Rightarrow> string \<Rightarrow> pyval \<Rightarrow> pyval \<Rightarrow> pyval io" where
  "record_external v source fprint conclusion ttl provenance d = (case res_bind (check_all
      [guard (is_text source \<and> is_text fprint) (ValueErr ''external source and fingerprint are required''),
       guard (valid_ttl ttl) (ValueErr ''external TTL must be finite and non-negative''),
       memb provenance PROVENANCES (ValueErr ''unsupported external fingerprint provenance'')]) (\<lambda>_. term_end v ttl) of
      Inl e \<Rightarrow> (d, Inl e)
    | Inr valid_until \<Rightarrow> io_bind (mkdir_io cache_dir) (\<lambda>_. store_source (source_key (text_of source))
        (external_entry v source fprint conclusion provenance valid_until)) d)"

definition check_external :: "cache_env \<Rightarrow> string \<Rightarrow> string option \<Rightarrow> disk \<Rightarrow> pyval res" where
  "check_external v source fprint d =
    res_bind (load_ledger d) (\<lambda>data.
    let old = dget (dget data ''sources'') (source_key source) in
    if \<not> truthy old \<or> dget old ''source'' \<noteq> PyStr source then Inr (PyDict [(''known'', PyBool False), (''fresh'', PyBool False)])
    else let until = dget old ''valid_until'' in
    res_bind (if truthy until then ce_current v (text_of until) else Inr True) (\<lambda>ttl_fresh.
    let fresh = (case fprint of
          None \<Rightarrow> truthy until \<and> ttl_fresh \<and> truthy (dget old ''verified'')
        | Some f \<Rightarrow> PyStr f = dget old ''fingerprint'' \<and> ttl_fresh);
        reason = (case fprint of
          None \<Rightarrow> if fresh then ''ttl+verified-provenance'' else ''fingerprint required or unverified provenance''
        | Some f \<Rightarrow> if fresh then ''fingerprint+ttl'' else ''fingerprint mismatch or expired ttl'') in
    Inr (PyDict [(''known'', PyBool True), (''fresh'', PyBool fresh), (''reason'', PyStr reason), (''previous'', dget old ''fingerprint''), (''valid_until'', until),
      (''verified_provenance'', PyBool (truthy (dget old ''verified''))), (''conclusion'', dget_or old ''conclusion'' (PyStr []))])))"

definition record_log_summary :: "cache_env \<Rightarrow> string \<Rightarrow> string \<Rightarrow> string \<Rightarrow> pyval io" where
  "record_log_summary v source raw failure_region = io_bind (mkdir_io cache_dir) (\<lambda>_. store_source (''summary:'' @ sha256 source)
     (PyDict [(''kind'', PyStr ''summary''), (''source'', PyStr source), (''sha256'', PyStr (sha256 raw)), (''bytes'', PyInt (int (length raw))),
       (''failure_region'', PyStr (redact_text (drop (length failure_region - 4000) failure_region))), (''recorded_at'', PyStr (ce_now v))]))"

section \<open>The ledger reads back what was stored\<close>

lemma write_unrooted_read:
  assumes "write_unrooted p data m d = (d', Inr u)" and "p \<noteq> []"
  shows "read d' p = Some data"
proof -
  obtain d1 where "replace_file (write_temp d1 p m data) (temp_path d1 p) p = Inr d'"
    using assms(1) by (auto simp: write_unrooted_def split: if_splits sum.splits)
  from replaced_disk(3) [OF this assms(2)] show ?thesis by (simp add: read_def)
qed

lemma cache_canon [simp]:
  "is_list (canon x) = is_list x" "is_str (canon x) = is_str x" "is_int (canon x) = is_int x"
  "canon x = PyStr s \<longleftrightarrow> x = PyStr s" "canon x = PyNone \<longleftrightarrow> x = PyNone" "PyStr s = canon x \<longleftrightarrow> x = PyStr s"
  "str_in (canon x) S = str_in x S" "text_of (canon x) = text_of x"
  by (cases x; auto simp: is_list_def is_str_def is_int_def text_of_def)+

lemma validate_entry_canon: "wf_val x \<Longrightarrow> validate_entry x = Inr () \<Longrightarrow> validate_entry (canon x) = Inr ()"
proof -
  assume w: "wf_val x" and v: "validate_entry x = Inr ()"
  have o: "is_list (dget_or (canon x) ''dependencies'' (PyList [])) = is_list (dget_or x ''dependencies'' (PyList []))"
    using dget_or_canon [OF w, of "''dependencies''" "PyList []"] by simp
  show ?thesis using v by (auto simp: validate_entry_def dget_canon [OF w] o res_bind_Inr guards split: if_splits)
qed

lemma validate_cache_canon:
  assumes "wf_val x" and "validate_cache x = Inr ()"
  shows "validate_cache (canon x) = Inr ()"
proof -
  let ?s = "dget x ''sources''"
  have v: "is_dict x" "py_eq (dget x ''schema'') (PyInt 3)" "is_dict ?s" "\<forall>y \<in> snd ` set (entries ?s). validate_entry y = Inr ()"
    using assms(2) by (auto simp: validate_cache_def guards)
  have ws: "wf_val ?s" using assms(1) by (rule wf_dget)
  have "validate_entry y = Inr ()" if "y \<in> snd ` set (entries (canon ?s))" for y
  proof -
    obtain k where "(k, y) \<in> set (entries (canon ?s))" using \<open>y \<in> _\<close> by auto
    then obtain z where "(k, z) \<in> set (entries ?s)" "y = canon z" using v(3) by (cases ?s) (auto simp: is_dict_def)
    then show ?thesis using v(4) validate_entry_canon wf_entries(2) [OF ws] by force
  qed
  then show ?thesis using v(1-3) by (auto simp: validate_cache_def dget_canon [OF assms(1)] guards)
qed

lemma load_ledger_wf: "load_ledger d = Inr data \<Longrightarrow> wf_val data \<and> is_dict data \<and> is_dict (dget data ''sources'')"
  by (auto simp: load_ledger_def json_at_def validate_cache_def guards bind_eq_Some_conv split: if_splits option.splits dest: json_loads_wf)

lemma ledger_path_ne: "ledger_path \<noteq> []"
  by (simp add: ledger_path_def)

lemma store_source_Inr:
  assumes "store_source key ent d = (d', Inr x)" and "wf_val ent"
  shows "x = ent" and "\<exists>data. (\<forall>e. read e ledger_path = read d' ledger_path \<longrightarrow> load_ledger e = Inr data) \<and> dget (dget data ''sources'') key = canon ent"
proof -
  obtain data where l: "load_ledger d = Inr data" using assms(1) by (auto simp: store_source_def split: sum.splits)
  let ?n = "with_source data key ent"
  have "io_bind (save_ledger ?n) (\<lambda>_. io_return ent) d = (d', Inr x)" using assms(1) by (simp add: store_source_def l)
  then obtain u d2 where "save_ledger ?n d = (d2, Inr u)" "io_return ent d2 = (d', Inr x)" unfolding io_bind_Inr by blast
  then have s: "save_ledger ?n d = (d', Inr u)" and x: "x = ent" by (simp_all add: io_return_def)
  show "x = ent" by (rule x)
  have v: "validate_cache ?n = Inr ()" and w: "write_unrooted ledger_path (json_text ?n) 384 d = (d', Inr u)"
    using s by (auto simp: save_ledger_def split: sum.splits)
  note wf = load_ledger_wf [OF l]
  have wn: "wf_val ?n" using wf assms(2) unfolding with_source_def by (intro wf_dset) (auto intro: wf_dset wf_dget)
  have r: "read d' ledger_path = Some (json_text ?n)" by (rule write_unrooted_read [OF w ledger_path_ne])
  have "load_ledger e = Inr (canon ?n)" if "read e ledger_path = read d' ledger_path" for e
  proof -
    have "exists e ledger_path" using that r by (auto simp: exists_def read_def split: option.splits)
    moreover have "json_at e ledger_path = Some (canon ?n)" using that r json_text_reads [OF wn] by (simp add: json_at_def)
    ultimately show ?thesis using validate_cache_canon [OF wn v] by (simp add: load_ledger_def)
  qed
  moreover have "dget (dget (canon ?n) ''sources'') key = canon ent"
  proof -
    have "dget (canon ?n) ''sources'' = canon (dset (dget data ''sources'') key ent)" using dget_canon [OF wn] by (simp add: with_source_def)
    moreover have "wf_val (dset (dget data ''sources'') key ent)" using wf assms(2) by (auto intro: wf_dset wf_dget)
    ultimately show ?thesis by (simp add: dget_canon)
  qed
  ultimately show "\<exists>data. (\<forall>e. read e ledger_path = read d' ledger_path \<longrightarrow> load_ledger e = Inr data) \<and> dget (dget data ''sources'') key = canon ent" by blast
qed

section \<open>When a recorded file is fresh\<close>

text \<open>What the readings promise: identities are JSON objects, and resolving a resolved directory changes nothing.\<close>

definition env_ok :: "cache_env \<Rightarrow> bool" where
  "env_ok v \<longleftrightarrow> normal (ce_root v) \<and> plain (ce_root v) \<and> (\<forall>x r. wf_val (ce_stat v x r))
     \<and> (\<forall>p b. ce_parent v p = Some b \<longrightarrow> ce_parent v b = Some b \<and> plain b \<and> normal b)"

text \<open>The code relies on identities to tell contents apart.\<close>

definition honest :: "cache_env \<Rightarrow> bool" where
  "honest v \<longleftrightarrow> (\<forall>x y r. py_eq (ce_stat v x r) (ce_stat v y r) \<longrightarrow> digest_of x r = digest_of y r)"

text \<open>No link leads out of the root.\<close>

definition contained :: "cache_env \<Rightarrow> disk \<Rightarrow> bool" where
  "contained v d \<longleftrightarrow> (\<forall>p. ce_link v d p \<noteq> Some False)"

lemma followed_inside: "contained v d \<Longrightarrow> followed v d p = Some b \<Longrightarrow> b"
  by (cases b) (auto simp: contained_def followed_def split: option.splits node.splits)

lemma digest_exists: "digest_of d p = Inr s \<Longrightarrow> exists d p"
  by (auto simp: digest_of_def exists_def split: option.splits)

lemma quiet_digest: "consistent_digest v (\<lambda>_ _. d) p = Inr x \<longleftrightarrow> digest_of d p = Inr (fst x) \<and> snd x = ce_stat v d p"
proof (cases "digest_of d p")
  case (Inl e)
  then show ?thesis by (cases "exists d p") (simp_all add: consistent_digest_def numeral_3_eq_3 digest_round_def stat_identity_def)
next
  case (Inr s)
  note e = digest_exists [OF Inr]
  have "py_eq y y" for y by (simp add: py_eq_def)
  then show ?thesis using Inr e by (cases x) (auto simp: consistent_digest_def numeral_3_eq_3 digest_round_def stat_identity_def)
qed

lemma root_name_parts: "normal r \<Longrightarrow> r \<noteq> [] \<Longrightarrow> path_parts (root_name r) = r"
proof -
  assume r: "normal r" "r \<noteq> []"
  have "path_parts (slash # s) = path_parts s" for s by (simp add: path_parts_def)
  then show ?thesis using path_parts_posix [OF r] by (simp add: root_name_def)
qed

lemma confined_source_Inr:
  assumes "confined_source v d p b = Inr q" and "env_ok v" and "normal p"
  shows "q \<noteq> []" and "normal q" and "\<And>e. contained v e \<Longrightarrow> confined_source v e q False = Inr q"
    and "\<And>e. contained v e \<Longrightarrow> confined_source v e p False = Inr q" and "plain q"
proof -
  obtain base where p: "''..'' \<notin> set p" "p \<noteq> []" "ce_parent v (butlast p) = Some base" "q = base @ [last p]"
    using assms(1) by (auto simp: confined_source_def split: if_splits option.splits)
  have b: "ce_parent v base = Some base" "plain base" "normal base" using assms(2) p(3) unfolding env_ok_def by blast+
  have l: "last p \<in> set p" using p(2) by simp
  have n: "last p \<noteq> ''..''" using l p(1) by metis
  show "q \<noteq> []" using p(4) by simp
  show "plain q" using b(2) n p(4) by (simp add: plain_def)
  show "normal q" using b(3) assms(3) l unfolding p(4) by (auto simp: normal_def)
  show "confined_source v e q False = Inr q" if "contained v e" for e
    using b p(4) n followed_inside [OF that] by (auto simp: confined_source_def plain_def split: option.splits)
  show "confined_source v e p False = Inr q" if "contained v e" for e
    using p followed_inside [OF that] by (auto simp: confined_source_def split: option.splits)
qed

lemma dependency_checked:
  assumes "env_ok v" and "normal p" and "confined_source v d p True = Inr q" and "contained v e"
  shows "dependency_fresh v e (canon (dependency_value v (q, s, ce_stat v d q))) = Inr (followed v e q \<noteq> None \<and> py_eq (ce_stat v e q) (ce_stat v d q))"
proof -
  note c = confined_source_Inr [OF assms(3,1,2)]
  let ?x = "dependency_value v (q, s, ce_stat v d q)"
  have w: "wf_val ?x" using assms(1) by (simp add: dependency_value_def env_ok_def)
  have g: "dget ?x ''path'' = PyStr (path_name v q)" "dget ?x ''stat'' = ce_stat v d q" "is_dict ?x" by (simp_all add: dependency_value_def)
  have k: "has_key (canon ?x) ''path''" by (rule dget_not_None_key) (simp add: dget_canon [OF w] g)
  have n: "normal (ce_root v @ q)" using assms(1) c(2) by (auto simp: env_ok_def normal_def)
  have b: "below (ce_root v) (if startswith (path_name v q) [slash] then Abs (path_parts (path_name v q)) else Rel (path_parts (path_name v q))) = Some q"
    using root_name_parts [OF n] c(1) by (simp add: path_name_def) (simp add: root_name_def)
  have d: "''..'' \<notin> set (path_parts (path_name v q))" using root_name_parts [OF n] c(1,5) assms(1) by (simp add: path_name_def plain_def env_ok_def)
  show ?thesis unfolding dependency_fresh_def using k b d c(3) [OF assms(4)] by (simp add: dget_canon [OF w] g Let_def text_of_def)
qed

lemma all_fresh_iff:
  assumes "\<forall>x \<in> set xs. dependency_fresh v e (f x) = Inr (P x)"
  shows "all_fresh v e (map f xs) = Inr (\<forall>x \<in> set xs. P x)"
  using assms by (induction xs) auto

text \<open>A dependency as a quiet recording of \<open>d\<close> sees it.\<close>

definition recorded_dependency :: "cache_env \<Rightarrow> disk \<Rightarrow> path \<Rightarrow> dependency \<Rightarrow> bool" where
  "recorded_dependency v d x y \<longleftrightarrow> (\<exists>r t. confined_source v d x True = Inr r \<and> digest_of d r = Inr t \<and> y = (r, t, ce_stat v d r))"

lemma quiet_dependencies:
  assumes "map_res (read_dependency v (\<lambda>_ _ _. d) d) (zip [0..<length required] required) = Inr deps"
  shows "list_all2 (recorded_dependency v d) required deps"
proof -
  have "list_all2 (\<lambda>x y. recorded_dependency v d (snd x) y) (zip [0..<length required] required) deps"
    using assms unfolding map_res_Inr
    by (rule list_all2_mono) (auto simp: read_dependency_def recorded_dependency_def res_bind_Inr quiet_digest split: prod.splits)
  then have "list_all2 (recorded_dependency v d) (map snd (zip [0..<length required] required)) deps" by (simp only: list_all2_map1)
  then show ?thesis by simp
qed

lemma record_file_quiet:
  assumes "record_file v (\<lambda>_ _ _. d) p conclusion required d = (d1, Inr ent)"
  obtains q s deps d0 where "confined_source v d p True = Inr q" and "digest_of d q = Inr s" and "list_all2 (recorded_dependency v d) required deps"
    and "store_source (path_name v q) (file_entry v q s (ce_stat v d q) deps conclusion) d0 = (d1, Inr ent)"
proof -
  let ?r = "res_bind (confined_source v d p True) (\<lambda>q.
       res_bind (map_res (read_dependency v (\<lambda>_ _ _. d) d) (zip [0..<length required] required)) (\<lambda>deps.
       res_bind (consistent_digest v (\<lambda>_ _. d) q) (\<lambda>(digest, ident). Inr (q, deps, digest, ident))))"
  obtain q deps s i where r: "?r = Inr (q, deps, s, i)"
    using assms by (cases ?r) (auto simp: record_file_def Let_def split: prod.splits)
  have q: "confined_source v d p True = Inr q" "map_res (read_dependency v (\<lambda>_ _ _. d) d) (zip [0..<length required] required) = Inr deps"
    "digest_of d q = Inr s" "i = ce_stat v d q" using r by (auto simp: res_bind_Inr quiet_digest)
  have "\<exists>d0. store_source (path_name v q) (file_entry v q s i deps conclusion) d0 = (d1, Inr ent)"
    using assms unfolding record_file_def Let_def r by (auto simp: io_bind_Inr)
  then show thesis using that q quiet_dependencies [OF q(2)] by blast
qed

definition same_dependency :: "cache_env \<Rightarrow> disk \<Rightarrow> disk \<Rightarrow> path \<Rightarrow> bool" where
  "same_dependency v d e x = (case confined_source v d x True of Inr r \<Rightarrow> followed v e r \<noteq> None \<and> py_eq (ce_stat v e r) (ce_stat v d r) | Inl _ \<Rightarrow> False)"

lemma recorded_all_fresh:
  assumes "env_ok v" and "\<forall>x \<in> set required. normal x" and "list_all2 (recorded_dependency v d) required deps" and "contained v e"
  shows "all_fresh v e (map (\<lambda>y. canon (dependency_value v y)) deps) = Inr (\<forall>x \<in> set required. same_dependency v d e x)"
  using assms(3,2)
proof (induction required deps rule: list_all2_induct)
  case (Cons x required y deps)
  obtain r t where r: "confined_source v d x True = Inr r" "y = (r, t, ce_stat v d r)" using Cons(1) by (auto simp: recorded_dependency_def)
  have "dependency_fresh v e (canon (dependency_value v y)) = Inr (same_dependency v d e x)"
    using dependency_checked [OF assms(1) _ r(1) assms(4)] Cons(4) unfolding r(2) by (simp add: same_dependency_def r(1))
  then show ?case using Cons(3,4) by simp
qed simp

lemma truthy_field: "dget x k = PyStr s \<Longrightarrow> truthy x"
proof -
  assume "dget x k = PyStr s"
  then have "has_key x k" by (intro dget_not_None_key) simp
  then show ?thesis by (cases x) (auto simp: has_key_def)
qed


section \<open>The first entry is stored\<close>

definition fresh_cache :: "disk \<Rightarrow> bool" where
  "fresh_cache d \<longleftrightarrow> (\<forall>q \<in> set (steps cache_dir). node_at d q = None \<or> node_at d q = Some Directory) \<and> node_at d ledger_path = None"

lemma ledger_steps [simp]: "butlast ledger_path = cache_dir" "set (steps ledger_path) = insert ledger_path (set (steps cache_dir))" "ledger_path \<notin> set (steps cache_dir)"
proof -
  show b: "butlast ledger_path = cache_dir" by (simp add: ledger_path_def)
  show "set (steps ledger_path) = insert ledger_path (set (steps cache_dir))" using steps_snoc [OF ledger_path_ne] by (simp add: b)
  show "ledger_path \<notin> set (steps cache_dir)" by (simp add: ledger_path_def cache_dir_def aegis_dir_def steps_def)
qed

lemma cache_made:
  assumes "fresh_cache d"
  obtains d0 where "mkdir_parents d cache_dir = Inr d0" and "fresh_cache d0" and "\<And>q. q \<notin> set (steps cache_dir) \<Longrightarrow> node_at d0 q = node_at d q"
proof -
  have n: "\<forall>q \<in> set (steps cache_dir). q \<noteq> []" by (auto dest: steps_prefix)
  obtain d0 where m: "make_dirs d (steps cache_dir) = Inr d0" using make_dirs_ok [of "steps cache_dir" d] n assms by (auto simp: fresh_cache_def)
  note nd = make_dirs_nodes [OF m n]
  have f: "fresh_cache d0" using assms by (simp add: fresh_cache_def nd)
  show thesis by (rule that [OF _ f]) (simp_all add: mkdir_parents_def m nd)
qed

lemma first_stored:
  assumes "fresh_cache d" and "validate_entry ent = Inr ()"
  obtains d' where "store_source key ent d = (d', Inr ent)" and "\<And>q. q \<notin> set (steps ledger_path) \<Longrightarrow> node_at d' q = node_at d q"
proof -
  let ?n = "with_source (PyDict [(''schema'', PyInt 3), (''sources'', PyDict [])]) key ent"
  have l: "load_ledger d = Inr (PyDict [(''schema'', PyInt 3), (''sources'', PyDict [])])" using assms(1) by (simp add: load_ledger_def exists_def fresh_cache_def)
  have v: "validate_cache ?n = Inr ()" using assms(2) by (simp add: with_source_def validate_cache_def guards dset_def [of "PyDict []"])
  obtain d0 where m: "mkdir_parents d cache_dir = Inr d0" "fresh_cache d0" "\<And>q. q \<notin> set (steps cache_dir) \<Longrightarrow> node_at d0 q = node_at d q"
    using cache_made [OF assms(1)] by blast
  let ?w = "write_temp d0 ledger_path 384 (json_text ?n)"
  have "\<not> is_dir d0 ledger_path" using m(2) by (simp add: fresh_cache_def is_dir_def)
  then obtain d2 where r: "replace_file ?w (temp_path d0 ledger_path) ledger_path = Inr d2"
    by (simp add: replace_file_def write_temp_def temp_path_props ledger_path_ne is_dir_def)
  have "\<not> redirected d ledger_path" using assms(1) by (auto simp: redirected_def fresh_cache_def is_path_redirect_def)
  then have "store_source key ent d = (d2, Inr ent)"
    by (simp add: store_source_def l save_ledger_def v write_unrooted_def m(1) r io_bind_def io_return_def)
  then show thesis by (rule that) (simp add: replaced_disk(3) [OF r ledger_path_ne] m(3))
qed

lemma quiet_read:
  assumes "list_all2 (recorded_dependency v d) required deps"
  shows "map_res (read_dependency v (\<lambda>_ _ _. d) d) (zip [0..<length required] required) = Inr deps"
proof -
  have "list_all2 (recorded_dependency v d) (map snd (zip [0..<length required] required)) deps" using assms by simp
  then have "list_all2 (\<lambda>x y. recorded_dependency v d (snd x) y) (zip [0..<length required] required) deps" by (simp only: list_all2_map1)
  then show ?thesis unfolding map_res_Inr
    by (rule list_all2_mono) (auto simp: read_dependency_def recorded_dependency_def res_bind_Inr quiet_digest split: prod.splits)
qed

lemma quiet_unchanged:
  assumes "digest_of d q = Inr s"
  shows "unchanged v (\<lambda>_ _ _. d) message (i, q, s, ce_stat v d q) = Inr ()"
  using quiet_digest [of v d q "(s, ce_stat v d q)"] assms by (simp add: unchanged_def guards)

text \<open>A quiet recording into a fresh cache succeeds and leaves every other file alone.\<close>

lemma record_file_done:
  assumes "fresh_cache d" and "confined_source v d p True = Inr q" and "digest_of d q = Inr s" and "is_dict (ce_stat v d q)"
    and "list_all2 (recorded_dependency v d) required deps"
  obtains d1 where "record_file v (\<lambda>_ _ _. d) p conclusion required d = (d1, Inr (file_entry v q s (ce_stat v d q) deps conclusion))"
    and "\<And>x. x \<notin> set (steps ledger_path) \<Longrightarrow> node_at d1 x = node_at d x"
proof -
  let ?en = "file_entry v q s (ce_stat v d q) deps conclusion" and ?n = "length required"
  obtain d0 where m: "mkdir_parents d cache_dir = Inr d0" "fresh_cache d0" "\<And>x. x \<notin> set (steps cache_dir) \<Longrightarrow> node_at d0 x = node_at d x"
    using cache_made [OF assms(1)] by blast
  have "validate_entry ?en = Inr ()" using assms(4) by (simp add: validate_entry_def file_entry_def guards memb_def)
  from first_stored [OF m(2) this] obtain d1 where st: "store_source (path_name v q) ?en d0 = (d1, Inr ?en)"
    "\<And>x. x \<notin> set (steps ledger_path) \<Longrightarrow> node_at d1 x = node_at d0 x" by blast
  have q: "consistent_digest v (\<lambda>_ _. d) q = Inr (s, ce_stat v d q)" using assms(3) by (simp add: quiet_digest)
  have "unchanged v (\<lambda>_ _ _. d) message (i, y) = Inr ()" if "y \<in> set deps" for message i y
  proof -
    obtain j where "y = deps ! j" "j < length deps" using \<open>y \<in> set deps\<close> by (auto simp: in_set_conv_nth)
    then have "recorded_dependency v d (required ! j) y" using assms(5) by (auto simp: list_all2_conv_all_nth)
    then show ?thesis by (auto simp: recorded_dependency_def quiet_unchanged)
  qed
  then have u: "for_each (unchanged v (\<lambda>_ _ _. d) message) (zip ns deps) = Inr ()" for message ns
    unfolding for_each_Inr by (auto dest: set_zip_rightD)
  have "record_file v (\<lambda>_ _ _. d) p conclusion required d = (d1, Inr ?en)"
    using u by (simp add: record_file_def Let_def assms(2) quiet_read [OF assms(5)] q mkdir_io_def m(1) io_bind_def io_get_def quiet_unchanged [OF assms(3)] st(1))
  then show thesis by (rule that) (simp add: st(2) m(3))
qed

section \<open>A file with a header\<close>

definition demo_stat :: "disk \<Rightarrow> path \<Rightarrow> pyval" where
  "demo_stat d p = PyDict (case node_at d p of
      Some (File i m b) \<Rightarrow> [(''inode'', PyInt (int i)), (''mtime_ns'', PyStr b)]
    | Some (Symlink t x) \<Rightarrow> [(''symlink_target'', PyStr t)]
    | Some Directory \<Rightarrow> [(''size'', PyInt 0)]
    | None \<Rightarrow> [])"

definition demo_cache :: cache_env where
  "demo_cache = \<lparr>ce_root = [''srv'', ''app''], ce_now = ''2026-01-01T00:00:00+00:00'', ce_stat = demo_stat,
     ce_parent = (\<lambda>p. if plain p \<and> normal p then Some p else None), ce_link = (\<lambda>_ _. None), ce_until = (\<lambda>_. Inr ''2026-02-01T00:00:00+00:00''), ce_current = (\<lambda>_. Inr True)\<rparr>"

definition demo_sources :: disk where
  "demo_sources = [([''main.c''], File 1 420 ''int x;''), ([''main.h''], File 2 420 ''void f();'')]"

lemma demo_fields [simp]:
  "ce_root demo_cache = [''srv'', ''app'']" "ce_stat demo_cache = demo_stat" "ce_parent demo_cache = (\<lambda>p. if plain p \<and> normal p then Some p else None)"
  "ce_link demo_cache = (\<lambda>_ _. None)"
  by (simp_all add: demo_cache_def)

lemma demo_env: "env_ok demo_cache" "honest demo_cache" "contained demo_cache d"
proof -
  show "env_ok demo_cache"
    by (auto simp: env_ok_def demo_stat_def normal_def plain_def slash_def split: option.splits node.splits if_splits)
  show "honest demo_cache"
    by (auto simp: honest_def demo_stat_def digest_of_def py_eq_def split: option.splits node.splits)
  show "contained demo_cache d" by (simp add: contained_def)
qed

lemma demo_fresh: "fresh_cache demo_sources"
  by (simp add: fresh_cache_def demo_sources_def node_at_def cache_dir_def ledger_path_def aegis_dir_def steps_def)

lemma demo_confined: "confined_source demo_cache d [x] True = Inr [x]" if "node_at d [x] = Some (File i m b)" and "x \<noteq> ''..''"
  using that by (simp add: confined_source_def followed_def plain_def normal_def)


section \<open>When an external source is fresh\<close>

definition still_current :: "cache_env \<Rightarrow> pyval \<Rightarrow> bool" where
  "still_current v valid_until \<longleftrightarrow> truthy valid_until \<longrightarrow> ce_current v (text_of valid_until) = Inr True"

lemma recorded_external:
  assumes "record_external v (PyStr source) (PyStr f) conclusion ttl provenance d = (d1, Inr ent)" and "read e ledger_path = read d1 ledger_path"
  obtains valid_until data where "term_end v ttl = Inr valid_until" and "valid_ttl ttl" and "str_in provenance PROVENANCES"
    and "load_ledger e = Inr data" and "dget (dget data ''sources'') (source_key source) = canon ent" and "wf_val ent"
    and "ent = external_entry v (PyStr source) (PyStr f) conclusion provenance valid_until"
proof -
  obtain valid_until where t: "term_end v ttl = Inr valid_until" "valid_ttl ttl" "str_in provenance PROVENANCES"
    and i: "io_bind (mkdir_io cache_dir) (\<lambda>_. store_source (source_key source) (external_entry v (PyStr source) (PyStr f) conclusion provenance valid_until)) d = (d1, Inr ent)"
    using assms(1) by (auto simp: record_external_def res_bind_Inr guards memb_def text_of_def split: sum.splits if_splits)
  let ?en = "external_entry v (PyStr source) (PyStr f) conclusion provenance valid_until"
  have "wf_val valid_until" using t(1) by (cases ttl) (auto simp: term_end_def res_bind_Inr)
  moreover have "wf_val provenance" using t(3) by (auto simp: str_in_iff)
  ultimately have w: "wf_val ?en" by (simp add: external_entry_def)
  obtain d0 where "store_source (source_key source) ?en d0 = (d1, Inr ent)" using i unfolding io_bind_Inr by blast
  note st = store_source_Inr [OF this w]
  obtain data where "load_ledger e = Inr data" "dget (dget data ''sources'') (source_key source) = canon ?en" using st(2) assms(2) by blast
  then show thesis using that t st(1) w by metis
qed

text \<open>
  An external source that was recorded and is checked later, with the ledger as it was written, is fresh without
  a fingerprint exactly when it was recorded with a term that has not ended and a provenance other than the caller's
  word, and with a fingerprint exactly when it is the recorded one and no term has ended.
\<close>
theorem recorded_external_fresh_iff:
  assumes "record_external v (PyStr source) (PyStr f) conclusion ttl provenance d = (d1, Inr ent)" and "read e ledger_path = read d1 ledger_path"
    and "\<forall>n s. ce_until v n = Inr s \<longrightarrow> s \<noteq> [] \<and> (\<exists>b. ce_current v s = Inr b)"
  shows "\<exists>report. check_external v source fprint e = Inr report \<and> dget report ''known'' = PyBool True \<and> dget report ''previous'' = PyStr f
    \<and> dget report ''conclusion'' = PyStr (redact_text conclusion)
    \<and> dget report ''fresh'' = PyBool (case fprint of
        None \<Rightarrow> ttl \<noteq> PyNone \<and> provenance \<noteq> PyStr ''caller-asserted'' \<and> still_current v (dget ent ''valid_until'')
      | Some g \<Rightarrow> g = f \<and> still_current v (dget ent ''valid_until''))"
proof -
  obtain valid_until data where t: "term_end v ttl = Inr valid_until" and vt: "valid_ttl ttl" and l: "load_ledger e = Inr data"
    and k: "dget (dget data ''sources'') (source_key source) = canon ent" and w: "wf_val ent"
    and en: "ent = external_entry v (PyStr source) (PyStr f) conclusion provenance valid_until"
    using recorded_external [OF assms(1,2)] by metis
  have vu: "canon valid_until = valid_until" using t by (cases ttl) (auto simp: term_end_def res_bind_Inr)
  have g: "dget (canon ent) ''source'' = PyStr source" "dget (canon ent) ''fingerprint'' = PyStr f" "dget (canon ent) ''valid_until'' = valid_until"
    "dget (canon ent) ''verified'' = PyBool (provenance \<noteq> PyStr ''caller-asserted'')" "dget ent ''valid_until'' = valid_until"
    "dget_or (canon ent) ''conclusion'' (PyStr []) = PyStr (redact_text conclusion)"
    using dget_or_canon [OF w, of "''conclusion''" "PyStr []"] vu by (simp_all add: dget_canon [OF w]) (simp_all add: en external_entry_def)
  have tr: "truthy (canon ent)" using g(1) by (rule truthy_field)
  have u: "(\<exists>s b. ttl \<noteq> PyNone \<and> valid_until = PyStr s \<and> s \<noteq> [] \<and> ce_current v s = Inr b) \<or> ttl = PyNone \<and> valid_until = PyNone"
    using t assms(3) vt by (cases ttl) (auto simp: term_end_def res_bind_Inr valid_ttl_def)
  then show ?thesis
    by (cases fprint) (auto simp: check_external_def l k tr g Let_def still_current_def text_of_def)
qed

theorem recorded_external_fresh_iff_witness:
  "\<exists>d1 ent report. record_external demo_cache (PyStr ''https://e.org'') (PyStr ''v1'') ''stable'' (PyInt 60) (PyStr ''http-etag'') demo_sources = (d1, Inr ent)
    \<and> check_external demo_cache ''https://e.org'' None d1 = Inr report \<and> dget report ''fresh'' = PyBool True"
proof -
  let ?v = demo_cache and ?d = demo_sources
  let ?en = "external_entry ?v (PyStr ''https://e.org'') (PyStr ''v1'') ''stable'' (PyStr ''http-etag'') (PyStr ''2026-02-01T00:00:00+00:00'')"
  have c: "ce_until ?v n = Inr ''2026-02-01T00:00:00+00:00''" "ce_current ?v s = Inr True" for n s by (simp_all add: demo_cache_def)
  have t: "term_end ?v (PyInt 60) = Inr (PyStr ''2026-02-01T00:00:00+00:00'')" by (simp add: term_end_def c)
  have v: "validate_entry ?en = Inr ()" by (simp add: validate_entry_def external_entry_def guards memb_def)
  obtain d0 where m: "mkdir_parents ?d cache_dir = Inr d0" "fresh_cache d0" using cache_made [OF demo_fresh] by blast
  obtain d1 where st: "store_source (source_key ''https://e.org'') ?en d0 = (d1, Inr ?en)" using first_stored [OF m(2) v] by blast
  have g: "\<not> blank ''https://e.org''" "\<not> blank ''v1''" by code_simp+
  have r: "record_external ?v (PyStr ''https://e.org'') (PyStr ''v1'') ''stable'' (PyInt 60) (PyStr ''http-etag'') ?d = (d1, Inr ?en)"
    by (simp add: record_external_def g t m(1) mkdir_io_def io_bind_def st valid_ttl_def memb_def PROVENANCES_def text_of_def guard_def)
  have h: "\<forall>n s. ce_until ?v n = Inr s \<longrightarrow> s \<noteq> [] \<and> (\<exists>b. ce_current ?v s = Inr b)" by (simp add: c) blast
  have s: "still_current ?v x" for x by (simp add: still_current_def c)
  show ?thesis using recorded_external_fresh_iff [OF r refl h, of None] r s by auto
qed

end
