(* ===== verification/Spec2Isabelle.thy ===== *)
theory Spec2Isabelle
  imports Assurance Review State_Machine Scope Controls Redaction Evidence Task_Schema Json_Text Base64 Governance Atomic Transaction Recovery Task_Rules Locks State_Store Stored_Tasks Task_Store Store_Laws Store_Transitions Store_Runs
    Versions Modules Module_Actions Final_Audit Law_Runtime Policy Text_Lines Manifest Archive Markers Bootstrap Workspace Runtime_Migration Discovery Precheck Context_Cache
begin

text \<open>
  A verification development of \<open>Aegis\<close>, the control plane under \<open>src/.agents/infra/agentinfra\<close> that
  governs how agents work on a repository: a task moves through a workflow from CREATED to FINALIZE, and
  every step is guarded by sealed receipts, by a hash-chained evidence ledger, by a write scope and by
  files that no operation may change.

  \<^bold>\<open>The program and its model.\<close> Python values are the datatype \<open>pyval\<close> of \<open>Py_Value\<close>, with the
  dictionary operations, equality and truth the sources use; \<open>Py_Prelude\<close> has exceptions as values of
  the type \<open>exn\<close>, results \<open>'a res\<close> (\<open>Inl\<close> the exception), guards in source order, and the collections
  of rules the proofs share. \<open>Json\<close> and \<open>Json_Text\<close> are the canonical, the indented and the
  one-line printer of \<open>json.dumps\<close> with a parser that reads each of them back; \<open>Sha256\<close> and \<open>Base64\<close>
  are executable; \<open>Sealing\<close> is the locale of records sealed by a digest over their other fields.

  \<^item> \<open>Assurance\<close> (\<open>assurance.py\<close>): TDD cycles and falsification receipts. The cycles reachable from
    a new one follow the TDD life cycle of their mode; receipts validate for what they were built for.
  \<^item> \<open>Review\<close> (\<open>review.py\<close>): receipts of an independent reviewer.
  \<^item> \<open>State_Machine\<close> (\<open>state_machine.py\<close>): the transition table and its guards, and what an accepted
    transition to IMPLEMENT, FINAL_AUDIT and FINALIZE implies.
  \<^item> \<open>Scope\<close> (\<open>scope.py\<close>): write scopes, the patterns that decide a write, and budgets.
  \<^item> \<open>Controls\<close> (\<open>controls.py\<close>), \<open>Redaction\<close> (\<open>security.py\<close>): waivers, decision records and
    dependency changes; redaction of secrets and the environment of subprocesses.
  \<^item> \<open>Evidence\<close> (\<open>evidence.py\<close>): the ledger as bytes of \<open>evidence.jsonl\<close> and its anchor. An append
    refines the append of one chained record to a list, and each crash point is a lemma.
  \<^item> \<open>Posix_Path\<close>, \<open>File_System\<close> (\<open>paths.py\<close>, \<open>security.py\<close>): disks as maps from paths to files,
    directories and symbolic links, computations on a disk, and path confinement.
  \<^item> \<open>Governance\<close> (\<open>governance.py\<close>), \<open>Atomic\<close> (\<open>atomic.py\<close>): governing files by path and by inode;
    atomic writes keep them, and never show a partial destination.
  \<^item> \<open>Transaction\<close>, \<open>Recovery\<close> (\<open>transaction.py\<close>): journalled transactions one disk operation at a
    time, and recovery. A run stopped anywhere leaves all old or all new bytes after recovery, but for
    two moments that block all later transactions.
  \<^item> \<open>Locks\<close> (\<open>locks.py\<close>): processes taking turns on a lock file, and leases.
  \<^item> \<open>Task_Schema\<close>, \<open>Task_Rules\<close>, \<open>State_Store\<close> (\<open>state_store.py\<close>): \<open>validate_task\<close>; the rules of
    a save, of proofs and of each public operation on a task value; the store on the disk.
  \<^item> \<open>Stored_Tasks\<close>, \<open>Task_Store\<close>, \<open>Store_Laws\<close>, \<open>Store_Transitions\<close>, \<open>Store_Runs\<close>: what the store promises. \<open>stored d i task as\<close>
    relates a disk to a map from identifiers to a task and its chain of anchors; \<open>load\<close>, \<open>create\<close> and
    \<open>mutate\<close> refine the lookup, insertion and replacement in that map, and \<open>transition\<close> the workflow;
    what stands behind a finalized task, what a save keeps, and what a new implementation resets; any sequence of
    public operations only extends the chains of the stored tasks.

  \<^item> \<open>Policy\<close> (\<open>policy.py\<close>, \<open>constitution.py\<close>): the constitution, project contracts and their compilation.
    What compiles weakens nothing and keeps every gate; more classes or paths never weaken it.
  \<^item> \<open>Final_Audit\<close> (\<open>final_audit.py\<close>), \<open>Law_Runtime\<close> (\<open>law_runtime.py\<close>): sealed observations and the
    receipt of a final audit; the life of a law record and the summary of a run.
  \<^item> \<open>Versions\<close>, \<open>Modules\<close>, \<open>Module_Actions\<close> (\<open>modules.py\<close>): semantic versions as a linear order (locale
    \<open>comparison\<close>), module manifests, the dependency graph, discovery, and actions that run in a copy of the
    workspace and are applied as one transaction.
  \<^item> \<open>Text_Lines\<close>, \<open>Manifest\<close> (\<open>manifest.py\<close>): the listing of the distribution, printed, parsed and verified;
    a digest of the manifest commits to the whole tree. \<open>Archive\<close>: building and extracting releases; extraction
    never changes a file that is there, and refuses every release.
  \<^item> \<open>Markers\<close>, \<open>Bootstrap\<close> (\<open>bootstrap.py\<close>): the managed block of \<open>AGENTS.md\<close>. Plans keep the text of the user
    and settle; applying them is refused, and a refusal leaves every file as it was.
  \<^item> \<open>Workspace\<close> (\<open>workspace.py\<close>): fingerprints of the working tree; equal ones mean equal files outside what
    the policy leaves out.
  \<^item> \<open>Discovery\<close> (\<open>discovery.py\<close>), \<open>Precheck\<close> (\<open>precheck.py\<close>): the walk over the repository and the sealed
    artifacts a task starts from. What a precheck builds passes the state machine, is bound to unchanged
    governance, and its scope keeps out of the boundaries discovered.
  \<^item> \<open>Runtime_Migration\<close> (\<open>runtime_migration.py\<close>): the copy of the runtime files of an older layout.
  \<^item> \<open>Context_Cache\<close> (\<open>context_cache.py\<close>): the ledger of files and sources that were read; when what it
    recorded still counts as fresh.

  \<^bold>\<open>How the parts interact.\<close> A public operation of the store loads the task and checks it against its
  anchor and the anchor history, runs the rules, and commits the new state, anchor and history entry in
  one transaction, which writes through \<open>atomic\<close> and so through \<open>governance\<close>. A transition asks the
  state machine, which asks the receipts of \<open>assurance\<close> and \<open>review\<close>; the ledger of \<open>evidence\<close> backs
  every proof. A precheck composes governance, discovery, workspace, policy and scope into the artifacts the
  state machine asks for.

  \<^bold>\<open>Bounds and fuel.\<close> The JSON parser takes the length of its input as fuel and is proved to need no
  more; substitution in \<open>Redaction\<close> takes the length of the text; \<open>tx_steps\<close> takes the number of steps,
  and \<open>tx_length\<close> of them are proved to finish a transaction. The search of the dependency graph is a
  \<open>partial_function\<close>, proved to return for every set of modules. All other definitions are total by
  structural recursion or a measure.

  \<^bold>\<open>Not modelled.\<close> Characters are bytes (no text outside Latin-1) and there are no floating-point
  numbers; the texts of error messages are shortened. Windows branches, \<open>fsync\<close> and permissions have no
  effect in the model. Readings from outside are parameters: the clock (one reading per operation), random
  identifiers, the age of a timestamp, the answers of git, process liveness, the outcome of a command,
  the TOML reader. In the store the locks stand for their directory only, and \<open>regenerate\<close> takes no lock.
  Python's limits on recursion and on the digits of an integer are left out, as are the bytes of ZIP
  archives, scaffolding of modules and detection of installed programs. The files that run
  processes, install and upgrade the control plane, the registry of laws, the command line, law tests and
  release scripts are not modelled, nor are the C++ and Rust schedulers of the repository.
\<close>

end
